(* ===== verification/Prelude.thy ===== *)
theory Prelude
  imports Complex_Main
begin

text \<open>
  Shared vocabulary of the development. A fallible Go function that returns \<open>(T, error)\<close> is
  modelled as a value of \<open>'e + 'a\<close>: \<open>Inl e\<close> is the error branch and \<open>Inr v\<close> the result.
  \<open>errors.Join\<close> collects several errors and is non-nil exactly when one of them is, so it is
  modelled by the list of the errors that occurred. The lemma collections \<open>go_bind\<close> and
  \<open>go_defs\<close> hold the rewrite rules the component proofs share.
\<close>

named_theorems go_bind "rules for the error-propagation combinators"

named_theorems go_defs "definitions of small guards that component proofs unfold"

type_synonym ('e, 'a) result = "'e + 'a"

section \<open>Error propagation\<close>

text \<open>The Go idiom \<^verbatim>\<open>v, err := f(); if err != nil { return err }; return g(v)\<close>.\<close>

definition bindr :: "('e, 'a) result \<Rightarrow> ('a \<Rightarrow> ('e, 'b) result) \<Rightarrow> ('e, 'b) result" where
  "bindr r k = (case r of Inl e \<Rightarrow> Inl e | Inr v \<Rightarrow> k v)"

text \<open>The Go idiom \<^verbatim>\<open>if cond { return err }\<close>.\<close>

definition failIf :: "bool \<Rightarrow> 'e \<Rightarrow> ('e, 'a) result \<Rightarrow> ('e, 'a) result" where
  "failIf c e k = (if c then Inl e else k)"

lemma bindr_Inl [simp, go_bind]: "bindr (Inl e) k = Inl e"
  by (simp add: bindr_def)

lemma bindr_Inr [simp, go_bind]: "bindr (Inr v) k = k v"
  by (simp add: bindr_def)

lemma bindr_eq_Inr [go_bind]: "bindr r k = Inr w \<longleftrightarrow> (\<exists>v. r = Inr v \<and> k v = Inr w)"
  by (auto simp: bindr_def split: sum.splits)

lemma bindr_eq_Inl [go_bind]:
  "bindr r k = Inl e \<longleftrightarrow> r = Inl e \<or> (\<exists>v. r = Inr v \<and> k v = Inl e)"
  by (auto simp: bindr_def split: sum.splits)

lemma failIf_eq_Inr [simp, go_bind]: "failIf c e k = Inr w \<longleftrightarrow> \<not> c \<and> k = Inr w"
  by (simp add: failIf_def)

lemma failIf_True [simp]: "failIf True e k = Inl e"
  by (simp add: failIf_def)

lemma failIf_False [simp]: "failIf False e k = k"
  by (simp add: failIf_def)

lemma failIf_eq_Inl [go_bind]: "failIf c e k = Inl e' \<longleftrightarrow> (c \<and> e' = e) \<or> (\<not> c \<and> k = Inl e')"
  by (auto simp: failIf_def)

lemma result_cases_Inr: "(\<exists>v. r = Inr v) \<longleftrightarrow> \<not> isl r"
  by (cases r) auto

text \<open>
  \<open>errors.Join(errs...)\<close>: the joined error is nil exactly when the list is empty; the model
  keeps the list, so the error value says which checks failed.
\<close>

definition joinErrs :: "'e list \<Rightarrow> ('e list, 'a) result \<Rightarrow> ('e list, 'a) result" where
  "joinErrs es k = (if es = [] then k else Inl es)"

lemma joinErrs_Nil [simp]: "joinErrs [] k = k"
  by (simp add: joinErrs_def)

lemma joinErrs_eq_Inr [simp, go_bind]: "joinErrs es k = Inr w \<longleftrightarrow> es = [] \<and> k = Inr w"
  by (simp add: joinErrs_def)

lemma joinErrs_eq_Inl [go_bind]: "joinErrs es k = Inl e \<longleftrightarrow> (es \<noteq> [] \<and> e = es) \<or> (es = [] \<and> k = Inl e)"
  by (auto simp: joinErrs_def)

text \<open>One conditional error of a joined list.\<close>

definition errIf :: "bool \<Rightarrow> 'e \<Rightarrow> 'e list" where
  "errIf c e = (if c then [e] else [])"

lemma errIf_eq_Nil [simp, go_bind]: "errIf c e = [] \<longleftrightarrow> \<not> c"
  by (simp add: errIf_def)

lemma errIf_simps [simp]: "errIf True e = [e]" "errIf False e = []"
  by (simp_all add: errIf_def)

lemma set_errIf: "set (errIf c e) = (if c then {e} else {})"
  by (simp add: errIf_def)

end
