(* ===== verification/Float64.thy ===== *)
theory Float64
  imports Prelude "HOL-Library.Log_Nat"
begin

text \<open>
  Go's \<open>float64\<close>: IEEE 754 binary64 with round-to-nearest, ties-to-even, as an executable
  shallow model. A finite value is the rational it denotes; every arithmetic operation rounds its
  exact result with \<open>rnd\<close>, overflow gives an infinity, and comparisons with \<open>NaN\<close> are false.
  The two zeros are one value: nothing that is modelled reads the sign of a zero. A division by
  zero takes the zero as positive. \<open>is_f64\<close> says that a value is one a 64-bit float can hold;
  the operations only produce such values.
\<close>

section \<open>Rounding a rational to binary64\<close>

datatype f64 = NaN | PInf | NInf | Fin rat

definition rne :: "rat \<Rightarrow> int" where
  "rne x = (let f = \<lfloor>x\<rfloor>; d = x - of_int f in
     if d < 1/2 then f else if d > 1/2 then f + 1 else if even f then f else f + 1)"

definition ilog2 :: "rat \<Rightarrow> int" where
  "ilog2 x = (let (a, b) = quotient_of x; k = bitlen a - bitlen b in
     if 2 powi k \<le> x then k else k - 1)"

definition qexp :: "rat \<Rightarrow> int" where
  "qexp x = max (ilog2 \<bar>x\<bar> - 52) (-1074)"

definition rndq :: "rat \<Rightarrow> rat" where
  "rndq x = (if x = 0 then 0 else of_int (rne (x / 2 powi qexp x)) * 2 powi qexp x)"

definition f_huge :: rat where
  "f_huge = 2 powi 1024"

definition rnd :: "rat \<Rightarrow> f64" where
  "rnd x = (let r = rndq x in
     if r \<ge> f_huge then PInf else if r \<le> - f_huge then NInf else Fin r)"

fun is_f64 :: "f64 \<Rightarrow> bool" where
  "is_f64 (Fin r) \<longleftrightarrow> rndq r = r \<and> \<bar>r\<bar> < f_huge"
| "is_f64 _ \<longleftrightarrow> True"

section \<open>The operations the program uses\<close>

fun isFinite :: "f64 \<Rightarrow> bool" where
  "isFinite (Fin r) = True"
| "isFinite _ = False"

fun f_neg :: "f64 \<Rightarrow> f64" where
  "f_neg NaN = NaN"
| "f_neg PInf = NInf"
| "f_neg NInf = PInf"
| "f_neg (Fin r) = Fin (- r)"

fun f_add :: "f64 \<Rightarrow> f64 \<Rightarrow> f64" where
  "f_add (Fin a) (Fin b) = rnd (a + b)"
| "f_add NaN _ = NaN"
| "f_add _ NaN = NaN"
| "f_add PInf NInf = NaN"
| "f_add NInf PInf = NaN"
| "f_add PInf _ = PInf"
| "f_add _ PInf = PInf"
| "f_add NInf _ = NInf"
| "f_add _ NInf = NInf"

definition f_sub :: "f64 \<Rightarrow> f64 \<Rightarrow> f64" where
  "f_sub a b = f_add a (f_neg b)"

definition f_inf :: "rat \<Rightarrow> f64" where
  "f_inf s = (if s > 0 then PInf else if s < 0 then NInf else NaN)"

fun f_sgn :: "f64 \<Rightarrow> rat" where
  "f_sgn (Fin r) = sgn r"
| "f_sgn PInf = 1"
| "f_sgn NInf = - 1"
| "f_sgn NaN = 0"

fun f_mul :: "f64 \<Rightarrow> f64 \<Rightarrow> f64" where
  "f_mul (Fin a) (Fin b) = rnd (a * b)"
| "f_mul NaN _ = NaN"
| "f_mul _ NaN = NaN"
| "f_mul a b = f_inf (f_sgn a * f_sgn b)"

fun f_div :: "f64 \<Rightarrow> f64 \<Rightarrow> f64" where
  "f_div (Fin a) (Fin b) = (if b = 0 then f_inf (sgn a) else rnd (a / b))"
| "f_div NaN _ = NaN"
| "f_div _ NaN = NaN"
| "f_div (Fin _) _ = Fin 0"
| "f_div PInf (Fin b) = (if b < 0 then NInf else PInf)"
| "f_div NInf (Fin b) = (if b < 0 then PInf else NInf)"
| "f_div _ _ = NaN"

fun f_lt :: "f64 \<Rightarrow> f64 \<Rightarrow> bool" where
  "f_lt (Fin a) (Fin b) = (a < b)"
| "f_lt NaN _ = False"
| "f_lt _ NaN = False"
| "f_lt NInf NInf = False"
| "f_lt NInf _ = True"
| "f_lt PInf _ = False"
| "f_lt (Fin _) PInf = True"
| "f_lt (Fin _) NInf = False"

fun f_le :: "f64 \<Rightarrow> f64 \<Rightarrow> bool" where
  "f_le (Fin a) (Fin b) = (a \<le> b)"
| "f_le NaN _ = False"
| "f_le _ NaN = False"
| "f_le NInf _ = True"
| "f_le _ PInf = True"
| "f_le PInf _ = False"
| "f_le (Fin _) NInf = False"

definition f_eq :: "f64 \<Rightarrow> f64 \<Rightarrow> bool" where
  "f_eq a b \<longleftrightarrow> a = b \<and> a \<noteq> NaN"

definition f_max :: "f64 \<Rightarrow> f64 \<Rightarrow> f64" where
  "f_max a b = (if a = PInf \<or> b = PInf then PInf else if a = NaN \<or> b = NaN then NaN
     else if f_lt b a then a else b)"

definition f_min :: "f64 \<Rightarrow> f64 \<Rightarrow> f64" where
  "f_min a b = (if a = NInf \<or> b = NInf then NInf else if a = NaN \<or> b = NaN then NaN
     else if f_lt a b then a else b)"

fun f_floor :: "f64 \<Rightarrow> f64" where
  "f_floor (Fin r) = Fin (of_int \<lfloor>r\<rfloor>)"
| "f_floor x = x"

text \<open>
  The conversion \<open>float64(n)\<close> of an integer, and \<open>int64(x)\<close> of a finite float whose integer part
  fits: the program converts only values it has bounded below \<open>2^53\<close>.
\<close>

definition f_of_int :: "int \<Rightarrow> f64" where
  "f_of_int n = rnd (of_int n)"

fun f_to_int :: "f64 \<Rightarrow> int" where
  "f_to_int (Fin r) = (if r < 0 then \<lceil>r\<rceil> else \<lfloor>r\<rfloor>)"
| "f_to_int _ = - (2 ^ 63)"

text \<open>A decimal literal of the source: the nearest float.\<close>

definition f_lit :: "rat \<Rightarrow> f64" where
  "f_lit r = rnd r"

text \<open>The predicate the non-negative amounts of the program satisfy.\<close>

definition f_nonneg :: "f64 \<Rightarrow> bool" where
  "f_nonneg x \<longleftrightarrow> f_le (Fin 0) x"

section \<open>Rounding lemmas\<close>

subsection \<open>Rounding to an integer\<close>

lemma rne_bounds: "of_int (rne x) - 1/2 \<le> x \<and> x \<le> of_int (rne x) + 1/2"
  unfolding rne_def Let_def by (auto split: if_splits) linarith+

lemma rne_of_int [simp]: "rne (of_int n) = n"
  by (simp add: rne_def)

lemma rne_floor: "rne x = \<lfloor>x\<rfloor> \<or> rne x = \<lfloor>x\<rfloor> + 1"
  unfolding rne_def Let_def by auto

lemma rne_mono:
  assumes "x \<le> y"
  shows "rne x \<le> rne y"
proof (cases "\<lfloor>x\<rfloor> = \<lfloor>y\<rfloor>")
  case True
  with assms show ?thesis unfolding rne_def Let_def by (auto split: if_splits)
next
  case False
  with assms have "\<lfloor>x\<rfloor> + 1 \<le> \<lfloor>y\<rfloor>" using floor_mono [OF assms] by linarith
  with rne_floor [of x] rne_floor [of y] show ?thesis by linarith
qed

lemma rne_le: "x \<le> of_int n \<Longrightarrow> rne x \<le> n"
  using rne_mono [of x "of_int n"] by simp

lemma rne_ge: "of_int n \<le> x \<Longrightarrow> n \<le> rne x"
  using rne_mono [of "of_int n" x] by simp

lemma floor_uminus_not_int:
  assumes "x \<noteq> of_int \<lfloor>x\<rfloor>"
  shows "\<lfloor>- x\<rfloor> = - \<lfloor>x\<rfloor> - 1"
  using assms of_int_floor_le [of x] floor_correct [of x] by (intro floor_unique) (simp_all, linarith+)

lemma rne_uminus: "rne (- x) = - rne x"
proof (cases "x = of_int \<lfloor>x\<rfloor>")
  case True
  then have "rne x = \<lfloor>x\<rfloor>" and "rne (- x) = - \<lfloor>x\<rfloor>"
    by (metis rne_of_int) (metis True rne_of_int of_int_minus)
  then show ?thesis by simp
next
  case False
  note f = floor_uminus_not_int [OF False]
  show ?thesis unfolding rne_def Let_def f by (auto simp: field_simps)
qed

subsection \<open>The binary exponent\<close>

lemma two_powi_pos [simp]: "0 < (2::rat) powi k"
  by (simp add: zero_less_power_int)

lemma two_powi_neq0 [simp]: "(2::rat) powi k \<noteq> 0"
  using two_powi_pos [of k] by linarith

lemma two_powi_le_iff [simp]: "(2::rat) powi a \<le> 2 powi b \<longleftrightarrow> a \<le> b"
  using power_int_increasing [of a b "2::rat"] power_int_strict_increasing [of b a "2::rat"]
  by (cases "a \<le> b") auto

lemma two_powi_less_iff [simp]: "(2::rat) powi a < 2 powi b \<longleftrightarrow> a < b"
  using two_powi_le_iff [of b a] by (simp only: flip: not_le)

lemma f_huge_pos [simp]: "0 < f_huge"
  by (simp add: f_huge_def)

lemma two_powi_add: "(2::rat) powi (a + b) = 2 powi a * 2 powi b"
  by (simp add: power_int_add)

lemma two_powi_nat: "0 \<le> k \<Longrightarrow> (2::rat) powi k = of_int (2 ^ nat k)"
  by (simp add: power_int_def)

lemma bitlen_powi_bounds:
  assumes "0 < c"
  shows "(2::rat) powi (bitlen c - 1) \<le> of_int c" and "of_int c < (2::rat) powi bitlen c"
proof -
  have p: "0 < bitlen c" using assms bitlen_nonneg [of c] bitlen_eq_zero_iff [of c] by linarith
  from bitlen_bounds [OF assms]
  have l: "2 ^ nat (bitlen c - 1) \<le> c" and u: "c < 2 ^ nat (bitlen c)" by auto
  have "(of_int (2 ^ nat (bitlen c - 1)) :: rat) \<le> of_int c" using l by (simp only: of_int_le_iff)
  then show "(2::rat) powi (bitlen c - 1) \<le> of_int c" using p by (simp add: two_powi_nat)
  have "(of_int c :: rat) < of_int (2 ^ nat (bitlen c))" using u by (simp only: of_int_less_iff)
  then show "of_int c < (2::rat) powi bitlen c" using p by (simp add: two_powi_nat)
qed

lemma frac_powi_bounds:
  assumes "0 < a" and "0 < b"
  shows "2 powi (bitlen a - bitlen b - 1) \<le> (of_int a / of_int b :: rat)"
    and "(of_int a / of_int b :: rat) < 2 powi (bitlen a - bitlen b + 1)"
proof -
  let ?k = "bitlen a - bitlen b"
  have bpos: "(0::rat) < of_int b" using assms by simp
  have "(2::rat) powi (?k - 1) * of_int b \<le> 2 powi (?k - 1) * 2 powi bitlen b"
    using bitlen_powi_bounds(2) [OF assms(2)] by (intro mult_left_mono) auto
  also have "\<dots> \<le> of_int a"
    using bitlen_powi_bounds(1) [OF assms(1)] by (simp flip: power_int_add)
  finally show "2 powi (?k - 1) \<le> (of_int a / of_int b :: rat)" using bpos by (simp add: le_divide_eq)
  have "of_int a < (2::rat) powi (?k + 1) * 2 powi (bitlen b - 1)"
    using bitlen_powi_bounds(2) [OF assms(1)] by (simp flip: power_int_add)
  also have "\<dots> \<le> 2 powi (?k + 1) * of_int b"
    using bitlen_powi_bounds(1) [OF assms(2)] by (intro mult_left_mono) auto
  finally show "(of_int a / of_int b :: rat) < 2 powi (?k + 1)" using bpos by (simp add: divide_less_eq)
qed

lemma ilog2_bounds:
  assumes "0 < x"
  shows "2 powi ilog2 x \<le> x" and "x < 2 powi (ilog2 x + 1)"
proof -
  obtain a b where ab: "quotient_of x = (a, b)" by (cases "quotient_of x")
  have b: "0 < b" using quotient_of_denom_pos [OF ab] .
  have x: "x = of_int a / of_int b" using quotient_of_div [OF ab] .
  have a: "0 < a" using assms b x by (simp add: zero_less_divide_iff)
  have e: "ilog2 x = (if 2 powi (bitlen a - bitlen b) \<le> x then bitlen a - bitlen b
      else bitlen a - bitlen b - 1)"
    by (simp add: ilog2_def ab)
  note bnd = frac_powi_bounds [OF a b, folded x]
  show "2 powi ilog2 x \<le> x" and "x < 2 powi (ilog2 x + 1)" using bnd by (simp_all add: e)
qed

lemma ilog2_eqI:
  assumes "2 powi e \<le> x" and "x < 2 powi (e + 1)"
  shows "ilog2 x = e"
proof -
  have x: "0 < x" using assms(1) two_powi_pos [of e] by linarith
  have "(2::rat) powi ilog2 x < 2 powi (e + 1)" and "(2::rat) powi e < 2 powi (ilog2 x + 1)"
    using ilog2_bounds [OF x] assms by linarith+
  then show ?thesis by simp
qed

lemma ilog2_mono:
  assumes "0 < x" and "x \<le> y"
  shows "ilog2 x \<le> ilog2 y"
proof -
  have "(2::rat) powi ilog2 x < 2 powi (ilog2 y + 1)"
    using ilog2_bounds(1) [OF assms(1)] ilog2_bounds(2) [of y] assms by linarith
  then show ?thesis by simp
qed

lemma ilog2_le: "0 < x \<Longrightarrow> x < 2 powi (e + 1) \<Longrightarrow> ilog2 x \<le> e"
proof -
  assume "0 < x" and "x < 2 powi (e + 1)"
  then have "(2::rat) powi ilog2 x < 2 powi (e + 1)" using ilog2_bounds(1) [of x] by linarith
  then show "ilog2 x \<le> e" by simp
qed

lemma qexp_ge [simp]: "- 1074 \<le> qexp x"
  by (simp add: qexp_def)

lemma qexp_uminus [simp]: "qexp (- x) = qexp x"
  by (simp add: qexp_def)

lemma qexp_mono: "0 < x \<Longrightarrow> x \<le> y \<Longrightarrow> qexp x \<le> qexp y"
  using ilog2_mono [of x y] by (simp add: qexp_def)

subsection \<open>Rounding a rational\<close>

lemma rndq_0 [simp]: "rndq 0 = 0"
  by (simp add: rndq_def)

lemma rndq_uminus [simp]: "rndq (- x) = - rndq x"
  by (simp add: rndq_def rne_uminus)

lemma rndq_nonneg: "0 \<le> x \<Longrightarrow> 0 \<le> rndq x"
  using rne_ge [of 0 "x / 2 powi qexp x"] by (simp add: rndq_def)

lemma scaled_le_iff: "x / 2 powi q \<le> 2 powi k \<longleftrightarrow> x \<le> (2::rat) powi (k + q)"
  by (simp add: divide_le_eq two_powi_add)

lemma scaled_ge_iff: "2 powi k \<le> x / 2 powi q \<longleftrightarrow> (2::rat) powi (k + q) \<le> x"
  by (simp add: le_divide_eq two_powi_add)

lemma rndq_le_two_powi:
  assumes "0 < x" and "x \<le> 2 powi e" and "qexp x \<le> e"
  shows "rndq x \<le> 2 powi e"
proof -
  let ?q = "qexp x"
  have "x / 2 powi ?q \<le> 2 powi (e - ?q)" using assms(2) by (simp add: scaled_le_iff)
  also have "\<dots> = of_int (2 ^ nat (e - ?q))" using assms(3) by (simp add: two_powi_nat)
  finally have "rne (x / 2 powi ?q) \<le> 2 ^ nat (e - ?q)" by (rule rne_le)
  then have "(of_int (rne (x / 2 powi ?q)) :: rat) \<le> of_int (2 ^ nat (e - ?q))" by (simp only: of_int_le_iff)
  also have "\<dots> = 2 powi (e - ?q)" using assms(3) by (simp only: two_powi_nat)
  finally have "of_int (rne (x / 2 powi ?q)) * 2 powi ?q \<le> 2 powi (e - ?q) * (2::rat) powi ?q"
    by (intro mult_right_mono) auto
  then show ?thesis using assms(1) by (simp add: rndq_def flip: two_powi_add)
qed

lemma rndq_ge_two_powi:
  assumes "2 powi e \<le> x" and "qexp x \<le> e"
  shows "2 powi e \<le> rndq x"
proof -
  let ?q = "qexp x"
  have x: "0 < x" using assms(1) two_powi_pos [of e] by linarith
  have "of_int (2 ^ nat (e - ?q)) = (2::rat) powi (e - ?q)" using assms(2) by (simp add: two_powi_nat)
  also have "\<dots> \<le> x / 2 powi ?q" using assms(1) by (simp add: scaled_ge_iff)
  finally have "2 ^ nat (e - ?q) \<le> rne (x / 2 powi ?q)" by (rule rne_ge)
  then have "(of_int (2 ^ nat (e - ?q)) :: rat) \<le> of_int (rne (x / 2 powi ?q))" by (simp only: of_int_le_iff)
  then have "2 powi (e - ?q) \<le> (of_int (rne (x / 2 powi ?q)) :: rat)"
    using assms(2) by (simp add: two_powi_nat)
  then have "2 powi (e - ?q) * (2::rat) powi ?q \<le> of_int (rne (x / 2 powi ?q)) * 2 powi ?q"
    by (intro mult_right_mono) auto
  then show ?thesis using x by (simp add: rndq_def flip: two_powi_add)
qed

lemma rndq_mono_pos:
  assumes "0 < x" and "x \<le> y"
  shows "rndq x \<le> rndq y"
proof (cases "qexp x = qexp y")
  case True
  have "x / 2 powi qexp y \<le> y / 2 powi qexp y" using assms by (simp add: divide_right_mono)
  then have "rne (x / 2 powi qexp y) \<le> rne (y / 2 powi qexp y)" by (rule rne_mono)
  then show ?thesis using assms True by (simp add: rndq_def mult_right_mono)
next
  case False
  with qexp_mono [OF assms] have lt: "qexp x < qexp y" by simp
  have qy: "qexp y = ilog2 y - 52" and ey: "ilog2 x + 1 \<le> ilog2 y"
    using lt assms by (auto simp: qexp_def max_def split: if_splits)
  have "x \<le> 2 powi ilog2 y" using ilog2_bounds(2) [OF assms(1)] ey
    by (meson order.strict_implies_order order.trans two_powi_le_iff)
  then have "rndq x \<le> 2 powi ilog2 y" using lt qy assms(1) by (intro rndq_le_two_powi) auto
  also have "\<dots> \<le> rndq y" using ilog2_bounds(1) [of y] assms qy by (intro rndq_ge_two_powi) auto
  finally show ?thesis .
qed

lemma rndq_mono:
  assumes "x \<le> y"
  shows "rndq x \<le> rndq y"
proof -
  consider "0 < x" | "x \<le> 0" "0 \<le> y" | "y < 0" using assms by linarith
  then show ?thesis
  proof cases
    case 1
    then show ?thesis using assms by (rule rndq_mono_pos)
  next
    case 2
    have "rndq x \<le> 0" using rndq_nonneg [of "- x"] 2 by simp
    also have "0 \<le> rndq y" using rndq_nonneg 2 by simp
    finally show ?thesis .
  next
    case 3
    then have "rndq (- y) \<le> rndq (- x)" using assms by (intro rndq_mono_pos) auto
    then show ?thesis by simp
  qed
qed

text \<open>A dyadic number with a 53-bit significand and an exponent in range is its own rounding.\<close>

lemma rndq_int_multiple:
  assumes "x = of_int m * 2 powi q" and "qexp x \<le> q"
  shows "rndq x = x"
proof (cases "x = 0")
  case False
  have "x / 2 powi qexp x = of_int m * 2 powi (q - qexp x)"
    by (subst assms(1)) (simp add: power_int_diff)
  also have "\<dots> = of_int (m * 2 ^ nat (q - qexp x))" using assms(2) by (simp add: two_powi_nat)
  finally have e: "x / 2 powi qexp x = of_int (m * 2 ^ nat (q - qexp x))" .
  have "rndq x = x / 2 powi qexp x * 2 powi qexp x"
    using False by (simp add: rndq_def e del: of_int_mult)
  then show ?thesis by simp
qed simp

lemma rndq_dyadic_strict:
  assumes "\<bar>m\<bar> < 2 ^ 53" and "- 1074 \<le> q"
  shows "rndq (of_int m * 2 powi q) = of_int m * 2 powi q"
proof (cases "m = 0")
  case False
  let ?x = "of_int m * (2::rat) powi q"
  have pos: "0 < \<bar>?x\<bar>" using False by simp
  have "(of_int \<bar>m\<bar> :: rat) < of_int (2 ^ 53)" using assms(1) by (simp only: of_int_less_iff)
  then have "\<bar>?x\<bar> < of_int (2 ^ 53) * 2 powi q" by (simp add: abs_mult)
  also have "\<dots> = 2 powi (52 + q + 1)" by (simp add: two_powi_add power_int_add)
  finally have "ilog2 \<bar>?x\<bar> \<le> 52 + q" using pos by (intro ilog2_le) auto
  then have "qexp ?x \<le> q" using assms(2) by (simp add: qexp_def)
  then show ?thesis by (intro rndq_int_multiple) auto
qed simp

lemma rndq_dyadic:
  assumes "\<bar>m\<bar> \<le> 2 ^ 53" and "- 1074 \<le> q"
  shows "rndq (of_int m * 2 powi q) = of_int m * 2 powi q"
proof (cases "\<bar>m\<bar> = 2 ^ 53")
  case True
  then obtain s :: int where s: "m = s * 2 ^ 53" and "\<bar>s\<bar> = 1"
    using that [of 1] that [of "- 1"] by (cases "m < 0") auto
  have e: "of_int m * (2::rat) powi q = of_int s * 2 powi (53 + q)"
    by (simp add: s power_int_add)
  have "rndq (of_int s * (2::rat) powi (53 + q)) = of_int s * 2 powi (53 + q)"
    using \<open>\<bar>s\<bar> = 1\<close> assms(2) by (intro rndq_dyadic_strict) auto
  then show ?thesis unfolding e .
next
  case False
  with assms show ?thesis by (intro rndq_dyadic_strict) auto
qed

lemma rndq_significand:
  assumes "x \<noteq> 0"
  shows "\<bar>rne (x / 2 powi qexp x)\<bar> \<le> 2 ^ 53"
proof -
  have "\<bar>x\<bar> < 2 powi (ilog2 \<bar>x\<bar> + 1)" using assms by (intro ilog2_bounds) simp
  also have "\<dots> \<le> 2 powi (53 + qexp x)" by (simp add: qexp_def)
  finally have "\<bar>x\<bar> \<le> 2 powi (53 + qexp x)" by simp
  then have u: "x \<le> 2 powi (53 + qexp x)" and l: "- x \<le> 2 powi (53 + qexp x)" by linarith+
  have p: "(2::rat) powi 53 = of_int (2 ^ 53)" by (simp add: two_powi_nat)
  have "x / 2 powi qexp x \<le> of_int (2 ^ 53)" using u by (simp only: scaled_le_iff flip: p)
  moreover have "- x / 2 powi qexp x \<le> of_int (2 ^ 53)" using l by (simp only: scaled_le_iff flip: p)
  ultimately have "rne (x / 2 powi qexp x) \<le> 2 ^ 53" and "rne (- (x / 2 powi qexp x)) \<le> 2 ^ 53"
    by (auto intro: rne_le simp: minus_divide_left simp del: divide_minus_left)
  then show ?thesis by (simp add: rne_uminus abs_le_iff)
qed

lemma rndq_idem [simp]: "rndq (rndq x) = rndq x"
proof (cases "x = 0")
  case False
  then show ?thesis using rndq_dyadic [OF rndq_significand [OF False] qexp_ge]
    by (simp add: rndq_def)
qed simp

lemma rndq_of_int:
  assumes "\<bar>n\<bar> \<le> 2 ^ 53"
  shows "rndq (of_int n) = of_int n"
  using rndq_dyadic [OF assms, of 0] by simp

lemma rndq_le: "x \<le> y \<Longrightarrow> rndq y = y \<Longrightarrow> rndq x \<le> y"
  using rndq_mono [of x y] by simp

lemma rndq_ge: "y \<le> x \<Longrightarrow> rndq y = y \<Longrightarrow> y \<le> rndq x"
  using rndq_mono [of y x] by simp

subsection \<open>Rounded values as floats\<close>

lemma rnd_eq_Fin: "rnd x = Fin r \<longleftrightarrow> r = rndq x \<and> \<bar>rndq x\<bar> < f_huge"
  by (auto simp: rnd_def Let_def abs_less_iff)

text \<open>
  The range test by exponent, so that evaluation compares small integers.
\<close>

lemma abs_less_max_iff: "\<bar>r\<bar> < f_huge \<longleftrightarrow> r = 0 \<or> ilog2 \<bar>r\<bar> < 1024" for r :: rat
proof (cases "r = 0")
  case False
  then have pos: "0 < \<bar>r\<bar>" by simp
  have "ilog2 \<bar>r\<bar> < 1024" if "\<bar>r\<bar> < f_huge"
    using ilog2_le [OF pos, of 1023] that by (simp add: f_huge_def del: power_int_numeral)
  moreover have "\<bar>r\<bar> < f_huge" if "ilog2 \<bar>r\<bar> < 1024"
    using ilog2_bounds(2) [OF pos] two_powi_le_iff [of "ilog2 \<bar>r\<bar> + 1" 1024] that
    unfolding f_huge_def by linarith
  ultimately show ?thesis using False by blast
qed simp

lemma rnd_code:
  "rnd x = (let r = rndq x in
     if r \<noteq> 0 \<and> 1024 \<le> ilog2 \<bar>r\<bar> then (if 0 < r then PInf else NInf) else Fin r)"
proof -
  have "\<not> (rndq x \<noteq> 0 \<and> 1024 \<le> ilog2 \<bar>rndq x\<bar>) \<longleftrightarrow> \<bar>rndq x\<bar> < f_huge"
    by (auto simp: abs_less_max_iff)
  moreover have "\<not> (f_huge \<le> rndq x \<and> rndq x \<le> 0)" and "\<not> (rndq x \<le> - f_huge \<and> 0 \<le> rndq x)"
    using f_huge_pos by linarith+
  ultimately show ?thesis by (auto simp: rnd_def Let_def abs_less_iff not_less not_le)
qed

lemma is_f64_code [code]:
  "is_f64 (Fin r) \<longleftrightarrow> rndq r = r \<and> (r = 0 \<or> ilog2 \<bar>r\<bar> < 1024)"
  "is_f64 NaN \<longleftrightarrow> True" "is_f64 PInf \<longleftrightarrow> True" "is_f64 NInf \<longleftrightarrow> True"
  by (simp_all add: abs_less_max_iff)

lemma rnd_not_NaN [simp]: "rnd x \<noteq> NaN"
  by (simp add: rnd_def Let_def)

lemma is_f64_rnd [simp]: "is_f64 (rnd x)"
  by (auto simp: rnd_def Let_def abs_less_iff)

lemma is_f64_Fin_rnd: "is_f64 (Fin r) \<longleftrightarrow> rnd r = Fin r"
  by (auto simp: rnd_eq_Fin)

lemma rndq_f64: "is_f64 (Fin r) \<Longrightarrow> rndq r = r"
  by simp

lemma rnd_f64 [simp]: "is_f64 (Fin r) \<Longrightarrow> rnd r = Fin r"
  by (auto simp: rnd_eq_Fin)

lemma isFinite_iff: "isFinite x \<longleftrightarrow> (\<exists>r. x = Fin r)"
  by (cases x) auto

lemma isFiniteE: "isFinite x \<Longrightarrow> (\<And>r. x = Fin r \<Longrightarrow> P) \<Longrightarrow> P"
  by (cases x) auto

lemma isFinite_rnd: "isFinite (rnd x) \<longleftrightarrow> rnd x = Fin (rndq x)"
  by (auto simp: isFinite_iff rnd_eq_Fin)

lemma is_f64_of_int: "\<bar>n\<bar> \<le> 2 ^ 53 \<Longrightarrow> is_f64 (Fin (of_int n))"
proof -
  assume n: "\<bar>n\<bar> \<le> 2 ^ 53"
  have "\<bar>of_int n :: rat\<bar> = of_int \<bar>n\<bar>" by simp
  also have "\<dots> \<le> of_int (2 ^ 53)" using n by (simp only: of_int_le_iff)
  also have "\<dots> < f_huge" using two_powi_less_iff [of 53 1024]
    unfolding f_huge_def by (simp del: two_powi_less_iff)
  finally show "is_f64 (Fin (of_int n))" using n by (simp add: rndq_of_int)
qed

lemma f_of_int_small: "\<bar>n\<bar> \<le> 2 ^ 53 \<Longrightarrow> f_of_int n = Fin (of_int n)"
  using is_f64_of_int [of n] by (simp add: f_of_int_def del: is_f64.simps)

lemma is_f64_ops [simp]:
  "is_f64 (f_of_int n)" "is_f64 (f_lit r)"
  by (simp_all add: f_of_int_def f_lit_def)

lemma is_f64_f_add [simp]: "is_f64 a \<Longrightarrow> is_f64 b \<Longrightarrow> is_f64 (f_add a b)"
  by (cases "(a, b)" rule: f_add.cases) auto

lemma is_f64_f_neg [simp]: "is_f64 a \<Longrightarrow> is_f64 (f_neg a)"
  by (cases a) auto

lemma is_f64_f_sub [simp]: "is_f64 a \<Longrightarrow> is_f64 b \<Longrightarrow> is_f64 (f_sub a b)"
  by (simp add: f_sub_def)

lemma is_f64_f_inf [simp]: "is_f64 (f_inf s)"
  by (simp add: f_inf_def)

lemma is_f64_f_mul [simp]: "is_f64 (f_mul a b)"
  by (cases "(a, b)" rule: f_mul.cases) (auto simp del: is_f64.simps(1))

lemma is_f64_f_div [simp]: "is_f64 (f_div a b)"
  by (cases "(a, b)" rule: f_div.cases) auto

lemma f_sub_Fin [simp]: "f_sub (Fin a) (Fin b) = rnd (a - b)"
  by (simp add: f_sub_def)

lemma f_eq_Fin [simp]: "f_eq (Fin a) (Fin b) \<longleftrightarrow> a = b"
  by (simp add: f_eq_def)

lemma f_max_Fin [simp]: "f_max (Fin a) (Fin b) = Fin (max a b)"
  by (auto simp: f_max_def max_def)

lemma f_min_Fin [simp]: "f_min (Fin a) (Fin b) = Fin (min a b)"
  by (auto simp: f_min_def min_def)

text \<open>A finite sum, difference or product has finite operands and is the rounded exact result.\<close>

lemma f_add_FinD: "f_add a b = Fin r \<Longrightarrow> \<exists>x y. a = Fin x \<and> b = Fin y \<and> r = rndq (x + y)"
  by (cases "(a, b)" rule: f_add.cases) (auto simp: rnd_eq_Fin)

lemma f_mul_FinD: "f_mul a b = Fin r \<Longrightarrow> \<exists>x y. a = Fin x \<and> b = Fin y \<and> r = rndq (x * y)"
  by (cases "(a, b)" rule: f_mul.cases) (auto simp: rnd_eq_Fin f_inf_def split: if_splits)

lemma f_div_FinD:
  assumes "f_div (Fin a) (Fin b) = Fin r" and "b \<noteq> 0"
  shows "r = rndq (a / b)"
  using assms by (simp add: rnd_eq_Fin)

subsection \<open>The order of finite results\<close>

lemma f_le_rnd: "x \<le> y \<Longrightarrow> f_le (rnd x) (rnd y)"
  using rndq_mono [of x y] by (auto simp: rnd_def Let_def)

lemma f_le_refl: "x \<noteq> NaN \<Longrightarrow> f_le x x"
  by (cases x) auto

lemma f_le_trans: "f_le x y \<Longrightarrow> f_le y z \<Longrightarrow> f_le x z"
  by (cases x; cases y; cases z) auto

lemma f_lt_le: "f_lt x y \<longleftrightarrow> f_le x y \<and> x \<noteq> y"
  by (cases x; cases y) auto

lemma not_f_lt: "x \<noteq> NaN \<Longrightarrow> y \<noteq> NaN \<Longrightarrow> \<not> f_lt x y \<longleftrightarrow> f_le y x"
  by (cases x; cases y) auto

lemma f_le_not_lt: "f_le y x \<Longrightarrow> \<not> f_lt x y"
  by (cases x; cases y) auto

lemma rnd_nonneg_cases:
  assumes "0 \<le> x"
  shows "rnd x = PInf \<or> (rnd x = Fin (rndq x) \<and> 0 \<le> rndq x)"
  using rndq_nonneg [OF assms] by (auto simp: rnd_def Let_def)

lemma f_le_PInf: "f_le PInf x \<longleftrightarrow> x = PInf"
  by (cases x) auto

lemma f_le_finite: "f_le x (Fin b) \<Longrightarrow> f_le (Fin a) x \<Longrightarrow> \<exists>r. x = Fin r \<and> a \<le> r \<and> r \<le> b"
  by (cases x) auto

lemma f_le_rnd_inf: "f_le NInf (rnd z)" "f_le (rnd z) PInf"
  by (auto simp: rnd_def Let_def)

lemma f_lt_irrefl [simp]: "\<not> f_lt x x"
  by (cases x) auto

text \<open>Monotonicity of the arithmetic on values in the range the program keeps them in.\<close>

lemma f_add_mono:
  assumes "f_le (Fin a) (Fin a')" and "f_le (Fin b) (Fin b')"
  shows "f_le (f_add (Fin a) (Fin b)) (f_add (Fin a') (Fin b'))"
  using assms by (auto intro: f_le_rnd)

lemma f_mul_mono:
  assumes "0 \<le> a" and "a \<le> a'" and "0 \<le> b" and "b \<le> b'"
  shows "f_le (f_mul (Fin a) (Fin b)) (f_mul (Fin a') (Fin b'))"
  using assms by (auto intro!: f_le_rnd mult_mono)

lemma rndq_pos_iff_nonneg: "0 \<le> x \<Longrightarrow> rndq x = 0 \<or> 0 < rndq x"
  using rndq_nonneg [of x] by linarith

lemma f64_between:
  assumes "is_f64 (Fin a)" and "is_f64 (Fin b)" and "a \<le> x" and "x \<le> b"
  shows "\<exists>r. rnd x = Fin r \<and> a \<le> r \<and> r \<le> b"
  using f_le_rnd [OF assms(3)] f_le_rnd [OF assms(4)] assms(1,2)
  by (intro f_le_finite) (simp_all del: is_f64.simps)

subsection \<open>Non-negative values\<close>

lemma rnd_0 [simp]: "rnd 0 = Fin 0"
  using f_huge_pos by (simp add: rnd_eq_Fin)

lemma f_le_0_rnd: "0 \<le> x \<Longrightarrow> f_le (Fin 0) (rnd x)"
  using f_le_rnd [of 0 x] by simp

lemma f_nonneg_Fin [simp]: "f_nonneg (Fin r) \<longleftrightarrow> 0 \<le> r"
  by (simp add: f_nonneg_def)

lemma f_mul_mono_Fin:
  assumes "f_nonneg a" "f_le a a'" "f_nonneg b" "f_le b b'" and "f_mul a' b' = Fin r"
  shows "\<exists>s. f_mul a b = Fin s \<and> 0 \<le> s \<and> s \<le> r"
proof -
  from f_mul_FinD [OF assms(5)] obtain x' y' where e': "a' = Fin x'" "b' = Fin y'" by auto
  with assms obtain x y where e: "a = Fin x" "b = Fin y" and le: "0 \<le> x" "x \<le> x'" "0 \<le> y" "y \<le> y'"
    by (cases a; cases b) (auto simp: f_nonneg_def)
  have m: "x * y \<le> x' * y'" using le by (intro mult_mono) auto
  have "f_le (Fin 0) (rnd (x * y))" using f_le_0_rnd le by simp
  moreover have "f_le (rnd (x * y)) (Fin r)" using f_le_rnd [OF m] assms(5) e' by simp
  ultimately show ?thesis using f_le_finite [of "rnd (x * y)" r 0] e by simp
qed

lemma f_add_mono_Fin:
  assumes "f_nonneg a" "f_le a a'" "f_nonneg b" "f_le b b'" and "f_add a' b' = Fin r"
  shows "\<exists>s. f_add a b = Fin s \<and> 0 \<le> s \<and> s \<le> r"
proof -
  from f_add_FinD [OF assms(5)] obtain x' y' where e': "a' = Fin x'" "b' = Fin y'" by auto
  with assms obtain x y where e: "a = Fin x" "b = Fin y" and le: "0 \<le> x" "x \<le> x'" "0 \<le> y" "y \<le> y'"
    by (cases a; cases b) (auto simp: f_nonneg_def)
  have m: "x + y \<le> x' + y'" using le by simp
  have "f_le (Fin 0) (rnd (x + y))" using f_le_0_rnd le by simp
  moreover have "f_le (rnd (x + y)) (Fin r)" using f_le_rnd [OF m] assms(5) e' by simp
  ultimately show ?thesis using f_le_finite [of "rnd (x + y)" r 0] e by simp
qed

lemma f_nonneg_of_int: "0 \<le> q \<Longrightarrow> f_nonneg (f_of_int q)"
  by (simp add: f_nonneg_def f_of_int_def f_le_0_rnd)

lemma f_nonneg_mul: "f_nonneg (Fin a) \<Longrightarrow> f_nonneg (Fin b) \<Longrightarrow> f_nonneg (f_mul (Fin a) (Fin b))"
  by (simp add: f_nonneg_def f_le_0_rnd)

lemma f_le_add_right:
  assumes "is_f64 (Fin a)" and "0 \<le> b"
  shows "f_le (Fin a) (f_add (Fin a) (Fin b))"
  using f_le_rnd [of a "a + b"] assms by (simp del: is_f64.simps)

lemma f_le_sub_right:
  assumes "is_f64 (Fin a)" and "0 \<le> b"
  shows "f_le (f_sub (Fin a) (Fin b)) (Fin a)"
  using f_le_rnd [of "a - b" a] assms by (simp del: is_f64.simps)

lemma f_nonneg_add: "f_nonneg a \<Longrightarrow> f_nonneg b \<Longrightarrow> f_nonneg (f_add a b)"
  by (cases a; cases b) (auto simp: f_nonneg_def f_le_0_rnd)

lemma f_nonneg_div_Fin: "f_nonneg a \<Longrightarrow> 0 < b \<Longrightarrow> f_nonneg (f_div a (Fin b))"
  by (cases a) (auto simp: f_nonneg_def f_le_0_rnd)

lemma f_nonneg_mul_Fin: "f_nonneg a \<Longrightarrow> 0 < b \<Longrightarrow> f_nonneg (f_mul (Fin b) a)"
  by (cases a) (auto simp: f_nonneg_def f_le_0_rnd f_inf_def)

lemma f_nonneg_foldl_add: "f_nonneg a \<Longrightarrow> (\<And>v. v \<in> set vs \<Longrightarrow> f_nonneg v) \<Longrightarrow> f_nonneg (foldl f_add a vs)"
  by (induction vs arbitrary: a) (auto intro: f_nonneg_add)

lemma two_mul_f64:
  assumes "is_f64 (Fin a)"
  shows "rndq (2 * a) = 2 * a"
proof (cases "a = 0")
  case False
  have q: "qexp (2 * a) \<le> qexp a + 1"
  proof -
    have "\<bar>2 * a\<bar> < 2 powi (ilog2 \<bar>a\<bar> + 1 + 1)"
      using ilog2_bounds(2) [of "\<bar>a\<bar>"] False by (simp add: abs_mult two_powi_add)
    then have "ilog2 \<bar>2 * a\<bar> \<le> ilog2 \<bar>a\<bar> + 1" using False by (intro ilog2_le) auto
    then show ?thesis by (auto simp: qexp_def)
  qed
  have "a = of_int (rne (a / 2 powi qexp a)) * 2 powi qexp a"
    using rndq_f64 [OF assms] False by (simp add: rndq_def)
  then have "2 * a = of_int (rne (a / 2 powi qexp a)) * 2 powi (qexp a + 1)"
    by (simp add: two_powi_add)
  then show ?thesis using q by (rule rndq_int_multiple)
qed simp

lemma mean_between:
  assumes "is_f64 (Fin a)" "is_f64 (Fin b)" "a \<le> b" and "f_add (Fin a) (Fin b) = Fin s"
  shows "\<exists>m. f_div (Fin s) (Fin 2) = Fin m \<and> a \<le> m \<and> m \<le> b"
proof -
  have s: "s = rndq (a + b)" using assms(4) by (simp add: rnd_eq_Fin)
  have "rndq (2 * a) \<le> s" "s \<le> rndq (2 * b)" using assms(3) unfolding s by (auto intro: rndq_mono)
  then have "a \<le> s / 2" "s / 2 \<le> b" using two_mul_f64 assms(1,2) by auto
  from f64_between [OF assms(1,2) this] show ?thesis by simp
qed

section \<open>Evaluation\<close>

text \<open>
  Code equations for the rounding on integer numerators and denominators: a rounded value is a
  dyadic fraction, so it is reduced by halving instead of by a general gcd. They change how a
  closed term is evaluated and nothing else.
\<close>

definition rne_div :: "int \<Rightarrow> int \<Rightarrow> int" where
  "rne_div n d = (let f = n div d; r = n mod d in
     if 2 * r < d then f else if 2 * r > d then f + 1 else if even f then f else f + 1)"

fun reduce2 :: "int \<Rightarrow> nat \<Rightarrow> int \<times> int" where
  "reduce2 m 0 = (m, 1)"
| "reduce2 m (Suc k) = (if even m then reduce2 (m div 2) k else (m, 2 ^ Suc k))"

definition ilog2_pair :: "int \<Rightarrow> int \<Rightarrow> int" where
  "ilog2_pair a b = (let k = bitlen a - bitlen b in
     if (if k \<ge> 0 then 2 ^ nat k * b \<le> a else b \<le> a * 2 ^ nat (- k)) then k else k - 1)"

definition rndq_pair :: "int \<Rightarrow> int \<Rightarrow> int \<times> int" where
  "rndq_pair a b = (if a = 0 then (0, 1) else
     let q = max (ilog2_pair \<bar>a\<bar> b - 52) (-1074) in
     if q \<ge> 0 then (rne_div a (b * 2 ^ nat q) * 2 ^ nat q, 1)
     else reduce2 (rne_div (a * 2 ^ nat (- q)) b) (nat (- q)))"

lemma rne_div_eq:
  assumes "0 < d"
  shows "rne (of_int n / of_int d) = rne_div n d"
proof -
  have f: "\<lfloor>of_int n / of_int d :: rat\<rfloor> = n div d"
    by (simp add: floor_divide_of_int_eq)
  have dpos: "(0::rat) < of_int d" using assms by simp
  have r: "of_int n / of_int d - of_int (n div d) = (of_int (n mod d) / of_int d :: rat)"
    using dpos by (simp add: field_simps flip: of_int_mult of_int_add)
  have lt: "(of_int (n mod d) / of_int d :: rat) < 1 / 2 \<longleftrightarrow> 2 * (n mod d) < d"
    and gt: "(1 / 2 :: rat) < of_int (n mod d) / of_int d \<longleftrightarrow> d < 2 * (n mod d)"
  proof -
    have "(of_int (n mod d) / of_int d :: rat) < 1 / 2 \<longleftrightarrow> of_int (2 * (n mod d)) < (of_int d :: rat)"
      using dpos by (simp add: field_simps)
    then show "(of_int (n mod d) / of_int d :: rat) < 1 / 2 \<longleftrightarrow> 2 * (n mod d) < d"
      by (simp only: of_int_less_iff)
    have "(1 / 2 :: rat) < of_int (n mod d) / of_int d \<longleftrightarrow> of_int d < (of_int (2 * (n mod d)) :: rat)"
      using dpos by (simp add: field_simps)
    then show "(1 / 2 :: rat) < of_int (n mod d) / of_int d \<longleftrightarrow> d < 2 * (n mod d)"
      by (simp only: of_int_less_iff)
  qed
  show ?thesis unfolding rne_def rne_div_def Let_def f r lt gt ..
qed

lemma quotient_of_dyadic: "quotient_of (of_int m / 2 ^ k) = reduce2 m k"
proof (induction k arbitrary: m)
  case 0
  show ?case by (simp add: quotient_of_int)
next
  case (Suc k)
  show ?case
  proof (cases "even m")
    case True
    then obtain j where j: "m = 2 * j" by blast
    then have "(of_int m / 2 ^ Suc k :: rat) = of_int j / 2 ^ k" by simp
    with Suc j show ?thesis by simp
  next
    case False
    have "(of_int m / 2 ^ Suc k :: rat) = Fract m (2 ^ Suc k)" by (simp add: Fract_of_int_quotient)
    moreover have "coprime m (2 ^ Suc k)" using False by (simp add: coprime_commute)
    ultimately show ?thesis using False
      by (simp add: quotient_of_Fract normalize_stable del: power_Suc)
  qed
qed

lemma ilog2_pair_eq:
  assumes a: "0 < a" and b: "0 < b"
  shows "ilog2 (of_int a / of_int b) = ilog2_pair a b"
proof -
  let ?x = "of_int a / of_int b :: rat" and ?k = "bitlen a - bitlen b"
  have bpos: "(0::rat) < of_int b" using b by simp
  have "2 powi k \<le> ?x \<longleftrightarrow> (if k \<ge> 0 then 2 ^ nat k * b \<le> a else b \<le> a * 2 ^ nat (- k))" for k
  proof (cases "k \<ge> 0")
    case True
    then have "2 powi k \<le> ?x \<longleftrightarrow> of_int (2 ^ nat k * b) \<le> (of_int a :: rat)"
      using bpos by (simp add: le_divide_eq two_powi_nat)
    with True show ?thesis by (simp only: of_int_le_iff if_True)
  next
    case False
    have p: "(2::rat) powi k = 1 / of_int (2 ^ nat (- k))"
      using False by (simp add: power_int_def field_simps)
    have "2 powi k \<le> ?x \<longleftrightarrow> of_int b \<le> (of_int (a * 2 ^ nat (- k)) :: rat)"
      using bpos by (simp add: p field_simps)
    with False show ?thesis by (simp only: of_int_le_iff if_False)
  qed
  then have e: "ilog2_pair a b = (if 2 powi ?k \<le> ?x then ?k else ?k - 1)"
    by (simp add: ilog2_pair_def Let_def)
  show ?thesis unfolding e using frac_powi_bounds [OF a b] by (intro ilog2_eqI) auto
qed

lemma rndq_pair_eq:
  assumes b: "0 < b"
  shows "quotient_of (rndq (of_int a / of_int b)) = rndq_pair a b"
proof (cases "a = 0")
  case True
  then show ?thesis by (simp add: rndq_pair_def rat_zero_code)
next
  case False
  define x where "x = (of_int a / of_int b :: rat)"
  define q where "q = qexp x"
  have x0: "x \<noteq> 0" using False b by (simp add: x_def)
  have "\<bar>x\<bar> = of_int \<bar>a\<bar> / of_int b" using b by (simp add: x_def)
  then have q: "q = max (ilog2_pair \<bar>a\<bar> b - 52) (-1074)"
    using False b by (simp add: q_def qexp_def ilog2_pair_eq del: of_int_abs)
  show ?thesis
  proof (cases "q \<ge> 0")
    case True
    have "x / 2 powi q = of_int a / of_int (b * 2 ^ nat q)" using True by (simp add: x_def two_powi_nat)
    then have "rne (x / 2 powi q) = rne_div a (b * 2 ^ nat q)" using b
      by (simp only: rne_div_eq mult_pos_pos zero_less_power zero_less_numeral)
    then have "rndq x = of_int (rne_div a (b * 2 ^ nat q) * 2 ^ nat q)"
      using x0 True by (simp add: rndq_def two_powi_nat flip: q_def)
    then show ?thesis using False True
      by (simp add: rndq_pair_def quotient_of_int Let_def del: of_int_mult of_int_power
          flip: q x_def)
  next
    case qn: False
    have p: "(2::rat) powi q = 1 / 2 ^ nat (- q)" using qn by (simp add: power_int_def field_simps)
    have "x / 2 powi q = of_int (a * 2 ^ nat (- q)) / of_int b" by (simp add: x_def p)
    then have "rne (x / 2 powi q) = rne_div (a * 2 ^ nat (- q)) b" using b by (simp only: rne_div_eq)
    then have "rndq x = of_int (rne_div (a * 2 ^ nat (- q)) b) / 2 ^ nat (- q)"
      using x0 by (simp add: rndq_def p flip: q_def)
    then show ?thesis using False qn
      by (simp add: rndq_pair_def quotient_of_dyadic Let_def flip: q x_def)
  qed
qed

definition rndq_frac :: "int \<Rightarrow> int \<Rightarrow> rat" where
  "rndq_frac a b = (if 0 < b then rndq (of_int a / of_int b) else 0)"

definition rnd_frac :: "int \<Rightarrow> int \<Rightarrow> f64" where
  "rnd_frac a b = (let r = rndq_frac a b in
     if r \<noteq> 0 \<and> 1024 \<le> ilog2 \<bar>r\<bar> then (if 0 < r then PInf else NInf) else Fin r)"

lemma rndq_frac_code [code abstract]:
  "quotient_of (rndq_frac a b) = (if 0 < b then rndq_pair a b else (0, 1))"
  by (simp add: rndq_frac_def rndq_pair_eq rat_zero_code)

lemma rnd_frac_eq: "0 < b \<Longrightarrow> rnd (of_int a / of_int b) = rnd_frac a b"
  by (simp add: rnd_code rnd_frac_def rndq_frac_def)

lemma rnd_quotient_code [code]: "rnd x = (let (a, b) = quotient_of x in rnd_frac a b)"
  using rnd_frac_eq [OF quotient_of_denom_pos] quotient_of_div
  by (cases "quotient_of x") fastforce

lemma rndq_code [code abstract]:
  "quotient_of (rndq x) = (let (a, b) = quotient_of x in rndq_pair a b)"
  using rndq_pair_eq [OF quotient_of_denom_pos] quotient_of_div
  by (cases "quotient_of x") fastforce

lemma ilog2_code [code]:
  "ilog2 x = (let (a, b) = quotient_of x in
     if 0 < a then ilog2_pair a b else let k = bitlen a - bitlen b in if 2 powi k \<le> x then k else k - 1)"
proof (cases "quotient_of x")
  case (Pair a b)
  have "ilog2 x = ilog2_pair a b" if "0 < a"
    using ilog2_pair_eq [OF that quotient_of_denom_pos [OF Pair]] quotient_of_div [OF Pair] by simp
  moreover have "ilog2 x = (let k = bitlen a - bitlen b in if 2 powi k \<le> x then k else k - 1)"
    by (simp add: ilog2_def Pair)
  ultimately show ?thesis by (simp add: Pair)
qed

lemma quotient_of_pairE:
  obtains a b where "quotient_of x = (a, b)" and "0 < b" and "x = of_int a / of_int b"
  by (cases "quotient_of x") (auto dest: quotient_of_denom_pos quotient_of_div)

lemma f_add_code [code]:
  "f_add (Fin x) (Fin y) = (let (a, b) = quotient_of x; (c, d) = quotient_of y
     in rnd_frac (a * d + c * b) (b * d))"
proof -
  obtain a b c d where q: "quotient_of x = (a, b)" "quotient_of y = (c, d)"
    and p: "0 < b" "0 < d" and e: "x = of_int a / of_int b" "y = of_int c / of_int d"
    by (metis quotient_of_pairE)
  have "x + y = of_int (a * d + c * b) / of_int (b * d)" using p by (simp add: e field_simps)
  then show ?thesis using p q by (simp add: rnd_frac_eq del: of_int_add of_int_mult)
qed

lemma f_mul_code [code]:
  "f_mul (Fin x) (Fin y) = (let (a, b) = quotient_of x; (c, d) = quotient_of y
     in rnd_frac (a * c) (b * d))"
proof -
  obtain a b c d where q: "quotient_of x = (a, b)" "quotient_of y = (c, d)"
    and p: "0 < b" "0 < d" and e: "x = of_int a / of_int b" "y = of_int c / of_int d"
    by (metis quotient_of_pairE)
  have "x * y = of_int (a * c) / of_int (b * d)" using p by (simp add: e field_simps)
  then show ?thesis using p q by (simp add: rnd_frac_eq del: of_int_mult)
qed

lemma f_div_code [code]:
  "f_div (Fin x) (Fin y) = (let (a, b) = quotient_of x; (c, d) = quotient_of y
     in if c = 0 then f_inf (sgn x) else if 0 < c then rnd_frac (a * d) (b * c)
        else rnd_frac (- a * d) (b * - c))"
proof -
  obtain a b c d where q: "quotient_of x = (a, b)" "quotient_of y = (c, d)"
    and p: "0 < b" "0 < d" and e: "x = of_int a / of_int b" "y = of_int c / of_int d"
    by (metis quotient_of_pairE)
  have y0: "y = 0 \<longleftrightarrow> c = 0" using p by (simp add: e)
  have pos: "rnd (x / y) = rnd_frac (a * d) (b * c)" if "0 < c"
    using p that by (subst rnd_frac_eq [symmetric]) (simp_all add: e)
  have neg: "rnd (x / y) = rnd_frac (- a * d) (b * - c)" if "c < 0"
    using p that by (subst rnd_frac_eq [symmetric]) (simp_all add: e mult_pos_neg)
  show ?thesis using y0 pos neg q by (auto simp: not_less)
qed

section \<open>The total order of cmp.Compare\<close>

text \<open>
  \<open>slices.Sort\<close> orders floats with \<open>NaN\<close> below every other value; this is the type's linear
  order, so the library's \<open>sort\<close> is the program's sort.
\<close>

instantiation f64 :: linorder
begin

fun less_eq_f64 :: "f64 \<Rightarrow> f64 \<Rightarrow> bool" where
  "less_eq_f64 NaN y = True"
| "less_eq_f64 x y = f_le x y"

definition less_f64 :: "f64 \<Rightarrow> f64 \<Rightarrow> bool" where
  "less_f64 x y \<longleftrightarrow> x \<le> y \<and> \<not> y \<le> x"

instance
proof
  fix x y z :: f64
  show "x < y \<longleftrightarrow> x \<le> y \<and> \<not> y \<le> x" by (simp add: less_f64_def)
  show "x \<le> x" by (cases x) auto
  show "x \<le> y \<Longrightarrow> y \<le> z \<Longrightarrow> x \<le> z" by (cases x; cases y; cases z) auto
  show "x \<le> y \<Longrightarrow> y \<le> x \<Longrightarrow> x = y" by (cases x; cases y) auto
  show "x \<le> y \<or> y \<le> x" by (cases x; cases y) auto
qed

end

declare less_eq_f64.simps [simp del]

lemma le_PInf [simp]: "x \<le> PInf"
  by (cases x) (auto simp: less_eq_f64.simps)

lemma le_f64_Fin [simp]: "Fin a \<le> Fin b \<longleftrightarrow> a \<le> b"
  by (simp add: less_eq_f64.simps)

lemma less_f64_Fin [simp]: "Fin a < Fin b \<longleftrightarrow> a < b"
  by (auto simp: less_f64_def)

lemma f_lt_less: "f_lt x y \<longleftrightarrow> x < y" if "x \<noteq> NaN" "y \<noteq> NaN"
  using that by (cases x; cases y) (auto simp: less_f64_def less_eq_f64.simps)

declare is_f64.simps(1) [simp del]

lemma is_f64_0 [simp]: "is_f64 (Fin 0)"
  by (simp add: is_f64.simps)

end
