(* ===== verification/Sizing.thy ===== *)
theory Sizing
  imports Float64
begin

text \<open>
  The pure arithmetic of \<open>src/internal/sizing\<close>: turning a volatility reading into a whole number
  of shares and the risk that number carries at its stop (\<open>sizing.go\<close>), commission and worst-case
  cost (\<open>cost.go\<close>), the Add Ladder (\<open>ladder.go\<close>), stops (\<open>stop.go\<close>), open risk (\<open>risk.go\<close>) and
  realised results (\<open>result.go\<close>). Every function keeps the source's expression order, so each
  intermediate product is rounded where the program rounds it. A joined Go error is the list of
  the checks that failed.
\<close>

section \<open>Errors and checks\<close>

datatype (plugins only: code size) sizing_error =
    NotionalNotFinite | NotionalNotPositive
  | FractionNotFinite string | FractionOutOfRange string
  | NNotFinite | NNotPositive
  | StopMultipleNotFinite | StopMultipleNotPositive
  | DollarsPerPointNotFinite | DollarsPerPointNotPositive
  | EntryPriceNotFinite | EntryPriceNotPositive
  | StopLevelNotFinite | StopLevelNotPositive | StopLevelNotBelowEntry | StopKindUndeclared
  | PreviousStopNotFinite | PreviousStopNotPositive
  | ExitPriceNotFinite
  | RiskAtStopConfigured | DerivedRiskExceedsOne | DerivedRiskNotPositive
  | BudgetOrCostNotRepresentable | QuantityNotExact
  | RealisedRiskNotStatable | ModeNotRecognised
  | DirectionNotImplemented | MaxUnitsTooSmall | RungNotFinite nat
  | DerivedLevelNotPositive
  | NoUnits | UnitEntryNotFinite nat | UnitEntryNotPositive nat
  | UnitStopNotFinite nat | UnitStopNotPositive nat | UnitQuantityNotPositive nat
  | UnusableStop nat
  | RealisedResultNotFinite | UnitQuantityNotWhole | DenominatorUnusable
  | ResultNotFinite string

type_synonym 'a sized = "(sizing_error list, 'a) result"

definition checkPositive :: "sizing_error \<Rightarrow> sizing_error \<Rightarrow> f64 \<Rightarrow> sizing_error list" where
  "checkPositive notFinite notPositive v =
     (if \<not> isFinite v then [notFinite] else if f_le v (Fin 0) then [notPositive] else [])"

definition checkNotionalAccount :: "f64 \<Rightarrow> sizing_error list" where
  "checkNotionalAccount v = checkPositive NotionalNotFinite NotionalNotPositive v"

definition checkFraction :: "string \<Rightarrow> f64 \<Rightarrow> sizing_error list" where
  "checkFraction name v =
     (if \<not> isFinite v then [FractionNotFinite name]
      else if f_le v (Fin 0) \<or> f_lt (Fin 1) v then [FractionOutOfRange name] else [])"

definition checkN :: "f64 \<Rightarrow> sizing_error list" where
  "checkN v = checkPositive NNotFinite NNotPositive v"

definition checkStopMultiple :: "f64 \<Rightarrow> sizing_error list" where
  "checkStopMultiple v = checkPositive StopMultipleNotFinite StopMultipleNotPositive v"

definition checkDollarsPerPoint :: "f64 \<Rightarrow> sizing_error list" where
  "checkDollarsPerPoint v = checkPositive DollarsPerPointNotFinite DollarsPerPointNotPositive v"

definition checkEntryPrice :: "f64 \<Rightarrow> sizing_error list" where
  "checkEntryPrice v = checkPositive EntryPriceNotFinite EntryPriceNotPositive v"

definition finiteResult :: "string \<Rightarrow> f64 \<Rightarrow> f64 sized" where
  "finiteResult name v = (if isFinite v then Inr v else Inl [ResultNotFinite name])"

lemma checkPositive_eq_Nil: "checkPositive e f v = [] \<longleftrightarrow> (\<exists>r. v = Fin r \<and> 0 < r)"
  by (cases v) (auto simp: checkPositive_def)

lemma checks_eq_Nil [simp]:
  "checkNotionalAccount v = [] \<longleftrightarrow> (\<exists>r. v = Fin r \<and> 0 < r)"
  "checkN v = [] \<longleftrightarrow> (\<exists>r. v = Fin r \<and> 0 < r)"
  "checkStopMultiple v = [] \<longleftrightarrow> (\<exists>r. v = Fin r \<and> 0 < r)"
  "checkDollarsPerPoint v = [] \<longleftrightarrow> (\<exists>r. v = Fin r \<and> 0 < r)"
  "checkEntryPrice v = [] \<longleftrightarrow> (\<exists>r. v = Fin r \<and> 0 < r)"
  by (simp_all add: checkNotionalAccount_def checkN_def checkStopMultiple_def
      checkDollarsPerPoint_def checkEntryPrice_def checkPositive_eq_Nil)

lemma checkFraction_eq_Nil [simp]: "checkFraction s v = [] \<longleftrightarrow> (\<exists>r. v = Fin r \<and> 0 < r \<and> r \<le> 1)"
  by (cases v) (auto simp: checkFraction_def)

lemma finiteResult_eq_Inr [simp]: "finiteResult s v = Inr w \<longleftrightarrow> isFinite v \<and> w = v"
  by (auto simp: finiteResult_def)

section \<open>Sizing a Unit (sizing.go)\<close>

type_synonym mode = string

definition ModeVolatilityNormalised :: mode where
  "ModeVolatilityNormalised = ''volatility-normalised''"

definition ModeFixedRiskAtStop :: mode where
  "ModeFixedRiskAtStop = ''fixed-risk-at-stop''"

definition maxExactWholeQuantity :: f64 where
  "maxExactWholeQuantity = Fin (2 ^ 53)"

record inputs =
  Mode :: mode
  NotionalAccount :: f64
  UnitVolatilityFraction :: f64
  StopMultiple :: f64
  RiskAtStopFraction :: f64
  N :: f64
  DollarsPerPoint :: f64

record unit_size =
  Quantity :: int
  RiskAtStop :: f64
  RealisedRiskAtStop :: f64

definition truncate_quantity :: "f64 \<Rightarrow> f64 \<Rightarrow> int sized" where
  "truncate_quantity budget cost =
     (if \<not> isFinite budget \<or> \<not> isFinite cost \<or> f_le cost (Fin 0)
      then Inl [BudgetOrCostNotRepresentable]
      else let quotient = f_floor (f_div budget cost) in
        if f_le maxExactWholeQuantity quotient then Inl [QuantityNotExact]
        else let quotient' = (if f_lt (Fin 0) quotient \<and> f_lt budget (f_mul quotient cost)
                              then f_sub quotient (Fin 1) else quotient)
          in Inr (f_to_int quotient'))"

definition UnitQuantity :: "f64 \<Rightarrow> f64 \<Rightarrow> f64 \<Rightarrow> f64 \<Rightarrow> int sized" where
  "UnitQuantity notionalAccount unitVolatilityFraction n dollarsPerPoint =
     joinErrs (checkNotionalAccount notionalAccount
         @ checkFraction ''unit volatility fraction'' unitVolatilityFraction
         @ checkN n @ checkDollarsPerPoint dollarsPerPoint)
       (truncate_quantity (f_mul notionalAccount unitVolatilityFraction) (f_mul n dollarsPerPoint))"

definition FixedRiskAtStopQuantity :: "f64 \<Rightarrow> f64 \<Rightarrow> f64 \<Rightarrow> f64 \<Rightarrow> f64 \<Rightarrow> int sized" where
  "FixedRiskAtStopQuantity notionalAccount riskAtStopFraction stopMultiple n dollarsPerPoint =
     joinErrs (checkNotionalAccount notionalAccount
         @ checkFraction ''risk at stop fraction'' riskAtStopFraction
         @ checkStopMultiple stopMultiple @ checkN n @ checkDollarsPerPoint dollarsPerPoint)
       (truncate_quantity (f_mul notionalAccount riskAtStopFraction)
          (f_mul (f_mul stopMultiple n) dollarsPerPoint))"

definition RiskAtStop_of :: "mode \<Rightarrow> f64 \<Rightarrow> f64 \<Rightarrow> f64 \<Rightarrow> f64 sized" where
  "RiskAtStop_of mode unitVolatilityFraction stopMultiple riskAtStopFraction =
     (if mode = ModeVolatilityNormalised then
        joinErrs (checkFraction ''unit volatility fraction'' unitVolatilityFraction
            @ checkStopMultiple stopMultiple
            @ errIf (\<not> f_eq riskAtStopFraction (Fin 0)) RiskAtStopConfigured)
          (let derived = f_mul unitVolatilityFraction stopMultiple in
           if f_lt (Fin 1) derived then Inl [DerivedRiskExceedsOne]
           else if f_le derived (Fin 0) then Inl [DerivedRiskNotPositive]
           else Inr derived)
      else if mode = ModeFixedRiskAtStop then
        joinErrs (checkFraction ''risk at stop fraction'' riskAtStopFraction) (Inr riskAtStopFraction)
      else Inl [ModeNotRecognised])"

definition RealisedRiskAtStop_of :: "int \<Rightarrow> f64 \<Rightarrow> f64 \<Rightarrow> f64 \<Rightarrow> f64 \<Rightarrow> f64 \<times> bool" where
  "RealisedRiskAtStop_of quantity stopMultiple n dollarsPerPoint notionalAccount =
     (let cost = f_mul (f_mul stopMultiple n) dollarsPerPoint;
          result = f_div (f_mul (f_of_int quantity) cost) notionalAccount
      in if \<not> isFinite cost \<or> \<not> isFinite result then (result, False)
         else (result, quantity = 0 \<or> f_lt (Fin 0) result))"

definition SizeUnit :: "inputs \<Rightarrow> unit_size sized" where
  "SizeUnit inp =
     bindr (RiskAtStop_of (Mode inp) (UnitVolatilityFraction inp) (StopMultiple inp) (RiskAtStopFraction inp))
       (\<lambda>riskAtStop.
     bindr (if Mode inp = ModeVolatilityNormalised
            then UnitQuantity (NotionalAccount inp) (UnitVolatilityFraction inp) (N inp) (DollarsPerPoint inp)
            else if Mode inp = ModeFixedRiskAtStop
            then FixedRiskAtStopQuantity (NotionalAccount inp) (RiskAtStopFraction inp) (StopMultiple inp)
                   (N inp) (DollarsPerPoint inp)
            else Inl [ModeNotRecognised])
       (\<lambda>quantity.
     let (realisedRisk, ok) = RealisedRiskAtStop_of quantity (StopMultiple inp) (N inp)
                                (DollarsPerPoint inp) (NotionalAccount inp)
     in if \<not> ok then Inl [RealisedRiskNotStatable]
        else Inr \<lparr>Quantity = quantity, RiskAtStop = riskAtStop, RealisedRiskAtStop = realisedRisk\<rparr>))"

definition Product :: "f64 \<Rightarrow> f64 \<Rightarrow> f64" where
  "Product a b = f_mul a b"

definition DrawdownStepRetainedFraction :: f64 where
  "DrawdownStepRetainedFraction = f_lit (8 / 10)"

definition DrawdownSteppedNotional :: "f64 \<Rightarrow> f64 \<times> bool" where
  "DrawdownSteppedNotional before =
     (let result = f_mul DrawdownStepRetainedFraction before in (result, isFinite result))"

definition CashMovementScaledFigure :: "f64 \<Rightarrow> f64 \<Rightarrow> f64 \<Rightarrow> f64 \<times> bool" where
  "CashMovementScaledFigure before equityBefore equityAfter =
     (let ratio = f_div equityAfter equityBefore; result = f_mul before ratio
      in (result, isFinite ratio \<and> isFinite result))"

section \<open>Commission and worst-case cost (cost.go)\<close>

record commission_schedule =
  PerShare :: f64
  MinimumPerOrder :: f64
  MaximumFractionOfTradeValue :: f64

definition Commission :: "int \<Rightarrow> f64 \<Rightarrow> f64 \<Rightarrow> commission_schedule \<Rightarrow> f64 \<times> bool" where
  "Commission quantity price dollarsPerPoint schedule =
     (let charge = f_mul (f_of_int quantity) (PerShare schedule);
          charge = (if f_lt charge (MinimumPerOrder schedule) then MinimumPerOrder schedule else charge);
          ceiling = f_mul (f_mul (f_mul (f_of_int quantity) price) dollarsPerPoint)
                      (MaximumFractionOfTradeValue schedule);
          charge = (if f_lt ceiling charge then ceiling else charge)
      in (charge, isFinite charge))"

definition PriceCap :: "f64 \<Rightarrow> f64 \<Rightarrow> f64 \<Rightarrow> f64 \<times> bool" where
  "PriceCap level gapBufferN n =
     (let price = f_add level (Product gapBufferN n) in (price, isFinite price))"

definition WorstCaseBuyCost ::
    "int \<Rightarrow> f64 \<Rightarrow> f64 \<Rightarrow> f64 \<Rightarrow> f64 \<Rightarrow> commission_schedule \<Rightarrow> f64 \<times> bool" where
  "WorstCaseBuyCost quantity priceCap slippageN n dollarsPerPoint schedule =
     (let price = f_add priceCap (Product slippageN n);
          trade = f_mul (f_mul (f_of_int quantity) price) dollarsPerPoint;
          (commission, ok) = Commission quantity price dollarsPerPoint schedule;
          cost = f_add trade commission
      in (cost, ok \<and> isFinite price \<and> isFinite trade \<and> isFinite cost))"

section \<open>Ladders and stops (ladder.go, stop.go)\<close>

definition DirectionLong :: string where
  "DirectionLong = ''long''"

definition half :: f64 where
  "half = Fin (1 / 2)"

definition NextAddLevel :: "f64 \<Rightarrow> f64 \<Rightarrow> string \<Rightarrow> f64 sized" where
  "NextAddLevel previousFill campaignN direction =
     joinErrs (checkEntryPrice previousFill @ checkN campaignN
         @ errIf (direction \<noteq> DirectionLong) DirectionNotImplemented)
       (finiteResult ''next add level'' (f_add previousFill (Product half campaignN)))"

text \<open>
  The loop of \<open>AddLadder\<close> from rung \<open>i\<close>: \<open>k\<close> rungs remain and \<open>prev\<close> is the rung before.
\<close>

fun ladder_loop :: "nat \<Rightarrow> nat \<Rightarrow> f64 \<Rightarrow> f64 \<Rightarrow> f64 list sized" where
  "ladder_loop i 0 prev campaignN = Inr []"
| "ladder_loop i (Suc k) prev campaignN =
     (let level = f_add prev (Product half campaignN) in
      if \<not> isFinite level then Inl [RungNotFinite i]
      else bindr (ladder_loop (Suc i) k level campaignN) (\<lambda>rest. Inr (level # rest)))"

definition AddLadder :: "f64 \<Rightarrow> f64 \<Rightarrow> int \<Rightarrow> string \<Rightarrow> f64 list sized" where
  "AddLadder firstFill campaignN maxUnits direction =
     joinErrs (checkEntryPrice firstFill @ checkN campaignN
         @ errIf (direction \<noteq> DirectionLong) DirectionNotImplemented
         @ errIf (maxUnits < 1) MaxUnitsTooSmall)
       (bindr (ladder_loop 1 (nat (maxUnits - 1)) firstFill campaignN)
          (\<lambda>rungs. Inr (firstFill # rungs)))"

definition ProtectiveStopLevel :: "f64 \<Rightarrow> f64 \<Rightarrow> f64 \<Rightarrow> string \<Rightarrow> f64 sized" where
  "ProtectiveStopLevel entryPrice campaignN stopMultiple direction =
     joinErrs (checkEntryPrice entryPrice @ checkN campaignN @ checkStopMultiple stopMultiple
         @ errIf (direction \<noteq> DirectionLong) DirectionNotImplemented)
       (let level = f_sub entryPrice (Product stopMultiple campaignN) in
        if f_le level (Fin 0) then Inl [DerivedLevelNotPositive] else Inr level)"

text \<open>A \<open>StopKind\<close> is an \<open>int\<close> in the source: any other value than the two declared is refused.\<close>

definition StopKindInitial :: int where
  "StopKindInitial = 0"

definition StopKindRaised :: int where
  "StopKindRaised = 1"

definition ValidStopLevel :: "f64 \<Rightarrow> f64 \<Rightarrow> int \<Rightarrow> unit sized" where
  "ValidStopLevel entryPrice level kind =
     joinErrs
       ((if \<not> isFinite entryPrice then [EntryPriceNotFinite]
         else if f_le entryPrice (Fin 0) then [EntryPriceNotPositive] else [])
        @ (if \<not> isFinite level then [StopLevelNotFinite]
           else if f_le level (Fin 0) then [StopLevelNotPositive]
           else if kind = StopKindInitial then
             errIf (isFinite entryPrice \<and> f_le entryPrice level) StopLevelNotBelowEntry
           else if kind = StopKindRaised then []
           else [StopKindUndeclared]))
       (Inr ())"

definition RaisedStop :: "f64 \<Rightarrow> f64 \<Rightarrow> f64 sized" where
  "RaisedStop previousStop campaignN =
     joinErrs (checkN campaignN @ checkPositive PreviousStopNotFinite PreviousStopNotPositive previousStop)
       (finiteResult ''raised stop'' (f_add previousStop (Product half campaignN)))"

fun lowest_loop :: "nat \<Rightarrow> f64 \<Rightarrow> f64 list \<Rightarrow> f64 sized" where
  "lowest_loop i lowest [] = Inr lowest"
| "lowest_loop i lowest (stop # stops) =
     (if \<not> isFinite stop \<or> f_le stop (Fin 0) then Inl [UnusableStop i]
      else lowest_loop (Suc i) (if f_lt stop lowest then stop else lowest) stops)"

definition LowestProtectiveStop :: "f64 list \<Rightarrow> f64 sized" where
  "LowestProtectiveStop stops = (if stops = [] then Inl [NoUnits] else lowest_loop 0 PInf stops)"

section \<open>Open risk and realised results (risk.go, result.go)\<close>

record unit_open_risk =
  EntryPrice :: f64
  ProtectiveStop :: f64
  OpenQuantity :: int

definition unitErrs :: "nat \<Rightarrow> unit_open_risk \<Rightarrow> sizing_error list" where
  "unitErrs i u =
     checkPositive (UnitEntryNotFinite i) (UnitEntryNotPositive i) (EntryPrice u)
     @ checkPositive (UnitStopNotFinite i) (UnitStopNotPositive i) (ProtectiveStop u)
     @ errIf (OpenQuantity u \<le> 0) (UnitQuantityNotPositive i)"

definition unitRisk :: "f64 \<Rightarrow> unit_open_risk \<Rightarrow> f64" where
  "unitRisk dollarsPerPoint u =
     Product (f_mul (f_max (Fin 0) (f_sub (EntryPrice u) (ProtectiveStop u))) (f_of_int (OpenQuantity u)))
       dollarsPerPoint"

text \<open>The loop over the Units, with its accumulated errors and its running total.\<close>

fun risk_loop :: "nat \<Rightarrow> f64 \<Rightarrow> unit_open_risk list \<Rightarrow> sizing_error list \<times> f64 \<Rightarrow> sizing_error list \<times> f64" where
  "risk_loop i dollarsPerPoint [] acc = acc"
| "risk_loop i dollarsPerPoint (u # us) (errs, tot) =
     risk_loop (Suc i) dollarsPerPoint us
       (errs @ unitErrs i u,
        if unitErrs i u = [] then f_add tot (unitRisk dollarsPerPoint u) else tot)"

definition AggregateOpenRisk :: "unit_open_risk list \<Rightarrow> f64 \<Rightarrow> f64 sized" where
  "AggregateOpenRisk units dollarsPerPoint =
     (let errs0 = errIf (units = []) NoUnits @ checkDollarsPerPoint dollarsPerPoint;
          (errs, tot) = risk_loop 0 dollarsPerPoint units (errs0, Fin 0)
      in joinErrs errs (finiteResult ''aggregate open risk'' tot))"

definition AverageMoveInN :: "f64 \<Rightarrow> f64 \<Rightarrow> f64 \<Rightarrow> f64 sized" where
  "AverageMoveInN exitPrice entryPrice campaignN =
     joinErrs (checkN campaignN @ errIf (\<not> isFinite exitPrice) ExitPriceNotFinite
         @ errIf (\<not> isFinite entryPrice) EntryPriceNotFinite)
       (finiteResult ''average move in n'' (f_div (f_sub exitPrice entryPrice) campaignN))"

definition RealisedResultInUnitN :: "f64 \<Rightarrow> int \<Rightarrow> f64 \<Rightarrow> f64 \<Rightarrow> f64 sized" where
  "RealisedResultInUnitN realisedResult unitQuantity campaignN dollarsPerPoint =
     joinErrs (checkN campaignN @ errIf (\<not> isFinite realisedResult) RealisedResultNotFinite
         @ errIf (unitQuantity \<le> 0) UnitQuantityNotWhole @ checkDollarsPerPoint dollarsPerPoint)
       (let denominator = f_mul (f_mul (f_of_int unitQuantity) campaignN) dollarsPerPoint in
        if \<not> isFinite denominator \<or> f_le denominator (Fin 0) then Inl [DenominatorUnusable]
        else finiteResult ''realised result in unit n'' (f_div realisedResult denominator))"

section \<open>Truncation to whole quantities\<close>

lemma truncate_quantity_FinE:
  assumes "truncate_quantity budget cost = Inr q"
  obtains b c where "budget = Fin b" and "cost = Fin c" and "0 < c"
proof -
  from assms have "isFinite budget" "isFinite cost" "\<not> f_le cost (Fin 0)"
    by (auto simp: truncate_quantity_def Let_def split: if_splits)
  then show ?thesis by (auto simp: isFinite_iff intro: that)
qed

lemma floor_rnd_quotient:
  assumes "rnd x = Fin r" and "0 \<le> x" and "r < 2 ^ 53"
  shows "0 \<le> \<lfloor>r\<rfloor>" and "\<lfloor>r\<rfloor> < 2 ^ 53" and "x < of_int \<lfloor>r\<rfloor> + 1" and "of_int \<lfloor>r\<rfloor> - 1 < x \<or> \<lfloor>r\<rfloor> = 0"
proof -
  from assms(1) have r: "r = rndq x" by (simp add: rnd_eq_Fin)
  show nn: "0 \<le> \<lfloor>r\<rfloor>" using rndq_nonneg [OF assms(2)] r by simp
  show ub: "\<lfloor>r\<rfloor> < 2 ^ 53" using assms(3) by (simp add: floor_less_iff)
  show "x < of_int \<lfloor>r\<rfloor> + 1"
  proof (rule ccontr)
    assume "\<not> ?thesis"
    then have "of_int (\<lfloor>r\<rfloor> + 1) \<le> rndq x" using ub nn by (intro rndq_ge rndq_of_int) auto
    then show False using r by linarith
  qed
  show "of_int \<lfloor>r\<rfloor> - 1 < x \<or> \<lfloor>r\<rfloor> = 0"
  proof (rule ccontr)
    assume a: "\<not> ?thesis"
    have abs: "\<bar>\<lfloor>r\<rfloor> - 1\<bar> \<le> 2 ^ 53" using ub nn by linarith
    from a have "rndq x \<le> of_int (\<lfloor>r\<rfloor> - 1)" using abs by (intro rndq_le rndq_of_int) auto
    then show False using r by linarith
  qed
qed

lemma truncate_quantity_eq:
  assumes "0 < c" and "0 \<le> b" and "truncate_quantity (Fin b) (Fin c) = Inr q"
  obtains r where "rnd (b / c) = Fin r" and "r < 2 ^ 53"
    and "q = (if 0 < \<lfloor>r\<rfloor> \<and> f_lt (Fin b) (f_mul (Fin (of_int \<lfloor>r\<rfloor>)) (Fin c)) then \<lfloor>r\<rfloor> - 1 else \<lfloor>r\<rfloor>)"
proof -
  from rnd_nonneg_cases [of "b / c"] assms(1,2) consider "rnd (b / c) = PInf"
    | r where "rnd (b / c) = Fin r" "0 \<le> r" by auto
  then show thesis
  proof cases
    case 1
    with assms show thesis
      by (simp add: truncate_quantity_def maxExactWholeQuantity_def)
  next
    case (2 r)
    with assms have lt: "\<not> 2 ^ 53 \<le> (of_int \<lfloor>r\<rfloor> :: rat)"
      by (auto simp: truncate_quantity_def maxExactWholeQuantity_def split: if_splits)
    have "(of_int \<lfloor>r\<rfloor> :: rat) < of_int (2 ^ 53)" using lt by simp
    then have "\<lfloor>r\<rfloor> < 2 ^ 53" by (simp only: of_int_less_iff)
    then have r53: "r < 2 ^ 53" by (simp add: floor_less_iff)
    have nn: "0 \<le> \<lfloor>r\<rfloor>" using 2 by simp
    have sub: "f_sub (Fin (of_int \<lfloor>r\<rfloor>)) (Fin 1) = Fin (of_int (\<lfloor>r\<rfloor> - 1))"
      using is_f64_of_int [of "\<lfloor>r\<rfloor> - 1"] \<open>\<lfloor>r\<rfloor> < 2 ^ 53\<close> nn
      by (simp add: abs_le_iff)
    show thesis
      using assms 2 lt nn sub that [OF 2(1) r53]
      by (auto simp: truncate_quantity_def maxExactWholeQuantity_def Let_def split: if_splits)
  qed
qed

lemma truncate_quantity_spec:
  assumes "truncate_quantity (Fin b) (Fin c) = Inr q" and "0 \<le> b" and "is_f64 (Fin b)"
  shows "0 \<le> q" and "q < 2 ^ 53" and "b < (of_int q + 1) * c"
    and "f_le (f_mul (f_of_int q) (Fin c)) (Fin b)"
    and "(of_int q - 1) * c < b \<or> q = 0"
proof -
  have c: "0 < c" using truncate_quantity_FinE [OF assms(1)] by auto
  obtain r where r: "rnd (b / c) = Fin r" "r < 2 ^ 53"
    and q: "q = (if 0 < \<lfloor>r\<rfloor> \<and> f_lt (Fin b) (f_mul (Fin (of_int \<lfloor>r\<rfloor>)) (Fin c)) then \<lfloor>r\<rfloor> - 1 else \<lfloor>r\<rfloor>)"
    using truncate_quantity_eq [OF c assms(2,1)] by blast
  have x: "0 \<le> b / c" using assms(2) c by simp
  note f = floor_rnd_quotient [OF r(1) x r(2)]
  have fb: "b < (of_int \<lfloor>r\<rfloor> + 1) * c" using f(3) c by (simp add: divide_less_eq)
  have fl: "(of_int \<lfloor>r\<rfloor> - 1) * c < b \<or> \<lfloor>r\<rfloor> = 0" using f(4) c by (simp add: less_divide_eq)
  have down: "f_le (f_mul (Fin y) (Fin c)) (Fin b)" if "y * c \<le> b" for y
    using f_le_rnd [OF that] assms(3) by simp
  show q0: "0 \<le> q" and q53: "q < 2 ^ 53" using f(1,2) by (auto simp: q)
  have qi: "f_of_int q = Fin (of_int q)" using q0 q53 by (intro f_of_int_small) simp
  show "(of_int q - 1) * c < b \<or> q = 0"
  proof (cases "q = \<lfloor>r\<rfloor>")
    case False
    then have e: "q = \<lfloor>r\<rfloor> - 1" and "0 < \<lfloor>r\<rfloor>" by (auto simp: q split: if_splits)
    then have "\<lfloor>r\<rfloor> \<noteq> 0" by linarith
    with fl have "(of_int \<lfloor>r\<rfloor> - 1) * c < b" by blast
    moreover have "(of_int q - 1) * c \<le> (of_int \<lfloor>r\<rfloor> - 1) * c" using c e by (intro mult_right_mono) auto
    ultimately show ?thesis by linarith
  qed (use fl in simp)
  show "b < (of_int q + 1) * c" and "f_le (f_mul (f_of_int q) (Fin c)) (Fin b)"
  proof (atomize (full), cases "0 < \<lfloor>r\<rfloor> \<and> f_lt (Fin b) (f_mul (Fin (of_int \<lfloor>r\<rfloor>)) (Fin c))")
    case True
    have "\<not> of_int \<lfloor>r\<rfloor> * c \<le> b"
    proof
      assume "of_int \<lfloor>r\<rfloor> * c \<le> b"
      from f_le_not_lt [OF down [OF this]] True show False by blast
    qed
    moreover have "(of_int \<lfloor>r\<rfloor> - 1) * c < b" using fl True by linarith
    moreover have "q = \<lfloor>r\<rfloor> - 1" using True by (simp add: q)
    ultimately show "b < (of_int q + 1) * c \<and> f_le (f_mul (f_of_int q) (Fin c)) (Fin b)"
      unfolding qi by (intro conjI down) auto
  next
    case False
    have le: "f_le (f_mul (Fin (of_int \<lfloor>r\<rfloor>)) (Fin c)) (Fin b)"
    proof (cases "0 < \<lfloor>r\<rfloor>")
      case True
      with False have "\<not> f_lt (Fin b) (f_mul (Fin (of_int \<lfloor>r\<rfloor>)) (Fin c))" by simp
      then show ?thesis by (subst (asm) not_f_lt) auto
    next
      case False
      with f(1) have "\<lfloor>r\<rfloor> = 0" by linarith
      then show ?thesis using assms(2) by (intro down) simp
    qed
    have "q = \<lfloor>r\<rfloor>" using False by (auto simp: q)
    then show "b < (of_int q + 1) * c \<and> f_le (f_mul (f_of_int q) (Fin c)) (Fin b)"
      using fb le unfolding qi by simp
  qed
qed

section \<open>Stops\<close>

definition usableStop :: "f64 \<Rightarrow> bool" where
  "usableStop s \<longleftrightarrow> isFinite s \<and> \<not> f_le s (Fin 0)"

lemma usableStop_iff: "usableStop s \<longleftrightarrow> (\<exists>r. s = Fin r \<and> 0 < r)"
  by (cases s) (auto simp: usableStop_def)

lemma lowest_loop_spec:
  "lowest_loop i low stops = Inr s \<longleftrightarrow>
     (\<forall>t \<in> set stops. usableStop t) \<and> s = fold (\<lambda>t m. if f_lt t m then t else m) stops low"
  by (induction stops arbitrary: i low) (auto simp: usableStop_def)

lemma fold_lowest_Min:
  assumes "\<forall>t \<in> set stops. usableStop t" and "low \<noteq> NaN"
  shows "fold (\<lambda>t m. if f_lt t m then t else m) stops low = Min (set (low # stops))"
  using assms
proof (induction stops arbitrary: low)
  case (Cons t stops)
  have t: "t \<noteq> NaN" using Cons.prems by (auto simp: usableStop_iff)
  have "(if f_lt t low then t else low) = min t low"
    using f_lt_less [OF t Cons.prems(2)] by (auto simp: min_def)
  moreover have "min t low \<noteq> NaN" using t Cons.prems(2) by (simp add: min_def)
  ultimately have "fold (\<lambda>t m. if f_lt t m then t else m) (t # stops) low = Min (insert (min t low) (set stops))"
    using Cons by simp
  also have "\<dots> = Min (set (low # t # stops))"
    by (cases "stops = []") (simp_all add: min.commute min.left_commute min.assoc)
  finally show ?case .
qed simp

lemma LowestProtectiveStop_eq:
  assumes "stops \<noteq> []" and "\<forall>t \<in> set stops. usableStop t"
  shows "LowestProtectiveStop stops = Inr (Min (set stops))"
proof -
  have "Min (insert PInf (set stops)) = Min (set stops)"
    using assms(1) by (simp add: min_absorb2)
  then have "lowest_loop 0 PInf stops = Inr (Min (set stops))"
    using assms fold_lowest_Min [of stops PInf] by (simp add: lowest_loop_spec)
  then show ?thesis using assms(1) by (simp add: LowestProtectiveStop_def)
qed

lemma LowestProtectiveStop_Inr:
  "LowestProtectiveStop stops = Inr s \<longleftrightarrow>
     stops \<noteq> [] \<and> (\<forall>t \<in> set stops. usableStop t) \<and> s = Min (set stops)"
proof (cases "stops \<noteq> [] \<and> (\<forall>t \<in> set stops. usableStop t)")
  case True
  then show ?thesis using LowestProtectiveStop_eq by auto
next
  case False
  then show ?thesis by (auto simp: LowestProtectiveStop_def lowest_loop_spec)
qed

section \<open>Ladders\<close>

lemma ladder_loop_spec:
  "ladder_loop i k prev n = Inr rungs \<Longrightarrow>
     length rungs = k \<and> (\<forall>j < k. rungs ! j = f_add ((prev # rungs) ! j) (Product half n) \<and> isFinite (rungs ! j))"
proof (induction k arbitrary: i prev rungs)
  case (Suc k)
  let ?l = "f_add prev (Product half n)"
  from Suc.prems obtain rest where l: "isFinite ?l" and r: "ladder_loop (Suc i) k ?l n = Inr rest"
    and rungs: "rungs = ?l # rest"
    by (auto simp: Let_def bindr_eq_Inr split: if_splits)
  note ih = Suc.IH [OF r]
  have "rungs ! j = f_add ((prev # rungs) ! j) (Product half n) \<and> isFinite (rungs ! j)" if "j < Suc k" for j
    using ih l that by (cases j) (auto simp: rungs)
  moreover have "length rungs = Suc k" using ih by (simp add: rungs)
  ultimately show ?case by blast
qed simp

lemma AddLadder_spec:
  assumes "AddLadder first n m dir = Inr ladder"
  shows "int (length ladder) = m \<and> ladder ! 0 = first
       \<and> (\<forall>i < length ladder - 1. NextAddLevel (ladder ! i) n dir = Inr (ladder ! Suc i)
            \<or> \<not> (\<exists>r. ladder ! i = Fin r \<and> 0 < r))"
proof -
  from assms obtain rungs where ok: "dir = DirectionLong" "1 \<le> m" "checkN n = []" "checkEntryPrice first = []"
    and l: "ladder_loop 1 (nat (m - 1)) first n = Inr rungs" and ladder: "ladder = first # rungs"
    by (auto simp: AddLadder_def bindr_eq_Inr simp del: checks_eq_Nil)
  from ladder_loop_spec [OF l] ok ladder show ?thesis
    by (auto simp: NextAddLevel_def)
qed

lemma half_step_nonneg: "0 < r \<Longrightarrow> f_nonneg (Product half (Fin r))"
  by (simp add: Product_def half_def f_nonneg_def f_le_0_rnd)

lemma f_le_raise:
  assumes "is_f64 x" and "x = Fin a" and "0 < r" and "f_add x (Product half (Fin r)) = Fin b"
  shows "a \<le> b"
proof -
  from f_add_FinD [OF assms(4)] obtain s where s: "Product half (Fin r) = Fin s" by auto
  then have "0 \<le> s" using half_step_nonneg [OF assms(3)] by simp
  then show ?thesis using f_le_add_right [of a s] assms s by simp
qed

lemma AddLadder_ascends:
  assumes "AddLadder first n m dir = Inr ladder" and "is_f64 first"
  shows "\<forall>i < length ladder. is_f64 (ladder ! i) \<and> (\<exists>r. ladder ! i = Fin r \<and> 0 < r)
           \<and> (0 < i \<longrightarrow> ladder ! (i - 1) \<le> ladder ! i)"
proof -
  from assms obtain rungs r f where ok: "n = Fin r" "0 < r" "first = Fin f" "0 < f"
    and l: "ladder_loop 1 (nat (m - 1)) first n = Inr rungs" and ladder: "ladder = first # rungs"
    by (auto simp: AddLadder_def bindr_eq_Inr)
  note spec = ladder_loop_spec [OF l]
  have "i < length ladder \<Longrightarrow> is_f64 (ladder ! i) \<and> (\<exists>r. ladder ! i = Fin r \<and> 0 < r)
          \<and> (0 < i \<longrightarrow> ladder ! (i - 1) \<le> ladder ! i)" for i
  proof (induction i)
    case 0
    then show ?case using ok assms(2) by (simp add: ladder)
  next
    case (Suc i)
    then obtain a where a: "ladder ! i = Fin a" "0 < a" "is_f64 (Fin a)" by auto
    from Suc.prems spec have s: "ladder ! Suc i = f_add (ladder ! i) (Product half n)" "isFinite (ladder ! Suc i)"
      by (auto simp: ladder)
    then obtain b where b: "f_add (Fin a) (Product half (Fin r)) = Fin b" "ladder ! Suc i = Fin b"
      using a ok by (auto simp: isFinite_iff)
    have "a \<le> b" using f_le_raise [OF a(3) refl ok(2) b(1)] .
    moreover have "is_f64 (f_add (Fin a) (Product half (Fin r)))"
      using a(3) by (intro is_f64_f_add) (simp_all add: Product_def)
    ultimately show ?case using a b by simp
  qed
  then show ?thesis by blast
qed

section \<open>Stop levels\<close>

lemma ProtectiveStopLevel_range:
  assumes "ProtectiveStopLevel entry n sm dir = Inr level" and "is_f64 entry"
  shows "\<exists>e l. entry = Fin e \<and> level = Fin l \<and> 0 < l \<and> l \<le> e"
proof -
  from assms(1) obtain e r m where ok: "entry = Fin e" "n = Fin r" "sm = Fin m" "0 < e" "0 < r" "0 < m"
    and level: "level = f_sub (Fin e) (f_mul (Fin m) (Fin r))" and pos: "\<not> f_le level (Fin 0)"
    by (auto simp: ProtectiveStopLevel_def Product_def Let_def split: if_splits)
  from rnd_nonneg_cases [of "m * r"] ok have "rnd (m * r) = PInf \<or> (\<exists>s. rnd (m * r) = Fin s \<and> 0 \<le> s)" by auto
  then obtain s where s: "rnd (m * r) = Fin s" "0 \<le> s" using level pos by (auto simp: f_sub_def)
  then have lv: "level = rnd (e - s)" using level by simp
  have "f_le level (Fin e)" unfolding lv using f_le_sub_right [of e s] assms(2) ok s by simp
  moreover have "level \<noteq> NaN" by (simp add: lv)
  ultimately show ?thesis using pos ok by (cases level) auto
qed

lemma ValidStopLevel_ok:
  "ValidStopLevel entry level kind = Inr () \<longleftrightarrow>
     (\<exists>e l. entry = Fin e \<and> level = Fin l \<and> 0 < e \<and> 0 < l
        \<and> (kind = StopKindInitial \<and> l < e \<or> kind = StopKindRaised))"
  by (cases entry; cases level) (auto simp: ValidStopLevel_def StopKindInitial_def StopKindRaised_def)

lemma RaisedStop_raises:
  assumes "RaisedStop prev n = Inr level" and "is_f64 prev"
  shows "\<exists>a b. prev = Fin a \<and> level = Fin b \<and> 0 < a \<and> a \<le> b"
proof -
  from assms(1) obtain a r b where "prev = Fin a" "0 < a" "n = Fin r" "0 < r"
      "f_add (Fin a) (Product half (Fin r)) = Fin b" "level = Fin b"
    by (auto simp: RaisedStop_def checkPositive_eq_Nil isFinite_iff)
  then show ?thesis using f_le_raise [OF assms(2)] by blast
qed

section \<open>Open risk\<close>

lemma risk_loop_split:
  "risk_loop i dpp us (errs, tot) = (errs', tot') \<Longrightarrow>
     errs' = errs @ concat (map (\<lambda>(j, u). unitErrs j u) (enumerate i us))
     \<and> (errs' = errs \<longrightarrow> tot' = fold (\<lambda>u t. f_add t (unitRisk dpp u)) us tot)"
proof (induction us arbitrary: i errs tot)
  case (Cons u us)
  let ?e = "unitErrs i u"
  from Cons.prems have "risk_loop (Suc i) dpp us (errs @ ?e, if ?e = [] then f_add tot (unitRisk dpp u) else tot) = (errs', tot')"
    by simp
  note ih = Cons.IH [OF this]
  then show ?case by auto
qed simp

definition validUnit :: "unit_open_risk \<Rightarrow> bool" where
  "validUnit u \<longleftrightarrow> (\<exists>e s. EntryPrice u = Fin e \<and> 0 < e \<and> ProtectiveStop u = Fin s \<and> 0 < s \<and> 0 < OpenQuantity u)"

lemma unitErrs_Nil: "unitErrs i u = [] \<longleftrightarrow> validUnit u"
  by (auto simp: unitErrs_def validUnit_def checkPositive_eq_Nil)

lemma unitErrs_concat_Nil:
  "concat (map (\<lambda>(j, u). unitErrs j u) (enumerate i us)) = [] \<longleftrightarrow> (\<forall>u \<in> set us. validUnit u)"
  by (induction us arbitrary: i) (auto simp: unitErrs_Nil)

definition riskSum :: "f64 \<Rightarrow> unit_open_risk list \<Rightarrow> f64" where
  "riskSum dpp us = fold (\<lambda>u t. f_add t (unitRisk dpp u)) us (Fin 0)"

lemma AggregateOpenRisk_Inr:
  "AggregateOpenRisk us dpp = Inr r \<longleftrightarrow>
     us \<noteq> [] \<and> checkDollarsPerPoint dpp = [] \<and> (\<forall>u \<in> set us. validUnit u)
     \<and> r = riskSum dpp us \<and> isFinite r"
proof -
  obtain errs tot where l: "risk_loop 0 dpp us (errIf (us = []) NoUnits @ checkDollarsPerPoint dpp, Fin 0) = (errs, tot)"
    by (cases "risk_loop 0 dpp us (errIf (us = []) NoUnits @ checkDollarsPerPoint dpp, Fin 0)")
  define E where "E = concat (map (\<lambda>(j, u). unitErrs j u) (enumerate 0 us))"
  have E: "E = [] \<longleftrightarrow> (\<forall>u \<in> set us. validUnit u)" unfolding E_def by (rule unitErrs_concat_Nil)
  from risk_loop_split [OF l] have errs: "errs = (errIf (us = []) NoUnits @ checkDollarsPerPoint dpp) @ E"
    and tot: "E = [] \<Longrightarrow> tot = riskSum dpp us"
    by (simp_all add: E_def riskSum_def)
  show ?thesis unfolding AggregateOpenRisk_def l Let_def
    using tot by (auto simp: errs E simp del: checks_eq_Nil)
qed

lemma f_max_0_FinD: "f_max (Fin 0) y = Fin m \<Longrightarrow> 0 \<le> m"
  by (cases y) (auto simp: f_max_def split: if_splits)

lemma unitRisk_FinD:
  assumes "unitRisk dpp u = Fin x" and "checkDollarsPerPoint dpp = []" and "0 < OpenQuantity u"
  shows "0 \<le> x" and "is_f64 (Fin x)"
proof -
  let ?m = "f_max (Fin 0) (f_sub (EntryPrice u) (ProtectiveStop u))"
  from assms(1) obtain y d where y: "f_mul ?m (f_of_int (OpenQuantity u)) = Fin y" and d: "dpp = Fin d"
      and x: "x = rndq (y * d)"
    unfolding unitRisk_def Product_def by (blast dest: f_mul_FinD)
  from f_mul_FinD [OF y] obtain m q where m: "?m = Fin m" and q: "f_of_int (OpenQuantity u) = Fin q"
      and yy: "y = rndq (m * q)" by blast
  have "0 \<le> m" using f_max_0_FinD [OF m] .
  moreover have "0 \<le> q" using f_nonneg_of_int [of "OpenQuantity u"] assms(3) q by simp
  ultimately have "0 \<le> y" using yy by (simp add: rndq_nonneg)
  then show "0 \<le> x" using assms(2) d x by (simp add: rndq_nonneg)
  show "is_f64 (Fin x)" using is_f64_f_mul unfolding assms(1) [symmetric] unitRisk_def Product_def .
qed

lemma fold_f_add_nonneg:
  assumes "fold (\<lambda>u t. f_add t (g u)) us (Fin a) = Fin r" and "0 \<le> a" and "is_f64 (Fin a)"
    and "\<And>u x. u \<in> set us \<Longrightarrow> g u = Fin x \<Longrightarrow> 0 \<le> x \<and> is_f64 (Fin x)"
  shows "a \<le> r \<and> (\<forall>u \<in> set us. \<exists>x. g u = Fin x \<and> 0 \<le> x \<and> x \<le> r)"
  using assms
proof (induction us arbitrary: a)
  case (Cons u us)
  have fin: "isFinite t" if "fold (\<lambda>u t. f_add t (g u)) vs t = Fin r" for vs t
    using that
  proof (induction vs arbitrary: t)
    case (Cons v vs)
    then have "isFinite (f_add t (g v))" by simp
    then show ?case by (auto simp: isFinite_iff dest: f_add_FinD)
  qed simp
  from Cons.prems(1) fin [of us "f_add (Fin a) (g u)"] obtain b where b: "f_add (Fin a) (g u) = Fin b"
    by (auto simp: isFinite_iff)
  from f_add_FinD [OF b] obtain x where x: "g u = Fin x" by blast
  then have nn: "0 \<le> x" "is_f64 (Fin x)" using Cons.prems(4) by auto
  have "a \<le> b" using f_le_add_right [OF Cons.prems(3) nn(1)] b x by simp
  moreover have "x \<le> b" using f_le_add_right [OF nn(2) Cons.prems(2)] b x by (simp add: add.commute)
  moreover have "is_f64 (Fin b)" using is_f64_rnd [of "a + x"] x b by (simp only: f_add.simps)
  moreover have "b \<le> r \<and> (\<forall>u \<in> set us. \<exists>x. g u = Fin x \<and> 0 \<le> x \<and> x \<le> r)"
  proof (rule Cons.IH)
    show "fold (\<lambda>u t. f_add t (g u)) us (Fin b) = Fin r" using Cons.prems(1) b by simp
    show "0 \<le> b" using \<open>a \<le> b\<close> Cons.prems(2) by simp
    show "is_f64 (Fin b)" by fact
    show "0 \<le> x \<and> is_f64 (Fin x)" if "v \<in> set us" "g v = Fin x" for v x
      using Cons.prems(4) [of v x] that by simp
  qed
  ultimately show ?case using x nn by (auto intro: order.trans)
qed simp

lemma AggregateOpenRisk_covers:
  assumes "AggregateOpenRisk us dpp = Inr r"
  shows "\<exists>x. r = Fin x \<and> 0 \<le> x \<and> (\<forall>u \<in> set us. \<exists>y. unitRisk dpp u = Fin y \<and> 0 \<le> y \<and> y \<le> x)"
proof -
  from assms have v: "\<forall>u \<in> set us. validUnit u" and d: "checkDollarsPerPoint dpp = []"
    and s: "r = riskSum dpp us" "isFinite r" by (auto simp: AggregateOpenRisk_Inr simp del: checks_eq_Nil)
  from s obtain x where x: "r = Fin x" "fold (\<lambda>u t. f_add t (unitRisk dpp u)) us (Fin 0) = Fin x"
    by (auto simp: isFinite_iff riskSum_def)
  have "0 \<le> x \<and> (\<forall>u \<in> set us. \<exists>y. unitRisk dpp u = Fin y \<and> 0 \<le> y \<and> y \<le> x)"
  proof (rule fold_f_add_nonneg [OF x(2) order_refl is_f64_0])
    fix u y assume "u \<in> set us" "unitRisk dpp u = Fin y"
    then show "0 \<le> y \<and> is_f64 (Fin y)"
      using unitRisk_FinD [OF _ d] v by (auto simp: validUnit_def)
  qed
  with x show ?thesis by blast
qed

lemma unitRisk_free:
  assumes "validUnit u" and "checkDollarsPerPoint dpp = []" and "\<bar>OpenQuantity u\<bar> \<le> 2 ^ 53"
    and "f_le (EntryPrice u) (ProtectiveStop u)"
  shows "unitRisk dpp u = Fin 0"
proof -
  from assms obtain e s d where e: "EntryPrice u = Fin e" "ProtectiveStop u = Fin s" "e \<le> s" "dpp = Fin d"
    by (auto simp: validUnit_def)
  have "f_le (rnd (e - s)) (Fin 0)" using f_le_rnd [of "e - s" 0] e by simp
  then have "f_max (Fin 0) (rnd (e - s)) = Fin 0"
    by (cases "rnd (e - s)") (auto simp: f_max_def split: if_splits)
  then show ?thesis using e f_of_int_small [OF assms(3)] by (simp add: unitRisk_def Product_def)
qed

section \<open>Commission and worst-case cost\<close>

definition validSchedule :: "commission_schedule \<Rightarrow> bool" where
  "validSchedule s \<longleftrightarrow> f_nonneg (PerShare s) \<and> isFinite (PerShare s) \<and> f_nonneg (MinimumPerOrder s)
     \<and> isFinite (MinimumPerOrder s) \<and> f_nonneg (MaximumFractionOfTradeValue s)
     \<and> isFinite (MaximumFractionOfTradeValue s)"

definition fillCost :: "int \<Rightarrow> f64 \<Rightarrow> f64 \<Rightarrow> commission_schedule \<Rightarrow> f64" where
  "fillCost q price dpp sch = f_add (f_mul (f_mul (f_of_int q) price) dpp) (fst (Commission q price dpp sch))"

lemma Commission_min:
  "fst (Commission q p dpp sch) =
     (let base = (let c = f_mul (f_of_int q) (PerShare sch) in if f_lt c (MinimumPerOrder sch) then MinimumPerOrder sch else c);
          ceiling = f_mul (f_mul (f_mul (f_of_int q) p) dpp) (MaximumFractionOfTradeValue sch)
      in if f_lt ceiling base then ceiling else base)"
  by (simp add: Commission_def Let_def)

lemma if_lt_mono:
  assumes "f_le c c'" and "f_nonneg c" and "f_nonneg b" 
  shows "f_le (if f_lt c b then c else b) (if f_lt c' b then c' else b)"
    and "f_nonneg (if f_lt c b then c else b)"
  using assms by (cases c; cases c'; cases b; auto simp: f_nonneg_def)+

lemma Commission_mono:
  assumes sch: "validSchedule sch" and q: "0 \<le> q" "isFinite (f_of_int q)"
    and t: "f_mul (f_mul (f_of_int q) p) dpp = Fin t" and t': "f_mul (f_mul (f_of_int q) p') dpp = Fin t'"
    and le: "0 \<le> t" "t \<le> t'"
  shows "f_le (fst (Commission q p dpp sch)) (fst (Commission q p' dpp sch))"
    and "f_nonneg (fst (Commission q p dpp sch))"
proof -
  from sch obtain ps mn mx where s: "PerShare sch = Fin ps" "MinimumPerOrder sch = Fin mn"
      "MaximumFractionOfTradeValue sch = Fin mx" "0 \<le> ps" "0 \<le> mn" "0 \<le> mx"
    by (auto simp: validSchedule_def isFinite_iff)
  from q obtain k where k: "f_of_int q = Fin k" "0 \<le> k" using f_nonneg_of_int [of q] by (auto simp: isFinite_iff)
  let ?b = "let c = f_mul (f_of_int q) (PerShare sch) in if f_lt c (MinimumPerOrder sch) then MinimumPerOrder sch else c"
  have b: "f_nonneg ?b" using k s f_nonneg_mul [of k ps] by (auto simp: Let_def)
  have c: "f_le (f_mul (Fin t) (Fin mx)) (f_mul (Fin t') (Fin mx))" using le s by (intro f_mul_mono) auto
  have c0: "f_nonneg (f_mul (Fin t) (Fin mx))" using le s by (intro f_nonneg_mul) auto
  from if_lt_mono [OF c c0 b]
  show "f_le (fst (Commission q p dpp sch)) (fst (Commission q p' dpp sch))"
    and "f_nonneg (fst (Commission q p dpp sch))"
    unfolding Commission_min t t' s(3) Let_def by simp_all
qed

lemma WorstCaseBuyCost_bounds:
  assumes w: "WorstCaseBuyCost q cap slip n dpp sch = (cost, True)"
    and sch: "validSchedule sch" and q: "0 \<le> q"
    and d: "f_nonneg dpp" and p: "f_nonneg p" "f_le p (f_add cap (Product slip n))"
  shows "f_le (fillCost q p dpp sch) cost"
proof -
  let ?p = "f_add cap (Product slip n)"
  from w obtain t' where t': "f_mul (f_mul (f_of_int q) ?p) dpp = Fin t'"
    and cost: "cost = fillCost q ?p dpp sch" "isFinite cost"
    by (auto simp: WorstCaseBuyCost_def fillCost_def Let_def isFinite_iff split: prod.splits)
  from f_mul_FinD [OF t'] obtain m' d' where m': "f_mul (f_of_int q) ?p = Fin m'" and d': "dpp = Fin d'" by blast
  from f_mul_FinD [OF m'] have qf: "isFinite (f_of_int q)" by (auto simp: isFinite_iff)
  have qq: "f_le (f_of_int q) (f_of_int q)" using qf by (auto simp: isFinite_iff)
  from f_mul_mono_Fin [OF f_nonneg_of_int [OF q] qq p m'] obtain m where
    m: "f_mul (f_of_int q) p = Fin m" "0 \<le> m" "m \<le> m'" by blast
  have "\<exists>t. f_mul (f_mul (f_of_int q) p) dpp = Fin t \<and> 0 \<le> t \<and> t \<le> t'"
    using m d d' t' m' by (intro f_mul_mono_Fin [of _ "Fin m'" _ dpp]) auto
  then obtain t where t: "f_mul (f_mul (f_of_int q) p) dpp = Fin t" "0 \<le> t" "t \<le> t'" by blast
  note cm = Commission_mono [OF sch q qf t(1) t' t(2,3)]
  from cost obtain c where c: "f_add (Fin t') (fst (Commission q ?p dpp sch)) = Fin c" "cost = Fin c"
    by (auto simp: fillCost_def t' isFinite_iff)
  have "\<exists>s. f_add (Fin t) (fst (Commission q p dpp sch)) = Fin s \<and> 0 \<le> s \<and> s \<le> c"
    by (rule f_add_mono_Fin [OF _ _ cm(2,1) c(1)]) (use t in simp_all)
  then show ?thesis using c by (auto simp: fillCost_def t(1))
qed

section \<open>Sizing a Unit\<close>

lemma RiskAtStop_of_range:
  assumes "RiskAtStop_of mode uvf sm rasf = Inr r"
  shows "\<exists>x. r = Fin x \<and> 0 < x \<and> x \<le> 1"
proof (cases "mode = ModeVolatilityNormalised")
  case True
  with assms obtain u m where um: "uvf = Fin u" "sm = Fin m" and r: "r = f_mul (Fin u) (Fin m)"
      and nr: "\<not> f_lt (Fin 1) r" "\<not> f_le r (Fin 0)"
    by (auto simp: RiskAtStop_of_def Let_def split: if_splits)
  have "r \<noteq> NaN" by (simp add: r)
  then show ?thesis using nr by (cases r) auto
next
  case False
  with assms show ?thesis
    by (auto simp: RiskAtStop_of_def split: if_splits)
qed

text \<open>The budget and the cost of one share that each Sizing Mode truncates.\<close>

definition unitBudget :: "inputs \<Rightarrow> f64" where
  "unitBudget inp = f_mul (NotionalAccount inp)
     (if Mode inp = ModeVolatilityNormalised then UnitVolatilityFraction inp else RiskAtStopFraction inp)"

definition unitCost :: "inputs \<Rightarrow> f64" where
  "unitCost inp = (if Mode inp = ModeVolatilityNormalised then f_mul (N inp) (DollarsPerPoint inp)
     else f_mul (f_mul (StopMultiple inp) (N inp)) (DollarsPerPoint inp))"

lemma SizeUnit_truncates:
  assumes "SizeUnit inp = Inr u"
  shows "truncate_quantity (unitBudget inp) (unitCost inp) = Inr (Quantity u)"
    and "\<exists>b. unitBudget inp = Fin b \<and> 0 \<le> b"
proof -
  have modes: "ModeFixedRiskAtStop \<noteq> ModeVolatilityNormalised"
    by (simp add: ModeFixedRiskAtStop_def ModeVolatilityNormalised_def)
  from assms obtain q where q: "Quantity u = q" and "Mode inp = ModeVolatilityNormalised \<and>
        UnitQuantity (NotionalAccount inp) (UnitVolatilityFraction inp) (N inp) (DollarsPerPoint inp) = Inr q
      \<or> Mode inp = ModeFixedRiskAtStop \<and> FixedRiskAtStopQuantity (NotionalAccount inp)
          (RiskAtStopFraction inp) (StopMultiple inp) (N inp) (DollarsPerPoint inp) = Inr q"
    by (cases "RealisedRiskAtStop_of (Quantity u) (StopMultiple inp) (N inp) (DollarsPerPoint inp) (NotionalAccount inp)")
      (force simp: SizeUnit_def bindr_eq_Inr Let_def case_prod_beta split: if_splits)
  then have t: "truncate_quantity (unitBudget inp) (unitCost inp) = Inr (Quantity u)"
    and b: "\<exists>a f. unitBudget inp = f_mul (Fin a) (Fin f) \<and> 0 < a \<and> 0 < f"
    using modes
    by (auto simp: UnitQuantity_def FixedRiskAtStopQuantity_def unitBudget_def unitCost_def) blast+
  show "truncate_quantity (unitBudget inp) (unitCost inp) = Inr (Quantity u)" by (rule t)
  from b obtain a f where bf: "unitBudget inp = rnd (a * f)" "0 < a" "0 < f" by auto
  obtain b where b: "unitBudget inp = Fin b" using truncate_quantity_FinE [OF t] by blast
  have "0 \<le> a * f" using bf by simp
  from rnd_nonneg_cases [OF this] b bf show "\<exists>b. unitBudget inp = Fin b \<and> 0 \<le> b" by auto
qed

lemma is_f64_unitBudget: "is_f64 (unitBudget inp)"
  by (simp add: unitBudget_def)

section \<open>Properties\<close>

text \<open>C1: whenever \<open>SizeUnit\<close> returns a Unit, its quantity is a non-negative whole number below \<open>2^53\<close>,
  the cost of that quantity in the program's own arithmetic does not exceed the budget, and one more
  share would exceed it exactly: truncation never risks more than the budget and never buys less
  than the budget allows.\<close>

theorem SizeUnit_within_budget:
  assumes "SizeUnit inp = Inr u"
  shows "0 \<le> Quantity u \<and> Quantity u < 2 ^ 53
       \<and> f_le (f_mul (f_of_int (Quantity u)) (unitCost inp)) (unitBudget inp)
       \<and> (\<exists>b c. unitBudget inp = Fin b \<and> unitCost inp = Fin c \<and> b < (of_int (Quantity u) + 1) * c)"
proof -
  note t = SizeUnit_truncates [OF assms]
  from t(2) obtain b where b: "unitBudget inp = Fin b" "0 \<le> b" by blast
  from truncate_quantity_FinE [OF t(1)] obtain c where c: "unitCost inp = Fin c" by blast
  have f: "is_f64 (Fin b)" using is_f64_unitBudget [of inp] b by simp
  from truncate_quantity_spec [OF t(1) [unfolded b(1) c] b(2) f] show ?thesis using b c by auto
qed

definition exampleInputs :: inputs where
  "exampleInputs = \<lparr>Mode = ModeVolatilityNormalised, NotionalAccount = Fin 100000,
     UnitVolatilityFraction = Fin (1 / 128), StopMultiple = Fin 2, RiskAtStopFraction = Fin 0,
     N = Fin (3 / 2), DollarsPerPoint = Fin 1\<rparr>"

theorem SizeUnit_within_budget_witness:
  "SizeUnit exampleInputs = Inr \<lparr>Quantity = 520, RiskAtStop = Fin (1 / 64),
       RealisedRiskAtStop = RealisedRiskAtStop (projr (SizeUnit exampleInputs))\<rparr>
   \<and> f_le (f_mul (f_of_int 520) (unitCost exampleInputs)) (unitBudget exampleInputs)"
proof -
  have s: "SizeUnit exampleInputs = Inr \<lparr>Quantity = 520, RiskAtStop = Fin (1 / 64),
       RealisedRiskAtStop = RealisedRiskAtStop (projr (SizeUnit exampleInputs))\<rparr>"
    by code_simp
  from SizeUnit_within_budget [OF s] show ?thesis using s by simp
qed

definition overBudgetInputs :: inputs where
  "overBudgetInputs = \<lparr>Mode = ModeVolatilityNormalised, NotionalAccount = Fin 100000,
     UnitVolatilityFraction = f_lit (5 / 1000), StopMultiple = Fin 3, RiskAtStopFraction = Fin 0,
     N = f_lit (8 / 10), DollarsPerPoint = Fin 1\<rparr>"

text \<open>The realised risk of a sized Unit can exceed the declared risk in the last bit. For a 100,000
  account, half a percent per N, a stop multiple of 3 and N = 0.8, \<open>SizeUnit\<close> succeeds with 625 shares,
  a declared risk of 0.015 and a realised risk one unit in the last place above it.\<close>

theorem realised_risk_can_exceed_declared:
  "\<exists>u. SizeUnit overBudgetInputs = Inr u \<and> Quantity u = 625
     \<and> RiskAtStop u = f_lit (15 / 1000) \<and> f_lt (RiskAtStop u) (RealisedRiskAtStop u)"
proof -
  have "SizeUnit overBudgetInputs = Inr \<lparr>Quantity = 625, RiskAtStop = f_lit (15 / 1000),
      RealisedRiskAtStop = Fin (4323455642275677 / 288230376151711744)\<rparr>"
    by code_simp
  moreover have "f_lt (f_lit (15 / 1000)) (Fin (4323455642275677 / 288230376151711744))"
    by code_simp
  ultimately show ?thesis by simp
qed

text \<open>The quantity \<open>truncate\<close> returns is not always the floor of the mathematical quotient. A budget
  of 1 and a cost of 0.1 give 10, although ten times the float 0.1 is more than 1: the rounded
  product hides the excess from the guard.\<close>

theorem truncate_exceeds_exact_floor:
  "truncate_quantity (Fin 1) (f_lit (1 / 10)) = Inr 10
   \<and> (\<exists>c. f_lit (1 / 10) = Fin c \<and> \<lfloor>1 / c\<rfloor> = 9 \<and> 1 < 10 * c)"
proof -
  have "truncate_quantity (Fin 1) (f_lit (1 / 10)) = Inr 10" by code_simp
  moreover have "f_lit (1 / 10) = Fin (3602879701896397 / 36028797018963968)" by code_simp
  moreover have "\<lfloor>1 / (3602879701896397 / 36028797018963968) :: rat\<rfloor> = 9"
    by (rule floor_unique) simp_all
  ultimately show ?thesis by (intro conjI exI [of _ "3602879701896397 / 36028797018963968"]) simp_all
qed

text \<open>\<open>LowestProtectiveStop\<close> succeeds exactly when there is a Unit and every Unit's stop is finite and
  positive, and then returns the minimum of the stops, so the answer depends on the set of stops and
  not on the order they are stored in.\<close>

theorem LowestProtectiveStop_minimum:
  "LowestProtectiveStop stops = Inr s \<longleftrightarrow>
     stops \<noteq> [] \<and> (\<forall>t \<in> set stops. usableStop t) \<and> s = Min (set stops)"
  by (rule LowestProtectiveStop_Inr)

theorem LowestProtectiveStop_minimum_witness:
  "LowestProtectiveStop [Fin 3, Fin 2, Fin 5] = Inr (Min (set [Fin 3, Fin 2, Fin 5]))"
  using LowestProtectiveStop_minimum [of "[Fin 3, Fin 2, Fin 5]" "Min (set [Fin 3, Fin 2, Fin 5])"]
  by (simp add: usableStop_iff)

text \<open>A published Add Ladder has exactly \<open>m\<close> rungs, starts at the first fill, never descends, and each
  rung is bit for bit what \<open>NextAddLevel\<close> derives from the rung before it.\<close>

theorem AddLadder_rungs:
  assumes "AddLadder first n m dir = Inr ladder" and "is_f64 first"
  shows "int (length ladder) = m \<and> ladder ! 0 = first
       \<and> (\<forall>i < length ladder - 1. NextAddLevel (ladder ! i) n dir = Inr (ladder ! Suc i)
            \<and> ladder ! i \<le> ladder ! Suc i)"
proof -
  have "NextAddLevel (ladder ! i) n dir = Inr (ladder ! Suc i) \<and> ladder ! i \<le> ladder ! Suc i"
    if "i < length ladder - 1" for i
    using AddLadder_spec [OF assms(1)] AddLadder_ascends [OF assms] that
    by (metis Suc_lessI diff_Suc_1 less_diff_conv nat_neq_iff plus_1_eq_Suc add.commute zero_less_Suc Suc_lessD)
  then show ?thesis using AddLadder_spec [OF assms(1)] by blast
qed

theorem AddLadder_rungs_witness:
  "AddLadder (Fin 310) (Fin (5 / 2)) 4 DirectionLong
     = Inr [Fin 310, Fin (1245 / 4), Fin (625 / 2), Fin (1255 / 4)]
   \<and> NextAddLevel (Fin (1245 / 4)) (Fin (5 / 2)) DirectionLong = Inr (Fin (625 / 2))"
proof -
  have l: "AddLadder (Fin 310) (Fin (5 / 2)) 4 DirectionLong
     = Inr [Fin 310, Fin (1245 / 4), Fin (625 / 2), Fin (1255 / 4)]" by code_simp
  have f: "is_f64 (Fin 310)" by code_simp
  from AddLadder_rungs [OF l f] l show ?thesis by (auto dest: spec [of _ 1])
qed

fun raise_times :: "nat \<Rightarrow> f64 \<Rightarrow> f64 \<Rightarrow> f64 sized" where
  "raise_times 0 stop n = Inr stop"
| "raise_times (Suc k) stop n = bindr (RaisedStop stop n) (\<lambda>s. raise_times k s n)"

lemma is_f64_RaisedStop: "RaisedStop prev n = Inr level \<Longrightarrow> is_f64 prev \<Longrightarrow> is_f64 level"
  by (auto simp: RaisedStop_def Product_def)

lemma raise_times_ge:
  "raise_times k stop n = Inr s \<Longrightarrow> is_f64 stop \<Longrightarrow> stop = Fin a \<Longrightarrow> 0 < a \<Longrightarrow> \<exists>b. s = Fin b \<and> a \<le> b"
proof (induction k arbitrary: stop a)
  case (Suc k)
  then obtain s' where r: "RaisedStop stop n = Inr s'" and t: "raise_times k s' n = Inr s"
    by (auto simp: bindr_eq_Inr)
  from RaisedStop_raises [OF r Suc.prems(2)] Suc.prems(3) obtain b where b: "s' = Fin b" "a \<le> b" by auto
  from Suc.IH [OF t is_f64_RaisedStop [OF r Suc.prems(2)] b(1)] Suc.prems(4) b
  show ?case by (auto intro: order.trans)
qed auto

text \<open>A subtraction that is not lost to the rounding: taking a positive float of at least \<open>2\<^sup>-\<^sup>5\<^sup>2\<close> of a price from it gives a
  smaller price.\<close>

lemma rndq_below:
  assumes "is_f64 (Fin e)" "0 < e" "is_f64 (Fin s)" "0 < s" "e / 2 ^ 52 \<le> s"
  shows "rndq (e - s) < e"
proof -
  let ?q = "2 powi qexp e :: rat" and ?m = "rne (e / 2 powi qexp e)"
  have e: "e = of_int ?m * ?q" using rndq_f64 [OF assms(1)] assms(2) by (simp add: rndq_def)
  have "\<bar>?m\<bar> \<le> 2 ^ 53" using assms(2) by (intro rndq_significand) simp
  moreover have "0 < ?m" using e assms(2) by (metis of_int_0_less_iff two_powi_pos zero_less_mult_pos2)
  ultimately have "\<bar>?m - 1\<bar> \<le> 2 ^ 53" by linarith
  from rndq_dyadic [OF this qexp_ge [of e]] have below: "rndq (e - ?q) = e - ?q" using e by (simp add: algebra_simps)
  have "?q \<le> s"
  proof (cases "ilog2 \<bar>e\<bar> - 52 \<le> - 1074")
    case True
    let ?t = "2 powi qexp s :: rat" and ?k = "rne (s / 2 powi qexp s)"
    have s: "s = of_int ?k * ?t" using rndq_f64 [OF assms(3)] assms(4) by (simp add: rndq_def)
    have "1 \<le> ?k" using s assms(4) by (metis int_one_le_iff_zero_less of_int_0_less_iff two_powi_pos zero_less_mult_pos2)
    then have "1 * ?t \<le> of_int ?k * ?t" by (intro mult_right_mono) auto
    moreover have "qexp e = - 1074" using True by (simp add: qexp_def)
    then have "?q \<le> ?t" using qexp_ge [of s] by (simp only: two_powi_le_iff)
    ultimately show ?thesis using s by linarith
  next
    case False
    then have "?q = 2 powi ilog2 e / 2 ^ 52" using assms(2) by (simp add: qexp_def power_int_diff)
    also have "\<dots> \<le> e / 2 ^ 52" using ilog2_bounds(1) [OF assms(2)] by (intro divide_right_mono) auto
    finally show ?thesis using assms(5) by simp
  qed
  then have "rndq (e - s) \<le> e - ?q" using below by (intro rndq_le) auto
  then show ?thesis using two_powi_pos [of "qexp e"] by linarith
qed

lemma ProtectiveStopLevel_below:
  assumes "ProtectiveStopLevel entry n sm dir = Inr (Fin a)" and "is_f64 entry" and "entry = Fin e"
    and "f_le (Fin (e / 2 ^ 52)) (Product sm n)"
  shows "a < e"
proof -
  from assms(1,3) have e: "0 < e" and a: "Fin a = f_sub (Fin e) (Product sm n)"
    by (auto simp: ProtectiveStopLevel_def Let_def split: if_splits)
  have f: "is_f64 (Product sm n)" by (simp add: Product_def)
  obtain s where s: "Product sm n = Fin s" "e / 2 ^ 52 \<le> s"
    using a assms(4) by (cases "Product sm n") (auto simp: f_sub_def)
  have p: "0 < e / 2 ^ 52" using e by simp
  have "rnd (e - s) = Fin a" using a s(1) by simp
  then have "a = rndq (e - s)" by (simp only: rnd_eq_Fin)
  then show ?thesis using rndq_below [of e s] e f s p assms(2,3) by simp
qed

text \<open>The source says the initial stop sits strictly below the entry price. In floats a distance of at most half the gap to the
  float below is lost: an entry at \<open>2\<^sup>5\<^sup>3\<close>, two times an \<open>N\<close> of a quarter away, gives a stop at the entry price itself, which the
  validation of an initial stop then refuses.\<close>

lemma initial_stop_can_round_to_entry:
  "ProtectiveStopLevel (Fin (2 ^ 53)) (Fin (1 / 4)) (Fin 2) DirectionLong = Inr (Fin (2 ^ 53))
   \<and> ValidStopLevel (Fin (2 ^ 53)) (Fin (2 ^ 53)) StopKindInitial = Inl [StopLevelNotBelowEntry]"
  by code_simp

text \<open>C3: a Unit's stop is protected from entry to exit. The initial stop is positive and not above the
  entry price; it passes the validation of an initial stop exactly when it is strictly below the entry, which it is whenever the
  stop distance is at least \<open>2\<^sup>-\<^sup>5\<^sup>2\<close> of the entry price and so not lost to the rounding. However often the Stop Ladder raises
  it, the level never falls and always passes the raised-stop validation.\<close>

theorem stop_ladder_protects:
  assumes "ProtectiveStopLevel entry n sm dir = Inr stop" and "is_f64 entry"
    and "raise_times k stop n = Inr s"
  shows "(\<exists>e a b. entry = Fin e \<and> stop = Fin a \<and> s = Fin b \<and> 0 < a \<and> a \<le> e \<and> a \<le> b
         \<and> (ValidStopLevel entry stop StopKindInitial = Inr () \<longleftrightarrow> a < e)
         \<and> (f_le (Fin (e / 2 ^ 52)) (Product sm n) \<longrightarrow> ValidStopLevel entry stop StopKindInitial = Inr ()))
       \<and> ValidStopLevel entry s StopKindRaised = Inr ()"
proof -
  from ProtectiveStopLevel_range [OF assms(1,2)] obtain e a
    where e: "entry = Fin e" "stop = Fin a" "0 < a" "a \<le> e" by blast
  have "is_f64 stop" using assms(1,2)
    by (auto simp: ProtectiveStopLevel_def Product_def Let_def split: if_splits)
  from raise_times_ge [OF assms(3) this e(2,3)] obtain b where "s = Fin b" "a \<le> b" by blast
  then show ?thesis using e ProtectiveStopLevel_below [of entry n sm dir a e] assms(1,2)
    by (auto simp: ValidStopLevel_ok StopKindInitial_def StopKindRaised_def)
qed

theorem stop_ladder_protects_witness:
  "ProtectiveStopLevel (Fin 30) (Fin 1) (Fin 2) DirectionLong = Inr (Fin 28)
   \<and> ValidStopLevel (Fin 30) (Fin 28) StopKindInitial = Inr ()
   \<and> raise_times 3 (Fin 28) (Fin 1) = Inr (Fin (59 / 2))
   \<and> ValidStopLevel (Fin 30) (Fin (59 / 2)) StopKindRaised = Inr ()"
proof -
  have p: "ProtectiveStopLevel (Fin 30) (Fin 1) (Fin 2) DirectionLong = Inr (Fin 28)" by code_simp
  have r: "raise_times 3 (Fin 28) (Fin 1) = Inr (Fin (59 / 2))" by code_simp
  have f: "is_f64 (Fin 30)" by code_simp
  from stop_ladder_protects [OF p f r] p r show ?thesis by auto
qed

text \<open>The aggregate open risk of a Campaign is reported exactly when there is a Unit, every Unit and
  the contract multiplier are usable and the sum is representable; it is the sum over the Units of
  each one's own entry-to-stop distance, is never negative, and is never below the risk of any one
  Unit, so no Unit hides another's risk.\<close>

theorem AggregateOpenRisk_covers_units:
  assumes "AggregateOpenRisk us dpp = Inr r"
  shows "us \<noteq> [] \<and> (\<forall>u \<in> set us. validUnit u)
       \<and> r = fold (\<lambda>u t. f_add t (unitRisk dpp u)) us (Fin 0)
       \<and> (\<exists>x. r = Fin x \<and> 0 \<le> x \<and> (\<forall>u \<in> set us. \<exists>y. unitRisk dpp u = Fin y \<and> 0 \<le> y \<and> y \<le> x))"
  using assms AggregateOpenRisk_covers [OF assms] by (simp add: AggregateOpenRisk_Inr riskSum_def)

definition exampleUnits :: "unit_open_risk list" where
  "exampleUnits = [\<lparr>EntryPrice = Fin 30, ProtectiveStop = Fin 28, OpenQuantity = 10\<rparr>,
     \<lparr>EntryPrice = Fin 31, ProtectiveStop = Fin 32, OpenQuantity = 10\<rparr>]"

theorem AggregateOpenRisk_covers_units_witness:
  "AggregateOpenRisk exampleUnits (Fin 1) = Inr (Fin 20) \<and> validUnit (hd exampleUnits)"
proof -
  have a: "AggregateOpenRisk exampleUnits (Fin 1) = Inr (Fin 20)" by code_simp
  from AggregateOpenRisk_covers_units [OF a] a show ?thesis by (simp add: exampleUnits_def)
qed

text \<open>C2: the worst-case cost reserved for a capped buy bounds every fill of it. Whatever price the order
  fills at, up to the price cap plus slippage, the trade value plus the commission charged on that
  fill, in the program's own rounded arithmetic, is at most the reserved cost.\<close>

theorem WorstCaseBuyCost_bounds_fills:
  assumes "WorstCaseBuyCost q cap slip n dpp sch = (cost, True)"
    and "validSchedule sch" and "0 \<le> q" and "f_nonneg dpp"
    and "f_nonneg p" and "f_le p (f_add cap (Product slip n))"
  shows "f_le (fillCost q p dpp sch) cost"
  using assms by (rule WorstCaseBuyCost_bounds)

definition exampleSchedule :: commission_schedule where
  "exampleSchedule = \<lparr>PerShare = Fin (1 / 128), MinimumPerOrder = Fin 1, MaximumFractionOfTradeValue = Fin (1 / 64)\<rparr>"

theorem WorstCaseBuyCost_bounds_fills_witness:
  "\<exists>cost. WorstCaseBuyCost 100 (Fin 50) (Fin (1 / 2)) (Fin 1) (Fin 1) exampleSchedule = (cost, True)
     \<and> f_le (fillCost 100 (Fin 49) (Fin 1) exampleSchedule) cost"
proof -
  have w: "WorstCaseBuyCost 100 (Fin 50) (Fin (1 / 2)) (Fin 1) (Fin 1) exampleSchedule = (Fin 5051, True)"
    by code_simp
  have "f_le (Fin 49) (f_add (Fin 50) (Product (Fin (1 / 2)) (Fin 1)))" by code_simp
  then show ?thesis
    using WorstCaseBuyCost_bounds_fills [OF w, of "Fin 49"] w
    by (simp add: validSchedule_def exampleSchedule_def)
qed

end
