(* ===== verification/GoBase.thy ===== *)
theory GoBase
  imports Float64 "HOL-Library.List_Lexorder" "HOL-Library.Char_ord"
begin

text \<open>
  The parts of Go the order path relies on: 64-bit integers with their wrap-around written out,
  instants of time, maps, and byte-wise string order (\<open>List_Lexorder\<close> over \<open>Char_ord\<close>).
\<close>

section \<open>int64\<close>

text \<open>
  An \<open>int64\<close> is an integer in \<open>[min64, max64]\<close>. Every addition, subtraction or negation the source
  writes without a check of its own goes through \<open>wrap64\<close>, two's-complement wrap-around.
\<close>

definition max64 :: int where
  "max64 = 9223372036854775807"

definition min64 :: int where
  "min64 = - 9223372036854775808"

definition wrap64 :: "int \<Rightarrow> int" where
  "wrap64 x = (x + 9223372036854775808) mod 18446744073709551616 - 9223372036854775808"

definition in64 :: "int \<Rightarrow> bool" where
  "in64 x \<longleftrightarrow> min64 \<le> x \<and> x \<le> max64"

definition add64 :: "int \<Rightarrow> int \<Rightarrow> int" where
  "add64 a b = wrap64 (a + b)"

definition sub64 :: "int \<Rightarrow> int \<Rightarrow> int" where
  "sub64 a b = wrap64 (a - b)"

definition neg64 :: "int \<Rightarrow> int" where
  "neg64 a = wrap64 (- a)"

lemmas i64_defs = max64_def min64_def wrap64_def in64_def add64_def sub64_def neg64_def

lemma wrap64_id [simp]: "in64 x \<Longrightarrow> wrap64 x = x"
  by (simp add: wrap64_def in64_def min64_def max64_def)

lemma in64_wrap64 [simp]: "in64 (wrap64 x)"
proof -
  have "0 \<le> (x + 9223372036854775808) mod 18446744073709551616" by simp
  moreover have "(x + 9223372036854775808) mod 18446744073709551616 < 18446744073709551616" by simp
  ultimately show ?thesis unfolding wrap64_def in64_def min64_def max64_def by linarith
qed

lemma in64_ops [simp]: "in64 (add64 a b)" "in64 (sub64 a b)" "in64 (neg64 a)"
  by (simp_all add: add64_def sub64_def neg64_def)

lemma add64_id: "in64 (a + b) \<Longrightarrow> add64 a b = a + b"
  by (simp add: add64_def)

lemma sub64_id: "in64 (a - b) \<Longrightarrow> sub64 a b = a - b"
  by (simp add: sub64_def)

lemma sub64_nonneg [simp]: "in64 a \<Longrightarrow> 0 \<le> b \<Longrightarrow> b \<le> a \<Longrightarrow> sub64 a b = a - b"
  by (rule sub64_id) (simp add: in64_def min64_def)

lemma sub64_max [simp]: "0 \<le> b \<Longrightarrow> in64 b \<Longrightarrow> sub64 max64 b = max64 - b"
  by (rule sub64_id) (simp add: in64_def min64_def max64_def)

lemma add64_min [simp]: "0 \<le> b \<Longrightarrow> in64 b \<Longrightarrow> add64 min64 b = min64 + b"
  by (rule add64_id) (simp add: in64_def min64_def max64_def)

lemma in64_0 [simp]: "in64 0"
  by (simp add: in64_def min64_def max64_def)

section \<open>Times\<close>

text \<open>
  A \<open>time.Time\<close> is its instant, in nanoseconds since Go's zero time, the start of year 1 in UTC, so
  \<open>IsZero\<close> is \<open>t = 0\<close>; locations only matter where a New York date is read. \<open>Sub\<close> saturates at
  the \<open>Duration\<close> range, \<open>Truncate(time.Second)\<close> rounds down to a multiple of a second since the
  zero time, and a time can be written as RFC 3339 when its year lies in \<open>[0, 9999]\<close>.
\<close>

type_synonym gotime = int

type_synonym duration = int

definition second_ns :: int where
  "second_ns = 1000000000"

definition day_ns :: int where
  "day_ns = 86400000000000"

definition time_sub :: "gotime \<Rightarrow> gotime \<Rightarrow> duration" where
  "time_sub a b = max min64 (min max64 (a - b))"

definition trunc_sec :: "gotime \<Rightarrow> gotime" where
  "trunc_sec t = t - t mod second_ns"

definition nanosecond :: "gotime \<Rightarrow> int" where
  "nanosecond t = t mod second_ns"

definition writableTime :: "gotime \<Rightarrow> bool" where
  "writableTime t \<longleftrightarrow> - 366 * day_ns \<le> t \<and> t < 3652059 * day_ns"

definition MinuteDuration :: int where
  "MinuteDuration = 60000000000"

lemma trunc_sec_le: "trunc_sec t \<le> t"
  by (simp add: trunc_sec_def second_ns_def)

lemma trunc_sec_whole [simp]: "nanosecond t = 0 \<Longrightarrow> trunc_sec t = t"
  by (simp add: trunc_sec_def nanosecond_def)

lemma trunc_sec_idem [simp]: "trunc_sec (trunc_sec t) = trunc_sec t"
  by (simp add: trunc_sec_def second_ns_def minus_mod_eq_div_mult)

section \<open>Maps\<close>

text \<open>
  A Go map that the code iterates over is an association list with one pair per key: \<open>mput\<close> and
  \<open>mdel\<close> keep the keys distinct, and \<open>mkeys\<close> is \<open>slices.Sorted(maps.Keys(m))\<close>. Maps that are only
  looked up are functions or sets.
\<close>

type_synonym ('k, 'v) gomap = "('k \<times> 'v) list"

definition mget :: "('k, 'v) gomap \<Rightarrow> 'k \<Rightarrow> 'v \<Rightarrow> 'v" where
  "mget m k d = (case map_of m k of None \<Rightarrow> d | Some v \<Rightarrow> v)"

definition mdel :: "('k, 'v) gomap \<Rightarrow> 'k \<Rightarrow> ('k, 'v) gomap" where
  "mdel m k = filter (\<lambda>p. fst p \<noteq> k) m"

definition mput :: "('k, 'v) gomap \<Rightarrow> 'k \<Rightarrow> 'v \<Rightarrow> ('k, 'v) gomap" where
  "mput m k v = (k, v) # mdel m k"

definition mkeys :: "('k::linorder, 'v) gomap \<Rightarrow> 'k list" where
  "mkeys m = sort (remdups (map fst m))"

definition mequal :: "('k, 'v) gomap \<Rightarrow> ('k, 'v) gomap \<Rightarrow> bool" where
  "mequal a b \<longleftrightarrow> list_all (\<lambda>p. map_of a (fst p) = map_of b (fst p)) (a @ b)"

lemma map_of_mdel [simp]: "map_of (mdel m k) x = (if x = k then None else map_of m x)"
  unfolding mdel_def by (induction m) auto

lemma map_of_mput [simp]: "map_of (mput m k v) x = (if x = k then Some v else map_of m x)"
  by (simp add: mput_def)

lemma mget_mput [simp]: "mget (mput m k v) x d = (if x = k then v else mget m x d)"
  by (simp add: mget_def)

lemma mget_mdel [simp]: "mget (mdel m k) x d = (if x = k then d else mget m x d)"
  by (simp add: mget_def)

lemma mget_Nil [simp]: "mget [] k d = d"
  by (simp add: mget_def)

lemma set_mkeys [simp]: "set (mkeys m) = fst ` set m"
  by (simp add: mkeys_def)

lemma distinct_mkeys [simp]: "distinct (mkeys m)"
  by (simp add: mkeys_def)

lemma sorted_mkeys [simp]: "sorted (mkeys m)"
  by (simp add: mkeys_def)

lemma mget_notin: "k \<notin> fst ` set m \<Longrightarrow> mget m k d = d"
  unfolding mget_def using map_of_eq_None_iff [of m k] by (simp split: option.splits)

lemma mequal_iff: "mequal a b \<longleftrightarrow> map_of a = map_of b"
proof
  assume e: "mequal a b"
  show "map_of a = map_of b"
  proof
    fix k
    show "map_of a k = map_of b k"
    proof (cases "k \<in> fst ` set (a @ b)")
      case True
      with e show ?thesis unfolding mequal_def list_all_iff by fastforce
    next
      case False
      then show ?thesis by (simp add: map_of_eq_None_iff [symmetric] image_Un)
    qed
  qed
qed (simp add: mequal_def list_all_iff)

section \<open>Strictly ascending lists of identifiers\<close>

text \<open>
  \<open>strict_asc\<close> is the order event validation asks of ID lists, and \<open>union\<close> of
  \<open>internal/risklimit\<close> (sorted, duplicates compacted) produces.
\<close>

definition strict_asc :: "'a::linorder list \<Rightarrow> bool" where
  "strict_asc xs \<longleftrightarrow> sorted xs \<and> distinct xs"

lemma strict_asc_Nil [simp]: "strict_asc []"
  by (simp add: strict_asc_def)

lemma strict_asc_nth: "strict_asc xs \<longleftrightarrow> (\<forall>i. Suc i < length xs \<longrightarrow> xs ! i < xs ! Suc i)"
  unfolding strict_asc_def strict_sorted_iff [symmetric]
  by (rule sorted_wrt_iff_nth_Suc_transp) simp

lemma strict_asc_remdups_adj: "sorted xs \<Longrightarrow> strict_asc (remdups_adj xs)"
proof -
  assume "sorted xs"
  then have "distinct (remdups_adj xs)" by (induction xs rule: remdups_adj.induct) auto
  with \<open>sorted xs\<close> show ?thesis by (simp add: strict_asc_def)
qed

lemma strict_asc_sort: "distinct xs \<Longrightarrow> strict_asc (sort xs)"
  by (simp add: strict_asc_def)

end
