(* ===== verification/Quantity.thy ===== *)
theory Quantity
  imports GoBase
begin

text \<open>
  \<open>internal/event/quantity.go\<close> and \<open>internal/event/money.go\<close>: fixed-point share quantities, and the
  exact decimal money arithmetic of fractional orders. \<open>big.Rat\<close> values are rationals;
  \<open>strconv.FormatFloat(x, _, -1, 64)\<close> is the shortest decimal that reads back as \<open>x\<close>, \<open>decimalMoney\<close>.
\<close>

section \<open>The shortest decimal of a float\<close>

function ndigits :: "int \<Rightarrow> int" where
  "ndigits n = (if n < 10 then 1 else 1 + ndigits (n div 10))"
  by auto
termination by (relation "measure nat") auto

declare ndigits.simps [simp del]

definition ilog10 :: "rat \<Rightarrow> int" where
  "ilog10 x = (let (a, b) = quotient_of x; k = ndigits a - ndigits b in
     if 10 powi k \<le> x then k else k - 1)"

text \<open>
  The best decimal of \<open>n\<close> significant digits: of the two neighbours of \<open>x\<close>, the one that reads back
  as \<open>x\<close>, the nearer when both do.
\<close>

definition dec_candidate :: "rat \<Rightarrow> nat \<Rightarrow> rat option" where
  "dec_candidate x n = (let u = 10 powi (ilog10 x - int n + 1);
       lo = of_int \<lfloor>x / u\<rfloor> * u; hi = of_int \<lceil>x / u\<rceil> * u;
       okl = (rndq lo = x); okh = (rndq hi = x);
       down = (x - lo < hi - x \<or> (x - lo = hi - x \<and> even \<lfloor>x / u\<rfloor>)) in
     if okl \<and> (\<not> okh \<or> down) then Some lo else if okh then Some hi else None)"

fun dec_search :: "rat \<Rightarrow> nat list \<Rightarrow> rat" where
  "dec_search x [] = x"
| "dec_search x (n # ns) = (case dec_candidate x n of Some d \<Rightarrow> d | None \<Rightarrow> dec_search x ns)"

fun decimalMoney :: "f64 \<Rightarrow> rat" where
  "decimalMoney (Fin x) = (if x = 0 then 0 else if x < 0 then - dec_search (- x) [1..<18]
     else dec_search x [1..<18])"
| "decimalMoney _ = 0"

section \<open>Quantities\<close>

definition FractionalQuantityScale :: int where
  "FractionalQuantityScale = 10000"

definition QuantityUnits :: "int \<Rightarrow> int" where
  "QuantityUnits scale = (if scale = 0 then 1 else scale)"

datatype (plugins only: code size) quantity_error =
  NotADecimal string | EmptyDecimalPart string | NotNonnegativeDecimal string
| MoreThanFourPlaces string | QuantityOverflows string | BadIncrement
| BadQuantityScale int | SchemaScaleDisagree int int int

fun splitDot :: "string \<Rightarrow> string list" where
  "splitDot [] = [[]]"
| "splitDot (c # cs) = (if c = CHR ''.'' then [] # splitDot cs
     else (case splitDot cs of [] \<Rightarrow> [[c]] | p # ps \<Rightarrow> (c # p) # ps))"

definition isDigit :: "char \<Rightarrow> bool" where
  "isDigit c \<longleftrightarrow> 48 \<le> (of_char c :: nat) \<and> (of_char c :: nat) \<le> 57"

definition digitsVal :: "string \<Rightarrow> nat" where
  "digitsVal s = foldl (\<lambda>a c. a * 10 + (of_char c - 48)) 0 s"

text \<open>The checks of the loop over the parts, in its order.\<close>

fun checkParts :: "string \<Rightarrow> string list \<Rightarrow> (quantity_error, unit) result" where
  "checkParts s [] = Inr ()"
| "checkParts s (p # ps) = failIf (p = '''') (EmptyDecimalPart s)
     (failIf (\<not> list_all isDigit p) (NotNonnegativeDecimal s) (checkParts s ps))"

definition ParseQuantity :: "string \<Rightarrow> (quantity_error, int) result" where
  "ParseQuantity s = (let parts = splitDot s in
     failIf (length parts > 2 \<or> hd parts = '''') (NotADecimal s)
     (bindr (checkParts s parts) (\<lambda>_.
        let fraction = (if length parts = 2 then parts ! 1 else '''') in
        failIf (length fraction > 4) (MoreThanFourPlaces s)
        (let n = int (digitsVal (hd parts @ fraction @ replicate (4 - length fraction) CHR ''0'')) in
         failIf (n > max64) (QuantityOverflows s) (Inr n)))))"

definition FractionalIncrementTicks :: "string \<Rightarrow> (quantity_error, int) result" where
  "FractionalIncrementTicks s = bindr (ParseQuantity (if s = '''' then ''0.0001'' else s)) (\<lambda>n.
     failIf (n \<le> 0 \<or> n > FractionalQuantityScale \<or> FractionalQuantityScale mod n \<noteq> 0) BadIncrement (Inr n))"

definition QuantityValue :: "int \<Rightarrow> int \<Rightarrow> f64 \<Rightarrow> f64" where
  "QuantityValue quantity scale price =
     (if scale = 0 then f_mul (f_of_int quantity) price
      else if \<not> isFinite price then NaN
      else rnd (decimalMoney price * (of_int quantity / of_int (QuantityUnits scale))))"

definition quantityScaleError :: "int \<Rightarrow> quantity_error list" where
  "quantityScaleError scale = errIf (scale \<noteq> 0 \<and> scale \<noteq> FractionalQuantityScale) (BadQuantityScale scale)"

definition quantitySchema :: "int \<Rightarrow> int \<Rightarrow> int \<Rightarrow> quantity_error list" where
  "quantitySchema scale version fractional =
     (if quantityScaleError scale \<noteq> [] then quantityScaleError scale
      else errIf ((version = fractional) \<noteq> (scale = FractionalQuantityScale))
        (SchemaScaleDisagree version scale fractional))"

definition digitChar :: "nat \<Rightarrow> char" where
  "digitChar d = char_of (48 + d)"

fun fmtNat :: "nat \<Rightarrow> string" where
  "fmtNat n = (if n < 10 then [digitChar n] else fmtNat (n div 10) @ [digitChar (n mod 10)])"

declare fmtNat.simps [simp del]

definition fmtInt :: "int \<Rightarrow> string" where
  "fmtInt n = (if n < 0 then ''-'' @ fmtNat (nat (- n)) else fmtNat (nat n))"

definition pad4 :: "nat \<Rightarrow> string" where
  "pad4 f = [digitChar (f div 1000 mod 10), digitChar (f div 100 mod 10), digitChar (f div 10 mod 10), digitChar (f mod 10)]"

text \<open>\<open>big.Rat.FloatString(4)\<close>: four places, halves away from zero.\<close>

definition floatString4 :: "rat \<Rightarrow> string" where
  "floatString4 r = (let n = nat \<lfloor>\<bar>r\<bar> * 10000 + 1/2\<rfloor> in
     (if r < 0 then ''-'' else '''') @ fmtNat (n div 10000) @ ''.'' @ pad4 (n mod 10000))"

definition trimRight :: "char \<Rightarrow> string \<Rightarrow> string" where
  "trimRight c s = rev (dropWhile (\<lambda>x. x = c) (rev s))"

definition FormatQuantity :: "int \<Rightarrow> int \<Rightarrow> string" where
  "FormatQuantity q scale = (if scale = 0 then fmtInt q
     else trimRight CHR ''.'' (trimRight CHR ''0'' (floatString4 (of_int q / of_int (QuantityUnits scale)))))"

section \<open>Money\<close>

definition DefaultRoundingSlack :: f64 where
  "DefaultRoundingSlack = f_lit (1/10)"

definition ValidRoundingSlack :: "f64 \<Rightarrow> bool" where
  "ValidRoundingSlack slack \<longleftrightarrow> slack \<noteq> NaN \<and> f_le (f_lit (1/100)) slack \<and> f_le slack (Fin 1)"

datatype (plugins only: code size) money_error =
  BadSlack | BadBuyInputs | DebitNotFinite | MoneyScale quantity_error

definition ratTrunc :: "rat \<Rightarrow> int" where
  "ratTrunc r = (if r < 0 then \<lceil>r\<rceil> else \<lfloor>r\<rfloor>)"

definition quantityCents :: "int \<Rightarrow> int \<Rightarrow> f64 \<Rightarrow> bool \<Rightarrow> rat" where
  "quantityCents quantity scale price up =
     (let v = decimalMoney price * (of_int quantity / of_int (QuantityUnits scale)) * 100; c = ratTrunc v in
      of_int (if up \<and> of_int c < v then c + 1 else c) / 100)"

definition finiteBuyMoney :: "rat \<Rightarrow> (money_error, rat) result" where
  "finiteBuyMoney cost = failIf (\<not> isFinite (rnd cost)) DebitNotFinite (Inr cost)"

definition BuyCost :: "int \<Rightarrow> int \<Rightarrow> f64 \<Rightarrow> f64 \<Rightarrow> (money_error, rat) result" where
  "BuyCost quantity scale price fees =
     (case quantityScaleError scale of e # _ \<Rightarrow> Inl (MoneyScale e)
      | [] \<Rightarrow>
        failIf (quantity < 0 \<or> \<not> isFinite price \<or> f_lt price (Fin 0) \<or> \<not> isFinite fees \<or> f_lt fees (Fin 0)) BadBuyInputs
        (if scale = 0 then
           (case f_add (QuantityValue quantity 0 price) fees of Fin c \<Rightarrow> Inr c | _ \<Rightarrow> Inl DebitNotFinite)
         else finiteBuyMoney (quantityCents quantity scale price True + decimalMoney fees)))"

definition BuyReservation :: "int \<Rightarrow> int \<Rightarrow> f64 \<Rightarrow> f64 \<Rightarrow> f64 \<Rightarrow> (money_error, rat) result" where
  "BuyReservation quantity scale price fees slack =
     failIf (\<not> isFinite slack \<or> f_lt slack (Fin 0)) BadSlack
     (bindr (BuyCost quantity scale price fees) (\<lambda>cost.
        finiteBuyMoney (if scale \<noteq> 0 then cost + decimalMoney slack else cost)))"

definition SaleProceeds :: "int \<Rightarrow> int \<Rightarrow> f64 \<Rightarrow> f64 \<Rightarrow> f64" where
  "SaleProceeds quantity scale price commission =
     (if scale = 0 then f_sub (QuantityValue quantity 0 price) commission
      else rnd (quantityCents quantity scale price False - decimalMoney commission))"

section \<open>Decimals round back to their float\<close>

lemma dec_candidate_reads_back: "dec_candidate x n = Some d \<Longrightarrow> rndq d = x"
  by (auto simp: dec_candidate_def Let_def split: if_splits)

lemma dec_search_reads_back: "rndq x = x \<Longrightarrow> rndq (dec_search x ns) = x"
  by (induction ns) (auto split: option.splits dest: dec_candidate_reads_back)

lemma decimalMoney_reads_back:
  assumes "is_f64 (Fin x)"
  shows "rndq (decimalMoney (Fin x)) = x"
proof -
  have r: "rndq x = x" using assms by (rule rndq_f64)
  then have "rndq (- x) = - x" by simp
  with r show ?thesis by (auto simp: dec_search_reads_back)
qed

lemma decimalMoney_0 [simp]: "decimalMoney (Fin 0) = 0"
  by simp

lemma decimalMoney_pos:
  assumes "0 < x"
  shows "0 < decimalMoney (Fin x)"
proof -
  have "0 < dec_search x ns" for ns
  proof (induction ns)
    case (Cons n ns)
    have "0 < d" if "dec_candidate x n = Some d" for d
    proof (rule ccontr)
      assume "\<not> 0 < d"
      then have "rndq d \<le> rndq 0" by (intro rndq_mono) simp
      with dec_candidate_reads_back [OF that] assms show False by simp
    qed
    with Cons show ?case by (auto split: option.splits)
  qed (simp add: assms)
  then show ?thesis using assms by (simp add: decimalMoney.simps)
qed

lemma decimalMoney_mono:
  assumes "is_f64 (Fin x)" "is_f64 (Fin y)" "x \<le> y"
  shows "decimalMoney (Fin x) \<le> decimalMoney (Fin y)"
proof (cases "x = y")
  case False
  with assms have "x < y" by simp
  show ?thesis
  proof (rule ccontr)
    assume "\<not> ?thesis"
    then have "rndq (decimalMoney (Fin y)) \<le> rndq (decimalMoney (Fin x))" by (intro rndq_mono) simp
    with assms \<open>x < y\<close> show False by (simp only: decimalMoney_reads_back)
  qed
qed simp

lemma decimalMoney_nonneg: "is_f64 (Fin x) \<Longrightarrow> 0 \<le> x \<Longrightarrow> 0 \<le> decimalMoney (Fin x)"
  using decimalMoney_mono [of 0 x] by simp

declare decimalMoney.simps(1) [simp del]

section \<open>Reservations cover partial executions\<close>

definition cents_of :: "int \<Rightarrow> f64 \<Rightarrow> rat" where
  "cents_of q p = decimalMoney p * (of_int q / 10000) * 100"

lemma QuantityUnits_frac [simp]: "QuantityUnits 10000 = 10000"
  by (simp add: QuantityUnits_def)

lemma quantityScaleError_Nil [simp]: "quantityScaleError s = [] \<longleftrightarrow> s = 0 \<or> s = 10000"
  by (simp add: quantityScaleError_def FractionalQuantityScale_def)

lemma quantityCents_up:
  assumes "0 \<le> cents_of q p"
  shows "quantityCents q 10000 p True = of_int \<lceil>cents_of q p\<rceil> / 100"
proof -
  have "quantityCents q 10000 p True = of_int (if of_int \<lfloor>cents_of q p\<rfloor> < cents_of q p then \<lfloor>cents_of q p\<rfloor> + 1 else \<lfloor>cents_of q p\<rfloor>) / 100"
    using assms unfolding quantityCents_def Let_def ratTrunc_def QuantityUnits_frac of_int_numeral cents_of_def [symmetric] by simp
  also have "(if of_int \<lfloor>cents_of q p\<rfloor> < cents_of q p then \<lfloor>cents_of q p\<rfloor> + 1 else \<lfloor>cents_of q p\<rfloor>) = \<lceil>cents_of q p\<rceil>"
    using of_int_floor_le [of "cents_of q p"] by (auto simp: ceiling_altdef not_less intro: antisym)
  finally show ?thesis .
qed

lemma cents_of_mono:
  assumes "decimalMoney p \<le> decimalMoney p'" "q \<le> q'" "0 \<le> q" "0 \<le> decimalMoney p'"
  shows "cents_of q p \<le> cents_of q' p'"
proof -
  have "decimalMoney p * of_int q \<le> decimalMoney p' * of_int q'"
    using assms by (intro mult_mono) auto
  then show ?thesis by (simp add: cents_of_def divide_right_mono mult.commute)
qed

lemma quantityCents_down: "0 \<le> cents_of q p \<Longrightarrow> quantityCents q 10000 p False = of_int \<lfloor>cents_of q p\<rfloor> / 100"
  by (auto simp: quantityCents_def cents_of_def Let_def ratTrunc_def)

lemma cents_of_nonneg: "is_f64 (Fin p) \<Longrightarrow> 0 \<le> p \<Longrightarrow> 0 \<le> q \<Longrightarrow> 0 \<le> cents_of q (Fin p)"
  by (simp add: cents_of_def decimalMoney_nonneg)

lemma isFinite_rnd_mono:
  assumes "0 \<le> x" "x \<le> y" "isFinite (rnd y)"
  shows "isFinite (rnd x)"
  using assms rndq_mono [of x y] rndq_nonneg [of x]
  by (auto simp: rnd_def Let_def split: if_splits)

lemma BuyCost_frac:
  assumes "BuyCost q 10000 p fees = Inr c"
  shows "0 \<le> q \<and> c = quantityCents q 10000 p True + decimalMoney fees \<and> isFinite (rnd c)"
  using assms by (auto simp: BuyCost_def finiteBuyMoney_def quantityScaleError_def FractionalQuantityScale_def go_bind)

lemma sum_list_ceiling_le: "(\<Sum>x\<leftarrow>xs. of_int \<lceil>f x\<rceil>) \<le> (\<Sum>x\<leftarrow>xs. f x) + of_nat (length xs)" for f :: "'a \<Rightarrow> rat"
proof (induction xs)
  case (Cons a xs)
  show ?case using add_mono [OF of_int_ceiling_le_add_one [of "f a"] Cons.IH] by (simp add: algebra_simps)
qed simp

text \<open>A partial execution: its quantity in ten-thousandths, its price and its commission.\<close>

definition fill_within :: "f64 \<Rightarrow> int \<times> f64 \<times> f64 \<Rightarrow> bool" where
  "fill_within limit f \<longleftrightarrow> (case f of (q, p, c) \<Rightarrow> 0 \<le> q \<and> isFinite p \<and> is_f64 p \<and> f_le (Fin 0) p \<and> f_le p limit \<and>
     isFinite c \<and> is_f64 c \<and> f_le (Fin 0) c)"

definition fill_debit :: "int \<times> f64 \<times> f64 \<Rightarrow> rat" where
  "fill_debit f = (case f of (q, p, c) \<Rightarrow> quantityCents q 10000 p True + decimalMoney c)"

lemma fill_within_cents:
  assumes "fill_within (Fin l) (q, p, c)" "is_f64 (Fin l)"
  shows "0 \<le> cents_of q p" "cents_of q p \<le> cents_of q (Fin l)" "0 \<le> decimalMoney c"
proof -
  obtain p' c' where pc: "p = Fin p'" "c = Fin c'" using assms by (auto simp: fill_within_def elim!: isFiniteE)
  have h: "0 \<le> q" "is_f64 (Fin p')" "0 \<le> p'" "p' \<le> l" "is_f64 (Fin c')" "0 \<le> c'"
    using assms pc by (auto simp: fill_within_def)
  show "0 \<le> cents_of q p" using h pc by (simp add: cents_of_nonneg)
  show "0 \<le> decimalMoney c" using h pc by (simp add: decimalMoney_nonneg)
  have "decimalMoney p \<le> decimalMoney (Fin l)" using h pc assms(2) by (simp add: decimalMoney_mono)
  then show "cents_of q p \<le> cents_of q (Fin l)" using h assms(2) by (intro cents_of_mono decimalMoney_nonneg) auto
qed

lemma fill_debit_cents:
  assumes "fill_within (Fin l) (q, p, c)" "is_f64 (Fin l)"
  shows "fill_debit (q, p, c) = of_int \<lceil>cents_of q p\<rceil> / 100 + decimalMoney c"
  using fill_within_cents [OF assms] by (simp add: fill_debit_def quantityCents_up)

lemma BuyCost_fill:
  assumes w: "fill_within (Fin l) (q, p, c)" and "is_f64 (Fin l)" and "isFinite (rnd (fill_debit (q, p, c)))"
  shows "BuyCost q 10000 p c = Inr (fill_debit (q, p, c))"
proof -
  have nn: "\<not> q < 0" "\<not> f_lt p (Fin 0)" "\<not> f_lt c (Fin 0)" "isFinite p" "isFinite c"
    using w by (auto simp: fill_within_def f_le_not_lt)
  then show ?thesis using assms(3)
    by (simp add: BuyCost_def finiteBuyMoney_def quantityScaleError_def FractionalQuantityScale_def fill_debit_def)
qed

lemma fill_debit_nonneg: "fill_within (Fin l) f \<Longrightarrow> is_f64 (Fin l) \<Longrightarrow> 0 \<le> fill_debit f"
proof -
  assume a: "fill_within (Fin l) f" "is_f64 (Fin l)"
  obtain q p c where f: "f = (q, p, c)" by (cases f) auto
  have "0 \<le> \<lceil>cents_of q p\<rceil>" using fill_within_cents(1) [OF a(1) [unfolded f] a(2)] by linarith
  then show ?thesis using fill_debit_cents [OF a(1) [unfolded f] a(2)] fill_within_cents(3) [OF a(1) [unfolded f] a(2)]
    by (simp add: f)
qed

lemma sum_cents_le:
  assumes "list_all (fill_within (Fin l)) fs" "is_f64 (Fin l)"
  shows "(\<Sum>f\<leftarrow>fs. cents_of (fst f) (fst (snd f))) \<le> cents_of (\<Sum>f\<leftarrow>fs. fst f) (Fin l)"
  using assms(1)
proof (induction fs)
  case (Cons f fs)
  obtain q p c where f: "f = (q, p, c)" by (cases f) auto
  have "cents_of q p \<le> cents_of q (Fin l)" using Cons.prems f assms(2) by (auto intro: fill_within_cents(2))
  with Cons f show ?case by (simp add: cents_of_def algebra_simps add_divide_distrib)
qed (simp add: cents_of_def)

lemma sum_debits:
  assumes "list_all (fill_within (Fin l)) fs" "is_f64 (Fin l)"
  shows "(\<Sum>f\<leftarrow>fs. fill_debit f) = (\<Sum>f\<leftarrow>fs. of_int \<lceil>cents_of (fst f) (fst (snd f))\<rceil>) / 100 + (\<Sum>f\<leftarrow>fs. decimalMoney (snd (snd f)))"
  using assms(1)
proof (induction fs)
  case (Cons f fs)
  obtain q p c where f: "f = (q, p, c)" by (cases f) auto
  show ?case using Cons f fill_debit_cents [of l q p c] assms(2) by (simp add: add_divide_distrib)
qed simp

text \<open>The cash reserved for a fractional buy covers every way it can execute: whatever partial
  executions an order gets, at prices up to its limit, together no larger than the order, with
  commissions within the fee allowance and no more executions than cents of slack, each debit is
  finite and the debits, each rounded up to the cent, sum to at most the reservation.\<close>

theorem BuyReservation_covers_partial_fills:
  assumes R: "BuyReservation q FractionalQuantityScale limit fees slack = Inr R"
    and f64: "is_f64 limit" "is_f64 fees" "is_f64 slack"
    and fs: "list_all (fill_within limit) fs"
    and qty: "(\<Sum>f\<leftarrow>fs. fst f) \<le> q"
    and com: "(\<Sum>f\<leftarrow>fs. decimalMoney (snd (snd f))) \<le> decimalMoney fees"
    and slk: "of_nat (length fs) \<le> 100 * decimalMoney slack"
  shows "list_all (\<lambda>f. BuyCost (fst f) FractionalQuantityScale (fst (snd f)) (snd (snd f)) = Inr (fill_debit f)) fs \<and>
    (\<Sum>f\<leftarrow>fs. fill_debit f) \<le> R"
proof -
  obtain C where C: "BuyCost q 10000 limit fees = Inr C" and RC: "R = C + decimalMoney slack" and fin: "isFinite (rnd R)"
    using R by (auto simp: BuyReservation_def FractionalQuantityScale_def finiteBuyMoney_def go_bind)
  have "isFinite limit" "\<not> f_lt limit (Fin 0)" using C by (auto simp: BuyCost_def quantityScaleError_def FractionalQuantityScale_def go_bind)
  then obtain l where l: "limit = Fin l" "0 \<le> l" by (auto elim!: isFiniteE)
  have lf: "is_f64 (Fin l)" using f64 l by simp
  have C2: "C = quantityCents q 10000 (Fin l) True + decimalMoney fees" and q0: "0 \<le> q" using BuyCost_frac [OF C] l by auto
  have v0: "0 \<le> cents_of q (Fin l)" using lf l q0 by (simp add: cents_of_nonneg)
  have fs': "list_all (fill_within (Fin l)) fs" using fs l by simp
  have "(\<Sum>f\<leftarrow>fs. cents_of (fst f) (fst (snd f))) \<le> cents_of (\<Sum>f\<leftarrow>fs. fst f) (Fin l)" by (rule sum_cents_le [OF fs' lf])
  also have "\<dots> \<le> cents_of q (Fin l)" using qty lf l fs'
    by (intro cents_of_mono sum_list_nonneg decimalMoney_nonneg) (auto simp: list_all_iff fill_within_def)
  also have "\<dots> \<le> of_int \<lceil>cents_of q (Fin l)\<rceil>" by simp
  finally have "(\<Sum>f\<leftarrow>fs. rat_of_int \<lceil>cents_of (fst f) (fst (snd f))\<rceil>) \<le> of_int \<lceil>cents_of q (Fin l)\<rceil> + of_nat (length fs)"
    using sum_list_ceiling_le [of "\<lambda>f. cents_of (fst f) (fst (snd f))" fs] by linarith
  then have le: "(\<Sum>f\<leftarrow>fs. fill_debit f) \<le> R" unfolding sum_debits [OF fs' lf] RC C2 quantityCents_up [OF v0]
    using com slk by (simp add: field_simps)
  have "BuyCost (fst f) 10000 (fst (snd f)) (snd (snd f)) = Inr (fill_debit f)" if "f \<in> set fs" for f
  proof -
    have w: "fill_within (Fin l) f" using fs' that by (simp add: list_all_iff)
    have "fill_debit f \<le> (\<Sum>f\<leftarrow>fs. fill_debit f)"
      using that fs' lf by (intro member_le_sum_list) (auto simp: list_all_iff fill_debit_nonneg)
    then have "isFinite (rnd (fill_debit f))"
      using le fin fill_debit_nonneg [OF w lf] isFinite_rnd_mono [of "fill_debit f" R] by linarith
    then show ?thesis using BuyCost_fill [of l "fst f" "fst (snd f)" "snd (snd f)"] w lf by simp
  qed
  with le show ?thesis by (simp add: list_all_iff FractionalQuantityScale_def)
qed

text \<open>Three shares at a limit of 100.50 in two executions, with the default slack.\<close>

theorem BuyReservation_covers_partial_fills_witness:
  "list_all (\<lambda>f. BuyCost (fst f) FractionalQuantityScale (fst (snd f)) (snd (snd f)) = Inr (fill_debit f))
     [(10001, Fin (201/2), Fin (1/2)), (19999, Fin 100, Fin (1/2))] \<and>
   (\<Sum>f\<leftarrow>[(10001, Fin (201/2), Fin (1/2)), (19999, Fin 100, Fin (1/2))]. fill_debit f) \<le> 3026/10"
proof (rule BuyReservation_covers_partial_fills [where q = 30000 and limit = "Fin (201/2)" and fees = "Fin 1" and slack = DefaultRoundingSlack])
  show "BuyReservation 30000 FractionalQuantityScale (Fin (201/2)) (Fin 1) DefaultRoundingSlack = Inr (3026/10)" by code_simp
  show "is_f64 (Fin (201/2))" by code_simp
  show "is_f64 (Fin 1)" by code_simp
  show "is_f64 DefaultRoundingSlack" by code_simp
  show "list_all (fill_within (Fin (201/2))) [(10001, Fin (201/2), Fin (1/2)), (19999, Fin 100, Fin (1/2))]" by code_simp
  show "(\<Sum>f\<leftarrow>[(10001, Fin (201/2), Fin (1/2)), (19999, Fin 100, Fin (1/2))]. decimalMoney (snd (snd f))) \<le> decimalMoney (Fin 1)" by code_simp
  show "of_nat (length [(10001, Fin (201/2), Fin (1/2)), (19999::int, Fin 100, Fin (1/2))]) \<le> 100 * decimalMoney DefaultRoundingSlack" by code_simp
qed simp

section \<open>Parsing and printing quantities\<close>

lemma of_char_digitChar: "d < 10 \<Longrightarrow> (of_char (digitChar d) :: nat) = 48 + d"
  by (simp add: digitChar_def)

lemma isDigit_digitChar [simp]: "d < 10 \<Longrightarrow> isDigit (digitChar d)"
  by (simp add: isDigit_def of_char_digitChar)

lemma digitChar_neq_dot: "d < 10 \<Longrightarrow> digitChar d \<noteq> CHR ''.''"
  using isDigit_digitChar [of d] by (auto simp: isDigit_def)

lemma isDigit_neq_dot: "isDigit c \<Longrightarrow> c \<noteq> CHR ''.''"
  by (auto simp: isDigit_def)

lemma digitsVal_append: "digitsVal (s @ t) = digitsVal s * 10 ^ length t + digitsVal t"
proof (induction t rule: rev_induct)
  case (snoc c t)
  then show ?case by (simp add: digitsVal_def algebra_simps)
qed (simp add: digitsVal_def)

lemma digitsVal_digit [simp]: "d < 10 \<Longrightarrow> digitsVal [digitChar d] = d"
  by (simp add: digitsVal_def of_char_digitChar)

lemma fmtNat_val [simp]: "digitsVal (fmtNat n) = n"
proof (induction n rule: fmtNat.induct)
  case (1 n)
  then show ?case by (subst fmtNat.simps) (auto simp: digitsVal_append)
qed

lemma fmtNat_digits: "list_all isDigit (fmtNat n)"
proof (induction n rule: fmtNat.induct)
  case (1 n)
  then show ?case by (subst fmtNat.simps) auto
qed

lemma fmtNat_neq_Nil [simp]: "fmtNat n \<noteq> []"
  by (subst fmtNat.simps) simp

lemma pad4_digits: "list_all isDigit (pad4 f)" and length_pad4 [simp]: "length (pad4 f) = 4"
  by (simp_all add: pad4_def)

lemma pad4_val:
  assumes "f < 10000"
  shows "digitsVal (pad4 f) = f"
proof -
  have "1000 * (f div 1000) + 100 * (f div 100 mod 10) + f div 10 mod 10 * 10 + f mod 10 = f"
  proof -
    have "10 * (f div 10) + f mod 10 = f" by (rule mult_div_mod_eq)
    moreover have "10 * (f div 100) + f div 10 mod 10 = f div 10"
      using mult_div_mod_eq [of 10 "f div 10"] by (simp add: div_mult2_eq [symmetric])
    moreover have "10 * (f div 1000) + f div 100 mod 10 = f div 100"
      using mult_div_mod_eq [of 10 "f div 100"] by (simp add: div_mult2_eq [symmetric])
    ultimately show ?thesis by linarith
  qed
  with assms show ?thesis by (simp add: pad4_def digitsVal_def of_char_digitChar)
qed

lemma splitDot_no_dot: "list_all isDigit s \<Longrightarrow> splitDot s = [s]"
  by (induction s) (auto dest: isDigit_neq_dot)

lemma splitDot_one_dot: "list_all isDigit s \<Longrightarrow> list_all isDigit t \<Longrightarrow> splitDot (s @ CHR ''.'' # t) = [s, t]"
  by (induction s) (auto simp: splitDot_no_dot dest: isDigit_neq_dot)

lemma trimRight_append_replicate: "trimRight c (s @ replicate k c) = trimRight c s"
proof -
  have "dropWhile (\<lambda>x. x = c) (replicate k c @ rev s) = dropWhile (\<lambda>x. x = c) (rev s)" by (induction k) simp_all
  then show ?thesis by (simp add: trimRight_def)
qed

lemma trimRight_last: "s = [] \<or> last s \<noteq> c \<Longrightarrow> trimRight c s = s"
  unfolding trimRight_def by (cases s rule: rev_cases) auto

lemma trimRight_decomp: "\<exists>k. s = trimRight c s @ replicate k c"
proof (induction s rule: rev_induct)
  case (snoc x s)
  then obtain k where k: "s = trimRight c s @ replicate k c" by blast
  show ?case
  proof (cases "x = c")
    case True
    have "trimRight c (s @ [x]) = trimRight c s" using True by (simp add: trimRight_def)
    moreover have "s @ [x] = trimRight c s @ replicate (Suc k) c"
      using k True by (metis append.assoc replicate_append_same replicate_Suc)
    ultimately show ?thesis by metis
  next
    case False
    then have "trimRight c (s @ [x]) = s @ [x]" by (simp add: trimRight_last)
    then show ?thesis by (metis append_Nil2 replicate_0)
  qed
qed (simp add: trimRight_def)

lemma last_trimRight: "trimRight c s = [] \<or> last (trimRight c s) \<noteq> c"
  unfolding trimRight_def by (metis (full_types) hd_dropWhile last_rev rev_is_Nil_conv)

text \<open>The trimmed form of a four-place decimal: whole part alone, or with the fraction stripped of its zeros.\<close>

lemma trim_fixed:
  assumes "list_all isDigit w" "w \<noteq> []" "list_all isDigit f"
  shows "\<exists>t k. f = t @ replicate k CHR ''0'' \<and>
    trimRight CHR ''.'' (trimRight CHR ''0'' (w @ ''.'' @ f)) = (if t = [] then w else w @ ''.'' @ t)"
proof -
  obtain k where k: "f = trimRight CHR ''0'' f @ replicate k CHR ''0''" using trimRight_decomp by blast
  define t where "t = trimRight CHR ''0'' f"
  have z: "trimRight CHR ''0'' (w @ ''.'' @ f) = w @ ''.'' @ t"
  proof -
    have "trimRight CHR ''0'' (w @ ''.'' @ f) = trimRight CHR ''0'' ((w @ ''.'' @ t) @ replicate k CHR ''0'')"
      using k t_def by simp
    also have "\<dots> = trimRight CHR ''0'' (w @ ''.'' @ t)" by (rule trimRight_append_replicate)
    also have "\<dots> = w @ ''.'' @ t" by (rule trimRight_last) (use last_trimRight [of "CHR ''0''" f] in \<open>auto simp: t_def\<close>)
    finally show ?thesis .
  qed
  have d: "c \<in> set w \<Longrightarrow> c \<noteq> CHR ''.''" for c using assms isDigit_neq_dot by (auto simp: list_all_iff)
  have lw: "last w \<noteq> CHR ''.''" using d assms(2) by auto
  have "list_all isDigit t" using assms(3) k t_def by (metis list_all_append)
  then have lt: "t \<noteq> [] \<Longrightarrow> last t \<noteq> CHR ''.''" using isDigit_neq_dot by (auto simp: list_all_iff)
  have "trimRight CHR ''.'' (w @ ''.'' @ t) = (if t = [] then w else w @ ''.'' @ t)"
    using lw lt assms(2) trimRight_append_replicate [of "CHR ''.''" w 1] trimRight_last [of w "CHR ''.''"]
    by (auto intro!: trimRight_last)
  with z k t_def show ?thesis by auto
qed

lemma ParseQuantity_whole:
  assumes "list_all isDigit w" "w \<noteq> []" "int (digitsVal w) * 10000 \<le> max64"
  shows "ParseQuantity w = Inr (int (digitsVal w) * 10000)"
  using assms by (simp add: ParseQuantity_def splitDot_no_dot Let_def digitsVal_append failIf_def)
    (simp add: digitsVal_def eval_nat_numeral)

lemma ParseQuantity_fraction:
  assumes "list_all isDigit w" "w \<noteq> []" "list_all isDigit t" "t \<noteq> []" "length t \<le> 4"
    "int (digitsVal (w @ t @ replicate (4 - length t) CHR ''0'')) \<le> max64"
  shows "ParseQuantity (w @ ''.'' @ t) = Inr (int (digitsVal (w @ t @ replicate (4 - length t) CHR ''0'')))"
  using assms by (simp add: ParseQuantity_def splitDot_one_dot Let_def failIf_def)

lemma floatString4_ticks:
  assumes "0 \<le> q"
  shows "floatString4 (of_int q / 10000) = fmtNat (nat q div 10000) @ ''.'' @ pad4 (nat q mod 10000)"
proof -
  have "\<lfloor>\<bar>of_int q / 10000 :: rat\<bar> * 10000 + 1/2\<rfloor> = q" using assms by (simp add: floor_unique)
  then show ?thesis using assms by (simp add: floatString4_def Let_def)
qed

text \<open>Printing a fractional quantity and parsing it back gives the quantity, for every
  nonnegative int64: no tick is lost or invented by the decimal form.\<close>

theorem FormatQuantity_roundtrip:
  assumes "0 \<le> q" "q \<le> max64"
  shows "ParseQuantity (FormatQuantity q FractionalQuantityScale) = Inr q"
proof -
  let ?w = "fmtNat (nat q div 10000)" and ?f = "pad4 (nat q mod 10000)"
  obtain t k where f: "?f = t @ replicate k CHR ''0''" and
    s: "trimRight CHR ''.'' (trimRight CHR ''0'' (?w @ ''.'' @ ?f)) = (if t = [] then ?w else ?w @ ''.'' @ t)"
    using trim_fixed [OF fmtNat_digits fmtNat_neq_Nil pad4_digits] by blast
  have k: "k = 4 - length t" "length t \<le> 4" using arg_cong [OF f, of length] by auto
  have t: "list_all isDigit t" using pad4_digits f by (metis list_all_append)
  have "digitsVal (?w @ ?f) = nat q div 10000 * 10000 + nat q mod 10000" by (simp add: digitsVal_append pad4_val)
  then have v: "digitsVal (?w @ t @ replicate (4 - length t) CHR ''0'') = nat q" using f k by simp
  have fmt: "FormatQuantity q FractionalQuantityScale = (if t = [] then ?w else ?w @ ''.'' @ t)"
    using s floatString4_ticks [OF assms(1)]
    by (simp add: FormatQuantity_def FractionalQuantityScale_def QuantityUnits_def)
  show ?thesis
  proof (cases "t = []")
    case True
    have "digitsVal (replicate 4 CHR ''0'') = 0" by (simp add: digitsVal_def eval_nat_numeral)
    then have "nat q div 10000 * 10000 = nat q" using v True by (simp add: digitsVal_append)
    then have "int (digitsVal ?w) * 10000 = q" using assms by simp
    with True fmt assms show ?thesis using ParseQuantity_whole [of ?w] by (simp add: fmtNat_digits)
  next
    case False
    with fmt v t k assms show ?thesis using ParseQuantity_fraction [of ?w t] by (simp add: fmtNat_digits)
  qed
qed

theorem FormatQuantity_roundtrip_witness:
  "ParseQuantity (FormatQuantity 12345600 FractionalQuantityScale) = Inr 12345600"
  by (rule FormatQuantity_roundtrip) (simp_all add: max64_def)

text \<open>Whatever \<open>ParseQuantity\<close> accepts is a nonnegative int64.\<close>

lemma ParseQuantity_range: "ParseQuantity s = Inr n \<Longrightarrow> 0 \<le> n \<and> n \<le> max64"
  by (auto simp: ParseQuantity_def Let_def go_bind)

end
