(* ===== verification/OrderEvents.thy ===== *)
theory OrderEvents
  imports Quantity
begin

text \<open>
  The payloads of \<open>internal/event\<close> that the order path reads and writes, with their validators: the
  broker and account snapshots, the kill switch, planned, released and refused orders, the sale back
  to 98 percent, fills, lifecycle reports and engine states. A record field has its struct's short
  prefix and the field's name. An error is the fixed text of its message; a validator is the list of
  the errors it joins, empty when it returns nil. A slice whose nil the code distinguishes is an
  \<open>option\<close>. The \<open>Detail\<close> prose of a written payload is one constructor of \<open>detail\<close> per message of the
  modelled code, with the values it formats; \<open>NoDetail\<close> is the empty string.
\<close>

type_synonym err = string

definition f_ne :: "f64 \<Rightarrow> f64 \<Rightarrow> bool" where
  "f_ne a b \<longleftrightarrow> \<not> f_eq a b"

definition f_ceil :: "f64 \<Rightarrow> f64" where
  "f_ceil x = f_neg (f_floor (f_neg x))"

definition f_abs :: "f64 \<Rightarrow> f64" where
  "f_abs x = (if f_lt x (Fin 0) then f_neg x else x)"

definition f_pos :: "f64 \<Rightarrow> bool" where
  "f_pos x \<longleftrightarrow> f_lt (Fin 0) x"

lemma f_pos_Fin [simp]: "f_pos (Fin r) \<longleftrightarrow> 0 < r"
  by (simp add: f_pos_def)

lemma f_ne_Fin [simp]: "f_ne (Fin a) (Fin b) \<longleftrightarrow> a \<noteq> b"
  by (simp add: f_ne_def)

lemma f_abs_Fin [simp]: "f_abs (Fin r) = Fin \<bar>r\<bar>"
  by (simp add: f_abs_def)

lemma f_ceil_Fin [simp]: "f_ceil (Fin r) = Fin (of_int \<lceil>r\<rceil>)"
  by (simp add: f_ceil_def ceiling_def)

section \<open>Times and identifier lists\<close>

definition requiredTime :: "gotime \<Rightarrow> err list" where
  "requiredTime t = (if t = 0 then [''is required''] else errIf (\<not> writableTime t) ''cannot be written as RFC 3339'')"

definition wholeSecondTime :: "gotime \<Rightarrow> err list" where
  "wholeSecondTime t = (if requiredTime t \<noteq> [] then requiredTime t
     else errIf (nanosecond t \<noteq> 0) ''must be a whole second'')"

fun ascendingFrom :: "string option \<Rightarrow> string list \<Rightarrow> err list" where
  "ascendingFrom prev [] = []"
| "ascendingFrom prev (x # xs) =
     (if x = '''' then [''is empty'']
      else errIf (case prev of None \<Rightarrow> False | Some y \<Rightarrow> x \<le> y) ''must be strictly ascending'')
     @ ascendingFrom (Some x) xs"

definition ascendingIDs :: "string list \<Rightarrow> err list" where
  "ascendingIDs ids = ascendingFrom None ids"

section \<open>Sides, modes and components\<close>

definition OrderSideBuy :: string where
  "OrderSideBuy = ''buy''"

definition OrderSideSell :: string where
  "OrderSideSell = ''sell''"

lemma side_distinct [simp]: "OrderSideBuy \<noteq> OrderSideSell" "OrderSideSell \<noteq> OrderSideBuy"
  by (simp_all add: OrderSideBuy_def OrderSideSell_def)

definition OrderTypeLimit :: string where
  "OrderTypeLimit = ''limit''"

datatype (plugins only: code size) trading_mode = TradingModeDryRun | TradingModePaper | TradingModeLive | OtherMode string

definition ValidTradingMode :: "trading_mode \<Rightarrow> bool" where
  "ValidTradingMode m \<longleftrightarrow> m = TradingModeDryRun \<or> m = TradingModePaper \<or> m = TradingModeLive"

definition BrokerComponentExcessLiquidity :: string where
  "BrokerComponentExcessLiquidity = ''excess-liquidity''"

definition BrokerComponentNetLiquidation :: string where
  "BrokerComponentNetLiquidation = ''net-liquidation''"

definition BrokerComponentOpenOrders :: string where
  "BrokerComponentOpenOrders = ''open-orders''"

definition BrokerComponentPositions :: string where
  "BrokerComponentPositions = ''positions''"

lemmas broker_components = BrokerComponentExcessLiquidity_def BrokerComponentNetLiquidation_def
  BrokerComponentOpenOrders_def BrokerComponentPositions_def

section \<open>The kill switch\<close>

record kill_switch_payload =
  ks_AccountID :: string
  ks_AsOf :: gotime
  ks_Engaged :: bool
  ks_Operator :: string
  ks_Detail :: string

definition KillSwitch_Validate :: "kill_switch_payload \<Rightarrow> err list" where
  "KillSwitch_Validate p =
     errIf (ks_AccountID p = '''') ''account id is required'' @ requiredTime (ks_AsOf p)
     @ errIf (ks_Operator p = '''') ''operator is required'' @ errIf (ks_Detail p = '''') ''detail is required''"

section \<open>The broker snapshot\<close>

record broker_position =
  bp_InstrumentID :: string
  bp_Quantity :: int
  bp_Mark :: f64
  bp_MarkSet :: bool

datatype (plugins only: code size) broker_order_status =
  BrokerOrderWorking | BrokerOrderPending | BrokerOrderCancelPending | OtherOrderStatus string

record broker_order =
  bo_BrokerOrderID :: string
  bo_ClientOrderID :: string
  bo_InstrumentID :: string
  bo_Side :: string
  bo_Status :: broker_order_status
  bo_RemainingQuantity :: int

record broker_snapshot_payload =
  bs_QuantityScale :: int
  bs_AccountID :: string
  bs_AsOf :: gotime
  bs_MarketOpen :: bool
  bs_Unreadable :: "string list"
  bs_NetLiquidation :: f64
  bs_ExcessLiquidity :: f64
  bs_Positions :: "broker_position list option"
  bs_OpenOrders :: "broker_order list option"
  bs_ReadAt :: gotime
  bs_AsOfClose :: bool
  bs_NotAsOfClose :: string
  bs_ReadNetLiquidation :: f64
  bs_CashDrift :: f64
  bs_UnexplainedCash :: f64

definition rows :: "'a list option \<Rightarrow> 'a list" where
  "rows xs = (case xs of None \<Rightarrow> [] | Some ys \<Rightarrow> ys)"

lemma rows_simps [simp]: "rows None = []" "rows (Some xs) = xs"
  by (simp_all add: rows_def)

definition AlarmNetLiquidation :: "broker_snapshot_payload \<Rightarrow> f64" where
  "AlarmNetLiquidation p = (if bs_AsOfClose p then bs_ReadNetLiquidation p else bs_NetLiquidation p)"

definition BrokerReadable :: "broker_snapshot_payload \<Rightarrow> string \<Rightarrow> bool" where
  "BrokerReadable p component \<longleftrightarrow> component \<notin> set (bs_Unreadable p)"

definition BrokerSnapshot_Position :: "broker_snapshot_payload \<Rightarrow> string \<Rightarrow> broker_position option" where
  "BrokerSnapshot_Position p instrumentID = find (\<lambda>q. bp_InstrumentID q = instrumentID) (rows (bs_Positions p))"

definition CashDriftBound :: f64 where
  "CashDriftBound = f_lit (1/100)"

definition withinCashDriftBound :: "f64 \<Rightarrow> f64 \<Rightarrow> bool" where
  "withinCashDriftBound drift netLiquidation \<longleftrightarrow>
     (if \<not> isFinite drift \<or> \<not> isFinite netLiquidation then True
      else decimalMoney (f_abs drift) \<le> decimalMoney (f_abs CashDriftBound) * decimalMoney (f_abs netLiquidation))"

definition statesReadAt :: "broker_snapshot_payload \<Rightarrow> bool" where
  "statesReadAt p \<longleftrightarrow> bs_ReadAt p \<noteq> 0 \<or> bs_AsOfClose p \<or> bs_NotAsOfClose p \<noteq> '''' \<or>
     f_ne (bs_ReadNetLiquidation p) (Fin 0) \<or> f_ne (bs_CashDrift p) (Fin 0) \<or> f_ne (bs_UnexplainedCash p) (Fin 0)"

definition readAtErrors :: "broker_snapshot_payload \<Rightarrow> err list" where
  "readAtErrors p =
     (if wholeSecondTime (bs_ReadAt p) \<noteq> [] then wholeSecondTime (bs_ReadAt p)
      else if bs_ReadAt p < bs_AsOf p then [''read at precedes as of'']
      else if bs_AsOfClose p \<and> \<not> bs_ReadAt p > bs_AsOf p then [''read at must follow as of'']
      else if bs_AsOfClose p \<and> bs_NotAsOfClose p \<noteq> '''' then [''states no reason it is not'']
      else if \<not> bs_AsOfClose p \<and> bs_NotAsOfClose p = '''' then [''states why it is not as of the close'']
      else if \<not> bs_AsOfClose p \<and> bs_ReadAt p \<noteq> bs_AsOf p then [''as of must equal read at'']
      else if \<not> bs_AsOfClose p \<and> f_ne (bs_ReadNetLiquidation p) (bs_NetLiquidation p) then [''the figure at the read must equal it'']
      else if \<not> bs_AsOfClose p \<and> f_ne (bs_CashDrift p) (Fin 0) then [''accepted no cash drift'']
      else if \<not> bs_AsOfClose p \<and> f_ne (bs_UnexplainedCash p) (Fin 0) then [''states no unexplained cash'']
      else if bs_AsOfClose p \<and> BrokerReadable p BrokerComponentNetLiquidation \<and> \<not> f_pos (bs_ReadNetLiquidation p)
        then [''states a positive net liquidation at the read'']
      else if bs_AsOfClose p \<and> \<not> withinCashDriftBound (bs_CashDrift p) (bs_NetLiquidation p) then [''cash drift is beyond the bound'']
      else [])"

fun unreadableErrs :: "string option \<Rightarrow> string list \<Rightarrow> err list" where
  "unreadableErrs prev [] = []"
| "unreadableErrs prev (c # cs) =
     errIf (c \<notin> {BrokerComponentExcessLiquidity, BrokerComponentNetLiquidation, BrokerComponentOpenOrders, BrokerComponentPositions})
       ''unreadable component is not recognised''
     @ errIf (case prev of None \<Rightarrow> False | Some y \<Rightarrow> c \<le> y) ''unreadable components must be strictly ascending''
     @ unreadableErrs (Some c) cs"

fun brokerPositionErrs :: "int \<Rightarrow> string option \<Rightarrow> broker_position list \<Rightarrow> err list" where
  "brokerPositionErrs scale prev [] = []"
| "brokerPositionErrs scale prev (p # ps) =
     (if bp_InstrumentID p = '''' then [''instrument id is required'']
      else errIf (bp_Quantity p = 0 \<or> (scale \<noteq> 0 \<and> bp_Quantity p < 0)) ''quantity must not be zero''
        @ (if \<not> isFinite (bp_Mark p) then [''mark must be finite'']
           else errIf (\<not> bp_MarkSet p \<and> f_ne (bp_Mark p) (Fin 0)) ''mark carries a value but none is set'')
        @ errIf (case prev of None \<Rightarrow> False | Some y \<Rightarrow> bp_InstrumentID p \<le> y) ''positions must be strictly ascending by instrument'')
     @ brokerPositionErrs scale (Some (bp_InstrumentID p)) ps"

fun openOrderErrs :: "string option \<Rightarrow> broker_order list \<Rightarrow> err list" where
  "openOrderErrs prev [] = []"
| "openOrderErrs prev (b # os) =
     (if bo_BrokerOrderID b = '''' then [''broker order id is required'']
      else errIf (case prev of None \<Rightarrow> False | Some y \<Rightarrow> bo_BrokerOrderID b \<le> y) ''open orders must be strictly ascending by broker order id'')
     @ errIf (bo_InstrumentID b = '''') ''instrument id is required''
     @ errIf (bo_Side b \<noteq> OrderSideBuy \<and> bo_Side b \<noteq> OrderSideSell) ''side is not buy or sell''
     @ errIf (bo_Status b \<notin> {BrokerOrderWorking, BrokerOrderPending, BrokerOrderCancelPending}) ''status is not working, pending or cancel-pending''
     @ errIf (bo_RemainingQuantity b \<le> 0) ''remaining quantity must be positive''
     @ openOrderErrs (Some (bo_BrokerOrderID b)) os"

definition scaleErrs :: "int \<Rightarrow> err list" where
  "scaleErrs scale = errIf (quantityScaleError scale \<noteq> []) ''quantity scale is not 0 or 10000''"

definition BrokerSnapshot_Validate :: "broker_snapshot_payload \<Rightarrow> err list" where
  "BrokerSnapshot_Validate p =
     (if scaleErrs (bs_QuantityScale p) \<noteq> [] then scaleErrs (bs_QuantityScale p) else
      errIf (bs_AccountID p = '''') ''account id is required'' @ wholeSecondTime (bs_AsOf p)
      @ unreadableErrs None (bs_Unreadable p)
      @ (if BrokerReadable p BrokerComponentNetLiquidation then errIf (\<not> isFinite (bs_NetLiquidation p)) ''net liquidation must be finite''
         else errIf (f_ne (bs_NetLiquidation p) (Fin 0)) ''an unreadable net liquidation carries no value'')
      @ (if BrokerReadable p BrokerComponentExcessLiquidity then errIf (\<not> isFinite (bs_ExcessLiquidity p)) ''excess liquidity must be finite''
         else errIf (f_ne (bs_ExcessLiquidity p) (Fin 0)) ''an unreadable excess liquidity carries no value'')
      @ (if \<not> BrokerReadable p BrokerComponentPositions \<and> rows (bs_Positions p) \<noteq> [] then [''unreadable positions carry no rows'']
         else errIf (BrokerReadable p BrokerComponentPositions \<and> bs_Positions p = None) ''readable positions must be stated'')
      @ (if \<not> BrokerReadable p BrokerComponentOpenOrders \<and> rows (bs_OpenOrders p) \<noteq> [] then [''unreadable open orders carry no rows'']
         else errIf (BrokerReadable p BrokerComponentOpenOrders \<and> bs_OpenOrders p = None) ''readable open orders must be stated'')
      @ brokerPositionErrs (bs_QuantityScale p) None (rows (bs_Positions p))
      @ (if \<not> isFinite (bs_ReadNetLiquidation p) then [''net liquidation at the read must be finite'']
         else errIf (\<not> BrokerReadable p BrokerComponentNetLiquidation \<and> f_ne (bs_ReadNetLiquidation p) (Fin 0))
           ''an unreadable net liquidation carries no value at the read either'')
      @ errIf (\<not> isFinite (bs_CashDrift p)) ''cash drift must be finite''
      @ errIf (\<not> isFinite (bs_UnexplainedCash p)) ''unexplained cash must be finite''
      @ (if statesReadAt p then readAtErrors p else [])
      @ openOrderErrs None (rows (bs_OpenOrders p)))"

section \<open>Account limits\<close>

record margin_limits =
  ml_MaxExposure :: f64
  ml_MaxOrdersPerDecision :: int
  ml_MaxOrderFraction :: f64
  ml_PriceBand :: f64
  ml_ExcessLiquidityWarning :: f64
  ml_ExcessLiquidityUrgent :: f64
  ml_ExcessLiquidityStaleMinutes :: int

definition MaxSnapshotAgeCeiling :: int where
  "MaxSnapshotAgeCeiling = 390"

definition HasCushion :: "margin_limits \<Rightarrow> bool" where
  "HasCushion l \<longleftrightarrow> f_ne (ml_ExcessLiquidityWarning l) (Fin 0) \<or> f_ne (ml_ExcessLiquidityUrgent l) (Fin 0) \<or>
     ml_ExcessLiquidityStaleMinutes l \<noteq> 0"

definition MarginLimits_Validate :: "margin_limits \<Rightarrow> err list" where
  "MarginLimits_Validate l =
     errIf (\<not> isFinite (ml_MaxExposure l) \<or> f_le (ml_MaxExposure l) (Fin 0)) ''limits max exposure must be finite and positive''
     @ errIf (ml_MaxOrdersPerDecision l < 1) ''limits max orders per decision must be at least 1''
     @ errIf (\<not> isFinite (ml_MaxOrderFraction l) \<or> f_le (ml_MaxOrderFraction l) (Fin 0)) ''limits max order fraction must be finite and positive''
     @ errIf (\<not> isFinite (ml_PriceBand l) \<or> f_le (ml_PriceBand l) (Fin 0) \<or> f_le (Fin 1) (ml_PriceBand l)) ''limits price band must lie strictly between 0 and 1''
     @ (if \<not> HasCushion l then []
        else errIf (\<not> isFinite (ml_ExcessLiquidityWarning l) \<or> \<not> isFinite (ml_ExcessLiquidityUrgent l) \<or>
            \<not> (f_pos (ml_ExcessLiquidityUrgent l) \<and> f_lt (ml_ExcessLiquidityUrgent l) (ml_ExcessLiquidityWarning l) \<and>
               f_lt (ml_ExcessLiquidityWarning l) (Fin 1)))
            ''limits excess liquidity thresholds must satisfy 0 < urgent < warning < 1''
          @ errIf (ml_ExcessLiquidityStaleMinutes l < 1 \<or> ml_ExcessLiquidityStaleMinutes l > MaxSnapshotAgeCeiling)
            ''limits excess liquidity stale minutes must be from 1 to 390'')"

section \<open>Reasons and details\<close>

datatype (plugins only: code size) refusal_reason =
  RefusedUndecidedOrder | RefusedMarginExposure | RefusedOrderCount | RefusedOrderSize
| RefusedPriceBand | RefusedMissingMark | RefusedEngineDegraded | RefusedEngineHalted
| RefusedIRAExposure | RefusedInsufficientCash | RefusedSellExceedsHolding | RefusedUnvaluedHolding
| RefusedKillSwitch | RefusedBrokerHolding | RefusedSaleAttempted | RefusedStaleBrokerSnapshot
| RefusedPendingCashDecrease | OtherRefusal string

datatype (plugins only: code size) stale_detail = ClockSkew string int | TooOld string int int

datatype (plugins only: code size) detail =
  NoDetail
| DHalted | DUndecided string | DKillSwitch string | DDegraded "string list" | DDegradedNoSnapshot
| DPendingCash string int string | DNoFiniteDebit money_error | DStale stale_detail
| DBeyondBroker int int int string | DBeyondHolding int string int | DOrderCount int int
| DMissingMark string | DPriceBand f64 f64 f64 f64 | DOrderSize f64 f64 | DUnvalued string
| DExposure f64 f64 f64 | DCash f64 f64
| DHaltUndecided string refusal_reason | DDegradeBreach string refusal_reason detail
| DSaleTag string | DSaleAttempted string string | DSaleBeyondBroker int int int string | DHaltSale string refusal_reason
| DReconciliation string
| DNoSnapshot | DComponentUnreadable string string | DStaleSale stale_detail | DNetLiquidationNotPositive string f64
| DMarkNotPositive string f64 string | DHoldsNone string string | DShort string int string | DNoMark string string
| DUnknownWorkingSell broker_order string | DNothingLeft string int int int f64 f64
| DLapsed detail | DExitNoLonger string string | DDecisionNoLonger | DAlarmNoLonger string string
| DAlarmNonPositive f64 f64 | DAlarmRatio f64 f64 f64 f64 f64 | DAlarmNoReading int | DAlarmNoFirstReading int

section \<open>Sales back to 98 percent\<close>

datatype (plugins only: code size) sale_kind = NoSaleKind | SaleKindIncident | SaleKindUrgent | OtherSaleKind string

datatype (plugins only: code size) sale_trigger = NoSaleTrigger | SaleTriggerExit | SaleTriggerMarginUrgent | OtherSaleTrigger string

record sale_figures =
  sf_Kind :: sale_kind
  sf_Trigger :: sale_trigger
  sf_SnapshotID :: string
  sf_WorkingSells :: int
  sf_KeepShares :: int
  sf_ToTarget :: int
  sf_WithinHolding :: int
  sf_NeverBelow :: int

definition noSale :: sale_figures where
  "noSale = \<lparr>sf_Kind = NoSaleKind, sf_Trigger = NoSaleTrigger, sf_SnapshotID = '''', sf_WorkingSells = 0,
     sf_KeepShares = 0, sf_ToTarget = 0, sf_WithinHolding = 0, sf_NeverBelow = 0\<rparr>"

definition KeepShares :: "f64 \<Rightarrow> f64 \<Rightarrow> f64 \<Rightarrow> f64" where
  "KeepShares target netLiquidation mark = f_ceil (f_div (f_mul target netLiquidation) mark)"

section \<open>Planned orders\<close>

record order_planned =
  op_RoundingSlack :: f64
  op_FractionalIncrement :: string
  op_QuantityScale :: int
  op_AccountID :: string
  op_Tag :: string
  op_ClientOrderID :: string
  op_InstrumentID :: string
  op_Side :: string
  op_Phase :: string
  op_OrderType :: string
  op_Quantity :: int
  op_LimitPrice :: f64
  op_TargetWeight :: f64
  op_NetLiquidation :: f64
  op_HeldQuantity :: int
  op_ReferencePrice :: f64
  op_PriceBand :: f64
  op_Sale :: sale_figures

definition orderIdentity :: "string \<Rightarrow> string \<Rightarrow> string \<Rightarrow> string \<Rightarrow> int \<Rightarrow> f64 \<Rightarrow> err list" where
  "orderIdentity accountID clientOrderID instrumentID side quantity limit =
     errIf (accountID = '''') ''account id is required'' @ errIf (clientOrderID = '''') ''client order id is required''
     @ errIf (instrumentID = '''') ''instrument id is required''
     @ errIf (side \<noteq> OrderSideBuy \<and> side \<noteq> OrderSideSell) ''side is not buy or sell''
     @ errIf (quantity \<le> 0) ''quantity must be positive''
     @ errIf (\<not> isFinite limit \<or> f_le limit (Fin 0)) ''limit price must be finite and positive''"

definition SaleFigures_validate :: "sale_figures \<Rightarrow> order_planned \<Rightarrow> err list" where
  "SaleFigures_validate s p =
     errIf (op_Side p \<noteq> OrderSideSell) ''a sale back to 98% is a sell''
     @ errIf (sf_Kind s \<noteq> SaleKindIncident \<and> sf_Kind s \<noteq> SaleKindUrgent) ''sale kind is not incident or urgent''
     @ errIf (sf_Trigger s \<noteq> SaleTriggerExit \<and> sf_Trigger s \<noteq> SaleTriggerMarginUrgent) ''sale trigger is not exit or margin-urgent''
     @ errIf (sf_SnapshotID s = '''') ''sale snapshot id is required''
     @ errIf (sf_WorkingSells s < 0) ''sale working sells must not be negative''
     @ (if isFinite (op_TargetWeight p) \<and> isFinite (op_NetLiquidation p) \<and> f_pos (op_NetLiquidation p) \<and>
           isFinite (op_ReferencePrice p) \<and> f_pos (op_ReferencePrice p)
        then errIf (f_ne (f_of_int (sf_KeepShares s)) (KeepShares (op_TargetWeight p) (op_NetLiquidation p) (op_ReferencePrice p)))
          ''sale keep shares is not the ceiling'' else [])
     @ errIf (sf_ToTarget s \<noteq> sub64 (op_HeldQuantity p) (sf_KeepShares s)) ''sale to target must be the holding less the shares kept''
     @ errIf (sf_WithinHolding s \<noteq> sub64 (op_HeldQuantity p) (sf_WorkingSells s)) ''sale within holding must be the holding less every working sell''
     @ errIf (sf_NeverBelow s \<noteq> sub64 (sub64 (op_HeldQuantity p) (sf_WorkingSells s)) (sf_KeepShares s))
         ''sale never below must be the holding less every working sell and the shares kept''
     @ errIf (op_Quantity p \<noteq> min (sf_ToTarget s) (min (sf_WithinHolding s) (sf_NeverBelow s))) ''a sale's quantity is the smallest''"

definition OrderPlanned_fields :: "order_planned \<Rightarrow> err list" where
  "OrderPlanned_fields p =
     orderIdentity (op_AccountID p) (op_ClientOrderID p) (op_InstrumentID p) (op_Side p) (op_Quantity p) (op_LimitPrice p)
     @ errIf (op_Tag p = '''') ''tag is required''
     @ errIf (op_Phase p \<noteq> OrderSideBuy \<and> op_Phase p \<noteq> OrderSideSell) ''phase is not buy or sell''
     @ errIf (op_OrderType p \<noteq> OrderTypeLimit) ''order type is not limit''
     @ errIf (\<not> isFinite (op_TargetWeight p) \<or> f_lt (op_TargetWeight p) (Fin 0)) ''target weight must be finite and not negative''
     @ errIf (\<not> isFinite (op_NetLiquidation p) \<or> f_le (op_NetLiquidation p) (Fin 0)) ''net liquidation must be finite and positive''
     @ errIf (op_HeldQuantity p < 0) ''held quantity must not be negative''
     @ errIf (\<not> (isFinite (op_ReferencePrice p) \<and> f_pos (op_ReferencePrice p))) ''reference price must be finite and positive''
     @ errIf (\<not> isFinite (op_PriceBand p) \<or> f_le (op_PriceBand p) (Fin 0) \<or> f_le (Fin 1) (op_PriceBand p)) ''price band must lie strictly between 0 and 1''
     @ (if isFinite (op_ReferencePrice p) \<and> f_pos (op_ReferencePrice p) \<and> isFinite (op_LimitPrice p)
        then errIf (op_Side p = OrderSideBuy \<and> f_lt (op_LimitPrice p) (op_ReferencePrice p)) ''a buy's limit must not be below its reference price''
          @ errIf (op_Side p = OrderSideSell \<and> f_lt (op_ReferencePrice p) (op_LimitPrice p)) ''a sell's limit must not be above its reference price''
        else [])
     @ (if op_Sale p \<noteq> noSale then SaleFigures_validate (op_Sale p) p else [])"

text \<open>
  The checks that return at once come first; Go's remainder by a positive step is zero exactly when
  \<open>mod\<close> is.
\<close>

definition OrderPlanned_Validate :: "order_planned \<Rightarrow> err list" where
  "OrderPlanned_Validate p =
     (if f_ne (op_RoundingSlack p) (Fin 0) \<and>
         (\<not> ValidRoundingSlack (op_RoundingSlack p) \<or> op_QuantityScale p \<noteq> FractionalQuantityScale \<or> op_Side p \<noteq> OrderSideBuy)
      then [''rounding slack requires a fractional buy'']
      else if op_QuantityScale p = FractionalQuantityScale \<and> op_Sale p \<noteq> noSale
      then [''fractional IRA orders carry no margin-account sale figures'']
      else
        (let incr = (if op_QuantityScale p \<noteq> 0
           then (case FractionalIncrementTicks (op_FractionalIncrement p) of
               Inl e \<Rightarrow> [''fractional increment'']
             | Inr step \<Rightarrow> errIf (op_Quantity p mod step \<noteq> 0) ''planned quantity must be a multiple of the fractional increment'')
           else errIf (op_FractionalIncrement p \<noteq> '''') ''fractional increment requires fractional quantities'') in
         if incr \<noteq> [] then incr
         else if scaleErrs (op_QuantityScale p) \<noteq> [] then scaleErrs (op_QuantityScale p)
         else OrderPlanned_fields p))"

end
