(* ===== verification/OrderOutcomes.thy ===== *)
theory OrderOutcomes
  imports OrderEvents
begin

text \<open>
  The payloads the risk gate writes, and the venue's reports it reads: released and refused orders
  with their figures, the withheld sale, the margin alarm, engine states, account snapshots,
  lifecycle reports and fills, each with its validator (\<open>internal/event\<close>).
\<close>

section \<open>Released and refused orders\<close>

datatype (plugins only: code size) mark_source = NoMarkSource | MarkSourceBrokerLast | MarkSourceOfficialClose | OtherMarkSource string

record risk_figures =
  rf_NetLiquidation :: f64
  rf_ReferencePrice :: f64
  rf_ExposureBefore :: f64
  rf_ExposureAfter :: f64
  rf_OrderFraction :: f64
  rf_Mark :: f64
  rf_MarkSet :: bool
  rf_MarkDeviation :: f64
  rf_OrdersInDecision :: int
  rf_CashChecked :: bool
  rf_BuyCost :: f64
  rf_RoundingSlack :: f64
  rf_CashAvailable :: f64
  rf_RiskReducing :: bool
  rf_MarkSource :: mark_source
  rf_BrokerSet :: bool
  rf_BrokerHolding :: int
  rf_WorkingSells :: int

definition noFigures :: risk_figures where
  "noFigures = \<lparr>rf_NetLiquidation = Fin 0, rf_ReferencePrice = Fin 0, rf_ExposureBefore = Fin 0, rf_ExposureAfter = Fin 0,
     rf_OrderFraction = Fin 0, rf_Mark = Fin 0, rf_MarkSet = False, rf_MarkDeviation = Fin 0, rf_OrdersInDecision = 0,
     rf_CashChecked = False, rf_BuyCost = Fin 0, rf_RoundingSlack = Fin 0, rf_CashAvailable = Fin 0, rf_RiskReducing = False,
     rf_MarkSource = NoMarkSource, rf_BrokerSet = False, rf_BrokerHolding = 0, rf_WorkingSells = 0\<rparr>"

record order_released =
  rel_QuantityScale :: int
  rel_AccountID :: string
  rel_PlanID :: string
  rel_Tag :: string
  rel_ClientOrderID :: string
  rel_InstrumentID :: string
  rel_Side :: string
  rel_Quantity :: int
  rel_LimitPrice :: f64
  rel_Mode :: trading_mode
  rel_Send :: bool
  rel_Figures :: risk_figures

record order_refused =
  ref_QuantityScale :: int
  ref_AccountID :: string
  ref_PlanID :: string
  ref_Tag :: string
  ref_ClientOrderID :: string
  ref_InstrumentID :: string
  ref_Side :: string
  ref_Quantity :: int
  ref_LimitPrice :: f64
  ref_Reason :: refusal_reason
  ref_Detail :: detail
  ref_Figures :: risk_figures
  ref_Alert :: bool

definition RiskFigures_validate :: "risk_figures \<Rightarrow> string \<Rightarrow> err list" where
  "RiskFigures_validate f side =
     errIf (\<not> isFinite (rf_NetLiquidation f) \<or> f_le (rf_NetLiquidation f) (Fin 0)) ''figures net liquidation must be finite and positive''
     @ errIf (\<not> isFinite (rf_ReferencePrice f) \<or> f_le (rf_ReferencePrice f) (Fin 0)) ''figures reference price must be finite and positive''
     @ concat (map (\<lambda>v. errIf (\<not> isFinite v \<or> f_lt v (Fin 0)) ''figures must be finite and not negative'')
         [rf_ExposureBefore f, rf_ExposureAfter f, rf_OrderFraction f, rf_MarkDeviation f])
     @ (if \<not> isFinite (rf_Mark f) \<or> f_lt (rf_Mark f) (Fin 0) then [''figures mark must be finite and not negative'']
        else if rf_MarkSet f \<and> f_eq (rf_Mark f) (Fin 0) then [''figures mark must be positive when set'']
        else errIf (\<not> rf_MarkSet f \<and> (f_ne (rf_Mark f) (Fin 0) \<or> f_ne (rf_MarkDeviation f) (Fin 0))) ''figures mark carries a value but none is set'')
     @ (if rf_MarkSource f \<noteq> NoMarkSource \<and> rf_MarkSource f \<noteq> MarkSourceBrokerLast \<and> rf_MarkSource f \<noteq> MarkSourceOfficialClose
        then [''figures mark source is not recognised'']
        else errIf (rf_MarkSource f \<noteq> NoMarkSource \<and> \<not> rf_MarkSet f) ''figures mark source names a price but no mark is set'')
     @ errIf (rf_OrdersInDecision f < 0) ''figures orders in decision must not be negative''
     @ errIf (rf_WorkingSells f < 0) ''figures working sells must not be negative''
     @ errIf (rf_RiskReducing f \<and> side \<noteq> OrderSideSell) ''figures risk-reducing marks a sell only''
     @ errIf (\<not> rf_BrokerSet f \<and> (rf_BrokerHolding f \<noteq> 0 \<or> rf_WorkingSells f \<noteq> 0)) ''figures broker values but no broker snapshot is set''
     @ (if f_ne (rf_RoundingSlack f) (Fin 0) \<and>
           (\<not> ValidRoundingSlack (rf_RoundingSlack f) \<or> \<not> rf_CashChecked f \<or> side \<noteq> OrderSideBuy \<or> f_lt (rf_BuyCost f) (rf_RoundingSlack f))
        then [''figures rounding slack requires a cash-checked buy'']
        else if \<not> isFinite (rf_BuyCost f) \<or> f_lt (rf_BuyCost f) (Fin 0) \<or> \<not> isFinite (rf_CashAvailable f)
        then [''figures buy cost must be finite and not negative, and cash available finite'']
        else errIf (\<not> rf_CashChecked f \<and> (f_ne (rf_BuyCost f) (Fin 0) \<or> f_ne (rf_CashAvailable f) (Fin 0))) ''figures cash carries a value but was not checked'')"

definition figuresScaleErrs :: "int \<Rightarrow> risk_figures \<Rightarrow> err list" where
  "figuresScaleErrs scale f =
     (if f_ne (rf_RoundingSlack f) (Fin 0) \<and> scale \<noteq> FractionalQuantityScale then [''rounding slack requires fractional quantities'']
      else if scale = FractionalQuantityScale \<and> rf_BrokerHolding f < 0 then [''fractional broker holding must not be negative'']
      else scaleErrs scale)"

definition OrderReleased_Validate :: "order_released \<Rightarrow> err list" where
  "OrderReleased_Validate p =
     (if figuresScaleErrs (rel_QuantityScale p) (rel_Figures p) \<noteq> [] then figuresScaleErrs (rel_QuantityScale p) (rel_Figures p)
      else orderIdentity (rel_AccountID p) (rel_ClientOrderID p) (rel_InstrumentID p) (rel_Side p) (rel_Quantity p) (rel_LimitPrice p)
        @ errIf (rel_PlanID p = '''') ''plan id is required'' @ errIf (rel_Tag p = '''') ''tag is required''
        @ errIf (\<not> ValidTradingMode (rel_Mode p)) ''mode is not dry-run, paper or live''
        @ errIf (rel_Mode p = TradingModeDryRun \<and> rel_Send p) ''a dry-run release is never sent''
        @ RiskFigures_validate (rel_Figures p) (rel_Side p))"

definition OrderRefused_Validate :: "order_refused \<Rightarrow> err list" where
  "OrderRefused_Validate p =
     (if figuresScaleErrs (ref_QuantityScale p) (ref_Figures p) \<noteq> [] then figuresScaleErrs (ref_QuantityScale p) (ref_Figures p)
      else orderIdentity (ref_AccountID p) (ref_ClientOrderID p) (ref_InstrumentID p) (ref_Side p) (ref_Quantity p) (ref_LimitPrice p)
        @ errIf (ref_PlanID p = '''') ''plan id is required''
        @ (case ref_Reason p of OtherRefusal _ \<Rightarrow> [''refusal reason is not recognised''] | _ \<Rightarrow> [])
        @ errIf (ref_Detail p = NoDetail) ''detail is required''
        @ errIf (ref_Alert p \<and> ref_Reason p \<noteq> RefusedStaleBrokerSnapshot \<and> ref_Reason p \<noteq> RefusedKillSwitch \<and>
            ref_Reason p \<noteq> RefusedPendingCashDecrease) ''only a stale-broker-snapshot, kill-switch or pending-cash-decrease refusal raises the alert''
        @ RiskFigures_validate (ref_Figures p) (ref_Side p))"

section \<open>The withheld sale\<close>

datatype (plugins only: code size) withheld_reason =
  SaleWithheldUnreadable | SaleWithheldUnknownWorkingSell | SaleWithheldNothingToSell
| SaleWithheldStaleBrokerSnapshot | SaleWithheldNotPositive | SaleWithheldLapsed | OtherWithheld string

record sale_withheld =
  sw_AccountID :: string
  sw_Tag :: string
  sw_ClientOrderID :: string
  sw_InstrumentID :: string
  sw_Kind :: sale_kind
  sw_Trigger :: sale_trigger
  sw_Reason :: withheld_reason
  sw_Detail :: detail
  sw_SnapshotID :: string
  sw_Alert :: bool

definition Withheld_Attempted :: "sale_withheld \<Rightarrow> bool" where
  "Withheld_Attempted p \<longleftrightarrow> sw_Reason p = SaleWithheldUnreadable \<or> sw_Reason p = SaleWithheldUnknownWorkingSell"

section \<open>The margin alarm\<close>

datatype (plugins only: code size) alarm_level = NoAlarmLevel | MarginAlarmClear | MarginAlarmWarning | MarginAlarmUrgent | OtherLevel string

datatype (plugins only: code size) alarm_cause = NoAlarmCause | MarginAlarmCauseRatio | MarginAlarmCauseNonPositive | MarginAlarmCauseNoReading | OtherCause string

record margin_alarm =
  ma_AccountID :: string
  ma_SnapshotID :: string
  ma_AsOf :: gotime
  ma_Level :: alarm_level
  ma_Cause :: alarm_cause
  ma_ExcessLiquidity :: f64
  ma_NetLiquidation :: f64
  ma_Ratio :: f64
  ma_ReadingSet :: bool
  ma_LastReadingAt :: gotime
  ma_LastReadingSet :: bool
  ma_Warning :: f64
  ma_Urgent :: f64
  ma_StaleMinutes :: int
  ma_Detail :: detail

definition alarmCauseErrs :: "margin_alarm \<Rightarrow> err list" where
  "alarmCauseErrs p =
     (if ma_Cause p = MarginAlarmCauseRatio then errIf (\<not> ma_ReadingSet p) ''a ratio alarm carries its reading''
      else if ma_Cause p = MarginAlarmCauseNonPositive then
        errIf (\<not> ma_ReadingSet p) ''a non-positive net liquidation alarm carries its reading''
        @ errIf (ma_Level p \<noteq> MarginAlarmUrgent) ''a net liquidation that is not positive is urgent''
      else if ma_Cause p = MarginAlarmCauseNoReading then
        errIf (ma_ReadingSet p) ''a no-reading alarm carries no reading''
        @ errIf (ma_Level p \<noteq> MarginAlarmUrgent) ''no reading while the market is open is urgent''
      else [''cause is not ratio, non-positive-net-liquidation or no-reading''])"

definition alarmReadingErrs :: "margin_alarm \<Rightarrow> err list" where
  "alarmReadingErrs p =
     (if \<not> ma_ReadingSet p \<and> (f_ne (ma_ExcessLiquidity p) (Fin 0) \<or> f_ne (ma_NetLiquidation p) (Fin 0) \<or> f_ne (ma_Ratio p) (Fin 0))
      then [''a reading carries values only when set'']
      else if ma_Cause p = MarginAlarmCauseNonPositive \<and> f_pos (ma_NetLiquidation p)
      then [''a non-positive net liquidation alarm's net liquidation must be zero or less'']
      else if ma_Cause p = MarginAlarmCauseNonPositive \<and> f_ne (ma_Ratio p) (Fin 0)
      then [''a net liquidation that is not positive gives no ratio'']
      else if ma_Cause p = MarginAlarmCauseNonPositive then []
      else if ma_ReadingSet p \<and> \<not> f_pos (ma_NetLiquidation p) then [''a ratio reading's net liquidation must be positive'']
      else errIf (ma_ReadingSet p \<and> f_ne (ma_Ratio p) (f_div (ma_ExcessLiquidity p) (ma_NetLiquidation p)))
        ''ratio must be excess liquidity over net liquidation'')"

definition MarginAlarm_Validate :: "margin_alarm \<Rightarrow> err list" where
  "MarginAlarm_Validate p =
     errIf (ma_AccountID p = '''') ''account id is required'' @ errIf (ma_SnapshotID p = '''') ''snapshot id is required''
     @ requiredTime (ma_AsOf p)
     @ errIf (ma_Level p \<noteq> MarginAlarmClear \<and> ma_Level p \<noteq> MarginAlarmWarning \<and> ma_Level p \<noteq> MarginAlarmUrgent) ''level is not clear, warning or urgent''
     @ alarmCauseErrs p
     @ concat (map (\<lambda>v. errIf (\<not> isFinite v) ''must be finite'') [ma_ExcessLiquidity p, ma_NetLiquidation p, ma_Ratio p])
     @ alarmReadingErrs p
     @ (if ma_LastReadingSet p then errIf (\<not> writableTime (ma_LastReadingAt p) \<or> ma_LastReadingAt p = 0) ''last reading at must be a writable time when set''
        else errIf (ma_LastReadingAt p \<noteq> 0) ''last reading at carries a value but none is set'')
     @ errIf (\<not> isFinite (ma_Warning p) \<or> \<not> isFinite (ma_Urgent p) \<or>
         \<not> (f_pos (ma_Urgent p) \<and> f_lt (ma_Urgent p) (ma_Warning p) \<and> f_lt (ma_Warning p) (Fin 1))) ''thresholds must satisfy 0 < urgent < warning < 1''
     @ errIf (ma_StaleMinutes p < 1) ''stale minutes must be at least 1''
     @ errIf (ma_Detail p = NoDetail) ''detail is required''"

section \<open>Engine states\<close>

datatype (plugins only: code size) engine_state = StateNormal | StateDegraded | StateHalted | OtherState string

datatype (plugins only: code size) engine_state_reason =
  EngineStateReasonCampaignWithoutProtectiveStop | EngineStateReasonRiskLimitBreached
| EngineStateReasonReconciliationUnexplained | EngineStateReasonReconciliationUnverifiable | OtherStateReason string

record engine_state_payload =
  es_State :: engine_state
  es_Reason :: engine_state_reason
  es_Detail :: detail
  es_ScopeInstrumentIDs :: "string list"
  es_ScopeOrderIDs :: "string list"
  es_ScopeCashComponents :: "string list"

definition EngineStateScopedVersion :: int where
  "EngineStateScopedVersion = 2"

definition EngineState_scoped :: "engine_state_payload \<Rightarrow> bool" where
  "EngineState_scoped p \<longleftrightarrow> length (es_ScopeInstrumentIDs p) + length (es_ScopeOrderIDs p) + length (es_ScopeCashComponents p) > 0"

definition EngineState_Validate :: "engine_state_payload \<Rightarrow> err list" where
  "EngineState_Validate p =
     (if es_State p = StateHalted then errIf (EngineState_scoped p) ''a halted state covers the whole engine and names no scope''
      else if es_State p = StateDegraded then errIf (\<not> EngineState_scoped p) ''a degraded state names its scope''
      else [''state is not a recognised engine state''])
     @ ascendingIDs (es_ScopeInstrumentIDs p) @ ascendingIDs (es_ScopeOrderIDs p) @ ascendingIDs (es_ScopeCashComponents p)
     @ (case es_Reason p of OtherStateReason _ \<Rightarrow> [''reason is not a recognised engine state reason''] | _ \<Rightarrow> [])
     @ errIf (es_Detail p = NoDetail) ''detail is required''"

definition EngineState_ValidateSchema :: "engine_state_payload \<Rightarrow> int \<Rightarrow> err list" where
  "EngineState_ValidateSchema p schemaVersion =
     (if schemaVersion = 1 then
        (if es_State p \<noteq> StateHalted \<or> EngineState_scoped p then [''schema version 1 records only halted with no scope'']
         else if es_Reason p \<noteq> EngineStateReasonCampaignWithoutProtectiveStop then [''schema version 1 records only one reason'']
         else EngineState_Validate p)
      else if schemaVersion = EngineStateScopedVersion then EngineState_Validate p
      else [''schema version is not recognised''])"

section \<open>Account snapshots\<close>

record account_position =
  ap_InstrumentID :: string
  ap_Quantity :: int

record account_positions_snapshot =
  aps_QuantityScale :: int
  aps_AccountID :: string
  aps_AsOf :: gotime
  aps_NetLiquidation :: f64
  aps_Currency :: string
  aps_Positions :: "account_position list"

definition AccountSnapshot_Quantity :: "account_positions_snapshot \<Rightarrow> string \<Rightarrow> int" where
  "AccountSnapshot_Quantity p instrumentID =
     (case find (\<lambda>q. ap_InstrumentID q = instrumentID) (aps_Positions p) of None \<Rightarrow> 0 | Some q \<Rightarrow> ap_Quantity q)"

fun accountPositionErrs :: "int \<Rightarrow> string option \<Rightarrow> account_position list \<Rightarrow> err list" where
  "accountPositionErrs scale prev [] = []"
| "accountPositionErrs scale prev (p # ps) =
     (if ap_InstrumentID p = '''' then [''instrument id is required'']
      else errIf (ap_Quantity p = 0 \<or> (scale \<noteq> 0 \<and> ap_Quantity p < 0)) ''quantity must be positive under D7-F and nonzero for legacy''
        @ errIf (case prev of None \<Rightarrow> False | Some y \<Rightarrow> ap_InstrumentID p \<le> y) ''positions must be strictly ascending by instrument'')
     @ accountPositionErrs scale (Some (ap_InstrumentID p)) ps"

definition AccountSnapshot_Validate :: "account_positions_snapshot \<Rightarrow> err list" where
  "AccountSnapshot_Validate p =
     (if scaleErrs (aps_QuantityScale p) \<noteq> [] then scaleErrs (aps_QuantityScale p) else
      errIf (aps_AccountID p = '''') ''account id is required'' @ wholeSecondTime (aps_AsOf p)
      @ errIf (\<not> isFinite (aps_NetLiquidation p) \<or> f_le (aps_NetLiquidation p) (Fin 0)) ''net liquidation must be finite and positive''
      @ errIf (aps_Currency p = '''') ''currency is required''
      @ accountPositionErrs (aps_QuantityScale p) None (aps_Positions p))"

section \<open>Lifecycle reports and fills\<close>

datatype (plugins only: code size) lifecycle_status =
  NoLifecycleStatus | OrderLifecycleStatusSubmitted | OrderLifecycleStatusCancelPending | OrderLifecycleStatusCanceled | OrderLifecycleStatusInvalid
| OtherLifecycleStatus string

record limit_order_lifecycle =
  lc_QuantityScale :: int
  lc_AccountID :: string
  lc_ClientOrderID :: string
  lc_OrderID :: string
  lc_InstrumentID :: string
  lc_Side :: string
  lc_Status :: lifecycle_status
  lc_Quantity :: int
  lc_LimitPrice :: f64
  lc_OccurredAt :: gotime
  lc_Message :: string
  lc_Synthetic :: bool

definition LimitPriceTolerance :: f64 where
  "LimitPriceTolerance = f_lit (5/1000)"

definition SameLimitPrice :: "f64 \<Rightarrow> f64 \<Rightarrow> bool" where
  "SameLimitPrice a b \<longleftrightarrow> f_lt (f_abs (f_sub a b)) LimitPriceTolerance"

definition Lifecycle_Terminal :: "limit_order_lifecycle \<Rightarrow> bool" where
  "Lifecycle_Terminal p \<longleftrightarrow> lc_Status p = OrderLifecycleStatusCanceled \<or> lc_Status p = OrderLifecycleStatusInvalid"

definition Lifecycle_Validate :: "limit_order_lifecycle \<Rightarrow> err list" where
  "Lifecycle_Validate p =
     (if scaleErrs (lc_QuantityScale p) \<noteq> [] then scaleErrs (lc_QuantityScale p) else
      orderIdentity (lc_AccountID p) (lc_ClientOrderID p) (lc_InstrumentID p) (lc_Side p) (lc_Quantity p) (lc_LimitPrice p)
      @ (if lc_Synthetic p \<and> lc_OrderID p \<noteq> '''' then [''a synthetic report names no venue order id'']
         else if lc_Synthetic p \<and> lc_Status p \<noteq> OrderLifecycleStatusCanceled then [''a synthetic report is canceled'']
         else if lc_Synthetic p \<and> lc_Message p = '''' then [''a synthetic report needs a message saying why'']
         else errIf (\<not> lc_Synthetic p \<and> lc_OrderID p = '''') ''order id is required'')
      @ errIf (lc_Status p \<notin> {OrderLifecycleStatusSubmitted, OrderLifecycleStatusCancelPending, OrderLifecycleStatusCanceled, OrderLifecycleStatusInvalid})
          ''status is not submitted, cancel-pending, canceled or invalid''
      @ requiredTime (lc_OccurredAt p))"

record target_weight_fill =
  tf_QuantityScale :: int
  tf_AccountID :: string
  tf_ClientOrderID :: string
  tf_FillID :: string
  tf_InstrumentID :: string
  tf_Side :: string
  tf_Quantity :: int
  tf_Price :: f64
  tf_Commission :: f64
  tf_FilledAt :: gotime

text \<open>Every field equal, floats by Go's \<open>==\<close>; an instant is one value however its offset is written.\<close>

definition SameExecution :: "target_weight_fill \<Rightarrow> target_weight_fill \<Rightarrow> bool" where
  "SameExecution p q \<longleftrightarrow> p = q \<and> f_eq (tf_Price p) (tf_Price q) \<and> f_eq (tf_Commission p) (tf_Commission q)"

definition Fill_Validate :: "target_weight_fill \<Rightarrow> err list" where
  "Fill_Validate p =
     (if scaleErrs (tf_QuantityScale p) \<noteq> [] then scaleErrs (tf_QuantityScale p) else
      orderIdentity (tf_AccountID p) (tf_ClientOrderID p) (tf_InstrumentID p) (tf_Side p) (tf_Quantity p) (Fin 1)
      @ errIf (\<not> isFinite (tf_Price p) \<or> f_le (tf_Price p) (Fin 0)) ''price must be finite and positive''
      @ errIf (tf_FillID p = '''') ''fill id is required''
      @ errIf (\<not> isFinite (tf_Commission p) \<or> f_lt (tf_Commission p) (Fin 0)) ''commission must be finite and not negative''
      @ wholeSecondTime (tf_FilledAt p))"

section \<open>What validation gives\<close>

lemma ascendingFrom_Nil:
  "ascendingFrom prev xs = [] \<longleftrightarrow>
     '''' \<notin> set xs \<and> sorted_wrt (<) xs \<and> (case prev of None \<Rightarrow> True | Some y \<Rightarrow> list_all (\<lambda>x. y < x) xs)"
proof (induction xs arbitrary: prev)
  case Nil
  then show ?case by (simp split: option.splits)
next
  case (Cons x xs)
  then show ?case by (cases prev) (auto simp: list_all_iff not_le intro: less_trans)
qed

lemma ascendingIDs_Nil: "ascendingIDs xs = [] \<longleftrightarrow> '''' \<notin> set xs \<and> strict_asc xs"
  by (auto simp: ascendingIDs_def ascendingFrom_Nil strict_asc_def strict_sorted_iff)

lemma openOrderErrs_remaining: "openOrderErrs prev os = [] \<Longrightarrow> b \<in> set os \<Longrightarrow> 0 < bo_RemainingQuantity b"
  by (induction prev os rule: openOrderErrs.induct) (auto split: if_splits)

lemma BrokerSnapshot_remaining:
  "BrokerSnapshot_Validate s = [] \<Longrightarrow> b \<in> set (rows (bs_OpenOrders s)) \<Longrightarrow> 0 < bo_RemainingQuantity b"
  by (rule openOrderErrs_remaining [of None "rows (bs_OpenOrders s)"]) (auto simp: BrokerSnapshot_Validate_def split: if_splits)

end
