(* ===== verification/Calendar.thy ===== *)
theory Calendar
  imports OrderEvents
begin

text \<open>
  \<open>internal/nysecalendar\<close>: which days are NYSE sessions and when each closes. A civil date is its
  day number, days since 1 January of year 1 (a Monday), so comparing dates by their printed key is
  comparing day numbers. New York's offset from UTC follows the United States rule in force since
  2007: daylight time from the second Sunday of March to the first Sunday of November, 2 a.m. local.
\<close>

section \<open>Civil dates\<close>

definition days_before_year :: "int \<Rightarrow> int" where
  "days_before_year y = (let p = y - 1 in 365 * p + p div 4 - p div 100 + p div 400)"

definition leap_year :: "int \<Rightarrow> bool" where
  "leap_year y \<longleftrightarrow> (y mod 4 = 0 \<and> y mod 100 \<noteq> 0) \<or> y mod 400 = 0"

definition days_before_month :: "int \<Rightarrow> int \<Rightarrow> int" where
  "days_before_month y m = [0, 31, 59, 90, 120, 151, 181, 212, 243, 273, 304, 334, 365] ! nat (m - 1) + (if m > 2 \<and> leap_year y then 1 else 0)"

text \<open>\<open>time.Date\<close> in UTC for a month of the year or the one after it; the day may run over or be zero.\<close>

definition civil :: "int \<Rightarrow> int \<Rightarrow> int \<Rightarrow> int" where
  "civil year month day = days_before_year year + days_before_month year month + day - 1"

text \<open>The year of a date: an estimate within the 400-year cycle that is never late and at most one year early.\<close>

definition year_guess :: "int \<Rightarrow> int" where
  "year_guess d = 400 * (d div 146097) + (d mod 146097) div 366 + 1"

definition year_of :: "int \<Rightarrow> int" where
  "year_of d = (let y = year_guess d in if days_before_year (y + 1) \<le> d then y + 1 else y)"

definition weekday :: "int \<Rightarrow> int" where
  "weekday d = (d + 1) mod 7"

definition nthWeekday :: "int \<Rightarrow> int \<Rightarrow> int \<Rightarrow> int \<Rightarrow> int" where
  "nthWeekday year month wd n = (let first = civil year month 1 in first + (wd - weekday first + 7) mod 7 + 7 * (n - 1))"

definition lastMonday :: "int \<Rightarrow> int \<Rightarrow> int" where
  "lastMonday year month = (let last = civil year (month + 1) 0 in last - (weekday last + 6) mod 7)"

definition easter :: "int \<Rightarrow> int" where
  "easter year = (let a = year mod 19; b = year div 100; c = year mod 100; d = b div 4; e = b mod 4; g = (8 * b + 13) div 25;
     h = (19 * a + b - d - g + 15) mod 30; j = c div 4; k = c mod 4; m = (a + 11 * h) div 319;
     r = (2 * e + 2 * j - k - h + m + 32) mod 7; month = (h - m + r + 90) div 25 in
     civil year month ((h - m + r + month + 19) mod 32))"

definition observed :: "int \<Rightarrow> int" where
  "observed day = (if weekday day = 6 then day - 1 else if weekday day = 0 then day + 1 else day)"

definition special :: "int list" where
  "special = [civil 2025 1 9]"

definition holidays :: "int \<Rightarrow> int list" where
  "holidays year =
     [nthWeekday year 1 1 3, nthWeekday year 2 1 3, easter year - 2, lastMonday year 5, nthWeekday year 9 1 1, nthWeekday year 11 4 4,
      observed (civil year 7 4), observed (civil year 12 25), observed (civil year 6 19)]
     @ (if weekday (civil year 1 1) \<noteq> 6 then [observed (civil year 1 1)] else [])
     @ filter (\<lambda>d. year_of d = year) special"

definition earlyClose :: "int \<Rightarrow> bool" where
  "earlyClose day \<longleftrightarrow> (let y = year_of day in
     day = nthWeekday y 11 4 4 + 1 \<or>
     list_ex (\<lambda>(m, d). civil y m d = day \<and> 1 \<le> weekday (civil y m d) \<and> weekday (civil y m d) \<le> 4) [(7, 3), (12, 24)])"

section \<open>New York\<close>

definition hour_ns :: int where
  "hour_ns = 3600000000000"

text \<open>The offset in force at an instant, in nanoseconds: daylight time starts at 07:00 UTC and ends at 06:00 UTC.\<close>

definition nyOffset :: "gotime \<Rightarrow> int" where
  "nyOffset t = (let y = year_of (t div day_ns) in
     if nthWeekday y 3 0 2 * day_ns + 7 * hour_ns \<le> t \<and> t < nthWeekday y 11 0 1 * day_ns + 6 * hour_ns
     then - 4 * hour_ns else - 5 * hour_ns)"

definition nyDay :: "gotime \<Rightarrow> int" where
  "nyDay t = (t + nyOffset t) div day_ns"

text \<open>\<open>time.Date(\<dots>, NewYork)\<close>: the offset looked up as if local were UTC, then corrected at the instant it gives.\<close>

definition nyDate :: "int \<Rightarrow> int \<Rightarrow> gotime" where
  "nyDate d hour = (let u = d * day_ns + hour * hour_ns in u - nyOffset (u - nyOffset u))"

section \<open>Sessions\<close>

definition firstYear :: int where
  "firstYear = 2022"

definition lastYear :: int where
  "lastYear = 2030"

definition IsTradingDay :: "int \<Rightarrow> (err, bool) result" where
  "IsTradingDay d = failIf (year_of d < firstYear \<or> year_of d > lastYear) ''no NYSE calendar for that year''
     (Inr (weekday d \<noteq> 6 \<and> weekday d \<noteq> 0 \<and> d \<notin> set (holidays (year_of d))))"

definition closeOf :: "int \<Rightarrow> gotime" where
  "closeOf d = nyDate d (if earlyClose d then 13 else 16)"

definition SessionClose :: "int \<Rightarrow> (err, gotime) result" where
  "SessionClose d = bindr (IsTradingDay d) (\<lambda>trading. failIf (\<not> trading) ''is not an NYSE trading day'' (Inr (closeOf d)))"

text \<open>The loop of \<open>Closes\<close> over the dates from \<open>d\<close>, \<open>k\<close> of them left.\<close>

primrec closes_loop :: "gotime \<Rightarrow> gotime \<Rightarrow> nat \<Rightarrow> int \<Rightarrow> int \<Rightarrow> gotime \<Rightarrow> (err, int \<times> gotime) result" where
  "closes_loop after through 0 d n latest = Inr (n, latest)"
| "closes_loop after through (Suc k) d n latest =
     bindr (IsTradingDay d) (\<lambda>trading.
       let c = closeOf d in
       if trading \<and> c > after \<and> \<not> c > through then closes_loop after through k (d + 1) (n + 1) c
       else closes_loop after through k (d + 1) n latest)"

definition Closes :: "gotime \<Rightarrow> gotime \<Rightarrow> (err, int \<times> gotime) result" where
  "Closes after through = (if \<not> through > after then Inr (0, 0)
     else closes_loop after through (nat (nyDay through - nyDay after + 1)) (nyDay after) 0 0)"

section \<open>What the calendar says\<close>

lemma closes_loop_counts:
  assumes "closes_loop after through k d n latest = Inr (m, c)"
  shows "m = n + int (length (filter (\<lambda>e. IsTradingDay e = Inr True \<and> closeOf e > after \<and> closeOf e \<le> through) [d..d + int k - 1])) \<and>
    list_all (\<lambda>e. firstYear \<le> year_of e \<and> year_of e \<le> lastYear) [d..d + int k - 1]"
  using assms
proof (induction k arbitrary: d n latest)
  case (Suc k)
  have up: "[d..d + int (Suc k) - 1] = d # [d + 1..d + 1 + int k - 1]"
    using upto_rec1 [of d "d + int (Suc k) - 1"] by (simp add: algebra_simps)
  obtain t where t: "IsTradingDay d = Inr t" using Suc.prems by (auto simp: go_bind)
  have y: "firstYear \<le> year_of d \<and> year_of d \<le> lastYear" using t by (auto simp: IsTradingDay_def split: if_splits)
  show ?case
  proof (cases "t \<and> closeOf d > after \<and> \<not> closeOf d > through")
    case True
    then have "closes_loop after through k (d + 1) (n + 1) (closeOf d) = Inr (m, c)"
      using Suc.prems t by (simp add: Let_def)
    from Suc.IH [OF this] show ?thesis using True t y unfolding up by auto
  next
    case False
    then have "closes_loop after through k (d + 1) n latest = Inr (m, c)"
      using Suc.prems t by (auto simp: Let_def split: if_splits)
    from Suc.IH [OF this] show ?thesis using False t y unfolding up by auto
  qed
qed simp

text \<open>C21: A successful count of session closes is exactly the number of NYSE sessions, over the New York
  dates of the span, whose close lies after its start and no later than its end; a span that touches a
  year the calendar does not cover never gives a count.\<close>

theorem Closes_counts_sessions:
  assumes "Closes after through = Inr (n, latest)" "after < through"
  shows "n = int (length (filter (\<lambda>d. IsTradingDay d = Inr True \<and> after < closeOf d \<and> closeOf d \<le> through)
      [nyDay after..nyDay through])) \<and>
    list_all (\<lambda>d. firstYear \<le> year_of d \<and> year_of d \<le> lastYear) [nyDay after..nyDay through]"
proof -
  have l: "closes_loop after through (nat (nyDay through - nyDay after + 1)) (nyDay after) 0 0 = Inr (n, latest)"
    using assms by (simp add: Closes_def)
  show ?thesis
  proof (cases "nyDay after \<le> nyDay through")
    case True
    then show ?thesis using closes_loop_counts [OF l] by simp
  next
    case False
    then show ?thesis using l by simp
  qed
qed

text \<open>Good Friday 2026 and the weekend after it: one session, Monday's, closes by Monday evening.\<close>

theorem Closes_counts_sessions_witness:
  "length (filter (\<lambda>d. IsTradingDay d = Inr True \<and> nyDate (civil 2026 4 2) 18 < closeOf d \<and> closeOf d \<le> nyDate (civil 2026 4 6) 17)
     [nyDay (nyDate (civil 2026 4 2) 18)..nyDay (nyDate (civil 2026 4 6) 17)]) = 1"
proof -
  have c: "Closes (nyDate (civil 2026 4 2) 18) (nyDate (civil 2026 4 6) 17) = Inr (1, nyDate (civil 2026 4 6) 16)" by code_simp
  have o: "nyDate (civil 2026 4 2) 18 < nyDate (civil 2026 4 6) 17" by code_simp
  from Closes_counts_sessions [OF c o] show ?thesis by simp
qed

end
