(* ===== verification/ReconcileEvents.thy ===== *)
theory ReconcileEvents
  imports OrderOutcomes Calendar
begin

text \<open>
  The inputs and the result of a reconciliation, with their validators: \<open>event/reconciliation.go\<close>,
  \<open>event/cash_movement.go\<close>, \<open>event/corporate_action.go\<close>, the Flex reader's status of \<open>event/flex.go\<close>
  and the cash snapshot of \<open>event/target_weight_ira_inputs.go\<close>. As in \<open>OrderEvents\<close>, a validator is
  the list of the messages it joins, and a message that other code compares or that must not be empty is
  a value of a datatype with one constructor per format string, carrying the arguments it prints.
\<close>

section \<open>Why a figure or a comparison fails\<close>

text \<open>The errors of the cent and share arithmetic. \<open>NoDecimalFigure\<close> stands for the panic of \<open>decimal\<close>
  on a figure that is not finite, which no validated payload carries.\<close>

datatype (plugins only: code size) cents_error =
  MoreCentsThanABook rat | CentsSum int int | CentsDifference int int | NoDecimalFigure

datatype (plugins only: code size) shares_error =
  SharesSum int int | NoSplitRatio int int | DiscardsTick | SplitTooLarge int int int

datatype (plugins only: code size) cash_fault =
  NoCashFault | FillFault string "cents_error list" | CorporateActionFault string cents_error | CashMovementFault string cents_error

datatype (plugins only: code size) recon_reason =
  RPositionsUnread | RNoBook | RScalesDiffer | RPrecedesBook gotime gotime | RBookFault cents_error
| RCashUnread | RCashCurrency string string | RObservedCash cents_error | RCloseNotKnown gotime err
| RCannotApply string string string | RPaysCashIn string string string | RCashFault cash_fault
| RExpectedCash string cents_error | RFillScale string int int | RExpectedShares string string shares_error
| RResidual string cents_error | RScaleRefused int int

section \<open>Observations\<close>

definition ReconciliationTriggerMorning :: string where
  "ReconciliationTriggerMorning = ''morning''"

definition ReconciliationComponentCash :: string where
  "ReconciliationComponentCash = ''total-cash''"

definition ReconciliationComponentPositions :: string where
  "ReconciliationComponentPositions = ''positions''"

definition ReconciliationComponentPosition :: string where
  "ReconciliationComponentPosition = ''position''"

lemma component_distinct [simp]:
  "ReconciliationComponentPosition \<noteq> ReconciliationComponentCash" "ReconciliationComponentCash \<noteq> ReconciliationComponentPosition"
  by (simp_all add: ReconciliationComponentPosition_def ReconciliationComponentCash_def)

record reconciliation_payload =
  rp_QuantityScale :: int
  rp_AccountID :: string
  rp_ReconciliationID :: string
  rp_Trigger :: string
  rp_AsOf :: gotime
  rp_Unreadable :: "string list"
  rp_Positions :: "account_position list option"
  rp_TotalCash :: f64
  rp_Currency :: string

definition ReconReadable :: "reconciliation_payload \<Rightarrow> string \<Rightarrow> bool" where
  "ReconReadable p component \<longleftrightarrow> component \<notin> set (rp_Unreadable p)"

fun reconUnreadableErrs :: "string option \<Rightarrow> string list \<Rightarrow> err list" where
  "reconUnreadableErrs prev [] = []"
| "reconUnreadableErrs prev (c # cs) =
     errIf (c \<noteq> ReconciliationComponentCash \<and> c \<noteq> ReconciliationComponentPositions) ''unreadable component is not recognised''
     @ errIf (case prev of None \<Rightarrow> False | Some y \<Rightarrow> c \<le> y) ''unreadable components must be strictly ascending''
     @ reconUnreadableErrs (Some c) cs"

definition Reconciliation_Validate :: "reconciliation_payload \<Rightarrow> err list" where
  "Reconciliation_Validate p =
     (if scaleErrs (rp_QuantityScale p) \<noteq> [] then scaleErrs (rp_QuantityScale p) else
      errIf (rp_AccountID p = '''') ''account id is required''
      @ errIf (rp_ReconciliationID p = '''') ''reconciliation id is required''
      @ errIf (rp_Trigger p \<noteq> ReconciliationTriggerMorning) ''trigger is not morning''
      @ wholeSecondTime (rp_AsOf p)
      @ reconUnreadableErrs None (rp_Unreadable p)
      @ (if \<not> ReconReadable p ReconciliationComponentPositions \<and> rows (rp_Positions p) \<noteq> [] then [''unreadable positions carry no rows'']
         else errIf (ReconReadable p ReconciliationComponentPositions \<and> rp_Positions p = None) ''readable positions must be stated'')
      @ accountPositionErrs (rp_QuantityScale p) None (rows (rp_Positions p))
      @ (if \<not> ReconReadable p ReconciliationComponentCash \<and> (f_ne (rp_TotalCash p) (Fin 0) \<or> rp_Currency p \<noteq> '''')
         then [''an unreadable total cash carries no value'']
         else if ReconReadable p ReconciliationComponentCash \<and> \<not> isFinite (rp_TotalCash p) then [''total cash must be finite'']
         else errIf (ReconReadable p ReconciliationComponentCash \<and> rp_Currency p = '''') ''a readable total cash names its currency''))"

section \<open>Results\<close>

datatype (plugins only: code size) classification =
  ReconciliationMatched | ReconciliationExplained | ReconciliationUnexplained | ReconciliationUnverifiable
| ReconciliationPendingCashRead | OtherClassification string

definition PendingCashReadSessions :: int where
  "PendingCashReadSessions = 2"

datatype (plugins only: code size) recon_action =
  ReconciliationActionContinue | ReconciliationActionDegrade | ReconciliationActionHalt | ReconciliationActionAlert | OtherAction string

record recon_component =
  rc_Component :: string
  rc_InstrumentID :: string
  rc_Book :: int
  rc_Expected :: int
  rc_Observed :: int
  rc_Residual :: int
  rc_Explanations :: "string list"
  rc_Explained :: bool

text \<open>The parts a cash difference states, and the notes and sentences a result's detail is made of.\<close>

record cash_parts =
  cp_fills :: int
  cp_commissions :: int
  cp_dividends :: int
  cp_inLieu :: int
  cp_transfers :: int
  cp_transferred :: bool

datatype (plugins only: code size) overdrawn_note = WithdrawalBeyondCash string int int

datatype (plugins only: code size) recon_difference =
  CashDifference cash_parts int int int int string "overdrawn_note list"
| PositionDifference string int int int int

datatype (plugins only: code size) cash_note = NetCashLimit | BookStatesNoCash | HoldingsOfCloseSnapshot string

datatype (plugins only: code size) transfers_error =
  TransferFault cash_fault | TransferCurrency string string string | TransferSum cents_error

datatype (plugins only: code size) undecided_cause =
  TransfersNotSummed transfers_error | ReaderCovered gotime | SessionsNotCounted err | SessionsClosed int int

datatype (plugins only: code size) state_clause = StaysNormal | StaysDegradedOn "string list" | StaysHalted

datatype (plugins only: code size) flex_state =
  FlexStateRunning | FlexStateRead | FlexStateSetAside | FlexStateCoverageGap | FlexStateAmbiguousTransfer | OtherFlexState string

datatype (plugins only: code size) recon_detail =
  NoReconDetail
| UnverifiableDetail "recon_reason list"
| UnexplainedDetail "recon_difference list" cash_note
| UnexplainedHoldingsDetail "recon_difference list" cash_note
| ExplainedDetail int string cash_note
| MatchedDetail string cash_note
| PendingDetail "(string \<times> string) option" recon_detail flex_state gotime string int string state_clause gotime
| SettledDetail int string string "string list"
| UndecidedDetail string int string "string list" undecided_cause

record recon_result =
  rr_QuantityScale :: int
  rr_AccountID :: string
  rr_ReconciliationID :: string
  rr_InputID :: string
  rr_AnchorID :: string
  rr_Classification :: classification
  rr_Action :: recon_action
  rr_CashCompared :: bool
  rr_Currency :: string
  rr_Components :: "recon_component list"
  rr_Unverifiable :: "recon_reason list"
  rr_ScopeInstrumentIDs :: "string list"
  rr_ScopeCashComponents :: "string list"
  rr_Detail :: recon_detail
  rr_RepeatOf :: string

definition componentErrs :: "recon_result \<Rightarrow> recon_component \<Rightarrow> err list" where
  "componentErrs p c =
     (if rc_Component c = ReconciliationComponentPosition then errIf (rc_InstrumentID c = '''') ''a position names its instrument''
      else if rc_Component c = ReconciliationComponentCash then
        errIf (\<not> rr_CashCompared p \<or> rc_InstrumentID c \<noteq> '''') ''a cash component is listed only when cash is compared, and names no instrument''
      else [''component is not position or total-cash''])
     @ errIf (rc_Residual c \<noteq> sub64 (rc_Observed c) (rc_Expected c)) ''residual must be observed less expected''
     @ errIf (rc_Explained c \<and> rc_Residual c \<noteq> 0) ''a component with a residual is not explained''
     @ concat (map (\<lambda>e. errIf (e = '''') ''an explanation names its event'') (rc_Explanations c))"

definition unexplainedIDs :: "recon_component list \<Rightarrow> string list" where
  "unexplainedIDs cs = map rc_InstrumentID (filter (\<lambda>c. \<not> rc_Explained c \<and> rc_Component c \<noteq> ReconciliationComponentCash) cs)"

definition unexplainedCash :: "recon_component list \<Rightarrow> string list" where
  "unexplainedCash cs = map rc_Component (filter (\<lambda>c. \<not> rc_Explained c \<and> rc_Component c = ReconciliationComponentCash) cs)"

definition classificationErrs :: "recon_result \<Rightarrow> err list" where
  "classificationErrs p = (let ids = unexplainedIDs (rr_Components p); cash = unexplainedCash (rr_Components p);
       explanations = sum_list (map (\<lambda>c. length (rc_Explanations c)) (rr_Components p));
       unexplained = (length ids + length cash > 0);
       scoped = (length (rr_ScopeInstrumentIDs p) + length (rr_ScopeCashComponents p) > 0) in
     if rr_Classification p = ReconciliationMatched \<or> rr_Classification p = ReconciliationExplained then
       errIf (rr_Action p \<noteq> ReconciliationActionContinue) ''action does not follow a result that continues''
       @ errIf unexplained ''a result that continues has every component explained''
       @ errIf (rr_Classification p = ReconciliationMatched \<and> explanations > 0) ''a matched result applies no explanation''
       @ errIf scoped ''a result that continues names no scope''
     else if rr_Classification p = ReconciliationUnexplained then
       errIf (rr_Action p \<noteq> ReconciliationActionDegrade) ''action does not follow unexplained, which degrades''
       @ errIf (\<not> scoped \<or> rr_ScopeInstrumentIDs p \<noteq> ids \<or> rr_ScopeCashComponents p \<noteq> cash)
           ''an unexplained result's scope is exactly its unexplained components, and is never empty''
     else if rr_Classification p = ReconciliationPendingCashRead then
       errIf (rr_Action p \<noteq> ReconciliationActionAlert) ''action does not follow pending-cash-read, which alerts''
       @ errIf (cash \<noteq> [ReconciliationComponentCash] \<or> ids \<noteq> []) ''a pending cash read is a difference in cash alone''
       @ errIf scoped ''a pending cash read moves no state and names no scope''
     else if rr_Classification p = ReconciliationUnverifiable then
       errIf (rr_Action p \<noteq> ReconciliationActionHalt) ''action does not follow unverifiable, which halts''
       @ errIf (rr_Unverifiable p = []) ''an unverifiable result names its reasons''
       @ errIf scoped ''a halt covers the whole account and names no scope''
     else [''classification is not recognised''])"

definition ReconResult_Validate :: "recon_result \<Rightarrow> err list" where
  "ReconResult_Validate p =
     (if scaleErrs (rr_QuantityScale p) \<noteq> [] then scaleErrs (rr_QuantityScale p) else
      errIf (rr_AccountID p = '''') ''account id is required''
      @ errIf (rr_ReconciliationID p = '''') ''reconciliation id is required''
      @ errIf (rr_InputID p = '''') ''input id is required''
      @ errIf (rr_Detail p = NoReconDetail) ''detail is required''
      @ errIf (rr_CashCompared p = (rr_Currency p = '''')) ''a cash comparison names its currency, and only a cash comparison does''
      @ concat (map (componentErrs p) (rr_Components p))
      @ ascendingIDs (rr_ScopeInstrumentIDs p)
      @ classificationErrs p
      @ (if rr_RepeatOf p \<noteq> '''' then
           errIf (rr_Classification p = ReconciliationMatched \<or> rr_Classification p = ReconciliationUnverifiable)
             ''a result is no repeat of a pending cash difference''
           @ errIf (rr_RepeatOf p = rr_InputID p) ''a repeat names an earlier reading, not its own input''
         else [])
      @ errIf (rr_Classification p \<noteq> ReconciliationUnverifiable \<and> rr_Unverifiable p \<noteq> []) ''only an unverifiable result names unverifiable reasons'')"

section \<open>Acknowledgements\<close>

record alert_acknowledged =
  aa_AccountID :: string
  aa_AlertKey :: string
  aa_AcknowledgedBy :: string
  aa_AcknowledgedAt :: gotime
  aa_Detail :: string

definition AlertAcknowledged_Validate :: "alert_acknowledged \<Rightarrow> err list" where
  "AlertAcknowledged_Validate p =
     errIf (aa_AccountID p = '''') ''account id is required'' @ errIf (aa_AlertKey p = '''') ''alert key is required''
     @ errIf (aa_AcknowledgedBy p = '''') ''acknowledged by is required'' @ requiredTime (aa_AcknowledgedAt p)"

section \<open>Cash snapshots and cash movements\<close>

record account_cash_snapshot = account_positions_snapshot +
  acs_SettledCash :: f64
  acs_TotalCash :: f64

definition AccountCashSnapshot_Validate :: "account_cash_snapshot \<Rightarrow> err list" where
  "AccountCashSnapshot_Validate p = AccountSnapshot_Validate (account_positions_snapshot.truncate p)
     @ errIf (\<not> isFinite (acs_SettledCash p) \<or> \<not> isFinite (acs_TotalCash p)) ''settled and total cash must be finite''"

definition EquityBeforeNextSnapshotLessAmount :: string where
  "EquityBeforeNextSnapshotLessAmount = ''next-snapshot-less-amount''"

definition EquityBeforeSameDaySnapshotLessAmount :: string where
  "EquityBeforeSameDaySnapshotLessAmount = ''same-day-snapshot-less-amount''"

record cash_movement =
  cm_AsOf :: gotime
  cm_Amount :: f64
  cm_EquityBefore :: f64
  cm_Currency :: string
  cm_TransactionID :: string
  cm_EquityBeforeBasis :: string

definition CashMovement_Validate :: "cash_movement \<Rightarrow> err list" where
  "CashMovement_Validate p =
     requiredTime (cm_AsOf p)
     @ (if \<not> isFinite (cm_Amount p) then [''amount must be finite''] else errIf (f_eq (cm_Amount p) (Fin 0)) ''amount must be non-zero'')
     @ (if \<not> isFinite (cm_EquityBefore p) then [''equity before must be finite'']
        else errIf (f_le (cm_EquityBefore p) (Fin 0)) ''equity before must be positive'')
     @ (if isFinite (cm_Amount p) \<and> isFinite (cm_EquityBefore p) then
          (let equityAfter = f_add (cm_EquityBefore p) (cm_Amount p) in
           if \<not> isFinite equityAfter then [''equity before plus amount is not finite'']
           else errIf (f_le equityAfter (Fin 0)) ''a withdrawal would take equity to zero or below'')
        else [])
     @ errIf (cm_Currency p = '''') ''currency is required''"

definition CashMovementSchemaVersion :: int where
  "CashMovementSchemaVersion = 1"

definition CashMovementTransferVersion :: int where
  "CashMovementTransferVersion = 2"

definition CashMovement_ValidateSchema :: "cash_movement \<Rightarrow> int \<Rightarrow> err list" where
  "CashMovement_ValidateSchema p version =
     (if CashMovement_Validate p \<noteq> [] then CashMovement_Validate p
      else if version = CashMovementSchemaVersion then
        (if cm_TransactionID p \<noteq> '''' then [''version 1 carries no transaction id'']
         else errIf (cm_EquityBeforeBasis p \<noteq> '''') ''version 1 carries no equity before basis'')
      else if version = CashMovementTransferVersion then
        (if cm_TransactionID p = '''' then [''transaction id is required at version 2'']
         else errIf (cm_EquityBeforeBasis p \<notin> {'''', EquityBeforeNextSnapshotLessAmount, EquityBeforeSameDaySnapshotLessAmount})
           ''equity before basis is not recognised'')
      else [''schema version is not recognised''])"

section \<open>Corporate actions\<close>

definition CorporateActionKindDelisting :: string where
  "CorporateActionKindDelisting = ''delisting''"

definition CorporateActionKindSplit :: string where
  "CorporateActionKindSplit = ''split''"

definition CorporateActionKindSymbolChange :: string where
  "CorporateActionKindSymbolChange = ''symbol-change''"

definition CorporateActionKindDividend :: string where
  "CorporateActionKindDividend = ''dividend''"

record corporate_action =
  ca_InstrumentID :: string
  ca_Kind :: string
  ca_EffectiveAt :: gotime
  ca_NewShares :: int
  ca_OldShares :: int
  ca_EngineSharesPerRawShare :: int
  ca_RawSharesLost :: int
  ca_CashInLieu :: f64
  ca_Currency :: string
  ca_NewInstrumentID :: string
  ca_CashAmount :: f64

definition hasSplitOnlyTerms :: "corporate_action \<Rightarrow> bool" where
  "hasSplitOnlyTerms p \<longleftrightarrow> ca_NewShares p \<noteq> 0 \<or> ca_OldShares p \<noteq> 0 \<or> ca_EngineSharesPerRawShare p \<noteq> 0 \<or>
     ca_RawSharesLost p \<noteq> 0 \<or> f_ne (ca_CashInLieu p) (Fin 0)"

definition symbolChangeTermErrors :: "corporate_action \<Rightarrow> err list" where
  "symbolChangeTermErrors p =
     (if ca_NewInstrumentID p = '''' then [''new instrument id is required for a symbol change'']
      else errIf (ca_NewInstrumentID p = ca_InstrumentID p) ''a symbol change must name a different instrument'')"

definition dividendTermErrors :: "corporate_action \<Rightarrow> err list" where
  "dividendTermErrors p =
     errIf (\<not> isFinite (ca_CashAmount p) \<or> f_le (ca_CashAmount p) (Fin 0)) ''cash amount must be positive and finite''
     @ errIf (ca_Currency p = '''') ''currency is required for a dividend''"

definition splitRatioErrors :: "int \<Rightarrow> int \<Rightarrow> int \<Rightarrow> err list" where
  "splitRatioErrors newShares oldShares enginePerRaw =
     errIf (newShares < 1) ''new shares must be a positive whole number''
     @ errIf (oldShares < 1) ''old shares must be a positive whole number''
     @ errIf (newShares \<ge> 1 \<and> newShares = oldShares) ''a split changes no share''
     @ errIf (enginePerRaw < 1) ''engine shares per raw share must be a positive whole number''"

definition splitTermErrors :: "corporate_action \<Rightarrow> err list" where
  "splitTermErrors p =
     splitRatioErrors (ca_NewShares p) (ca_OldShares p) (ca_EngineSharesPerRawShare p)
     @ errIf (ca_RawSharesLost p < 0) ''raw shares lost must not be negative''
     @ (if \<not> isFinite (ca_CashInLieu p) \<or> f_lt (ca_CashInLieu p) (Fin 0) then [''cash in lieu must be finite and not negative'']
        else errIf (ca_RawSharesLost p > 0 \<and> f_eq (ca_CashInLieu p) (Fin 0)) ''a share lost with no cash in lieu paid'')
     @ errIf (ca_Currency p = '''') ''currency is required for a split''"

definition CorporateAction_Validate :: "corporate_action \<Rightarrow> err list" where
  "CorporateAction_Validate p =
     errIf (ca_InstrumentID p = '''') ''instrument id is required''
     @ (if ca_Kind p = CorporateActionKindDelisting then
          errIf (hasSplitOnlyTerms p \<or> ca_Currency p \<noteq> '''') ''a delisting carries no split terms''
          @ errIf (ca_NewInstrumentID p \<noteq> '''' \<or> f_ne (ca_CashAmount p) (Fin 0)) ''a delisting carries no symbol change or dividend terms''
        else if ca_Kind p = CorporateActionKindSplit then
          errIf (ca_NewInstrumentID p \<noteq> '''' \<or> f_ne (ca_CashAmount p) (Fin 0)) ''a split carries no symbol change or dividend terms''
          @ splitTermErrors p
        else if ca_Kind p = CorporateActionKindSymbolChange then
          errIf (hasSplitOnlyTerms p \<or> ca_Currency p \<noteq> '''' \<or> f_ne (ca_CashAmount p) (Fin 0)) ''a symbol change carries no split or dividend terms''
          @ symbolChangeTermErrors p
        else if ca_Kind p = CorporateActionKindDividend then
          errIf (hasSplitOnlyTerms p \<or> ca_NewInstrumentID p \<noteq> '''') ''a dividend carries no split or symbol change terms''
          @ dividendTermErrors p
        else [''kind is not a recognised corporate action kind''])
     @ requiredTime (ca_EffectiveAt p)"

section \<open>The Flex reader's status\<close>

text \<open>\<open>time.Parse("20060102", s)\<close>: four digits of year, two of month and two of day, the day in its month.\<close>

definition month_days :: "int \<Rightarrow> int \<Rightarrow> int" where
  "month_days y mo = days_before_month y (mo + 1) - days_before_month y mo"

definition parsesDay8 :: "string \<Rightarrow> bool" where
  "parsesDay8 s \<longleftrightarrow> length s = 8 \<and> list_all isDigit s \<and>
     (let y = int (digitsVal (take 4 s)); mo = int (digitsVal (take 2 (drop 4 s))); d = int (digitsVal (drop 6 s)) in
      1 \<le> mo \<and> mo \<le> 12 \<and> 1 \<le> d \<and> d \<le> (if mo = 12 then 31 else month_days y mo))"

text \<open>\<open>Format("20060102")\<close> of a civil date of a year from 0 to 9999.\<close>

definition month_of :: "int \<Rightarrow> int" where
  "month_of d = (let y = year_of d; k = d - days_before_year y in
     int (length (filter (\<lambda>mo. days_before_month y mo \<le> k) [1..12])))"

definition pad2 :: "nat \<Rightarrow> string" where
  "pad2 n = [digitChar (n div 10 mod 10), digitChar (n mod 10)]"

definition formatDay8 :: "int \<Rightarrow> string" where
  "formatDay8 d = (let y = year_of d; mo = month_of d in
     pad4 (nat y) @ pad2 (nat mo) @ pad2 (nat (d - days_before_year y - days_before_month y mo + 1)))"

record flex_status =
  fx_AccountID :: string
  fx_State :: flex_state
  fx_CheckedAt :: gotime
  fx_CoveredTo :: string

definition FlexStatus_Validate :: "flex_status \<Rightarrow> err list" where
  "FlexStatus_Validate p =
     errIf (fx_AccountID p = '''') ''account id is required''
     @ (case fx_State p of
          FlexStateRead \<Rightarrow> errIf (\<not> parsesDay8 (fx_CoveredTo p)) ''a reading that read states the day it covered to as yyyymmdd''
        | OtherFlexState _ \<Rightarrow> [''state is not one the Flex reader writes'']
        | _ \<Rightarrow> errIf (fx_CoveredTo p \<noteq> '''') ''the status states no day covered'')
     @ wholeSecondTime (fx_CheckedAt p)"

definition FlexStatus_Covers :: "flex_status \<Rightarrow> gotime \<Rightarrow> bool" where
  "FlexStatus_Covers p t \<longleftrightarrow> fx_State p = FlexStateRead \<and> formatDay8 (nyDay t) \<le> fx_CoveredTo p"

end
