(* ===== verification/AccountEvents.thy ===== *)
theory AccountEvents
  imports Sizing ReconcileEvents
begin

text \<open>
  The events of the Turtle account (\<open>event/account.go\<close>, \<open>drawdown.go\<close>, \<open>rebase.go\<close>, \<open>recovery.go\<close>,
  \<open>cash_adjusted.go\<close>): the snapshot the account is read from and the four decisions the Notional Account journals,
  with their validators. A payload is valid when its error list is empty.
\<close>

text \<open>A figure of money: finite and positive.\<close>

definition figureErrs :: "f64 \<Rightarrow> err list" where
  "figureErrs v = (if \<not> isFinite v then [''must be finite''] else errIf (f_le v (Fin 0)) ''must be positive'')"

lemma figureErrs_Nil: "figureErrs v = [] \<longleftrightarrow> (\<exists>r. v = Fin r \<and> 0 < r)"
  by (cases v) (auto simp: figureErrs_def)

definition ruleErrs :: "string \<Rightarrow> string \<Rightarrow> err list" where
  "ruleErrs rule adr = errIf (rule = '''') ''rule is required'' @ errIf (adr = '''') ''adr is required''"

record account_snapshot =
  as_AsOf :: gotime
  as_Equity :: f64
  as_AvailableCash :: f64
  as_Currency :: string
  as_availableCashMissing :: bool

definition Snapshot_Validate :: "account_snapshot \<Rightarrow> err list" where
  "Snapshot_Validate p =
     requiredTime (as_AsOf p) @ figureErrs (as_Equity p)
     @ (if as_availableCashMissing p then [''available cash is required'']
        else if \<not> isFinite (as_AvailableCash p) then [''available cash must be finite'']
        else errIf (f_lt (as_AvailableCash p) (Fin 0)) ''available cash must not be negative'')
     @ errIf (as_Currency p = '''') ''currency is required''"

record drawdown_step_applied =
  ds_AsOf :: gotime
  ds_Equity :: f64
  ds_Threshold :: f64
  ds_NotionalBefore :: f64
  ds_NotionalAfter :: f64
  ds_StepNumber :: int
  ds_Rule :: string
  ds_ADR :: string

definition RuleNotionalAccountDrawdownStep :: string where
  "RuleNotionalAccountDrawdownStep = ''notional-account.drawdown-step''"

definition ADRNotionalAccountDrawdownStep :: string where
  "ADRNotionalAccountDrawdownStep = ''0007''"

definition DrawdownStep_Validate :: "drawdown_step_applied \<Rightarrow> err list" where
  "DrawdownStep_Validate p = (let (derived, ok) = DrawdownSteppedNotional (ds_NotionalBefore p) in
     requiredTime (ds_AsOf p) @ figureErrs (ds_Equity p) @ figureErrs (ds_Threshold p)
     @ figureErrs (ds_NotionalBefore p) @ figureErrs (ds_NotionalAfter p)
     @ (if isFinite (ds_NotionalBefore p) \<and> isFinite (ds_NotionalAfter p)
        then errIf (f_le (ds_NotionalBefore p) (ds_NotionalAfter p)) ''notional after must be strictly below notional before''
          @ errIf (\<not> ok \<or> f_ne (ds_NotionalAfter p) derived) ''notional after does not match the derivation''
        else [])
     @ errIf (isFinite (ds_Equity p) \<and> isFinite (ds_Threshold p) \<and> f_lt (ds_Threshold p) (ds_Equity p)) ''equity exceeds threshold''
     @ errIf (ds_StepNumber p < 1) ''step number must be a positive count''
     @ ruleErrs (ds_Rule p) (ds_ADR p))"

record account_rebased =
  rb_AsOf :: gotime
  rb_PreviousStartingFigure :: f64
  rb_NewStartingFigure :: f64
  rb_Equity :: f64
  rb_Rule :: string
  rb_ADR :: string

definition RuleNotionalAccountRebase :: string where
  "RuleNotionalAccountRebase = ''notional-account.rebase''"

definition ADRNotionalAccountRebase :: string where
  "ADRNotionalAccountRebase = ''0007''"

definition Rebased_Validate :: "account_rebased \<Rightarrow> err list" where
  "Rebased_Validate p =
     requiredTime (rb_AsOf p) @ figureErrs (rb_PreviousStartingFigure p) @ figureErrs (rb_NewStartingFigure p) @ figureErrs (rb_Equity p)
     @ errIf (isFinite (rb_NewStartingFigure p) \<and> isFinite (rb_Equity p) \<and> f_ne (rb_NewStartingFigure p) (rb_Equity p))
         ''new starting figure must equal equity exactly''
     @ ruleErrs (rb_Rule p) (rb_ADR p)"

record account_recovered =
  rcv_AsOf :: gotime
  rcv_Equity :: f64
  rcv_StartingFigure :: f64
  rcv_NotionalBefore :: f64
  rcv_StepsCleared :: int
  rcv_Rule :: string
  rcv_ADR :: string

definition RuleNotionalAccountRecovery :: string where
  "RuleNotionalAccountRecovery = ''notional-account.recovery''"

definition ADRNotionalAccountRecovery :: string where
  "ADRNotionalAccountRecovery = ''0007''"

definition Recovered_Validate :: "account_recovered \<Rightarrow> err list" where
  "Recovered_Validate p =
     requiredTime (rcv_AsOf p) @ figureErrs (rcv_Equity p) @ figureErrs (rcv_StartingFigure p) @ figureErrs (rcv_NotionalBefore p)
     @ errIf (isFinite (rcv_NotionalBefore p) \<and> isFinite (rcv_StartingFigure p) \<and> f_le (rcv_StartingFigure p) (rcv_NotionalBefore p))
         ''notional before must be strictly below starting figure''
     @ errIf (isFinite (rcv_Equity p) \<and> isFinite (rcv_StartingFigure p) \<and> f_lt (rcv_Equity p) (rcv_StartingFigure p))
         ''equity must be at or above starting figure''
     @ errIf (rcv_StepsCleared p < 1) ''steps cleared must be a positive count''
     @ ruleErrs (rcv_Rule p) (rcv_ADR p)"

record account_cash_adjusted =
  cj_AsOf :: gotime
  cj_Amount :: f64
  cj_EquityBefore :: f64
  cj_EquityAfter :: f64
  cj_StartingFigureBefore :: f64
  cj_StartingFigureAfter :: f64
  cj_NotionalBefore :: f64
  cj_NotionalAfter :: f64
  cj_Rule :: string
  cj_ADR :: string

definition RuleNotionalAccountCashAdjustment :: string where
  "RuleNotionalAccountCashAdjustment = ''notional-account.cash-adjustment''"

definition ADRNotionalAccountCashAdjustment :: string where
  "ADRNotionalAccountCashAdjustment = ''0007''"

text \<open>A figure before and after a movement, checked against the shared derivation.\<close>

definition scaledErrs :: "f64 \<Rightarrow> f64 \<Rightarrow> f64 \<Rightarrow> f64 \<Rightarrow> err list" where
  "scaledErrs before after equityBefore equityAfter = (let (derived, ok) = CashMovementScaledFigure before equityBefore equityAfter in
     figureErrs before @ figureErrs after
     @ errIf (isFinite before \<and> isFinite after \<and> isFinite equityBefore \<and> isFinite equityAfter \<and> (\<not> ok \<or> f_ne after derived))
         ''figure after does not match the derivation'')"

definition CashAdjusted_Validate :: "account_cash_adjusted \<Rightarrow> err list" where
  "CashAdjusted_Validate p =
     requiredTime (cj_AsOf p)
     @ (if \<not> isFinite (cj_Amount p) then [''amount must be finite''] else errIf (f_eq (cj_Amount p) (Fin 0)) ''amount must be non-zero'')
     @ figureErrs (cj_EquityBefore p) @ figureErrs (cj_EquityAfter p)
     @ errIf (isFinite (cj_Amount p) \<and> isFinite (cj_EquityBefore p) \<and> isFinite (cj_EquityAfter p) \<and>
              f_ne (cj_EquityAfter p) (f_add (cj_EquityBefore p) (cj_Amount p))) ''equity after does not match''
     @ scaledErrs (cj_StartingFigureBefore p) (cj_StartingFigureAfter p) (cj_EquityBefore p) (cj_EquityAfter p)
     @ scaledErrs (cj_NotionalBefore p) (cj_NotionalAfter p) (cj_EquityBefore p) (cj_EquityAfter p)
     @ ruleErrs (cj_Rule p) (cj_ADR p)"

text \<open>What the account journals of a snapshot or a movement.\<close>

datatype account_decision =
  Rebased account_rebased
| Stepped drawdown_step_applied
| Recovered account_recovered
| Adjusted account_cash_adjusted

definition Decision_Validate :: "account_decision \<Rightarrow> err list" where
  "Decision_Validate d = (case d of Rebased p \<Rightarrow> Rebased_Validate p | Stepped p \<Rightarrow> DrawdownStep_Validate p
     | Recovered p \<Rightarrow> Recovered_Validate p | Adjusted p \<Rightarrow> CashAdjusted_Validate p)"

section \<open>The fill\<close>

text \<open>\<open>event/fill.go\<close>: the one input that moves a position.\<close>

definition FillKindEntry :: string where "FillKindEntry = ''entry''"

definition FillKindStop :: string where "FillKindStop = ''stop''"

definition FillKindExit :: string where "FillKindExit = ''exit''"

definition FillKindAdd :: string where "FillKindAdd = ''add''"

record fill_payload =
  fl_InstrumentID :: string
  fl_Kind :: string
  fl_ProposalID :: string
  fl_CampaignID :: string
  fl_FillID :: string
  fl_UnitIDs :: "string list"
  fl_Direction :: string
  fl_Quantity :: int
  fl_Price :: f64
  fl_FilledAt :: gotime
  fl_Level :: f64
  fl_SlippageApplied :: f64
  fl_Commission :: f64

text \<open>The identifiers a stop fill names: none empty, none twice.\<close>

fun unitIDErrs :: "string list \<Rightarrow> string list \<Rightarrow> err list" where
  "unitIDErrs seen [] = []"
| "unitIDErrs seen (x # xs) =
     (if x = '''' then ''a unit id is empty'' # unitIDErrs seen xs
      else if x \<in> set seen then ''a unit id is named more than once'' # unitIDErrs seen xs
      else unitIDErrs (x # seen) xs)"

definition nonNegativeErrs :: "f64 \<Rightarrow> err list" where
  "nonNegativeErrs v = (if \<not> isFinite v then [''must be finite''] else errIf (f_lt v (Fin 0)) ''must not be negative'')"

definition fillKindErrs :: "fill_payload \<Rightarrow> err list" where
  "fillKindErrs p =
     (if fl_Kind p = FillKindEntry then
        errIf (fl_ProposalID p = '''') ''proposal id is required for an entry fill''
        @ errIf (fl_CampaignID p \<noteq> '''') ''campaign id must be empty for an entry fill''
        @ errIf (fl_UnitIDs p \<noteq> []) ''unit ids must be empty for an entry fill''
      else if fl_Kind p = FillKindStop then
        errIf (fl_CampaignID p = '''') ''campaign id is required for a stop fill''
        @ errIf (fl_ProposalID p \<noteq> '''') ''proposal id must be empty for a stop fill''
        @ (if fl_UnitIDs p = [] then [''unit ids is required for a stop fill''] else unitIDErrs [] (fl_UnitIDs p))
      else if fl_Kind p = FillKindExit then
        errIf (fl_CampaignID p = '''') ''campaign id is required for an exit fill''
        @ errIf (fl_ProposalID p = '''') ''proposal id is required for an exit fill''
        @ errIf (fl_UnitIDs p \<noteq> []) ''unit ids must be empty for an exit fill''
      else if fl_Kind p = FillKindAdd then
        errIf (fl_CampaignID p = '''') ''campaign id is required for an add fill''
        @ errIf (fl_ProposalID p = '''') ''proposal id is required for an add fill''
        @ errIf (fl_UnitIDs p \<noteq> []) ''unit ids must be empty for an add fill''
      else [''kind is not a recognised fill kind''])"

definition TurtleFill_Validate :: "fill_payload \<Rightarrow> err list" where
  "TurtleFill_Validate p =
     errIf (fl_InstrumentID p = '''') ''instrument id is required''
     @ fillKindErrs p
     @ errIf (fl_FillID p = '''') ''fill id is required''
     @ errIf (fl_Direction p \<noteq> DirectionLong) ''direction is not a recognised direction''
     @ errIf (fl_Quantity p \<le> 0) ''quantity must be a positive whole number''
     @ figureErrs (fl_Price p)
     @ requiredTime (fl_FilledAt p)
     @ figureErrs (fl_Level p)
     @ nonNegativeErrs (fl_SlippageApplied p)
     @ nonNegativeErrs (fl_Commission p)"

lemma unitIDErrs_Nil: "unitIDErrs seen xs = [] \<longleftrightarrow> distinct xs \<and> set xs \<inter> set seen = {} \<and> [] \<notin> set xs"
  by (induction seen xs rule: unitIDErrs.induct) auto

lemma nonNegativeErrs_Nil: "nonNegativeErrs v = [] \<longleftrightarrow> (\<exists>r. v = Fin r \<and> 0 \<le> r)"
  by (cases v) (auto simp: nonNegativeErrs_def not_less)

end
