(* ===== verification/Notional.thy ===== *)
theory Notional
  imports AccountEvents Calendar
begin

text \<open>
  The Notional Account (\<open>strategy/notional.go\<close>): the figure positions are sized from, which a drawdown reduces by a
  fifth for every tenth of itself that equity falls below the figure it was last measured from, which a re-basing or a
  full recovery restores, and which a deposit or withdrawal scales. A method that changes the account through its
  pointer returns the account it leaves; an error leaves the reducer's account as it was, since the reducer works on a
  copy that it drops (\<open>transition.go\<close>).
\<close>

record notional =
  n_base :: f64
  n_current :: f64
  n_startingFigure :: f64
  n_rebasingMonth :: int
  n_rebasingDay :: int
  n_periodLabel :: int
  n_hasPeriodLabel :: bool
  n_stepsInEpisode :: int

definition notionalAccountDrawdownThresholdFraction :: f64 where
  "notionalAccountDrawdownThresholdFraction = f_lit (1 / 10)"

text \<open>The untyped constant 0.10 / (1 - 0.8) is exact in Go.\<close>

definition notionalAccountUndefinedDrawdownFraction :: f64 where
  "notionalAccountUndefinedDrawdownFraction = f_lit (1 / 2)"

definition maxDrawdownStepsPerObservation :: nat where
  "maxDrawdownStepsPerObservation = 1024"

record drawdown_step =
  dsp_From :: f64
  dsp_To :: f64
  dsp_Threshold :: f64
  dsp_Equity :: f64

text \<open>A re-basing date recurs every year: a day that 2027, no leap year, has.\<close>

definition validRebasingDate :: "int \<Rightarrow> int \<Rightarrow> bool" where
  "validRebasingDate month day \<longleftrightarrow> 1 \<le> month \<and> month \<le> 12 \<and> 1 \<le> day \<and> day \<le> 31 \<and>
     day \<le> days_before_month 2027 (month + 1) - days_before_month 2027 month"

definition NewNotionalAccount :: "f64 \<Rightarrow> int \<Rightarrow> int \<Rightarrow> (err list, notional) result" where
  "NewNotionalAccount starting month day =
     joinErrs (figureErrs starting)
     (failIf (\<not> validRebasingDate month day) [''the re-basing date does not recur every year'']
     (Inr \<lparr>n_base = starting, n_current = starting, n_startingFigure = starting, n_rebasingMonth = month, n_rebasingDay = day,
        n_periodLabel = 0, n_hasPeriodLabel = False, n_stepsInEpisode = 0\<rparr>))"

section \<open>Drawdown steps\<close>

definition thresholdOf :: "notional \<Rightarrow> f64" where
  "thresholdOf n = f_sub (n_base n) (Product notionalAccountDrawdownThresholdFraction (n_current n))"

definition stepDown :: "notional \<Rightarrow> notional" where
  "stepDown n = n\<lparr>n_current := fst (DrawdownSteppedNotional (n_current n)), n_base := thresholdOf n\<rparr>"

definition stepOf :: "notional \<Rightarrow> f64 \<Rightarrow> drawdown_step" where
  "stepOf n equity = \<lparr>dsp_From = n_current n, dsp_To = fst (DrawdownSteppedNotional (n_current n)), dsp_Threshold = thresholdOf n, dsp_Equity = equity\<rparr>"

text \<open>The loop, from the number of steps it may still take.\<close>

fun observeLoop :: "nat \<Rightarrow> notional \<Rightarrow> f64 \<Rightarrow> (err list, notional \<times> drawdown_step list) result" where
  "observeLoop 0 n equity = Inl [''the drawdown steps did not terminate'']"
| "observeLoop (Suc k) n equity =
     (if f_lt (thresholdOf n) equity then Inr (n, [])
      else failIf (\<not> snd (DrawdownSteppedNotional (n_current n))) [''drawdown step is not representable'']
        (bindr (observeLoop k (stepDown n) equity) (\<lambda>(n', steps). Inr (n', stepOf n equity # steps))))"

definition drawdownLimit :: "notional \<Rightarrow> f64" where
  "drawdownLimit n = f_sub (n_base n) (Product notionalAccountUndefinedDrawdownFraction (n_current n))"

definition Observe :: "notional \<Rightarrow> f64 \<Rightarrow> (err list, notional \<times> drawdown_step list) result" where
  "Observe n equity =
     joinErrs (figureErrs equity)
     (failIf (f_le equity (drawdownLimit n)) [''the Notional Account rule is undefined this deep'']
     (observeLoop maxDrawdownStepsPerObservation n equity))"

section \<open>A snapshot\<close>

record rebase =
  rbs_PreviousStartingFigure :: f64
  rbs_NewStartingFigure :: f64
  rbs_Equity :: f64

record recovery_of_account =
  rco_Equity :: f64
  rco_StartingFigure :: f64
  rco_NotionalBefore :: f64
  rco_StepsCleared :: int

definition rebasingLabelFor :: "notional \<Rightarrow> gotime \<Rightarrow> int" where
  "rebasingLabelFor n asOf = (let year = year_of (asOf div day_ns) in
     if asOf < civil year (n_rebasingMonth n) (n_rebasingDay n) * day_ns then year - 1 else year)"

definition rebasePeriod :: "notional \<Rightarrow> gotime \<Rightarrow> f64 \<Rightarrow> notional \<times> rebase option" where
  "rebasePeriod n asOf equity = (let label = rebasingLabelFor n asOf in
     if \<not> n_hasPeriodLabel n then (n\<lparr>n_periodLabel := label, n_hasPeriodLabel := True\<rparr>, None)
     else if label > n_periodLabel n then
       (n\<lparr>n_startingFigure := equity, n_base := equity, n_current := equity, n_stepsInEpisode := 0, n_periodLabel := label\<rparr>,
        Some \<lparr>rbs_PreviousStartingFigure = n_startingFigure n, rbs_NewStartingFigure = equity, rbs_Equity = equity\<rparr>)
     else (n, None))"

definition recover :: "notional \<Rightarrow> f64 \<Rightarrow> notional \<times> recovery_of_account option" where
  "recover n equity =
     (if f_lt (n_current n) (n_startingFigure n) \<and> f_le (n_startingFigure n) equity
      then (n\<lparr>n_current := n_startingFigure n, n_base := n_startingFigure n, n_stepsInEpisode := 0\<rparr>,
        Some \<lparr>rco_Equity = equity, rco_StartingFigure = n_startingFigure n, rco_NotionalBefore = n_current n, rco_StepsCleared = n_stepsInEpisode n\<rparr>)
      else (n, None))"

definition ObserveSnapshot :: "notional \<Rightarrow> gotime \<Rightarrow> f64 \<Rightarrow>
     (err list, notional \<times> rebase option \<times> drawdown_step list \<times> recovery_of_account option) result" where
  "ObserveSnapshot n asOf equity =
     joinErrs (figureErrs equity)
     (let (n, rebase) = rebasePeriod n asOf equity in
      bindr (Observe n equity) (\<lambda>(n, steps).
        (let n = n\<lparr>n_stepsInEpisode := n_stepsInEpisode n + int (length steps)\<rparr>; (n, recovery) = recover n equity in
         Inr (n, rebase, steps, recovery))))"

section \<open>A deposit or withdrawal\<close>

record movement_of_account =
  mv_Amount :: f64
  mv_EquityBefore :: f64
  mv_EquityAfter :: f64
  mv_StartingFigureBefore :: f64
  mv_StartingFigureAfter :: f64
  mv_NotionalBefore :: f64
  mv_NotionalAfter :: f64

definition scaleAccountFigure :: "f64 \<Rightarrow> f64 \<Rightarrow> f64 \<Rightarrow> (err list, f64) result" where
  "scaleAccountFigure before equityBefore equityAfter = (let (result, ok) = CashMovementScaledFigure before equityBefore equityAfter in
     failIf (\<not> ok) [''the scaled figure must be finite''] (failIf (f_le result (Fin 0)) [''the scaled figure must be positive''] (Inr result)))"

definition ApplyCashMovement :: "notional \<Rightarrow> f64 \<Rightarrow> f64 \<Rightarrow> (err list, notional \<times> movement_of_account) result" where
  "ApplyCashMovement n equityBefore amount =
     joinErrs (figureErrs equityBefore)
     (failIf (\<not> isFinite amount) [''amount must be finite'']
     (failIf (f_eq amount (Fin 0)) [''amount must be non-zero'']
     (let equityAfter = f_add equityBefore amount in
      failIf (\<not> isFinite equityAfter) [''equity after is not finite'']
      (failIf (f_le equityAfter (Fin 0)) [''a withdrawal would take equity to zero or below'']
      (bindr (scaleAccountFigure (n_startingFigure n) equityBefore equityAfter) (\<lambda>starting.
       bindr (scaleAccountFigure (n_base n) equityBefore equityAfter) (\<lambda>base.
       bindr (scaleAccountFigure (n_current n) equityBefore equityAfter) (\<lambda>current.
         Inr (n\<lparr>n_startingFigure := starting, n_base := base, n_current := current\<rparr>,
           \<lparr>mv_Amount = amount, mv_EquityBefore = equityBefore, mv_EquityAfter = equityAfter, mv_StartingFigureBefore = n_startingFigure n,
            mv_StartingFigureAfter = starting, mv_NotionalBefore = n_current n, mv_NotionalAfter = current\<rparr>)))))))))"

section \<open>What the account guarantees\<close>

text \<open>The ladder from an account: where it stands after so many steps. A call descends to the first rung whose threshold equity is above.\<close>

definition rung :: "notional \<Rightarrow> nat \<Rightarrow> notional" where
  "rung n k = (stepDown ^^ k) n"

lemma rung_0 [simp]: "rung n 0 = n"
  by (simp add: rung_def)

lemma rung_Suc: "rung (stepDown n) k = rung n (Suc k)"
  by (simp add: rung_def funpow_swap1)

lemma observeLoop_rung:
  "observeLoop fuel n equity = Inr (n', steps) \<Longrightarrow>
     n' = rung n (length steps) \<and> length steps < fuel \<and> f_lt (thresholdOf n') equity \<and>
     (\<forall>i < length steps. steps ! i = stepOf (rung n i) equity \<and> \<not> f_lt (thresholdOf (rung n i)) equity)"
proof (induction fuel arbitrary: n n' steps)
  case (Suc fuel)
  show ?case
  proof (cases "f_lt (thresholdOf n) equity")
    case True
    then show ?thesis using Suc.prems by simp
  next
    case False
    then obtain rest where r: "observeLoop fuel (stepDown n) equity = Inr (n', rest)" "steps = stepOf n equity # rest"
      using Suc.prems by (auto simp: bindr_eq_Inr)
    have "steps ! i = stepOf (rung n i) equity \<and> \<not> f_lt (thresholdOf (rung n i)) equity" if "i < length steps" for i
      using that Suc.IH [OF r(1)] False r(2) by (cases i) (auto simp: rung_Suc)
    then show ?thesis using Suc.IH [OF r(1)] r(2) by (auto simp: rung_Suc)
  qed
qed simp

lemma observeLoop_complete:
  assumes "f_lt (thresholdOf (rung n k)) equity" "\<And>i. i < k \<Longrightarrow> \<not> f_lt (thresholdOf (rung n i)) equity" "k < fuel"
    and "\<And>i. i < k \<Longrightarrow> snd (DrawdownSteppedNotional (n_current (rung n i)))"
  shows "\<exists>steps. observeLoop fuel n equity = Inr (rung n k, steps)"
  using assms
proof (induction fuel arbitrary: n k)
  case (Suc fuel)
  show ?case
  proof (cases k)
    case 0
    then show ?thesis using Suc.prems(1) by simp
  next
    case (Suc m)
    have "\<exists>steps. observeLoop fuel (stepDown n) equity = Inr (rung (stepDown n) m, steps)"
      using Suc.prems Suc by (intro Suc.IH) (auto simp: rung_Suc)
    then show ?thesis using Suc.prems(2) [of 0] Suc.prems(4) [of 0] Suc by (auto simp: rung_Suc)
  qed
qed simp


text \<open>A fifth off a positive figure is positive, finite and no larger: the smallest subnormal, which 0.8 rounds back up to, included.\<close>

lemma retained_Fin: "DrawdownStepRetainedFraction = Fin (3602879701896397 / 4503599627370496)"
  by code_simp

lemma threshold_Fin: "notionalAccountDrawdownThresholdFraction = Fin (3602879701896397 / 36028797018963968)"
  by code_simp

lemma half_Fin: "notionalAccountUndefinedDrawdownFraction = Fin (1 / 2)"
  by code_simp

lemma retained_min: "rndq (3602879701896397 / 4503599627370496 * 2 powi - 1074) = 2 powi - 1074"
proof -
  let ?x = "3602879701896397 / 4503599627370496 * (2::rat) powi - 1074"
  have pos: "0 < ?x" by simp
  have "?x < 2 powi (- 1075 + 1)" by simp
  then have "ilog2 ?x \<le> - 1075" using pos by (intro ilog2_le)
  then have "qexp ?x = - 1074" using pos by (simp add: qexp_def)
  moreover have "rne (3602879701896397 / 4503599627370496) = 1" by code_simp
  ultimately show ?thesis by (simp add: rndq_def)
qed

lemma f64_pos_min:
  assumes "rndq c = c" "0 < c"
  shows "2 powi - 1074 \<le> c"
proof (rule ccontr)
  assume "\<not> ?thesis"
  then have lt: "c < 2 powi - 1074" by simp
  have "ilog2 c \<le> - 1075" using assms(2) lt by (intro ilog2_le) simp_all
  then have q: "qexp c = - 1074" using assms by (simp add: qexp_def)
  then have e: "c = of_int (rne (c / 2 powi - 1074)) * 2 powi - 1074" using assms by (simp add: rndq_def)
  have "0 < rne (c / 2 powi - 1074)"
    using assms(2) e by (metis mult_nonpos_nonneg not_less of_int_le_0_iff two_powi_pos less_imp_le)
  then have "(1::rat) \<le> of_int (rne (c / 2 powi - 1074))" by simp
  then have "2 powi - 1074 \<le> of_int (rne (c / 2 powi - 1074)) * (2::rat) powi - 1074" by simp
  then show False using e lt by linarith
qed

lemma retained_pos:
  assumes "rndq c = c" "0 < c"
  shows "0 < rndq (3602879701896397 / 4503599627370496 * c)"
proof -
  have "rndq (3602879701896397 / 4503599627370496 * 2 powi - 1074) \<le> rndq (3602879701896397 / 4503599627370496 * c)"
    using f64_pos_min [OF assms] by (intro rndq_mono mult_left_mono) auto
  moreover have "(0::rat) < 2 powi - 1074" by simp
  ultimately show ?thesis using retained_min by linarith
qed

lemma DrawdownStepped_Fin:
  assumes "is_f64 (Fin c)" "0 < c"
  shows "\<exists>d. DrawdownSteppedNotional (Fin c) = (Fin d, True) \<and> is_f64 (Fin d) \<and> 0 < d \<and> d \<le> c"
proof -
  let ?x = "3602879701896397 / 4503599627370496 * c"
  have c: "rndq c = c" using assms(1) by (rule rndq_f64)
  have "rndq ?x \<le> c" using assms(2) c by (intro rndq_le) auto
  moreover have "0 < rndq ?x" using assms(2) c by (intro retained_pos)
  moreover have "c < f_huge" using assms by (simp only: is_f64.simps abs_of_pos)
  ultimately have "rnd ?x = Fin (rndq ?x)" by (auto simp: rnd_eq_Fin)
  then show ?thesis using \<open>0 < rndq ?x\<close> \<open>rndq ?x \<le> c\<close> is_f64_rnd [of ?x]
    by (simp add: DrawdownSteppedNotional_def retained_Fin Let_def)
qed

text \<open>
  The account's figures: the measurement base and the account never exceed the yearly starting figure, and with no step
  outstanding the three coincide.
\<close>

definition notional_ok :: "notional \<Rightarrow> bool" where
  "notional_ok n \<longleftrightarrow> (\<exists>b c s. n_base n = Fin b \<and> n_current n = Fin c \<and> n_startingFigure n = Fin s \<and>
     is_f64 (Fin b) \<and> is_f64 (Fin c) \<and> is_f64 (Fin s) \<and> 0 < c \<and> c \<le> s \<and> b \<le> s \<and>
     (n_stepsInEpisode n = 0 \<longrightarrow> b = s \<and> c = s)) \<and> 0 \<le> n_stepsInEpisode n"

lemma NewNotionalAccount_ok: "NewNotionalAccount starting month day = Inr n \<Longrightarrow> is_f64 starting \<Longrightarrow> notional_ok n"
  by (auto simp: NewNotionalAccount_def figureErrs_Nil notional_ok_def go_bind)

lemma thresholdOf_Fin:
  assumes "n_base n = Fin b" "n_current n = Fin c" "is_f64 (Fin b)" "is_f64 (Fin c)" "0 < c"
  shows "is_f64 (thresholdOf n)" "f_le (thresholdOf n) (Fin b)"
proof -
  obtain t where t: "f_mul notionalAccountDrawdownThresholdFraction (Fin c) = Fin t" "0 \<le> t"
  proof -
    let ?x = "3602879701896397 / 36028797018963968 * c"
    have "rndq ?x \<le> c" using assms(5) rndq_f64 [OF assms(4)] by (intro rndq_le) auto
    moreover have "0 \<le> rndq ?x" using assms(5) by (intro rndq_nonneg) simp
    moreover have "c < f_huge" using assms by (simp only: is_f64.simps abs_of_pos)
    ultimately show ?thesis by (intro that [of "rndq ?x"]) (auto simp: threshold_Fin rnd_eq_Fin)
  qed
  then show "f_le (thresholdOf n) (Fin b)" using assms f_le_sub_right [OF assms(3) t(2)]
    by (simp add: thresholdOf_def Product_def)
  show "is_f64 (thresholdOf n)" using t assms by (simp add: thresholdOf_def Product_def)
qed

text \<open>One step keeps what the account guarantees of its figures once the threshold it moves the base to is finite.\<close>

lemma stepDown_ok:
  assumes "n_base n = Fin b" "n_current n = Fin c" "n_startingFigure n = Fin s" "is_f64 (Fin b)" "is_f64 (Fin c)" "0 < c" "c \<le> s" "b \<le> s"
    and "f_le (Fin e) (thresholdOf n)"
  shows "\<exists>b' c'. n_base (stepDown n) = Fin b' \<and> n_current (stepDown n) = Fin c' \<and> n_startingFigure (stepDown n) = Fin s \<and>
    is_f64 (Fin b') \<and> is_f64 (Fin c') \<and> 0 < c' \<and> c' \<le> c \<and> b' \<le> b"
proof -
  obtain d where d: "DrawdownSteppedNotional (Fin c) = (Fin d, True)" "is_f64 (Fin d)" "0 < d" "d \<le> c"
    using DrawdownStepped_Fin [OF assms(5,6)] by blast
  note t = thresholdOf_Fin [OF assms(1,2,4-6)]
  obtain b' where "thresholdOf n = Fin b'" "b' \<le> b" using f_le_finite [OF t(2) assms(9)] by blast
  then show ?thesis using t(1) d assms(2,3) by (simp add: stepDown_def)
qed

lemma rung_ok:
  assumes "n_base n = Fin b" "n_current n = Fin c" "n_startingFigure n = Fin s" "is_f64 (Fin b)" "is_f64 (Fin c)" "0 < c" "c \<le> s" "b \<le> s"
    and "\<And>i. i < k \<Longrightarrow> \<not> f_lt (thresholdOf (rung n i)) (Fin e)"
  shows "\<exists>b' c'. n_base (rung n k) = Fin b' \<and> n_current (rung n k) = Fin c' \<and> n_startingFigure (rung n k) = Fin s \<and>
    is_f64 (Fin b') \<and> is_f64 (Fin c') \<and> 0 < c' \<and> c' \<le> c \<and> b' \<le> b"
  using assms(9)
proof (induction k)
  case 0
  then show ?case using assms by simp
next
  case (Suc k)
  then obtain b' c' where r: "n_base (rung n k) = Fin b'" "n_current (rung n k) = Fin c'" "n_startingFigure (rung n k) = Fin s"
    "is_f64 (Fin b')" "is_f64 (Fin c')" "0 < c'" "c' \<le> c" "b' \<le> b" by auto
  note t = thresholdOf_Fin [OF r(1,2,4-6)]
  have "thresholdOf (rung n k) \<noteq> NaN" using t(2) by (cases "thresholdOf (rung n k)") auto
  then have le: "f_le (Fin e) (thresholdOf (rung n k))" using Suc.prems [of k] by (simp add: not_f_lt)
  have "c' \<le> s" "b' \<le> s" using r(7,8) assms(7,8) by linarith+
  then obtain b'' c'' where "n_base (stepDown (rung n k)) = Fin b''" "n_current (stepDown (rung n k)) = Fin c''"
      "n_startingFigure (stepDown (rung n k)) = Fin s" "is_f64 (Fin b'')" "is_f64 (Fin c'')" "0 < c''" "c'' \<le> c'" "b'' \<le> b'"
    using stepDown_ok [OF r(1-6) _ _ le] by blast
  then show ?case using r(7,8) by (auto simp: rung_def intro: order_trans)
qed

lemma rung_steps [simp]: "n_stepsInEpisode (rung n k) = n_stepsInEpisode n"
  by (induction k) (simp_all add: rung_def stepDown_def)

lemma notional_okE:
  assumes "notional_ok n"
  obtains b c s where "n_base n = Fin b" "n_current n = Fin c" "n_startingFigure n = Fin s" "is_f64 (Fin b)" "is_f64 (Fin c)" "is_f64 (Fin s)"
    "0 < c" "c \<le> s" "b \<le> s" "n_stepsInEpisode n = 0 \<Longrightarrow> b = s \<and> c = s" "0 \<le> n_stepsInEpisode n"
  using assms by (auto simp: notional_ok_def)

lemma rung_notional_ok:
  assumes "notional_ok n" "\<And>i. i < k \<Longrightarrow> \<not> f_lt (thresholdOf (rung n i)) (Fin e)"
  shows "notional_ok (rung n k\<lparr>n_stepsInEpisode := n_stepsInEpisode n + int k\<rparr>)" "n_startingFigure (rung n k) = n_startingFigure n"
    "f_le (n_current (rung n k)) (n_current n)" "snd (DrawdownSteppedNotional (n_current (rung n k)))"
proof -
  from assms(1) obtain b c s where r: "n_base n = Fin b" "n_current n = Fin c" "n_startingFigure n = Fin s" "is_f64 (Fin b)" "is_f64 (Fin c)"
    "is_f64 (Fin s)" "0 < c" "c \<le> s" "b \<le> s" "n_stepsInEpisode n = 0 \<Longrightarrow> b = s \<and> c = s" "0 \<le> n_stepsInEpisode n" by (rule notional_okE) blast
  obtain b' c' where k: "n_base (rung n k) = Fin b'" "n_current (rung n k) = Fin c'" "n_startingFigure (rung n k) = Fin s"
    "is_f64 (Fin b')" "is_f64 (Fin c')" "0 < c'" "c' \<le> c" "b' \<le> b"
    using rung_ok [OF r(1-5) r(7-9) assms(2)] by blast
  show "notional_ok (rung n k\<lparr>n_stepsInEpisode := n_stepsInEpisode n + int k\<rparr>)"
  proof (cases "k = 0")
    case True
    then show ?thesis using assms(1) by simp
  next
    case False
    then show ?thesis using k r by (auto simp: notional_ok_def)
  qed
  show "n_startingFigure (rung n k) = n_startingFigure n" "f_le (n_current (rung n k)) (n_current n)" using k r by simp_all
  show "snd (DrawdownSteppedNotional (n_current (rung n k)))" using DrawdownStepped_Fin [OF k(5,6)] k(2) by auto
qed

section \<open>Observe is the ladder\<close>

definition firstRungAbove :: "notional \<Rightarrow> f64 \<Rightarrow> nat \<Rightarrow> bool" where
  "firstRungAbove n equity k \<longleftrightarrow> f_lt (thresholdOf (rung n k)) equity \<and> (\<forall>i < k. \<not> f_lt (thresholdOf (rung n i)) equity)"

lemma observeLoop_iff:
  assumes "notional_ok n"
  shows "observeLoop fuel n (Fin e) = Inr (n', steps) \<longleftrightarrow>
    (\<exists>k < fuel. firstRungAbove n (Fin e) k \<and> n' = rung n k \<and> steps = map (\<lambda>i. stepOf (rung n i) (Fin e)) [0..<k])"
proof
  assume "observeLoop fuel n (Fin e) = Inr (n', steps)"
  note r = observeLoop_rung [OF this]
  have "steps = map (\<lambda>i. stepOf (rung n i) (Fin e)) [0..<length steps]" using r by (intro nth_equalityI) auto
  then show "\<exists>k < fuel. firstRungAbove n (Fin e) k \<and> n' = rung n k \<and> steps = map (\<lambda>i. stepOf (rung n i) (Fin e)) [0..<k]"
    using r by (intro exI [of _ "length steps"]) (auto simp: firstRungAbove_def)
next
  assume "\<exists>k < fuel. firstRungAbove n (Fin e) k \<and> n' = rung n k \<and> steps = map (\<lambda>i. stepOf (rung n i) (Fin e)) [0..<k]"
  then obtain k where k: "k < fuel" "firstRungAbove n (Fin e) k" "n' = rung n k" "steps = map (\<lambda>i. stepOf (rung n i) (Fin e)) [0..<k]" by blast
  have "snd (DrawdownSteppedNotional (n_current (rung n i)))" if "i < k" for i
    using rung_notional_ok(4) [OF assms, of i e] k(2) that by (simp add: firstRungAbove_def)
  then obtain steps' where s: "observeLoop fuel n (Fin e) = Inr (rung n k, steps')"
    using observeLoop_complete [of n k "Fin e" fuel] k by (auto simp: firstRungAbove_def)
  note r = observeLoop_rung [OF s]
  have "length steps' = k"
    using r k(2) by (metis firstRungAbove_def linorder_neqE_nat)
  then have "steps' = steps" using r k(4) by (intro nth_equalityI) auto
  then show "observeLoop fuel n (Fin e) = Inr (n', steps)" using s k(3) by simp
qed

text \<open>C6: \<open>Observe\<close> takes exactly the Drawdown Steps of the ladder: on an account whose figures hold together it succeeds when equity lies
  above the asymptote and above the threshold of some rung the bound reaches, and it then leaves the account on the first such rung and
  returns one step for each rung above it, in order, each from that rung's figures and at the same equity.\<close>

theorem Observe_is_the_ladder:
  assumes "notional_ok n"
  shows "Observe n equity = Inr (n', steps) \<longleftrightarrow>
    figureErrs equity = [] \<and> \<not> f_le equity (drawdownLimit n) \<and>
    (\<exists>k < maxDrawdownStepsPerObservation. firstRungAbove n equity k \<and> n' = rung n k \<and> steps = map (\<lambda>i. stepOf (rung n i) equity) [0..<k])"
  using observeLoop_iff [OF assms] by (auto simp: Observe_def figureErrs_Nil)

section \<open>A snapshot's contract\<close>

lemma rndq_relative:
  assumes "1 / 1024 \<le> x"
  shows "rndq x \<le> x + x / 2 ^ 53" "x - x / 2 ^ 53 \<le> rndq x"
proof -
  have x: "0 < x" using assms by linarith
  have "(1::rat) / 1024 = 2 powi - 10" by (simp add: power_int_def field_simps)
  then have "(2::rat) powi - 10 < 2 powi (ilog2 x + 1)" using assms ilog2_bounds(2) [OF x] by linarith
  then have "- 10 < ilog2 x + 1" by (simp only: two_powi_less_iff)
  then have q: "qexp x = ilog2 x - 52" using x by (simp add: qexp_def)
  have "(2::rat) powi qexp x = 2 powi ilog2 x / 2 ^ 52" by (simp add: q power_int_diff)
  then have u: "2 powi qexp x / 2 \<le> x / 2 ^ 53" using ilog2_bounds(1) [OF x] by (simp add: divide_right_mono)
  have p: "0 < (2::rat) powi qexp x" by simp
  have "(of_int (rne (x / 2 powi qexp x)) - 1 / 2) * (2::rat) powi qexp x \<le> x / 2 powi qexp x * 2 powi qexp x"
    "x / 2 powi qexp x * (2::rat) powi qexp x \<le> (of_int (rne (x / 2 powi qexp x)) + 1 / 2) * 2 powi qexp x"
    using rne_bounds [of "x / 2 powi qexp x"] p by (intro mult_right_mono; simp)+
  then have "rndq x - 2 powi qexp x / 2 \<le> x" "x \<le> rndq x + 2 powi qexp x / 2"
    using x by (simp_all add: rndq_def algebra_simps)
  then show "rndq x \<le> x + x / 2 ^ 53" "x - x / 2 ^ 53 \<le> rndq x" using u by linarith+
qed

text \<open>A tenth or a half off a figure of a cent or more leaves less than the figure.\<close>

lemma fall_below:
  assumes "is_f64 (Fin e)" "1 / 100 \<le> e" "3602879701896397 / 36028797018963968 \<le> f" "f \<le> 1"
  shows "f_lt (f_sub (Fin e) (f_mul (Fin f) (Fin e))) (Fin e)"
proof -
  let ?t = "f * e"
  have fe: "99 / 1000 * e \<le> ?t" "?t \<le> e" using assms(2-4) mult_right_mono [of "99 / 1000" f e] mult_right_mono [of f 1 e] by auto
  have big: "1 / 1024 \<le> 99 / 1000 * e" "1 / 1024 \<le> 91 / 100 * e" using assms(2) by simp_all
  have "rndq ?t \<le> e" using fe rndq_f64 [OF assms(1)] by (intro rndq_le) auto
  moreover have e: "e < f_huge" using assms(1,2) by (auto simp: is_f64.simps)
  moreover have "0 \<le> rndq ?t" using assms(2) fe by (intro rndq_nonneg) simp
  ultimately have "rnd ?t = Fin (rndq ?t)" by (auto simp: rnd_eq_Fin)
  then have th: "f_sub (Fin e) (f_mul (Fin f) (Fin e)) = rnd (e - rndq ?t)" by simp
  have "rndq (99 / 1000 * e) \<le> rndq ?t" using fe by (intro rndq_mono)
  then have "e - rndq ?t \<le> 91 / 100 * e" using rndq_relative(2) [OF big(1)] assms(2) by simp
  then have "f_le (rnd (e - rndq ?t)) (rnd (91 / 100 * e))" by (rule f_le_rnd)
  moreover have lt: "rndq (91 / 100 * e) < e" using rndq_relative(1) [OF big(2)] assms(2) by simp
  have "0 \<le> rndq (91 / 100 * e)" using assms(2) by (intro rndq_nonneg) simp
  then have "rnd (91 / 100 * e) = Fin (rndq (91 / 100 * e))" using lt e by (auto simp: rnd_eq_Fin)
  ultimately show ?thesis unfolding th using lt by (cases "rnd (e - rndq ?t)") auto
qed

lemma threshold_below:
  assumes "n_base n = Fin e" "n_current n = Fin e" "is_f64 (Fin e)" "1 / 100 \<le> e"
  shows "f_lt (thresholdOf n) (Fin e)" "f_lt (drawdownLimit n) (Fin e)"
  using fall_below [OF assms(3,4), of "3602879701896397 / 36028797018963968"] fall_below [OF assms(3,4), of "1 / 2"] assms(1,2)
  by (simp_all add: thresholdOf_def drawdownLimit_def Product_def threshold_Fin half_Fin del: f_sub_Fin f_mul.simps)

lemma Observe_at_base:
  assumes "n_base n = Fin e" "n_current n = Fin e" "is_f64 (Fin e)" "1 / 100 \<le> e" "Observe n (Fin e) = Inr (n', steps)"
  shows "n' = n \<and> steps = []"
  using assms(5) threshold_below(1) [OF assms(1-4)]
  by (simp add: Observe_def maxDrawdownStepsPerObservation_def eval_nat_numeral)

lemma Observe_ok:
  assumes "notional_ok n" "Observe n (Fin e) = Inr (n', steps)"
  shows "notional_ok (n'\<lparr>n_stepsInEpisode := n_stepsInEpisode n' + int (length steps)\<rparr>)" "n_startingFigure n' = n_startingFigure n"
    "f_le (n_current n') (n_current n)" "n_stepsInEpisode n' = n_stepsInEpisode n"
proof -
  have l: "observeLoop maxDrawdownStepsPerObservation n (Fin e) = Inr (n', steps)" using assms(2) by (simp add: Observe_def)
  note r = observeLoop_rung [OF this]
  show "notional_ok (n'\<lparr>n_stepsInEpisode := n_stepsInEpisode n' + int (length steps)\<rparr>)" "n_startingFigure n' = n_startingFigure n"
    "f_le (n_current n') (n_current n)" "n_stepsInEpisode n' = n_stepsInEpisode n"
    using rung_notional_ok [OF assms(1), of "length steps" e] r by auto
qed

lemma recover_ok:
  assumes "notional_ok n" "recover n (Fin e) = (n', recovery)"
  shows "notional_ok n'" "n_startingFigure n' = n_startingFigure n"
    "f_le (n_startingFigure n) (Fin e) \<Longrightarrow> n_current n' = n_startingFigure n"
    "f_lt (Fin e) (n_startingFigure n) \<Longrightarrow> n' = n \<and> recovery = None"
proof -
  from assms(1) obtain b c s where r: "n_base n = Fin b" "n_current n = Fin c" "n_startingFigure n = Fin s" "is_f64 (Fin b)" "is_f64 (Fin c)"
    "is_f64 (Fin s)" "0 < c" "c \<le> s" "b \<le> s" "n_stepsInEpisode n = 0 \<Longrightarrow> b = s \<and> c = s" "0 \<le> n_stepsInEpisode n" by (rule notional_okE) blast
  show "notional_ok n'" using assms r by (auto simp: recover_def notional_ok_def split: if_splits)
  show "n_startingFigure n' = n_startingFigure n" using assms(2) by (auto simp: recover_def split: if_splits)
  show "f_le (n_startingFigure n) (Fin e) \<Longrightarrow> n_current n' = n_startingFigure n" using assms(2) r by (auto simp: recover_def split: if_splits)
  show "f_lt (Fin e) (n_startingFigure n) \<Longrightarrow> n' = n \<and> recovery = None" using assms(2) r by (auto simp: recover_def split: if_splits)
qed

lemma rebasePeriod_ok:
  assumes "notional_ok n" "is_f64 (Fin e)" "0 < e" "rebasePeriod n asOf (Fin e) = (n', rebase)"
  shows "notional_ok n'" "rebase = None \<Longrightarrow> n_startingFigure n' = n_startingFigure n \<and> n_current n' = n_current n"
    "rebase \<noteq> None \<Longrightarrow> n_base n' = Fin e \<and> n_current n' = Fin e \<and> n_startingFigure n' = Fin e \<and> n_stepsInEpisode n' = 0"
    "rebase \<noteq> None \<longleftrightarrow> n_hasPeriodLabel n \<and> n_periodLabel n < rebasingLabelFor n asOf"
  using assms by (auto simp: rebasePeriod_def notional_ok_def Let_def split: if_splits)

lemma ObserveSnapshot_Inr:
  assumes "ObserveSnapshot n asOf equity = Inr (n', rebase, steps, recovery)"
  obtains e n1 n2 where "equity = Fin e" "0 < e" "rebasePeriod n asOf equity = (n1, rebase)" "Observe n1 equity = Inr (n2, steps)"
    "recover (n2\<lparr>n_stepsInEpisode := n_stepsInEpisode n2 + int (length steps)\<rparr>) equity = (n', recovery)"
proof -
  obtain n1 rb where 1: "rebasePeriod n asOf equity = (n1, rb)" by fastforce
  with assms obtain e n2 st where 2: "equity = Fin e" "0 < e" "Observe n1 equity = Inr (n2, st)"
    by (auto simp: ObserveSnapshot_def figureErrs_Nil go_bind)
  obtain n3 rc where "recover (n2\<lparr>n_stepsInEpisode := n_stepsInEpisode n2 + int (length st)\<rparr>) equity = (n3, rc)" by fastforce
  then show thesis using assms 1 2 by (intro that [of e n1 n2]) (auto simp: ObserveSnapshot_def)
qed

lemma ObserveSnapshot_ok:
  assumes "notional_ok n" "is_f64 equity" "ObserveSnapshot n asOf equity = Inr (n', rebase, steps, recovery)"
  shows "notional_ok n'"
  using assms(3)
proof (rule ObserveSnapshot_Inr)
  fix e n1 n2
  assume h: "equity = Fin e" "0 < e" "rebasePeriod n asOf equity = (n1, rebase)" "Observe n1 equity = Inr (n2, steps)"
    "recover (n2\<lparr>n_stepsInEpisode := n_stepsInEpisode n2 + int (length steps)\<rparr>) equity = (n', recovery)"
  have "notional_ok n1" using rebasePeriod_ok(1) [of n e] assms(1,2) h by blast
  then have "notional_ok (n2\<lparr>n_stepsInEpisode := n_stepsInEpisode n2 + int (length steps)\<rparr>)" using Observe_ok(1) h by blast
  then show ?thesis using recover_ok(1) h by blast
qed

text \<open>C7: A snapshot accepted inside the account's year leaves the yearly starting figure alone, and the account never goes up on a partial
  recovery: equity at or above the starting figure restores the account to it exactly, and equity below it leaves the account where it was
  or lower and reports no recovery. There is no high-water mark.\<close>

theorem ObserveSnapshot_no_high_water_mark:
  assumes "notional_ok n" "is_f64 equity" "ObserveSnapshot n asOf equity = Inr (n', None, steps, recovery)"
  shows "n_startingFigure n' = n_startingFigure n
    \<and> (if f_le (n_startingFigure n) equity then n_current n' = n_startingFigure n else f_le (n_current n') (n_current n) \<and> recovery = None)"
  using assms(3)
proof (rule ObserveSnapshot_Inr)
  fix e n1 n2
  assume h: "equity = Fin e" "0 < e" "rebasePeriod n asOf equity = (n1, None)" "Observe n1 equity = Inr (n2, steps)"
    "recover (n2\<lparr>n_stepsInEpisode := n_stepsInEpisode n2 + int (length steps)\<rparr>) equity = (n', recovery)"
  let ?n = "n2\<lparr>n_stepsInEpisode := n_stepsInEpisode n2 + int (length steps)\<rparr>"
  have 1: "notional_ok n1" "n_startingFigure n1 = n_startingFigure n" "n_current n1 = n_current n"
    using rebasePeriod_ok(1,2) [of n e] assms(1,2) h by blast+
  have 2: "notional_ok ?n" "n_startingFigure n2 = n_startingFigure n" "f_le (n_current n2) (n_current n)"
    using Observe_ok(1-3) [OF 1(1)] h(1,4) 1 by auto
  obtain s where s: "n_startingFigure n = Fin s" using assms(1) by (auto simp: notional_ok_def)
  note r = recover_ok(2-4) [OF 2(1) h(5) [unfolded h(1)]]
  show ?thesis using r 2 s h(1) by (cases "s \<le> e") (simp_all add: not_le)
qed

text \<open>The first snapshot past the re-basing date, of a cent or more, sets the account, its measurement base and the yearly starting
  figure to equity, and nothing else happens at it: no Drawdown Step, no recovery, and the episode's count starts again.\<close>

theorem ObserveSnapshot_rebases_alone:
  assumes "notional_ok n" "is_f64 equity" "f_le (Fin (1 / 100)) equity" "n_hasPeriodLabel n" "n_periodLabel n < rebasingLabelFor n asOf"
    and "isFinite equity"
  shows "ObserveSnapshot n asOf equity =
    Inr (n\<lparr>n_startingFigure := equity, n_base := equity, n_current := equity, n_stepsInEpisode := 0, n_periodLabel := rebasingLabelFor n asOf\<rparr>,
      Some \<lparr>rbs_PreviousStartingFigure = n_startingFigure n, rbs_NewStartingFigure = equity, rbs_Equity = equity\<rparr>, [], None)"
proof -
  obtain e where e: "equity = Fin e" using assms(6) by (auto simp: isFinite_iff)
  let ?n = "n\<lparr>n_startingFigure := equity, n_base := equity, n_current := equity, n_stepsInEpisode := 0, n_periodLabel := rebasingLabelFor n asOf\<rparr>"
  have rb: "rebasePeriod n asOf equity = (?n, Some \<lparr>rbs_PreviousStartingFigure = n_startingFigure n, rbs_NewStartingFigure = equity, rbs_Equity = equity\<rparr>)"
    using assms(4,5) by (simp add: rebasePeriod_def Let_def)
  have "1 / 100 \<le> e" using assms(3) e by simp
  then have th: "f_lt (thresholdOf ?n) (Fin e)" "\<not> f_le (Fin e) (drawdownLimit ?n)"
    using threshold_below [of ?n e] assms(2) e by (auto simp: f_le_not_lt dest: f_le_not_lt)
  have "figureErrs equity = []" using e assms(3) by (auto simp: figureErrs_Nil)
  moreover from this have "Observe ?n equity = Inr (?n, [])"
    using th e by (simp add: Observe_def maxDrawdownStepsPerObservation_def eval_nat_numeral)
  moreover have "recover ?n equity = (?n, None)" by (simp add: recover_def)
  moreover have "?n\<lparr>n_stepsInEpisode := n_stepsInEpisode ?n + int (length ([] :: drawdown_step list))\<rparr> = ?n" by simp
  ultimately show ?thesis using rb by (simp only: ObserveSnapshot_def Let_def prod.case bindr_Inr joinErrs_Nil)
qed

text \<open>The two contracts at a concrete account: down one step from 100000, then restored, and re-based a year on.\<close>

definition accountOf :: "rat \<Rightarrow> rat \<Rightarrow> rat \<Rightarrow> int \<Rightarrow> notional" where
  "accountOf b c s k = \<lparr>n_base = Fin b, n_current = Fin c, n_startingFigure = Fin s, n_rebasingMonth = 1, n_rebasingDay = 1,
     n_periodLabel = 2026, n_hasPeriodLabel = True, n_stepsInEpisode = k\<rparr>"

definition snapshot2026 :: gotime where
  "snapshot2026 = civil 2026 6 1 * day_ns"

definition snapshot2027 :: gotime where
  "snapshot2027 = civil 2027 1 2 * day_ns"

lemma is_f64_numeral: "(numeral k :: int) \<le> 2 ^ 53 \<Longrightarrow> is_f64 (Fin (numeral k))"
  using is_f64_of_int [of "numeral k"] by simp

lemma accountOf_ok: "notional_ok (accountOf 100000 100000 100000 0)" "notional_ok (accountOf 90000 80000 100000 1)"
  using is_f64_numeral [of "num.Bit0 num.One"] by (simp_all add: notional_ok_def accountOf_def is_f64_numeral)

lemma Observe_is_the_ladder_witness:
  "Observe (accountOf 100000 100000 100000 0) (Fin 90000)
    = Inr (rung (accountOf 100000 100000 100000 0) 1, [stepOf (accountOf 100000 100000 100000 0) (Fin 90000)])"
proof (subst Observe_is_the_ladder [OF accountOf_ok(1)], intro conjI exI [of _ 1])
  let ?a = "accountOf 100000 100000 100000 0"
  have "figureErrs (Fin 90000) = [] \<and> \<not> f_le (Fin 90000) (drawdownLimit ?a) \<and> f_lt (thresholdOf (rung ?a 1)) (Fin 90000) \<and> \<not> f_lt (thresholdOf ?a) (Fin 90000)"
    by code_simp
  then show "figureErrs (Fin 90000) = []" "\<not> f_le (Fin 90000) (drawdownLimit ?a)" "firstRungAbove ?a (Fin 90000) 1"
    by (simp_all add: firstRungAbove_def)
qed (simp_all add: maxDrawdownStepsPerObservation_def)

lemma ObserveSnapshot_no_high_water_mark_witness:
  "(case ObserveSnapshot (accountOf 90000 80000 100000 1) snapshot2026 (Fin 100000) of Inr (n', _) \<Rightarrow> n_current n' = Fin 100000 | _ \<Rightarrow> False)"
proof -
  have "(case ObserveSnapshot (accountOf 90000 80000 100000 1) snapshot2026 (Fin 100000) of Inr (n', None, [], r) \<Rightarrow> True | _ \<Rightarrow> False)" by code_simp
  then obtain n' r where o: "ObserveSnapshot (accountOf 90000 80000 100000 1) snapshot2026 (Fin 100000) = Inr (n', None, [], r)"
    by (auto split: sum.splits prod.splits option.splits list.splits)
  from ObserveSnapshot_no_high_water_mark [OF accountOf_ok(2) is_f64_numeral o] show ?thesis using o by (simp add: accountOf_def)
qed

lemma ObserveSnapshot_rebases_alone_witness:
  "(case ObserveSnapshot (accountOf 90000 80000 100000 1) snapshot2027 (Fin 70000) of Inr (n', r, steps, c) \<Rightarrow> n_current n' = Fin 70000 \<and> steps = [] | _ \<Rightarrow> False)"
proof -
  have h: "f_le (Fin (1 / 100)) (Fin 70000)" "n_hasPeriodLabel (accountOf 90000 80000 100000 1)"
    "n_periodLabel (accountOf 90000 80000 100000 1) < rebasingLabelFor (accountOf 90000 80000 100000 1) snapshot2027" "isFinite (Fin 70000)"
    by (simp_all add: accountOf_def) code_simp
  have "is_f64 (Fin 70000)" by (simp add: is_f64_numeral)
  from ObserveSnapshot_rebases_alone [OF accountOf_ok(2) this h] show ?thesis by simp
qed

section \<open>A movement's contract\<close>

lemma scaleAccountFigure_Inr:
  assumes "scaleAccountFigure (Fin x) equityBefore equityAfter = Inr y"
  shows "\<exists>r. f_div equityAfter equityBefore = Fin r \<and> y = Fin (rndq (x * r)) \<and> is_f64 y \<and> 0 < rndq (x * r)"
proof -
  obtain r z where "f_div equityAfter equityBefore = Fin r" "f_mul (Fin x) (Fin r) = Fin z" "y = Fin z" "0 < z"
    using assms by (auto simp: scaleAccountFigure_def CashMovementScaledFigure_def Let_def isFinite_iff not_le)
  moreover from this have "is_f64 y" using is_f64_f_mul [of "Fin x" "Fin r"] by (simp only:)
  ultimately show ?thesis by (auto simp: rnd_eq_Fin)
qed

lemma ApplyCashMovement_ok:
  assumes "notional_ok n" "ApplyCashMovement n equityBefore amount = Inr (n', movement)"
  shows "notional_ok n'" "n_stepsInEpisode n' = n_stepsInEpisode n" "n_hasPeriodLabel n' = n_hasPeriodLabel n" "n_periodLabel n' = n_periodLabel n"
proof -
  from assms(1) obtain b c s where r: "n_base n = Fin b" "n_current n = Fin c" "n_startingFigure n = Fin s" "is_f64 (Fin b)" "is_f64 (Fin c)"
    "is_f64 (Fin s)" "0 < c" "c \<le> s" "b \<le> s" "n_stepsInEpisode n = 0 \<Longrightarrow> b = s \<and> c = s" "0 \<le> n_stepsInEpisode n" by (rule notional_okE) blast
  from assms(2) obtain ys yb yc where y: "scaleAccountFigure (Fin s) equityBefore (f_add equityBefore amount) = Inr ys"
    "scaleAccountFigure (Fin b) equityBefore (f_add equityBefore amount) = Inr yb"
    "scaleAccountFigure (Fin c) equityBefore (f_add equityBefore amount) = Inr yc"
    and n': "n' = n\<lparr>n_startingFigure := ys, n_base := yb, n_current := yc\<rparr>"
    using r by (auto simp: ApplyCashMovement_def Let_def go_bind)
  obtain k where k: "f_div (f_add equityBefore amount) equityBefore = Fin k" "ys = Fin (rndq (s * k))" "is_f64 ys" "0 < rndq (s * k)"
    using scaleAccountFigure_Inr [OF y(1)] by blast
  have b: "yb = Fin (rndq (b * k))" "is_f64 yb" and c: "yc = Fin (rndq (c * k))" "is_f64 yc" "0 < rndq (c * k)"
    using scaleAccountFigure_Inr [OF y(2)] scaleAccountFigure_Inr [OF y(3)] k(1) by auto
  have "0 \<le> k"
  proof (rule ccontr)
    assume "\<not> 0 \<le> k"
    then have "rndq (s * k) \<le> 0" using r(7,8) by (intro rndq_le) (auto intro: mult_nonneg_nonpos)
    then show False using k(4) by simp
  qed
  then have "rndq (c * k) \<le> rndq (s * k)" "rndq (b * k) \<le> rndq (s * k)" using r(8,9) by (auto intro: rndq_mono mult_right_mono)
  then show "notional_ok n'" using r(10,11) k b c by (auto simp: notional_ok_def n')
  show "n_stepsInEpisode n' = n_stepsInEpisode n" "n_hasPeriodLabel n' = n_hasPeriodLabel n" "n_periodLabel n' = n_periodLabel n" by (simp_all add: n')
qed

section \<open>Where the ladder stands still\<close>

text \<open>Once a tenth of the account rounds away against the measurement base, the threshold is the base itself, on this rung and every later one.\<close>

lemma stuck_stepDown:
  assumes "n_base n = Fin b" "n_current n = Fin c" "is_f64 (Fin b)" "is_f64 (Fin c)" "0 < c" "thresholdOf n = Fin b"
  shows "\<exists>d. n_base (stepDown n) = Fin b \<and> n_current (stepDown n) = Fin d \<and> is_f64 (Fin d) \<and> 0 < d \<and> thresholdOf (stepDown n) = Fin b"
proof -
  let ?f = "3602879701896397 / 36028797018963968"
  obtain d where d: "DrawdownSteppedNotional (Fin c) = (Fin d, True)" "is_f64 (Fin d)" "0 < d" "d \<le> c"
    using DrawdownStepped_Fin [OF assms(4,5)] by blast
  have s: "n_base (stepDown n) = Fin b" "n_current (stepDown n) = Fin d" using assms d(1) by (simp_all add: stepDown_def)
  have "f_mul (Fin ?f) (Fin c) \<noteq> PInf" using assms(6) by (auto simp: thresholdOf_def Product_def threshold_Fin assms(1,2) f_sub_def)
  then have "f_mul (Fin ?f) (Fin c) = Fin (rndq (?f * c))"
    using rnd_nonneg_cases [of "?f * c"] assms(5) by simp
  then obtain u where u: "f_mul (Fin ?f) (Fin d) = Fin u" "0 \<le> u" "u \<le> rndq (?f * c)"
    using f_mul_mono_Fin [of "Fin ?f" "Fin ?f" "Fin d" "Fin c"] d by auto
  have "f_le (rnd (b - rndq (?f * c))) (rnd (b - u))" using u by (intro f_le_rnd) simp
  moreover have "rnd (b - rndq (?f * c)) = Fin b"
    using assms(6) \<open>f_mul (Fin ?f) (Fin c) = Fin (rndq (?f * c))\<close> by (simp add: thresholdOf_def Product_def threshold_Fin assms(1,2))
  moreover have "f_le (rnd (b - u)) (Fin b)" using f_le_sub_right [OF assms(3) u(2)] by simp
  ultimately have "rnd (b - u) = Fin b" by (cases "rnd (b - u)") auto
  then have "thresholdOf (stepDown n) = Fin b" using u s by (simp add: thresholdOf_def Product_def threshold_Fin del: f_mul.simps)
  then show ?thesis using s d by blast
qed

lemma observeLoop_stuck:
  assumes "n_base n = Fin b" "n_current n = Fin c" "is_f64 (Fin b)" "is_f64 (Fin c)" "0 < c" "thresholdOf n = Fin b" "e \<le> b"
  shows "observeLoop fuel n (Fin e) = Inl [''the drawdown steps did not terminate'']"
  using assms
proof (induction fuel arbitrary: n c)
  case (Suc fuel)
  from stuck_stepDown [OF Suc.prems(1-6)] obtain d where d: "n_base (stepDown n) = Fin b" "n_current (stepDown n) = Fin d" "is_f64 (Fin d)" "0 < d"
    "thresholdOf (stepDown n) = Fin b" by blast
  have "snd (DrawdownSteppedNotional (n_current n))" using DrawdownStepped_Fin [OF Suc.prems(4,5)] Suc.prems(2) by auto
  then show ?case using Suc.IH [OF d(1,2) Suc.prems(3) d(3-5) Suc.prems(7)] Suc.prems(6,7) by simp
qed simp

text \<open>C9: The bound on the steps of one observation is not unreachable. When a tenth of the account rounds away against its measurement
  base, every further step leaves the base where it is, so an equity at the base, although above the asymptote the code checks first,
  makes \<open>Observe\<close> take all 1024 steps and fail with the error that says the ladder has a defect.\<close>

theorem Observe_stands_still:
  assumes "notional_ok n" "thresholdOf n = n_base n" "\<not> f_le (n_base n) (drawdownLimit n)" "f_lt (Fin 0) (n_base n)"
  shows "Observe n (n_base n) = Inl [''the drawdown steps did not terminate'']"
proof -
  from assms(1) obtain b c s where r: "n_base n = Fin b" "n_current n = Fin c" "is_f64 (Fin b)" "is_f64 (Fin c)" "0 < c" by (rule notional_okE) blast
  have "figureErrs (n_base n) = []" using r assms(4) by (simp add: figureErrs_Nil)
  then show ?thesis using observeLoop_stuck [OF r _ order.refl] assms(2,3) r(1) by (simp add: Observe_def)
qed

lemma Observe_stands_still_witness:
  "Observe (accountOf 9007199254740992 (3 / 2) 9007199254740992 1) (Fin 9007199254740992) = Inl [''the drawdown steps did not terminate'']"
proof -
  let ?n = "accountOf 9007199254740992 (3 / 2) 9007199254740992 1"
  have b: "n_base ?n = Fin 9007199254740992" by (simp add: accountOf_def)
  have "is_f64 (Fin (3 / 2))" by code_simp
  then have ok: "notional_ok ?n" by (auto simp: notional_ok_def accountOf_def is_f64_numeral intro!: exI [of _ "3 / 2"])
  have "thresholdOf ?n = Fin 9007199254740992" "\<not> f_le (Fin 9007199254740992) (drawdownLimit ?n)" by code_simp+
  then show ?thesis using Observe_stands_still [OF ok] b by simp
qed

end
