(* ===== verification/TurtleAccount.thy ===== *)
theory TurtleAccount
  imports Notional
begin

text \<open>
  The account the Turtle reducer keeps beside its instruments (\<open>strategy/notional.go\<close>, \<open>hold.go\<close> and the cash figures of
  \<open>reducer.go\<close>): the Notional Account and the timeline its events share, the spendable cash of the last snapshot, what
  fills since have cost, and what outstanding proposals hold of it. A rejected input leaves the published state as it was
  (\<open>transition.go\<close>), so a handler is a function to an error or to the state and decisions it commits; the record is
  extensible, for the instruments a reducer holds besides.
\<close>

record unit_classification =
  cl_Unclassified :: bool
  cl_Industry :: string
  cl_Sector :: string

record hold =
  hd_proposalID :: string
  hd_instrumentID :: string
  hd_classification :: unit_classification
  hd_cost :: f64

record buy_debit =
  fd_filledAt :: gotime
  fd_cost :: f64

record account =
  ac_configured :: bool
  ac_dollarsPerPoint :: f64
  ac_notionalAccount :: notional
  ac_drawdownStepsSeen :: int
  ac_lastAccountEventAt :: gotime
  ac_hasAccountEvent :: bool
  ac_accountCurrency :: string
  ac_availableCash :: f64
  ac_availableCashAsOf :: gotime
  ac_hasAvailableCash :: bool
  ac_fillDebits :: "buy_debit list"
  ac_holds :: "hold list"

section \<open>Fill debits\<close>

definition fillDebitCost :: "'a account_scheme \<Rightarrow> fill_payload \<Rightarrow> f64" where
  "fillDebitCost r fill = f_add (f_mul (f_mul (f_of_int (fl_Quantity fill)) (fl_Price fill)) (ac_dollarsPerPoint r)) (fl_Commission fill)"

definition fillDebitTotal :: "'a account_scheme \<Rightarrow> f64" where
  "fillDebitTotal r = foldl (\<lambda>total d. f_add total (fd_cost d)) (Fin 0) (ac_fillDebits r)"

definition debitFill :: "'a account_scheme \<Rightarrow> fill_payload \<Rightarrow> (err list, 'a account_scheme) result" where
  "debitFill r fill = (let cost = fillDebitCost r fill in
     failIf (\<not> isFinite cost) [''the fill costs more than the representable range of spendable cash'']
     (if ac_hasAvailableCash r \<and> fl_FilledAt fill \<le> ac_availableCashAsOf r then Inr r
      else failIf (\<not> isFinite (f_add (fillDebitTotal r) cost)) [''the fill costs more than the representable range of spendable cash'']
        (Inr (r\<lparr>ac_fillDebits := ac_fillDebits r @ [\<lparr>fd_filledAt = fl_FilledAt fill, fd_cost = cost\<rparr>]\<rparr>))))"

definition dropReflectedFillDebits :: "'a account_scheme \<Rightarrow> 'a account_scheme" where
  "dropReflectedFillDebits r = r\<lparr>ac_fillDebits := filter (\<lambda>d. ac_availableCashAsOf r < fd_filledAt d) (ac_fillDebits r)\<rparr>"

section \<open>Holds\<close>

definition placeHold :: "'a account_scheme \<Rightarrow> string \<Rightarrow> string \<Rightarrow> unit_classification \<Rightarrow> f64 \<Rightarrow> (err list, 'a account_scheme) result" where
  "placeHold r proposalID instrumentID c cost =
     failIf (\<exists>h \<in> set (ac_holds r). hd_proposalID h = proposalID) [''the proposal already has a hold standing'']
     (Inr (r\<lparr>ac_holds := ac_holds r @ [\<lparr>hd_proposalID = proposalID, hd_instrumentID = instrumentID, hd_classification = c, hd_cost = cost\<rparr>]\<rparr>))"

text \<open>\<open>slices.IndexFunc\<close> and \<open>slices.Delete\<close>: the first hold of the proposal goes.\<close>

fun removeFirst :: "('a \<Rightarrow> bool) \<Rightarrow> 'a list \<Rightarrow> 'a list" where
  "removeFirst P [] = []"
| "removeFirst P (x # xs) = (if P x then xs else x # removeFirst P xs)"

definition releaseHold :: "'a account_scheme \<Rightarrow> string \<Rightarrow> (err list, 'a account_scheme) result" where
  "releaseHold r proposalID =
     failIf (\<forall>h \<in> set (ac_holds r). hd_proposalID h \<noteq> proposalID) [''the proposal has no hold standing to release'']
     (Inr (r\<lparr>ac_holds := removeFirst (\<lambda>h. hd_proposalID h = proposalID) (ac_holds r)\<rparr>))"

definition holdTotal :: "'a account_scheme \<Rightarrow> f64" where
  "holdTotal r = foldl (\<lambda>total h. f_add total (hd_cost h)) (Fin 0) (ac_holds r)"

text \<open>Spendable cash at a decision: the zero time, no previous close, is before every snapshot.\<close>

definition cashAtPreviousClose :: "'a account_scheme \<Rightarrow> gotime \<Rightarrow> (err list, f64) result" where
  "cashAtPreviousClose r previousClose =
     failIf (\<not> ac_hasAvailableCash r) [''no account snapshot has ever supplied an available-cash figure'']
     (failIf (previousClose < ac_availableCashAsOf r) [''the available-cash figure is not cash known at the previous close'']
     (Inr (f_sub (f_sub (ac_availableCash r) (fillDebitTotal r)) (holdTotal r))))"

definition wholeUnitCost :: "int \<Rightarrow> f64 \<Rightarrow> f64 \<Rightarrow> f64 \<times> bool" where
  "wholeUnitCost quantity level dollarsPerPoint = (let cost = f_mul (f_mul (f_of_int quantity) level) dollarsPerPoint in (cost, isFinite cost))"

section \<open>Snapshots and movements\<close>

definition pinAccountCurrency :: "'a account_scheme \<Rightarrow> string \<Rightarrow> (err list, 'a account_scheme) result" where
  "pinAccountCurrency r currency =
     (if ac_accountCurrency r = '''' then Inr (r\<lparr>ac_accountCurrency := currency\<rparr>)
      else failIf (currency \<noteq> ac_accountCurrency r) [''the currency does not match the account's pinned currency''] (Inr r))"

text \<open>Every payload is validated in its order before anything is committed; the first that fails is the error.\<close>

definition journal :: "account_decision list \<Rightarrow> (err list, account_decision list) result" where
  "journal ds = (case dropWhile (\<lambda>d. Decision_Validate d = []) ds of [] \<Rightarrow> Inr ds | d # _ \<Rightarrow> Inl (Decision_Validate d))"

definition AccountSnapshotSchemaVersion :: int where "AccountSnapshotSchemaVersion = 2"

definition rebasedPayload :: "gotime \<Rightarrow> rebase \<Rightarrow> account_decision" where
  "rebasedPayload asOf b = Rebased \<lparr>rb_AsOf = asOf, rb_PreviousStartingFigure = rbs_PreviousStartingFigure b,
     rb_NewStartingFigure = rbs_NewStartingFigure b, rb_Equity = rbs_Equity b, rb_Rule = RuleNotionalAccountRebase, rb_ADR = ADRNotionalAccountRebase\<rparr>"

definition steppedPayload :: "gotime \<Rightarrow> drawdown_step \<Rightarrow> int \<Rightarrow> account_decision" where
  "steppedPayload asOf s number = Stepped \<lparr>ds_AsOf = asOf, ds_Equity = dsp_Equity s, ds_Threshold = dsp_Threshold s,
     ds_NotionalBefore = dsp_From s, ds_NotionalAfter = dsp_To s, ds_StepNumber = number, ds_Rule = RuleNotionalAccountDrawdownStep,
     ds_ADR = ADRNotionalAccountDrawdownStep\<rparr>"

definition recoveredPayload :: "gotime \<Rightarrow> recovery_of_account \<Rightarrow> account_decision" where
  "recoveredPayload asOf c = Recovered \<lparr>rcv_AsOf = asOf, rcv_Equity = rco_Equity c, rcv_StartingFigure = rco_StartingFigure c,
     rcv_NotionalBefore = rco_NotionalBefore c, rcv_StepsCleared = rco_StepsCleared c, rcv_Rule = RuleNotionalAccountRecovery,
     rcv_ADR = ADRNotionalAccountRecovery\<rparr>"

text \<open>The steps, numbered on from the count of the episode.\<close>

fun steppedPayloads :: "gotime \<Rightarrow> int \<Rightarrow> drawdown_step list \<Rightarrow> account_decision list" where
  "steppedPayloads asOf seen [] = []"
| "steppedPayloads asOf seen (s # ss) = steppedPayload asOf s (seen + 1) # steppedPayloads asOf (seen + 1) ss"

definition applyAccountSnapshot ::
    "'a account_scheme \<Rightarrow> int \<Rightarrow> account_snapshot \<Rightarrow> (err list, 'a account_scheme \<times> account_decision list) result" where
  "applyAccountSnapshot r version p =
     failIf (\<not> ac_configured r) [''received an account snapshot before a configuration event'']
     (failIf (version \<noteq> AccountSnapshotSchemaVersion) [''account snapshot payload schema version does not match'']
     (joinErrs (Snapshot_Validate p)
     (bindr (pinAccountCurrency r (as_Currency p)) (\<lambda>r.
      failIf (ac_hasAccountEvent r \<and> as_AsOf p \<le> ac_lastAccountEventAt r) [''the account snapshot is not strictly after the last recorded account event'']
     (bindr (ObserveSnapshot (ac_notionalAccount r) (as_AsOf p) (as_Equity p)) (\<lambda>(n, rebase, steps, recovery).
        let r = dropReflectedFillDebits (r\<lparr>ac_notionalAccount := n, ac_lastAccountEventAt := as_AsOf p, ac_hasAccountEvent := True,
                  ac_availableCash := as_AvailableCash p, ac_availableCashAsOf := as_AsOf p, ac_hasAvailableCash := True\<rparr>);
            seen = (if rebase = None then ac_drawdownStepsSeen r else 0);
            ds = (case rebase of None \<Rightarrow> [] | Some b \<Rightarrow> [rebasedPayload (as_AsOf p) b])
              @ steppedPayloads (as_AsOf p) seen steps
              @ (case recovery of None \<Rightarrow> [] | Some c \<Rightarrow> [recoveredPayload (as_AsOf p) c])
        in bindr (journal ds) (\<lambda>ds.
             Inr (r\<lparr>ac_drawdownStepsSeen := if recovery = None then seen + int (length steps) else 0\<rparr>, ds))))))))"

definition adjustedPayload :: "gotime \<Rightarrow> movement_of_account \<Rightarrow> account_decision" where
  "adjustedPayload asOf m = Adjusted \<lparr>cj_AsOf = asOf, cj_Amount = mv_Amount m, cj_EquityBefore = mv_EquityBefore m, cj_EquityAfter = mv_EquityAfter m,
     cj_StartingFigureBefore = mv_StartingFigureBefore m, cj_StartingFigureAfter = mv_StartingFigureAfter m, cj_NotionalBefore = mv_NotionalBefore m,
     cj_NotionalAfter = mv_NotionalAfter m, cj_Rule = RuleNotionalAccountCashAdjustment, cj_ADR = ADRNotionalAccountCashAdjustment\<rparr>"

definition applyCashMovement ::
    "'a account_scheme \<Rightarrow> int \<Rightarrow> cash_movement \<Rightarrow> (err list, 'a account_scheme \<times> account_decision list) result" where
  "applyCashMovement r version p =
     failIf (\<not> ac_configured r) [''received a cash movement before a configuration event'']
     (failIf (version \<noteq> CashMovementSchemaVersion) [''cash movement payload schema version does not match'']
     (joinErrs (CashMovement_Validate p)
     (bindr (pinAccountCurrency r (cm_Currency p)) (\<lambda>r.
      failIf (ac_hasAccountEvent r \<and> cm_AsOf p \<le> ac_lastAccountEventAt r) [''the cash movement is not strictly after the last recorded account event'']
     (bindr (ApplyCashMovement (ac_notionalAccount r) (cm_EquityBefore p) (cm_Amount p)) (\<lambda>(n, movement).
        let r = r\<lparr>ac_notionalAccount := n, ac_lastAccountEventAt := cm_AsOf p, ac_hasAccountEvent := True,
                  ac_availableCash := if ac_hasAvailableCash r \<and> f_lt (cm_Amount p) (Fin 0)
                    then f_max (Fin 0) (f_add (ac_availableCash r) (cm_Amount p)) else ac_availableCash r\<rparr>
        in bindr (journal [adjustedPayload (cm_AsOf p) movement]) (\<lambda>ds. Inr (r, ds))))))))"

text \<open>The account a configuration opens (\<open>applyConfiguration\<close>).\<close>

definition openAccount :: "f64 \<Rightarrow> f64 \<Rightarrow> int \<Rightarrow> int \<Rightarrow> (err list, account) result" where
  "openAccount dollarsPerPoint starting month day =
     bindr (NewNotionalAccount starting month day) (\<lambda>n.
       Inr \<lparr>ac_configured = True, ac_dollarsPerPoint = dollarsPerPoint, ac_notionalAccount = n, ac_drawdownStepsSeen = 0, ac_lastAccountEventAt = 0,
         ac_hasAccountEvent = False, ac_accountCurrency = '''', ac_availableCash = Fin 0, ac_availableCashAsOf = 0, ac_hasAvailableCash = False,
         ac_fillDebits = [], ac_holds = []\<rparr>)"

section \<open>A run of the account\<close>

datatype account_event =
  SnapshotTaken int account_snapshot
| CashMoved int cash_movement
| FillDebited fill_payload
| HoldPlaced string string unit_classification f64
| HoldReleased string

definition accountStep :: "'a account_scheme \<Rightarrow> account_event \<Rightarrow> (err list, 'a account_scheme \<times> account_decision list) result" where
  "accountStep r e = (case e of
     SnapshotTaken version p \<Rightarrow> applyAccountSnapshot r version p
   | CashMoved version p \<Rightarrow> applyCashMovement r version p
   | FillDebited fill \<Rightarrow> bindr (debitFill r fill) (\<lambda>r. Inr (r, []))
   | HoldPlaced proposalID instrumentID c cost \<Rightarrow> bindr (placeHold r proposalID instrumentID c cost) (\<lambda>r. Inr (r, []))
   | HoldReleased proposalID \<Rightarrow> bindr (releaseHold r proposalID) (\<lambda>r. Inr (r, [])))"

fun accountRun :: "'a account_scheme \<Rightarrow> account_event list \<Rightarrow> (err list, 'a account_scheme \<times> account_decision list) result" where
  "accountRun r [] = Inr (r, [])"
| "accountRun r (e # es) = bindr (accountStep r e) (\<lambda>(r, ds). bindr (accountRun r es) (\<lambda>(r, ds'). Inr (r, ds @ ds')))"

text \<open>The figures of an event are floats.\<close>

definition event_f64 :: "account_event \<Rightarrow> bool" where
  "event_f64 e = (case e of SnapshotTaken v p \<Rightarrow> is_f64 (as_Equity p) \<and> is_f64 (as_AvailableCash p) | _ \<Rightarrow> True)"

lemma journal_Inr [simp]: "journal ds = Inr ds' \<longleftrightarrow> ds' = ds \<and> (\<forall>d \<in> set ds. Decision_Validate d = [])"
proof (cases "dropWhile (\<lambda>d. Decision_Validate d = []) ds")
  case Nil
  then have "\<forall>d \<in> set ds. Decision_Validate d = []" by (simp add: dropWhile_eq_Nil_conv)
  moreover have "journal ds = Inr ds" by (simp add: journal_def Nil)
  ultimately show ?thesis by (simp only: sum.inject) blast
next
  case (Cons d xs)
  then have "\<not> (\<forall>d \<in> set ds. Decision_Validate d = [])" unfolding dropWhile_eq_Nil_conv [symmetric] by simp
  moreover have "journal ds = Inl (Decision_Validate d)" by (simp add: journal_def Cons)
  ultimately show ?thesis by (simp only: sum.distinct) blast
qed

lemma pinAccountCurrency_Inr: "pinAccountCurrency r c = Inr r' \<Longrightarrow> \<exists>cur. r' = r\<lparr>ac_accountCurrency := cur\<rparr>"
  by (auto simp: pinAccountCurrency_def split: if_splits) (metis account.surjective account.update_convs(7))

definition rebasedDecisions :: "gotime \<Rightarrow> rebase option \<Rightarrow> account_decision list" where
  "rebasedDecisions asOf rebase = (case rebase of None \<Rightarrow> [] | Some b \<Rightarrow> [rebasedPayload asOf b])"

definition recoveredDecisions :: "gotime \<Rightarrow> recovery_of_account option \<Rightarrow> account_decision list" where
  "recoveredDecisions asOf recovery = (case recovery of None \<Rightarrow> [] | Some c \<Rightarrow> [recoveredPayload asOf c])"

lemma applyAccountSnapshot_Inr:
  assumes "applyAccountSnapshot r version p = Inr (r', ds)"
  obtains n rebase steps recovery cur seen where
    "ObserveSnapshot (ac_notionalAccount r) (as_AsOf p) (as_Equity p) = Inr (n, rebase, steps, recovery)"
    "ac_hasAccountEvent r \<Longrightarrow> ac_lastAccountEventAt r < as_AsOf p" "Snapshot_Validate p = []"
    "seen = (if rebase = None then ac_drawdownStepsSeen r else 0)"
    "ds = rebasedDecisions (as_AsOf p) rebase @ steppedPayloads (as_AsOf p) seen steps @ recoveredDecisions (as_AsOf p) recovery"
    "r' = r\<lparr>ac_accountCurrency := cur, ac_notionalAccount := n, ac_lastAccountEventAt := as_AsOf p, ac_hasAccountEvent := True,
        ac_availableCash := as_AvailableCash p, ac_availableCashAsOf := as_AsOf p, ac_hasAvailableCash := True,
        ac_fillDebits := filter (\<lambda>d. as_AsOf p < fd_filledAt d) (ac_fillDebits r),
        ac_drawdownStepsSeen := if recovery = None then seen + int (length steps) else 0\<rparr>"
proof -
  from assms obtain r1 where r1: "pinAccountCurrency r (as_Currency p) = Inr r1" "Snapshot_Validate p = []"
    by (auto simp: applyAccountSnapshot_def go_bind)
  from pinAccountCurrency_Inr [OF r1(1)] obtain cur where cur: "r1 = r\<lparr>ac_accountCurrency := cur\<rparr>" by blast
  obtain n rebase steps recovery where o: "ObserveSnapshot (ac_notionalAccount r) (as_AsOf p) (as_Equity p) = Inr (n, rebase, steps, recovery)"
    using assms r1 by (auto simp: applyAccountSnapshot_def cur go_bind)
  show thesis
    using assms r1 o by (intro that [OF o _ r1(2) refl])
      (auto simp: applyAccountSnapshot_def cur dropReflectedFillDebits_def Let_def rebasedDecisions_def recoveredDecisions_def bindr_eq_Inr)
qed

lemma applyCashMovement_Inr:
  assumes "applyCashMovement r version p = Inr (r', ds)"
  obtains n movement cur cash where
    "ApplyCashMovement (ac_notionalAccount r) (cm_EquityBefore p) (cm_Amount p) = Inr (n, movement)"
    "ac_hasAccountEvent r \<Longrightarrow> ac_lastAccountEventAt r < cm_AsOf p" "CashMovement_Validate p = []"
    "cash = (if ac_hasAvailableCash r \<and> f_lt (cm_Amount p) (Fin 0) then f_max (Fin 0) (f_add (ac_availableCash r) (cm_Amount p)) else ac_availableCash r)"
    "ds = [adjustedPayload (cm_AsOf p) movement]"
    "r' = r\<lparr>ac_accountCurrency := cur, ac_notionalAccount := n, ac_lastAccountEventAt := cm_AsOf p, ac_hasAccountEvent := True, ac_availableCash := cash\<rparr>"
proof -
  from assms obtain r1 where r1: "pinAccountCurrency r (cm_Currency p) = Inr r1" "CashMovement_Validate p = []"
    by (auto simp: applyCashMovement_def go_bind)
  from pinAccountCurrency_Inr [OF r1(1)] obtain cur where cur: "r1 = r\<lparr>ac_accountCurrency := cur\<rparr>" by blast
  obtain n movement where o: "ApplyCashMovement (ac_notionalAccount r) (cm_EquityBefore p) (cm_Amount p) = Inr (n, movement)"
    using assms r1 by (auto simp: applyCashMovement_def cur go_bind)
  show thesis
    using assms r1 o by (intro that [OF o _ r1(2) refl]) (auto simp: applyCashMovement_def cur Let_def bindr_eq_Inr)
qed

section \<open>What every accepted event keeps\<close>

definition account_ok :: "'a account_scheme \<Rightarrow> bool" where
  "account_ok r \<longleftrightarrow> notional_ok (ac_notionalAccount r) \<and> ac_drawdownStepsSeen r = n_stepsInEpisode (ac_notionalAccount r)
     \<and> distinct (map hd_proposalID (ac_holds r))
     \<and> (ac_hasAvailableCash r \<longrightarrow> f_nonneg (ac_availableCash r) \<and> isFinite (ac_availableCash r) \<and> is_f64 (ac_availableCash r) \<and>
          ac_hasAccountEvent r \<and> ac_availableCashAsOf r \<le> ac_lastAccountEventAt r)"

lemma ObserveSnapshot_count:
  assumes "ObserveSnapshot n asOf equity = Inr (n', rebase, steps, recovery)" "notional_ok n"
  shows "n_stepsInEpisode n' = (if recovery = None then (if rebase = None then n_stepsInEpisode n else 0) + int (length steps) else 0)"
  using assms(1)
proof (rule ObserveSnapshot_Inr)
  fix e n1 n2
  assume h: "equity = Fin e" "0 < e" "rebasePeriod n asOf equity = (n1, rebase)" "Observe n1 equity = Inr (n2, steps)"
    "recover (n2\<lparr>n_stepsInEpisode := n_stepsInEpisode n2 + int (length steps)\<rparr>) equity = (n', recovery)"
  have 1: "n_stepsInEpisode n1 = (if rebase = None then n_stepsInEpisode n else 0)"
    using h(3) by (auto simp: rebasePeriod_def Let_def split: if_splits)
  have "observeLoop maxDrawdownStepsPerObservation n1 equity = Inr (n2, steps)" using h(4) by (simp add: Observe_def)
  from observeLoop_rung [OF this] have 2: "n_stepsInEpisode n2 = n_stepsInEpisode n1" by (metis rung_steps)
  show ?thesis using h(5) 1 2 by (auto simp: recover_def split: if_splits)
qed

lemma applyAccountSnapshot_ok:
  assumes "account_ok r" "applyAccountSnapshot r version p = Inr (r', ds)" "is_f64 (as_Equity p)" "is_f64 (as_AvailableCash p)"
  shows "account_ok r'"
  using assms(2)
proof (rule applyAccountSnapshot_Inr)
  fix n rebase steps recovery cur seen
  assume h: "ObserveSnapshot (ac_notionalAccount r) (as_AsOf p) (as_Equity p) = Inr (n, rebase, steps, recovery)" "Snapshot_Validate p = []"
    "seen = (if rebase = None then ac_drawdownStepsSeen r else 0)"
    and r': "r' = r\<lparr>ac_accountCurrency := cur, ac_notionalAccount := n, ac_lastAccountEventAt := as_AsOf p, ac_hasAccountEvent := True,
        ac_availableCash := as_AvailableCash p, ac_availableCashAsOf := as_AsOf p, ac_hasAvailableCash := True,
        ac_fillDebits := filter (\<lambda>d. as_AsOf p < fd_filledAt d) (ac_fillDebits r),
        ac_drawdownStepsSeen := if recovery = None then seen + int (length steps) else 0\<rparr>"
  have "notional_ok (ac_notionalAccount r)" using assms(1) by (simp add: account_ok_def)
  then have "notional_ok n" "n_stepsInEpisode n = (if recovery = None then seen + int (length steps) else 0)"
    using ObserveSnapshot_ok [OF _ assms(3) h(1)] ObserveSnapshot_count [OF h(1)] h(3) assms(1) by (simp_all add: account_ok_def)
  moreover have "f_nonneg (as_AvailableCash p)" "isFinite (as_AvailableCash p)"
    using h(2) by (cases "as_AvailableCash p"; auto simp: Snapshot_Validate_def split: if_splits)+
  ultimately show ?thesis using assms(1,4) by (simp add: account_ok_def r')
qed

lemma applyCashMovement_ok:
  assumes "account_ok r" "applyCashMovement r version p = Inr (r', ds)"
  shows "account_ok r'"
  using assms(2)
proof (rule applyCashMovement_Inr)
  fix n movement cur cash
  assume h: "ApplyCashMovement (ac_notionalAccount r) (cm_EquityBefore p) (cm_Amount p) = Inr (n, movement)"
    "ac_hasAccountEvent r \<Longrightarrow> ac_lastAccountEventAt r < cm_AsOf p" "CashMovement_Validate p = []"
    "cash = (if ac_hasAvailableCash r \<and> f_lt (cm_Amount p) (Fin 0) then f_max (Fin 0) (f_add (ac_availableCash r) (cm_Amount p)) else ac_availableCash r)"
    and r': "r' = r\<lparr>ac_accountCurrency := cur, ac_notionalAccount := n, ac_lastAccountEventAt := cm_AsOf p, ac_hasAccountEvent := True, ac_availableCash := cash\<rparr>"
  have "notional_ok (ac_notionalAccount r)" using assms(1) by (simp add: account_ok_def)
  note n = ApplyCashMovement_ok(1,2) [OF this h(1)]
  have "isFinite (cm_Amount p)" using h(3) by (simp add: CashMovement_Validate_def split: if_splits)
  then obtain a where a: "cm_Amount p = Fin a" by (auto simp: isFinite_iff)
  have "ac_hasAvailableCash r \<longrightarrow> f_nonneg cash \<and> isFinite cash \<and> is_f64 cash"
  proof
    assume c: "ac_hasAvailableCash r"
    then obtain v where v: "ac_availableCash r = Fin v" "0 \<le> v" "is_f64 (Fin v)" using assms(1) by (auto simp: account_ok_def isFinite_iff)
    show "f_nonneg cash \<and> isFinite cash \<and> is_f64 cash"
    proof (cases "a < 0")
      case True
      then have "f_le (rnd (v + a)) (Fin v)" using f_le_rnd [of "v + a" v] v(3) by simp
      then have "cash = Fin 0 \<or> (\<exists>w. cash = Fin w \<and> 0 \<le> w \<and> rnd (v + a) = Fin w)"
        using h(4) c v(1) a True by (cases "rnd (v + a)") (auto simp: f_max_def not_less)
      then show ?thesis using is_f64_rnd [of "v + a"] is_f64_0 by (elim disjE exE conjE) (simp_all only: f_nonneg_Fin isFinite.simps order.refl simp_thms)
    next
      case False
      then show ?thesis using h(4) v a by simp
    qed
  qed
  then show ?thesis using assms(1) n h(2) by (auto simp: account_ok_def r')
qed

lemma removeFirst_subset: "set (removeFirst P xs) \<subseteq> set xs"
  by (induction xs) auto

lemma distinct_removeFirst: "distinct (map f xs) \<Longrightarrow> distinct (map f (removeFirst P xs))"
proof (induction xs)
  case (Cons x xs)
  then show ?case using removeFirst_subset [of P xs] by auto
qed simp

lemma accountStep_ok:
  assumes "account_ok r" "event_f64 e" "accountStep r e = Inr (r', ds)"
  shows "account_ok r'"
proof (cases e)
  case (SnapshotTaken version p)
  then show ?thesis using assms applyAccountSnapshot_ok by (auto simp: accountStep_def event_f64_def)
next
  case (CashMoved version p)
  then show ?thesis using assms applyCashMovement_ok by (auto simp: accountStep_def)
next
  case (FillDebited fill)
  then show ?thesis using assms by (auto simp: accountStep_def debitFill_def Let_def account_ok_def go_bind split: if_splits)
next
  case (HoldPlaced proposalID instrumentID c cost)
  then show ?thesis using assms by (auto simp: accountStep_def placeHold_def account_ok_def go_bind)
next
  case (HoldReleased proposalID)
  then show ?thesis using assms by (auto simp: accountStep_def releaseHold_def account_ok_def distinct_removeFirst go_bind)
qed


lemma openAccount_ok:
  assumes "openAccount dollarsPerPoint starting month day = Inr r" "is_f64 starting"
  shows "account_ok r" "ac_fillDebits r = []" "ac_hasAvailableCash r = False" "n_current (ac_notionalAccount r) = starting" "ac_drawdownStepsSeen r = 0"
  using assms NewNotionalAccount_ok by (auto simp: openAccount_def account_ok_def NewNotionalAccount_def figureErrs_Nil notional_ok_def go_bind)


section \<open>A fill is debited once\<close>

fun fillsOf :: "account_event list \<Rightarrow> fill_payload list" where
  "fillsOf [] = []"
| "fillsOf (FillDebited fill # es) = fill # fillsOf es"
| "fillsOf (_ # es) = fillsOf es"

definition notReflected :: "'a account_scheme \<Rightarrow> fill_payload \<Rightarrow> bool" where
  "notReflected r fill \<longleftrightarrow> (ac_hasAvailableCash r \<longrightarrow> ac_availableCashAsOf r < fl_FilledAt fill)"

definition debitOf :: "'a account_scheme \<Rightarrow> fill_payload \<Rightarrow> buy_debit" where
  "debitOf r fill = \<lparr>fd_filledAt = fl_FilledAt fill, fd_cost = fillDebitCost r fill\<rparr>"

definition debitsAre :: "'a account_scheme \<Rightarrow> fill_payload list \<Rightarrow> bool" where
  "debitsAre r fills \<longleftrightarrow> ac_fillDebits r = map (debitOf r) (filter (notReflected r) fills)"

lemma accountStep_dollars: "accountStep r e = Inr (r', ds) \<Longrightarrow> ac_dollarsPerPoint r' = ac_dollarsPerPoint r"
  by (cases e) (auto simp: accountStep_def debitFill_def placeHold_def releaseHold_def Let_def go_bind split: if_splits
      elim!: applyAccountSnapshot_Inr applyCashMovement_Inr)

lemma accountStep_debits:
  assumes "account_ok r" "debitsAre r fills" "accountStep r e = Inr (r', ds)"
  shows "debitsAre r' (fills @ fillsOf [e])"
proof -
  have cost: "debitOf r' = debitOf r" using accountStep_dollars [OF assms(3)] by (simp add: fun_eq_iff debitOf_def fillDebitCost_def)
  show ?thesis
  proof (cases e)
    case (SnapshotTaken version p)
    then have s: "applyAccountSnapshot r version p = Inr (r', ds)" using assms(3) by (simp add: accountStep_def)
    have t: "ac_hasAccountEvent r \<Longrightarrow> ac_lastAccountEventAt r < as_AsOf p" "ac_hasAvailableCash r'" "ac_availableCashAsOf r' = as_AsOf p"
      and d: "ac_fillDebits r' = filter (\<lambda>d. as_AsOf p < fd_filledAt d) (ac_fillDebits r)"
      using s by (auto elim!: applyAccountSnapshot_Inr)
    have "ac_hasAvailableCash r \<Longrightarrow> ac_availableCashAsOf r < as_AsOf p" using t(1) assms(1) by (auto simp: account_ok_def)
    then have "filter (\<lambda>f. as_AsOf p < fl_FilledAt f) (filter (notReflected r) fills) = filter (notReflected r') fills"
      using t by (auto simp: notReflected_def intro!: filter_cong)
    then show ?thesis using d assms(2) cost SnapshotTaken by (simp add: debitsAre_def filter_map comp_def debitOf_def)
  next
    case (CashMoved version p)
    then have s: "applyCashMovement r version p = Inr (r', ds)" using assms(3) by (simp add: accountStep_def)
    then have "notReflected r' = notReflected r" "ac_fillDebits r' = ac_fillDebits r"
      by (auto simp: fun_eq_iff notReflected_def elim!: applyCashMovement_Inr)
    then show ?thesis using assms(2) cost CashMoved by (simp add: debitsAre_def)
  next
    case (FillDebited fill)
    then have "debitFill r fill = Inr r'" using assms(3) by (auto simp: accountStep_def go_bind)
    then have "notReflected r' = notReflected r" "ac_fillDebits r' = ac_fillDebits r @ (if notReflected r fill then [debitOf r fill] else [])"
      by (auto simp: debitFill_def Let_def notReflected_def fun_eq_iff debitOf_def not_le split: if_splits)
    then show ?thesis using assms(2) cost FillDebited by (simp add: debitsAre_def)
  next
    case (HoldPlaced proposalID instrumentID c v)
    then have "notReflected r' = notReflected r" "ac_fillDebits r' = ac_fillDebits r" using assms(3)
      by (auto simp: accountStep_def placeHold_def notReflected_def fun_eq_iff go_bind)
    then show ?thesis using assms(2) cost HoldPlaced by (simp add: debitsAre_def)
  next
    case (HoldReleased proposalID)
    then have "notReflected r' = notReflected r" "ac_fillDebits r' = ac_fillDebits r" using assms(3)
      by (auto simp: accountStep_def releaseHold_def notReflected_def fun_eq_iff go_bind)
    then show ?thesis using assms(2) cost HoldReleased by (simp add: debitsAre_def)
  qed
qed

lemma fillsOf_append: "fillsOf (es @ es') = fillsOf es @ fillsOf es'"
  by (induction es rule: fillsOf.induct) simp_all

lemma accountRun_debits:
  "accountRun r es = Inr (r', ds) \<Longrightarrow> account_ok r \<Longrightarrow> \<forall>e \<in> set es. event_f64 e \<Longrightarrow> debitsAre r fills \<Longrightarrow> debitsAre r' (fills @ fillsOf es)"
proof (induction es arbitrary: r ds fills)
  case (Cons e es)
  then obtain r1 ds1 ds2 where s: "accountStep r e = Inr (r1, ds1)" "accountRun r1 es = Inr (r', ds2)" by (auto simp: go_bind)
  note d = accountStep_debits [OF Cons.prems(2,4) s(1)]
  have ok: "account_ok r1" using accountStep_ok [OF Cons.prems(2) _ s(1)] Cons.prems(3) by simp
  have "debitsAre r' ((fills @ fillsOf [e]) @ fillsOf es)" using Cons.prems(3) by (intro Cons.IH [OF s(2) ok _ d]) simp
  then show ?case using fillsOf_append [of "[e]" es] by simp
qed simp

text \<open>C8: Every fill is debited against spendable cash exactly once. After any run of accepted account events the standing debits are the
  costs, in order, of those fills of the run that the cash figure in force does not reflect yet: all of them before the first snapshot,
  and after it the fills later than the last snapshot's time, whether they were accepted before that snapshot or after it.\<close>

theorem fills_debited_once:
  assumes "openAccount dollarsPerPoint starting month day = Inr r" "is_f64 starting" "\<forall>e \<in> set es. event_f64 e"
    and "accountRun r es = Inr (r', ds)"
  shows "ac_fillDebits r' = map (debitOf r') (filter (notReflected r') (fillsOf es))"
proof -
  note o = openAccount_ok [OF assms(1,2)]
  have "debitsAre r []" using o by (simp add: debitsAre_def)
  then show ?thesis using accountRun_debits [OF assms(4) o(1) assms(3), of "[]"] by (simp add: debitsAre_def)
qed

section \<open>The journal tells the account\<close>

text \<open>What a reader of the journal alone keeps: the Notional Account and the steps outstanding; a decision that does not follow is refused.\<close>

fun auditStep :: "f64 \<times> int \<Rightarrow> account_decision \<Rightarrow> (f64 \<times> int) option" where
  "auditStep (c, k) (Rebased p) = Some (rb_NewStartingFigure p, 0)"
| "auditStep (c, k) (Stepped p) = (if ds_NotionalBefore p = c \<and> ds_StepNumber p = k + 1 then Some (ds_NotionalAfter p, k + 1) else None)"
| "auditStep (c, k) (Recovered p) = (if rcv_NotionalBefore p = c \<and> rcv_StepsCleared p = k then Some (rcv_StartingFigure p, 0) else None)"
| "auditStep (c, k) (Adjusted p) = (if cj_NotionalBefore p = c then Some (cj_NotionalAfter p, k) else None)"

fun audit :: "f64 \<times> int \<Rightarrow> account_decision list \<Rightarrow> (f64 \<times> int) option" where
  "audit s [] = Some s"
| "audit s (d # ds) = (case auditStep s d of None \<Rightarrow> None | Some s' \<Rightarrow> audit s' ds)"

lemma audit_append: "audit s (ds @ ds') = (case audit s ds of None \<Rightarrow> None | Some s' \<Rightarrow> audit s' ds')"
  by (induction s ds rule: audit.induct) (auto split: option.splits)

definition audited :: "'a account_scheme \<Rightarrow> f64 \<times> int" where
  "audited r = (n_current (ac_notionalAccount r), ac_drawdownStepsSeen r)"

lemma audit_rungs:
  "audit (n_current n, seen) (steppedPayloads asOf seen (map (\<lambda>i. stepOf (rung n i) equity) [0..<k])) = Some (n_current (rung n k), seen + int k)"
proof (induction k arbitrary: n seen)
  case (Suc k)
  have "map (\<lambda>i. stepOf (rung n i) equity) [0..<Suc k] = stepOf n equity # map (\<lambda>i. stepOf (rung (stepDown n) i) equity) [0..<k]"
    by (simp add: rung_Suc map_upt_Suc del: upt_Suc)
  moreover have "n_current (stepDown n) = dsp_To (stepOf n equity)" by (simp add: stepDown_def stepOf_def)
  ultimately show ?case using Suc [of "stepDown n" "seen + 1"] by (simp add: steppedPayload_def stepOf_def rung_Suc)
qed simp

lemma applyAccountSnapshot_audit:
  assumes "applyAccountSnapshot r version p = Inr (r', ds)" "account_ok r"
  shows "audit (audited r) ds = Some (audited r')"
  using assms(1)
proof (rule applyAccountSnapshot_Inr)
  fix n rebase steps recovery cur seen
  assume h: "ObserveSnapshot (ac_notionalAccount r) (as_AsOf p) (as_Equity p) = Inr (n, rebase, steps, recovery)"
    "seen = (if rebase = None then ac_drawdownStepsSeen r else 0)"
    and ds: "ds = rebasedDecisions (as_AsOf p) rebase @ steppedPayloads (as_AsOf p) seen steps @ recoveredDecisions (as_AsOf p) recovery"
    and r': "r' = r\<lparr>ac_accountCurrency := cur, ac_notionalAccount := n, ac_lastAccountEventAt := as_AsOf p, ac_hasAccountEvent := True,
        ac_availableCash := as_AvailableCash p, ac_availableCashAsOf := as_AsOf p, ac_hasAvailableCash := True,
        ac_fillDebits := filter (\<lambda>d. as_AsOf p < fd_filledAt d) (ac_fillDebits r),
        ac_drawdownStepsSeen := if recovery = None then seen + int (length steps) else 0\<rparr>"
  have ok: "ac_drawdownStepsSeen r = n_stepsInEpisode (ac_notionalAccount r)" using assms(2) by (simp add: account_ok_def)
  show ?thesis using h(1)
  proof (rule ObserveSnapshot_Inr)
    fix e n1 n2
    assume o: "as_Equity p = Fin e" "rebasePeriod (ac_notionalAccount r) (as_AsOf p) (as_Equity p) = (n1, rebase)" "Observe n1 (as_Equity p) = Inr (n2, steps)"
      "recover (n2\<lparr>n_stepsInEpisode := n_stepsInEpisode n2 + int (length steps)\<rparr>) (as_Equity p) = (n, recovery)"
    have 1: "audit (audited r) (rebasedDecisions (as_AsOf p) rebase) = Some (n_current n1, seen)" "n_stepsInEpisode n1 = seen"
      using o(2) h(2) ok by (auto simp: rebasePeriod_def Let_def rebasedDecisions_def rebasedPayload_def audited_def split: if_splits)
    have "observeLoop maxDrawdownStepsPerObservation n1 (as_Equity p) = Inr (n2, steps)" using o(3) by (simp add: Observe_def)
    note l = observeLoop_rung [OF this]
    then have "steps = map (\<lambda>i. stepOf (rung n1 i) (as_Equity p)) [0..<length steps]" by (intro nth_equalityI) auto
    then have 2: "audit (n_current n1, seen) (steppedPayloads (as_AsOf p) seen steps) = Some (n_current n2, seen + int (length steps))"
      using audit_rungs [of n1 seen "as_AsOf p" "as_Equity p" "length steps"] l by simp
    have "n_stepsInEpisode n2 = seen" using l 1(2) by (metis rung_steps)
    then have 3: "audit (n_current n2, seen + int (length steps)) (recoveredDecisions (as_AsOf p) recovery) = Some (audited r')"
      using o(4) r' by (auto simp: recover_def recoveredDecisions_def recoveredPayload_def audited_def split: if_splits)
    show ?thesis by (simp add: ds audit_append 1(1) 2 3)
  qed
qed

lemma accountStep_audit:
  assumes "accountStep r e = Inr (r', ds)" "account_ok r"
  shows "audit (audited r) ds = Some (audited r')"
proof (cases e)
  case (CashMoved version p)
  then have "applyCashMovement r version p = Inr (r', ds)" using assms(1) by (simp add: accountStep_def)
  then show ?thesis
    by (rule applyCashMovement_Inr) (auto simp: ApplyCashMovement_def Let_def go_bind adjustedPayload_def audited_def)
qed (use assms applyAccountSnapshot_audit in \<open>auto simp: accountStep_def debitFill_def placeHold_def releaseHold_def Let_def go_bind audited_def split: if_splits\<close>)

lemma accountRun_audit:
  "accountRun r es = Inr (r', ds) \<Longrightarrow> account_ok r \<Longrightarrow> \<forall>e \<in> set es. event_f64 e \<Longrightarrow> audit (audited r) ds = Some (audited r')"
proof (induction es arbitrary: r ds)
  case (Cons e es)
  then obtain r1 ds1 ds2 where s: "accountStep r e = Inr (r1, ds1)" "accountRun r1 es = Inr (r', ds2)" "ds = ds1 @ ds2" by (auto simp: go_bind)
  have "account_ok r1" using accountStep_ok [OF Cons.prems(2) _ s(1)] Cons.prems(3) by simp
  then show ?case using Cons.IH [OF s(2)] accountStep_audit [OF s(1) Cons.prems(2)] Cons.prems(3) s(3) by (simp add: audit_append)
qed simp

text \<open>C5: The journal alone tells the account. Reading a run's decisions in order, each Drawdown Step starts from the Notional Account the
  decisions before it leave and carries the next number of its episode, each recovery starts from it and clears exactly the steps
  journalled since the last reset, each cash adjustment starts from it, and the last figure and count are those the reducer holds.\<close>

theorem journal_tells_the_account:
  assumes "openAccount dollarsPerPoint starting month day = Inr r" "is_f64 starting" "\<forall>e \<in> set es. event_f64 e"
    and "accountRun r es = Inr (r', ds)"
  shows "audit (starting, 0) ds = Some (n_current (ac_notionalAccount r'), ac_drawdownStepsSeen r')"
  using accountRun_audit [OF assms(4) openAccount_ok(1) [OF assms(1,2)] assms(3)] openAccount_ok(4,5) [OF assms(1,2)]
  by (simp add: audited_def)

section \<open>A run\<close>

text \<open>A step down at 90000, a fill, a withdrawal and a later snapshot that already reflects the first fill but not the second.\<close>

definition exampleSnapshot :: "int \<Rightarrow> rat \<Rightarrow> account_event" where
  "exampleSnapshot day equity = SnapshotTaken 2 \<lparr>as_AsOf = snapshot2026 + day * day_ns, as_Equity = Fin equity, as_AvailableCash = Fin 50000,
     as_Currency = ''USD'', as_availableCashMissing = False\<rparr>"

definition exampleFill :: "int \<Rightarrow> account_event" where
  "exampleFill day = FillDebited \<lparr>fl_InstrumentID = ''AAPL'', fl_Kind = ''entry'', fl_ProposalID = ''p'', fl_CampaignID = '''', fl_FillID = ''f'', fl_UnitIDs = [],
     fl_Direction = ''long'', fl_Quantity = 10, fl_Price = Fin 100, fl_FilledAt = snapshot2026 + day * day_ns, fl_Level = Fin 100, fl_SlippageApplied = Fin 0,
     fl_Commission = Fin 1\<rparr>"

definition exampleEvents :: "account_event list" where
  "exampleEvents = [exampleSnapshot 0 90000, exampleFill 1,
     CashMoved 1 \<lparr>cm_AsOf = snapshot2026 + 2 * day_ns, cm_Amount = Fin (- 45000), cm_EquityBefore = Fin 90000, cm_Currency = ''USD'',
       cm_TransactionID = '''', cm_EquityBeforeBasis = ''''\<rparr>,
     exampleFill 5, exampleSnapshot 4 44000]"

lemma exampleRun:
  obtains r r' ds where "openAccount (Fin 1) (Fin 100000) 1 1 = Inr r" "accountRun r exampleEvents = Inr (r', ds)" "length ds = 2" "length (ac_fillDebits r') = 1"
proof -
  have "(case openAccount (Fin 1) (Fin 100000) 1 1 of Inr r \<Rightarrow>
      (case accountRun r exampleEvents of Inr (r', ds) \<Rightarrow> length ds = 2 \<and> length (ac_fillDebits r') = 1 | Inl _ \<Rightarrow> False) | Inl _ \<Rightarrow> False)"
    by code_simp
  then show thesis by (auto split: sum.splits intro: that)
qed

lemma exampleEvents_f64: "is_f64 (Fin 100000)" "\<forall>e \<in> set exampleEvents. event_f64 e"
  by (simp_all add: exampleEvents_def exampleSnapshot_def exampleFill_def event_f64_def is_f64_numeral)


lemma fills_debited_once_witness:
  "\<exists>r r' ds. openAccount (Fin 1) (Fin 100000) 1 1 = Inr r \<and> accountRun r exampleEvents = Inr (r', ds) \<and>
     ac_fillDebits r' = map (debitOf r') (filter (notReflected r') (fillsOf exampleEvents)) \<and> length (ac_fillDebits r') = 1"
  using exampleRun fills_debited_once [OF _ exampleEvents_f64] by metis

lemma journal_tells_the_account_witness:
  "\<exists>r r' ds. openAccount (Fin 1) (Fin 100000) 1 1 = Inr r \<and> accountRun r exampleEvents = Inr (r', ds) \<and> length ds = 2 \<and>
     audit (Fin 100000, 0) ds = Some (n_current (ac_notionalAccount r'), ac_drawdownStepsSeen r')"
  using exampleRun journal_tells_the_account [OF _ exampleEvents_f64] by metis

end
