(* ===== verification/SellLedger.thy ===== *)
theory SellLedger
  imports OrderOutcomes
begin

text \<open>
  The pending rule of \<open>internal/risklimit/pending.go\<close>: every recorded fact about sells, and the bound on
  the shares already being sold that a snapshot cannot show. The Go ledger reaches one sell through
  two maps of pointers, so the sells live in a store and the maps hold addresses into it.
\<close>

section \<open>State\<close>

record view =
  v_at :: gotime
  v_by :: int

record stamped =
  st_at :: gotime
  st_by :: int
  st_quantity :: int

record ledger_sell =
  ls_instrumentID :: string
  ls_released :: int
  ls_since :: int
  ls_fills :: "stamped list"
  ls_listings :: "stamped list"
  ls_ended :: bool
  ls_end :: gotime
  ls_endStatus :: lifecycle_status
  ls_venueID :: string

record reference =
  r_view :: view
  r_held :: "(string, int) gomap"

record unknown_sell =
  us_client :: string
  us_listings :: "stamped list"

record sell_ledger =
  sl_store :: "ledger_sell list"
  sl_sells :: "(string, nat) gomap"
  sl_byInstrument :: "string \<Rightarrow> nat list"
  sl_snapshots :: int
  sl_held :: "int \<Rightarrow> (string, int) gomap"
  sl_refs :: "reference list"
  sl_openOrders :: "view list"
  sl_unknown :: "string \<Rightarrow> (string, unknown_sell) gomap"

definition newSellLedger :: sell_ledger where
  "newSellLedger = \<lparr>sl_store = [], sl_sells = [], sl_byInstrument = (\<lambda>_. []), sl_snapshots = 0, sl_held = (\<lambda>_. []),
     sl_refs = [], sl_openOrders = [], sl_unknown = (\<lambda>_. [])\<rparr>"

definition noView :: view where
  "noView = \<lparr>v_at = 0, v_by = 0\<rparr>"

text \<open>\<open>time.Unix(1<<62, 0)\<close>, in nanoseconds since the zero time.\<close>

definition endOfTime :: gotime where
  "endOfTime = (4611686018427387904 + 62135596800) * second_ns"

definition now_view :: view where
  "now_view = \<lparr>v_at = endOfTime, v_by = 0\<rparr>"

definition credits :: "view \<Rightarrow> gotime \<Rightarrow> int \<Rightarrow> bool" where
  "credits v t by \<longleftrightarrow> t < v_at v \<or> (by \<noteq> 0 \<and> by = v_by v)"

definition sell_at :: "sell_ledger \<Rightarrow> nat \<Rightarrow> ledger_sell" where
  "sell_at l a = sl_store l ! a"

definition upd_sell :: "sell_ledger \<Rightarrow> nat \<Rightarrow> (ledger_sell \<Rightarrow> ledger_sell) \<Rightarrow> sell_ledger" where
  "upd_sell l a f = l\<lparr>sl_store := (sl_store l)[a := f (sl_store l ! a)]\<rparr>"

section \<open>Saturating arithmetic\<close>

definition addPending :: "int \<Rightarrow> int \<Rightarrow> int" where
  "addPending a b = (if a > sub64 max64 b then max64 else add64 a b)"

definition subtractPending :: "int \<Rightarrow> int \<Rightarrow> int" where
  "subtractPending held pending = (if held < add64 min64 pending then min64 else sub64 held pending)"

section \<open>Recording facts\<close>

definition new_sell :: "string \<Rightarrow> int \<Rightarrow> int \<Rightarrow> string \<Rightarrow> ledger_sell" where
  "new_sell instrumentID quantity since venueID = \<lparr>ls_instrumentID = instrumentID, ls_released = quantity, ls_since = since,
     ls_fills = [], ls_listings = [], ls_ended = False, ls_end = 0, ls_endStatus = NoLifecycleStatus, ls_venueID = venueID\<rparr>"

definition ledger_release :: "sell_ledger \<Rightarrow> string \<Rightarrow> string \<Rightarrow> int \<Rightarrow> sell_ledger" where
  "ledger_release l client instrumentID quantity =
     (let a = length (sl_store l) in
      l\<lparr>sl_store := sl_store l @ [new_sell instrumentID quantity (sl_snapshots l) ''''],
        sl_sells := mput (sl_sells l) client a,
        sl_byInstrument := (sl_byInstrument l)(instrumentID := sl_byInstrument l instrumentID @ [a])\<rparr>)"

definition restore_matches :: "string \<Rightarrow> string \<Rightarrow> string \<Rightarrow> unknown_sell \<Rightarrow> bool" where
  "restore_matches client venueID brokerID u \<longleftrightarrow> us_client u = client \<or> (venueID \<noteq> '''' \<and> us_client u = '''' \<and> brokerID = venueID)"

definition ledger_restore :: "sell_ledger \<Rightarrow> string \<Rightarrow> string \<Rightarrow> int \<Rightarrow> string \<Rightarrow> sell_ledger" where
  "ledger_restore l client instrumentID quantity venueID =
     (let byID = sl_unknown l instrumentID;
          taken = filter (\<lambda>id. case map_of byID id of None \<Rightarrow> False | Some u \<Rightarrow> restore_matches client venueID id u) (mkeys byID);
          listings = concat (map (\<lambda>id. case map_of byID id of None \<Rightarrow> [] | Some u \<Rightarrow> us_listings u) taken);
          a = length (sl_store l) in
      l\<lparr>sl_store := sl_store l @ [(new_sell instrumentID quantity 0 venueID)\<lparr>ls_listings := listings\<rparr>],
        sl_unknown := (sl_unknown l)(instrumentID := foldl mdel byID taken),
        sl_sells := mput (sl_sells l) client a,
        sl_byInstrument := (sl_byInstrument l)(instrumentID := a # sl_byInstrument l instrumentID)\<rparr>)"

text \<open>
  The references stay sorted by time and then identity, so the binary search of the source finds the
  end of the elements that come before the new view.
\<close>

definition ref_before :: "view \<Rightarrow> reference \<Rightarrow> bool" where
  "ref_before v r \<longleftrightarrow> v_at (r_view r) < v_at v \<or> (v_at (r_view r) = v_at v \<and> v_by (r_view r) < v_by v)"

definition insert_ref :: "view \<Rightarrow> (string, int) gomap \<Rightarrow> reference list \<Rightarrow> reference list" where
  "insert_ref v held rs = takeWhile (ref_before v) rs @ \<lparr>r_view = v, r_held = held\<rparr> # dropWhile (ref_before v) rs"

definition ledger_snapshot :: "sell_ledger \<Rightarrow> gotime \<Rightarrow> (string, int) gomap option \<Rightarrow> bool \<Rightarrow> sell_ledger \<times> view" where
  "ledger_snapshot l asOf held isReference =
     (let n = sl_snapshots l + 1; v = \<lparr>v_at = asOf, v_by = n\<rparr> in
      (l\<lparr>sl_snapshots := n,
         sl_held := (case held of None \<Rightarrow> sl_held l | Some h \<Rightarrow> (sl_held l)(n := h)),
         sl_refs := (if isReference then insert_ref v (case held of None \<Rightarrow> [] | Some h \<Rightarrow> h) (sl_refs l) else sl_refs l)\<rparr>, v))"

definition learnVenue :: "sell_ledger \<Rightarrow> nat \<Rightarrow> string \<Rightarrow> sell_ledger" where
  "learnVenue l a venueID =
     (if venueID = '''' \<or> ls_venueID (sell_at l a) \<noteq> '''' then l
      else let l1 = upd_sell l a (ls_venueID_update (\<lambda>_. venueID)); inst = ls_instrumentID (sell_at l a) in
        (case map_of (sl_unknown l inst) venueID of
           None \<Rightarrow> l1
         | Some u \<Rightarrow>
             if us_client u = '''' then
               (upd_sell l1 a (ls_listings_update (\<lambda>xs. xs @ us_listings u)))
                 \<lparr>sl_unknown := (sl_unknown l1)(inst := mdel (sl_unknown l1 inst) venueID)\<rparr>
             else l1))"

definition byVenue :: "sell_ledger \<Rightarrow> broker_order \<Rightarrow> nat option" where
  "byVenue l b =
     (if bo_ClientOrderID b \<noteq> '''' \<or> bo_BrokerOrderID b = '''' then None
      else case filter (\<lambda>a. ls_venueID (sell_at l a) = bo_BrokerOrderID b) (sl_byInstrument l (bo_InstrumentID b)) of
        [a] \<Rightarrow> Some a | _ \<Rightarrow> None)"

definition listOpenOrder :: "view \<Rightarrow> sell_ledger \<Rightarrow> broker_order \<Rightarrow> sell_ledger" where
  "listOpenOrder v l b =
     (if bo_Side b \<noteq> OrderSideSell then l
      else let listing = \<lparr>st_at = v_at v, st_by = v_by v, st_quantity = bo_RemainingQuantity b\<rparr>;
               own = (case map_of (sl_sells l) (bo_ClientOrderID b) of
                        None \<Rightarrow> None
                      | Some a \<Rightarrow> if ls_instrumentID (sell_at l a) = bo_InstrumentID b then Some a else None) in
        (case own of
           Some a \<Rightarrow> learnVenue (upd_sell l a (ls_listings_update (\<lambda>xs. xs @ [listing]))) a (bo_BrokerOrderID b)
         | None \<Rightarrow>
           (case byVenue l b of
              Some a \<Rightarrow> upd_sell l a (ls_listings_update (\<lambda>xs. xs @ [listing]))
            | None \<Rightarrow>
              (let byID = sl_unknown l (bo_InstrumentID b);
                   old = (case map_of byID (bo_BrokerOrderID b) of None \<Rightarrow> [] | Some u \<Rightarrow> us_listings u);
                   u = \<lparr>us_client = bo_ClientOrderID b, us_listings = old @ [listing]\<rparr> in
               l\<lparr>sl_unknown := (sl_unknown l)(bo_InstrumentID b := mput byID (bo_BrokerOrderID b) u)\<rparr>))))"

definition listOpenOrders :: "sell_ledger \<Rightarrow> view \<Rightarrow> broker_order list \<Rightarrow> sell_ledger" where
  "listOpenOrders l v orders = foldl (listOpenOrder v) (l\<lparr>sl_openOrders := sl_openOrders l @ [v]\<rparr>) orders"

definition venueHolder :: "sell_ledger \<Rightarrow> string \<Rightarrow> string \<Rightarrow> string" where
  "venueHolder l venueID except =
     (if venueID = '''' then ''''
      else case filter (\<lambda>client. client \<noteq> except \<and>
                 (case map_of (sl_sells l) client of None \<Rightarrow> False | Some a \<Rightarrow> ls_venueID (sell_at l a) = venueID)) (mkeys (sl_sells l)) of
        [] \<Rightarrow> '''' | client # _ \<Rightarrow> client)"

definition venueTaken :: "sell_ledger \<Rightarrow> string \<Rightarrow> bool" where
  "venueTaken l venueID \<longleftrightarrow> venueHolder l venueID '''' \<noteq> ''''"

definition refuseSharedVenue :: "sell_ledger \<Rightarrow> broker_order list \<Rightarrow> bool" where
  "refuseSharedVenue l orders \<longleftrightarrow> list_ex (\<lambda>b.
     bo_Side b = OrderSideSell \<and>
     (case map_of (sl_sells l) (bo_ClientOrderID b) of
        None \<Rightarrow> False
      | Some a \<Rightarrow> ls_instrumentID (sell_at l a) = bo_InstrumentID b \<and> venueHolder l (bo_BrokerOrderID b) (bo_ClientOrderID b) \<noteq> '''')) orders"

section \<open>The pending rule\<close>

definition raised :: "stamped list \<Rightarrow> bool" where
  "raised xs \<longleftrightarrow> list_ex (\<lambda>(x, y). st_quantity y > st_quantity x) (zip xs (tl xs))"

definition endedBefore :: "ledger_sell \<Rightarrow> view \<Rightarrow> bool" where
  "endedBefore s v \<longleftrightarrow> ls_ended s \<and> list_all (\<lambda>f. st_at f < v_at v) (ls_fills s) \<and> ls_end s < v_at v"

definition reportedAfter :: "ledger_sell \<Rightarrow> view \<Rightarrow> gotime \<Rightarrow> int" where
  "reportedAfter s v after =
     foldl (\<lambda>n f. if after < st_at f \<and> st_at f < v_at v then addPending n (st_quantity f) else n) 0 (ls_fills s)"

definition filledBy :: "ledger_sell \<Rightarrow> view \<Rightarrow> int" where
  "filledBy s v =
     min (foldl (\<lambda>best x. if credits v (st_at x) (st_by x)
                 then max best (addPending (sub64 (ls_released s) (min (st_quantity x) (ls_released s))) (reportedAfter s v (st_at x)))
                 else best) (reportedAfter s v 0) (ls_listings s))
       (ls_released s)"

text \<open>The first loop of \<open>toGo\<close>, over the released sells of the instrument.\<close>

definition toGo_sell :: "view \<Rightarrow> int \<times> bool \<Rightarrow> ledger_sell \<Rightarrow> int \<times> bool" where
  "toGo_sell v acc s =
     (if endedBefore s v then acc
      else let n = sub64 (ls_released s) (filledBy s v) in
        (addPending (fst acc) n, snd acc \<and> (n = 0 \<or> ls_since s \<ge> v_by v)))"

definition latestListing :: "view \<Rightarrow> view list \<Rightarrow> view" where
  "latestListing v opens = (case find (\<lambda>b. credits v (v_at b) (v_by b)) (rev opens) of None \<Rightarrow> noView | Some b \<Rightarrow> b)"

text \<open>The second loop, over the unknown sells: \<open>None\<close> is its early return.\<close>

definition toGo_unknown :: "view \<Rightarrow> view \<Rightarrow> (int \<times> bool) option \<Rightarrow> unknown_sell \<Rightarrow> (int \<times> bool) option" where
  "toGo_unknown v latest acc u =
     (case acc of None \<Rightarrow> None
      | Some (t, quiet) \<Rightarrow>
        let cr = takeWhile (\<lambda>x. credits v (st_at x) (st_by x)) (us_listings u);
            rest = dropWhile (\<lambda>x. credits v (st_at x) (st_by x)) (us_listings u) in
        if cr \<noteq> [] \<and> st_by (last cr) = v_by latest then
          (if raised (last cr # rest) then None else Some (addPending t (st_quantity (last cr)), False))
        else if rest \<noteq> [] then None
        else Some (t, quiet))"

definition toGo :: "sell_ledger \<Rightarrow> string \<Rightarrow> view \<Rightarrow> (int \<times> bool) option" where
  "toGo l instrumentID v =
     foldl (toGo_unknown v (latestListing v (sl_openOrders l)))
       (Some (foldl (toGo_sell v) (0, True) (map (sell_at l) (sl_byInstrument l instrumentID))))
       (map snd (sl_unknown l instrumentID))"

text \<open>\<open>remains\<close>, from the latest reference back, \<open>stop\<close> the time of the first quiet one.\<close>

fun remains_loop :: "sell_ledger \<Rightarrow> string \<Rightarrow> reference list \<Rightarrow> int \<Rightarrow> gotime \<Rightarrow> int" where
  "remains_loop l instrumentID [] best stop = best"
| "remains_loop l instrumentID (p # ps) best stop =
     (if v_at (r_view p) < stop then best
      else case toGo l instrumentID (r_view p) of
        None \<Rightarrow> remains_loop l instrumentID ps best stop
      | Some (t, quiet) \<Rightarrow>
          remains_loop l instrumentID ps (max best (subtractPending (mget (r_held p) instrumentID 0) t))
            (if quiet \<and> stop = 0 then v_at (r_view p) else stop))"

definition remains :: "sell_ledger \<Rightarrow> string \<Rightarrow> int" where
  "remains l instrumentID = remains_loop l instrumentID (rev (sl_refs l)) 0 0"

definition unshown :: "sell_ledger \<Rightarrow> string \<Rightarrow> view \<Rightarrow> int" where
  "unshown l instrumentID v =
     (if v_by v = 0 then (case toGo l instrumentID now_view of None \<Rightarrow> 0 | Some (t, _) \<Rightarrow> t)
      else max (subtractPending (mget (sl_held l (v_by v)) instrumentID 0) (remains l instrumentID)) 0)"

section \<open>Well-formed ledgers\<close>

definition quantity_ok :: "int \<Rightarrow> bool" where
  "quantity_ok q \<longleftrightarrow> 0 \<le> q \<and> q \<le> max64"

definition sell_wf :: "ledger_sell \<Rightarrow> bool" where
  "sell_wf s \<longleftrightarrow> quantity_ok (ls_released s) \<and> list_all (\<lambda>f. quantity_ok (st_quantity f)) (ls_fills s) \<and>
     list_all (\<lambda>x. quantity_ok (st_quantity x)) (ls_listings s)"

definition ledger_wf :: "sell_ledger \<Rightarrow> bool" where
  "ledger_wf l \<longleftrightarrow> list_all sell_wf (sl_store l) \<and>
     (\<forall>i. list_all (\<lambda>a. a < length (sl_store l)) (sl_byInstrument l i)) \<and>
     list_all (\<lambda>p. snd p < length (sl_store l)) (sl_sells l) \<and>
     (\<forall>i. list_all (\<lambda>p. list_all (\<lambda>x. quantity_ok (st_quantity x)) (us_listings (snd p))) (sl_unknown l i)) \<and>
     0 \<le> sl_snapshots l \<and>
     list_all (\<lambda>r. v_by (r_view r) \<le> sl_snapshots l \<and> (\<forall>i. in64 (mget (r_held r) i 0))) (sl_refs l) \<and>
     (\<forall>n i. in64 (mget (sl_held l n) i 0))"

lemma quantity_ok_in64: "quantity_ok q \<Longrightarrow> in64 q"
  by (simp add: quantity_ok_def in64_def min64_def max64_def)

lemma quantity_ok_0 [simp]: "quantity_ok 0"
  by (simp add: quantity_ok_def max64_def)

lemma addPending_eq: "quantity_ok a \<Longrightarrow> quantity_ok b \<Longrightarrow> addPending a b = min max64 (a + b)"
proof -
  assume ok: "quantity_ok a" "quantity_ok b"
  then have "sub64 max64 b = max64 - b" by (simp add: quantity_ok_in64 quantity_ok_def)
  moreover have "a \<le> max64 - b \<Longrightarrow> add64 a b = a + b"
    using ok by (intro add64_id) (simp add: quantity_ok_def in64_def min64_def)
  ultimately show ?thesis by (auto simp: addPending_def)
qed

lemma addPending_ok: "quantity_ok a \<Longrightarrow> quantity_ok b \<Longrightarrow> quantity_ok (addPending a b)"
  by (simp add: addPending_eq) (simp add: quantity_ok_def)

lemma subtractPending_eq: "in64 h \<Longrightarrow> quantity_ok p \<Longrightarrow> subtractPending h p = max min64 (h - p)"
proof -
  assume ok: "in64 h" "quantity_ok p"
  then have "add64 min64 p = min64 + p" by (simp add: quantity_ok_in64 quantity_ok_def)
  moreover have "min64 + p \<le> h \<Longrightarrow> sub64 h p = h - p"
    using ok by (intro sub64_id) (simp add: quantity_ok_def in64_def)
  ultimately show ?thesis by (auto simp: subtractPending_def)
qed

lemma reportedAfter_ok: "sell_wf s \<Longrightarrow> quantity_ok (reportedAfter s v t)"
proof -
  have "list_all (\<lambda>f. quantity_ok (st_quantity f)) fs \<Longrightarrow> quantity_ok n \<Longrightarrow>
    quantity_ok (foldl (\<lambda>n f. if t < st_at f \<and> st_at f < v_at v then addPending n (st_quantity f) else n) n fs)" for n and fs :: "stamped list"
    by (induction fs arbitrary: n) (auto simp: addPending_ok)
  then show "sell_wf s \<Longrightarrow> ?thesis" by (simp add: reportedAfter_def sell_wf_def)
qed

lemma reportedAfter_le:
  assumes "sell_wf s"
  shows "reportedAfter s v t \<le> (\<Sum>f\<leftarrow>filter (\<lambda>f. t < st_at f \<and> st_at f < v_at v) (ls_fills s). st_quantity f)"
proof -
  have "list_all (\<lambda>f. quantity_ok (st_quantity f)) fs \<Longrightarrow> quantity_ok n \<Longrightarrow>
    foldl (\<lambda>n f. if t < st_at f \<and> st_at f < v_at v then addPending n (st_quantity f) else n) n fs
      \<le> n + (\<Sum>f\<leftarrow>filter (\<lambda>f. t < st_at f \<and> st_at f < v_at v) fs. st_quantity f)" for n and fs :: "stamped list"
  proof (induction fs arbitrary: n)
    case (Cons f fs)
    show ?case
    proof (cases "t < st_at f \<and> st_at f < v_at v")
      case True
      have "addPending n (st_quantity f) \<le> n + st_quantity f" using Cons.prems by (simp add: addPending_eq)
      moreover have "quantity_ok (addPending n (st_quantity f))" using Cons.prems by (simp add: addPending_ok)
      ultimately show ?thesis using Cons.IH [of "addPending n (st_quantity f)"] Cons.prems True by fastforce
    next
      case False
      then show ?thesis using Cons by auto
    qed
  qed simp
  from this [of "ls_fills s" 0] assms show ?thesis by (simp add: reportedAfter_def sell_wf_def)
qed

lemma listing_ok:
  "sell_wf s \<Longrightarrow> x \<in> set (ls_listings s) \<Longrightarrow>
     sub64 (ls_released s) (min (st_quantity x) (ls_released s)) = ls_released s - min (st_quantity x) (ls_released s) \<and>
     quantity_ok (ls_released s - min (st_quantity x) (ls_released s))"
  by (auto simp: sell_wf_def list_all_iff quantity_ok_def intro!: sub64_nonneg) (auto simp: in64_def min64_def)

text \<open>What the facts credited to a view show filled lies between nothing and the release.\<close>

lemma filledBy_cases:
  assumes wf: "sell_wf s"
  shows "0 \<le> filledBy s v \<and> filledBy s v \<le> ls_released s"
    and "filledBy s v \<le> reportedAfter s v 0 \<or> (\<exists>x\<in>set (ls_listings s). credits v (st_at x) (st_by x) \<and>
       filledBy s v \<le> ls_released s - min (st_quantity x) (ls_released s) + reportedAfter s v (st_at x))"
proof -
  define best where "best xs b = foldl (\<lambda>best x. if credits v (st_at x) (st_by x)
      then max best (addPending (sub64 (ls_released s) (min (st_quantity x) (ls_released s))) (reportedAfter s v (st_at x)))
      else best) b xs" for b and xs :: "stamped list"
  have inv: "set xs \<subseteq> set (ls_listings s) \<Longrightarrow> 0 \<le> b \<Longrightarrow>
     0 \<le> best xs b \<and> (best xs b \<le> b \<or> (\<exists>x\<in>set xs. credits v (st_at x) (st_by x) \<and>
       best xs b \<le> ls_released s - min (st_quantity x) (ls_released s) + reportedAfter s v (st_at x)))" for xs b
  proof (induction xs arbitrary: b)
    case (Cons x xs)
    let ?c = "addPending (sub64 (ls_released s) (min (st_quantity x) (ls_released s))) (reportedAfter s v (st_at x))"
    have x: "x \<in> set (ls_listings s)" using Cons.prems by simp
    have c: "?c \<le> ls_released s - min (st_quantity x) (ls_released s) + reportedAfter s v (st_at x)"
      using listing_ok [OF wf x] reportedAfter_ok [OF wf] by (simp add: addPending_eq)
    show ?case
    proof (cases "credits v (st_at x) (st_by x)")
      case True
      have step: "best (x # xs) b = best xs (max b ?c)" using True by (simp add: best_def)
      have "0 \<le> max b ?c" using Cons.prems by simp
      then show ?thesis using Cons.IH [of "max b ?c"] Cons.prems True c unfolding step by (auto simp: max_def split: if_splits)
    next
      case False
      have step: "best (x # xs) b = best xs b" using False by (simp add: best_def)
      show ?thesis using Cons.IH [of b] Cons.prems unfolding step by auto
    qed
  qed (simp add: best_def)
  have r0: "0 \<le> reportedAfter s v 0" using reportedAfter_ok [OF wf] by (simp add: quantity_ok_def)
  have f: "filledBy s v = min (best (ls_listings s) (reportedAfter s v 0)) (ls_released s)"
    by (simp add: filledBy_def best_def)
  have rel: "0 \<le> ls_released s" using wf by (simp add: sell_wf_def quantity_ok_def)
  note i = inv [OF order.refl r0]
  show "0 \<le> filledBy s v \<and> filledBy s v \<le> ls_released s" using i rel unfolding f by auto
  show "filledBy s v \<le> reportedAfter s v 0 \<or> (\<exists>x\<in>set (ls_listings s). credits v (st_at x) (st_by x) \<and>
       filledBy s v \<le> ls_released s - min (st_quantity x) (ls_released s) + reportedAfter s v (st_at x))"
    using i unfolding f by (auto simp: min_def)
qed

definition still :: "ledger_sell \<Rightarrow> view \<Rightarrow> int" where
  "still s v = (if endedBefore s v then 0 else ls_released s - filledBy s v)"

lemma still_ok: "sell_wf s \<Longrightarrow> quantity_ok (still s v)"
  using filledBy_cases(1) [of s v] by (auto simp: still_def sell_wf_def quantity_ok_def)

lemma toGo_sell_eq:
  assumes "sell_wf s" "quantity_ok (fst acc)"
  shows "fst (toGo_sell v acc s) = min max64 (fst acc + still s v)"
proof -
  have "sub64 (ls_released s) (filledBy s v) = ls_released s - filledBy s v"
    using filledBy_cases(1) [OF assms(1), of v] assms(1) by (intro sub64_nonneg) (auto simp: sell_wf_def quantity_ok_in64)
  then show ?thesis using assms still_ok [OF assms(1), of v] addPending_eq [of "fst acc" "still s v"]
    by (auto simp: toGo_sell_def still_def Let_def quantity_ok_def)
qed

lemma toGo_sells_eq:
  assumes "list_all sell_wf ss" "quantity_ok (fst acc)"
  shows "fst (foldl (toGo_sell v) acc ss) = min max64 (fst acc + (\<Sum>s\<leftarrow>ss. still s v))"
  using assms
proof (induction ss arbitrary: acc)
  case (Cons s ss)
  have s: "fst (toGo_sell v acc s) = min max64 (fst acc + still s v)" "quantity_ok (still s v)"
    using Cons.prems by (simp_all add: toGo_sell_eq still_ok)
  then have "quantity_ok (fst (toGo_sell v acc s))" using Cons.prems by (simp add: quantity_ok_def max64_def)
  moreover have "0 \<le> (\<Sum>s\<leftarrow>ss. still s v)"
    using Cons.prems by (intro sum_list_nonneg) (auto simp: list_all_iff still_ok dest!: still_ok [of _ v] simp: quantity_ok_def)
  ultimately show ?case using Cons.IH [of "toGo_sell v acc s"] Cons.prems s by (auto simp: min_def)
qed (simp add: quantity_ok_def)


section \<open>The truth behind the facts\<close>

text \<open>
  What really happens to one instrument, as a person with perfect knowledge would state it:
  \<open>X a P\<close> is what the sell at address \<open>a\<close> has executed when the snapshot \<open>P\<close> is taken and \<open>F a\<close> what it
  executes in all; \<open>G b P\<close> is what the unknown sell \<open>b\<close> executes after \<open>P\<close>; \<open>H\<close> is what is held once
  every sell has ended. The facts are truthful when: an execution reported in an earlier second
  precedes the snapshot, a listing credited to it shows what was executed by then, a sell that a
  report ended executes nothing after the end; an unknown sell executes no more than its remaining
  when its size is not seen to rise, and nothing when the latest listing omits it and no later one
  names it; and the shares held at a reference are those held at the end and those sold since.
\<close>

definition sell_truth :: "ledger_sell \<Rightarrow> (view \<Rightarrow> int) \<Rightarrow> int \<Rightarrow> view \<Rightarrow> bool" where
  "sell_truth s X F P \<longleftrightarrow> 0 \<le> X P \<and> X P \<le> F \<and> F \<le> ls_released s \<and>
     (\<Sum>f\<leftarrow>filter (\<lambda>f. st_at f < v_at P) (ls_fills s). st_quantity f) \<le> X P \<and>
     list_all (\<lambda>x. credits P (st_at x) (st_by x) \<longrightarrow>
        ls_released s - min (st_quantity x) (ls_released s)
        + (\<Sum>f\<leftarrow>filter (\<lambda>f. st_at x < st_at f \<and> st_at f < v_at P) (ls_fills s). st_quantity f) \<le> X P) (ls_listings s) \<and>
     (endedBefore s P \<longrightarrow> X P = F)"

definition unknown_truth :: "view list \<Rightarrow> unknown_sell \<Rightarrow> (view \<Rightarrow> int) \<Rightarrow> view \<Rightarrow> bool" where
  "unknown_truth opens u G P \<longleftrightarrow>
     (let cr = takeWhile (\<lambda>x. credits P (st_at x) (st_by x)) (us_listings u);
          rest = dropWhile (\<lambda>x. credits P (st_at x) (st_by x)) (us_listings u) in
      0 \<le> G P \<and>
      (cr \<noteq> [] \<and> \<not> raised (last cr # rest) \<longrightarrow> G P \<le> st_quantity (last cr)) \<and>
      (rest = [] \<and> (cr = [] \<or> st_by (last cr) \<noteq> v_by (latestListing P opens)) \<longrightarrow> G P = 0))"

definition truthful :: "sell_ledger \<Rightarrow> string \<Rightarrow> (nat \<Rightarrow> view \<Rightarrow> int) \<Rightarrow> (nat \<Rightarrow> int) \<Rightarrow> (string \<Rightarrow> view \<Rightarrow> int) \<Rightarrow> int \<Rightarrow> bool" where
  "truthful l i X F G H \<longleftrightarrow> list_all (\<lambda>r.
     list_all (\<lambda>a. sell_truth (sell_at l a) (X a) (F a) (r_view r)) (sl_byInstrument l i) \<and>
     list_all (\<lambda>p. unknown_truth (sl_openOrders l) (snd p) (G (fst p)) (r_view r)) (sl_unknown l i) \<and>
     mget (r_held r) i 0 \<le> H + (\<Sum>a\<leftarrow>sl_byInstrument l i. F a - X a (r_view r)) + (\<Sum>p\<leftarrow>sl_unknown l i. G (fst p) (r_view r)))
     (sl_refs l)"

lemma sum_list_filter_mono:
  "list_all (\<lambda>x. 0 \<le> g x) xs \<Longrightarrow> (\<And>x. P x \<Longrightarrow> Q x) \<Longrightarrow> (\<Sum>x\<leftarrow>filter P xs. g x) \<le> (\<Sum>x\<leftarrow>filter Q xs. g x :: int)"
proof (induction xs)
  case (Cons x xs)
  then show ?case by (cases "P x"; cases "Q x") auto
qed simp

lemma filledBy_le_truth:
  assumes wf: "sell_wf s" and t: "sell_truth s X F P"
  shows "filledBy s P \<le> X P"
proof -
  have nn: "list_all (\<lambda>f. 0 \<le> st_quantity f) (ls_fills s)" using wf by (auto simp: sell_wf_def quantity_ok_def list_all_iff)
  have "reportedAfter s P 0 \<le> (\<Sum>f\<leftarrow>filter (\<lambda>f. 0 < st_at f \<and> st_at f < v_at P) (ls_fills s). st_quantity f)"
    by (rule reportedAfter_le [OF wf])
  also have "\<dots> \<le> (\<Sum>f\<leftarrow>filter (\<lambda>f. st_at f < v_at P) (ls_fills s). st_quantity f)"
    by (rule sum_list_filter_mono [OF nn]) simp
  finally have r: "reportedAfter s P 0 \<le> X P" using t by (simp add: sell_truth_def)
  from filledBy_cases(2) [OF wf, of P] show ?thesis
  proof
    assume "filledBy s P \<le> reportedAfter s P 0"
    with r show ?thesis by simp
  next
    assume "\<exists>x\<in>set (ls_listings s). credits P (st_at x) (st_by x) \<and>
       filledBy s P \<le> ls_released s - min (st_quantity x) (ls_released s) + reportedAfter s P (st_at x)"
    then obtain x where x: "x \<in> set (ls_listings s)" "credits P (st_at x) (st_by x)"
      "filledBy s P \<le> ls_released s - min (st_quantity x) (ls_released s) + reportedAfter s P (st_at x)" by blast
    then show ?thesis using t reportedAfter_le [OF wf, of P "st_at x"]
      by (fastforce simp: sell_truth_def list_all_iff)
  qed
qed

lemma still_ge_truth: "sell_wf s \<Longrightarrow> sell_truth s X F P \<Longrightarrow> F - X P \<le> still s P"
  using filledBy_le_truth [of s X F P] by (auto simp: still_def sell_truth_def)

lemma sum_still_ge_truth:
  assumes "list_all (\<lambda>a. sell_wf (sell_at l a)) as" "list_all (\<lambda>a. sell_truth (sell_at l a) (X a) (F a) P) as"
  shows "(\<Sum>a\<leftarrow>as. F a - X a P) \<le> (\<Sum>s\<leftarrow>map (sell_at l) as. still s P)"
  using assms
proof (induction as)
  case (Cons a as)
  then show ?case using still_ge_truth [of "sell_at l a" "X a" "F a" P] by auto
qed simp

lemma toGo_unknown_None [simp]: "foldl (toGo_unknown v lt) None us = None"
  by (induction us) (simp_all add: toGo_unknown_def)

lemma toGo_unknown_ge_truth:
  assumes "foldl (toGo_unknown P (latestListing P opens)) (Some (t0, q0)) (map snd ps) = Some (t, q)"
    and "list_all (\<lambda>p. unknown_truth opens (snd p) (G (fst p)) P) ps"
    and "list_all (\<lambda>p. list_all (\<lambda>x. quantity_ok (st_quantity x)) (us_listings (snd p))) ps"
    and "quantity_ok t0"
  shows "quantity_ok t \<and> min max64 (t0 + (\<Sum>p\<leftarrow>ps. G (fst p) P)) \<le> t"
  using assms
proof (induction ps arbitrary: t0 q0)
  case Nil
  then show ?case by simp
next
  case (Cons p ps)
  let ?cr = "takeWhile (\<lambda>x. credits P (st_at x) (st_by x)) (us_listings (snd p))"
  let ?rest = "dropWhile (\<lambda>x. credits P (st_at x) (st_by x)) (us_listings (snd p))"
  let ?lt = "latestListing P opens"
  have ut: "unknown_truth opens (snd p) (G (fst p)) P" using Cons.prems by simp
  have gs: "0 \<le> (\<Sum>p\<leftarrow>ps. G (fst p) P)"
    using Cons.prems(2) by (intro sum_list_nonneg) (auto simp: list_all_iff unknown_truth_def Let_def)
  obtain t1 q1 where step: "toGo_unknown P ?lt (Some (t0, q0)) (snd p) = Some (t1, q1)"
    using Cons.prems(1) by (cases "toGo_unknown P ?lt (Some (t0, q0)) (snd p)") auto
  have t1: "quantity_ok t1 \<and> min max64 (t0 + G (fst p) P) \<le> t1"
  proof (cases "?cr \<noteq> [] \<and> st_by (last ?cr) = v_by ?lt")
    case True
    have mem: "last ?cr \<in> set (us_listings (snd p))" using True by (meson last_in_set set_takeWhileD)
    then have ok: "quantity_ok (st_quantity (last ?cr))" using Cons.prems(3) by (simp add: list_all_iff)
    have r: "\<not> raised (last ?cr # ?rest)" and e: "t1 = addPending t0 (st_quantity (last ?cr))"
      using step True by (auto simp: toGo_unknown_def Let_def split: if_splits)
    have "G (fst p) P \<le> st_quantity (last ?cr)" using ut True r by (simp add: unknown_truth_def Let_def)
    with e ok Cons.prems(4) show ?thesis by (simp add: addPending_ok) (simp add: addPending_eq)
  next
    case False
    then have "?rest = []" and e: "t1 = t0" using step by (auto simp: toGo_unknown_def Let_def split: if_splits)
    with ut False have "G (fst p) P = 0" by (auto simp: unknown_truth_def Let_def)
    with e Cons.prems(4) show ?thesis by simp
  qed
  have "quantity_ok t \<and> min max64 (t1 + (\<Sum>p\<leftarrow>ps. G (fst p) P)) \<le> t"
    using Cons.IH [of t1 q1] Cons.prems step t1 by simp
  with t1 gs show ?case by (auto simp: min_def split: if_splits)
qed

lemma ledger_wf_sells: "ledger_wf l \<Longrightarrow> list_all (\<lambda>a. sell_wf (sell_at l a)) (sl_byInstrument l i)"
  by (auto simp: ledger_wf_def list_all_iff sell_at_def)

lemma toGo_ge_truth:
  assumes wf: "ledger_wf l" and r: "r \<in> set (sl_refs l)" and tr: "truthful l i X F G H"
    and t: "toGo l i (r_view r) = Some (t, q)"
  shows "quantity_ok t \<and>
    min max64 ((\<Sum>a\<leftarrow>sl_byInstrument l i. F a - X a (r_view r)) + (\<Sum>p\<leftarrow>sl_unknown l i. G (fst p) (r_view r))) \<le> t"
proof -
  let ?P = "r_view r" and ?ss = "map (sell_at l) (sl_byInstrument l i)"
  let ?S = "\<Sum>a\<leftarrow>sl_byInstrument l i. F a - X a ?P"
  obtain t0 q0 where s: "foldl (toGo_sell ?P) (0, True) ?ss = (t0, q0)" by fastforce
  have wfs: "list_all sell_wf ?ss" using ledger_wf_sells [OF wf] by (simp add: list_all_iff)
  have t0: "t0 = min max64 (\<Sum>s\<leftarrow>?ss. still s ?P)" using toGo_sells_eq [OF wfs, of "(0, True)" ?P] s by simp
  have nn: "0 \<le> (\<Sum>s\<leftarrow>?ss. still s ?P)"
    using wfs by (intro sum_list_nonneg) (auto simp: list_all_iff dest!: still_ok [of _ ?P] simp: quantity_ok_def)
  then have ok: "quantity_ok t0" using t0 by (simp add: quantity_ok_def max64_def)
  have "?S \<le> (\<Sum>s\<leftarrow>?ss. still s ?P)"
    using sum_still_ge_truth [OF ledger_wf_sells [OF wf]] tr r by (simp add: truthful_def list_all_iff)
  then have le: "min max64 ?S \<le> t0" using t0 by auto
  have "quantity_ok t \<and> min max64 (t0 + (\<Sum>p\<leftarrow>sl_unknown l i. G (fst p) ?P)) \<le> t"
  proof (rule toGo_unknown_ge_truth)
    show "foldl (toGo_unknown ?P (latestListing ?P (sl_openOrders l))) (Some (t0, q0)) (map snd (sl_unknown l i)) = Some (t, q)"
      using t s by (simp add: toGo_def)
    show "list_all (\<lambda>p. unknown_truth (sl_openOrders l) (snd p) (G (fst p)) ?P) (sl_unknown l i)"
      using tr r by (simp add: truthful_def list_all_iff)
  qed (use wf ok in \<open>auto simp: ledger_wf_def\<close>)
  moreover have "0 \<le> (\<Sum>p\<leftarrow>sl_unknown l i. G (fst p) ?P)"
    using tr r by (intro sum_list_nonneg) (auto simp: truthful_def list_all_iff unknown_truth_def Let_def)
  ultimately show ?thesis using le by (auto simp: min_def split: if_splits)
qed

lemma remains_loop_le:
  assumes "\<And>p t q. p \<in> set ps \<Longrightarrow> toGo l i (r_view p) = Some (t, q) \<Longrightarrow> subtractPending (mget (r_held p) i 0) t \<le> H"
    and "best \<le> H"
  shows "remains_loop l i ps best stop \<le> H"
  using assms
proof (induction l i ps best stop rule: remains_loop.induct)
  case (2 l i p ps best stop)
  show ?case
  proof (cases "toGo l i (r_view p)")
    case None
    then show ?thesis using 2 by simp
  next
    case (Some tq)
    then obtain t q where tq: "toGo l i (r_view p) = Some (t, q)" by (cases tq) auto
    have "max best (subtractPending (mget (r_held p) i 0) t) \<le> H" using 2(3) [of p t q] tq 2(4) by simp
    then show ?thesis using 2(2) tq 2(3, 4) by simp
  qed
qed simp

lemma remains_nonneg: "0 \<le> remains l i"
proof -
  have "best \<le> remains_loop l i ps best stop" for ps best stop
  proof (induction l i ps best stop rule: remains_loop.induct)
    case (2 l i p ps best stop)
    then show ?case by (cases "toGo l i (r_view p)") (auto intro: order.trans)
  qed simp
  then show ?thesis by (simp add: remains_def)
qed

lemma remains_never_above_truth:
  assumes wf: "ledger_wf l" and tr: "truthful l i X F G H" and H: "0 \<le> H"
  shows "remains l i \<le> H"
  unfolding remains_def
proof (rule remains_loop_le)
  fix p t q
  assume p: "p \<in> set (rev (sl_refs l))" and t: "toGo l i (r_view p) = Some (t, q)"
  let ?S = "(\<Sum>a\<leftarrow>sl_byInstrument l i. F a - X a (r_view p)) + (\<Sum>u\<leftarrow>sl_unknown l i. G (fst u) (r_view p))"
  have g: "quantity_ok t" "min max64 ?S \<le> t" using toGo_ge_truth [OF wf _ tr t] p by auto
  have h: "in64 (mget (r_held p) i 0)" using wf p by (auto simp: ledger_wf_def list_all_iff)
  have acc: "mget (r_held p) i 0 \<le> H + ?S" using tr p by (simp add: truthful_def list_all_iff algebra_simps)
  have "mget (r_held p) i 0 - t \<le> H"
  proof (cases "?S \<le> max64")
    case True
    then show ?thesis using g acc by simp
  next
    case False
    then have "max64 \<le> t" using g by simp
    then show ?thesis using h H by (simp add: in64_def)
  qed
  then show "subtractPending (mget (r_held p) i 0) t \<le> H" using h g H by (simp add: subtractPending_eq min64_def)
qed (rule H)

text \<open>C10: The pending rule fails closed: whatever order the facts arrived in, if they are truthful
  then the holding a snapshot shows, net of the shares the ledger counts as already being sold, never
  exceeds what will really be left when every working sell has filled. A sell sized within it can
  therefore never sell a share another sell has sold since or may still sell.\<close>

theorem net_of_unshown_never_short:
  assumes "ledger_wf l" "truthful l i X F G H" "0 \<le> H" "v_by v \<noteq> 0"
  shows "mget (sl_held l (v_by v)) i 0 - unshown l i v \<le> H"
proof -
  have "remains l i \<le> H" using assms by (intro remains_never_above_truth)
  moreover have h: "in64 (mget (sl_held l (v_by v)) i 0)" using assms(1) by (simp add: ledger_wf_def)
  moreover have "remains l i \<le> max64 \<Longrightarrow> quantity_ok (remains l i)" using remains_nonneg by (simp add: quantity_ok_def)
  ultimately show ?thesis using assms(3, 4) h remains_nonneg [of l i]
    by (cases "remains l i \<le> max64") (auto simp: unshown_def subtractPending_eq in64_def)
qed

section \<open>Releasing a sell\<close>

lemma toGo_sell_new:
  assumes "quantity_ok q" "v_by v \<le> n"
  shows "toGo_sell v acc (new_sell i q n w) = (addPending (fst acc) q, snd acc)"
proof -
  have "filledBy (new_sell i q n w) v = 0" using assms(1) by (simp add: filledBy_def reportedAfter_def new_sell_def quantity_ok_def)
  moreover have "sub64 q 0 = q" using assms(1) by (simp add: quantity_ok_in64 quantity_ok_def)
  ultimately show ?thesis using assms(2) by (simp add: toGo_sell_def endedBefore_def Let_def) (simp add: new_sell_def)
qed

text \<open>Starting the loop over the unknown sells \<open>q\<close> higher ends it \<open>q\<close> higher, up to saturation.\<close>

lemma toGo_unknown_shift:
  assumes "quantity_ok t0" "quantity_ok q"
    and "list_all (\<lambda>u. list_all (\<lambda>x. quantity_ok (st_quantity x)) (us_listings u)) us"
  shows "foldl (toGo_unknown v lt) (Some (min max64 (t0 + q), b)) us =
    map_option (\<lambda>(t, c). (min max64 (t + q), c)) (foldl (toGo_unknown v lt) (Some (t0, b)) us)"
  using assms(1, 3)
proof (induction us arbitrary: t0 b)
  case (Cons u us)
  let ?cr = "takeWhile (\<lambda>x. credits v (st_at x) (st_by x)) (us_listings u)"
  have ok: "?cr \<noteq> [] \<Longrightarrow> quantity_ok (st_quantity (last ?cr))"
    using Cons.prems(2) by (simp add: list_all_iff) (meson last_in_set set_takeWhileD)
  have okm: "quantity_ok (min max64 (t0 + q))" using Cons.prems(1) assms(2) by (simp add: quantity_ok_def max64_def)
  have "addPending (min max64 (t0 + q)) x = min max64 (addPending t0 x + q)" if "quantity_ok x" for x
    using that Cons.prems(1) assms(2) okm by (simp add: addPending_eq) (auto simp: quantity_ok_def min_def)
  moreover have "quantity_ok (addPending t0 x)" if "quantity_ok x" for x using that Cons.prems(1) by (simp add: addPending_ok)
  ultimately have step: "toGo_unknown v lt (Some (min max64 (t0 + q), b)) u =
      map_option (\<lambda>(t, c). (min max64 (t + q), c)) (toGo_unknown v lt (Some (t0, b)) u)"
    and okt: "\<And>t c. toGo_unknown v lt (Some (t0, b)) u = Some (t, c) \<Longrightarrow> quantity_ok t"
    using ok Cons.prems(1) by (auto simp: toGo_unknown_def Let_def split: if_splits)
  show ?case
  proof (cases "toGo_unknown v lt (Some (t0, b)) u")
    case None
    then show ?thesis using step by simp
  next
    case (Some tc)
    then show ?thesis using step okt Cons.IH Cons.prems(2) by (cases tc) simp
  qed
qed simp

lemma sell_at_release: "a < length (sl_store l) \<Longrightarrow> sell_at (ledger_release l c i q) a = sell_at l a"
  by (simp add: sell_at_def ledger_release_def Let_def nth_append)

lemma toGo_sells_ok:
  assumes "ledger_wf l"
  shows "quantity_ok (fst (foldl (toGo_sell v) (0, True) (map (sell_at l) (sl_byInstrument l i))))"
proof -
  have wfs: "list_all sell_wf (map (sell_at l) (sl_byInstrument l i))" using ledger_wf_sells [OF assms] by (simp add: list_all_iff)
  have "0 \<le> (\<Sum>s\<leftarrow>map (sell_at l) (sl_byInstrument l i). still s v)"
    using wfs by (intro sum_list_nonneg) (auto simp: list_all_iff dest!: still_ok [of _ v] simp: quantity_ok_def)
  then show ?thesis using toGo_sells_eq [OF wfs, of "(0, True)" v] by (simp add: quantity_ok_def max64_def)
qed

lemma unknown_ok: "ledger_wf l \<Longrightarrow> list_all (\<lambda>u. list_all (\<lambda>x. quantity_ok (st_quantity x)) (us_listings u)) (map snd (sl_unknown l i))"
  by (auto simp: ledger_wf_def list_all_iff)

lemma toGo_release:
  assumes wf: "ledger_wf l" and q: "quantity_ok q" and v: "v_by v \<le> sl_snapshots l"
  shows "toGo (ledger_release l c i q) j v =
    (if j = i then map_option (\<lambda>(t, b). (min max64 (t + q), b)) (toGo l i v) else toGo l j v)"
proof -
  let ?l = "ledger_release l c i q"
  have at: "map (sell_at ?l) (sl_byInstrument l k) = map (sell_at l) (sl_byInstrument l k)" for k
    using wf by (auto simp: ledger_wf_def list_all_iff sell_at_release)
  have new: "sell_at ?l (length (sl_store l)) = new_sell i q (sl_snapshots l) []"
    by (simp add: sell_at_def ledger_release_def Let_def)
  have same: "sl_openOrders ?l = sl_openOrders l" "sl_unknown ?l = sl_unknown l"
    "sl_byInstrument ?l = (sl_byInstrument l)(i := sl_byInstrument l i @ [length (sl_store l)])"
    by (simp_all add: ledger_release_def Let_def)
  show ?thesis
  proof (cases "j = i")
    case True
    obtain t0 b0 where s: "foldl (toGo_sell v) (0, True) (map (sell_at l) (sl_byInstrument l i)) = (t0, b0)" by fastforce
    have ok: "quantity_ok t0" using toGo_sells_ok [OF wf, of v i] s by simp
    show ?thesis using True toGo_unknown_shift [OF ok q unknown_ok [OF wf]] addPending_eq [OF ok q] toGo_sell_new [OF q v]
      by (simp add: toGo_def same at new s)
  next
    case False
    then show ?thesis by (simp add: toGo_def same at)
  qed
qed

lemma max_shift:
  assumes "in64 h" "quantity_ok t" "quantity_ok q"
  shows "max (max 0 (best - q)) (subtractPending h (min max64 (t + q))) = max 0 (max best (subtractPending h t) - q)"
proof -
  have "quantity_ok (min max64 (t + q))" using assms by (simp add: quantity_ok_def max64_def)
  then show ?thesis using assms
    by (auto simp: subtractPending_eq quantity_ok_def in64_def max64_def min64_def max_def min_def)
qed

lemma toGo_ok:
  assumes wf: "ledger_wf l" and t: "toGo l i v = Some (t, b)"
  shows "quantity_ok t"
proof -
  have inv: "quantity_ok t0 \<Longrightarrow> list_all (\<lambda>u. list_all (\<lambda>x. quantity_ok (st_quantity x)) (us_listings u)) us \<Longrightarrow>
     foldl (toGo_unknown v lt) (Some (t0, b0)) us = Some (t, b) \<Longrightarrow> quantity_ok t" for t0 b0 us lt
  proof (induction us arbitrary: t0 b0)
    case (Cons u us)
    let ?cr = "takeWhile (\<lambda>x. credits v (st_at x) (st_by x)) (us_listings u)"
    have ok: "?cr \<noteq> [] \<Longrightarrow> quantity_ok (st_quantity (last ?cr))"
      using Cons.prems(2) by (simp add: list_all_iff) (meson last_in_set set_takeWhileD)
    obtain t1 b1 where s: "toGo_unknown v lt (Some (t0, b0)) u = Some (t1, b1)"
      using Cons.prems(3) by (cases "toGo_unknown v lt (Some (t0, b0)) u") auto
    then have "quantity_ok t1" using Cons.prems(1) ok by (auto simp: toGo_unknown_def Let_def addPending_ok split: if_splits)
    then show ?case using Cons s by simp
  qed simp
  obtain t0 b0 where s: "foldl (toGo_sell v) (0, True) (map (sell_at l) (sl_byInstrument l i)) = (t0, b0)" by fastforce
  have ok: "quantity_ok t0" using toGo_sells_ok [OF wf, of v i] s by simp
  show ?thesis using inv [OF ok unknown_ok [OF wf]] t s unfolding toGo_def by metis
qed

lemma remains_loop_release:
  assumes wf: "ledger_wf l" and q: "quantity_ok q"
    and "\<And>p. p \<in> set ps \<Longrightarrow> v_by (r_view p) \<le> sl_snapshots l \<and> in64 (mget (r_held p) i 0)"
  shows "remains_loop (ledger_release l c i q) i ps (max 0 (best - q)) stop = max 0 (remains_loop l i ps best stop - q)"
  using assms(3)
proof (induction ps arbitrary: best stop)
  case (Cons p ps)
  let ?l = "ledger_release l c i q"
  have v: "v_by (r_view p) \<le> sl_snapshots l" and h: "in64 (mget (r_held p) i 0)" using Cons.prems by auto
  have IH: "remains_loop ?l i ps (max 0 (b - q)) s = max 0 (remains_loop l i ps b s - q)" for b s
    using Cons.IH Cons.prems by simp
  show ?case
  proof (cases "toGo l i (r_view p)")
    case None
    then show ?thesis using IH toGo_release [OF wf q v, of c i i] by simp
  next
    case (Some tb)
    then obtain t b where tb: "toGo l i (r_view p) = Some (t, b)" by (cases tb) auto
    have t: "quantity_ok t" using toGo_ok [OF wf tb] .
    have tr: "toGo ?l i (r_view p) = Some (min max64 (t + q), b)" using toGo_release [OF wf q v, of c i i] tb by simp
    show ?thesis using IH [of "max best (subtractPending (mget (r_held p) i 0) t)"] tb tr max_shift [OF h t q, of best] IH by simp
  qed
qed simp

lemma remains_loop_other:
  assumes wf: "ledger_wf l" and q: "quantity_ok q" and "j \<noteq> i"
    and "\<And>p. p \<in> set ps \<Longrightarrow> v_by (r_view p) \<le> sl_snapshots l"
  shows "remains_loop (ledger_release l c i q) j ps best stop = remains_loop l j ps best stop"
  using assms(4)
proof (induction ps arbitrary: best stop)
  case (Cons p ps)
  then show ?case using toGo_release [OF wf q, of "r_view p" c i j] assms(3) by (simp split: option.splits)
qed simp

lemma remains_release:
  assumes wf: "ledger_wf l" and q: "0 \<le> q" "q \<le> max64"
  shows "remains (ledger_release l c i q) j = (if j = i then max 0 (remains l i - q) else remains l j)"
proof -
  have ok: "quantity_ok q" using q by (simp add: quantity_ok_def)
  have refs: "sl_refs (ledger_release l c i q) = sl_refs l" by (simp add: ledger_release_def Let_def)
  have r: "v_by (r_view p) \<le> sl_snapshots l \<and> in64 (mget (r_held p) k 0)" if "p \<in> set (rev (sl_refs l))" for p k
    using wf that by (auto simp: ledger_wf_def list_all_iff)
  show ?thesis
    using remains_loop_release [OF wf ok, of "rev (sl_refs l)" i c 0 0] remains_loop_other [OF wf ok, of j i "rev (sl_refs l)" c 0 0] r q
    by (simp add: remains_def refs)
qed

text \<open>Releasing a sell takes exactly its quantity from what is sure to remain of its instrument,
  down to nothing, and changes no other instrument: the same shares are never offered to a second
  sell before a snapshot or a fill report says more.\<close>

theorem release_takes_from_remains:
  assumes "ledger_wf l" "0 \<le> q" "q \<le> max64"
  shows "remains (ledger_release l c i q) j = (if j = i then max 0 (remains l i - q) else remains l j)"
  using assms by (rule remains_release)

section \<open>Every operation keeps the ledger well formed\<close>

lemma ledger_wf_new [simp]: "ledger_wf newSellLedger"
  by (simp add: ledger_wf_def newSellLedger_def)

lemma sell_wf_new: "quantity_ok q \<Longrightarrow> sell_wf (new_sell i q n w)"
  by (simp add: sell_wf_def new_sell_def)

lemma mput_all: "list_all P m \<Longrightarrow> P (k, v) \<Longrightarrow> list_all P (mput m k v)"
  by (simp add: mput_def mdel_def list_all_iff)

lemma mdel_all: "list_all P m \<Longrightarrow> list_all P (mdel m k)"
  by (simp add: mdel_def list_all_iff)

lemma less_length_mono: "list_all (\<lambda>a. a < n) xs \<Longrightarrow> list_all (\<lambda>a. a < Suc n) xs"
  by (auto simp: list_all_iff)

lemma ledger_wf_release:
  assumes "ledger_wf l" "quantity_ok q"
  shows "ledger_wf (ledger_release l c i q)"
  using assms unfolding ledger_wf_def ledger_release_def Let_def
  by (auto simp: sell_wf_new intro!: mput_all) (auto simp: list_all_iff less_Suc_eq)

lemma foldl_mdel_all: "list_all P m \<Longrightarrow> list_all P (foldl mdel m ks)"
  by (induction ks arbitrary: m) (auto simp: mdel_all)

lemma map_of_all: "list_all P m \<Longrightarrow> map_of m k = Some v \<Longrightarrow> P (k, v)"
  by (auto simp: list_all_iff dest: map_of_SomeD)

lemma ledger_wf_restore:
  assumes "ledger_wf l" "quantity_ok q"
  shows "ledger_wf (ledger_restore l c i q w)"
proof -
  let ?u = "sl_unknown l i"
  have u: "list_all (\<lambda>p. list_all (\<lambda>x. quantity_ok (st_quantity x)) (us_listings (snd p))) ?u"
    using assms(1) by (simp add: ledger_wf_def)
  have "list_all (\<lambda>x. quantity_ok (st_quantity x)) (concat (map (\<lambda>k. case map_of ?u k of None \<Rightarrow> [] | Some v \<Rightarrow> us_listings v) ks))" for ks
    using map_of_all [OF u] by (induction ks) (auto split: option.splits)
  then have s: "sell_wf ((new_sell i q 0 w)\<lparr>ls_listings := concat (map (\<lambda>k. case map_of ?u k of None \<Rightarrow> [] | Some v \<Rightarrow> us_listings v) ks)\<rparr>)" for ks
    using assms(2) by (simp add: sell_wf_def new_sell_def)
  show ?thesis using assms s foldl_mdel_all [OF u] unfolding ledger_wf_def ledger_restore_def Let_def
    by (auto simp: intro!: mput_all) (auto simp: list_all_iff less_Suc_eq)
qed

lemma set_insert_ref: "set (insert_ref v h rs) = insert \<lparr>r_view = v, r_held = h\<rparr> (set rs)"
  unfolding insert_ref_def by (metis (no_types, lifting) Un_insert_right list.simps(15) set_append takeWhile_dropWhile_id)

lemma ledger_wf_snapshot:
  assumes "ledger_wf l" "case held of None \<Rightarrow> True | Some h \<Rightarrow> \<forall>i. in64 (mget h i 0)"
  shows "ledger_wf (fst (ledger_snapshot l t held r))"
  using assms unfolding ledger_wf_def ledger_snapshot_def Let_def
  by (auto simp: set_insert_ref list_all_iff split: option.splits) (fastforce+)?

lemma ledger_wf_upd_sell:
  assumes "ledger_wf l" "a < length (sl_store l) \<Longrightarrow> sell_wf (sell_at l a) \<Longrightarrow> sell_wf (f (sell_at l a))"
  shows "ledger_wf (upd_sell l a f)"
proof (cases "a < length (sl_store l)")
  case True
  have "sell_wf (sl_store l ! a)" using assms(1) True by (simp add: ledger_wf_def list_all_length)
  then have "sell_wf (f (sl_store l ! a))" using assms(2) True by (simp add: sell_at_def)
  moreover have "list_all sell_wf (sl_store l)" using assms(1) by (simp add: ledger_wf_def)
  ultimately have "list_all sell_wf ((sl_store l)[a := f (sl_store l ! a)])"
    by (auto simp: list_all_iff dest!: set_update_subset_insert [THEN subsetD])
  then show ?thesis using assms(1) by (simp add: ledger_wf_def upd_sell_def)
next
  case False
  then show ?thesis using assms(1) by (simp add: upd_sell_def list_update_beyond)
qed

lemma ledger_wf_unknown:
  assumes "ledger_wf l" "list_all (\<lambda>p. list_all (\<lambda>x. quantity_ok (st_quantity x)) (us_listings (snd p))) m"
  shows "ledger_wf (l\<lparr>sl_unknown := (sl_unknown l)(i := m)\<rparr>)"
  using assms by (simp add: ledger_wf_def)

lemma sl_unknown_upd_sell [simp]: "sl_unknown (upd_sell l a f) = sl_unknown l"
  by (simp add: upd_sell_def)

lemma ledger_wf_learnVenue: "ledger_wf l \<Longrightarrow> ledger_wf (learnVenue l a w)"
proof -
  assume wf: "ledger_wf l"
  let ?i = "ls_instrumentID (sell_at l a)" and ?l1 = "upd_sell l a (ls_venueID_update (\<lambda>_. w))"
  have wf1: "ledger_wf ?l1" using wf by (rule ledger_wf_upd_sell) (simp add: sell_wf_def)
  have u: "list_all (\<lambda>p. list_all (\<lambda>x. quantity_ok (st_quantity x)) (us_listings (snd p))) (sl_unknown l ?i)"
    using wf by (simp add: ledger_wf_def)
  have "ledger_wf ((upd_sell ?l1 a (ls_listings_update (\<lambda>xs. xs @ us_listings v)))
      \<lparr>sl_unknown := (sl_unknown ?l1)(?i := mdel (sl_unknown ?l1 ?i) w)\<rparr>)" if "map_of (sl_unknown l ?i) w = Some v" for v
  proof -
    have "list_all (\<lambda>x. quantity_ok (st_quantity x)) (us_listings v)" using map_of_all [OF u that] by simp
    then have "ledger_wf (upd_sell ?l1 a (ls_listings_update (\<lambda>xs. xs @ us_listings v)))"
      by (intro ledger_wf_upd_sell [OF wf1]) (auto simp: sell_wf_def)
    from ledger_wf_unknown [OF this mdel_all [OF u, of w], of ?i] show ?thesis by simp
  qed
  then show ?thesis using wf wf1 by (auto simp: learnVenue_def Let_def split: option.splits)
qed

lemma ledger_wf_listOpenOrder:
  assumes wf: "ledger_wf l" and q: "quantity_ok (bo_RemainingQuantity b)"
  shows "ledger_wf (listOpenOrder v l b)"
proof -
  let ?x = "\<lparr>st_at = v_at v, st_by = v_by v, st_quantity = bo_RemainingQuantity b\<rparr>"
  have add: "ledger_wf (upd_sell l a (ls_listings_update (\<lambda>xs. xs @ [?x])))" for a
    using wf q by (intro ledger_wf_upd_sell) (auto simp: sell_wf_def)
  have u: "list_all (\<lambda>p. list_all (\<lambda>x. quantity_ok (st_quantity x)) (us_listings (snd p))) (sl_unknown l (bo_InstrumentID b))"
    using wf by (simp add: ledger_wf_def)
  have "list_all (\<lambda>p. list_all (\<lambda>x. quantity_ok (st_quantity x)) (us_listings (snd p)))
     (mput (sl_unknown l (bo_InstrumentID b)) (bo_BrokerOrderID b)
       \<lparr>us_client = bo_ClientOrderID b, us_listings = (case map_of (sl_unknown l (bo_InstrumentID b)) (bo_BrokerOrderID b) of None \<Rightarrow> [] | Some u \<Rightarrow> us_listings u) @ [?x]\<rparr>)"
    using u q map_of_all [OF u] by (intro mput_all) (auto split: option.splits)
  from ledger_wf_unknown [OF wf this] add ledger_wf_learnVenue wf show ?thesis
    by (auto simp: listOpenOrder_def Let_def split: option.splits if_splits)
qed

lemma ledger_wf_listOpenOrders:
  assumes "ledger_wf l" "list_all (\<lambda>b. quantity_ok (bo_RemainingQuantity b)) os"
  shows "ledger_wf (listOpenOrders l v os)"
proof -
  have "ledger_wf l' \<Longrightarrow> ledger_wf (foldl (listOpenOrder v) l' os)" for l'
    using assms(2) by (induction os arbitrary: l') (auto simp: ledger_wf_listOpenOrder)
  moreover have "ledger_wf (l\<lparr>sl_openOrders := sl_openOrders l @ [v]\<rparr>)" using assms(1) by (simp add: ledger_wf_def)
  ultimately show ?thesis by (simp add: listOpenOrders_def)
qed

lemmas ledger_wf_ops = ledger_wf_release ledger_wf_restore ledger_wf_snapshot ledger_wf_upd_sell
  ledger_wf_learnVenue ledger_wf_listOpenOrders

section \<open>The netting contract\<close>

text \<open>
  What the gate and the planners rely on of the ledger, whatever it is made of: how many shares of an
  instrument are sure to remain once everything in flight has been sold, and that committing a sell takes
  exactly its shares from them. A run of sells each sized within what remains then commits, of every
  instrument, no more than remained when the run began.
\<close>

primrec covered :: "('l \<Rightarrow> string \<Rightarrow> int) \<Rightarrow> ('l \<Rightarrow> string \<Rightarrow> string \<Rightarrow> int \<Rightarrow> 'l) \<Rightarrow> 'l \<Rightarrow> (string \<times> string \<times> int) list \<Rightarrow> bool" where
  "covered rest commit l [] \<longleftrightarrow> True"
| "covered rest commit l (s # ss) \<longleftrightarrow> (case s of (c, i, q) \<Rightarrow>
     0 \<le> q \<and> q \<le> max64 \<and> q \<le> rest l i \<and> covered rest commit (commit l c i q) ss)"

definition soldOf :: "string \<Rightarrow> (string \<times> string \<times> int) list \<Rightarrow> int" where
  "soldOf i ss = (\<Sum>(c, j, q)\<leftarrow>ss. if j = i then q else 0)"

locale sell_netting =
  fixes wf :: "'l \<Rightarrow> bool"
    and rest :: "'l \<Rightarrow> string \<Rightarrow> int"
    and commit :: "'l \<Rightarrow> string \<Rightarrow> string \<Rightarrow> int \<Rightarrow> 'l"
  assumes rest_nonneg: "0 \<le> rest l i"
    and rest_commit: "wf l \<Longrightarrow> 0 \<le> q \<Longrightarrow> q \<le> max64 \<Longrightarrow> rest (commit l c i q) j = (if j = i then max 0 (rest l i - q) else rest l j)"
    and wf_commit: "wf l \<Longrightarrow> 0 \<le> q \<Longrightarrow> q \<le> max64 \<Longrightarrow> wf (commit l c i q)"
begin

lemma covered_within: "wf l \<Longrightarrow> covered rest commit l ss \<Longrightarrow> soldOf i ss \<le> rest l i"
proof (induction ss arbitrary: l)
  case Nil
  then show ?case by (simp add: soldOf_def rest_nonneg)
next
  case (Cons s ss)
  obtain c j q where s: "s = (c, j, q)" by (cases s) auto
  have q: "0 \<le> q" "q \<le> max64" "q \<le> rest l j" and "covered rest commit (commit l c j q) ss" using Cons.prems s by auto
  with Cons have "soldOf i ss \<le> rest (commit l c j q) i" by (simp add: wf_commit)
  then show ?case using q Cons.prems(1) s by (auto simp: soldOf_def rest_commit split: if_splits)
qed

lemma covered_leaves: "wf l \<Longrightarrow> covered rest commit l ss \<Longrightarrow> rest (fold (\<lambda>(c, i, q) l. commit l c i q) ss l) i = rest l i - soldOf i ss"
proof (induction ss arbitrary: l)
  case Nil
  then show ?case by (simp add: soldOf_def)
next
  case (Cons s ss)
  obtain c j q where s: "s = (c, j, q)" by (cases s) auto
  have q: "0 \<le> q" "q \<le> max64" "q \<le> rest l j" "covered rest commit (commit l c j q) ss" using Cons.prems s by auto
  with Cons have "rest (fold (\<lambda>(c, i, q) l. commit l c i q) ss (commit l c j q)) i = rest (commit l c j q) i - soldOf i ss"
    by (simp add: wf_commit)
  then show ?case using q Cons.prems(1) s by (auto simp: soldOf_def rest_commit)
qed

end

interpretation netting: sell_netting ledger_wf remains ledger_release
  by unfold_locales (simp_all add: remains_nonneg remains_release ledger_wf_release quantity_ok_def)

text \<open>
  A run's first minutes: an account snapshot holding 100 SPY, a released sell of 30, and a broker
  snapshot that still holds 100 and lists a hand-placed sell of 20 under broker order B7.
\<close>

definition ledger_example :: sell_ledger where
  "ledger_example =
     (let l1 = fst (ledger_snapshot newSellLedger (10 * second_ns) (Some [(''SPY'', 100)]) True);
          l2 = ledger_release l1 ''tw-1'' ''SPY'' 30;
          (l3, v) = ledger_snapshot l2 (20 * second_ns) (Some [(''SPY'', 100)]) True in
      listOpenOrders l3 v [\<lparr>bo_BrokerOrderID = ''B7'', bo_ClientOrderID = '''', bo_InstrumentID = ''SPY'', bo_Side = OrderSideSell,
         bo_Status = BrokerOrderWorking, bo_RemainingQuantity = 20\<rparr>])"

lemma ledger_wf_example: "ledger_wf ledger_example"
proof -
  have h: "\<forall>i. in64 (mget [(''SPY'', 100)] i 0)" by (simp add: mget_def in64_def min64_def max64_def)
  have q: "quantity_ok 30" "quantity_ok 20" by (simp_all add: quantity_ok_def max64_def)
  have "ledger_wf (fst (ledger_snapshot (ledger_release (fst (ledger_snapshot newSellLedger (10 * second_ns) (Some [(''SPY'', 100)]) True)) ''tw-1'' ''SPY'' 30)
      (20 * second_ns) (Some [(''SPY'', 100)]) True))"
    by (intro ledger_wf_snapshot ledger_wf_release ledger_wf_new) (simp_all add: h q)
  then show ?thesis using q by (auto simp: ledger_example_def Let_def split: prod.splits intro!: ledger_wf_listOpenOrders)
qed

theorem net_of_unshown_never_short_witness:
  "mget (sl_held ledger_example 2) ''SPY'' 0 - unshown ledger_example ''SPY'' \<lparr>v_at = 20 * second_ns, v_by = 2\<rparr> \<le> 50"
proof -
  have "truthful ledger_example ''SPY'' (\<lambda>a v. 0) (\<lambda>a. 30) (\<lambda>b v. 20) 50" by code_simp
  from net_of_unshown_never_short [OF ledger_wf_example this, of "\<lparr>v_at = 20 * second_ns, v_by = 2\<rparr>"]
  show ?thesis by simp
qed

theorem release_takes_from_remains_witness:
  "remains (ledger_release ledger_example ''tw-2'' ''SPY'' 15) ''SPY'' = 35"
proof -
  have r: "remains ledger_example ''SPY'' = 50" by code_simp
  show ?thesis using release_takes_from_remains [OF ledger_wf_example, of 15 "''tw-2''" "''SPY''" "''SPY''"] r by (simp add: max64_def)
qed

end
