(* ===== verification/Sha256.thy ===== *)
theory Sha256
  imports GoBase "HOL-Library.Word"
begin

text \<open>
  \<open>crypto/sha256.Sum256\<close> and \<open>hex.EncodeToString\<close>, as the client order identifiers use them: FIPS
  180-4 over 32-bit words, executable.
\<close>

type_synonym w32 = "32 word"

text \<open>The constants as the standard derives them: the first 32 bits of the fractional parts of the cube
  roots of the first 64 primes, and of the square roots of the first 8.\<close>

definition smallPrimes :: "int list" where
  "smallPrimes = filter (\<lambda>n. list_all (\<lambda>d. n mod d \<noteq> 0) [2..n - 1]) [2..311]"

text \<open>The integer \<open>k\<close>-th root of \<open>x\<close> below \<open>2 ^ n\<close> beyond \<open>r\<close>, one bit at a time from the highest.\<close>

fun root_bits :: "nat \<Rightarrow> int \<Rightarrow> nat \<Rightarrow> int \<Rightarrow> int" where
  "root_bits k x 0 r = r"
| "root_bits k x (Suc n) r = root_bits k x n (if (r + 2 ^ n) ^ k \<le> x then r + 2 ^ n else r)"

definition rootFraction32 :: "nat \<Rightarrow> int \<Rightarrow> w32" where
  "rootFraction32 k p = word_of_int (root_bits k (p * 2 ^ (32 * k)) 37 0)"

definition sha_K :: "w32 list" where
  "sha_K = map (rootFraction32 3) smallPrimes"

definition sha_init :: "w32 list" where
  "sha_init = map (rootFraction32 2) [2, 3, 5, 7, 11, 13, 17, 19]"

definition sha_s0 :: "w32 \<Rightarrow> w32" where
  "sha_s0 x = xor (xor (word_rotr 7 x) (word_rotr 18 x)) (drop_bit 3 x)"

definition sha_s1 :: "w32 \<Rightarrow> w32" where
  "sha_s1 x = xor (xor (word_rotr 17 x) (word_rotr 19 x)) (drop_bit 10 x)"

definition sha_S0 :: "w32 \<Rightarrow> w32" where
  "sha_S0 x = xor (xor (word_rotr 2 x) (word_rotr 13 x)) (word_rotr 22 x)"

definition sha_S1 :: "w32 \<Rightarrow> w32" where
  "sha_S1 x = xor (xor (word_rotr 6 x) (word_rotr 11 x)) (word_rotr 25 x)"

definition sha_ch :: "w32 \<Rightarrow> w32 \<Rightarrow> w32 \<Rightarrow> w32" where
  "sha_ch e f g = xor (Bit_Operations.and e f) (Bit_Operations.and (Bit_Operations.not e) g)"

definition sha_maj :: "w32 \<Rightarrow> w32 \<Rightarrow> w32 \<Rightarrow> w32" where
  "sha_maj a b c = xor (xor (Bit_Operations.and a b) (Bit_Operations.and a c)) (Bit_Operations.and b c)"

text \<open>The message schedule, held latest word first.\<close>

fun sha_extend :: "nat \<Rightarrow> w32 list \<Rightarrow> w32 list" where
  "sha_extend 0 ws = ws"
| "sha_extend (Suc n) ws = sha_extend n ((sha_s1 (ws ! 1) + ws ! 6 + sha_s0 (ws ! 14) + ws ! 15) # ws)"

fun sha_round :: "w32 list \<Rightarrow> w32 \<times> w32 \<Rightarrow> w32 list" where
  "sha_round [a, b, c, d, e, f, g, h] (k, w) =
     (let t1 = h + sha_S1 e + sha_ch e f g + k + w; t2 = sha_S0 a + sha_maj a b c in
      [t1 + t2, a, b, c, d + t1, e, f, g])"
| "sha_round s _ = s"

definition sha_block :: "w32 list \<Rightarrow> w32 list \<Rightarrow> w32 list" where
  "sha_block h block = map2 (+) h (foldl sha_round h (zip sha_K (rev (sha_extend 48 (rev block)))))"

fun be_bytes :: "nat \<Rightarrow> int \<Rightarrow> int list" where
  "be_bytes 0 x = []"
| "be_bytes (Suc n) x = be_bytes n (x div 256) @ [x mod 256]"

definition sha_pad :: "int list \<Rightarrow> int list" where
  "sha_pad m = m @ 128 # replicate (nat ((55 - int (length m)) mod 64)) 0 @ be_bytes 8 (8 * int (length m))"

fun sha_words :: "int list \<Rightarrow> w32 list" where
  "sha_words (a # b # c # d # xs) = word_of_int (((a * 256 + b) * 256 + c) * 256 + d) # sha_words xs"
| "sha_words _ = []"

fun sha_blocks :: "nat \<Rightarrow> w32 list \<Rightarrow> w32 list \<Rightarrow> w32 list" where
  "sha_blocks 0 h ws = h"
| "sha_blocks (Suc n) h ws = sha_blocks n (sha_block h (take 16 ws)) (drop 16 ws)"

definition sha256 :: "string \<Rightarrow> int list" where
  "sha256 s = (let ws = sha_words (sha_pad (map of_char s)) in
     concat (map (\<lambda>w. be_bytes 4 (uint w)) (sha_blocks (length ws div 16) sha_init ws)))"

definition hexDigit :: "int \<Rightarrow> char" where
  "hexDigit d = char_of (nat (if d < 10 then 48 + d else 87 + d))"

definition hexString :: "int list \<Rightarrow> string" where
  "hexString bs = concat (map (\<lambda>b. [hexDigit (b div 16), hexDigit (b mod 16)]) bs)"

lemma length_be_bytes [simp]: "length (be_bytes n x) = n"
  by (induction n arbitrary: x) simp_all

lemma length_sha_round [simp]: "length (sha_round s kw) = length s"
  by (induction s kw rule: sha_round.induct) (simp_all add: Let_def)

lemma length_sha_extend [simp]: "length (sha_extend n ws) = n + length ws"
  by (induction n ws rule: sha_extend.induct) simp_all

lemma length_foldl_sha_round [simp]: "length (foldl sha_round s kws) = length s"
  by (induction kws arbitrary: s) simp_all

lemma length_sha_blocks: "length (sha_blocks n h ws) = length h"
  by (induction n arbitrary: h ws) (simp_all add: sha_block_def)

text \<open>A digest is 32 bytes, 64 hexadecimal digits.\<close>

lemma length_sha256: "length (sha256 s) = 32"
proof -
  have "length (concat (map (\<lambda>w. be_bytes 4 (uint w)) ws)) = 4 * length ws" for ws :: "w32 list"
    by (induction ws) simp_all
  then show ?thesis by (simp add: sha256_def Let_def length_sha_blocks sha_init_def)
qed

lemma length_hexString: "length (hexString bs) = 2 * length bs"
  by (induction bs) (simp_all add: hexString_def)

end
