(* ===== verification/OrderPlan.thy ===== *)
theory OrderPlan
  imports OrderOutcomes Sha256
begin

text \<open>
  \<open>internal/orderplan\<close>: the client order identifiers, limit prices and snapshot freshness, and the sale
  back to 98 percent.
\<close>

section \<open>Identity, price and freshness\<close>

definition NUL :: string where
  "NUL = [CHR 0x00]"

definition ClientOrderID :: "string \<Rightarrow> string \<Rightarrow> string \<Rightarrow> string" where
  "ClientOrderID tag instrumentID phase = ''tw-'' @ take 24 (hexString (sha256 (tag @ NUL @ instrumentID @ NUL @ phase)))"

definition salePhase :: string where
  "salePhase = ''sale-to-98''"

definition SaleClientOrderID :: "string \<Rightarrow> string \<Rightarrow> string" where
  "SaleClientOrderID tag instrumentID = ClientOrderID tag instrumentID salePhase"

definition SaleAttemptClientOrderID :: "string \<Rightarrow> string \<Rightarrow> int \<Rightarrow> string" where
  "SaleAttemptClientOrderID tag instrumentID retired =
     (if retired = 0 then SaleClientOrderID tag instrumentID
      else ClientOrderID tag instrumentID (salePhase @ ''#'' @ fmtInt (add64 retired 1)))"

definition LimitPrice :: "string \<Rightarrow> f64 \<Rightarrow> f64 \<Rightarrow> f64" where
  "LimitPrice side ref band =
     (if side = OrderSideBuy
      then f_max (f_div (f_floor (f_mul (f_mul ref (f_add (Fin 1) band)) (Fin 100))) (Fin 100)) ref
      else f_min (f_div (f_ceil (f_mul (f_mul ref (f_sub (Fin 1) band)) (Fin 100))) (Fin 100)) ref)"

definition StaleDetail :: "string \<Rightarrow> gotime \<Rightarrow> gotime \<Rightarrow> duration \<Rightarrow> stale_detail option" where
  "StaleDetail snap asOf t maxAge =
     (let age = time_sub t asOf in
      if age < 0 then Some (ClockSkew snap (- age))
      else if age > maxAge then Some (TooOld snap age maxAge) else None)"

section \<open>The sale back to 98 percent\<close>

record sale_input =
  si_AccountID :: string
  si_Tag :: string
  si_InstrumentID :: string
  si_Kind :: sale_kind
  si_Trigger :: sale_trigger
  si_Target :: f64
  si_PriceBand :: f64
  si_SnapshotID :: string
  si_Snapshot :: "broker_snapshot_payload option"
  si_Recognised :: "string set"
  si_WorkingSells :: int
  si_At :: gotime
  si_MaxSnapshotAge :: duration
  si_Retired :: int

datatype (plugins only: code size) sale = SaleOrder order_planned | SaleWithheld sale_withheld

definition SaleInput_validate :: "sale_input \<Rightarrow> err list" where
  "SaleInput_validate x =
     errIf (si_AccountID x = '''' \<or> si_Tag x = '''' \<or> si_InstrumentID x = '''') ''a sale needs its account, tag and instrument''
     @ errIf (si_Kind x \<noteq> SaleKindIncident \<and> si_Kind x \<noteq> SaleKindUrgent) ''sale kind is not incident or urgent''
     @ errIf (si_Trigger x \<noteq> SaleTriggerExit \<and> si_Trigger x \<noteq> SaleTriggerMarginUrgent) ''sale trigger is not exit or margin-urgent''
     @ errIf (\<not> (f_pos (si_Target x) \<and> f_le (si_Target x) (Fin 1))) ''a sale's target must lie in (0, 1]''
     @ errIf (\<not> (f_pos (si_PriceBand x) \<and> f_lt (si_PriceBand x) (Fin 1))) ''the price band must lie strictly between 0 and 1''
     @ errIf (si_WorkingSells x < 0) ''a sale's working sells must not be negative''
     @ errIf (si_Retired x < 0) ''a sale's retired attempts must not be negative''
     @ errIf (si_MaxSnapshotAge x \<le> 0) ''a sale needs a positive maximum snapshot age''
     @ (case si_Snapshot x of
          None \<Rightarrow> errIf (si_SnapshotID x \<noteq> '''') ''a snapshot ID names no broker snapshot''
        | Some s \<Rightarrow> errIf (si_SnapshotID x = '''') ''a broker snapshot needs its envelope ID''
            @ (if BrokerSnapshot_Validate s \<noteq> [] then BrokerSnapshot_Validate s
               else errIf (bs_AccountID s \<noteq> si_AccountID x) ''broker snapshot of another account cannot size a sale''))"

definition withheld_sale :: "sale_input \<Rightarrow> withheld_reason \<Rightarrow> detail \<Rightarrow> sale" where
  "withheld_sale x reason why = SaleWithheld
     \<lparr>sw_AccountID = si_AccountID x, sw_Tag = si_Tag x,
      sw_ClientOrderID = SaleAttemptClientOrderID (si_Tag x) (si_InstrumentID x) (si_Retired x),
      sw_InstrumentID = si_InstrumentID x, sw_Kind = si_Kind x, sw_Trigger = si_Trigger x, sw_Reason = reason,
      sw_Detail = why, sw_SnapshotID = si_SnapshotID x, sw_Alert = False\<rparr>"

definition sale_components :: "string list" where
  "sale_components = [BrokerComponentNetLiquidation, BrokerComponentOpenOrders, BrokerComponentPositions]"

definition unknownWorkingSell :: "sale_input \<Rightarrow> broker_snapshot_payload \<Rightarrow> broker_order option" where
  "unknownWorkingSell x s =
     (if si_Kind x = SaleKindIncident
      then find (\<lambda>b. bo_InstrumentID b = si_InstrumentID x \<and> bo_Side b = OrderSideSell \<and> bo_ClientOrderID b \<notin> si_Recognised x) (rows (bs_OpenOrders s))
      else None)"

definition sale_sizing :: "sale_input \<Rightarrow> int \<Rightarrow> int \<Rightarrow> sale_figures" where
  "sale_sizing x held keep =
     \<lparr>sf_Kind = si_Kind x, sf_Trigger = si_Trigger x, sf_SnapshotID = si_SnapshotID x, sf_WorkingSells = si_WorkingSells x,
      sf_KeepShares = keep, sf_ToTarget = sub64 held keep, sf_WithinHolding = sub64 held (si_WorkingSells x),
      sf_NeverBelow = sub64 (sub64 held (si_WorkingSells x)) keep\<rparr>"

definition sale_order :: "sale_input \<Rightarrow> broker_snapshot_payload \<Rightarrow> broker_position \<Rightarrow> sale_figures \<Rightarrow> int \<Rightarrow> order_planned" where
  "sale_order x s p figures quantity =
     \<lparr>op_RoundingSlack = Fin 0, op_FractionalIncrement = '''', op_QuantityScale = 0, op_AccountID = si_AccountID x, op_Tag = si_Tag x,
      op_ClientOrderID = SaleAttemptClientOrderID (si_Tag x) (si_InstrumentID x) (si_Retired x),
      op_InstrumentID = si_InstrumentID x, op_Side = OrderSideSell, op_Phase = OrderSideSell, op_OrderType = OrderTypeLimit,
      op_Quantity = quantity, op_LimitPrice = LimitPrice OrderSideSell (bp_Mark p) (si_PriceBand x),
      op_TargetWeight = si_Target x, op_NetLiquidation = bs_NetLiquidation s, op_HeldQuantity = bp_Quantity p,
      op_ReferencePrice = bp_Mark p, op_PriceBand = si_PriceBand x, op_Sale = figures\<rparr>"

text \<open>Sizing from a readable, fresh snapshot: the switch on its values, the unknown working sell, the three bounds.\<close>

definition PlanSale_sized :: "sale_input \<Rightarrow> broker_snapshot_payload \<Rightarrow> (err list, sale) result" where
  "PlanSale_sized x s =
     (let pos = BrokerSnapshot_Position s (si_InstrumentID x) in
      if \<not> f_pos (bs_NetLiquidation s)
      then Inr (withheld_sale x SaleWithheldNotPositive (DNetLiquidationNotPositive (si_SnapshotID x) (bs_NetLiquidation s)))
      else case pos of
        None \<Rightarrow> Inr (withheld_sale x SaleWithheldNothingToSell (DHoldsNone (si_SnapshotID x) (si_InstrumentID x)))
      | Some p \<Rightarrow>
        if bp_MarkSet p \<and> \<not> f_pos (bp_Mark p)
        then Inr (withheld_sale x SaleWithheldNotPositive (DMarkNotPositive (si_SnapshotID x) (bp_Mark p) (si_InstrumentID x)))
        else if bp_Quantity p < 0
        then Inr (withheld_sale x SaleWithheldNothingToSell (DShort (si_SnapshotID x) (bp_Quantity p) (si_InstrumentID x)))
        else if \<not> bp_MarkSet p
        then Inr (withheld_sale x SaleWithheldUnreadable (DNoMark (si_SnapshotID x) (si_InstrumentID x)))
        else case unknownWorkingSell x s of
          Some b \<Rightarrow> Inr (withheld_sale x SaleWithheldUnknownWorkingSell (DUnknownWorkingSell b (si_InstrumentID x)))
        | None \<Rightarrow>
          let keep = KeepShares (si_Target x) (bs_NetLiquidation s) (bp_Mark p) in
          if f_le (f_of_int max64) keep then Inl [''shares to keep cannot be represented'']
          else let figures = sale_sizing x (bp_Quantity p) (f_to_int keep);
                   quantity = min (sf_ToTarget figures) (min (sf_WithinHolding figures) (sf_NeverBelow figures)) in
            if quantity \<le> 0
            then Inr (withheld_sale x SaleWithheldNothingToSell (DNothingLeft (si_InstrumentID x) (bp_Quantity p) (si_WorkingSells x)
                   (sf_KeepShares figures) (bp_Mark p) (bs_NetLiquidation s)))
            else Inr (SaleOrder (sale_order x s p figures quantity)))"

definition PlanSale :: "sale_input \<Rightarrow> (err list, sale) result" where
  "PlanSale x =
     joinErrs (SaleInput_validate x)
     (case si_Snapshot x of
        None \<Rightarrow> Inr (withheld_sale x SaleWithheldUnreadable DNoSnapshot)
      | Some s \<Rightarrow>
        (case find (\<lambda>c. \<not> BrokerReadable s c) sale_components of
           Some c \<Rightarrow> Inr (withheld_sale x SaleWithheldUnreadable (DComponentUnreadable (si_SnapshotID x) c))
         | None \<Rightarrow>
           (case StaleDetail (si_SnapshotID x) (bs_AsOf s) (si_At x) (si_MaxSnapshotAge x) of
              Some d \<Rightarrow> Inr (withheld_sale x SaleWithheldStaleBrokerSnapshot (DStaleSale d))
            | None \<Rightarrow> PlanSale_sized x s)))"

section \<open>Ceilings of floats\<close>

lemma f64_big_int:
  assumes "is_f64 (Fin x)" "2 ^ 52 \<le> \<bar>x\<bar>"
  shows "x \<in> \<int>"
proof -
  have "(0::rat) < 2 ^ 52" by simp
  with assms(2) have "0 < \<bar>x\<bar>" by (rule order.strict_trans2 [rotated])
  then have "(2::rat) powi 52 < 2 powi (ilog2 \<bar>x\<bar> + 1)"
    using ilog2_bounds [of "\<bar>x\<bar>"] assms(2) by simp
  then have "52 \<le> ilog2 \<bar>x\<bar>" by (simp only: two_powi_less_iff)
  then have q: "0 \<le> qexp x" by (simp add: qexp_def)
  have "x = of_int (rne (x / 2 powi qexp x)) * 2 powi qexp x"
    using rndq_f64 [OF assms(1)] \<open>0 < \<bar>x\<bar>\<close> by (simp add: rndq_def)
  also have "\<dots> = of_int (rne (x / 2 powi qexp x) * 2 ^ nat (qexp x))" using two_powi_nat [OF q] by simp
  finally show ?thesis by (metis Ints_of_int)
qed

lemma is_f64_ceil:
  assumes "is_f64 (Fin x)"
  shows "is_f64 (Fin (of_int \<lceil>x\<rceil>))"
proof (cases "2 ^ 52 \<le> \<bar>x\<bar>")
  case True
  then obtain n where "x = of_int n" using f64_big_int [OF assms] by (auto elim: Ints_cases)
  then show ?thesis using assms by simp
next
  case False
  then have "\<bar>x\<bar> < 4503599627370496" by simp
  then have "\<bar>\<lceil>x\<rceil>\<bar> \<le> 4503599627370496" by linarith
  then have "\<bar>\<lceil>x\<rceil>\<bar> \<le> 2 ^ 53" by simp
  then show ?thesis by (rule is_f64_of_int)
qed

lemma f_of_int_ceil: "is_f64 (Fin x) \<Longrightarrow> f_of_int \<lceil>x\<rceil> = Fin (of_int \<lceil>x\<rceil>)"
  using is_f64_ceil [of x] by (simp add: f_of_int_def)

lemma f_of_int_max64: "f_of_int max64 = Fin 9223372036854775808"
  by code_simp

section \<open>The sale's size\<close>

lemma find_position:
  "BrokerSnapshot_Position s i = Some p \<Longrightarrow> p \<in> set (rows (bs_Positions s)) \<and> bp_InstrumentID p = i"
  by (auto simp: BrokerSnapshot_Position_def find_Some_iff)

lemma brokerPositionErrs_mark: "brokerPositionErrs sc prev ps = [] \<Longrightarrow> p \<in> set ps \<Longrightarrow> isFinite (bp_Mark p)"
  by (induction sc prev ps rule: brokerPositionErrs.induct) (auto split: if_splits)

lemma BrokerSnapshot_mark: "BrokerSnapshot_Validate s = [] \<Longrightarrow> p \<in> set (rows (bs_Positions s)) \<Longrightarrow> isFinite (bp_Mark p)"
  by (rule brokerPositionErrs_mark [of "bs_QuantityScale s" None "rows (bs_Positions s)"]) (auto simp: BrokerSnapshot_Validate_def split: if_splits)

lemma BrokerSnapshot_netLiquidation:
  "BrokerSnapshot_Validate s = [] \<Longrightarrow> BrokerReadable s BrokerComponentNetLiquidation \<Longrightarrow> isFinite (bs_NetLiquidation s)"
  by (auto simp: BrokerSnapshot_Validate_def split: if_splits)

lemma KeepShares_int:
  assumes "0 < t" "0 < v" "0 < m" "\<not> f_le (f_of_int max64) (KeepShares (Fin t) (Fin v) (Fin m))"
    "isFinite (f_mul (Fin t) (Fin v))"
  shows "\<exists>n. KeepShares (Fin t) (Fin v) (Fin m) = Fin (of_int n) \<and> 0 \<le> n \<and> n \<le> max64 \<and> f_of_int n = Fin (of_int n)"
proof -
  obtain a where a: "f_mul (Fin t) (Fin v) = Fin a" using assms(5) by (auto elim!: isFiniteE)
  have "0 \<le> t * v" using assms by simp
  then have a0: "0 \<le> a" using a rnd_eq_Fin [of "t * v" a] by (simp add: rndq_nonneg)
  have d: "f_div (Fin a) (Fin m) = rnd (a / m)" using assms(3) by simp
  have am: "0 \<le> a / m" using a0 assms(3) by simp
  have "rnd (a / m) \<noteq> PInf" using assms(4) a d by (auto simp: KeepShares_def f_ceil_def f_of_int_max64)
  then obtain b where b: "rnd (a / m) = Fin b" "0 \<le> b"
    using rnd_nonneg_cases [OF am] by (metis)
  have k: "KeepShares (Fin t) (Fin v) (Fin m) = Fin (of_int \<lceil>b\<rceil>)" using a d b by (simp add: KeepShares_def)
  have f64: "is_f64 (Fin b)" using b by (metis is_f64_rnd)
  have n0: "0 \<le> \<lceil>b\<rceil>" using b(2) by linarith
  have "\<not> (9223372036854775808 :: rat) \<le> of_int \<lceil>b\<rceil>" using assms(4) k by (simp add: f_of_int_max64)
  then have "\<lceil>b\<rceil> \<le> max64" unfolding max64_def by linarith
  then show ?thesis using k n0 f_of_int_ceil [OF f64] by blast
qed

lemma SaleInput_validate_bounds:
  assumes "SaleInput_validate x = []"
  shows "f_pos (si_Target x)" "f_le (si_Target x) (Fin 1)" "0 \<le> si_WorkingSells x"
    "si_Kind x = SaleKindIncident \<or> si_Kind x = SaleKindUrgent"
    "si_Trigger x = SaleTriggerExit \<or> si_Trigger x = SaleTriggerMarginUrgent"
    "si_Snapshot x = Some s \<Longrightarrow> BrokerSnapshot_Validate s = [] \<and> si_SnapshotID x \<noteq> []"
  using assms by (auto simp: SaleInput_validate_def split: if_splits)

lemma target_product_finite:
  assumes "0 < t" "t \<le> 1" "0 < v" "is_f64 (Fin v)"
  shows "isFinite (f_mul (Fin t) (Fin v))"
proof -
  have "t * v \<le> v" using assms by (simp add: mult_le_cancel_right1)
  then have "rndq (t * v) \<le> v" using rndq_le rndq_f64 [OF assms(4)] by blast
  moreover have "0 \<le> rndq (t * v)" using assms by (intro rndq_nonneg) simp
  moreover have "v < f_huge" using assms(3, 4) by (simp add: is_f64.simps(1))
  ultimately show ?thesis by (auto simp: rnd_def Let_def)
qed

lemma PlanSale_orderD:
  assumes "PlanSale x = Inr (SaleOrder r)"
  shows "\<exists>s p. si_Snapshot x = Some s \<and> SaleInput_validate x = [] \<and> BrokerReadable s BrokerComponentNetLiquidation \<and>
    StaleDetail (si_SnapshotID x) (bs_AsOf s) (si_At x) (si_MaxSnapshotAge x) = None \<and>
    f_pos (bs_NetLiquidation s) \<and> BrokerSnapshot_Position s (si_InstrumentID x) = Some p \<and> 0 \<le> bp_Quantity p \<and>
    bp_MarkSet p \<and> f_pos (bp_Mark p) \<and> unknownWorkingSell x s = None \<and>
    \<not> f_le (f_of_int max64) (KeepShares (si_Target x) (bs_NetLiquidation s) (bp_Mark p)) \<and>
    (let g = sale_sizing x (bp_Quantity p) (f_to_int (KeepShares (si_Target x) (bs_NetLiquidation s) (bp_Mark p)));
         q = min (sf_ToTarget g) (min (sf_WithinHolding g) (sf_NeverBelow g)) in
     0 < q \<and> r = sale_order x s p g q)"
  using assms
  by (auto simp: PlanSale_def PlanSale_sized_def withheld_sale_def Let_def sale_components_def split: option.splits if_splits)

text \<open>C11: A planned sale back to 98 percent is positive and, together with every sell
  already working, leaves at least the shares to keep: no combination of fills goes below the target
  or short, even where the int64 bounds of the source could wrap. The shares kept are exactly the
  ceiling the figures state, and the order's figures pass their own validator.\<close>

theorem PlanSale_never_below_target:
  assumes r: "PlanSale x = Inr (SaleOrder r)" and s: "si_Snapshot x = Some s"
    and i64: "list_all (\<lambda>p. in64 (bp_Quantity p)) (rows (bs_Positions s))" "in64 (si_WorkingSells x)"
    and f64: "is_f64 (bs_NetLiquidation s)"
  shows "0 < op_Quantity r \<and> op_Quantity r + si_WorkingSells x + sf_KeepShares (op_Sale r) \<le> op_HeldQuantity r \<and>
    f_of_int (sf_KeepShares (op_Sale r)) = KeepShares (si_Target x) (bs_NetLiquidation s) (op_ReferencePrice r) \<and>
    SaleFigures_validate (op_Sale r) r = []"
proof -
  obtain p where v: "SaleInput_validate x = []" and rd: "BrokerReadable s BrokerComponentNetLiquidation"
    and nl: "f_pos (bs_NetLiquidation s)" and p: "BrokerSnapshot_Position s (si_InstrumentID x) = Some p" and h0: "0 \<le> bp_Quantity p"
    and mk: "f_pos (bp_Mark p)" and big: "\<not> f_le (f_of_int max64) (KeepShares (si_Target x) (bs_NetLiquidation s) (bp_Mark p))"
    and q: "let g = sale_sizing x (bp_Quantity p) (f_to_int (KeepShares (si_Target x) (bs_NetLiquidation s) (bp_Mark p)));
         q = min (sf_ToTarget g) (min (sf_WithinHolding g) (sf_NeverBelow g)) in 0 < q \<and> r = sale_order x s p g q"
    using PlanSale_orderD [OF r] s by auto
  note b = SaleInput_validate_bounds [OF v]
  have bs: "BrokerSnapshot_Validate s = []" and sid: "si_SnapshotID x \<noteq> []" using b(6) s by auto
  obtain nv where nv: "bs_NetLiquidation s = Fin nv" "0 < nv"
    using BrokerSnapshot_netLiquidation [OF bs rd] nl by (auto elim!: isFiniteE)
  obtain m where m: "bp_Mark p = Fin m" "0 < m"
    using BrokerSnapshot_mark [OF bs] find_position [OF p] mk by (metis isFiniteE f_pos_Fin)
  obtain t where t: "si_Target x = Fin t" "0 < t" "t \<le> 1" using b(1, 2) by (cases "si_Target x") (auto simp: f_pos_def)
  have fin: "isFinite (f_mul (Fin t) (Fin nv))" using t nv f64 by (intro target_product_finite) auto
  obtain n where n: "KeepShares (Fin t) (Fin nv) (Fin m) = Fin (of_int n)" "0 \<le> n" "n \<le> max64" "f_of_int n = Fin (of_int n)"
    using KeepShares_int [OF t(2) nv(2) m(2) _ fin] big t nv m by auto
  have k: "f_to_int (KeepShares (si_Target x) (bs_NetLiquidation s) (bp_Mark p)) = n" using n t nv m by simp
  have held: "in64 (bp_Quantity p)" using i64 find_position [OF p] by (auto simp: list_all_iff)
  let ?h = "bp_Quantity p" and ?w = "si_WorkingSells x"
  have e1: "sub64 ?h n = ?h - n" and e2: "sub64 ?h ?w = ?h - ?w"
    using h0 held n i64 b(3) by (auto intro!: sub64_id simp: in64_def max64_def min64_def)
  have pos: "0 < min (?h - n) (min (?h - ?w) (sub64 (?h - ?w) n))" using q k e1 e2 by (simp add: sale_sizing_def Let_def)
  then have e3: "sub64 (?h - ?w) n = ?h - ?w - n" using h0 held n b(3) by (intro sub64_id) (auto simp: in64_def max64_def min64_def)
  have qe: "min (?h - n) (min (?h - ?w) (?h - ?w - n)) = ?h - ?w - n" using n(2) b(3) by simp
  have rr: "r = sale_order x s p (sale_sizing x ?h n) (?h - ?w - n)" and q0: "0 < ?h - ?w - n"
    using q k e1 e2 e3 pos qe by (auto simp: sale_sizing_def Let_def)
  have "SaleFigures_validate (op_Sale r) r = []"
    using b(3, 4, 5) sid n t nv m e1 e2 e3 qe unfolding rr
    by (auto simp: SaleFigures_validate_def sale_order_def sale_sizing_def)
  then show ?thesis using rr q0 n t nv m by (simp add: sale_order_def sale_sizing_def)
qed

text \<open>An account worth 100,000 holding 1,200 SPY at 100, with a sell of 20 already working.\<close>

definition sale_snapshot_example :: broker_snapshot_payload where
  "sale_snapshot_example = \<lparr>bs_QuantityScale = 0, bs_AccountID = ''U1'', bs_AsOf = 63900000000 * second_ns, bs_MarketOpen = True,
     bs_Unreadable = [], bs_NetLiquidation = Fin 100000, bs_ExcessLiquidity = Fin 10000,
     bs_Positions = Some [\<lparr>bp_InstrumentID = ''SPY'', bp_Quantity = 1200, bp_Mark = Fin 100, bp_MarkSet = True\<rparr>],
     bs_OpenOrders = Some [], bs_ReadAt = 0, bs_AsOfClose = False, bs_NotAsOfClose = '''', bs_ReadNetLiquidation = Fin 0,
     bs_CashDrift = Fin 0, bs_UnexplainedCash = Fin 0\<rparr>"

definition sale_input_example :: sale_input where
  "sale_input_example = \<lparr>si_AccountID = ''U1'', si_Tag = ''incident'', si_InstrumentID = ''SPY'', si_Kind = SaleKindIncident,
     si_Trigger = SaleTriggerExit, si_Target = f_lit (49/50), si_PriceBand = f_lit (1/50), si_SnapshotID = ''s1'',
     si_Snapshot = Some sale_snapshot_example, si_Recognised = {}, si_WorkingSells = 20, si_At = 63900000060 * second_ns,
     si_MaxSnapshotAge = 5 * MinuteDuration, si_Retired = 0\<rparr>"

lemma sale_example_plans:
  "PlanSale sale_input_example = Inr (SaleOrder (sale_order sale_input_example sale_snapshot_example
     \<lparr>bp_InstrumentID = ''SPY'', bp_Quantity = 1200, bp_Mark = Fin 100, bp_MarkSet = True\<rparr>
     (sale_sizing sale_input_example 1200 980) 200))"
proof -
  have k: "KeepShares (f_lit (49/50)) (Fin 100000) (Fin 100) = Fin 980" by code_simp
  have v: "SaleInput_validate sale_input_example = []" by code_simp
  have st: "StaleDetail ''s1'' (63900000000 * second_ns) (63900000060 * second_ns) (5 * MinuteDuration) = None" by code_simp
  have z: "sub64 1200 980 = 220" "sub64 1200 20 = 1180" "sub64 1180 980 = 200" by code_simp+
  show ?thesis unfolding PlanSale_def v joinErrs_Nil
    by (simp add: sale_input_example_def sale_snapshot_example_def sale_components_def BrokerReadable_def st PlanSale_sized_def
        BrokerSnapshot_Position_def unknownWorkingSell_def k f_of_int_max64 sale_sizing_def z Let_def)
qed

theorem PlanSale_never_below_target_witness:
  "(200::int) + 20 + 980 \<le> 1200 \<and> f_of_int 980 = KeepShares (f_lit (49/50)) (Fin 100000) (Fin 100) \<and>
   (case PlanSale sale_input_example of Inr (SaleOrder r) \<Rightarrow> SaleFigures_validate (op_Sale r) r = [] | _ \<Rightarrow> False)"
proof -
  have "is_f64 (Fin 100000)" by code_simp
  from PlanSale_never_below_target [OF sale_example_plans, of sale_snapshot_example] this show ?thesis
    unfolding sale_example_plans
    by (simp add: sale_input_example_def sale_snapshot_example_def sale_order_def sale_sizing_def in64_def min64_def max64_def)
qed

end
