(* ===== verification/Reconcile.thy ===== *)
theory Reconcile
  imports ReconcileEvents "HOL-Library.Product_Lexorder"
begin

text \<open>
  \<open>internal/reconcile\<close>: one reconciliation of an account's book against the broker. The book, every
  journalled change since it and the broker's observation give each component a residual; a component
  is explained only when its residual is zero, and the broker's figure is never adopted. Cash is in
  whole cents and shares in the book's quantity units, both \<open>int64\<close>, and every sum either fits or is a
  reason the evidence cannot be compared.
\<close>

section \<open>Cents and shares\<close>

text \<open>\<open>big.Int.QuoRem\<close> truncates toward zero.\<close>

definition quo :: "int \<Rightarrow> int \<Rightarrow> int" where
  "quo a b = (if a < 0 then - (- a div b) else a div b)"

definition roundCents :: "rat \<Rightarrow> (cents_error, int) result" where
  "roundCents d = (let (n, m) = quotient_of (d * 100); q = quo n m; r = n - q * m;
       c = (if \<bar>r\<bar> * 2 \<ge> m then q + sgn n else q) in
     failIf (\<not> in64 c) (MoreCentsThanABook d) (Inr c))"

definition Cents :: "f64 \<Rightarrow> (cents_error, int) result" where
  "Cents x = failIf (\<not> isFinite x) NoDecimalFigure (roundCents (decimalMoney x))"

definition addCents :: "int \<Rightarrow> int \<Rightarrow> (cents_error, int) result" where
  "addCents a b = failIf ((b > 0 \<and> a > sub64 max64 b) \<or> (b < 0 \<and> a < sub64 min64 b)) (CentsSum a b) (Inr (add64 a b))"

definition subCents :: "int \<Rightarrow> int \<Rightarrow> (cents_error, int) result" where
  "subCents a b = failIf ((b < 0 \<and> a > add64 max64 b) \<or> (b > 0 \<and> a < add64 min64 b)) (CentsDifference a b) (Inr (sub64 a b))"

section \<open>The book\<close>

record book =
  bk_QuantityScale :: int
  bk_AnchorID :: string
  bk_AsOf :: gotime
  bk_Positions :: "(string, int) gomap"
  bk_CashSet :: bool
  bk_Cash :: int
  bk_Currency :: string
  bk_Fault :: "cents_error option"

definition PositionsBook :: "string \<Rightarrow> account_positions_snapshot \<Rightarrow> book" where
  "PositionsBook i p = \<lparr>bk_QuantityScale = aps_QuantityScale p, bk_AnchorID = i, bk_AsOf = aps_AsOf p,
     bk_Positions = foldl (\<lambda>m q. mput m (ap_InstrumentID q) (ap_Quantity q)) [] (aps_Positions p),
     bk_CashSet = False, bk_Cash = 0, bk_Currency = aps_Currency p, bk_Fault = None\<rparr>"

definition CashBook :: "string \<Rightarrow> account_cash_snapshot \<Rightarrow> book" where
  "CashBook i p = (let b = PositionsBook i (account_positions_snapshot.truncate p)\<lparr>bk_CashSet := True\<rparr> in
     case Cents (acs_TotalCash p) of Inl e \<Rightarrow> b\<lparr>bk_Fault := Some e, bk_Cash := 0\<rparr> | Inr c \<Rightarrow> b\<lparr>bk_Cash := c\<rparr>)"

section \<open>Changes\<close>

definition ChangeFill :: string where
  "ChangeFill = ''fill''"

definition ChangeDividend :: string where
  "ChangeDividend = CorporateActionKindDividend"

definition ChangeSplit :: string where
  "ChangeSplit = CorporateActionKindSplit"

definition ChangeCashMovement :: string where
  "ChangeCashMovement = ''cash-movement''"

lemmas change_kinds = ChangeFill_def ChangeDividend_def ChangeSplit_def ChangeCashMovement_def
  CorporateActionKindDividend_def CorporateActionKindSplit_def

lemma change_kinds_distinct [simp]:
  "ChangeFill \<noteq> ChangeDividend" "ChangeFill \<noteq> ChangeSplit" "ChangeFill \<noteq> ChangeCashMovement"
  "ChangeDividend \<noteq> ChangeFill" "ChangeDividend \<noteq> ChangeSplit" "ChangeDividend \<noteq> ChangeCashMovement"
  "ChangeSplit \<noteq> ChangeFill" "ChangeSplit \<noteq> ChangeDividend" "ChangeSplit \<noteq> ChangeCashMovement"
  "ChangeCashMovement \<noteq> ChangeFill" "ChangeCashMovement \<noteq> ChangeDividend" "ChangeCashMovement \<noteq> ChangeSplit"
  by (simp_all add: change_kinds)

record change =
  ch_QuantityScale :: int
  ch_ID :: string
  ch_Kind :: string
  ch_InstrumentID :: string
  ch_At :: gotime
  ch_Shares :: int
  ch_Cash :: int
  ch_Commission :: int
  ch_Currency :: string
  ch_NewShares :: int
  ch_OldShares :: int
  ch_CashFault :: cash_fault
  ch_TransactionID :: string

definition noChange :: change where
  "noChange = \<lparr>ch_QuantityScale = 0, ch_ID = '''', ch_Kind = '''', ch_InstrumentID = '''', ch_At = 0, ch_Shares = 0, ch_Cash = 0,
     ch_Commission = 0, ch_Currency = '''', ch_NewShares = 0, ch_OldShares = 0, ch_CashFault = NoCashFault, ch_TransactionID = ''''\<rparr>"

text \<open>A Go call that fails leaves its value zero and its error for the joined fault.\<close>

definition value_or_0 :: "(cents_error, int) result \<Rightarrow> int" where
  "value_or_0 r = (case r of Inl _ \<Rightarrow> 0 | Inr v \<Rightarrow> v)"

definition error_of :: "('e, 'a) result \<Rightarrow> 'e list" where
  "error_of r = (case r of Inl e \<Rightarrow> [e] | Inr _ \<Rightarrow> [])"

definition FillChange :: "target_weight_fill \<Rightarrow> change" where
  "FillChange p = (let
     valueR = roundCents (decimalMoney (tf_Price p) * (of_int (tf_Quantity p) / of_int (QuantityUnits (tf_QuantityScale p))));
     commissionR = Cents (tf_Commission p);
     v = value_or_0 valueR; commission = value_or_0 commissionR;
     cashR = (if tf_Side p = OrderSideSell then subCents v commission
              else bindr (addCents v commission) (\<lambda>cost. subCents 0 cost));
     errs = error_of valueR @ error_of commissionR @ error_of cashR in
     noChange\<lparr>ch_QuantityScale := tf_QuantityScale p, ch_ID := tf_FillID p, ch_Kind := ChangeFill, ch_InstrumentID := tf_InstrumentID p,
       ch_At := tf_FilledAt p, ch_Shares := (if tf_Side p = OrderSideSell then neg64 (tf_Quantity p) else tf_Quantity p),
       ch_Commission := commission, ch_Cash := value_or_0 cashR,
       ch_CashFault := (if errs = [] then NoCashFault else FillFault (tf_FillID p) errs)\<rparr>)"

definition CorporateActionChange :: "string \<Rightarrow> corporate_action \<Rightarrow> change" where
  "CorporateActionChange i p = (let
     c = noChange\<lparr>ch_ID := i, ch_Kind := ca_Kind p, ch_InstrumentID := ca_InstrumentID p, ch_At := ca_EffectiveAt p, ch_Currency := ca_Currency p\<rparr>;
     cashR = (if ca_Kind p = CorporateActionKindDividend then Cents (ca_CashAmount p)
              else if ca_Kind p = CorporateActionKindSplit then Cents (ca_CashInLieu p) else Inr 0);
     c = (if ca_Kind p = CorporateActionKindSplit then c\<lparr>ch_NewShares := ca_NewShares p, ch_OldShares := ca_OldShares p\<rparr> else c) in
     c\<lparr>ch_Cash := value_or_0 cashR, ch_CashFault := (case cashR of Inl e \<Rightarrow> CorporateActionFault i e | Inr _ \<Rightarrow> NoCashFault)\<rparr>)"

definition CashMovementChange :: "string \<Rightarrow> cash_movement \<Rightarrow> change" where
  "CashMovementChange i p = (let cashR = Cents (cm_Amount p) in
     noChange\<lparr>ch_ID := i, ch_Kind := ChangeCashMovement, ch_At := cm_AsOf p, ch_Currency := cm_Currency p, ch_TransactionID := cm_TransactionID p,
       ch_Cash := value_or_0 cashR, ch_CashFault := (case cashR of Inl e \<Rightarrow> CashMovementFault i e | Inr _ \<Rightarrow> NoCashFault)\<rparr>)"

section \<open>Transfers\<close>

definition HeldUntil :: "book \<Rightarrow> (recon_reason, gotime) result" where
  "HeldUntil b = (let d = nyDay (bk_AsOf b) in
     case IsTradingDay d of
       Inl e \<Rightarrow> Inl (RCloseNotKnown (bk_AsOf b) e)
     | Inr trading \<Rightarrow> Inr (if \<not> trading then bk_AsOf b
         else if SessionClose d \<noteq> Inr (bk_AsOf b) then bk_AsOf b else nyDate (d + 1) 0))"

primrec transfers_loop :: "gotime \<Rightarrow> gotime \<Rightarrow> string set \<Rightarrow> string \<Rightarrow> int \<Rightarrow> string list \<Rightarrow> change list \<Rightarrow> (transfers_error, int \<times> string list) result" where
  "transfers_loop from until counted currency s ids [] = Inr (s, ids)"
| "transfers_loop from until counted currency s ids (c # cs) = (let t = trunc_sec (ch_At c) in
     if ch_Kind c \<noteq> ChangeCashMovement \<or> ch_ID c \<in> counted \<or> t < from \<or> \<not> t < until
     then transfers_loop from until counted currency s ids cs
     else if ch_CashFault c \<noteq> NoCashFault then Inl (TransferFault (ch_CashFault c))
     else if ch_Currency c \<noteq> currency then Inl (TransferCurrency (ch_ID c) (ch_Currency c) currency)
     else (case addCents s (ch_Cash c) of Inl e \<Rightarrow> Inl (TransferSum e)
           | Inr s' \<Rightarrow> transfers_loop from until counted currency s' (ids @ [ch_ID c]) cs))"

definition TransfersIn :: "change list \<Rightarrow> gotime \<Rightarrow> gotime \<Rightarrow> string set \<Rightarrow> string \<Rightarrow> (transfers_error, int \<times> string list) result" where
  "TransfersIn changes from until counted currency = transfers_loop from until counted currency 0 [] changes"

section \<open>Applying a change\<close>

definition sharesAfter :: "int \<Rightarrow> change \<Rightarrow> (shares_error, int) result" where
  "sharesAfter held c =
     (if ch_Kind c \<noteq> ChangeSplit then
        failIf ((ch_Shares c > 0 \<and> held > sub64 max64 (ch_Shares c)) \<or> (ch_Shares c < 0 \<and> held < sub64 min64 (ch_Shares c)))
          (SharesSum held (ch_Shares c)) (Inr (add64 held (ch_Shares c)))
      else failIf (ch_OldShares c \<le> 0 \<or> ch_NewShares c \<le> 0) (NoSplitRatio (ch_NewShares c) (ch_OldShares c))
        (let scaled = quo (held * ch_NewShares c) (ch_OldShares c);
             remainder = held * ch_NewShares c - scaled * ch_OldShares c in
         failIf (ch_QuantityScale c \<noteq> 0 \<and> remainder \<noteq> 0) DiscardsTick
         (failIf (\<not> in64 scaled) (SplitTooLarge held (ch_NewShares c) (ch_OldShares c)) (Inr scaled))))"

definition noParts :: cash_parts where
  "noParts = \<lparr>cp_fills = 0, cp_commissions = 0, cp_dividends = 0, cp_inLieu = 0, cp_transfers = 0, cp_transferred = False\<rparr>"

definition cashParts_add :: "cash_parts \<Rightarrow> change \<Rightarrow> (cents_error, cash_parts) result" where
  "cashParts_add p c =
     (if ch_Kind c = ChangeFill then
        bindr (addCents (ch_Cash c) (ch_Commission c)) (\<lambda>v.
        bindr (addCents (cp_fills p) v) (\<lambda>fills.
        bindr (subCents (cp_commissions p) (ch_Commission c)) (\<lambda>commissions.
          Inr (p\<lparr>cp_fills := fills, cp_commissions := commissions\<rparr>))))
      else if ch_Kind c = ChangeDividend then bindr (addCents (cp_dividends p) (ch_Cash c)) (\<lambda>d. Inr (p\<lparr>cp_dividends := d\<rparr>))
      else if ch_Kind c = ChangeSplit then bindr (addCents (cp_inLieu p) (ch_Cash c)) (\<lambda>d. Inr (p\<lparr>cp_inLieu := d\<rparr>))
      else if ch_Kind c = ChangeCashMovement then
        bindr (addCents (cp_transfers p) (ch_Cash c)) (\<lambda>d. Inr (p\<lparr>cp_transfers := d, cp_transferred := True\<rparr>))
      else Inr p)"

text \<open>The variables of the loop of \<open>classify\<close>.\<close>

record bridge =
  br_expected :: "(string, int) gomap"
  br_explained :: "(string, string list) gomap"
  br_cash :: int
  br_cashExplained :: "string list"
  br_parts :: cash_parts
  br_applied :: "change list"
  br_reasons :: "recon_reason list"

definition addReason :: "bridge \<Rightarrow> recon_reason \<Rightarrow> bridge" where
  "addReason s r = s\<lparr>br_reasons := br_reasons s @ [r]\<rparr>"

definition inWindow :: "book \<Rightarrow> bool \<Rightarrow> (recon_reason, gotime) result \<Rightarrow> gotime \<Rightarrow> change \<Rightarrow> bool" where
  "inWindow b cashRead held asOf c = (let t = trunc_sec (ch_At c) in
     if ch_Kind c = ChangeCashMovement then
       cashRead \<and> (case held of Inl _ \<Rightarrow> False | Inr heldUntil \<Rightarrow> \<not> t < heldUntil) \<and> t < asOf
     else \<not> t < bk_AsOf b \<and> t < asOf)"

definition knownKind :: "string \<Rightarrow> bool" where
  "knownKind k \<longleftrightarrow> k = ChangeFill \<or> k = ChangeDividend \<or> k = ChangeSplit \<or> k = ChangeCashMovement"

definition cashAfter :: "bridge \<Rightarrow> change \<Rightarrow> (cents_error, int \<times> cash_parts) result" where
  "cashAfter s c = bindr (addCents (br_cash s) (ch_Cash c)) (\<lambda>next. bindr (cashParts_add (br_parts s) c) (\<lambda>parts. Inr (next, parts)))"

definition bookCash :: "bridge \<Rightarrow> change \<Rightarrow> int \<Rightarrow> bridge" where
  "bookCash s c next = s\<lparr>br_cash := next, br_cashExplained := br_cashExplained s @ [ch_ID c], br_applied := br_applied s @ [c]\<rparr>"

definition bookShares :: "bridge \<Rightarrow> change \<Rightarrow> int \<Rightarrow> bridge" where
  "bookShares s c q = (let s = s\<lparr>br_expected := mput (br_expected s) (ch_InstrumentID c) q\<rparr> in
     if ch_Kind c = ChangeDividend then s
     else s\<lparr>br_explained := mput (br_explained s) (ch_InstrumentID c) (mget (br_explained s) (ch_InstrumentID c) [] @ [ch_ID c])\<rparr>)"

definition applyHolding :: "book \<Rightarrow> bool \<Rightarrow> bridge \<Rightarrow> change \<Rightarrow> bridge" where
  "applyHolding b cashRead s c0 = (let c = (if ch_Kind c0 = ChangeSplit then c0\<lparr>ch_QuantityScale := bk_QuantityScale b\<rparr> else c0) in
     case sharesAfter (mget (br_expected s) (ch_InstrumentID c) 0) c of
       Inl e \<Rightarrow> addReason s (RExpectedShares (ch_ID c) (ch_InstrumentID c) e)
     | Inr q \<Rightarrow>
         if \<not> cashRead then bookShares s c q
         else (case cashAfter s c of
             Inl e \<Rightarrow> addReason s (RExpectedCash (ch_ID c) e)
           | Inr (next, parts) \<Rightarrow> (let s = bookShares (s\<lparr>br_parts := parts\<rparr>) c q in
               if ch_Cash c \<noteq> 0 \<or> ch_Kind c = ChangeFill then bookCash s c next else s)))"

definition applyChange :: "book \<Rightarrow> bool \<Rightarrow> bridge \<Rightarrow> change \<Rightarrow> bridge" where
  "applyChange b cashRead s c =
     (if \<not> knownKind (ch_Kind c) then addReason s (RCannotApply (ch_ID c) (ch_Kind c) (ch_InstrumentID c))
      else if bk_CashSet b \<and> ch_Cash c \<noteq> 0 \<and> ch_Currency c \<noteq> '''' \<and> ch_Currency c \<noteq> bk_Currency b
      then addReason s (RPaysCashIn (ch_ID c) (ch_Currency c) (bk_Currency b))
      else if cashRead \<and> ch_CashFault c \<noteq> NoCashFault then addReason s (RCashFault (ch_CashFault c))
      else if ch_Kind c = ChangeCashMovement then
        (case cashAfter s c of
           Inl e \<Rightarrow> addReason s (RExpectedCash (ch_ID c) e)
         | Inr (next, parts) \<Rightarrow> bookCash (s\<lparr>br_parts := parts\<rparr>) c next)
      else if ch_Kind c = ChangeFill \<and> ch_QuantityScale c \<noteq> bk_QuantityScale b
      then addReason s (RFillScale (ch_ID c) (ch_QuantityScale c) (bk_QuantityScale b))
      else applyHolding b cashRead s c)"

definition startBridge :: "book \<Rightarrow> recon_reason list \<Rightarrow> bridge" where
  "startBridge b reasons = \<lparr>br_expected = bk_Positions b, br_explained = [], br_cash = bk_Cash b, br_cashExplained = [],
     br_parts = noParts, br_applied = [], br_reasons = reasons\<rparr>"

definition bridgeOver :: "book \<Rightarrow> bool \<Rightarrow> (recon_reason, gotime) result \<Rightarrow> gotime \<Rightarrow> bridge \<Rightarrow> change list \<Rightarrow> bridge" where
  "bridgeOver b cashRead held asOf s changes =
     foldl (\<lambda>s c. if inWindow b cashRead held asOf c then applyChange b cashRead s c else s) s changes"

section \<open>Withdrawals beyond the cash\<close>

definition overdrawnAt :: "change \<Rightarrow> gotime" where
  "overdrawnAt c = (let t = trunc_sec (ch_At c) in
     if ch_Kind c \<noteq> ChangeCashMovement \<or> ch_Cash c \<ge> 0 then t
     else if t \<noteq> nyDate (nyDay t) 0 then t else nyDate (nyDay t + 1) 0)"

primrec overdrawn_loop :: "int \<Rightarrow> overdrawn_note list \<Rightarrow> change list \<Rightarrow> overdrawn_note list" where
  "overdrawn_loop cash acc [] = acc"
| "overdrawn_loop cash acc (c # cs) = (case addCents cash (ch_Cash c) of
     Inl _ \<Rightarrow> acc
   | Inr next \<Rightarrow> overdrawn_loop next
       (if ch_Kind c = ChangeCashMovement \<and> ch_Cash c < 0 \<and> next < 0
        then acc @ [WithdrawalBeyondCash (ch_ID c) (neg64 (ch_Cash c)) cash] else acc) cs)"

definition overdrawnIn :: "int \<Rightarrow> change list \<Rightarrow> overdrawn_note list" where
  "overdrawnIn start applied = overdrawn_loop start [] (sort_key (\<lambda>c. (overdrawnAt c, ch_TransactionID c)) applied)"

section \<open>The classification\<close>

definition appendEntry :: "recon_component list \<times> recon_reason list \<Rightarrow> recon_component \<Rightarrow> recon_component list \<times> recon_reason list" where
  "appendEntry acc c = (case subCents (rc_Observed c) (rc_Expected c) of
     Inl e \<Rightarrow> (fst acc, snd acc @ [RResidual (rc_Component c) e])
   | Inr residual \<Rightarrow> (fst acc @ [c\<lparr>rc_Residual := residual, rc_Explained := (residual = 0)\<rparr>], snd acc))"

definition difference :: "cash_parts \<Rightarrow> overdrawn_note list \<Rightarrow> int \<Rightarrow> string \<Rightarrow> recon_component \<Rightarrow> recon_difference" where
  "difference parts overdrawn start currency c =
     (if rc_Component c = ReconciliationComponentCash
      then CashDifference parts start (rc_Expected c) (rc_Observed c) (rc_Residual c) currency overdrawn
      else PositionDifference (rc_InstrumentID c) (rc_Book c) (rc_Expected c) (rc_Observed c) (rc_Residual c))"

definition finish :: "recon_result \<Rightarrow> recon_reason list \<Rightarrow> cash_parts \<Rightarrow> int \<Rightarrow> overdrawn_note list \<Rightarrow> cash_note \<Rightarrow> recon_result" where
  "finish r reasons parts start overdrawn uncompared = (let
     cs = rr_Components r;
     differences = map (difference parts overdrawn start (rr_Currency r)) (filter (\<lambda>c. \<not> rc_Explained c) cs);
     events = remdups (concat (map rc_Explanations cs));
     r = r\<lparr>rr_ScopeInstrumentIDs := unexplainedIDs cs, rr_ScopeCashComponents := unexplainedCash cs\<rparr>;
     cash = (if rr_CashCompared r then NetCashLimit else uncompared) in
     if reasons \<noteq> [] then
       r\<lparr>rr_Classification := ReconciliationUnverifiable, rr_Action := ReconciliationActionHalt, rr_Unverifiable := reasons,
         rr_ScopeInstrumentIDs := [], rr_ScopeCashComponents := [], rr_Detail := UnverifiableDetail reasons\<rparr>
     else if differences \<noteq> [] then
       r\<lparr>rr_Classification := ReconciliationUnexplained, rr_Action := ReconciliationActionDegrade, rr_Detail := UnexplainedDetail differences cash\<rparr>
     else if events \<noteq> [] then
       r\<lparr>rr_Classification := ReconciliationExplained, rr_Action := ReconciliationActionContinue,
         rr_Detail := ExplainedDetail (int (length events)) (rr_AnchorID r) cash\<rparr>
     else r\<lparr>rr_Classification := ReconciliationMatched, rr_Action := ReconciliationActionContinue, rr_Detail := MatchedDetail (rr_AnchorID r) cash\<rparr>)"

definition startResult :: "string \<Rightarrow> reconciliation_payload \<Rightarrow> recon_result" where
  "startResult inputID obs = \<lparr>rr_QuantityScale = rp_QuantityScale obs, rr_AccountID = rp_AccountID obs, rr_ReconciliationID = rp_ReconciliationID obs,
     rr_InputID = inputID, rr_AnchorID = '''', rr_Classification = OtherClassification '''', rr_Action = OtherAction '''', rr_CashCompared = False,
     rr_Currency = '''', rr_Components = [], rr_Unverifiable = [], rr_ScopeInstrumentIDs = [], rr_ScopeCashComponents = [],
     rr_Detail = NoReconDetail, rr_RepeatOf = ''''\<rparr>"

text \<open>The broker's cash in cents when it is compared, with the reasons it cannot be.\<close>

definition observedCashOf :: "book \<Rightarrow> reconciliation_payload \<Rightarrow> int option \<times> recon_reason list" where
  "observedCashOf b obs =
     (if \<not> bk_CashSet b then (None, [])
      else if \<not> ReconReadable obs ReconciliationComponentCash then (None, [RCashUnread])
      else if rp_Currency obs \<noteq> bk_Currency b then (None, [RCashCurrency (rp_Currency obs) (bk_Currency b)])
      else (case Cents (rp_TotalCash obs) of Inl e \<Rightarrow> (None, [RObservedCash e]) | Inr c \<Rightarrow> (Some c, [])))"

definition heldFor :: "book \<Rightarrow> bool \<Rightarrow> change list \<Rightarrow> (recon_reason, gotime) result" where
  "heldFor b cashRead changes = (if cashRead \<and> list_ex (\<lambda>c. ch_Kind c = ChangeCashMovement) changes then HeldUntil b else Inr 0)"

definition cashComponent :: "book \<Rightarrow> bridge \<Rightarrow> int \<Rightarrow> recon_component" where
  "cashComponent b s seen = \<lparr>rc_Component = ReconciliationComponentCash, rc_InstrumentID = '''', rc_Book = bk_Cash b, rc_Expected = br_cash s,
     rc_Observed = seen, rc_Residual = 0, rc_Explanations = br_cashExplained s, rc_Explained = False\<rparr>"

definition observedMap :: "account_position list \<Rightarrow> (string, int) gomap" where
  "observedMap ps = foldl (\<lambda>m q. mput m (ap_InstrumentID q) (ap_Quantity q)) [] ps"

definition positionComponent :: "book \<Rightarrow> bridge \<Rightarrow> (string, int) gomap \<Rightarrow> string \<Rightarrow> recon_component" where
  "positionComponent b s seen i = \<lparr>rc_Component = ReconciliationComponentPosition, rc_InstrumentID = i, rc_Book = mget (bk_Positions b) i 0,
     rc_Expected = mget (br_expected s) i 0, rc_Observed = mget seen i 0, rc_Residual = 0,
     rc_Explanations = mget (br_explained s) i [], rc_Explained = False\<rparr>"

definition components :: "book \<Rightarrow> bridge \<Rightarrow> int option \<Rightarrow> bool \<Rightarrow> reconciliation_payload \<Rightarrow> recon_component list \<times> recon_reason list" where
  "components b s observedCash positionsRead obs = (let
     acc = (case observedCash of None \<Rightarrow> ([], br_reasons s) | Some c \<Rightarrow> appendEntry ([], br_reasons s) (cashComponent b s c)) in
     if \<not> positionsRead then acc
     else (let seen = observedMap (rows (rp_Positions obs)) in
       foldl appendEntry acc (map (positionComponent b s seen) (remdups_adj (sort (map fst (br_expected s) @ map fst seen))))))"

definition reasonsBefore :: "book \<Rightarrow> reconciliation_payload \<Rightarrow> recon_reason list" where
  "reasonsBefore b obs = errIf (\<not> ReconReadable obs ReconciliationComponentPositions) RPositionsUnread
     @ errIf (rp_AsOf obs < bk_AsOf b) (RPrecedesBook (rp_AsOf obs) (bk_AsOf b))
     @ (case bk_Fault b of None \<Rightarrow> [] | Some e \<Rightarrow> [RBookFault e])
     @ snd (observedCashOf b obs)"

definition bridgeFor :: "book \<Rightarrow> change list \<Rightarrow> reconciliation_payload \<Rightarrow> bridge" where
  "bridgeFor b changes obs = (let cashRead = (fst (observedCashOf b obs) \<noteq> None); held = heldFor b cashRead changes in
     bridgeOver b cashRead held (rp_AsOf obs) (startBridge b (reasonsBefore b obs @ (case held of Inl e \<Rightarrow> [e] | Inr _ \<Rightarrow> []))) changes)"

definition classify :: "book option \<Rightarrow> change list \<Rightarrow> string \<Rightarrow> reconciliation_payload \<Rightarrow> cash_note \<Rightarrow> recon_result \<times> bool" where
  "classify bo changes inputID obs uncompared = (let r = startResult inputID obs;
       positionsRead = ReconReadable obs ReconciliationComponentPositions;
       unread = errIf (\<not> positionsRead) RPositionsUnread in
     case bo of
       None \<Rightarrow> (finish r (unread @ [RNoBook]) noParts 0 [] uncompared, False)
     | Some b \<Rightarrow> (let r = r\<lparr>rr_AnchorID := bk_AnchorID b\<rparr> in
         if bk_QuantityScale b \<noteq> rp_QuantityScale obs then (finish r (unread @ [RScalesDiffer]) noParts 0 [] uncompared, False)
         else (let
           r = (if bk_CashSet b then r\<lparr>rr_CashCompared := True, rr_Currency := bk_Currency b\<rparr> else r);
           s = bridgeFor b changes obs;
           overdrawn = overdrawnIn (bk_Cash b) (br_applied s);
           (cs, reasons) = components b s (fst (observedCashOf b obs)) positionsRead obs;
           r = finish (r\<lparr>rr_Components := cs\<rparr>) reasons (br_parts s) (bk_Cash b) overdrawn uncompared in
           (r, overdrawn \<noteq> [] \<and> rr_Classification r = ReconciliationUnexplained))))"

record outcome =
  oc_Result :: recon_result
  oc_Overdrawn :: bool

definition Reconcile :: "book option \<Rightarrow> change list \<Rightarrow> string \<Rightarrow> reconciliation_payload \<Rightarrow> outcome" where
  "Reconcile bo changes inputID obs = (let (r, o') = classify bo changes inputID obs BookStatesNoCash in \<lparr>oc_Result = r, oc_Overdrawn = o'\<rparr>)"

definition Classify :: "book option \<Rightarrow> change list \<Rightarrow> string \<Rightarrow> reconciliation_payload \<Rightarrow> recon_result" where
  "Classify bo changes inputID obs = oc_Result (Reconcile bo changes inputID obs)"

section \<open>Close snapshots\<close>

definition CloseSnapshotPrefix :: string where
  "CloseSnapshotPrefix = ''close-snapshot:''"

definition holdingsObservation :: "string \<Rightarrow> book \<Rightarrow> reconciliation_payload" where
  "holdingsObservation accountID next = \<lparr>rp_QuantityScale = bk_QuantityScale next, rp_AccountID = accountID,
     rp_ReconciliationID = CloseSnapshotPrefix @ bk_AnchorID next, rp_Trigger = ReconciliationTriggerMorning, rp_AsOf = bk_AsOf next,
     rp_Unreadable = [], rp_Positions = Some (map (\<lambda>i. \<lparr>ap_InstrumentID = i, ap_Quantity = mget (bk_Positions next) i 0\<rparr>)
       (filter (\<lambda>i. mget (bk_Positions next) i 0 \<noteq> 0) (mkeys (bk_Positions next)))),
     rp_TotalCash = Fin 0, rp_Currency = ''''\<rparr>"

definition positionsOnly :: "book \<Rightarrow> book" where
  "positionsOnly b = b\<lparr>bk_CashSet := False, bk_Cash := 0, bk_Fault := None\<rparr>"

definition Holdings :: "string \<Rightarrow> book option \<Rightarrow> change list \<Rightarrow> book \<Rightarrow> recon_result" where
  "Holdings accountID bo changes next = (let
     r = fst (classify (map_option positionsOnly bo) changes (bk_AnchorID next) (holdingsObservation accountID next)
           (HoldingsOfCloseSnapshot (bk_AnchorID next))) in
     if rr_Classification r = ReconciliationUnexplained then
       (case rr_Detail r of UnexplainedDetail ds n \<Rightarrow> r\<lparr>rr_Detail := UnexplainedHoldingsDetail ds n\<rparr> | _ \<Rightarrow> r)
     else r)"

section \<open>Exact arithmetic\<close>

lemma addCents_exact:
  assumes "in64 a" "in64 b"
  shows "addCents a b = (if in64 (a + b) then Inr (a + b) else Inl (CentsSum a b))"
proof -
  have "(b > 0 \<and> a > sub64 max64 b) \<or> (b < 0 \<and> a < sub64 min64 b) \<longleftrightarrow> \<not> in64 (a + b)"
  proof (cases "b = 0")
    case False
    then have "0 < b \<Longrightarrow> sub64 max64 b = max64 - b" "b < 0 \<Longrightarrow> sub64 min64 b = min64 - b"
      using assms by (auto intro!: sub64_id simp: in64_def min64_def max64_def)
    with False assms show ?thesis by (cases "0 < b") (auto simp: in64_def)
  qed (use assms in simp)
  then show ?thesis by (simp add: addCents_def failIf_def add64_id)
qed

lemma subCents_exact:
  assumes "in64 a" "in64 b"
  shows "subCents a b = (if in64 (a - b) then Inr (a - b) else Inl (CentsDifference a b))"
proof -
  have "(b < 0 \<and> a > add64 max64 b) \<or> (b > 0 \<and> a < add64 min64 b) \<longleftrightarrow> \<not> in64 (a - b)"
  proof (cases "b = 0")
    case False
    then have "b < 0 \<Longrightarrow> add64 max64 b = max64 + b" "b > 0 \<Longrightarrow> add64 min64 b = min64 + b"
      using assms add64_id [of max64 b] add64_id [of min64 b] by (auto simp: in64_def min64_def max64_def)
    with False assms show ?thesis by (cases "0 < b") (auto simp: in64_def)
  qed (use assms in simp)
  then show ?thesis by (simp add: subCents_def failIf_def sub64_id)
qed

text \<open>What a change does to a holding, without a bound on the count.\<close>

definition sharesSpec :: "int \<Rightarrow> change \<Rightarrow> int" where
  "sharesSpec held c = (if ch_Kind c = ChangeSplit then quo (held * ch_NewShares c) (ch_OldShares c) else held + ch_Shares c)"

lemma sharesAfter_exact:
  assumes "sharesAfter held c = Inr q" "in64 held" "in64 (ch_Shares c)"
  shows "q = sharesSpec held c \<and> in64 q"
proof (cases "ch_Kind c = ChangeSplit")
  case True
  with assms show ?thesis by (auto simp: sharesAfter_def sharesSpec_def Let_def)
next
  case False
  with assms have "addCents held (ch_Shares c) = Inr q" by (auto simp: sharesAfter_def addCents_def)
  with assms False show ?thesis by (auto simp: addCents_exact sharesSpec_def split: if_splits)
qed

lemma quo_bounds:
  assumes "0 < m"
  shows "\<bar>n - quo n m * m\<bar> < m" "0 \<le> n \<Longrightarrow> 0 \<le> n - quo n m * m" "n \<le> 0 \<Longrightarrow> n - quo n m * m \<le> 0"
proof -
  have "0 \<le> k - k div m * m \<and> k - k div m * m < m" for k :: int
    using assms by (simp add: minus_div_mult_eq_mod)
  from this [of n] this [of "- n"] show "\<bar>n - quo n m * m\<bar> < m" "0 \<le> n \<Longrightarrow> 0 \<le> n - quo n m * m" "n \<le> 0 \<Longrightarrow> n - quo n m * m \<le> 0"
    by (auto simp: quo_def)
qed

lemma roundCents_in64: "roundCents d = Inr c \<Longrightarrow> in64 c"
  by (auto simp: roundCents_def Let_def split: prod.splits)

text \<open>Rounding dollars to cents gives the nearest whole cent, fits an int64, and resolves an exact half cent away from zero.\<close>

theorem roundCents_half_away:
  assumes "roundCents d = Inr c"
  shows "in64 c \<and> \<bar>of_int c - d * 100\<bar> \<le> 1/2 \<and> (\<bar>of_int c - d * 100\<bar> = 1/2 \<longrightarrow> \<bar>d * 100\<bar> < \<bar>of_int c\<bar>)"
proof -
  obtain n m where nm: "quotient_of (d * 100) = (n, m)" by fastforce
  have m: "0 < m" using quotient_of_denom_pos [OF nm] .
  have d: "d * 100 = of_int n / of_int m" using quotient_of_div [OF nm] .
  define q r where qr: "q = quo n m" "r = n - q * m"
  have r: "\<bar>r\<bar> < m" "0 \<le> n \<Longrightarrow> 0 \<le> r" "n \<le> 0 \<Longrightarrow> r \<le> 0"
    using quo_bounds [OF m, of n] by (simp_all add: qr)
  have c: "c = (if \<bar>r\<bar> * 2 \<ge> m then q + sgn n else q)" and c64: "in64 c"
    using assms by (auto simp: roundCents_def nm qr Let_def split: if_splits)
  have n: "n = q * m + r" by (simp add: qr)
  have b: "\<bar>c * m - n\<bar> * 2 \<le> m \<and> (\<bar>c * m - n\<bar> * 2 = m \<longrightarrow> \<bar>n\<bar> < \<bar>c * m\<bar>)"
  proof (cases "\<bar>r\<bar> * 2 \<ge> m")
    case True
    show ?thesis
    proof (cases "0 \<le> n")
      case n0: True
      have "n \<noteq> 0" using True m by (auto simp: qr quo_def)
      with n0 True r m c have "c = q + 1" "m \<le> r * 2" "r < m" by (auto simp: sgn_if)
      then have "c * m - n = m - r" by (simp add: n algebra_simps)
      with \<open>m \<le> r * 2\<close> \<open>r < m\<close> n0 show ?thesis by auto
    next
      case False
      with True r m c have "c = q - 1" "m \<le> - r * 2" "- r < m" by auto
      have "c * m - n = - m - r" unfolding n \<open>c = q - 1\<close> by (simp add: left_diff_distrib)
      with \<open>m \<le> - r * 2\<close> \<open>- r < m\<close> False show ?thesis by auto
    qed
  next
    case False
    with c have "c * m - n = - r" by (simp add: n)
    with False show ?thesis by simp
  qed
  have k: "of_int c - d * 100 = (of_int (c * m - n) :: rat) / of_int m" using m by (simp add: d field_simps)
  have pos: "(0::rat) < of_int m" using m by simp
  have "of_int (\<bar>c * m - n\<bar> * 2) \<le> (of_int m :: rat)" using b by (simp only: of_int_le_iff)
  then have "\<bar>of_int c - d * 100\<bar> \<le> 1/2" using pos by (simp add: k pos_divide_le_eq)
  moreover have "\<bar>d * 100\<bar> < \<bar>of_int c\<bar>" if "\<bar>of_int c - d * 100\<bar> = 1/2"
  proof -
    have "\<bar>of_int (c * m - n) :: rat\<bar> / of_int m = 1/2" using that pos by (simp add: k)
    then have "(of_int (\<bar>c * m - n\<bar> * 2) :: rat) = of_int m" using pos by (simp add: divide_eq_eq)
    then have "\<bar>c * m - n\<bar> * 2 = m" by (simp only: of_int_eq_iff)
    with b have "\<bar>n\<bar> < \<bar>c * m\<bar>" by blast
    then have "(of_int \<bar>n\<bar> :: rat) < of_int \<bar>c * m\<bar>" by (simp only: of_int_less_iff)
    then have "\<bar>of_int n :: rat\<bar> < \<bar>of_int c\<bar> * of_int m" using pos by (simp add: abs_mult)
    then show ?thesis using pos by (simp add: d pos_divide_less_eq)
  qed
  ultimately show ?thesis using c64 by blast
qed

section \<open>The bridge\<close>

definition change_ok :: "change \<Rightarrow> bool" where
  "change_ok c \<longleftrightarrow> in64 (ch_Shares c) \<and> in64 (ch_Cash c)"

definition book_ok :: "book \<Rightarrow> bool" where
  "book_ok b \<longleftrightarrow> in64 (bk_Cash b) \<and> list_all (\<lambda>p. in64 (snd p)) (bk_Positions b)"

definition bridge_ok :: "bridge \<Rightarrow> bool" where
  "bridge_ok s \<longleftrightarrow> in64 (br_cash s) \<and> list_all (\<lambda>p. in64 (snd p)) (br_expected s)"

lemma in64_mget: "list_all (\<lambda>p. in64 (snd p)) m \<Longrightarrow> in64 (mget m i 0)"
  by (induction m) (auto simp: mget_def)

lemma in64_mput: "list_all (\<lambda>p. in64 (snd p)) m \<Longrightarrow> in64 q \<Longrightarrow> list_all (\<lambda>p. in64 (snd p)) (mput m i q)"
  by (auto simp: mput_def mdel_def list_all_iff)

lemma br_reasons_simps [simp]:
  "br_reasons (addReason s r) = br_reasons s @ [r]"
  "br_reasons (bookCash s c n) = br_reasons s"
  "br_reasons (bookShares s c q) = br_reasons s"
  by (simp_all add: addReason_def bookCash_def bookShares_def Let_def)

lemma bookShares_simps [simp]:
  "br_expected (bookShares s c q) = mput (br_expected s) (ch_InstrumentID c) q" "br_cash (bookShares s c q) = br_cash s"
  by (simp_all add: bookShares_def Let_def)

lemma bookCash_simps [simp]:
  "br_expected (bookCash s c n) = br_expected s" "br_cash (bookCash s c n) = n"
  by (simp_all add: bookCash_def)

lemma applyHolding_reasons: "\<exists>rs. br_reasons (applyHolding b cr s c) = br_reasons s @ rs"
  by (auto simp: applyHolding_def Let_def split: sum.splits)

lemma applyChange_reasons: "\<exists>rs. br_reasons (applyChange b cr s c) = br_reasons s @ rs"
  using applyHolding_reasons [of b cr s c] by (auto simp: applyChange_def split: sum.splits)

lemma bridgeOver_reasons: "\<exists>rs. br_reasons (bridgeOver b cr h u s cs) = br_reasons s @ rs"
proof (induction cs arbitrary: s)
  case (Cons c cs)
  obtain rs where "br_reasons (if inWindow b cr h u c then applyChange b cr s c else s) = br_reasons s @ rs"
    using applyChange_reasons [of b cr s c] by (cases "inWindow b cr h u c") auto
  with Cons [of "if inWindow b cr h u c then applyChange b cr s c else s"] show ?case
    by (auto simp: bridgeOver_def)
qed (simp add: bridgeOver_def)

lemma cashAfter_exact:
  assumes "cashAfter s c = Inr (n, ps)" "in64 (br_cash s)" "in64 (ch_Cash c)"
  shows "n = br_cash s + ch_Cash c \<and> in64 n"
  using assms by (auto simp: cashAfter_def go_bind addCents_exact split: if_splits)

text \<open>One change that gave no reason did to its holding and to the cash what it says.\<close>

definition step_spec :: "bool \<Rightarrow> bridge \<Rightarrow> change \<Rightarrow> bridge \<Rightarrow> bool" where
  "step_spec cr s c s' \<longleftrightarrow> bridge_ok s' \<and> (cr \<longrightarrow> br_cash s' = br_cash s + ch_Cash c) \<and>
     (\<forall>i. mget (br_expected s') i 0 = (if ch_Kind c \<noteq> ChangeCashMovement \<and> ch_InstrumentID c = i
        then sharesSpec (mget (br_expected s) i 0) c else mget (br_expected s) i 0))"

lemma applyHolding_exact:
  assumes "br_reasons (applyHolding b cr s c) = []" "bridge_ok s" "change_ok c" "ch_Kind c \<noteq> ChangeCashMovement"
  shows "step_spec cr s c (applyHolding b cr s c)"
proof -
  define c' where c': "c' = (if ch_Kind c = ChangeSplit then c\<lparr>ch_QuantityScale := bk_QuantityScale b\<rparr> else c)"
  have [simp]: "ch_InstrumentID c' = ch_InstrumentID c" "ch_Kind c' = ch_Kind c" "ch_Cash c' = ch_Cash c" "ch_Shares c' = ch_Shares c"
    "sharesSpec h c' = sharesSpec h c" for h by (simp_all add: c' sharesSpec_def)
  have h: "in64 (mget (br_expected s) (ch_InstrumentID c) 0)" using assms by (simp add: bridge_ok_def in64_mget)
  have k: "in64 (ch_Cash c)" "in64 (ch_Shares c)" "in64 (br_cash s)" using assms by (simp_all add: change_ok_def bridge_ok_def)
  obtain q where q: "sharesAfter (mget (br_expected s) (ch_InstrumentID c) 0) c' = Inr q"
    using assms(1) by (auto simp: applyHolding_def Let_def c' [symmetric] split: sum.splits)
  have qs: "q = sharesSpec (mget (br_expected s) (ch_InstrumentID c) 0) c" "in64 q"
    using sharesAfter_exact [OF q h] k by auto
  have e: "list_all (\<lambda>p. in64 (snd p)) (mput (br_expected s) (ch_InstrumentID c) q)"
    using assms qs by (auto intro!: in64_mput simp: bridge_ok_def)
  show ?thesis
  proof (cases cr)
    case False
    then show ?thesis using qs e k assms(4)
      by (simp add: step_spec_def applyHolding_def Let_def c' [symmetric] q bridge_ok_def)
  next
    case True
    obtain n ps where n: "cashAfter s c' = Inr (n, ps)"
      using assms(1) True q by (auto simp: applyHolding_def Let_def c' [symmetric] split: sum.splits)
    have "n = br_cash s + ch_Cash c" "in64 n" using cashAfter_exact [OF n] k by auto
    then show ?thesis using True qs e k assms(4)
      by (simp add: step_spec_def applyHolding_def Let_def c' [symmetric] q n bridge_ok_def)
  qed
qed

lemma applyChange_exact:
  assumes "br_reasons (applyChange b cr s c) = []" "bridge_ok s" "change_ok c" "ch_Kind c = ChangeCashMovement \<Longrightarrow> cr"
  shows "step_spec cr s c (applyChange b cr s c)"
proof (cases "ch_Kind c = ChangeCashMovement")
  case True
  obtain n ps where n: "cashAfter s c = Inr (n, ps)" and
    ap: "applyChange b cr s c = bookCash (s\<lparr>br_parts := ps\<rparr>) c n"
    using assms(1) True by (auto simp: applyChange_def split: sum.splits if_splits)
  have "n = br_cash s + ch_Cash c \<and> in64 n"
    using cashAfter_exact [OF n] assms(2,3) by (auto simp: bridge_ok_def change_ok_def)
  with assms(2) True show ?thesis unfolding ap by (auto simp: step_spec_def bridge_ok_def)
next
  case False
  then have "applyChange b cr s c = applyHolding b cr s c"
    using assms(1) by (auto simp: applyChange_def split: if_splits)
  with applyHolding_exact assms False show ?thesis by metis
qed

definition expectedShares :: "book \<Rightarrow> change list \<Rightarrow> string \<Rightarrow> int" where
  "expectedShares b cs i = foldl sharesSpec (mget (bk_Positions b) i 0) (filter (\<lambda>c. ch_Kind c \<noteq> ChangeCashMovement \<and> ch_InstrumentID c = i) cs)"

lemma inWindow_cash: "inWindow b cr h u c \<Longrightarrow> ch_Kind c = ChangeCashMovement \<Longrightarrow> cr"
  by (simp add: inWindow_def Let_def)

lemma bridgeOver_exact:
  assumes "br_reasons (bridgeOver b cr h u s cs) = []" "bridge_ok s" "list_all change_ok cs"
  shows "bridge_ok (bridgeOver b cr h u s cs) \<and>
    (cr \<longrightarrow> br_cash (bridgeOver b cr h u s cs) = br_cash s + sum_list (map ch_Cash (filter (inWindow b cr h u) cs))) \<and>
    (\<forall>i. mget (br_expected (bridgeOver b cr h u s cs)) i 0 = foldl sharesSpec (mget (br_expected s) i 0)
       (filter (\<lambda>c. ch_Kind c \<noteq> ChangeCashMovement \<and> ch_InstrumentID c = i) (filter (inWindow b cr h u) cs)))"
  using assms
proof (induction cs arbitrary: s)
  case (Cons c cs)
  let ?s = "if inWindow b cr h u c then applyChange b cr s c else s"
  have o: "bridgeOver b cr h u s (c # cs) = bridgeOver b cr h u ?s cs" by (simp add: bridgeOver_def)
  have r: "br_reasons ?s = []" using bridgeOver_reasons [of b cr h u ?s cs] Cons.prems(1) o by auto
  show ?case
  proof (cases "inWindow b cr h u c")
    case True
    then have st: "step_spec cr s c (applyChange b cr s c)"
      using applyChange_exact [of b cr s c] r Cons.prems inWindow_cash [OF True] by auto
    have "bridge_ok (applyChange b cr s c)" using st by (simp add: step_spec_def)
    with Cons.IH [of ?s] Cons.prems o True st show ?thesis unfolding step_spec_def by auto
  next
    case False
    with Cons.IH [of s] Cons.prems o show ?thesis by auto
  qed
qed (simp add: bridgeOver_def)

section \<open>The components compared\<close>

definition completed :: "recon_component \<Rightarrow> recon_component" where
  "completed c = c\<lparr>rc_Residual := rc_Observed c - rc_Expected c, rc_Explained := (rc_Observed c = rc_Expected c)\<rparr>"

definition figures64 :: "recon_component \<Rightarrow> bool" where
  "figures64 c \<longleftrightarrow> in64 (rc_Observed c) \<and> in64 (rc_Expected c)"

lemma appendEntry_exact:
  assumes "figures64 c"
  shows "appendEntry acc c = (if in64 (rc_Observed c - rc_Expected c) then (fst acc @ [completed c], snd acc)
    else (fst acc, snd acc @ [RResidual (rc_Component c) (CentsDifference (rc_Observed c) (rc_Expected c))]))"
  using assms by (auto simp: appendEntry_def subCents_exact figures64_def completed_def)

lemma foldl_appendEntry:
  assumes "list_all figures64 cs"
  shows "\<exists>rs. foldl appendEntry acc cs = (fst acc @ map completed (filter (\<lambda>c. in64 (rc_Observed c - rc_Expected c)) cs), snd acc @ rs) \<and>
    (rs = [] \<longleftrightarrow> list_all (\<lambda>c. in64 (rc_Observed c - rc_Expected c)) cs)"
  using assms
proof (induction cs arbitrary: acc)
  case (Cons c cs)
  then have c: "figures64 c" and cs: "list_all figures64 cs" by simp_all
  from Cons.IH [OF cs, of "appendEntry acc c"] show ?case by (auto simp: appendEntry_exact [OF c])
qed simp

text \<open>The components before their residuals: the cash when it is compared, then each instrument in order.\<close>

definition raw_components :: "book \<Rightarrow> bridge \<Rightarrow> int option \<Rightarrow> bool \<Rightarrow> reconciliation_payload \<Rightarrow> recon_component list" where
  "raw_components b s oc pr obs = (case oc of None \<Rightarrow> [] | Some c \<Rightarrow> [cashComponent b s c])
     @ (if pr then map (positionComponent b s (observedMap (rows (rp_Positions obs))))
          (remdups_adj (sort (map fst (br_expected s) @ map fst (observedMap (rows (rp_Positions obs)))))) else [])"

lemma components_raw: "components b s oc pr obs = foldl appendEntry ([], br_reasons s) (raw_components b s oc pr obs)"
  by (simp add: components_def raw_components_def Let_def split: option.splits)

lemma raw_figures64:
  assumes "bridge_ok s" "pred_option in64 oc" "list_all (\<lambda>p. in64 (snd p)) (observedMap (rows (rp_Positions obs)))"
  shows "list_all figures64 (raw_components b s oc pr obs)"
  using assms in64_mget [of "br_expected s"] in64_mget [of "observedMap (rows (rp_Positions obs))"]
  by (auto simp: raw_components_def list_all_iff figures64_def cashComponent_def positionComponent_def bridge_ok_def split: option.splits)

lemma components_exact:
  assumes "snd (components b s oc pr obs) = []" "list_all figures64 (raw_components b s oc pr obs)"
  shows "components b s oc pr obs = (map completed (raw_components b s oc pr obs), [])" "br_reasons s = []"
proof -
  let ?raw = "raw_components b s oc pr obs"
  obtain rs where rs: "components b s oc pr obs = (map completed (filter (\<lambda>c. in64 (rc_Observed c - rc_Expected c)) ?raw), br_reasons s @ rs)"
    "rs = [] \<longleftrightarrow> list_all (\<lambda>c. in64 (rc_Observed c - rc_Expected c)) ?raw"
    using foldl_appendEntry [OF assms(2), of "([], br_reasons s)"] by (auto simp: components_raw)
  then have "rs = []" "br_reasons s = []" using assms(1) by simp_all
  moreover have "filter (\<lambda>c. in64 (rc_Observed c - rc_Expected c)) ?raw = ?raw"
    using rs(2) \<open>rs = []\<close> by (simp add: list_all_iff)
  ultimately show "components b s oc pr obs = (map completed ?raw, [])" "br_reasons s = []" using rs(1) by simp_all
qed

section \<open>Exactly what differs\<close>

definition brokerQuantity :: "account_position list \<Rightarrow> string \<Rightarrow> int" where
  "brokerQuantity ps i = (case find (\<lambda>q. ap_InstrumentID q = i) ps of None \<Rightarrow> 0 | Some q \<Rightarrow> ap_Quantity q)"

lemma foldl_mput_lookup:
  "distinct (map ap_InstrumentID ps) \<Longrightarrow> mget (foldl (\<lambda>m q. mput m (ap_InstrumentID q) (ap_Quantity q)) m ps) i 0 =
    (case find (\<lambda>q. ap_InstrumentID q = i) ps of None \<Rightarrow> mget m i 0 | Some q \<Rightarrow> ap_Quantity q)"
proof (induction ps arbitrary: m)
  case (Cons q ps)
  have "ap_InstrumentID q = i \<Longrightarrow> find (\<lambda>q. ap_InstrumentID q = i) ps = None"
    using Cons.prems by (auto simp: find_None_iff rev_image_eqI)
  with Cons show ?case by (auto split: option.splits)
qed simp

lemma observedMap_lookup: "distinct (map ap_InstrumentID ps) \<Longrightarrow> mget (observedMap ps) i 0 = brokerQuantity ps i"
  by (simp add: observedMap_def foldl_mput_lookup brokerQuantity_def split: option.splits)

lemma observedMap_in64:
  assumes "list_all (\<lambda>q. in64 (ap_Quantity q)) ps"
  shows "list_all (\<lambda>p. in64 (snd p)) (observedMap ps)"
proof -
  have "list_all (\<lambda>p. in64 (snd p)) m \<Longrightarrow> list_all (\<lambda>q. in64 (ap_Quantity q)) ps \<Longrightarrow>
    list_all (\<lambda>p. in64 (snd p)) (foldl (\<lambda>m q. mput m (ap_InstrumentID q) (ap_Quantity q)) m ps)" for m
    by (induction ps arbitrary: m) (auto intro: in64_mput)
  with assms show ?thesis by (simp add: observedMap_def)
qed

lemma accountPositionErrs_ascending:
  assumes "accountPositionErrs scale prev ps = []"
  shows "strict_asc (map ap_InstrumentID ps) \<and> (\<forall>y. prev = Some y \<longrightarrow> (\<forall>q\<in>set ps. y < ap_InstrumentID q)) \<and>
    (\<forall>q\<in>set ps. ap_InstrumentID q \<noteq> '''')"
  using assms
proof (induction scale prev ps rule: accountPositionErrs.induct)
  case (2 scale prev p ps)
  then have "accountPositionErrs scale (Some (ap_InstrumentID p)) ps = []" "ap_InstrumentID p \<noteq> ''''"
    "\<forall>y. prev = Some y \<longrightarrow> y < ap_InstrumentID p" by (auto split: if_splits)
  with 2(1) show ?case by (force simp: strict_asc_def)
qed simp

definition bridgeWindow :: "book \<Rightarrow> change list \<Rightarrow> reconciliation_payload \<Rightarrow> change list" where
  "bridgeWindow b changes obs = (let cashRead = (fst (observedCashOf b obs) \<noteq> None) in
     filter (inWindow b cashRead (heldFor b cashRead changes) (rp_AsOf obs)) changes)"

lemma observedCash_in64: "fst (observedCashOf b obs) = Some c \<Longrightarrow> in64 c \<and> bk_CashSet b \<and> Cents (rp_TotalCash obs) = Inr c"
  by (auto simp: observedCashOf_def Cents_def roundCents_def Let_def split: if_splits sum.splits prod.splits)

lemma bridgeFor_exact:
  assumes "br_reasons (bridgeFor b changes obs) = []" "book_ok b" "list_all change_ok changes"
  shows "bridge_ok (bridgeFor b changes obs)"
    "fst (observedCashOf b obs) \<noteq> None \<Longrightarrow> br_cash (bridgeFor b changes obs) = bk_Cash b + sum_list (map ch_Cash (bridgeWindow b changes obs))"
    "mget (br_expected (bridgeFor b changes obs)) i 0 = expectedShares b (bridgeWindow b changes obs) i"
    "reasonsBefore b obs = []"
proof -
  let ?cr = "fst (observedCashOf b obs) \<noteq> None" and ?h = "heldFor b (fst (observedCashOf b obs) \<noteq> None) changes"
  let ?s = "startBridge b (reasonsBefore b obs @ (case ?h of Inl e \<Rightarrow> [e] | Inr _ \<Rightarrow> []))"
  have e: "bridgeFor b changes obs = bridgeOver b ?cr ?h (rp_AsOf obs) ?s changes" by (simp only: bridgeFor_def Let_def)
  have ok: "bridge_ok ?s" using assms by (simp add: bridge_ok_def startBridge_def book_ok_def)
  note x = bridgeOver_exact [OF assms(1) [unfolded e] ok assms(3)]
  show "bridge_ok (bridgeFor b changes obs)" using x unfolding e by blast
  show "?cr \<Longrightarrow> br_cash (bridgeFor b changes obs) = bk_Cash b + sum_list (map ch_Cash (bridgeWindow b changes obs))"
    using x unfolding e bridgeWindow_def Let_def by (simp add: startBridge_def)
  show "mget (br_expected (bridgeFor b changes obs)) i 0 = expectedShares b (bridgeWindow b changes obs) i"
    using x unfolding e bridgeWindow_def Let_def expectedShares_def by (simp add: startBridge_def)
  show "reasonsBefore b obs = []"
    using bridgeOver_reasons [of b ?cr ?h "rp_AsOf obs" ?s changes] assms(1) unfolding e by (auto simp: startBridge_def)
qed

lemma foldl_appendEntry_reasons: "\<exists>rs. snd (foldl appendEntry acc cs) = snd acc @ rs"
proof (induction cs arbitrary: acc)
  case (Cons c cs)
  from Cons [of "appendEntry acc c"] show ?case by (auto simp: appendEntry_def split: sum.splits)
qed simp

lemma components_reasons: "\<exists>rs. snd (components b s oc pr obs) = br_reasons s @ rs"
  using foldl_appendEntry_reasons [of "([], br_reasons s)" "raw_components b s oc pr obs"] by (simp add: components_raw)

lemma unexplained_empty: "unexplainedIDs cs = [] \<and> unexplainedCash cs = [] \<longleftrightarrow> filter (\<lambda>c. \<not> rc_Explained c) cs = []"
  by (auto simp: unexplainedIDs_def unexplainedCash_def filter_empty_conv)

lemma finish_Components [simp]:
  "rr_Components (finish r reasons parts st od n) = rr_Components r" "rr_AccountID (finish r reasons parts st od n) = rr_AccountID r"
  "rr_ReconciliationID (finish r reasons parts st od n) = rr_ReconciliationID r" "rr_InputID (finish r reasons parts st od n) = rr_InputID r"
  "rr_CashCompared (finish r reasons parts st od n) = rr_CashCompared r" "rr_Currency (finish r reasons parts st od n) = rr_Currency r"
  "rr_QuantityScale (finish r reasons parts st od n) = rr_QuantityScale r" "rr_RepeatOf (finish r reasons parts st od n) = rr_RepeatOf r"
  "rr_AnchorID (finish r reasons parts st od n) = rr_AnchorID r"
  by (simp_all add: finish_def Let_def)

lemma finish_halts: "rr_Action (finish r reasons parts st od n) = ReconciliationActionHalt \<longleftrightarrow> reasons \<noteq> []"
  by (simp add: finish_def Let_def)

lemma finish_scopes:
  "reasons = [] \<Longrightarrow> rr_ScopeInstrumentIDs (finish r reasons parts st od n) = unexplainedIDs (rr_Components r)"
  "reasons = [] \<Longrightarrow> rr_ScopeCashComponents (finish r reasons parts st od n) = unexplainedCash (rr_Components r)"
  "reasons \<noteq> [] \<Longrightarrow> rr_ScopeInstrumentIDs (finish r reasons parts st od n) = []"
  "reasons \<noteq> [] \<Longrightarrow> rr_ScopeCashComponents (finish r reasons parts st od n) = []"
  by (simp_all add: finish_def Let_def)

lemma finish_continues:
  "reasons = [] \<Longrightarrow> rr_Action (finish r reasons parts st od n) = ReconciliationActionContinue \<longleftrightarrow>
     unexplainedIDs (rr_Components r) = [] \<and> unexplainedCash (rr_Components r) = []"
  by (simp add: finish_def Let_def unexplained_empty)

lemma reasonsBefore_readable: "reasonsBefore b obs = [] \<Longrightarrow> ReconReadable obs ReconciliationComponentPositions"
  by (auto simp: reasonsBefore_def)

lemma reasonsBefore_cash: "reasonsBefore b obs = [] \<Longrightarrow> bk_CashSet b \<Longrightarrow> \<exists>c. fst (observedCashOf b obs) = Some c"
  by (auto simp: reasonsBefore_def observedCashOf_def split: if_splits sum.splits)

lemma classify_compares:
  assumes "rr_Action (fst (classify (Some b) changes inputID obs note)) \<noteq> ReconciliationActionHalt"
    "book_ok b" "list_all change_ok changes" "list_all (\<lambda>q. in64 (ap_Quantity q)) (rows (rp_Positions obs))"
  defines "r \<equiv> fst (classify (Some b) changes inputID obs note)"
  defines "raw \<equiv> raw_components b (bridgeFor b changes obs) (fst (observedCashOf b obs)) True obs"
  shows "rr_ScopeInstrumentIDs r = unexplainedIDs (map completed raw) \<and> rr_ScopeCashComponents r = unexplainedCash (map completed raw) \<and>
    (rr_Action r = ReconciliationActionContinue \<longleftrightarrow> unexplainedIDs (map completed raw) = [] \<and> unexplainedCash (map completed raw) = []) \<and>
    br_reasons (bridgeFor b changes obs) = [] \<and> rr_Components r = map completed raw"
proof -
  let ?s = "bridgeFor b changes obs" and ?oc = "fst (observedCashOf b obs)" and ?pr = "ReconReadable obs ReconciliationComponentPositions"
  obtain cs reasons where c: "components b ?s ?oc ?pr obs = (cs, reasons)" by fastforce
  obtain r0 parts st od where r: "r = finish r0 reasons parts st od note" "rr_Components r0 = cs" and scale: "bk_QuantityScale b = rp_QuantityScale obs"
    using assms(1) c unfolding r_def classify_def by (auto simp: Let_def finish_halts split: if_splits)
  have no: "reasons = []" using assms(1) r by (simp add: r_def [symmetric] finish_halts)
  have s: "br_reasons ?s = []" using components_reasons [of b ?s ?oc ?pr obs] c no by auto
  note x = bridgeFor_exact [OF s assms(2,3)]
  have pr: ?pr using reasonsBefore_readable [OF x(4)] .
  have "list_all figures64 raw" unfolding raw_def
    using x(1) observedMap_in64 [OF assms(4)] observedCash_in64 [of b obs] by (intro raw_figures64) (auto simp: pred_option_def)
  then have "cs = map completed raw" using components_exact [of b ?s ?oc True obs] c no pr by (simp add: raw_def)
  with r no s show ?thesis by (simp add: finish_scopes finish_continues)
qed

lemma unexplainedIDs_raw:
  "set (unexplainedIDs (map completed (raw_components b s oc True obs))) =
     {i. mget (observedMap (rows (rp_Positions obs))) i 0 \<noteq> mget (br_expected s) i 0}" (is "?L = ?R")
proof -
  let ?o = "observedMap (rows (rp_Positions obs))"
  have "?L = {i \<in> fst ` set (br_expected s) \<union> fst ` set ?o. mget ?o i 0 \<noteq> mget (br_expected s) i 0}"
    by (auto simp: unexplainedIDs_def raw_components_def completed_def positionComponent_def cashComponent_def filter_map comp_def image_image
        split: option.splits)
  moreover have "i \<in> fst ` set (br_expected s) \<union> fst ` set ?o" if "mget ?o i 0 \<noteq> mget (br_expected s) i 0" for i
    using mget_notin [of i ?o 0] mget_notin [of i "br_expected s" 0] that by fastforce
  ultimately show ?thesis by blast
qed

lemma unexplainedCash_raw:
  "unexplainedCash (map completed (raw_components b s oc pr obs)) =
     (case oc of Some c \<Rightarrow> if c = br_cash s then [] else [ReconciliationComponentCash] | None \<Rightarrow> [])"
  by (auto simp: unexplainedCash_def raw_components_def completed_def positionComponent_def cashComponent_def filter_map comp_def split: option.splits)

text \<open>C19: When a reconciliation is not unverifiable, the instruments it degrades are exactly those whose broker holding differs from the book's holding carried through every change of the window (fills added, splits scaled, in exact unbounded arithmetic), cash is in its scope exactly when the broker's cents differ from the book's plus the cents of every change of the window, and it continues exactly when nothing differs: no residual is small enough to ignore and no broker figure is adopted.\<close>

theorem Classify_scope_exact:
  assumes "book_ok b" "list_all change_ok changes" "Reconciliation_Validate obs = []"
    "list_all (\<lambda>q. in64 (ap_Quantity q)) (rows (rp_Positions obs))"
    "rr_Action (Classify (Some b) changes inputID obs) \<noteq> ReconciliationActionHalt"
  shows "set (rr_ScopeInstrumentIDs (Classify (Some b) changes inputID obs)) =
      {i. brokerQuantity (rows (rp_Positions obs)) i \<noteq> expectedShares b (bridgeWindow b changes obs) i} \<and>
    (bk_CashSet b \<longrightarrow> rr_ScopeCashComponents (Classify (Some b) changes inputID obs) =
      (if Cents (rp_TotalCash obs) = Inr (bk_Cash b + sum_list (map ch_Cash (bridgeWindow b changes obs))) then [] else [ReconciliationComponentCash])) \<and>
    (rr_Action (Classify (Some b) changes inputID obs) = ReconciliationActionContinue \<longleftrightarrow>
      rr_ScopeInstrumentIDs (Classify (Some b) changes inputID obs) = [] \<and> rr_ScopeCashComponents (Classify (Some b) changes inputID obs) = [])"
proof -
  have e: "Classify (Some b) changes inputID obs = fst (classify (Some b) changes inputID obs BookStatesNoCash)"
    by (simp add: Classify_def Reconcile_def split: prod.splits)
  note k = classify_compares [OF assms(5) [unfolded e] assms(1,2,4)]
  then have s: "br_reasons (bridgeFor b changes obs) = []" by blast
  note x = bridgeFor_exact [OF s assms(1,2)]
  have "accountPositionErrs (rp_QuantityScale obs) None (rows (rp_Positions obs)) = []"
    using assms(3) by (simp add: Reconciliation_Validate_def split: if_splits)
  then have d: "distinct (map ap_InstrumentID (rows (rp_Positions obs)))"
    using accountPositionErrs_ascending by (auto simp: strict_asc_def)
  have cash: "\<exists>c. fst (observedCashOf b obs) = Some c \<and> Cents (rp_TotalCash obs) = Inr c" if "bk_CashSet b"
    using reasonsBefore_cash [OF x(4) that] observedCash_in64 by blast
  show ?thesis unfolding e using k cash x(2,3) by (auto simp: unexplainedIDs_raw unexplainedCash_raw observedMap_lookup [OF d])
qed

section \<open>Every result is a valid payload\<close>

definition book_named :: "book \<Rightarrow> bool" where
  "book_named b \<longleftrightarrow> '''' \<notin> fst ` set (bk_Positions b) \<and> (bk_CashSet b \<longrightarrow> bk_Currency b \<noteq> '''')"

definition change_named :: "change \<Rightarrow> bool" where
  "change_named c \<longleftrightarrow> ch_ID c \<noteq> '''' \<and> (ch_Kind c \<noteq> ChangeCashMovement \<longrightarrow> ch_InstrumentID c \<noteq> '''')"

definition bridge_named :: "bridge \<Rightarrow> bool" where
  "bridge_named s \<longleftrightarrow> '''' \<notin> fst ` set (br_expected s) \<and> '''' \<notin> set (br_cashExplained s) \<and>
     (\<forall>i. '''' \<notin> set (mget (br_explained s) i []))"

definition bridge_sound :: "bridge \<Rightarrow> bool" where
  "bridge_sound s \<longleftrightarrow> bridge_ok s \<and> bridge_named s"

lemma keys_mput [simp]: "fst ` set (mput m k v) = insert k (fst ` set m)"
  by (force simp: mput_def mdel_def)

lemma addReason_sound: "bridge_sound (addReason s r) = bridge_sound s"
  by (simp add: bridge_sound_def bridge_ok_def bridge_named_def addReason_def)

lemma bookShares_sound:
  "bridge_sound s \<Longrightarrow> in64 q \<Longrightarrow> ch_ID c \<noteq> '''' \<Longrightarrow> ch_InstrumentID c \<noteq> '''' \<Longrightarrow> bridge_sound (bookShares s c q)"
  by (auto simp: bridge_sound_def bridge_ok_def bridge_named_def bookShares_def Let_def in64_mput)

lemma bookCash_sound: "bridge_sound s \<Longrightarrow> in64 n \<Longrightarrow> ch_ID c \<noteq> '''' \<Longrightarrow> bridge_sound (bookCash s c n)"
  by (auto simp: bridge_sound_def bridge_ok_def bridge_named_def bookCash_def)

lemma parts_sound: "bridge_sound (s\<lparr>br_parts := ps\<rparr>) = bridge_sound s"
  by (simp add: bridge_sound_def bridge_ok_def bridge_named_def)

lemma applyHolding_sound:
  assumes "bridge_sound s" "change_ok c" "change_named c" "ch_Kind c \<noteq> ChangeCashMovement"
  shows "bridge_sound (applyHolding b cr s c)"
proof -
  define c' where c': "c' = (if ch_Kind c = ChangeSplit then c\<lparr>ch_QuantityScale := bk_QuantityScale b\<rparr> else c)"
  have k: "in64 (ch_Cash c')" "in64 (ch_Shares c')" "ch_ID c' \<noteq> ''''" "ch_InstrumentID c' \<noteq> ''''" "in64 (br_cash s)"
    "in64 (mget (br_expected s) (ch_InstrumentID c') 0)"
    using assms by (simp_all add: c' change_ok_def change_named_def bridge_sound_def bridge_ok_def in64_mget)
  have q: "in64 q" if "sharesAfter (mget (br_expected s) (ch_InstrumentID c') 0) c' = Inr q" for q
    using sharesAfter_exact [OF that k(6,2)] by blast
  have n: "in64 n" if "cashAfter s c' = Inr (n, ps)" for n ps using cashAfter_exact [OF that k(5,1)] by blast
  show ?thesis unfolding applyHolding_def Let_def c' [symmetric]
    using assms(1) k q n by (auto simp: addReason_sound parts_sound intro!: bookShares_sound bookCash_sound split: sum.splits)
qed

lemma applyChange_sound:
  assumes "bridge_sound s" "change_ok c" "change_named c"
  shows "bridge_sound (applyChange b cr s c)"
proof -
  have n: "in64 n" if "cashAfter s c = Inr (n, ps)" for n ps
    using cashAfter_exact [OF that] assms(1,2) by (auto simp: bridge_sound_def bridge_ok_def change_ok_def)
  show ?thesis unfolding applyChange_def
    using assms n applyHolding_sound [OF assms]
    by (auto simp: addReason_sound parts_sound change_named_def intro!: bookCash_sound split: sum.splits)
qed

lemma bridgeOver_sound:
  "bridge_sound s \<Longrightarrow> list_all change_ok cs \<Longrightarrow> list_all change_named cs \<Longrightarrow> bridge_sound (bridgeOver b cr h u s cs)"
  unfolding bridgeOver_def by (induction cs arbitrary: s) (simp_all add: applyChange_sound)

lemma bridgeFor_sound:
  assumes "book_ok b" "book_named b" "list_all change_ok changes" "list_all change_named changes"
  shows "bridge_sound (bridgeFor b changes obs)"
proof -
  have "bridge_sound (startBridge b rs)" for rs
    using assms by (auto simp: bridge_sound_def bridge_ok_def bridge_named_def startBridge_def book_ok_def book_named_def)
  then show ?thesis unfolding bridgeFor_def Let_def using assms by (intro bridgeOver_sound)
qed

lemma ascendingFrom_strict:
  "strict_asc ids \<Longrightarrow> '''' \<notin> set ids \<Longrightarrow> (\<forall>y. prev = Some y \<longrightarrow> (\<forall>x\<in>set ids. y < x)) \<Longrightarrow> ascendingFrom prev ids = []"
proof (induction prev ids rule: ascendingFrom.induct)
  case (2 prev x xs)
  then have "\<forall>y\<in>set xs. x < y" by (auto simp: strict_asc_def order_less_le)
  with 2 show ?case by (auto simp: strict_asc_def split: option.splits)
qed simp

lemma ascendingIDs_strict: "strict_asc ids \<Longrightarrow> '''' \<notin> set ids \<Longrightarrow> ascendingIDs ids = []"
  by (simp add: ascendingIDs_def ascendingFrom_strict)

text \<open>What the components of a result satisfy whatever the classification.\<close>

definition good_component :: "bool \<Rightarrow> recon_component \<Rightarrow> bool" where
  "good_component compared c \<longleftrightarrow> in64 (rc_Observed c - rc_Expected c) \<and> '''' \<notin> set (rc_Explanations c) \<and>
     (rc_Component c = ReconciliationComponentPosition \<and> rc_InstrumentID c \<noteq> '''' \<or>
      rc_Component c = ReconciliationComponentCash \<and> compared \<and> rc_InstrumentID c = '''')"

lemma componentErrs_good: "good_component (rr_CashCompared p) c \<Longrightarrow> componentErrs p (completed c) = []"
  by (auto simp: good_component_def componentErrs_def completed_def sub64_id)

lemma raw_good:
  assumes "bridge_sound s" "'''' \<notin> fst ` set (observedMap (rows (rp_Positions obs)))" "oc \<noteq> None \<Longrightarrow> compared"
  shows "list_all (good_component compared) (filter (\<lambda>c. in64 (rc_Observed c - rc_Expected c)) (raw_components b s oc pr obs))"
proof -
  have "([], v) \<notin> set (br_expected s)" "([], v) \<notin> set (observedMap (rows (rp_Positions obs)))" for v
    using assms(1,2) by (force simp: bridge_sound_def bridge_named_def)+
  then show ?thesis using assms by (auto simp: list_all_iff good_component_def raw_components_def cashComponent_def positionComponent_def
      bridge_sound_def bridge_named_def split: option.splits if_splits)
qed

lemma strict_asc_filter: "strict_asc xs \<Longrightarrow> strict_asc (filter P xs)"
  by (simp add: strict_asc_def sorted_wrt_filter)

lemma unexplainedIDs_ascending:
  "strict_asc (unexplainedIDs (map completed (filter P (raw_components b s oc pr obs))))"
proof -
  let ?ids = "remdups_adj (sort (map fst (br_expected s) @ map fst (observedMap (rows (rp_Positions obs)))))"
  let ?pc = "positionComponent b s (observedMap (rows (rp_Positions obs)))"
  have m: "map (\<lambda>i. rc_InstrumentID (completed (?pc i))) xs = xs" for xs
    by (induction xs) (simp_all add: completed_def positionComponent_def)
  have "\<exists>Q. unexplainedIDs (map completed (filter P (raw_components b s oc True obs))) = filter Q ?ids"
    by (rule exI [of _ "\<lambda>i. P (?pc i) \<and> \<not> rc_Explained (completed (?pc i))"])
      (simp add: unexplainedIDs_def raw_components_def filter_map comp_def m completed_def cashComponent_def positionComponent_def conj_commute split: option.splits)
  then have "strict_asc (unexplainedIDs (map completed (filter P (raw_components b s oc True obs))))"
    using strict_asc_filter [OF strict_asc_remdups_adj [OF sorted_sort]] by metis
  moreover have "unexplainedIDs (map completed (filter P (raw_components b s oc False obs))) = []"
    by (auto simp: unexplainedIDs_def raw_components_def completed_def cashComponent_def split: option.splits)
  ultimately show ?thesis by (cases pr) simp_all
qed

lemma sum_list_lengths_0: "concat (map f cs) = [] \<Longrightarrow> sum_list (map (\<lambda>c. length (f c)) cs) = 0"
  by (induction cs) simp_all

lemma finish_classification: "classificationErrs (finish r reasons parts st od n) = []"
proof (cases "reasons = []")
  case False
  then show ?thesis by (simp add: classificationErrs_def finish_def Let_def)
next
  case True
  show ?thesis
  proof (cases "filter (\<lambda>c. \<not> rc_Explained c) (rr_Components r) = []")
    case False
    then have "unexplainedIDs (rr_Components r) \<noteq> [] \<or> unexplainedCash (rr_Components r) \<noteq> []"
      using unexplained_empty by blast
    then have "0 < length (unexplainedIDs (rr_Components r)) + length (unexplainedCash (rr_Components r))" by auto
    with True False show ?thesis by (simp add: classificationErrs_def finish_def Let_def)
  next
    case explained: True
    then have u: "unexplainedIDs (rr_Components r) = []" "unexplainedCash (rr_Components r) = []"
      using unexplained_empty by blast+
    show ?thesis
    proof (cases "concat (map rc_Explanations (rr_Components r)) = []")
      case True
      have "sum_list (map (\<lambda>c. length (rc_Explanations c)) (rr_Components r)) = 0" by (rule sum_list_lengths_0 [OF True])
      with explained u True \<open>reasons = []\<close> show ?thesis
        by (simp add: classificationErrs_def finish_def Let_def del: concat_eq_Nil_conv)
    next
      case False
      with explained u \<open>reasons = []\<close> show ?thesis
        by (simp add: classificationErrs_def finish_def Let_def del: concat_eq_Nil_conv)
    qed
  qed
qed

lemma finish_valid:
  assumes "rr_Components r = map completed cs" "list_all (good_component (rr_CashCompared r)) cs" "strict_asc (unexplainedIDs (map completed cs))"
    "scaleErrs (rr_QuantityScale r) = []" "rr_AccountID r \<noteq> ''''" "rr_ReconciliationID r \<noteq> ''''" "rr_InputID r \<noteq> ''''"
    "rr_CashCompared r \<longleftrightarrow> rr_Currency r \<noteq> ''''" "rr_RepeatOf r = ''''" "rr_Unverifiable r = []"
  shows "ReconResult_Validate (finish r reasons parts st od n) = []"
proof -
  let ?f = "finish r reasons parts st od n"
  have ne: "'''' \<notin> set (unexplainedIDs (map completed cs))"
    using assms(2) by (auto simp: unexplainedIDs_def completed_def good_component_def list_all_iff)
  have "ascendingIDs (rr_ScopeInstrumentIDs ?f) = []"
    using ascendingIDs_strict [OF assms(3) ne] by (cases "reasons = []") (simp_all add: finish_scopes assms(1) ascendingIDs_Nil)
  moreover have "concat (map (componentErrs ?f) (rr_Components ?f)) = []"
    using assms(2) by (auto simp: assms(1) list_all_iff componentErrs_good)
  moreover have "classificationErrs ?f = []" by (rule finish_classification)
  moreover have "rr_Detail ?f \<noteq> NoReconDetail" "rr_Classification ?f \<noteq> ReconciliationUnverifiable \<Longrightarrow> rr_Unverifiable ?f = []"
    by (simp_all add: finish_def Let_def assms(10) split: if_splits)
  ultimately show ?thesis using assms(4-9) by (auto simp: ReconResult_Validate_def)
qed

definition observation_named :: "reconciliation_payload \<Rightarrow> bool" where
  "observation_named obs \<longleftrightarrow> scaleErrs (rp_QuantityScale obs) = [] \<and> rp_AccountID obs \<noteq> '''' \<and> rp_ReconciliationID obs \<noteq> '''' \<and>
     list_all (\<lambda>q. ap_InstrumentID q \<noteq> '''' \<and> in64 (ap_Quantity q)) (rows (rp_Positions obs))"

lemma observedMap_keys: "fst ` set (observedMap ps) = ap_InstrumentID ` set ps"
proof -
  have "fst ` set (foldl (\<lambda>m q. mput m (ap_InstrumentID q) (ap_Quantity q)) m ps) = fst ` set m \<union> ap_InstrumentID ` set ps" for m
    by (induction ps arbitrary: m) auto
  from this [of "[]"] show ?thesis by (simp add: observedMap_def)
qed

lemma classify_valid:
  assumes "\<And>b. bo = Some b \<Longrightarrow> book_ok b \<and> book_named b" "list_all change_ok changes" "list_all change_named changes"
    "observation_named obs" "inputID \<noteq> ''''"
  shows "ReconResult_Validate (fst (classify bo changes inputID obs note)) = []"
proof -
  have bare: "ReconResult_Validate (finish (startResult inputID obs\<lparr>rr_AnchorID := a\<rparr>) rs noParts 0 [] note) = []"
    "ReconResult_Validate (finish (startResult inputID obs) rs noParts 0 [] note) = []" for a rs
    using assms(4,5) by (intro finish_valid [where cs = "[]"]; simp add: startResult_def observation_named_def unexplainedIDs_def)+
  show ?thesis
  proof (cases bo)
    case None
    then show ?thesis by (simp add: classify_def Let_def bare)
  next
    case (Some b)
    let ?s = "bridgeFor b changes obs" and ?oc = "fst (observedCashOf b obs)" and ?pr = "ReconReadable obs ReconciliationComponentPositions"
    have b: "book_ok b" "book_named b" using assms(1) Some by auto
    have so: "bridge_sound ?s" by (rule bridgeFor_sound [OF b assms(2,3)])
    have o64: "list_all (\<lambda>q. in64 (ap_Quantity q)) (rows (rp_Positions obs))"
      using assms(4) by (auto simp: observation_named_def list_all_iff)
    have fg: "list_all figures64 (raw_components b ?s ?oc ?pr obs)"
      using so observedMap_in64 [OF o64] observedCash_in64 [of b obs] by (intro raw_figures64) (auto simp: bridge_sound_def pred_option_def)
    define cs where "cs = filter (\<lambda>c. in64 (rc_Observed c - rc_Expected c)) (raw_components b ?s ?oc ?pr obs)"
    obtain rs where c: "components b ?s ?oc ?pr obs = (map completed cs, rs)"
      using foldl_appendEntry [OF fg, of "([], br_reasons ?s)"] by (auto simp: components_raw cs_def)
    have good: "list_all (good_component (bk_CashSet b)) cs" unfolding cs_def
      by (rule raw_good [OF so]) (use assms(4) observedCash_in64 [of b obs] in \<open>auto simp: observedMap_keys observation_named_def list_all_iff\<close>)
    define r0 where "r0 = (if bk_CashSet b then startResult inputID obs\<lparr>rr_AnchorID := bk_AnchorID b, rr_CashCompared := True, rr_Currency := bk_Currency b\<rparr>
        else startResult inputID obs\<lparr>rr_AnchorID := bk_AnchorID b\<rparr>)\<lparr>rr_Components := map completed cs\<rparr>"
    have "ReconResult_Validate (finish r0 rs parts st od note) = []" for parts st od
      by (rule finish_valid [where cs = cs])
        (use good unexplainedIDs_ascending assms(4,5) b(2) in
          \<open>auto simp: r0_def startResult_def observation_named_def book_named_def cs_def\<close>)
    then show ?thesis using Some bare(1) c by (simp add: classify_def Let_def r0_def cong: if_cong)
  qed
qed

text \<open>C20: For a validated observation and a journal whose identifiers are not empty, the result of a reconciliation always passes its own validator, whatever the classification.\<close>

theorem Classify_result_valid:
  assumes "case bo of None \<Rightarrow> True | Some b \<Rightarrow> book_ok b \<and> book_named b" "list_all (\<lambda>c. change_ok c \<and> change_named c) changes"
    "Reconciliation_Validate obs = []" "list_all (\<lambda>q. in64 (ap_Quantity q)) (rows (rp_Positions obs))" "inputID \<noteq> ''''"
  shows "ReconResult_Validate (Classify bo changes inputID obs) = []"
proof -
  have "accountPositionErrs (rp_QuantityScale obs) None (rows (rp_Positions obs)) = []" "observation_named obs"
    using assms(3,4) accountPositionErrs_ascending [of "rp_QuantityScale obs" None "rows (rp_Positions obs)"]
    by (auto simp: Reconciliation_Validate_def observation_named_def list_all_iff split: if_splits)
  moreover have "Classify bo changes inputID obs = fst (classify bo changes inputID obs BookStatesNoCash)"
    by (simp add: Classify_def Reconcile_def split: prod.splits)
  moreover have "list_all change_ok changes" "list_all change_named changes" using assms(2) by (simp_all add: list_all_iff)
  ultimately show ?thesis using classify_valid [of bo changes obs inputID] assms(1,5) by (auto split: option.splits)
qed

section \<open>What halts\<close>

lemma bridgeOver_keeps_reason: "r \<in> set (br_reasons s) \<Longrightarrow> r \<in> set (br_reasons (bridgeOver b cr h u s cs))"
  using bridgeOver_reasons [of b cr h u s cs] by auto

lemma bridgeOver_unknown:
  assumes "c \<in> set cs" "inWindow b cr h u c" "\<not> knownKind (ch_Kind c)"
  shows "RCannotApply (ch_ID c) (ch_Kind c) (ch_InstrumentID c) \<in> set (br_reasons (bridgeOver b cr h u s cs))"
  using assms(1)
proof (induction cs arbitrary: s)
  case (Cons d cs)
  have o: "bridgeOver b cr h u s (d # cs) = bridgeOver b cr h u (if inWindow b cr h u d then applyChange b cr s d else s) cs"
    by (simp add: bridgeOver_def)
  show ?case
  proof (cases "c = d")
    case True
    then show ?thesis unfolding o using assms(2,3) by (intro bridgeOver_keeps_reason) (simp add: applyChange_def)
  next
    case False
    then show ?thesis unfolding o using Cons by simp
  qed
qed simp

lemma classify_finish: "\<exists>r rs ps st od n. fst (classify bo changes inputID obs note) = finish r rs ps st od n"
proof (cases bo)
  case None
  then show ?thesis by (simp add: classify_def Let_def) blast
next
  case (Some b)
  show ?thesis
  proof (cases "bk_QuantityScale b = rp_QuantityScale obs")
    case False
    then show ?thesis by (simp add: Some classify_def Let_def) blast
  next
    case True
    then show ?thesis by (simp add: Some classify_def Let_def split: prod.splits) blast
  qed
qed

lemma classify_halts:
  assumes "bo = Some b \<Longrightarrow> bk_QuantityScale b = rp_QuantityScale obs \<Longrightarrow> br_reasons (bridgeFor b changes obs) \<noteq> []"
    "\<And>b'. bo = Some b' \<Longrightarrow> b' = b"
  shows "rr_Action (fst (classify bo changes inputID obs note)) = ReconciliationActionHalt"
proof (cases bo)
  case (Some b')
  with assms(2) have bo: "bo = Some b" by simp
  show ?thesis
  proof (cases "bk_QuantityScale b = rp_QuantityScale obs")
    case True
    then have "snd (components b (bridgeFor b changes obs) (fst (observedCashOf b obs)) (ReconReadable obs ReconciliationComponentPositions) obs) \<noteq> []"
      using components_reasons [of b "bridgeFor b changes obs" "fst (observedCashOf b obs)" "ReconReadable obs ReconciliationComponentPositions" obs]
        assms(1) [OF bo] by auto
    with True bo show ?thesis by (auto simp: classify_def Let_def finish_halts split: prod.splits)
  qed (simp add: bo classify_def Let_def finish_halts)
qed (simp add: classify_def Let_def finish_halts)

text \<open>With no book, unreadable positions, differing units, an observation before the book, a book whose cash is no cent count, unreadable or foreign cash where cash is compared, or a change in the window of a kind no book can apply, a reconciliation halts the account and names no scope.\<close>

theorem Classify_unverifiable_halts:
  assumes "bo = None \<or> \<not> ReconReadable obs ReconciliationComponentPositions \<or> (\<exists>b. bo = Some b \<and>
      (bk_QuantityScale b \<noteq> rp_QuantityScale obs \<or> rp_AsOf obs < bk_AsOf b \<or> bk_Fault b \<noteq> None \<or>
       (bk_CashSet b \<and> \<not> ReconReadable obs ReconciliationComponentCash) \<or> (bk_CashSet b \<and> rp_Currency obs \<noteq> bk_Currency b) \<or>
       (\<exists>c\<in>set (bridgeWindow b changes obs). \<not> knownKind (ch_Kind c))))"
  shows "rr_Action (Classify bo changes inputID obs) = ReconciliationActionHalt \<and> rr_Classification (Classify bo changes inputID obs) = ReconciliationUnverifiable \<and>
    rr_ScopeInstrumentIDs (Classify bo changes inputID obs) = [] \<and> rr_ScopeCashComponents (Classify bo changes inputID obs) = []"
proof -
  let ?r = "fst (classify bo changes inputID obs BookStatesNoCash)"
  have e: "Classify bo changes inputID obs = ?r" by (simp add: Classify_def Reconcile_def split: prod.splits)
  have reasons: "br_reasons (bridgeFor b changes obs) \<noteq> []" if b: "bo = Some b" and s: "bk_QuantityScale b = rp_QuantityScale obs" for b
  proof (cases "reasonsBefore b obs = []")
    case False
    then obtain r where "r \<in> set (reasonsBefore b obs)" by (meson list.set_sel(1))
    then have "r \<in> set (br_reasons (bridgeFor b changes obs))"
      unfolding bridgeFor_def Let_def by (intro bridgeOver_keeps_reason) (simp add: startBridge_def)
    then show ?thesis by auto
  next
    case True
    then obtain c where "c \<in> set (bridgeWindow b changes obs)" "\<not> knownKind (ch_Kind c)"
      using assms b s by (auto simp: reasonsBefore_def observedCashOf_def split: if_splits option.splits)
    then have "RCannotApply (ch_ID c) (ch_Kind c) (ch_InstrumentID c) \<in> set (br_reasons (bridgeFor b changes obs))"
      unfolding bridgeFor_def bridgeWindow_def Let_def by (intro bridgeOver_unknown) auto
    then show ?thesis by auto
  qed
  have halt: "rr_Action ?r = ReconciliationActionHalt"
  proof (cases bo)
    case None
    then show ?thesis by (simp add: classify_def Let_def finish_halts)
  next
    case (Some b)
    then show ?thesis using reasons by (intro classify_halts [of bo b]) auto
  qed
  have "rr_Action (finish r rs ps st od n) = ReconciliationActionHalt \<Longrightarrow> rr_Classification (finish r rs ps st od n) = ReconciliationUnverifiable \<and>
    rr_ScopeInstrumentIDs (finish r rs ps st od n) = [] \<and> rr_ScopeCashComponents (finish r rs ps st od n) = []" for r rs ps st od n
    by (simp add: finish_def Let_def split: if_splits)
  moreover obtain r rs ps st od n where "?r = finish r rs ps st od n" using classify_finish by blast
  ultimately show ?thesis using halt e by simp
qed

section \<open>Close snapshots and transfers\<close>

definition holdingsWindow :: "book \<Rightarrow> change list \<Rightarrow> book \<Rightarrow> change list" where
  "holdingsWindow b changes next = filter (\<lambda>c. ch_Kind c \<noteq> ChangeCashMovement \<and> bk_AsOf b \<le> trunc_sec (ch_At c) \<and> trunc_sec (ch_At c) < bk_AsOf next) changes"

lemma holdings_positions:
  "distinct (map ap_InstrumentID (rows (rp_Positions (holdingsObservation a next))))"
  "brokerQuantity (rows (rp_Positions (holdingsObservation a next))) i = mget (bk_Positions next) i 0"
proof -
  let ?ks = "filter (\<lambda>i. mget (bk_Positions next) i 0 \<noteq> 0) (mkeys (bk_Positions next))"
  let ?row = "\<lambda>i. \<lparr>ap_InstrumentID = i, ap_Quantity = mget (bk_Positions next) i 0\<rparr>"
  have r: "rows (rp_Positions (holdingsObservation a next)) = map ?row ?ks" by (simp add: holdingsObservation_def)
  show "distinct (map ap_InstrumentID (rows (rp_Positions (holdingsObservation a next))))" by (simp add: r comp_def)
  have f: "(case find (\<lambda>q. ap_InstrumentID q = i) (map ?row ks) of None \<Rightarrow> 0 | Some q \<Rightarrow> ap_Quantity q) =
      (if i \<in> set ks then mget (bk_Positions next) i 0 else 0)" for ks
    by (induction ks) auto
  show "brokerQuantity (rows (rp_Positions (holdingsObservation a next))) i = mget (bk_Positions next) i 0"
    unfolding r brokerQuantity_def f using mget_notin [of i "bk_Positions next" 0] by (cases "i \<in> fst ` set (bk_Positions next)") auto
qed

lemma Holdings_scopes:
  defines "r a bo cs n \<equiv> fst (classify (map_option positionsOnly bo) cs (bk_AnchorID n) (holdingsObservation a n) (HoldingsOfCloseSnapshot (bk_AnchorID n)))"
  shows "rr_Action (Holdings a bo cs n) = rr_Action (r a bo cs n)" "rr_ScopeInstrumentIDs (Holdings a bo cs n) = rr_ScopeInstrumentIDs (r a bo cs n)"
    "rr_ScopeCashComponents (Holdings a bo cs n) = rr_ScopeCashComponents (r a bo cs n)"
  by (auto simp: Holdings_def Let_def r_def split: recon_detail.splits)

text \<open>A close snapshot that can be compared degrades exactly the instruments whose holding is not the book's carried through the fills and corporate actions since it; its cash is never in scope, and it continues exactly when every holding is explained.\<close>

theorem Holdings_scope_exact:
  assumes "book_ok b" "book_ok next" "list_all change_ok changes"
    "rr_Action (Holdings accountID (Some b) changes next) \<noteq> ReconciliationActionHalt"
  shows "set (rr_ScopeInstrumentIDs (Holdings accountID (Some b) changes next)) =
      {i. mget (bk_Positions next) i 0 \<noteq> expectedShares b (holdingsWindow b changes next) i} \<and>
    rr_ScopeCashComponents (Holdings accountID (Some b) changes next) = [] \<and>
    (rr_Action (Holdings accountID (Some b) changes next) = ReconciliationActionContinue \<longleftrightarrow>
      rr_ScopeInstrumentIDs (Holdings accountID (Some b) changes next) = [])"
proof -
  let ?o = "holdingsObservation accountID next" and ?b = "positionsOnly b"
  have ok: "book_ok ?b" using assms(1) by (simp add: book_ok_def positionsOnly_def)
  have o64: "list_all (\<lambda>q. in64 (ap_Quantity q)) (rows (rp_Positions ?o))"
    using assms(2) by (auto simp: holdingsObservation_def book_ok_def list_all_iff intro!: in64_mget)
  note h = assms(4) [unfolded Holdings_scopes option.map]
  note k = classify_compares [OF h ok assms(3) o64]
  have nc: "fst (observedCashOf ?b ?o) = None" by (simp add: observedCashOf_def positionsOnly_def)
  have "inWindow ?b False h u c \<longleftrightarrow> ch_Kind c \<noteq> ChangeCashMovement \<and> bk_AsOf b \<le> trunc_sec (ch_At c) \<and> trunc_sec (ch_At c) < u" for h u c
    by (auto simp: inWindow_def Let_def positionsOnly_def)
  moreover have "rp_AsOf ?o = bk_AsOf next" by (simp add: holdingsObservation_def)
  ultimately have w: "bridgeWindow ?b changes ?o = holdingsWindow b changes next"
    by (simp add: bridgeWindow_def nc holdingsWindow_def cong: filter_cong)
  have "expectedShares ?b ws i = expectedShares b ws i" for ws i by (simp add: expectedShares_def positionsOnly_def)
  with k bridgeFor_exact(3) [OF _ ok assms(3)] show ?thesis unfolding Holdings_scopes option.map
    by (simp add: unexplainedIDs_raw unexplainedCash_raw nc observedMap_lookup [OF holdings_positions(1)] holdings_positions(2) w)
qed

definition transferIn :: "gotime \<Rightarrow> gotime \<Rightarrow> string set \<Rightarrow> change \<Rightarrow> bool" where
  "transferIn from until counted c \<longleftrightarrow> ch_Kind c = ChangeCashMovement \<and> ch_ID c \<notin> counted \<and> from \<le> trunc_sec (ch_At c) \<and> trunc_sec (ch_At c) < until"

lemma TransfersIn_sums:
  assumes "TransfersIn changes from until counted currency = Inr (s, ids)" "list_all change_ok changes"
  shows "s = sum_list (map ch_Cash (filter (transferIn from until counted) changes)) \<and> in64 s \<and>
    ids = map ch_ID (filter (transferIn from until counted) changes)"
proof -
  have "s' = s0 + sum_list (map ch_Cash (filter (transferIn from until counted) cs)) \<and> in64 s' \<and>
      ids' = ids0 @ map ch_ID (filter (transferIn from until counted) cs)"
    if "transfers_loop from until counted currency s0 ids0 cs = Inr (s', ids')" "in64 s0" "list_all change_ok cs" for s0 ids0 cs s' ids'
    using that
  proof (induction cs arbitrary: s0 ids0)
    case (Cons c cs)
    show ?case
    proof (cases "transferIn from until counted c")
      case False
      with Cons show ?thesis by (auto simp: transferIn_def Let_def split: if_splits)
    next
      case True
      then obtain n where n: "addCents s0 (ch_Cash c) = Inr n"
        and l: "transfers_loop from until counted currency n (ids0 @ [ch_ID c]) cs = Inr (s', ids')"
        using Cons.prems(1) by (auto simp: transferIn_def Let_def split: if_splits sum.splits)
      have "n = s0 + ch_Cash c" "in64 n"
        using n Cons.prems(2,3) by (auto simp: addCents_exact change_ok_def split: if_splits)
      with Cons.IH [OF l] Cons.prems(3) True show ?thesis by auto
    qed
  qed simp
  from this [of 0 "[]" changes s ids] assms show ?thesis by (auto simp: TransfersIn_def)
qed

section \<open>The changes and books the journal makes\<close>

lemma Cents_in64: "Cents x = Inr c \<Longrightarrow> in64 c"
  by (auto simp: Cents_def dest: roundCents_in64)

lemma value_or_0_in64: "(\<And>v. r = Inr v \<Longrightarrow> in64 v) \<Longrightarrow> in64 (value_or_0 r)"
  by (cases r) (auto simp: value_or_0_def)

lemma subCents_in64: "subCents a b = Inr c \<Longrightarrow> in64 c"
  by (auto simp: subCents_def)

lemma FillChange_ok: "in64 (tf_Quantity p) \<Longrightarrow> change_ok (FillChange p)"
  by (auto simp: FillChange_def Let_def change_ok_def go_bind intro!: value_or_0_in64 dest: subCents_in64)

lemma CorporateActionChange_ok: "change_ok (CorporateActionChange i p)"
  by (auto simp: CorporateActionChange_def Let_def change_ok_def noChange_def intro!: value_or_0_in64 dest: Cents_in64)

lemma CashMovementChange_ok: "change_ok (CashMovementChange i p)"
  by (auto simp: CashMovementChange_def Let_def change_ok_def noChange_def intro!: value_or_0_in64 dest: Cents_in64)

lemma PositionsBook_ok: "list_all (\<lambda>q. in64 (ap_Quantity q)) (aps_Positions p) \<Longrightarrow> book_ok (PositionsBook i p)"
  using observedMap_in64 [of "aps_Positions p"] by (simp add: book_ok_def PositionsBook_def observedMap_def)

lemma CashBook_ok: "list_all (\<lambda>q. in64 (ap_Quantity q)) (aps_Positions p) \<Longrightarrow> book_ok (CashBook i p)"
  using observedMap_in64 [of "aps_Positions p"]
  by (auto simp: book_ok_def CashBook_def PositionsBook_def observedMap_def account_positions_snapshot.truncate_def Let_def dest: Cents_in64 split: sum.splits)

lemmas journal_ok = FillChange_ok CorporateActionChange_ok CashMovementChange_ok PositionsBook_ok CashBook_ok

section \<open>A worked reconciliation\<close>

text \<open>A book of 100 shares and 10,000 dollars; 40 shares sold since at 25.50 with a dollar of commission;
  the broker reports 55 shares where 60 are expected, and exactly the cash expected.\<close>

definition book_example :: book where
  "book_example = \<lparr>bk_QuantityScale = 0, bk_AnchorID = ''s'', bk_AsOf = 739000 * day_ns, bk_Positions = [(''A'', 100)], bk_CashSet = True,
     bk_Cash = 1000000, bk_Currency = ''USD'', bk_Fault = None\<rparr>"

definition fill_example :: target_weight_fill where
  "fill_example = \<lparr>tf_QuantityScale = 0, tf_AccountID = ''a'', tf_ClientOrderID = ''c'', tf_FillID = ''f'', tf_InstrumentID = ''A'', tf_Side = OrderSideSell,
     tf_Quantity = 40, tf_Price = Fin (51/2), tf_Commission = Fin 1, tf_FilledAt = 739001 * day_ns\<rparr>"

definition observation_example :: reconciliation_payload where
  "observation_example = \<lparr>rp_QuantityScale = 0, rp_AccountID = ''a'', rp_ReconciliationID = ''r'', rp_Trigger = ReconciliationTriggerMorning,
     rp_AsOf = 739002 * day_ns, rp_Unreadable = [], rp_Positions = Some [\<lparr>ap_InstrumentID = ''A'', ap_Quantity = 55\<rparr>],
     rp_TotalCash = Fin 11019, rp_Currency = ''USD''\<rparr>"

lemma example_change: "FillChange fill_example = noChange\<lparr>ch_ID := ''f'', ch_Kind := ChangeFill, ch_InstrumentID := ''A'', ch_At := 739001 * day_ns,
    ch_Shares := - 40, ch_Commission := 100, ch_Cash := 101900\<rparr>"
  by code_simp

lemma example_ok: "book_ok book_example" "book_named book_example" "list_all (\<lambda>c. change_ok c \<and> change_named c) [FillChange fill_example]"
  "Reconciliation_Validate observation_example = []" "list_all (\<lambda>q. in64 (ap_Quantity q)) (rows (rp_Positions observation_example))"
  by code_simp+

lemma example_degrades: "rr_Action (Classify (Some book_example) [FillChange fill_example] ''i'' observation_example) = ReconciliationActionDegrade"
  by code_simp

theorem Classify_scope_exact_witness:
  "set (rr_ScopeInstrumentIDs (Classify (Some book_example) [FillChange fill_example] ''i'' observation_example)) =
     {i. brokerQuantity (rows (rp_Positions observation_example)) i \<noteq>
         expectedShares book_example (bridgeWindow book_example [FillChange fill_example] observation_example) i} \<and>
   Cents (rp_TotalCash observation_example) =
     Inr (bk_Cash book_example + sum_list (map ch_Cash (bridgeWindow book_example [FillChange fill_example] observation_example)))"
proof -
  have "list_all change_ok [FillChange fill_example]" using example_ok(3) by (simp add: list_all_iff)
  moreover have "rr_Action (Classify (Some book_example) [FillChange fill_example] ''i'' observation_example) \<noteq> ReconciliationActionHalt"
    by (simp add: example_degrades)
  moreover have "bridgeWindow book_example [FillChange fill_example] observation_example = [FillChange fill_example]" by code_simp
  moreover have "Cents (Fin 11019) = Inr 1101900" by code_simp
  ultimately show ?thesis using Classify_scope_exact [of book_example "[FillChange fill_example]" observation_example "''i''"] example_ok
    by (simp add: example_change) (simp add: observation_example_def book_example_def noChange_def)
qed

theorem Classify_result_valid_witness:
  "ReconResult_Validate (Classify (Some book_example) [FillChange fill_example] ''i'' observation_example) = []"
  using Classify_result_valid [of "Some book_example" "[FillChange fill_example]" observation_example "''i''"] example_ok by simp

theorem Classify_unverifiable_halts_witness:
  "rr_Action (Classify None [FillChange fill_example] ''i'' observation_example) = ReconciliationActionHalt"
  using Classify_unverifiable_halts [of None observation_example "[FillChange fill_example]" "''i''"] by simp

theorem Holdings_scope_exact_witness:
  "set (rr_ScopeInstrumentIDs (Holdings ''a'' (Some book_example) [FillChange fill_example]
      (book_example\<lparr>bk_AsOf := 739002 * day_ns, bk_Positions := [(''A'', 60)]\<rparr>))) = {}"
proof -
  let ?n = "book_example\<lparr>bk_AsOf := 739002 * day_ns, bk_Positions := [(''A'', 60)]\<rparr>"
  have c: "rr_Action (Holdings ''a'' (Some book_example) [FillChange fill_example] ?n) = ReconciliationActionContinue" by code_simp
  moreover have "book_ok ?n" by code_simp
  moreover have "list_all change_ok [FillChange fill_example]" using example_ok(3) by (simp add: list_all_iff)
  ultimately show ?thesis using Holdings_scope_exact [of book_example ?n "[FillChange fill_example]" "''a''"] example_ok(1) by simp
qed

theorem roundCents_half_away_witness: "\<bar>of_int 15 - (29/200 :: rat) * 100\<bar> \<le> 1/2 \<and> \<bar>(29/200 :: rat) * 100\<bar> < \<bar>of_int 15\<bar>"
proof -
  have "roundCents (29/200) = Inr 15" by code_simp
  from roundCents_half_away [OF this] show ?thesis by simp
qed

end
