(* ===== verification/RiskGate.thy ===== *)
theory RiskGate
  imports SellLedger OrderPlan Reconcile
begin

text \<open>
  \<open>internal/risklimit\<close>: the hard-limit gate of one account. Its fields are those of \<open>Gate\<close>; a Go map that
  is only looked up is a set or a function, one that is iterated over or counted an association list.
  Every operation takes the gate and returns it updated; an operation that returns an error before it
  changes anything returns \<open>Inl\<close>, and the caller keeps the gate it had. Messages are the \<open>detail\<close>
  constructors of \<open>OrderEvents\<close>; a plan's order counts are Go \<open>int\<close>s that no plan comes near to
  overflowing, and are integers here.
\<close>

section \<open>The gate's state\<close>

record gate_order =
  o_PlanID :: string
  o_Planned :: order_planned
  o_Mark :: f64
  o_MarkSet :: bool
  o_MarkSource :: mark_source

record gate_outcome =
  out_Released :: "order_released option"
  out_Refused :: "order_refused option"
  out_State :: "engine_state_payload option"
  out_StateSchemaVersion :: int
  out_StateID :: string

record gate_book =
  gb_QuantityScale :: int
  gb_Holdings :: "(string, int) gomap"
  gb_Prices :: "(string, f64) gomap"
  gb_WorkingSells :: "(string, int) gomap"
  gb_PriorOrders :: int
  gb_PriorCounted :: int
  gb_CashAvailable :: f64
  gb_At :: gotime

record released_order =
  ro_planned :: order_planned
  ro_reported :: int
  ro_fills :: "target_weight_fill list"

record sale_attempt =
  sa_earlier :: bool
  sa_retired :: int
  sa_instruments :: "string set"

record pending_cash =
  pc_inputID :: string
  pc_result :: recon_result
  pc_cash :: recon_component
  pc_from :: gotime
  pc_to :: gotime
  pc_counted :: "string set"
  pc_transfers :: "string set"
  pc_alerted :: bool
  pc_repeats :: "(string \<times> string) list"

record gate_limits =
  g_quantityScale :: int
  g_accountID :: string
  g_ira :: bool
  g_maxFees :: f64
  g_roundingSlack :: f64
  g_limits :: margin_limits
  g_mode :: trading_mode

record gate_state = gate_limits +
  g_decided :: "string set"
  g_state :: engine_state
  g_scope :: "string list"
  g_cashScope :: "string list"
  g_incident :: string
  g_killEngaged :: bool
  g_killID :: string
  g_killAlerted :: bool
  g_lastKill :: string
  g_lastKillAt :: gotime
  g_lastKillSet :: bool

record gate_broker = gate_state +
  g_broker :: "broker_snapshot_payload option"
  g_brokerID :: string
  g_firstBroker :: gotime
  g_maxSnapshotAge :: duration
  g_staleOpen :: bool
  g_urgentRetry :: bool
  g_urgentInstrument :: string
  g_urgentWithheld :: "sale_withheld option"
  g_exitRetry :: string
  g_exitWithheld :: "sale_withheld option"
  g_alarmLevel :: alarm_level
  g_alarmID :: string
  g_lastReading :: gotime
  g_lastReadingSet :: bool

record gate_sales = gate_broker +
  g_released :: "string set"
  g_saleTags :: "string set"
  g_attempts :: "string \<Rightarrow> sale_attempt option"
  g_pending :: "string set"
  g_retiredSales :: "string \<Rightarrow> int"
  g_restored :: string
  g_ledger :: sell_ledger
  g_account :: view
  g_brokerView :: view
  g_orders :: "(string, released_order) gomap"
  g_fills :: "string \<Rightarrow> target_weight_fill option"

record gate = gate_sales +
  g_book :: "book option"
  g_changes :: "change list"
  g_classified :: "(string, int) gomap option"
  g_classifiedAsOf :: gotime
  g_latestReadAsOf :: gotime
  g_reported :: "(string, int) gomap"
  g_reportedAsOf :: "(string, gotime) gomap"
  g_haltedOn :: "recon_reason set"
  g_corporateActions :: "string \<Rightarrow> corporate_action option"
  g_cashMovements :: "string \<Rightarrow> cash_movement option"
  g_flex :: "flex_status option"
  g_pendingCash :: "pending_cash list"

section \<open>Construction\<close>

definition freshGate :: "string \<Rightarrow> margin_limits \<Rightarrow> trading_mode \<Rightarrow> duration \<Rightarrow> gate" where
  "freshGate accountID limits mode maxAge = \<lparr>g_quantityScale = 0, g_accountID = accountID, g_ira = False, g_maxFees = Fin 0, g_roundingSlack = Fin 0,
     g_limits = limits, g_mode = mode,
     g_decided = {}, g_state = StateNormal, g_scope = [], g_cashScope = [], g_incident = '''', g_killEngaged = False, g_killID = '''',
     g_killAlerted = False, g_lastKill = '''', g_lastKillAt = 0, g_lastKillSet = False,
     g_broker = None, g_brokerID = '''', g_firstBroker = 0, g_maxSnapshotAge = maxAge, g_staleOpen = False, g_urgentRetry = False,
     g_urgentInstrument = '''', g_urgentWithheld = None, g_exitRetry = '''', g_exitWithheld = None, g_alarmLevel = MarginAlarmClear, g_alarmID = '''',
     g_lastReading = 0, g_lastReadingSet = False,
     g_released = {}, g_saleTags = {}, g_attempts = (\<lambda>_. None), g_pending = {}, g_retiredSales = (\<lambda>_. 0), g_restored = '''',
     g_ledger = newSellLedger, g_account = noView, g_brokerView = noView, g_orders = [], g_fills = (\<lambda>_. None),
     g_book = None, g_changes = [], g_classified = None, g_classifiedAsOf = 0, g_latestReadAsOf = 0, g_reported = [], g_reportedAsOf = [],
     g_haltedOn = {}, g_corporateActions = (\<lambda>_. None), g_cashMovements = (\<lambda>_. None), g_flex = None, g_pendingCash = []\<rparr>"

definition newGate :: "string \<Rightarrow> margin_limits \<Rightarrow> trading_mode \<Rightarrow> duration \<Rightarrow> (err list, gate) result" where
  "newGate accountID limits mode maxAge =
     failIf (accountID = '''') [''account id is required'']
     (failIf (maxAge \<le> 0) [''the maximum broker snapshot age must be positive'']
     (joinErrs (MarginLimits_Validate limits)
     (failIf (\<not> ValidTradingMode mode) [''mode is not dry-run, paper or live'']
     (Inr (freshGate accountID limits mode maxAge)))))"

definition NewGate :: "string \<Rightarrow> margin_limits \<Rightarrow> trading_mode \<Rightarrow> duration \<Rightarrow> (err list, gate) result" where
  "NewGate accountID limits mode maxAge =
     failIf (\<not> HasCushion limits) [''a margin account's limits set the excess liquidity thresholds''] (newGate accountID limits mode maxAge)"

definition NewIRAGate :: "string \<Rightarrow> margin_limits \<Rightarrow> trading_mode \<Rightarrow> f64 \<Rightarrow> duration \<Rightarrow> (err list, gate) result" where
  "NewIRAGate accountID limits mode maxFees maxAge =
     failIf (f_lt (Fin 1) (ml_MaxExposure limits)) [''an IRA's max exposure exceeds 1'']
     (failIf (HasCushion limits) [''an IRA's limits set no excess liquidity thresholds'']
     (failIf (\<not> f_le (Fin 0) maxFees \<or> \<not> isFinite maxFees) [''the fee allowance must be finite and not negative'']
     (bindr (newGate accountID limits mode maxAge) (\<lambda>g.
        Inr (g\<lparr>g_ira := True, g_maxFees := maxFees, g_roundingSlack := DefaultRoundingSlack\<rparr>)))))"

definition SetRoundingSlackPerOrder :: "gate \<Rightarrow> f64 \<Rightarrow> (err list, gate) result" where
  "SetRoundingSlackPerOrder g slack =
     failIf (\<not> g_ira g \<or> \<not> ValidRoundingSlack slack) [''IRA rounding slack must be in [0.01, 1.00] dollars''] (Inr (g\<lparr>g_roundingSlack := slack\<rparr>))"

definition SetQuantityScale :: "gate \<Rightarrow> int \<Rightarrow> (err list, gate) result" where
  "SetQuantityScale g scale =
     failIf (scale \<noteq> 0 \<and> scale \<noteq> FractionalQuantityScale) [''unsupported quantity scale'']
     (failIf (scale \<noteq> 0 \<and> \<not> g_ira g) [''fractional quantities require an IRA'']
     (failIf (g_book g \<noteq> None \<or> g_broker g \<noteq> None \<or> g_orders g \<noteq> [] \<or> sl_snapshots (g_ledger g) \<noteq> 0 \<or> g_changes g \<noteq> [])
       [''quantity scale is fixed before capital state arrives'']
     (Inr (g\<lparr>g_quantityScale := scale\<rparr>))))"

definition checkQuantityScale :: "gate \<Rightarrow> int \<Rightarrow> err list" where
  "checkQuantityScale g scale = errIf (scale \<noteq> g_quantityScale g) ''quantity scale differs from account scale''"

definition RecordDecision :: "gate \<Rightarrow> string \<Rightarrow> gate" where
  "RecordDecision g i = g\<lparr>g_decided := insert i (g_decided g)\<rparr>"

section \<open>Restoring the engine state\<close>

definition union_ids :: "string list \<Rightarrow> string list \<Rightarrow> string list" where
  "union_ids a b = remdups_adj (sort (a @ b))"

definition tighten :: "gate \<Rightarrow> string \<Rightarrow> engine_state \<Rightarrow> string list \<Rightarrow> string list \<Rightarrow> (err list, gate) result" where
  "tighten g incidentID st instrumentIDs cash =
     failIf (st \<noteq> StateHalted \<and> g_state g = StateHalted) [''a Degraded state cannot follow Halted'']
     (let g = (if g_state g = StateNormal then g\<lparr>g_incident := incidentID, g_saleTags := insert incidentID (g_saleTags g)\<rparr> else g) in
      Inr (if st = StateHalted then g\<lparr>g_state := StateHalted, g_scope := [], g_cashScope := []\<rparr>
           else g\<lparr>g_state := StateDegraded, g_scope := union_ids (g_scope g) instrumentIDs, g_cashScope := union_ids (g_cashScope g) cash\<rparr>))"

definition RestoreState :: "gate \<Rightarrow> string \<Rightarrow> engine_state_payload \<Rightarrow> int \<Rightarrow> (err list, gate) result" where
  "RestoreState g i p schemaVersion =
     joinErrs (EngineState_ValidateSchema p schemaVersion)
     (failIf (i = '''') [''a recorded engine state needs its envelope ID'']
     (failIf (es_ScopeOrderIDs p \<noteq> []) [''a recorded scope naming orders is not one this gate can hold'']
     (tighten g i (es_State p) (es_ScopeInstrumentIDs p) (es_ScopeCashComponents p))))"

definition RestoreIncidentState :: "gate \<Rightarrow> string \<Rightarrow> engine_state \<Rightarrow> string list \<Rightarrow> string list \<Rightarrow> (err list, gate) result" where
  "RestoreIncidentState g incidentID st instrumentIDs cash = (let scoped = (instrumentIDs \<noteq> [] \<or> cash \<noteq> []) in
     failIf (st = StateHalted \<and> scoped) [''an approved Halted incident names no scope'']
     (failIf (st = StateDegraded \<and> \<not> scoped) [''an approved Degraded incident names its scope'']
     (failIf (st \<noteq> StateHalted \<and> st \<noteq> StateDegraded) [''an approved incident's state is not degraded or halted'']
     (tighten g incidentID st instrumentIDs cash))))"

section \<open>Moving the engine state\<close>

definition moveState :: "gate \<Rightarrow> engine_state \<Rightarrow> string \<Rightarrow> gate \<times> string" where
  "moveState g st cause = (let i = ''engine-state:'' @ g_accountID g @ '':'' @ cause;
       g = (if g_state g = StateNormal then g\<lparr>g_incident := i, g_saleTags := insert i (g_saleTags g)\<rparr> else g) in
     (g\<lparr>g_state := st\<rparr>, i))"

definition noOutcome :: gate_outcome where
  "noOutcome = \<lparr>out_Released = None, out_Refused = None, out_State = None, out_StateSchemaVersion = 0, out_StateID = ''''\<rparr>"

definition enterState :: "gate \<Rightarrow> gate_outcome \<Rightarrow> engine_state \<Rightarrow> engine_state_payload \<Rightarrow> string \<Rightarrow> gate \<times> gate_outcome" where
  "enterState g out st p cause = (let (g, i) = moveState g st cause in
     (g, out\<lparr>out_State := Some p, out_StateSchemaVersion := EngineStateScopedVersion, out_StateID := i\<rparr>))"

definition haltGate :: "gate \<Rightarrow> gate_outcome \<Rightarrow> detail \<Rightarrow> string \<Rightarrow> gate \<times> gate_outcome" where
  "haltGate g out d cause = (let (g, out) = enterState g out StateHalted
       \<lparr>es_State = StateHalted, es_Reason = EngineStateReasonRiskLimitBreached, es_Detail = d, es_ScopeInstrumentIDs = [], es_ScopeOrderIDs = [],
        es_ScopeCashComponents = []\<rparr> cause in
     (g\<lparr>g_scope := [], g_cashScope := []\<rparr>, out))"

definition degradeGate :: "gate \<Rightarrow> gate_outcome \<Rightarrow> string \<Rightarrow> detail \<Rightarrow> string \<Rightarrow> gate \<times> gate_outcome" where
  "degradeGate g out instrumentID d cause = (let scope = sort (g_scope g @ [instrumentID]); g = g\<lparr>g_scope := scope\<rparr> in
     enterState g out StateDegraded
       \<lparr>es_State = StateDegraded, es_Reason = EngineStateReasonRiskLimitBreached, es_Detail = d, es_ScopeInstrumentIDs = scope, es_ScopeOrderIDs = [],
        es_ScopeCashComponents = g_cashScope g\<rparr> cause)"

section \<open>What an order is checked against\<close>

definition brokerHolding :: "gate \<Rightarrow> string \<Rightarrow> (int \<times> int) option" where
  "brokerHolding g instrumentID = (case g_broker g of
     None \<Rightarrow> None
   | Some s \<Rightarrow>
       if \<not> BrokerReadable s BrokerComponentPositions \<or> \<not> BrokerReadable s BrokerComponentOpenOrders then None
       else Some (case BrokerSnapshot_Position s instrumentID of None \<Rightarrow> 0 | Some p \<Rightarrow> bp_Quantity p,
                  unshown (g_ledger g) instrumentID (g_brokerView g)))"

definition PendingSells :: "gate \<Rightarrow> string \<Rightarrow> int" where
  "PendingSells g instrumentID = unshown (g_ledger g) instrumentID (g_account g)"

definition riskReducing :: "gate \<Rightarrow> order_planned \<Rightarrow> bool" where
  "riskReducing g p \<longleftrightarrow> op_Side p = OrderSideSell \<and>
     (case brokerHolding g (op_InstrumentID p) of
        Some (holding, working) \<Rightarrow> holding > 0 \<and> op_Quantity p \<le> subtractPending holding working
      | None \<Rightarrow> op_Quantity p \<le> op_HeldQuantity p)"

primrec valueOthers :: "gate_book \<Rightarrow> string \<Rightarrow> f64 \<Rightarrow> string \<Rightarrow> string list \<Rightarrow> f64 \<times> string" where
  "valueOthers book own others unvalued [] = (others, unvalued)"
| "valueOthers book own others unvalued (i # ids) =
     (if i = own \<or> mget (gb_Holdings book) i 0 = 0 then valueOthers book own others unvalued ids
      else case map_of (gb_Prices book) i of
        None \<Rightarrow> valueOthers book own others (if unvalued = '''' then i else unvalued) ids
      | Some price \<Rightarrow> valueOthers book own
          (f_add others (f_abs (QuantityValue (mget (gb_Holdings book) i 0) (gb_QuantityScale book) price))) unvalued ids)"

definition gateFigures :: "gate \<Rightarrow> gate_order \<Rightarrow> int \<Rightarrow> gate_book \<Rightarrow> f64 \<Rightarrow> risk_figures \<times> string" where
  "gateFigures g ord planSize book buyCost = (let
     p = o_Planned ord; held = mget (gb_Holdings book) (op_InstrumentID p) 0;
     after = (if op_Side p = OrderSideSell then sub64 held (op_Quantity p) else add64 held (op_Quantity p));
     (others, unvalued) = valueOthers book (op_InstrumentID p) (Fin 0) '''' (mkeys (gb_Holdings book));
     own = (\<lambda>q. f_abs (QuantityValue q (op_QuantityScale p) (op_ReferencePrice p)));
     f = noFigures\<lparr>rf_NetLiquidation := op_NetLiquidation p, rf_ReferencePrice := op_ReferencePrice p,
       rf_ExposureBefore := f_div (f_add others (own held)) (op_NetLiquidation p),
       rf_ExposureAfter := f_div (f_add others (own after)) (op_NetLiquidation p),
       rf_OrderFraction := f_div (QuantityValue (op_Quantity p) (op_QuantityScale p) (op_ReferencePrice p)) (op_NetLiquidation p),
       rf_OrdersInDecision := planSize\<rparr>;
     f = (if o_MarkSet ord then f\<lparr>rf_Mark := o_Mark ord, rf_MarkSet := True, rf_MarkSource := o_MarkSource ord,
            rf_MarkDeviation := f_div (f_abs (f_sub (op_ReferencePrice p) (o_Mark ord))) (o_Mark ord)\<rparr> else f);
     f = (if g_ira g \<and> op_Side p = OrderSideBuy then
            f\<lparr>rf_CashChecked := True, rf_RoundingSlack := (if op_QuantityScale p = FractionalQuantityScale then g_roundingSlack g else Fin 0),
              rf_BuyCost := buyCost, rf_CashAvailable := gb_CashAvailable book\<rparr> else f);
     f = (case brokerHolding g (op_InstrumentID p) of
            Some (holding, working) \<Rightarrow> f\<lparr>rf_BrokerSet := True, rf_BrokerHolding := holding, rf_WorkingSells := working\<rparr> | None \<Rightarrow> f) in
     (f\<lparr>rf_RiskReducing := riskReducing g p\<rparr>, unvalued))"

definition refusal :: "gate \<Rightarrow> gate_order \<Rightarrow> risk_figures \<Rightarrow> refusal_reason \<Rightarrow> detail \<Rightarrow> order_refused" where
  "refusal g ord f reason d = (let p = o_Planned ord in
     \<lparr>ref_QuantityScale = op_QuantityScale p, ref_AccountID = g_accountID g, ref_PlanID = o_PlanID ord, ref_Tag = op_Tag p,
      ref_ClientOrderID = op_ClientOrderID p, ref_InstrumentID = op_InstrumentID p, ref_Side = op_Side p, ref_Quantity = op_Quantity p,
      ref_LimitPrice = op_LimitPrice p, ref_Reason = reason, ref_Detail = d, ref_Figures = f, ref_Alert = False\<rparr>)"

definition refuse :: "gate \<Rightarrow> gate_order \<Rightarrow> risk_figures \<Rightarrow> refusal_reason \<Rightarrow> detail \<Rightarrow> gate_outcome" where
  "refuse g ord f reason d = noOutcome\<lparr>out_Refused := Some (refusal g ord f reason d)\<rparr>"

definition alertRefusal :: "bool \<Rightarrow> gate_outcome \<Rightarrow> gate_outcome" where
  "alertRefusal a out = out\<lparr>out_Refused := map_option (\<lambda>r. r\<lparr>ref_Alert := a\<rparr>) (out_Refused out)\<rparr>"

definition releaseOrder :: "gate \<Rightarrow> gate_order \<Rightarrow> risk_figures \<Rightarrow> gate \<times> gate_outcome" where
  "releaseOrder g ord f = (let p = o_Planned ord;
     g = g\<lparr>g_released := insert (op_ClientOrderID p) (g_released g),
           g_orders := mput (g_orders g) (op_ClientOrderID p) \<lparr>ro_planned = p, ro_reported = 0, ro_fills = []\<rparr>,
           g_ledger := (if op_Side p = OrderSideSell then ledger_release (g_ledger g) (op_ClientOrderID p) (op_InstrumentID p) (op_Quantity p) else g_ledger g)\<rparr> in
     (g, noOutcome\<lparr>out_Released := Some
       \<lparr>rel_QuantityScale = op_QuantityScale p, rel_AccountID = g_accountID g, rel_PlanID = o_PlanID ord, rel_Tag = op_Tag p,
        rel_ClientOrderID = op_ClientOrderID p, rel_InstrumentID = op_InstrumentID p, rel_Side = op_Side p, rel_Quantity = op_Quantity p,
        rel_LimitPrice = op_LimitPrice p, rel_Mode = g_mode g, rel_Send = (g_mode g \<noteq> TradingModeDryRun), rel_Figures = f\<rparr>\<rparr>))"

definition breach :: "gate \<Rightarrow> gate_order \<Rightarrow> risk_figures \<Rightarrow> int \<Rightarrow> gate_book \<Rightarrow> string \<Rightarrow> (refusal_reason \<times> detail) option" where
  "breach g ord f counted book unvalued = (let p = o_Planned ord; l = g_limits g;
     increases = f_lt (rf_ExposureBefore f) (rf_ExposureAfter f);
     brokerHeld = subtractPending (rf_BrokerHolding f) (rf_WorkingSells f);
     available = subtractPending (mget (gb_Holdings book) (op_InstrumentID p) 0) (mget (gb_WorkingSells book) (op_InstrumentID p) 0);
     over = increases \<and> f_lt (ml_MaxExposure l) (rf_ExposureAfter f) in
     if op_Side p = OrderSideSell \<and> rf_BrokerSet f \<and> op_Quantity p > brokerHeld
     then Some (RefusedBrokerHolding, DBeyondBroker (op_Quantity p) (rf_BrokerHolding f) (rf_WorkingSells f) (g_brokerID g))
     else if op_Side p = OrderSideSell \<and> op_Quantity p > available
     then Some (RefusedSellExceedsHolding, DBeyondHolding (op_Quantity p) (op_InstrumentID p) available)
     else if counted > ml_MaxOrdersPerDecision l \<and> op_Side p = OrderSideBuy
     then Some (RefusedOrderCount, DOrderCount counted (ml_MaxOrdersPerDecision l))
     else if riskReducing g p then None
     else if \<not> o_MarkSet ord then Some (RefusedMissingMark, DMissingMark (op_InstrumentID p))
     else if f_lt (ml_PriceBand l) (rf_MarkDeviation f)
     then Some (RefusedPriceBand, DPriceBand (op_ReferencePrice p) (rf_MarkDeviation f) (o_Mark ord) (ml_PriceBand l))
     else if f_lt (ml_MaxOrderFraction l) (rf_OrderFraction f) then Some (RefusedOrderSize, DOrderSize (rf_OrderFraction f) (ml_MaxOrderFraction l))
     else if increases \<and> unvalued \<noteq> '''' then Some (RefusedUnvaluedHolding, DUnvalued unvalued)
     else if over \<and> g_ira g then Some (RefusedIRAExposure, DExposure (rf_ExposureAfter f) (ml_MaxExposure l) (rf_ExposureBefore f))
     else if over then Some (RefusedMarginExposure, DExposure (rf_ExposureAfter f) (ml_MaxExposure l) (rf_ExposureBefore f))
     else if rf_CashChecked f \<and> f_lt (rf_CashAvailable f) (rf_BuyCost f) then Some (RefusedInsufficientCash, DCash (rf_BuyCost f) (rf_CashAvailable f))
     else None)"

section \<open>Stale snapshots\<close>

definition staleFor :: "gate \<Rightarrow> order_planned \<Rightarrow> gotime \<Rightarrow> stale_detail option" where
  "staleFor g p t = (case g_broker g of
     None \<Rightarrow> None
   | Some s \<Rightarrow> if op_Side p \<noteq> OrderSideSell \<or> \<not> BrokerReadable s BrokerComponentPositions \<or> \<not> BrokerReadable s BrokerComponentOpenOrders then None
       else StaleDetail (g_brokerID g) (bs_AsOf s) t (g_maxSnapshotAge g))"

definition freshCheck :: "gate \<Rightarrow> gotime \<Rightarrow> gate" where
  "freshCheck g t = (case g_broker g of
     None \<Rightarrow> g
   | Some s \<Rightarrow> if BrokerReadable s BrokerComponentPositions \<and> BrokerReadable s BrokerComponentOpenOrders \<and>
         StaleDetail (g_brokerID g) (bs_AsOf s) t (g_maxSnapshotAge g) = None
       then g\<lparr>g_staleOpen := False\<rparr> else g)"

definition openStale :: "gate \<Rightarrow> gate \<times> bool" where
  "openStale g = (g\<lparr>g_staleOpen := True\<rparr>, \<not> g_staleOpen g)"

definition RestoreStaleEpisode :: "gate \<Rightarrow> bool \<Rightarrow> gate" where
  "RestoreStaleEpisode g open' = g\<lparr>g_staleOpen := open'\<rparr>"

section \<open>Pending cash decreases\<close>

definition cashDecrease :: "pending_cash \<Rightarrow> bool" where
  "cashDecrease pc \<longleftrightarrow> rc_Residual (pc_cash pc) < 0"

definition withheldOnCash :: "gate \<Rightarrow> pending_cash option" where
  "withheldOnCash g = find cashDecrease (g_pendingCash g)"

primrec alertFirst :: "pending_cash list \<Rightarrow> pending_cash list" where
  "alertFirst [] = []"
| "alertFirst (pc # pcs) = (if cashDecrease pc then pc\<lparr>pc_alerted := True\<rparr> # pcs else pc # alertFirst pcs)"

section \<open>Sales back to 98 percent at the gate\<close>

definition checkSale :: "gate \<Rightarrow> gate_order \<Rightarrow> risk_figures \<Rightarrow> gate \<times> gate_outcome" where
  "checkSale g ord f = (let p = o_Planned ord in
     if op_Tag p \<notin> g_saleTags g then
       (let out = refuse g ord f RefusedUndecidedOrder (DSaleTag (op_Tag p)) in
        if g_state g \<noteq> StateHalted then haltGate g out (DHaltSale (op_ClientOrderID p) RefusedUndecidedOrder) (op_ClientOrderID p) else (g, out))
     else if op_ClientOrderID p \<notin> g_pending g then
       (g, refuse g ord f RefusedSaleAttempted (DSaleAttempted (op_ClientOrderID p) (op_InstrumentID p)))
     else (let g = g\<lparr>g_pending := g_pending g - {op_ClientOrderID p}\<rparr> in
       if \<not> rf_BrokerSet f \<or> op_Quantity p > subtractPending (rf_BrokerHolding f) (rf_WorkingSells f) then
         (g, refuse g ord f RefusedBrokerHolding (DSaleBeyondBroker (op_Quantity p) (rf_BrokerHolding f) (rf_WorkingSells f) (g_brokerID g)))
       else releaseOrder g ord f))"

section \<open>Checking a plan\<close>

definition checkLimits :: "gate \<Rightarrow> gate_order \<Rightarrow> risk_figures \<Rightarrow> int \<Rightarrow> gate_book \<Rightarrow> string \<Rightarrow> gate \<times> gate_outcome" where
  "checkLimits g ord f counted book unvalued = (let p = o_Planned ord in
     case breach g ord f counted book unvalued of
       None \<Rightarrow> releaseOrder g ord f
     | Some (reason, d) \<Rightarrow> (let out = refuse g ord f reason d;
         again = (if g_ira g \<and> op_Side p = OrderSideBuy \<and> reason = RefusedMissingMark
           then breach g (ord\<lparr>o_MarkSet := True, o_Mark := op_ReferencePrice p\<rparr>) (f\<lparr>rf_MarkDeviation := Fin 0\<rparr>) counted book unvalued
           else Some (reason, d)) in
         case again of
           None \<Rightarrow> (g, out)
         | Some (reason, d) \<Rightarrow> degradeGate g out (op_InstrumentID p) (DDegradeBreach (op_ClientOrderID p) reason d) (op_ClientOrderID p)))"

text \<open>The debit an IRA's buy reserves, and the figures an order is checked on: without a finite debit, the order's own evidence only.\<close>

definition debit :: "gate \<Rightarrow> gate_order \<Rightarrow> (money_error, rat) result" where
  "debit g ord = (let p = o_Planned ord in
     if g_ira g \<and> op_Side p = OrderSideBuy
     then BuyReservation (op_Quantity p) (op_QuantityScale p) (op_LimitPrice p) (g_maxFees g) (g_roundingSlack g) else Inr 0)"

definition orderFigures :: "gate \<Rightarrow> gate_order \<Rightarrow> int \<Rightarrow> gate_book \<Rightarrow> risk_figures \<times> string" where
  "orderFigures g ord planSize book = (let p = o_Planned ord in
     case debit g ord of
       Inl _ \<Rightarrow> (noFigures\<lparr>rf_NetLiquidation := op_NetLiquidation p, rf_ReferencePrice := op_ReferencePrice p, rf_OrdersInDecision := planSize\<rparr>, '''')
     | Inr cost \<Rightarrow> gateFigures g ord planSize book (rnd cost))"

definition checkOrder :: "gate \<Rightarrow> gate_order \<Rightarrow> int \<Rightarrow> int \<Rightarrow> gate_book \<Rightarrow> gate \<times> gate_outcome" where
  "checkOrder g ord planSize counted book = (let p = o_Planned ord; (f, unvalued) = orderFigures g ord planSize book in
     if op_Sale p \<noteq> noSale then checkSale g ord f
     else if g_state g = StateHalted then (g, refuse g ord f RefusedEngineHalted DHalted)
     else if op_Tag p \<notin> g_decided g then
       haltGate g (refuse g ord f RefusedUndecidedOrder (DUndecided (op_Tag p))) (DHaltUndecided (op_ClientOrderID p) RefusedUndecidedOrder) (op_ClientOrderID p)
     else if g_killEngaged g then
       (g\<lparr>g_killAlerted := True\<rparr>, alertRefusal (\<not> g_killAlerted g) (refuse g ord f RefusedKillSwitch (DKillSwitch (g_killID g))))
     else if g_state g = StateDegraded \<and> (op_Side p = OrderSideBuy \<or> op_InstrumentID p \<in> set (g_scope g)) then
       (g, refuse g ord f RefusedEngineDegraded (DDegraded (g_scope g)))
     else if g_state g = StateDegraded \<and> \<not> rf_BrokerSet f then
       (g, refuse g ord f RefusedBrokerHolding DDegradedNoSnapshot)
     else case (if op_Side p = OrderSideBuy then withheldOnCash g else None) of
       Some pc \<Rightarrow> (g\<lparr>g_pendingCash := alertFirst (g_pendingCash g)\<rparr>,
         alertRefusal (\<not> pc_alerted pc) (refuse g ord f RefusedPendingCashDecrease
           (DPendingCash (pc_inputID pc) (neg64 (rc_Residual (pc_cash pc))) (rr_Currency (pc_result pc)))))
     | None \<Rightarrow>
       (case debit g ord of
          Inl e \<Rightarrow> degradeGate g (refuse g ord f RefusedInsufficientCash (DNoFiniteDebit e)) (op_InstrumentID p) (DNoFiniteDebit e) (op_ClientOrderID p)
        | Inr _ \<Rightarrow>
          (case staleFor g p (gb_At book) of
             Some d \<Rightarrow> (let (g, alert) = openStale g in (g, alertRefusal alert (refuse g ord f RefusedStaleBrokerSnapshot (DStale d))))
           | None \<Rightarrow> checkLimits g ord f counted book unvalued)))"

definition orderErrs :: "gate \<Rightarrow> gate_order \<Rightarrow> err list" where
  "orderErrs g ord = (let p = o_Planned ord; probe = (if op_Tag p = '''' then p\<lparr>op_Tag := ''untagged''\<rparr> else p) in
     if checkQuantityScale g (op_QuantityScale p) \<noteq> [] then checkQuantityScale g (op_QuantityScale p)
     else if OrderPlanned_Validate probe \<noteq> [] then OrderPlanned_Validate probe
     else if op_AccountID p \<noteq> g_accountID g then [''order belongs to another account'']
     else if o_PlanID ord = '''' then [''order has no plan ID'']
     else errIf (o_MarkSet ord \<and> (\<not> f_pos (o_Mark ord) \<or> \<not> isFinite (o_Mark ord))) ''a recorded mark must be finite and positive'')"

primrec quantityBounds_loop :: "(string, int) gomap \<Rightarrow> (string, int) gomap \<Rightarrow> gate_order list \<Rightarrow> err list" where
  "quantityBounds_loop up lo [] = []"
| "quantityBounds_loop up lo (ord # plan) = (let p = o_Planned ord; i = op_InstrumentID p in
     if op_Side p = OrderSideBuy then
       (if mget up i 0 > sub64 max64 (op_Quantity p) then [''projected quantity exceeds the fixed-point integer range'']
        else quantityBounds_loop (mput up i (add64 (mget up i 0) (op_Quantity p))) lo plan)
     else
       (if mget lo i 0 < add64 min64 (op_Quantity p) then [''projected quantity is below the fixed-point integer range'']
        else quantityBounds_loop up (mput lo i (sub64 (mget lo i 0) (op_Quantity p))) plan))"

definition quantityBounds :: "gate_book \<Rightarrow> gate_order list \<Rightarrow> err list" where
  "quantityBounds book plan = quantityBounds_loop (gb_Holdings book) (gb_Holdings book) plan"

definition applyRelease :: "gate_book \<Rightarrow> gate_order \<Rightarrow> gate_outcome \<Rightarrow> gate_book" where
  "applyRelease book ord out = (case out_Released out of
     None \<Rightarrow> book
   | Some r \<Rightarrow> (let p = o_Planned ord; i = op_InstrumentID p; book = book\<lparr>gb_Prices := mput (gb_Prices book) i (op_ReferencePrice p)\<rparr> in
       if op_Side p = OrderSideSell then book\<lparr>gb_Holdings := mput (gb_Holdings book) i (sub64 (mget (gb_Holdings book) i 0) (op_Quantity p))\<rparr>
       else book\<lparr>gb_Holdings := mput (gb_Holdings book) i (add64 (mget (gb_Holdings book) i 0) (op_Quantity p)),
              gb_CashAvailable := f_sub (gb_CashAvailable book) (rf_BuyCost (rel_Figures r))\<rparr>))"

primrec checkPlan :: "gate \<Rightarrow> int \<Rightarrow> int \<Rightarrow> gate_book \<Rightarrow> gate_order list \<Rightarrow> gate \<times> gate_outcome list" where
  "checkPlan g planSize counted book [] = (g, [])"
| "checkPlan g planSize counted book (ord # plan) = (let (g, out) = checkOrder g ord planSize counted book;
     (g, outs) = checkPlan g planSize counted (applyRelease book ord out) plan in (g, out # outs))"

definition planErrs :: "gate \<Rightarrow> gate_book \<Rightarrow> gate_order list \<Rightarrow> err list" where
  "planErrs g book plan =
     (if checkQuantityScale g (gb_QuantityScale book) \<noteq> [] then checkQuantityScale g (gb_QuantityScale book)
      else case filter (\<lambda>es. es \<noteq> []) (map (orderErrs g) plan) of
        es # _ \<Rightarrow> es
      | [] \<Rightarrow> if quantityBounds book plan \<noteq> [] then quantityBounds book plan
          else errIf (gb_At book = 0) ''a check needs its orders' planned time'')"

definition Check :: "gate \<Rightarrow> gate_book \<Rightarrow> gate_order list \<Rightarrow> (err list, gate \<times> gate_outcome list) result" where
  "Check g book plan = joinErrs (planErrs g book plan)
     (let g = freshCheck g (gb_At book);
          counted = gb_PriorCounted book + int (length (filter (\<lambda>ord. \<not> riskReducing g (o_Planned ord)) plan)) in
      Inr (checkPlan g (gb_PriorOrders book + int (length plan)) counted book plan))"

end
