(* ===== verification/RiskStates.thy ===== *)
theory RiskStates
  imports RiskGate
begin

text \<open>
  \<open>risklimit/states.go\<close> and the gate's half of \<open>risklimit/pending.go\<close>: the kill switch, broker snapshots
  and the margin-cushion alarm, the sale back to 98 percent with its one attempt, and the venue's reports
  on released orders.
\<close>

section \<open>The kill switch\<close>

definition SetKillSwitch :: "gate \<Rightarrow> string \<Rightarrow> kill_switch_payload \<Rightarrow> (err list, gate) result" where
  "SetKillSwitch g i p =
     joinErrs (KillSwitch_Validate p)
     (failIf (i = '''') [''a kill switch input needs its envelope ID'']
     (failIf (ks_AccountID p \<noteq> g_accountID g) [''kill switch for another account'']
     (failIf (g_lastKillSet g \<and> ks_AsOf p < g_lastKillAt g) [''kill switch states a time earlier than the one already applied'']
     (let g = g\<lparr>g_lastKill := i, g_lastKillAt := ks_AsOf p, g_lastKillSet := True\<rparr> in
      Inr (if ks_Engaged p \<and> \<not> g_killEngaged g
           then g\<lparr>g_killEngaged := True, g_killID := i, g_killAlerted := False, g_saleTags := insert i (g_saleTags g)\<rparr>
           else if \<not> ks_Engaged p then g\<lparr>g_killEngaged := False, g_killID := ''''\<rparr> else g)))))"

section \<open>What refuses an exit, and what can size a sale\<close>

definition refusesExit :: "gate \<Rightarrow> string \<Rightarrow> bool" where
  "refusesExit g instrumentID \<longleftrightarrow> g_state g = StateHalted \<or> (g_state g = StateDegraded \<and> instrumentID \<in> set (g_scope g)) \<or> g_killEngaged g"

definition sizable :: "broker_snapshot_payload \<Rightarrow> string \<Rightarrow> bool" where
  "sizable s instrumentID \<longleftrightarrow> list_all (BrokerReadable s) sale_components \<and> f_pos (bs_NetLiquidation s) \<and>
     (case BrokerSnapshot_Position s instrumentID of None \<Rightarrow> True | Some p \<Rightarrow> bp_MarkSet p \<and> f_pos (bp_Mark p))"

definition retriesExit :: "gate \<Rightarrow> broker_snapshot_payload \<Rightarrow> bool" where
  "retriesExit g s \<longleftrightarrow> g_exitRetry g \<noteq> '''' \<and> refusesExit g (g_exitRetry g) \<and> sizable s (g_exitRetry g)"

definition armed :: "sale_withheld option \<Rightarrow> string \<Rightarrow> bool" where
  "armed w client \<longleftrightarrow> (case w of None \<Rightarrow> False | Some x \<Rightarrow> sw_ClientOrderID x = client)"

definition lapse :: "sale_withheld \<Rightarrow> detail \<Rightarrow> sale_withheld" where
  "lapse w why = w\<lparr>sw_Reason := SaleWithheldLapsed, sw_Alert := False, sw_Detail := DLapsed why\<rparr>"

definition lapseExit :: "gate \<Rightarrow> detail \<Rightarrow> gate \<times> sale_withheld option" where
  "lapseExit g why = (case g_exitWithheld g of
     None \<Rightarrow> (g\<lparr>g_exitRetry := ''''\<rparr>, None)
   | Some w \<Rightarrow> (let g = g\<lparr>g_exitRetry := '''', g_exitWithheld := None\<rparr> in
       (g, if armed (g_urgentWithheld g) (sw_ClientOrderID w) then None else Some (lapse w why))))"

definition LapseExitSale :: "gate \<Rightarrow> gate \<times> sale_withheld option" where
  "LapseExitSale g = (if g_exitRetry g = '''' then (g, None) else lapseExit g DDecisionNoLonger)"

definition disarm :: "gate \<Rightarrow> string \<Rightarrow> gate" where
  "disarm g client = (let
     g = (if armed (g_urgentWithheld g) client then g\<lparr>g_urgentRetry := False, g_urgentWithheld := None\<rparr> else g) in
     if armed (g_exitWithheld g) client then g\<lparr>g_exitRetry := '''', g_exitWithheld := None\<rparr> else g)"

section \<open>The margin-cushion alarm\<close>

definition noReadingSince :: "gate \<Rightarrow> gotime" where
  "noReadingSince g = (if g_lastReadingSet g then g_lastReading g else g_firstBroker g)"

definition levelOf :: "margin_limits \<Rightarrow> f64 \<Rightarrow> alarm_level" where
  "levelOf l ratio = (if f_lt ratio (ml_ExcessLiquidityUrgent l) then MarginAlarmUrgent
     else if f_lt ratio (ml_ExcessLiquidityWarning l) then MarginAlarmWarning else MarginAlarmClear)"

definition bareAlarm :: "gate \<Rightarrow> string \<Rightarrow> broker_snapshot_payload \<Rightarrow> margin_alarm" where
  "bareAlarm g i s = \<lparr>ma_AccountID = g_accountID g, ma_SnapshotID = i, ma_AsOf = bs_AsOf s, ma_Level = NoAlarmLevel, ma_Cause = NoAlarmCause,
     ma_ExcessLiquidity = Fin 0, ma_NetLiquidation = Fin 0, ma_Ratio = Fin 0, ma_ReadingSet = False, ma_LastReadingAt = 0, ma_LastReadingSet = False,
     ma_Warning = ml_ExcessLiquidityWarning (g_limits g), ma_Urgent = ml_ExcessLiquidityUrgent (g_limits g),
     ma_StaleMinutes = ml_ExcessLiquidityStaleMinutes (g_limits g), ma_Detail = NoDetail\<rparr>"

definition alarmFor :: "gate \<Rightarrow> string \<Rightarrow> broker_snapshot_payload \<Rightarrow> margin_alarm \<times> bool" where
  "alarmFor g i s = (let a = bareAlarm g i s; l = g_limits g;
     since = (if g_broker g = None then bs_AsOf s else noReadingSince g);
     stale = ml_ExcessLiquidityStaleMinutes l * MinuteDuration;
     nl = AlarmNetLiquidation s;
     reads = BrokerReadable s BrokerComponentExcessLiquidity \<and> BrokerReadable s BrokerComponentNetLiquidation in
     if reads \<and> \<not> f_pos nl then
       (a\<lparr>ma_Cause := MarginAlarmCauseNonPositive, ma_ReadingSet := True, ma_Level := MarginAlarmUrgent, ma_ExcessLiquidity := bs_ExcessLiquidity s,
          ma_NetLiquidation := nl, ma_Detail := DAlarmNonPositive nl (bs_ExcessLiquidity s), ma_LastReadingAt := bs_AsOf s, ma_LastReadingSet := True\<rparr>, True)
     else if reads then
       (let ratio = f_div (bs_ExcessLiquidity s) nl in
        (a\<lparr>ma_Cause := MarginAlarmCauseRatio, ma_ReadingSet := True, ma_ExcessLiquidity := bs_ExcessLiquidity s, ma_NetLiquidation := nl, ma_Ratio := ratio,
           ma_Level := levelOf l ratio, ma_Detail := DAlarmRatio (bs_ExcessLiquidity s) ratio nl (ml_ExcessLiquidityWarning l) (ml_ExcessLiquidityUrgent l),
           ma_LastReadingAt := bs_AsOf s, ma_LastReadingSet := True\<rparr>, True))
     else if bs_MarketOpen s \<and> time_sub (bs_AsOf s) since \<ge> stale then
       (a\<lparr>ma_Cause := MarginAlarmCauseNoReading, ma_Level := MarginAlarmUrgent,
          ma_Detail := (if g_lastReadingSet g then DAlarmNoReading (ml_ExcessLiquidityStaleMinutes l) else DAlarmNoFirstReading (ml_ExcessLiquidityStaleMinutes l)),
          ma_LastReadingAt := g_lastReading g, ma_LastReadingSet := g_lastReadingSet g\<rparr>, True)
     else (a, False))"

definition fires :: "gate \<Rightarrow> broker_snapshot_payload \<Rightarrow> alarm_level \<Rightarrow> bool \<Rightarrow> bool \<Rightarrow> bool \<times> bool" where
  "fires g s level changed retryExit = (let
     urgent = (if changed then level = MarginAlarmUrgent
       else g_alarmLevel g = MarginAlarmUrgent \<and> g_urgentRetry g \<and> g_urgentInstrument g \<noteq> '''' \<and> sizable s (g_urgentInstrument g)) in
     (urgent, retryExit \<and> \<not> urgent))"

section \<open>Broker snapshots\<close>

record observation =
  obs_Alarm :: "margin_alarm option"
  obs_AlarmID :: string
  obs_Urgent :: bool
  obs_RetryExit :: bool
  obs_Lapsed :: "sale_withheld list"

definition noObservation :: observation where
  "noObservation = \<lparr>obs_Alarm = None, obs_AlarmID = '''', obs_Urgent = False, obs_RetryExit = False, obs_Lapsed = []\<rparr>"

definition checkBroker :: "gate \<Rightarrow> string \<Rightarrow> broker_snapshot_payload \<Rightarrow> err list" where
  "checkBroker g i s =
     (if checkQuantityScale g (bs_QuantityScale s) \<noteq> [] then checkQuantityScale g (bs_QuantityScale s)
      else if BrokerSnapshot_Validate s \<noteq> [] then BrokerSnapshot_Validate s
      else if i = '''' then [''a broker snapshot needs its envelope ID'']
      else if bs_AccountID s \<noteq> g_accountID g then [''broker snapshot for another account'']
      else if (case g_broker g of None \<Rightarrow> False | Some b \<Rightarrow> \<not> bs_AsOf s > bs_AsOf b) then [''broker snapshot does not follow the last'']
      else errIf (refuseSharedVenue (g_ledger g) (rows (bs_OpenOrders s))) ''broker snapshot lists a sell under a broker order ID another sell carries'')"

definition positionsMap :: "broker_snapshot_payload \<Rightarrow> (string, int) gomap" where
  "positionsMap s = foldl (\<lambda>m p. mput m (bp_InstrumentID p) (bp_Quantity p)) [] (rows (bs_Positions s))"

definition recordBroker :: "gate \<Rightarrow> broker_snapshot_payload \<Rightarrow> gate" where
  "recordBroker g next = (let
     held = (if BrokerReadable next BrokerComponentPositions then Some (positionsMap next) else None);
     orders = BrokerReadable next BrokerComponentOpenOrders;
     (l, v) = ledger_snapshot (g_ledger g) (bs_AsOf next) held (held \<noteq> None \<and> orders) in
     g\<lparr>g_brokerView := v, g_ledger := (if orders then listOpenOrders l v (rows (bs_OpenOrders next)) else l)\<rparr>)"

definition takeBroker :: "gate \<Rightarrow> string \<Rightarrow> broker_snapshot_payload \<Rightarrow> gate" where
  "takeBroker g i s = (let g = recordBroker g s; g = (if g_broker g = None then g\<lparr>g_firstBroker := bs_AsOf s\<rparr> else g) in
     g\<lparr>g_broker := Some s, g_brokerID := i, g_staleOpen := False\<rparr>)"

definition raiseAlarm :: "gate \<Rightarrow> string \<Rightarrow> margin_alarm \<Rightarrow> bool \<Rightarrow> bool \<Rightarrow> sale_withheld list \<Rightarrow> gate \<times> observation" where
  "raiseAlarm g i alarm urgent exit lapsed = (let
     ends = (case g_urgentWithheld g of
         Some w \<Rightarrow> if g_urgentRetry g \<and> ma_Level alarm \<noteq> MarginAlarmUrgent \<and> \<not> armed (g_exitWithheld g) (sw_ClientOrderID w)
           then [lapse w (DAlarmNoLonger i (case ma_Level alarm of MarginAlarmWarning \<Rightarrow> ''warning'' | MarginAlarmClear \<Rightarrow> ''clear'' | _ \<Rightarrow> ''''))] else []
       | None \<Rightarrow> []);
     g = (if g_urgentRetry g then g\<lparr>g_urgentRetry := False, g_urgentWithheld := None\<rparr> else g);
     alarmID = ''margin-alarm:'' @ g_accountID g @ '':'' @ i;
     g = g\<lparr>g_alarmLevel := ma_Level alarm\<rparr>;
     g = (if ma_Level alarm = MarginAlarmUrgent then g\<lparr>g_alarmID := alarmID, g_saleTags := insert alarmID (g_saleTags g)\<rparr> else g) in
     (g, \<lparr>obs_Alarm = Some alarm, obs_AlarmID = alarmID, obs_Urgent = urgent, obs_RetryExit = exit, obs_Lapsed = lapsed @ ends\<rparr>))"

text \<open>The alarm is computed with the snapshot already taken, so \<open>firstBroker\<close> holds its own time when it is the run's first.\<close>

definition ObserveBroker :: "gate \<Rightarrow> string \<Rightarrow> broker_snapshot_payload \<Rightarrow> (err list, gate \<times> observation) result" where
  "ObserveBroker g i s = joinErrs (checkBroker g i s)
     (let g = takeBroker g i s in
      if g_ira g then Inr (g, noObservation)
      else (let retryExit = retriesExit g s;
        (g, lapsed) = (if g_exitRetry g \<noteq> '''' \<and> \<not> refusesExit g (g_exitRetry g)
            then (let (g, l) = lapseExit g (DExitNoLonger i (g_exitRetry g)) in (g, case l of None \<Rightarrow> [] | Some x \<Rightarrow> [x])) else (g, []));
        (alarm, decided) = alarmFor g i s;
        g = (if ma_ReadingSet alarm then g\<lparr>g_lastReading := bs_AsOf s, g_lastReadingSet := True\<rparr> else g);
        changed = decided \<and> ma_Level alarm \<noteq> g_alarmLevel g;
        (urgent, exit) = fires g s (ma_Level alarm) changed retryExit in
        Inr (if \<not> changed then (g, noObservation\<lparr>obs_Urgent := urgent, obs_RetryExit := exit, obs_Lapsed := lapsed\<rparr>)
             else raiseAlarm g i alarm urgent exit lapsed)))"

definition BrokerFires :: "gate \<Rightarrow> string \<Rightarrow> broker_snapshot_payload \<Rightarrow> (err list, bool \<times> bool) result" where
  "BrokerFires g i s = joinErrs (checkBroker g i s)
     (if g_ira g then Inr (False, False)
      else (let (alarm, decided) = alarmFor g i s in
        Inr (fires g s (ma_Level alarm) (decided \<and> ma_Level alarm \<noteq> g_alarmLevel g) (retriesExit g s))))"

section \<open>The sale back to 98 percent\<close>

definition saleKey :: "string \<Rightarrow> string \<Rightarrow> string" where
  "saleKey tag instrumentID = tag @ NUL @ instrumentID"

definition saleAttemptedFor :: "gate \<Rightarrow> string \<Rightarrow> string \<Rightarrow> bool" where
  "saleAttemptedFor g tag instrumentID \<longleftrightarrow> (case g_attempts g tag of None \<Rightarrow> False | Some a \<Rightarrow> sa_earlier a \<or> instrumentID \<in> sa_instruments a)"

definition restoredRetired :: "gate \<Rightarrow> string \<Rightarrow> int" where
  "restoredRetired g tag = (case g_attempts g tag of None \<Rightarrow> 0 | Some a \<Rightarrow> sa_retired a)"

definition recordAttempt :: "gate \<Rightarrow> string \<Rightarrow> string \<Rightarrow> gate" where
  "recordAttempt g tag instrumentID = (let
     a = (case g_attempts g tag of None \<Rightarrow> \<lparr>sa_earlier = False, sa_retired = 0, sa_instruments = {}\<rparr> | Some a \<Rightarrow> a) in
     g\<lparr>g_attempts := (g_attempts g)(tag \<mapsto> a\<lparr>sa_instruments := insert instrumentID (sa_instruments a)\<rparr>)\<rparr>)"

definition saleTag :: "gate \<Rightarrow> sale_trigger \<Rightarrow> string \<Rightarrow> string \<times> sale_kind" where
  "saleTag g trigger instrumentID =
     (if g_state g = StateHalted \<or> (g_state g = StateDegraded \<and> instrumentID \<in> set (g_scope g)) then (g_incident g, SaleKindIncident)
      else if g_killEngaged g then (g_killID g, SaleKindIncident)
      else if trigger = SaleTriggerMarginUrgent \<and> g_alarmLevel g = MarginAlarmUrgent then (g_alarmID g, SaleKindUrgent)
      else ('''', NoSaleKind))"

definition SaleTag :: "gate \<Rightarrow> sale_trigger \<Rightarrow> string \<Rightarrow> string" where
  "SaleTag g trigger instrumentID = (if g_ira g then '''' else fst (saleTag g trigger instrumentID))"

definition saleClient :: "sale \<Rightarrow> string" where
  "saleClient s = (case s of SaleOrder p \<Rightarrow> op_ClientOrderID p | SaleWithheld w \<Rightarrow> sw_ClientOrderID w)"

definition saleSpends :: "sale \<Rightarrow> bool" where
  "saleSpends s = (case s of SaleOrder _ \<Rightarrow> True | SaleWithheld w \<Rightarrow> Withheld_Attempted w)"

text \<open>What a decided sale leaves in the gate: the attempt, the stale episode, and the trigger's retry.\<close>

definition settleSale :: "gate \<Rightarrow> string \<Rightarrow> sale_trigger \<Rightarrow> string \<Rightarrow> gotime \<Rightarrow> sale \<Rightarrow> gate \<times> sale" where
  "settleSale g tag trigger instrumentID t s = (let
     g = (if saleSpends s then recordAttempt g tag instrumentID else g);
     g = (case s of SaleOrder p \<Rightarrow> g\<lparr>g_pending := insert (op_ClientOrderID p) (g_pending g)\<rparr> | _ \<Rightarrow> g);
     g = freshCheck g t;
     (g, s) = (case s of
         SaleWithheld w \<Rightarrow> if sw_Reason w = SaleWithheldStaleBrokerSnapshot
           then (let (g, alert) = openStale g in (g, SaleWithheld (w\<lparr>sw_Alert := alert\<rparr>))) else (g, s)
       | SaleOrder _ \<Rightarrow> (g, s));
     withheld = (case s of
         SaleWithheld w \<Rightarrow> if sw_Reason w = SaleWithheldStaleBrokerSnapshot \<or> sw_Reason w = SaleWithheldNotPositive then Some w else None
       | SaleOrder _ \<Rightarrow> None);
     g = (if trigger = SaleTriggerMarginUrgent
       then g\<lparr>g_urgentRetry := (withheld \<noteq> None), g_urgentInstrument := instrumentID, g_urgentWithheld := withheld\<rparr>
       else g\<lparr>g_exitRetry := (if withheld \<noteq> None then instrumentID else ''''), g_exitWithheld := withheld\<rparr>) in
     (if saleSpends s then disarm g (saleClient s) else g, s))"

definition Sale :: "gate \<Rightarrow> sale_trigger \<Rightarrow> string \<Rightarrow> gotime \<Rightarrow> f64 \<Rightarrow> f64 \<Rightarrow> (err list, gate \<times> sale option) result" where
  "Sale g trigger instrumentID t target band =
     failIf (trigger \<noteq> SaleTriggerExit \<and> trigger \<noteq> SaleTriggerMarginUrgent) [''sale trigger is not exit or margin-urgent'']
     (if g_ira g then Inr (g, None)
      else (let (tag, kind) = saleTag g trigger instrumentID; retired = add64 (restoredRetired g tag) (g_retiredSales g (saleKey tag instrumentID)) in
        if tag = '''' then Inr (g, None)
        else if saleAttemptedFor g tag instrumentID then Inr (disarm g (SaleAttemptClientOrderID tag instrumentID retired), None)
        else bindr (PlanSale \<lparr>si_AccountID = g_accountID g, si_Tag = tag, si_InstrumentID = instrumentID, si_Kind = kind, si_Trigger = trigger,
               si_Target = target, si_PriceBand = band, si_SnapshotID = g_brokerID g, si_Snapshot = g_broker g, si_Recognised = g_released g,
               si_WorkingSells = (case brokerHolding g instrumentID of None \<Rightarrow> 0 | Some (_, working) \<Rightarrow> working), si_At = t,
               si_MaxSnapshotAge = g_maxSnapshotAge g, si_Retired = retired\<rparr>) (\<lambda>s.
          let (g, s) = settleSale g tag trigger instrumentID t s in Inr (g, Some s))))"

definition RetireSale :: "gate \<Rightarrow> string \<Rightarrow> gate \<times> (string \<times> int) option" where
  "RetireSale g clientOrderID = (case map_of (g_orders g) clientOrderID of
     None \<Rightarrow> (g, None)
   | Some ord \<Rightarrow> if op_Sale (ro_planned ord) = noSale then (g, None)
       else (let tag = op_Tag (ro_planned ord); instrumentID = op_InstrumentID (ro_planned ord); k = saleKey tag instrumentID;
         g = g\<lparr>g_attempts := (g_attempts g)(tag := map_option (\<lambda>a. a\<lparr>sa_instruments := sa_instruments a - {instrumentID}\<rparr>) (g_attempts g tag)),
               g_retiredSales := (g_retiredSales g)(k := add64 (g_retiredSales g k) 1)\<rparr>;
         attempt = add64 (restoredRetired g tag) (g_retiredSales g k);
         g = (if sf_Trigger (op_Sale (ro_planned ord)) = SaleTriggerMarginUrgent \<and> g_alarmLevel g = MarginAlarmUrgent
              then g\<lparr>g_urgentRetry := True, g_urgentInstrument := instrumentID, g_urgentWithheld := None\<rparr>
              else if sf_Trigger (op_Sale (ro_planned ord)) = SaleTriggerExit \<and> refusesExit g instrumentID
              then g\<lparr>g_exitRetry := instrumentID, g_exitWithheld := None\<rparr> else g) in
         (g, Some (tag, attempt))))"

definition RestoredSaleAttemptOf :: "gate \<Rightarrow> string \<Rightarrow> (string \<times> bool \<times> int) option" where
  "RestoredSaleAttemptOf g instrumentID = (let
     incident = (if g_restored g = '''' \<and> (g_state g = StateHalted \<or> (g_state g = StateDegraded \<and> instrumentID \<in> set (g_scope g)))
       then g_incident g else g_restored g) in
     if incident = '''' then None else Some (incident, saleAttemptedFor g incident instrumentID, restoredRetired g incident))"

record own_sale =
  os_Order :: order_planned
  os_Attempt :: int
  os_VenueOrderID :: string
  os_Fills :: "target_weight_fill list"
  os_Ended :: gotime
  os_EndStatus :: lifecycle_status

definition OwnSale_Live :: "own_sale \<Rightarrow> bool" where
  "OwnSale_Live s \<longleftrightarrow> os_Ended s = 0 \<and> foldl (\<lambda>n f. addPending n (tf_Quantity f)) 0 (os_Fills s) < op_Quantity (os_Order s)"

definition OwnReleasedSale :: "gate \<Rightarrow> string \<Rightarrow> string \<Rightarrow> own_sale option" where
  "OwnReleasedSale g tag instrumentID = (case g_attempts g tag of
     None \<Rightarrow> None
   | Some a \<Rightarrow> if sa_earlier a \<or> instrumentID \<notin> sa_instruments a then None
       else (let attempt = add64 (restoredRetired g tag) (g_retiredSales g (saleKey tag instrumentID));
                 i = SaleAttemptClientOrderID tag instrumentID attempt in
         case (map_of (g_orders g) i, map_of (sl_sells (g_ledger g)) i) of
           (Some ord, Some adr) \<Rightarrow> if op_Sale (ro_planned ord) = noSale then None
             else (let s = sell_at (g_ledger g) adr in
               Some \<lparr>os_Order = ro_planned ord, os_Attempt = add64 attempt 1, os_VenueOrderID = ls_venueID s, os_Fills = ro_fills ord,
                 os_Ended = (if ls_ended s then ls_end s else 0), os_EndStatus = (if ls_ended s then ls_endStatus s else NoLifecycleStatus)\<rparr>)
         | _ \<Rightarrow> None))"

definition OwnLiveSale :: "gate \<Rightarrow> string \<Rightarrow> string \<Rightarrow> own_sale option" where
  "OwnLiveSale g tag instrumentID = (case OwnReleasedSale g tag instrumentID of None \<Rightarrow> None | Some s \<Rightarrow> if OwnSale_Live s then Some s else None)"

section \<open>Account snapshots and venue reports\<close>

definition ObserveAccount :: "gate \<Rightarrow> account_positions_snapshot \<Rightarrow> (err list, gate) result" where
  "ObserveAccount g p = joinErrs (checkQuantityScale g (aps_QuantityScale p))
     (let (l, v) = ledger_snapshot (g_ledger g) (aps_AsOf p) (Some (observedMap (aps_Positions p))) True in
      Inr (g\<lparr>g_ledger := l, g_account := v\<rparr>))"

record fill_order =
  fo_AccountID :: string
  fo_ClientOrderID :: string
  fo_InstrumentID :: string
  fo_Side :: string
  fo_Quantity :: int
  fo_Reported :: int
  fo_QuantityScale :: int

definition fillOrder :: "released_order \<Rightarrow> fill_order" where
  "fillOrder ord = (let p = ro_planned ord in \<lparr>fo_AccountID = op_AccountID p, fo_ClientOrderID = op_ClientOrderID p, fo_InstrumentID = op_InstrumentID p,
     fo_Side = op_Side p, fo_Quantity = op_Quantity p, fo_Reported = ro_reported ord, fo_QuantityScale = op_QuantityScale p\<rparr>)"

definition checkReport :: "string \<Rightarrow> string \<Rightarrow> string \<Rightarrow> string \<Rightarrow> fill_order option \<Rightarrow> err list" where
  "checkReport account instrument side gateAccount ord =
     (if account \<noteq> gateAccount then [''report for another account'']
      else case ord of None \<Rightarrow> [''report names an order the gate never released'']
        | Some r \<Rightarrow> errIf (fo_InstrumentID r \<noteq> instrument \<or> fo_Side r \<noteq> side) ''report describes another instrument or side'')"

definition CheckFill :: "target_weight_fill \<Rightarrow> string \<Rightarrow> fill_order option \<Rightarrow> (string \<Rightarrow> target_weight_fill option) \<Rightarrow> (err list, bool) result" where
  "CheckFill p account ord applied = joinErrs (Fill_Validate p)
     (case applied (tf_FillID p) of
        Some seen \<Rightarrow> failIf (\<not> SameExecution seen p) [''fill id is reused for a different execution''] (Inr True)
      | None \<Rightarrow> joinErrs (checkReport (tf_AccountID p) (tf_InstrumentID p) (tf_Side p) account ord)
          (case ord of None \<Rightarrow> Inl [''report names an order the gate never released'']
           | Some r \<Rightarrow> failIf (tf_QuantityScale p \<noteq> fo_QuantityScale r) [''fill quantity scale differs from order scale'']
               (failIf (tf_Quantity p > sub64 (fo_Quantity r) (fo_Reported r)) [''fill takes the order past its shares''] (Inr False))))"

definition recordFill :: "gate \<Rightarrow> target_weight_fill \<Rightarrow> released_order \<Rightarrow> gate" where
  "recordFill g p r = g\<lparr>
     g_orders := mput (g_orders g) (tf_ClientOrderID p) (r\<lparr>ro_reported := add64 (ro_reported r) (tf_Quantity p), ro_fills := ro_fills r @ [p]\<rparr>),
     g_fills := (g_fills g)(tf_FillID p \<mapsto> p), g_changes := g_changes g @ [FillChange p], g_classified := None,
     g_ledger := (case map_of (sl_sells (g_ledger g)) (tf_ClientOrderID p) of None \<Rightarrow> g_ledger g
       | Some adr \<Rightarrow> upd_sell (g_ledger g) adr (ls_fills_update (\<lambda>xs. xs @ [\<lparr>st_at = tf_FilledAt p, st_by = 0, st_quantity = tf_Quantity p\<rparr>])))\<rparr>"

definition ObserveFill :: "gate \<Rightarrow> target_weight_fill \<Rightarrow> (err list, gate) result" where
  "ObserveFill g p = joinErrs (checkQuantityScale g (tf_QuantityScale p))
     (let ord = map_of (g_orders g) (tf_ClientOrderID p) in
      bindr (CheckFill p (g_accountID g) (map_option fillOrder ord) (g_fills g)) (\<lambda>redelivery.
        if redelivery then Inr g
        else case ord of None \<Rightarrow> Inl [''report names an order the gate never released''] | Some r \<Rightarrow> Inr (recordFill g p r)))"

definition Filled :: "gate \<Rightarrow> string \<Rightarrow> int" where
  "Filled g clientOrderID = (case map_of (g_orders g) clientOrderID of None \<Rightarrow> 0 | Some r \<Rightarrow> ro_reported r)"

definition FillsOf :: "gate \<Rightarrow> string \<Rightarrow> target_weight_fill list" where
  "FillsOf g clientOrderID = (case map_of (g_orders g) clientOrderID of None \<Rightarrow> [] | Some r \<Rightarrow> ro_fills r)"

definition endSell :: "limit_order_lifecycle \<Rightarrow> ledger_sell \<Rightarrow> ledger_sell" where
  "endSell p s = (let e = trunc_sec (lc_OccurredAt p) in
     if \<not> ls_ended s \<or> e < ls_end s then s\<lparr>ls_ended := True, ls_end := e, ls_endStatus := lc_Status p\<rparr> else s)"

definition ObserveLifecycle :: "gate \<Rightarrow> limit_order_lifecycle \<Rightarrow> (err list, gate) result" where
  "ObserveLifecycle g p = joinErrs (checkQuantityScale g (lc_QuantityScale p))
     (joinErrs (Lifecycle_Validate p)
     (let ord = map_of (g_orders g) (lc_ClientOrderID p) in
      joinErrs (checkReport (lc_AccountID p) (lc_InstrumentID p) (lc_Side p) (g_accountID g) (map_option fillOrder ord))
      (case ord of None \<Rightarrow> Inl [''report names an order the gate never released'']
       | Some r \<Rightarrow>
           failIf (lc_Quantity p \<noteq> op_Quantity (ro_planned r) \<or> \<not> SameLimitPrice (lc_LimitPrice p) (op_LimitPrice (ro_planned r)))
             [''a lifecycle report describes another quantity or limit'']
           (case map_of (sl_sells (g_ledger g)) (lc_ClientOrderID p) of
              None \<Rightarrow> Inr g
            | Some adr \<Rightarrow>
                failIf (venueHolder (g_ledger g) (lc_OrderID p) (lc_ClientOrderID p) \<noteq> '''') [''a venue order ID names one order'']
                (let l = learnVenue (g_ledger g) adr (lc_OrderID p) in
                 Inr (g\<lparr>g_ledger := (if Lifecycle_Terminal p then upd_sell l adr (endSell p) else l)\<rparr>))))))"

end
