(* ===== verification/RiskReconcile.thy ===== *)
theory RiskReconcile
  imports RiskStates
begin

text \<open>
  \<open>risklimit/reconcile.go\<close>: the journal's book and the facts that bridge it, the classification of a
  reconciliation and of a close snapshot with the move of the engine state each has, and the cash
  differences that wait for the Flex reader. A reason, a difference and a detail are the values of
  \<open>ReconcileEvents\<close>, so two reasons are the same exactly when the source's sentences are; the sentence
  of an engine state names its reconciliation, whose own detail the result beside it carries.
\<close>

section \<open>A classification's consequence\<close>

record verdict =
  rn_Result :: recon_result
  rn_ResultID :: string
  rn_State :: "engine_state_payload option"
  rn_StateSchemaVersion :: int
  rn_StateID :: string

record reconciliation = verdict +
  rn_Settled :: "verdict list"

definition haltState :: "recon_result \<Rightarrow> engine_state_payload" where
  "haltState r = \<lparr>es_State = StateHalted, es_Reason = EngineStateReasonReconciliationUnverifiable, es_Detail = DReconciliation (rr_ReconciliationID r),
     es_ScopeInstrumentIDs = [], es_ScopeOrderIDs = [], es_ScopeCashComponents = []\<rparr>"

definition degradeState :: "recon_result \<Rightarrow> string list \<Rightarrow> string list \<Rightarrow> engine_state_payload" where
  "degradeState r scope cash = \<lparr>es_State = StateDegraded, es_Reason = EngineStateReasonReconciliationUnexplained,
     es_Detail = DReconciliation (rr_ReconciliationID r), es_ScopeInstrumentIDs = scope, es_ScopeOrderIDs = [], es_ScopeCashComponents = cash\<rparr>"

definition consequence :: "gate \<Rightarrow> string \<Rightarrow> recon_result \<Rightarrow> gate \<times> verdict" where
  "consequence g i r = (let
     v = \<lparr>rn_Result = r, rn_ResultID = ''reconciliation-result:'' @ g_accountID g @ '':'' @ i, rn_State = None, rn_StateSchemaVersion = 0, rn_StateID = ''''\<rparr>;
     g = (if rr_Action r = ReconciliationActionHalt then g\<lparr>g_haltedOn := g_haltedOn g \<union> set (rr_Unverifiable r)\<rparr> else g);
     scope = union_ids (g_scope g) (rr_ScopeInstrumentIDs r);
     cash = union_ids (g_cashScope g) (rr_ScopeCashComponents r) in
     if rr_Action r = ReconciliationActionHalt \<and> g_state g \<noteq> StateHalted then
       (let (g, stateID) = moveState (g\<lparr>g_scope := [], g_cashScope := []\<rparr>) StateHalted i in
        (g, v\<lparr>rn_State := Some (haltState r), rn_StateSchemaVersion := EngineStateScopedVersion, rn_StateID := stateID\<rparr>))
     else if rr_Action r = ReconciliationActionDegrade \<and> g_state g \<noteq> StateHalted \<and>
         \<not> (g_state g = StateDegraded \<and> scope = g_scope g \<and> cash = g_cashScope g) then
       (let (g, stateID) = moveState (g\<lparr>g_scope := scope, g_cashScope := cash\<rparr>) StateDegraded i in
        (g, v\<lparr>rn_State := Some (degradeState r scope cash), rn_StateSchemaVersion := EngineStateScopedVersion, rn_StateID := stateID\<rparr>))
     else (g, v))"

section \<open>The book\<close>

definition SetBook :: "gate \<Rightarrow> book \<Rightarrow> (err list, gate) result" where
  "SetBook g b = joinErrs (checkQuantityScale g (bk_QuantityScale b))
     (Inr (g\<lparr>g_book := Some b, g_classified := None, g_latestReadAsOf := 0, g_reported := [], g_reportedAsOf := []\<rparr>))"

definition classifiedStandsFor :: "gate \<Rightarrow> book \<Rightarrow> bool" where
  "classifiedStandsFor g b = (case (g_classified g, g_book g) of
     (Some seen, Some book) \<Rightarrow> mequal seen (bk_Positions b) \<and>
       (let lo = min (g_classifiedAsOf g) (bk_AsOf b); hi = max (g_classifiedAsOf g) (bk_AsOf b) in
        list_all (\<lambda>c. let t = trunc_sec (ch_At c) in
          ch_Kind c = ChangeCashMovement \<or> t < bk_AsOf book \<or> t < lo \<or> \<not> t < hi) (g_changes g))
   | _ \<Rightarrow> False)"

definition alreadyHaltedOn :: "gate \<Rightarrow> recon_result \<Rightarrow> bool" where
  "alreadyHaltedOn g r \<longleftrightarrow> g_state g = StateHalted \<and> rr_Unverifiable r \<noteq> [] \<and> list_all (\<lambda>reason. reason \<in> g_haltedOn g) (rr_Unverifiable r)"

definition alreadyReported :: "gate \<Rightarrow> recon_result \<Rightarrow> bool" where
  "alreadyReported g r \<longleftrightarrow> list_all (\<lambda>c. rc_InstrumentID c = '''' \<or> rc_Explained c \<or>
     map_of (g_reported g) (rc_InstrumentID c) = Some (rc_Residual c)) (rr_Components r)"

definition scaleRefused :: "gate \<Rightarrow> book \<Rightarrow> recon_result" where
  "scaleRefused g b = (let reason = RScaleRefused (bk_QuantityScale b) (g_quantityScale g) in
     \<lparr>rr_QuantityScale = g_quantityScale g, rr_AccountID = g_accountID g, rr_ReconciliationID = CloseSnapshotPrefix @ bk_AnchorID b,
      rr_InputID = bk_AnchorID b, rr_AnchorID = '''', rr_Classification = ReconciliationUnverifiable, rr_Action = ReconciliationActionHalt,
      rr_CashCompared = False, rr_Currency = '''', rr_Components = [], rr_Unverifiable = [reason], rr_ScopeInstrumentIDs = [],
      rr_ScopeCashComponents = [], rr_Detail = UnverifiableDetail [reason], rr_RepeatOf = ''''\<rparr>)"

text \<open>Whether the check of \<open>b\<close> against the book in force repeats what the journal already holds.\<close>

definition suppressed :: "gate \<Rightarrow> book \<Rightarrow> recon_result \<Rightarrow> bool" where
  "suppressed g b r \<longleftrightarrow> rr_Action r = ReconciliationActionContinue \<or>
     (if rr_Action r = ReconciliationActionHalt then alreadyHaltedOn g r \<and> alreadyReported g r
      else classifiedStandsFor g b \<or> alreadyReported g r)"

definition checkHoldings :: "gate \<Rightarrow> book \<Rightarrow> gate \<times> verdict option" where
  "checkHoldings g b = (case g_book g of
     None \<Rightarrow> (g, None)
   | Some old \<Rightarrow> (let r = Holdings (g_accountID g) (Some old) (g_changes g) b in
       if suppressed g b r then (g, None) else (let (g, v) = consequence g (bk_AnchorID b) r in (g, Some v))))"

text \<open>\<open>CheckBook\<close> returns the gate, the verdict to journal when there is one, and its error.\<close>

definition CheckBook :: "gate \<Rightarrow> book \<Rightarrow> gate \<times> verdict option \<times> err list" where
  "CheckBook g b =
     (if checkQuantityScale g (bk_QuantityScale b) \<noteq> [] then
        (let (g', v) = consequence g (bk_AnchorID b) (scaleRefused g b) in (g', Some v, checkQuantityScale g (bk_QuantityScale b)))
      else (let (g, v) = checkHoldings g b in
        case SetBook g b of Inl es \<Rightarrow> (g, v, es) | Inr g \<Rightarrow> (g, v, [])))"

section \<open>Facts that bridge the book\<close>

definition sameCorporateAction :: "corporate_action \<Rightarrow> corporate_action \<Rightarrow> bool" where
  "sameCorporateAction a b \<longleftrightarrow> ca_EffectiveAt a = ca_EffectiveAt b \<and> ca_InstrumentID a = ca_InstrumentID b \<and> ca_Kind a = ca_Kind b \<and>
     ca_NewShares a = ca_NewShares b \<and> ca_OldShares a = ca_OldShares b \<and> ca_EngineSharesPerRawShare a = ca_EngineSharesPerRawShare b \<and>
     ca_RawSharesLost a = ca_RawSharesLost b \<and> f_eq (ca_CashInLieu a) (ca_CashInLieu b) \<and> ca_Currency a = ca_Currency b \<and>
     ca_NewInstrumentID a = ca_NewInstrumentID b \<and> f_eq (ca_CashAmount a) (ca_CashAmount b)"

definition ObserveCorporateAction :: "gate \<Rightarrow> string \<Rightarrow> corporate_action \<Rightarrow> (err list, gate) result" where
  "ObserveCorporateAction g i p =
     joinErrs (CorporateAction_Validate p)
     (failIf (i = '''') [''a corporate action needs its envelope ID'']
     (case g_corporateActions g i of
        Some seen \<Rightarrow> failIf (\<not> sameCorporateAction seen p) [''corporate action is reused for a different action''] (Inr g)
      | None \<Rightarrow> Inr (g\<lparr>g_corporateActions := (g_corporateActions g)(i \<mapsto> p), g_changes := g_changes g @ [CorporateActionChange i p],
          g_classified := None\<rparr>)))"

definition sameCashMovement :: "cash_movement \<Rightarrow> cash_movement \<Rightarrow> bool" where
  "sameCashMovement a b \<longleftrightarrow> cm_AsOf a = cm_AsOf b \<and> f_eq (cm_Amount a) (cm_Amount b) \<and> cm_Currency a = cm_Currency b \<and>
     cm_TransactionID a = cm_TransactionID b"

definition ObserveCashMovement :: "gate \<Rightarrow> string \<Rightarrow> cash_movement \<Rightarrow> (err list, gate) result" where
  "ObserveCashMovement g i p =
     joinErrs (CashMovement_ValidateSchema p CashMovementTransferVersion)
     (failIf (i = '''') [''a cash movement needs its envelope ID'']
     (case g_cashMovements g i of
        Some seen \<Rightarrow> failIf (\<not> sameCashMovement seen p) [''cash movement is reused for a different movement''] (Inr g)
      | None \<Rightarrow> Inr (g\<lparr>g_cashMovements := (g_cashMovements g)(i \<mapsto> p), g_changes := g_changes g @ [CashMovementChange i p]\<rparr>)))"

definition ObserveFlexStatus :: "gate \<Rightarrow> flex_status \<Rightarrow> (err list, gate) result" where
  "ObserveFlexStatus g p =
     joinErrs (FlexStatus_Validate p)
     (failIf (fx_AccountID p \<noteq> g_accountID g) [''Flex status for another account'']
     (Inr (if (case g_flex g of None \<Rightarrow> True | Some f \<Rightarrow> fx_CheckedAt f \<le> fx_CheckedAt p) then g\<lparr>g_flex := Some p\<rparr> else g)))"

section \<open>Pending cash reads\<close>

definition sameDifference :: "recon_result \<Rightarrow> recon_component \<Rightarrow> gotime \<Rightarrow> string set \<Rightarrow> pending_cash \<Rightarrow> bool" where
  "sameDifference r cash from transfers pc \<longleftrightarrow> rr_AnchorID (pc_result pc) = rr_AnchorID r \<and> pc_from pc = from \<and>
     rr_Currency (pc_result pc) = rr_Currency r \<and> rc_Residual (pc_cash pc) = rc_Residual cash \<and> pc_transfers pc = transfers"

definition stateClause :: "gate \<Rightarrow> state_clause" where
  "stateClause g = (if g_state g = StateHalted then StaysHalted
     else if g_state g = StateDegraded then StaysDegradedOn (g_scope g @ (if g_cashScope g \<noteq> [] then [''cash''] else []))
     else StaysNormal)"

definition noComponent :: recon_component where
  "noComponent = \<lparr>rc_Component = '''', rc_InstrumentID = '''', rc_Book = 0, rc_Expected = 0, rc_Observed = 0, rc_Residual = 0,
     rc_Explanations = [], rc_Explained = False\<rparr>"

definition cashOf :: "recon_result \<Rightarrow> recon_component" where
  "cashOf r = foldl (\<lambda>cash c. if rc_Component c = ReconciliationComponentCash then c else cash) noComponent (rr_Components r)"

primrec addRepeat :: "(pending_cash \<Rightarrow> bool) \<Rightarrow> string \<times> string \<Rightarrow> pending_cash list \<Rightarrow> pending_cash list" where
  "addRepeat same rep [] = []"
| "addRepeat same rep (pc # pcs) = (if same pc then pc\<lparr>pc_repeats := pc_repeats pc @ [rep]\<rparr> # pcs else pc # addRepeat same rep pcs)"

definition pends :: "gate \<Rightarrow> outcome \<Rightarrow> gotime \<Rightarrow> (flex_status \<times> gotime) option" where
  "pends g oc t = (let r = oc_Result oc in
     if rr_Classification r \<noteq> ReconciliationUnexplained \<or> rr_ScopeInstrumentIDs r \<noteq> [] \<or> oc_Overdrawn oc then None
     else case (g_flex g, g_book g) of
       (Some fx, Some b) \<Rightarrow> if FlexStatus_Covers fx t then None else (case HeldUntil b of Inl _ \<Rightarrow> None | Inr from \<Rightarrow> Some (fx, from))
     | _ \<Rightarrow> None)"

definition pendingResult :: "gate \<Rightarrow> flex_status \<Rightarrow> recon_result \<Rightarrow> recon_component \<Rightarrow> gotime \<Rightarrow> pending_cash option \<Rightarrow> recon_result" where
  "pendingResult g fx r cash found same = r\<lparr>rr_Classification := ReconciliationPendingCashRead, rr_Action := ReconciliationActionAlert,
     rr_ScopeCashComponents := [],
     rr_Detail := PendingDetail (map_option (\<lambda>pc. (rr_ReconciliationID (pc_result pc), pc_inputID pc)) same) (rr_Detail r) (fx_State fx)
       (fx_CheckedAt fx) (fx_CoveredTo fx) (rc_Residual cash) (rr_Currency r) (stateClause g) found\<rparr>"

definition pend :: "gate \<Rightarrow> string \<Rightarrow> outcome \<Rightarrow> reconciliation_payload \<Rightarrow> gate \<times> recon_result" where
  "pend g i oc p = (let r = oc_Result oc in
     case pends g oc (rp_AsOf p) of
       None \<Rightarrow> (g, r)
     | Some (fx, from) \<Rightarrow> (let
         cash = cashOf r;
         movements = ch_ID ` set (filter (\<lambda>c. ch_Kind c = ChangeCashMovement) (g_changes g));
         counted = set (rc_Explanations cash); transfers = counted \<inter> movements in
         case find (sameDifference r cash from transfers) (g_pendingCash g) of
           Some same \<Rightarrow> (g\<lparr>g_pendingCash := addRepeat (sameDifference r cash from transfers) (i, rr_ReconciliationID r) (g_pendingCash g)\<rparr>,
             (pendingResult g fx r cash (pc_to same) (Some same))\<lparr>rr_RepeatOf := rr_ReconciliationID (pc_result same)\<rparr>)
         | None \<Rightarrow> (let r = pendingResult g fx r cash (rp_AsOf p) None in
             (g\<lparr>g_pendingCash := g_pendingCash g @ [\<lparr>pc_inputID = i, pc_result = r, pc_cash = cash, pc_from = from, pc_to = rp_AsOf p,
                pc_counted = counted, pc_transfers = transfers, pc_alerted = False, pc_repeats = []\<rparr>]\<rparr>, r))))"

definition PendingCashIncrease :: "gate \<Rightarrow> book \<Rightarrow> f64" where
  "PendingCashIncrease g snapshot = (let until = HeldUntil snapshot in
     f_div (f_of_int (foldl (\<lambda>s pc. if rc_Residual (pc_cash pc) > 0 \<and> (case until of Inl _ \<Rightarrow> True | Inr t \<Rightarrow> pc_to pc \<le> t)
       then add64 s (rc_Residual (pc_cash pc)) else s) 0 (g_pendingCash g))) (Fin 100))"

text \<open>Why a pending difference is decided now: the transfers explain it, or the reason it is unexplained; \<open>None\<close> keeps it pending.\<close>

definition decides :: "gate \<Rightarrow> gotime \<Rightarrow> pending_cash \<Rightarrow> undecided_cause option option" where
  "decides g t pc = (case TransfersIn (g_changes g) (pc_from pc) (pc_to pc) (pc_counted pc) (rr_Currency (pc_result pc)) of
     Inl e \<Rightarrow> Some (Some (TransfersNotSummed e))
   | Inr (s, ids) \<Rightarrow>
       if s = rc_Residual (pc_cash pc) then Some None
       else if (case g_flex g of None \<Rightarrow> False | Some fx \<Rightarrow> FlexStatus_Covers fx (pc_to pc)) then Some (Some (ReaderCovered (pc_to pc)))
       else (case Closes (pc_to pc) t of
           Inl e \<Rightarrow> Some (Some (SessionsNotCounted e))
         | Inr (n, _) \<Rightarrow> if n > PendingCashReadSessions then Some (Some (SessionsClosed n PendingCashReadSessions)) else None))"

definition settledResult :: "gate \<Rightarrow> pending_cash \<Rightarrow> undecided_cause option \<Rightarrow> recon_result" where
  "settledResult g pc why = (let r = pc_result pc;
     sumR = TransfersIn (g_changes g) (pc_from pc) (pc_to pc) (pc_counted pc) (rr_Currency r);
     (s, ids) = (case sumR of Inl _ \<Rightarrow> (0, []) | Inr x \<Rightarrow> x);
     c = (pc_cash pc)\<lparr>rc_Explanations := rc_Explanations (pc_cash pc) @ ids\<rparr>;
     (r, c) = (case why of
         None \<Rightarrow> (r\<lparr>rr_Classification := ReconciliationExplained, rr_Action := ReconciliationActionContinue,
             rr_Detail := SettledDetail (rc_Residual (pc_cash pc)) (rr_Currency r) (rr_ReconciliationID r) ids\<rparr>,
           c\<lparr>rc_Expected := add64 (rc_Expected c) s, rc_Residual := 0, rc_Explained := True\<rparr>)
       | Some cause \<Rightarrow> (let c = c\<lparr>rc_Expected := add64 (rc_Expected c) s, rc_Residual := sub64 (rc_Residual c) s\<rparr> in
           (r\<lparr>rr_Classification := ReconciliationUnexplained, rr_Action := ReconciliationActionDegrade,
              rr_ScopeCashComponents := [ReconciliationComponentCash],
              rr_Detail := UndecidedDetail (rr_ReconciliationID r) (rc_Residual c) (rr_Currency r) ids cause\<rparr>, c))) in
     r\<lparr>rr_InputID := pc_inputID pc, rr_Components := [c]\<rparr>)"

primrec settleRepeats :: "gate \<Rightarrow> string \<Rightarrow> recon_result \<Rightarrow> (string \<times> string) list \<Rightarrow> gate \<times> verdict list" where
  "settleRepeats g i r [] = (g, [])"
| "settleRepeats g i r (rep # reps) = (let
     (g, v) = consequence g (i @ '':pending-cash:'' @ fst rep) (r\<lparr>rr_InputID := fst rep, rr_ReconciliationID := snd rep, rr_RepeatOf := rr_ReconciliationID r\<rparr>);
     (g, vs) = settleRepeats g i r reps in (g, v # vs))"

primrec settle_loop :: "gate \<Rightarrow> string \<Rightarrow> gotime \<Rightarrow> pending_cash list \<Rightarrow> gate \<times> pending_cash list \<times> verdict list" where
  "settle_loop g i t [] = (g, [], [])"
| "settle_loop g i t (pc # pcs) =
     (case (if t > pc_to pc then decides g t pc else None) of
        None \<Rightarrow> (let (g, kept, vs) = settle_loop g i t pcs in (g, pc # kept, vs))
      | Some why \<Rightarrow> (let r = settledResult g pc why;
          (g, v) = consequence g (i @ '':pending-cash:'' @ pc_inputID pc) r;
          (g, reps) = settleRepeats g i r (pc_repeats pc);
          (g, kept, vs) = settle_loop g i t pcs in (g, kept, v # reps @ vs)))"

definition settlePending :: "gate \<Rightarrow> string \<Rightarrow> reconciliation_payload \<Rightarrow> gate \<times> verdict list" where
  "settlePending g i p = (let (g, kept, vs) = settle_loop g i (rp_AsOf p) (g_pendingCash g) in (g\<lparr>g_pendingCash := kept\<rparr>, vs))"

section \<open>What was reported\<close>

definition forgetOmitted :: "gate \<Rightarrow> string set \<Rightarrow> gotime \<Rightarrow> gate" where
  "forgetOmitted g named t = foldl (\<lambda>g i. if i \<notin> named \<and> mget (g_reportedAsOf g) i 0 \<le> t
     then g\<lparr>g_reported := mdel (g_reported g) i, g_reportedAsOf := mput (g_reportedAsOf g) i t\<rparr> else g) g (mkeys (g_reported g))"

definition reportComponent :: "gotime \<Rightarrow> gate \<Rightarrow> recon_component \<Rightarrow> gate" where
  "reportComponent t g c = (let i = rc_InstrumentID c in
     if i = '''' \<or> (case map_of (g_reportedAsOf g) i of None \<Rightarrow> False | Some earlier \<Rightarrow> t < earlier) then g
     else g\<lparr>g_reported := (if rc_Explained c then mdel (g_reported g) i else mput (g_reported g) i (rc_Residual c)),
            g_reportedAsOf := mput (g_reportedAsOf g) i t\<rparr>)"

definition report :: "gate \<Rightarrow> recon_result \<Rightarrow> gotime \<Rightarrow> bool \<Rightarrow> gate" where
  "report g r t compared = (let g = (if compared then forgetOmitted g (rc_InstrumentID ` set (rr_Components r)) t else g) in
     foldl (reportComponent t) g (rr_Components r))"

section \<open>Reconciliations\<close>

definition reconErrs :: "gate \<Rightarrow> string \<Rightarrow> reconciliation_payload \<Rightarrow> err list" where
  "reconErrs g i p =
     (if checkQuantityScale g (rp_QuantityScale p) \<noteq> [] then checkQuantityScale g (rp_QuantityScale p)
      else if Reconciliation_Validate p \<noteq> [] then Reconciliation_Validate p
      else if i = '''' then [''a reconciliation needs its envelope ID'']
      else errIf (rp_AccountID p \<noteq> g_accountID g) ''reconciliation for another account'')"

definition takeReading :: "gate \<Rightarrow> reconciliation_payload \<Rightarrow> gate" where
  "takeReading g p = (if g_book g \<noteq> None \<and> ReconReadable p ReconciliationComponentPositions \<and> g_latestReadAsOf g \<le> rp_AsOf p
     then g\<lparr>g_latestReadAsOf := rp_AsOf p, g_classified := Some (observedMap (rows (rp_Positions p))), g_classifiedAsOf := rp_AsOf p\<rparr> else g)"

definition Reconcile_gate :: "gate \<Rightarrow> string \<Rightarrow> reconciliation_payload \<Rightarrow> (err list, gate \<times> reconciliation) result" where
  "Reconcile_gate g i p = joinErrs (reconErrs g i p)
     (let (g, settled) = settlePending g i p;
          oc = Reconcile (g_book g) (g_changes g) i p;
          (g, r) = pend g i oc p;
          g = takeReading g p;
          g = report g r (rp_AsOf p) (case g_book g of None \<Rightarrow> False | Some b \<Rightarrow> ReconReadable p ReconciliationComponentPositions \<and> bk_AsOf b \<le> rp_AsOf p);
          (g, v) = consequence g i r in
      Inr (g, verdict.extend v (reconciliation.fields settled)))"

end
