(* ===== verification/RiskRecovery.thy ===== *)
theory RiskRecovery
  imports RiskReconcile
begin

text \<open>
  \<open>risklimit/recovery.go\<close>: what a recovered decision restores into a fresh gate, all of it or none.
  The check walks the parts in the order they are restored, staging what each adds, before the gate changes.
\<close>

section \<open>What is restored\<close>

record restored_order =
  xo_Order :: order_released
  xo_Fills :: "target_weight_fill list"
  xo_Ended :: gotime
  xo_VenueOrderID :: string

record restored_own_sale = restored_order +
  xs_Trigger :: sale_trigger
  xs_Attempt :: int
  xs_EndStatus :: lifecycle_status

record restored_sale_attempt =
  xa_IncidentID :: string
  xa_Attempted :: bool
  xa_Retired :: int

record retired_sale_attempt =
  xr_Tag :: string
  xr_InstrumentID :: string
  xr_Attempt :: int

record recovery =
  rv_Released :: "restored_order list"
  rv_SaleAttempt :: "restored_sale_attempt option"
  rv_RetiredSales :: "retired_sale_attempt list"
  rv_OwnSale :: "restored_own_sale option"
  rv_Working :: "restored_order list"

section \<open>The stage\<close>

record recovery_stage =
  sg_orders :: "string set"
  sg_venues :: "string set"
  sg_fills :: "string set"
  sg_attempt :: "restored_sale_attempt option"
  sg_retiredSales :: "string \<Rightarrow> int option"

definition emptyStage :: recovery_stage where
  "emptyStage = \<lparr>sg_orders = {}, sg_venues = {}, sg_fills = {}, sg_attempt = None, sg_retiredSales = (\<lambda>_. None)\<rparr>"

definition stage_restoredRetired :: "recovery_stage \<Rightarrow> gate \<Rightarrow> string \<Rightarrow> int" where
  "stage_restoredRetired st g tag = (case sg_attempt st of
     Some a \<Rightarrow> if xa_IncidentID a = tag then xa_Retired a else restoredRetired g tag
   | None \<Rightarrow> restoredRetired g tag)"

definition stage_retired :: "recovery_stage \<Rightarrow> gate \<Rightarrow> string \<Rightarrow> string \<Rightarrow> int" where
  "stage_retired st g tag instrumentID = (let k = saleKey tag instrumentID in
     case sg_retiredSales st k of Some n \<Rightarrow> n | None \<Rightarrow> g_retiredSales g k)"

section \<open>Checking the parts\<close>

primrec checkFills :: "gate \<Rightarrow> recovery_stage \<Rightarrow> order_released \<Rightarrow> bool \<Rightarrow> int \<Rightarrow> string set \<Rightarrow> target_weight_fill list \<Rightarrow> (err list, string set) result" where
  "checkFills g st ord filledInFull filled seen [] = Inr seen"
| "checkFills g st ord filledInFull filled seen (f # fs) =
     joinErrs (checkQuantityScale g (tf_QuantityScale f))
     (joinErrs (Fill_Validate f)
     (failIf (tf_AccountID f \<noteq> rel_AccountID ord \<or> tf_ClientOrderID f \<noteq> rel_ClientOrderID ord \<or> tf_InstrumentID f \<noteq> rel_InstrumentID ord \<or>
         tf_Side f \<noteq> rel_Side ord) [''a restored fill describes another order'']
     (failIf (tf_FillID f \<in> seen) [''a restored order states a fill id twice'']
     (failIf (g_fills g (tf_FillID f) \<noteq> None \<or> tf_FillID f \<in> sg_fills st) [''a restored fill id is already applied to another order'']
     (let left = sub64 (rel_Quantity ord) filled in
      failIf (tf_Quantity f > left \<or> (tf_Quantity f = left \<and> \<not> filledInFull)) [''a watched order has fewer filled than its released shares'']
        (checkFills g st ord filledInFull (add64 filled (tf_Quantity f)) (insert (tf_FillID f) seen) fs))))))"

definition checkRestored :: "gate \<Rightarrow> restored_order \<Rightarrow> recovery_stage \<Rightarrow> bool \<Rightarrow> (err list, recovery_stage) result" where
  "checkRestored g r st filledInFull = (let ord = xo_Order r; venue = xo_VenueOrderID r in
     joinErrs (checkQuantityScale g (rel_QuantityScale ord))
     (failIf (rel_AccountID ord \<noteq> g_accountID g) [''restored order is for another account'']
     (failIf (map_of (g_orders g) (rel_ClientOrderID ord) \<noteq> None \<or> rel_ClientOrderID ord \<in> sg_orders st \<or> rel_ClientOrderID ord = '''')
       [''order is already known, or unnamed, and cannot be restored'']
     (failIf (rel_Quantity ord \<le> 0) [''restored order releases no shares'']
     (failIf (venue \<noteq> '''' \<and> rel_Side ord = OrderSideSell \<and> (venueTaken (g_ledger g) venue \<or> venue \<in> sg_venues st))
       [''a venue order ID names one order'']
     (bindr (checkFills g st ord filledInFull 0 {} (xo_Fills r)) (\<lambda>seen.
        Inr (st\<lparr>sg_orders := insert (rel_ClientOrderID ord) (sg_orders st),
                sg_venues := (if venue \<noteq> '''' \<and> rel_Side ord = OrderSideSell then insert venue (sg_venues st) else sg_venues st),
                sg_fills := seen \<union> sg_fills st\<rparr>))))))))"

primrec checkReleased :: "gate \<Rightarrow> restored_order list \<Rightarrow> recovery_stage \<Rightarrow> (err list, recovery_stage) result" where
  "checkReleased g [] st = Inr st"
| "checkReleased g (r # rs) st = bindr (checkRestored g r st False) (checkReleased g rs)"

definition checkSaleAttempt :: "gate \<Rightarrow> restored_sale_attempt \<Rightarrow> err list" where
  "checkSaleAttempt g a =
     (if xa_IncidentID a = '''' then [''a restored sale attempt must name its incident'']
      else if xa_Retired a < 0 then [''restored retired sale attempts are fewer than none'']
      else errIf (g_attempts g (xa_IncidentID a) \<noteq> None) ''a sale attempt is restored once, before its sale is attempted'')"

primrec checkRetired :: "gate \<Rightarrow> retired_sale_attempt list \<Rightarrow> recovery_stage \<Rightarrow> (err list, recovery_stage) result" where
  "checkRetired g [] st = Inr st"
| "checkRetired g (s # ss) st =
     failIf (xr_Tag s = '''' \<or> xr_InstrumentID s = '''' \<or> xr_Attempt s < 1) [''a restored retired sale names its tag, its instrument and its attempt'']
       (checkRetired g ss (st\<lparr>sg_retiredSales := (sg_retiredSales st)(saleKey (xr_Tag s) (xr_InstrumentID s) \<mapsto>
          max (stage_retired st g (xr_Tag s) (xr_InstrumentID s)) (sub64 (xr_Attempt s) (stage_restoredRetired st g (xr_Tag s))))\<rparr>))"

text \<open>What the gate, with the stage applied, knows of the attempt under a tag: whether any is known, by an earlier run, for the instrument.\<close>

definition attemptKnown :: "gate \<Rightarrow> recovery_stage \<Rightarrow> string \<Rightarrow> string \<Rightarrow> bool \<times> bool \<times> bool" where
  "attemptKnown g st tag instrumentID = (case sg_attempt st of
     Some a \<Rightarrow> if xa_IncidentID a = tag then (True, xa_Attempted a, False)
       else (case g_attempts g tag of None \<Rightarrow> (False, False, False) | Some x \<Rightarrow> (True, sa_earlier x, instrumentID \<in> sa_instruments x))
   | None \<Rightarrow> (case g_attempts g tag of None \<Rightarrow> (False, False, False) | Some x \<Rightarrow> (True, sa_earlier x, instrumentID \<in> sa_instruments x)))"

definition checkOwnSale :: "gate \<Rightarrow> restored_own_sale \<Rightarrow> recovery_stage \<Rightarrow> (err list, recovery_stage) result" where
  "checkOwnSale g s st = (let
     ord = xo_Order s; tag = rel_Tag ord; instrumentID = rel_InstrumentID ord;
     restored = (case sg_attempt st of None \<Rightarrow> g_restored g | Some a \<Rightarrow> xa_IncidentID a);
     (known, earlier, attempted) = attemptKnown g st tag instrumentID;
     next = add64 (stage_restoredRetired st g tag) (stage_retired st g tag instrumentID) in
     failIf (tag = '''' \<or> tag \<noteq> restored \<or> \<not> known \<or> earlier) [''restored sale is not under the incident whose attempt was restored'']
     (failIf attempted [''the sale is attempted already'']
     (failIf (rel_Side ord \<noteq> OrderSideSell) [''a sale back to 98 percent is a sell'']
     (failIf (xs_Trigger s \<noteq> SaleTriggerExit \<and> xs_Trigger s \<noteq> SaleTriggerMarginUrgent) [''restored sale was not fired by exit or margin-urgent'']
     (failIf ((xo_Ended s = 0) \<noteq> (xs_EndStatus s = NoLifecycleStatus) \<or>
         xs_EndStatus s \<notin> {NoLifecycleStatus, OrderLifecycleStatusCanceled, OrderLifecycleStatusInvalid}) [''a sale a venue ended states when and how'']
     (failIf (rel_ClientOrderID ord \<noteq> SaleAttemptClientOrderID tag instrumentID next) [''restored sale is not the next attempt'']
     (failIf (xs_Attempt s \<noteq> 0 \<and> xs_Attempt s \<noteq> add64 next 1) [''restored sale is recorded as another attempt'']
     (checkRestored g (restored_order.truncate s) st True))))))))"

definition checkRecovery :: "gate \<Rightarrow> recovery \<Rightarrow> (err list, recovery_stage) result" where
  "checkRecovery g r =
     bindr (checkReleased g (rv_Released r) emptyStage) (\<lambda>st.
     bindr (case rv_SaleAttempt r of None \<Rightarrow> Inr st | Some a \<Rightarrow> joinErrs (checkSaleAttempt g a) (Inr (st\<lparr>sg_attempt := Some a\<rparr>))) (\<lambda>st.
     bindr (checkRetired g (rv_RetiredSales r) st) (\<lambda>st.
     bindr (case rv_OwnSale r of None \<Rightarrow> Inr st | Some s \<Rightarrow> checkOwnSale g s st) (\<lambda>st.
     checkReleased g (rv_Working r) st))))"

section \<open>Restoring\<close>

definition restoredPlanned :: "order_released \<Rightarrow> order_planned" where
  "restoredPlanned ord = \<lparr>op_RoundingSlack = Fin 0, op_FractionalIncrement = '''', op_QuantityScale = rel_QuantityScale ord, op_AccountID = rel_AccountID ord,
     op_Tag = rel_Tag ord, op_ClientOrderID = rel_ClientOrderID ord, op_InstrumentID = rel_InstrumentID ord, op_Side = rel_Side ord, op_Phase = '''',
     op_OrderType = '''', op_Quantity = rel_Quantity ord, op_LimitPrice = rel_LimitPrice ord, op_TargetWeight = Fin 0, op_NetLiquidation = Fin 0,
     op_HeldQuantity = 0, op_ReferencePrice = Fin 0, op_PriceBand = Fin 0, op_Sale = noSale\<rparr>"

definition restoreEnd :: "gotime \<Rightarrow> ledger_sell \<Rightarrow> ledger_sell" where
  "restoreEnd ended s = (if ended \<noteq> 0 then s\<lparr>ls_ended := True, ls_end := trunc_sec ended\<rparr> else s)"

definition restoreSell :: "sell_ledger \<Rightarrow> restored_order \<Rightarrow> sell_ledger" where
  "restoreSell l r = (let ord = xo_Order r in
     upd_sell (ledger_restore l (rel_ClientOrderID ord) (rel_InstrumentID ord) (rel_Quantity ord) (xo_VenueOrderID r)) (length (sl_store l)) (restoreEnd (xo_Ended r)))"

definition observeAll :: "gate \<Rightarrow> target_weight_fill list \<Rightarrow> gate" where
  "observeAll g fs = foldl (\<lambda>g f. case ObserveFill g f of Inl _ \<Rightarrow> g | Inr g \<Rightarrow> g) g fs"

definition applyReleased :: "gate \<Rightarrow> restored_order \<Rightarrow> gate" where
  "applyReleased g r = (let ord = xo_Order r in
     observeAll (g\<lparr>g_released := insert (rel_ClientOrderID ord) (g_released g),
       g_orders := mput (g_orders g) (rel_ClientOrderID ord) \<lparr>ro_planned = restoredPlanned ord, ro_reported = 0, ro_fills = []\<rparr>,
       g_ledger := (if rel_Side ord = OrderSideSell then restoreSell (g_ledger g) r else g_ledger g)\<rparr>) (xo_Fills r))"

definition applyAttempt :: "gate \<Rightarrow> restored_sale_attempt \<Rightarrow> gate" where
  "applyAttempt g a = g\<lparr>g_attempts := (g_attempts g)(xa_IncidentID a \<mapsto> \<lparr>sa_earlier = xa_Attempted a, sa_retired = xa_Retired a, sa_instruments = {}\<rparr>),
     g_restored := xa_IncidentID a\<rparr>"

definition applyRetired :: "gate \<Rightarrow> retired_sale_attempt \<Rightarrow> gate" where
  "applyRetired g s = (let k = saleKey (xr_Tag s) (xr_InstrumentID s) in
     g\<lparr>g_retiredSales := (g_retiredSales g)(k := max (g_retiredSales g k) (sub64 (xr_Attempt s) (restoredRetired g (xr_Tag s))))\<rparr>)"

definition applyOwnSale :: "gate \<Rightarrow> restored_own_sale \<Rightarrow> gate" where
  "applyOwnSale g s = (let ord = xo_Order s; i = rel_ClientOrderID ord; g = applyReleased g (restored_order.truncate s);
     g = g\<lparr>g_orders := (case map_of (g_orders g) i of None \<Rightarrow> g_orders g
             | Some r \<Rightarrow> mput (g_orders g) i (r\<lparr>ro_planned := (ro_planned r)\<lparr>op_Sale := noSale\<lparr>sf_Kind := SaleKindIncident, sf_Trigger := xs_Trigger s\<rparr>\<rparr>\<rparr>)),
           g_ledger := (case map_of (sl_sells (g_ledger g)) i of None \<Rightarrow> g_ledger g
             | Some a \<Rightarrow> upd_sell (g_ledger g) a (ls_endStatus_update (\<lambda>_. xs_EndStatus s)))\<rparr> in
     recordAttempt g (rel_Tag ord) (rel_InstrumentID ord))"

definition RestoreRecovery :: "gate \<Rightarrow> recovery \<Rightarrow> (err list, gate) result" where
  "RestoreRecovery g r = bindr (checkRecovery g r) (\<lambda>_. let
     g = foldl applyReleased g (rv_Released r);
     g = (case rv_SaleAttempt r of None \<Rightarrow> g | Some a \<Rightarrow> applyAttempt g a);
     g = foldl applyRetired g (rv_RetiredSales r);
     g = (case rv_OwnSale r of None \<Rightarrow> g | Some s \<Rightarrow> applyOwnSale g s) in
     Inr (foldl applyReleased g (rv_Working r)))"

definition noRecovery :: recovery where
  "noRecovery = \<lparr>rv_Released = [], rv_SaleAttempt = None, rv_RetiredSales = [], rv_OwnSale = None, rv_Working = []\<rparr>"

definition RestoreSaleAttempt :: "gate \<Rightarrow> string \<Rightarrow> bool \<Rightarrow> int \<Rightarrow> (err list, gate) result" where
  "RestoreSaleAttempt g incidentID attempted retired = RestoreRecovery g
     (noRecovery\<lparr>rv_SaleAttempt := Some \<lparr>xa_IncidentID = incidentID, xa_Attempted = attempted, xa_Retired = retired\<rparr>\<rparr>)"

definition RestoreRetiredSale :: "gate \<Rightarrow> string \<Rightarrow> string \<Rightarrow> int \<Rightarrow> (err list, gate) result" where
  "RestoreRetiredSale g tag instrumentID attempt = RestoreRecovery g
     (noRecovery\<lparr>rv_RetiredSales := [\<lparr>xr_Tag = tag, xr_InstrumentID = instrumentID, xr_Attempt = attempt\<rparr>]\<rparr>)"

definition RestoreReleased :: "gate \<Rightarrow> order_released \<Rightarrow> target_weight_fill list \<Rightarrow> gotime \<Rightarrow> string \<Rightarrow> (err list, gate) result" where
  "RestoreReleased g ord fills ended venueOrderID = RestoreRecovery g
     (noRecovery\<lparr>rv_Released := [\<lparr>xo_Order = ord, xo_Fills = fills, xo_Ended = ended, xo_VenueOrderID = venueOrderID\<rparr>]\<rparr>)"

definition RestoreOwnSale :: "gate \<Rightarrow> order_released \<Rightarrow> sale_trigger \<Rightarrow> int \<Rightarrow> target_weight_fill list \<Rightarrow> string \<Rightarrow> (err list, gate) result" where
  "RestoreOwnSale g ord trigger attempt fills venueOrderID = RestoreRecovery g
     (noRecovery\<lparr>rv_OwnSale := Some \<lparr>xo_Order = ord, xo_Fills = fills, xo_Ended = 0, xo_VenueOrderID = venueOrderID,
        xs_Trigger = trigger, xs_Attempt = attempt, xs_EndStatus = NoLifecycleStatus\<rparr>\<rparr>)"

end
