(* ===== verification/RiskExample.thy ===== *)
theory RiskExample
  imports RiskRecovery
begin

text \<open>
  Worked accounts: a margin account and an IRA, their limits, a snapshot, a book and a plan, on which the
  theorems of the gate are applied.
\<close>

definition example_limits :: margin_limits where
  "example_limits = \<lparr>ml_MaxExposure = Fin (3/2), ml_MaxOrdersPerDecision = 4, ml_MaxOrderFraction = Fin (1/2), ml_PriceBand = Fin (1/8),
     ml_ExcessLiquidityWarning = Fin (1/4), ml_ExcessLiquidityUrgent = Fin (1/8), ml_ExcessLiquidityStaleMinutes = 30\<rparr>"

definition example_ira_limits :: margin_limits where
  "example_ira_limits = \<lparr>ml_MaxExposure = Fin 1, ml_MaxOrdersPerDecision = 4, ml_MaxOrderFraction = Fin (1/2), ml_PriceBand = Fin (1/8),
     ml_ExcessLiquidityWarning = Fin 0, ml_ExcessLiquidityUrgent = Fin 0, ml_ExcessLiquidityStaleMinutes = 0\<rparr>"

definition example_time :: gotime where
  "example_time = 63900000000 * second_ns"

definition example_gate :: gate where
  "example_gate = freshGate ''U1'' example_limits TradingModePaper (5 * MinuteDuration)"

definition example_ira :: gate where
  "example_ira = (freshGate ''U2'' example_ira_limits TradingModeLive (5 * MinuteDuration))\<lparr>g_ira := True, g_maxFees := Fin 1,
     g_roundingSlack := DefaultRoundingSlack\<rparr>"

lemma example_gate_built: "NewGate ''U1'' example_limits TradingModePaper (5 * MinuteDuration) = Inr example_gate"
proof -
  have "HasCushion example_limits" "MarginLimits_Validate example_limits = []" by code_simp+
  then show ?thesis by (simp add: NewGate_def newGate_def ValidTradingMode_def MinuteDuration_def example_gate_def)
qed

lemma example_ira_built: "NewIRAGate ''U2'' example_ira_limits TradingModeLive (Fin 1) (5 * MinuteDuration) = Inr example_ira"
proof -
  have "\<not> HasCushion example_ira_limits" "MarginLimits_Validate example_ira_limits = []" "\<not> f_lt (Fin 1) (ml_MaxExposure example_ira_limits)" "f_le (Fin 0) (Fin 1)" by code_simp+
  then show ?thesis by (simp add: NewIRAGate_def newGate_def ValidTradingMode_def MinuteDuration_def example_ira_def)
qed

definition example_snapshot :: broker_snapshot_payload where
  "example_snapshot = \<lparr>bs_QuantityScale = 0, bs_AccountID = ''U1'', bs_AsOf = example_time, bs_MarketOpen = True,
     bs_Unreadable = [], bs_NetLiquidation = Fin 100000, bs_ExcessLiquidity = Fin 50000,
     bs_Positions = Some [\<lparr>bp_InstrumentID = ''AAA'', bp_Quantity = 100, bp_Mark = Fin 50, bp_MarkSet = True\<rparr>],
     bs_OpenOrders = Some [], bs_ReadAt = 0, bs_AsOfClose = False, bs_NotAsOfClose = '''', bs_ReadNetLiquidation = Fin 0,
     bs_CashDrift = Fin 0, bs_UnexplainedCash = Fin 0\<rparr>"

text \<open>A decision was journalled and the broker read: 100 AAA, nothing working.\<close>

definition example_ready :: gate where
  "example_ready = RecordDecision (takeBroker example_gate ''s1'' example_snapshot) ''d1''"

definition example_order :: "string \<Rightarrow> string \<Rightarrow> string \<Rightarrow> string \<Rightarrow> string \<Rightarrow> int \<Rightarrow> gate_order" where
  "example_order account tag client instrument side quantity = \<lparr>o_PlanID = ''p1'', o_Planned =
     \<lparr>op_RoundingSlack = Fin 0, op_FractionalIncrement = '''', op_QuantityScale = 0, op_AccountID = account, op_Tag = tag, op_ClientOrderID = client,
      op_InstrumentID = instrument, op_Side = side, op_Phase = side, op_OrderType = OrderTypeLimit, op_Quantity = quantity, op_LimitPrice = Fin 50,
      op_TargetWeight = Fin 0, op_NetLiquidation = Fin 100000, op_HeldQuantity = 100, op_ReferencePrice = Fin 50, op_PriceBand = Fin (1/64),
      op_Sale = noSale\<rparr>, o_Mark = Fin 51, o_MarkSet = True, o_MarkSource = NoMarkSource\<rparr>"

definition example_book :: gate_book where
  "example_book = \<lparr>gb_QuantityScale = 0, gb_Holdings = [(''AAA'', 100)], gb_Prices = [(''AAA'', Fin 50)], gb_WorkingSells = [], gb_PriorOrders = 0,
     gb_PriorCounted = 0, gb_CashAvailable = Fin 1000, gb_At = example_time + second_ns\<rparr>"

text \<open>A sell, a buy, a buy no decision placed, which halts the account, and a sell that the halt refuses.\<close>

definition example_plan :: "gate_order list" where
  "example_plan = [example_order ''U1'' ''d1'' ''c1'' ''AAA'' OrderSideSell 40, example_order ''U1'' ''d1'' ''c2'' ''BBB'' OrderSideBuy 10,
     example_order ''U1'' ''d2'' ''c3'' ''BBB'' OrderSideBuy 10, example_order ''U1'' ''d1'' ''c4'' ''AAA'' OrderSideSell 40]"

definition released_ids :: "(err list, gate \<times> gate_outcome list) result \<Rightarrow> bool list option" where
  "released_ids r = (case r of Inl _ \<Rightarrow> None | Inr (_, outs) \<Rightarrow> Some (map (\<lambda>out. out_Released out \<noteq> None) outs))"

lemma example_released: "released_ids (Check example_ready example_book example_plan) = Some [True, True, False, False]"
  by code_simp

definition example_ira_plan :: "gate_order list" where
  "example_ira_plan = [example_order ''U2'' ''d1'' ''c1'' ''BBB'' OrderSideBuy 10, example_order ''U2'' ''d1'' ''c2'' ''CCC'' OrderSideBuy 15]"

lemma example_ira_released: "released_ids (Check (RecordDecision example_ira ''d1'') example_book example_ira_plan) = Some [True, False]"
  by code_simp

lemma released_idsD: "released_ids r = Some bs \<Longrightarrow> \<exists>g outs. r = Inr (g, outs) \<and> map (\<lambda>out. out_Released out \<noteq> None) outs = bs"
  by (auto simp: released_ids_def split: sum.splits)

lemma example_outcomes:
  obtains g' outs where "Check example_ready example_book example_plan = Inr (g', outs)" "length outs = 4" "out_Released (outs ! 0) \<noteq> None"
    "out_Released (outs ! 1) \<noteq> None"
proof -
  obtain g' outs where c: "Check example_ready example_book example_plan = Inr (g', outs)"
    and m: "map (\<lambda>out. out_Released out \<noteq> None) outs = [True, True, False, False]"
    using released_idsD [OF example_released] by (elim exE conjE) (rule that)
  have l: "length outs = 4" using arg_cong [OF m, of length] by simp
  have "map (\<lambda>out. out_Released out \<noteq> None) outs ! 0" "map (\<lambda>out. out_Released out \<noteq> None) outs ! 1" unfolding m by simp_all
  then have "out_Released (outs ! 0) \<noteq> None" "out_Released (outs ! 1) \<noteq> None" using l by simp_all
  with c l that show ?thesis by blast
qed

end
