(* ===== verification/RiskSafety.thy ===== *)
theory RiskSafety
  imports RiskExample
begin

text \<open>
  What a check of a plan guarantees of the orders it releases: that every order is answered, that a release
  was authorised by a decision and by the engine state or, for a sale back to 98 percent, by a pending attempt, which of
  the account's limits bind its figures, that sells never take more than the ledger says remains (through the contract
  \<open>sell_netting\<close> of \<open>SellLedger\<close>; without a readable broker snapshot, than the account's book holds), and that an IRA's
  buys fit its cash. \<open>checkOrder_cases\<close> and \<open>order_closed\<close> carry the proofs:
  the first says when an order is released, the second what an order may change in the gate.
\<close>

section \<open>One order\<close>

lemma refuse_simps [simp]:
  "out_Released (refuse g ord f reason d) = None" "out_Refused (refuse g ord f reason d) = Some (refusal g ord f reason d)"
  "out_State (refuse g ord f reason d) = None"
  by (simp_all add: refuse_def noOutcome_def)

lemma alertRefusal_simps [simp]:
  "out_Released (alertRefusal a out) = out_Released out" "out_State (alertRefusal a out) = out_State out"
  "out_Refused (alertRefusal a out) = map_option (\<lambda>r. r\<lparr>ref_Alert := a\<rparr>) (out_Refused out)"
  by (simp_all add: alertRefusal_def)

lemma enterState_simps [simp]:
  "out_Released (snd (enterState g out st p c)) = out_Released out" "out_Refused (snd (enterState g out st p c)) = out_Refused out"
  "out_State (snd (enterState g out st p c)) = Some p"
  "g_state (fst (enterState g out st p c)) = st"
  "g_scope (fst (enterState g out st p c)) = g_scope g" "g_cashScope (fst (enterState g out st p c)) = g_cashScope g"
  by (simp_all add: enterState_def moveState_def Let_def)

lemma haltGate_simps [simp]:
  "out_Released (snd (haltGate g out d c)) = out_Released out" "out_Refused (snd (haltGate g out d c)) = out_Refused out"
  "g_state (fst (haltGate g out d c)) = StateHalted" "g_scope (fst (haltGate g out d c)) = []" "g_cashScope (fst (haltGate g out d c)) = []"
  by (simp_all add: haltGate_def Let_def split: prod.splits) (metis enterState_simps fst_conv snd_conv)+

lemma degradeGate_simps [simp]:
  "out_Released (snd (degradeGate g out i d c)) = out_Released out" "out_Refused (snd (degradeGate g out i d c)) = out_Refused out"
  "g_state (fst (degradeGate g out i d c)) = StateDegraded" "g_scope (fst (degradeGate g out i d c)) = sort (g_scope g @ [i])"
  "g_cashScope (fst (degradeGate g out i d c)) = g_cashScope g"
  by (simp_all add: degradeGate_def Let_def)

text \<open>Every answer to one order: a sale goes its own way, and any other order is either refused or passes every guard.\<close>

definition passes :: "gate \<Rightarrow> gate_order \<Rightarrow> int \<Rightarrow> int \<Rightarrow> gate_book \<Rightarrow> bool" where
  "passes g ord n counted book \<longleftrightarrow> (let p = o_Planned ord; (f, unvalued) = orderFigures g ord n book in
     op_Sale p = noSale \<and> g_state g \<noteq> StateHalted \<and> op_Tag p \<in> g_decided g \<and> \<not> g_killEngaged g \<and>
     (g_state g = StateDegraded \<longrightarrow> op_Side p \<noteq> OrderSideBuy \<and> op_InstrumentID p \<notin> set (g_scope g) \<and> rf_BrokerSet f) \<and>
     (op_Side p = OrderSideBuy \<longrightarrow> withheldOnCash g = None) \<and> \<not> isl (debit g ord) \<and> staleFor g p (gb_At book) = None \<and>
     breach g ord f counted book unvalued = None)"

definition issued :: "gate \<Rightarrow> gate_order \<Rightarrow> risk_figures \<Rightarrow> bool" where
  "issued g ord f \<longleftrightarrow> (let p = o_Planned ord in op_Sale p \<noteq> noSale \<and> op_Tag p \<in> g_saleTags g \<and> op_ClientOrderID p \<in> g_pending g \<and>
     rf_BrokerSet f \<and> op_Quantity p \<le> subtractPending (rf_BrokerHolding f) (rf_WorkingSells f))"


lemma releaseOrder_simps [simp]:
  "out_Released (snd (releaseOrder g ord f)) \<noteq> None" "out_Refused (snd (releaseOrder g ord f)) = None" "out_State (snd (releaseOrder g ord f)) = None"
  by (simp_all add: releaseOrder_def Let_def noOutcome_def)

text \<open>An outcome that refuses the order: no release, and a refusal of this order on these figures.\<close>

definition refuses :: "gate \<Rightarrow> gate_order \<Rightarrow> risk_figures \<Rightarrow> gate_outcome \<Rightarrow> bool" where
  "refuses g ord f out \<longleftrightarrow> out_Released out = None \<and> (\<exists>reason d a. out_Refused out = Some ((refusal g ord f reason d)\<lparr>ref_Alert := a\<rparr>))"

lemma refuses_refuse [simp]: "refuses g ord f (refuse g ord f reason d)"
proof -
  have "refusal g ord f reason d = (refusal g ord f reason d)\<lparr>ref_Alert := False\<rparr>" by (simp add: refusal_def Let_def)
  then show ?thesis unfolding refuses_def by (metis refuse_simps(1, 2))
qed

lemma refuses_alert [simp]: "refuses g ord f out \<Longrightarrow> refuses g ord f (alertRefusal a out)"
  unfolding refuses_def by (elim conjE exE) (simp, blast)

lemma refuses_move [simp]:
  "refuses g ord f out \<Longrightarrow> refuses g ord f (snd (haltGate g' out d c))"
  "refuses g ord f out \<Longrightarrow> refuses g ord f (snd (degradeGate g' out i d c))"
  by (simp_all add: refuses_def)

definition afterIssue :: "gate \<Rightarrow> gate_order \<Rightarrow> gate" where
  "afterIssue g ord = (if op_Sale (o_Planned ord) = noSale then g else g\<lparr>g_pending := g_pending g - {op_ClientOrderID (o_Planned ord)}\<rparr>)"

lemma refuse_update [simp]:
  "refuse (g_pending_update h g) ord f reason d = refuse g ord f reason d"
  "refuse (g_staleOpen_update k g) ord f reason d = refuse g ord f reason d"
  by (simp_all add: refuse_def refusal_def Let_def)

lemma checkSale_cases:
  assumes "op_Sale (o_Planned ord) \<noteq> noSale"
  shows "(issued g ord f \<and> checkSale g ord f = releaseOrder (afterIssue g ord) ord f) \<or> refuses g ord f (snd (checkSale g ord f))"
  using assms by (auto simp add: checkSale_def issued_def afterIssue_def Let_def not_less)

lemma checkLimits_cases:
  "(breach g ord f counted book unvalued = None \<and> checkLimits g ord f counted book unvalued = releaseOrder g ord f) \<or>
   refuses g ord f (snd (checkLimits g ord f counted book unvalued))"
  unfolding checkLimits_def Let_def by (cases "breach g ord f counted book unvalued") (simp_all split: option.splits prod.splits)

text \<open>One order is released only when its guards hold, and refused otherwise.\<close>

lemma checkOrder_cases:
  fixes g ord n book
  defines "f \<equiv> fst (orderFigures g ord n book)"
  shows "((passes g ord n counted book \<or> issued g ord f) \<and> checkOrder g ord n counted book = releaseOrder (afterIssue g ord) ord f) \<or>
    refuses g ord f (snd (checkOrder g ord n counted book))"
proof -
  obtain f' unvalued where f': "orderFigures g ord n book = (f', unvalued)" by fastforce
  show ?thesis
    using checkSale_cases [of ord g f'] checkLimits_cases [of g ord f' counted book unvalued]
    unfolding f_def checkOrder_def passes_def Let_def f'
    by (auto simp: openStale_def afterIssue_def split: option.splits sum.splits if_splits)
qed

section \<open>What an order may change\<close>

text \<open>The changes one order can make to the gate, as closure conditions: a property of gates that each keeps, the whole plan keeps.\<close>

definition order_closed :: "(gate \<Rightarrow> bool) \<Rightarrow> gate_order \<Rightarrow> bool" where
  "order_closed P ord \<longleftrightarrow> (\<forall>g. P g \<longrightarrow>
     (\<forall>b. P (g\<lparr>g_killAlerted := b\<rparr>)) \<and> (\<forall>b. P (g\<lparr>g_staleOpen := b\<rparr>)) \<and> P (g\<lparr>g_pendingCash := alertFirst (g_pendingCash g)\<rparr>) \<and> (\<forall>ids. P (g\<lparr>g_pending := ids\<rparr>)) \<and>
     (\<forall>out d c. g_state g \<noteq> StateHalted \<longrightarrow> P (fst (haltGate g out d c))) \<and>
     (\<forall>out d c. g_state g \<noteq> StateHalted \<and> (g_state g = StateDegraded \<longrightarrow> op_InstrumentID (o_Planned ord) \<notin> set (g_scope g)) \<longrightarrow>
        P (fst (degradeGate g out (op_InstrumentID (o_Planned ord)) d c))) \<and>
     (\<forall>f. P (fst (releaseOrder g ord f))))"

lemma order_closedI:
  assumes "\<And>g b. P g \<Longrightarrow> P (g\<lparr>g_killAlerted := b\<rparr>)" "\<And>g b. P g \<Longrightarrow> P (g\<lparr>g_staleOpen := b\<rparr>)" "\<And>g. P g \<Longrightarrow> P (g\<lparr>g_pendingCash := alertFirst (g_pendingCash g)\<rparr>)"
    "\<And>g ids. P g \<Longrightarrow> P (g\<lparr>g_pending := ids\<rparr>)"
    and "\<And>g out d c. P g \<Longrightarrow> g_state g \<noteq> StateHalted \<Longrightarrow> P (fst (haltGate g out d c))"
    and "\<And>g out d c. P g \<Longrightarrow> g_state g \<noteq> StateHalted \<Longrightarrow> g_state g = StateDegraded \<longrightarrow> op_InstrumentID (o_Planned ord) \<notin> set (g_scope g) \<Longrightarrow>
      P (fst (degradeGate g out (op_InstrumentID (o_Planned ord)) d c))"
    and "\<And>g f. P g \<Longrightarrow> P (fst (releaseOrder g ord f))"
  shows "order_closed P ord"
  using assms unfolding order_closed_def by simp

lemma checkSale_closed: "order_closed P ord \<Longrightarrow> P g \<Longrightarrow> P (fst (checkSale g ord f))"
  unfolding order_closed_def checkSale_def Let_def by simp

lemma checkLimits_closed:
  assumes "order_closed P ord" "P g" "g_state g \<noteq> StateHalted" "g_state g = StateDegraded \<longrightarrow> op_InstrumentID (o_Planned ord) \<notin> set (g_scope g)"
  shows "P (fst (checkLimits g ord f counted book unvalued))"
  using assms unfolding order_closed_def checkLimits_def Let_def by (simp split: option.splits)

lemma checkOrder_closed:
  assumes "order_closed P ord" "P g"
  shows "P (fst (checkOrder g ord n counted book))"
proof -
  obtain f unvalued where f: "orderFigures g ord n book = (f, unvalued)" by fastforce
  have s: "P (fst (checkSale g ord f))" by (rule checkSale_closed [OF assms])
  have k: "P (g\<lparr>g_killAlerted := b\<rparr>)" "P (g\<lparr>g_staleOpen := b\<rparr>)" "P (g\<lparr>g_pendingCash := alertFirst (g_pendingCash g)\<rparr>)" for b
    using assms by (simp_all add: order_closed_def)
  have h: "g_state g \<noteq> StateHalted \<Longrightarrow> P (fst (haltGate g out d c))" for out d c using assms by (simp add: order_closed_def)
  have dg: "g_state g \<noteq> StateHalted \<Longrightarrow> g_state g \<noteq> StateDegraded \<or> op_InstrumentID (o_Planned ord) \<notin> set (g_scope g) \<Longrightarrow>
    P (fst (degradeGate g out (op_InstrumentID (o_Planned ord)) d c))" for out d c using assms unfolding order_closed_def by blast
  note l = checkLimits_closed [OF assms, of f counted book unvalued]
  show ?thesis unfolding checkOrder_def Let_def f using s k h dg l assms(2)
    by (simp add: openStale_def split: option.splits sum.splits)
qed

definition plan_closed :: "(gate \<Rightarrow> bool) \<Rightarrow> bool" where
  "plan_closed P \<longleftrightarrow> (\<forall>ord. order_closed P ord)"

lemma checkPlan_closed:
  assumes "list_all (order_closed P) plan" "P g"
  shows "P (fst (checkPlan g n counted book plan))"
  using assms
proof (induction plan arbitrary: g book)
  case (Cons ord plan)
  then have "P (fst (checkOrder g ord n counted book))" by (simp add: checkOrder_closed)
  then show ?case using Cons by (simp add: split_beta Let_def)
qed simp

lemma freshCheck_closed: "(\<And>g b. P g \<Longrightarrow> P (g\<lparr>g_staleOpen := b\<rparr>)) \<Longrightarrow> P g \<Longrightarrow> P (freshCheck g t)"
  by (simp add: freshCheck_def split: option.splits)

lemma Check_closed:
  assumes "Check g book plan = Inr (g', outs)" "list_all (order_closed P) plan" "P g" "\<And>g b. P g \<Longrightarrow> P (g\<lparr>g_staleOpen := b\<rparr>)"
  shows "P g'"
proof -
  have "P (freshCheck g (gb_At book))" using assms(3, 4) by (rule freshCheck_closed [rotated])
  from checkPlan_closed [OF assms(2) this] assms(1) show ?thesis by (auto simp: Check_def Let_def) (metis fst_conv)
qed

text \<open>The parts of the gate that no order changes.\<close>

definition same_account :: "gate \<Rightarrow> gate \<Rightarrow> bool" where
  "same_account g h \<longleftrightarrow> gate_limits.truncate h = gate_limits.truncate g \<and> g_decided h = g_decided g \<and> g_killEngaged h = g_killEngaged g \<and>
     g_killID h = g_killID g \<and> g_broker h = g_broker g \<and> g_brokerID h = g_brokerID g \<and> g_brokerView h = g_brokerView g \<and>
     g_maxSnapshotAge h = g_maxSnapshotAge g \<and> g_account h = g_account g \<and> g_attempts h = g_attempts g \<and> g_retiredSales h = g_retiredSales g"

lemma order_closed_same: "order_closed (same_account g) ord"
  unfolding order_closed_def same_account_def
  by (simp add: haltGate_def degradeGate_def enterState_def moveState_def releaseOrder_def gate_limits.truncate_def Let_def split_beta)

lemma checkOrder_same: "same_account g (fst (checkOrder g ord n counted book))"
  by (rule checkOrder_closed [OF order_closed_same]) (simp add: same_account_def)

section \<open>Tightening\<close>

fun rank :: "engine_state \<Rightarrow> nat" where
  "rank StateDegraded = 1"
| "rank StateHalted = 2"
| "rank _ = 0"

definition tighter :: "gate \<Rightarrow> gate \<Rightarrow> bool" where
  "tighter g h \<longleftrightarrow> rank (g_state g) \<le> rank (g_state h) \<and>
     (g_state g = StateDegraded \<and> g_state h = StateDegraded \<longrightarrow> set (g_scope g) \<subseteq> set (g_scope h) \<and> set (g_cashScope g) \<subseteq> set (g_cashScope h)) \<and>
     (g_state g \<noteq> StateNormal \<longrightarrow> g_state h \<noteq> StateNormal \<and> g_incident h = g_incident g)"

lemma rank_eqs [simp]: "rank s = 2 \<longleftrightarrow> s = StateHalted" "rank s = 1 \<longleftrightarrow> s = StateDegraded" "rank s = Suc 0 \<longleftrightarrow> s = StateDegraded" "rank s \<le> 2"
  "2 \<le> rank s \<longleftrightarrow> s = StateHalted"
  by (cases s; simp)+

lemma tighter_refl [simp]: "tighter g g"
  by (simp add: tighter_def)

lemma tighter_trans [trans]: "tighter g h \<Longrightarrow> tighter h k \<Longrightarrow> tighter g k"
  unfolding tighter_def
proof (elim conjE, intro conjI impI)
  assume *: "rank (g_state g) \<le> rank (g_state h)" "rank (g_state h) \<le> rank (g_state k)"
    "g_state g = StateDegraded \<and> g_state h = StateDegraded \<longrightarrow> set (g_scope g) \<subseteq> set (g_scope h) \<and> set (g_cashScope g) \<subseteq> set (g_cashScope h)"
    "g_state h = StateDegraded \<and> g_state k = StateDegraded \<longrightarrow> set (g_scope h) \<subseteq> set (g_scope k) \<and> set (g_cashScope h) \<subseteq> set (g_cashScope k)"
  { assume "g_state g = StateDegraded \<and> g_state k = StateDegraded"
    then have "g_state h = StateDegraded" using *(1, 2) by (cases "g_state h") auto
    with * \<open>g_state g = StateDegraded \<and> g_state k = StateDegraded\<close>
    show "set (g_scope g) \<subseteq> set (g_scope k)" "set (g_cashScope g) \<subseteq> set (g_cashScope k)" by auto }
qed auto

lemma tighter_same:
  "g_state h = g_state g \<Longrightarrow> g_scope h = g_scope g \<Longrightarrow> g_cashScope h = g_cashScope g \<Longrightarrow> g_incident h = g_incident g \<Longrightarrow> tighter g h"
  by (simp add: tighter_def)

lemma moveState_simps [simp]:
  "g_state (fst (moveState g st c)) = st" "g_scope (fst (moveState g st c)) = g_scope g" "g_cashScope (fst (moveState g st c)) = g_cashScope g"
  "g_state g \<noteq> StateNormal \<Longrightarrow> g_incident (fst (moveState g st c)) = g_incident g"
  by (simp_all add: moveState_def Let_def)

lemma enterState_incident [simp]: "g_state g \<noteq> StateNormal \<Longrightarrow> g_incident (fst (enterState g out st p c)) = g_incident g"
  by (simp add: enterState_def split_beta Let_def)

lemma haltGate_tighter: "tighter g (fst (haltGate g out d c))"
  by (simp add: tighter_def haltGate_def split_beta Let_def)

lemma degradeGate_tighter: "g_state g \<noteq> StateHalted \<Longrightarrow> tighter g (fst (degradeGate g out i d c))"
  by (cases "g_state g") (auto simp: tighter_def degradeGate_def Let_def)

lemma order_closed_tighter: "order_closed (tighter g) ord"
  unfolding order_closed_def
proof (intro allI impI conjI; (elim conjE)?)
  fix h out d c assume t: "tighter g h" and "g_state h \<noteq> StateHalted"
  show "tighter g (fst (haltGate h out d c))" using t haltGate_tighter by (rule tighter_trans)
  show "tighter g (fst (degradeGate h out (op_InstrumentID (o_Planned ord)) d c))"
    using t degradeGate_tighter [OF \<open>g_state h \<noteq> StateHalted\<close>] by (rule tighter_trans)
qed (auto simp: tighter_def releaseOrder_def Let_def)

lemma checkOrder_tighter: "tighter g (fst (checkOrder g ord n counted book))"
  by (rule checkOrder_closed [OF order_closed_tighter]) simp

text \<open>The state an outcome journals is the state the gate is left in, with its scope.\<close>

definition journals :: "gate \<times> gate_outcome \<Rightarrow> bool" where
  "journals x \<longleftrightarrow> (case out_State (snd x) of None \<Rightarrow> True
     | Some p \<Rightarrow> g_state (fst x) = es_State p \<and> (es_State p = StateDegraded \<longrightarrow> g_scope (fst x) = es_ScopeInstrumentIDs p))"

lemma journals_simps [simp]:
  "journals (h, refuse g ord f reason d)" "journals (h, alertRefusal a (refuse g ord f reason d))"
  "journals (haltGate g out d c)" "journals (degradeGate g out i d c)" "journals (releaseOrder g ord f)"
  by (simp_all add: journals_def haltGate_def degradeGate_def enterState_def moveState_def split_beta Let_def)

lemma journals_checkSale: "journals (checkSale g ord f)"
  by (simp add: checkSale_def Let_def)

lemma journals_checkLimits: "journals (checkLimits g ord f counted book unvalued)"
  by (simp add: checkLimits_def Let_def split: option.splits)

lemma journals_checkOrder: "journals (checkOrder g ord n counted book)"
proof -
  obtain f unvalued where f: "orderFigures g ord n book = (f, unvalued)" by fastforce
  show ?thesis unfolding checkOrder_def Let_def f
    by (simp add: journals_checkSale journals_checkLimits openStale_def split: option.splits sum.splits)
qed

section \<open>A plan\<close>

text \<open>What every answer says of its order: exactly one payload, naming the order it answers.\<close>

definition answers :: "string \<Rightarrow> gate_order \<Rightarrow> gate_outcome \<Rightarrow> bool" where
  "answers accountID ord out \<longleftrightarrow> (let p = o_Planned ord in
     case (out_Released out, out_Refused out) of
       (Some r, None) \<Rightarrow> rel_AccountID r = accountID \<and> rel_PlanID r = o_PlanID ord \<and> rel_Tag r = op_Tag p \<and> rel_ClientOrderID r = op_ClientOrderID p \<and>
         rel_InstrumentID r = op_InstrumentID p \<and> rel_Side r = op_Side p \<and> rel_Quantity r = op_Quantity p \<and> rel_QuantityScale r = op_QuantityScale p \<and>
         rel_LimitPrice r = op_LimitPrice p
     | (None, Some r) \<Rightarrow> ref_AccountID r = accountID \<and> ref_PlanID r = o_PlanID ord \<and> ref_Tag r = op_Tag p \<and> ref_ClientOrderID r = op_ClientOrderID p \<and>
         ref_InstrumentID r = op_InstrumentID p \<and> ref_Side r = op_Side p \<and> ref_Quantity r = op_Quantity p \<and> ref_QuantityScale r = op_QuantityScale p \<and>
         ref_LimitPrice r = op_LimitPrice p
     | _ \<Rightarrow> False)"

lemma answers_release: "answers (g_accountID g) ord (snd (releaseOrder g ord f))"
  by (simp add: answers_def releaseOrder_def noOutcome_def Let_def)

lemma answers_refuses: "refuses g ord f out \<Longrightarrow> answers (g_accountID g) ord out"
  by (auto simp: answers_def refuses_def refusal_def Let_def)

lemma afterIssue_account [simp]: "g_accountID (afterIssue g ord) = g_accountID g"
  by (simp add: afterIssue_def)

lemma answers_checkOrder: "answers (g_accountID g) ord (snd (checkOrder g ord n counted book))"
  using checkOrder_cases [where g = g and ord = ord and n = n and book = book and counted = counted] answers_release [of "afterIssue g ord" ord]
  by (auto dest: answers_refuses)

lemma same_account_id: "same_account g h \<Longrightarrow> g_accountID h = g_accountID g"
  by (simp add: same_account_def gate_limits.truncate_def)

lemma checkPlan_answers: "list_all2 (answers (g_accountID g)) plan (snd (checkPlan g n counted book plan))"
proof (induction plan arbitrary: g book)
  case (Cons ord plan)
  show ?case using answers_checkOrder [of g ord n counted book] same_account_id [OF checkOrder_same [of g ord n counted book]]
      Cons.IH [of "fst (checkOrder g ord n counted book)" "applyRelease book ord (snd (checkOrder g ord n counted book))"]
    by (simp add: split_beta Let_def)
qed simp

lemma freshCheck_simps [simp]:
  "g_accountID (freshCheck g t) = g_accountID g" "g_state (freshCheck g t) = g_state g" "g_scope (freshCheck g t) = g_scope g"
  "g_decided (freshCheck g t) = g_decided g" "g_killEngaged (freshCheck g t) = g_killEngaged g" "g_ledger (freshCheck g t) = g_ledger g"
  "g_broker (freshCheck g t) = g_broker g" "g_brokerView (freshCheck g t) = g_brokerView g" "g_limits (freshCheck g t) = g_limits g"
  "g_ira (freshCheck g t) = g_ira g" "g_cashScope (freshCheck g t) = g_cashScope g" "g_incident (freshCheck g t) = g_incident g"
  by (simp_all add: freshCheck_def split: option.splits)

lemma Check_plan:
  "Check g book plan = Inr (g', outs) \<longleftrightarrow> planErrs g book plan = [] \<and>
     checkPlan (freshCheck g (gb_At book)) (gb_PriorOrders book + int (length plan))
       (gb_PriorCounted book + int (length (filter (\<lambda>ord. \<not> riskReducing (freshCheck g (gb_At book)) (o_Planned ord)) plan))) book plan = (g', outs)"
  by (simp add: Check_def Let_def)

text \<open>C22: Every order of a plan the gate accepts is answered once, in plan order, by exactly one of a release and
  a refusal, and the answer names that order: its plan, tag, client order ID, instrument, side, quantity,
  scale and limit.\<close>

theorem Check_answers_every_order:
  assumes "Check g book plan = Inr (g', outs)"
  shows "length outs = length plan \<and> (\<forall>i<length plan. answers (g_accountID g) (plan ! i) (outs ! i))"
proof -
  have "list_all2 (answers (g_accountID g)) plan outs"
    using assms checkPlan_answers [of "freshCheck g (gb_At book)" plan] by (auto simp: Check_plan) (metis snd_conv)
  then show ?thesis by (simp add: list_all2_conv_all_nth)
qed

theorem Check_answers_every_order_witness:
  "\<exists>g' outs. Check example_ready example_book example_plan = Inr (g', outs) \<and> answers ''U1'' (example_plan ! 2) (outs ! 2)"
proof -
  obtain g' outs where c: "Check example_ready example_book example_plan = Inr (g', outs)" using example_outcomes by blast
  have "g_accountID example_ready = ''U1''" by code_simp
  moreover have "2 < length example_plan" by (simp add: example_plan_def)
  ultimately have "answers ''U1'' (example_plan ! 2) (outs ! 2)" using Check_answers_every_order [OF c] by metis
  then show ?thesis using c by blast
qed

definition allowed :: "gate_order \<Rightarrow> engine_state \<Rightarrow> string list \<Rightarrow> bool" where
  "allowed ord st scope \<longleftrightarrow> st \<noteq> StateHalted \<and>
     (st = StateDegraded \<longrightarrow> op_Side (o_Planned ord) \<noteq> OrderSideBuy \<and> op_InstrumentID (o_Planned ord) \<notin> set scope)"

lemma allowed_tighter:
  assumes "tighter g h" "allowed ord (g_state h) (g_scope h)"
  shows "allowed ord (g_state g) (g_scope g)"
  using assms by (cases "g_state h") (auto simp: allowed_def tighter_def)

text \<open>A release that is not a sale found its guards in the gate it was checked in.\<close>

lemma checkOrder_release_allowed:
  assumes "out_Released (snd (checkOrder g ord n counted book)) \<noteq> None" "op_Sale (o_Planned ord) = noSale"
  shows "passes g ord n counted book"
  using checkOrder_cases [where g = g and ord = ord and n = n and book = book and counted = counted] assms by (auto simp: refuses_def issued_def Let_def)

lemma passes_allowed:
  "passes g ord n counted book \<Longrightarrow> allowed ord (g_state g) (g_scope g) \<and> op_Tag (o_Planned ord) \<in> g_decided g \<and> \<not> g_killEngaged g"
  by (auto simp: passes_def allowed_def Let_def split_beta)

lemma checkPlan_release_allowed:
  assumes "i < length plan" "op_Sale (o_Planned (plan ! i)) = noSale" "out_Released (snd (checkPlan g n counted book plan) ! i) \<noteq> None"
  shows "allowed (plan ! i) (g_state g) (g_scope g) \<and> op_Tag (o_Planned (plan ! i)) \<in> g_decided g \<and> \<not> g_killEngaged g \<and>
    (\<forall>j<i. \<forall>p. out_State (snd (checkPlan g n counted book plan) ! j) = Some p \<longrightarrow> allowed (plan ! i) (es_State p) (es_ScopeInstrumentIDs p))"
  using assms
proof (induction plan arbitrary: g book i)
  case (Cons ord plan)
  let ?x = "checkOrder g ord n counted book" and ?o = "\<lambda>i. (ord # plan) ! i"
  let ?b = "applyRelease book ord (snd ?x)"
  show ?case
  proof (cases i)
    case 0
    then show ?thesis using Cons.prems checkOrder_release_allowed [of g ord n counted book] passes_allowed [of g ord n counted book]
      by (simp add: split_beta Let_def)
  next
    case (Suc k)
    have ih: "allowed (plan ! k) (g_state (fst ?x)) (g_scope (fst ?x))" "op_Tag (o_Planned (plan ! k)) \<in> g_decided (fst ?x)" "\<not> g_killEngaged (fst ?x)"
      "\<And>j p. j < k \<Longrightarrow> out_State (snd (checkPlan (fst ?x) n counted ?b plan) ! j) = Some p \<Longrightarrow> allowed (plan ! k) (es_State p) (es_ScopeInstrumentIDs p)"
      using Cons.IH [of k "fst ?x" ?b] Cons.prems Suc by (simp_all add: split_beta Let_def)
    have "out_State (snd ?x) = Some p \<Longrightarrow> allowed (plan ! k) (es_State p) (es_ScopeInstrumentIDs p)" for p
      using journals_checkOrder [of g ord n counted book] ih(1) by (auto simp: journals_def allowed_def)
    moreover have "allowed (plan ! k) (g_state g) (g_scope g)" using checkOrder_tighter ih(1) by (rule allowed_tighter)
    ultimately show ?thesis using ih Suc checkOrder_same [of g ord n counted book]
      by (auto simp: same_account_def split_beta Let_def less_Suc_eq_0_disj)
  qed
qed simp

lemma OrderPlanned_sale: "OrderPlanned_Validate p = [] \<Longrightarrow> op_Sale p \<noteq> noSale \<Longrightarrow> op_Side p = OrderSideSell"
  by (auto simp: OrderPlanned_Validate_def OrderPlanned_fields_def SaleFigures_validate_def Let_def split: if_splits)

lemma orderErrs_sale:
  assumes "orderErrs g ord = []" "op_Sale (o_Planned ord) \<noteq> noSale"
  shows "op_Side (o_Planned ord) = OrderSideSell"
proof -
  let ?p = "o_Planned ord"
  have "OrderPlanned_Validate (if op_Tag ?p = '''' then ?p\<lparr>op_Tag := ''untagged''\<rparr> else ?p) = []"
    using assms(1) by (auto simp: orderErrs_def Let_def split: if_splits)
  from OrderPlanned_sale [OF this] assms(2) show ?thesis by (cases "op_Tag ?p = ''''") simp_all
qed

lemma planErrs_orders: "planErrs g book plan = [] \<Longrightarrow> ord \<in> set plan \<Longrightarrow> orderErrs g ord = []"
  by (auto simp: planErrs_def filter_empty_conv dest: filter_eq_ConsD split: if_splits list.splits)

text \<open>What an order leaves of the sale attempts: none becomes pending, and the only sale tag it can add is the one of the
  incident it opened, which its outcome journals.\<close>

definition saleMoves :: "gate \<Rightarrow> gate \<times> gate_outcome \<Rightarrow> bool" where
  "saleMoves g x \<longleftrightarrow> g_pending (fst x) \<subseteq> g_pending g \<and> g_saleTags (fst x) \<subseteq> insert (out_StateID (snd x)) (g_saleTags g)"

lemma saleMoves_simps [simp]:
  "saleMoves g (g, refuse h ord f reason d)" "saleMoves g (haltGate g (refuse h ord f reason d) e c)"
  "saleMoves g (degradeGate g (refuse h ord f reason d) i e c)" "saleMoves g (releaseOrder g ord f)"
  "saleMoves g (g_killAlerted_update ka g, alertRefusal a (refuse h ord f reason d))" "saleMoves g (g_staleOpen_update ka g, alertRefusal a (refuse h ord f reason d))"
  "saleMoves g (g_pendingCash_update pc g, alertRefusal a (refuse h ord f reason d))"
  "saleMoves g (g\<lparr>g_pending := g_pending g - {c}\<rparr>, refuse h ord f reason d)" "saleMoves g (releaseOrder (g\<lparr>g_pending := g_pending g - {c}\<rparr>) ord f)"
  by (auto simp add: saleMoves_def haltGate_def degradeGate_def enterState_def moveState_def releaseOrder_def Let_def)

lemma checkOrder_saleMoves: "saleMoves g (checkOrder g ord n counted book)"
proof -
  obtain f unvalued where f: "orderFigures g ord n book = (f, unvalued)" by fastforce
  have s: "saleMoves g (checkSale g ord f)" by (simp add: checkSale_def Let_def)
  have l: "saleMoves g (checkLimits g ord f counted book unvalued)" by (simp add: checkLimits_def Let_def split: option.splits)
  show ?thesis using s l unfolding checkOrder_def Let_def f by (simp add: openStale_def split: option.splits sum.splits)
qed

lemma releaseOrder_Figures: "out_Released (snd (releaseOrder g ord f)) = Some r \<Longrightarrow> rel_Figures r = f"
  by (auto simp: releaseOrder_def Let_def)

lemma freshCheck_sales [simp]: "g_saleTags (freshCheck g t) = g_saleTags g" "g_pending (freshCheck g t) = g_pending g"
  by (simp_all add: freshCheck_def split: option.splits)

text \<open>A sale back to 98 percent that is released was issued, and is pending no more.\<close>

lemma checkOrder_release_sale:
  assumes "out_Released (snd (checkOrder g ord n counted book)) = Some r" "op_Sale (o_Planned ord) \<noteq> noSale"
  shows "issued g ord (rel_Figures r) \<and> op_ClientOrderID (o_Planned ord) \<notin> g_pending (fst (checkOrder g ord n counted book))"
proof -
  let ?f = "fst (orderFigures g ord n book)"
  have i: "issued g ord ?f" and x: "checkOrder g ord n counted book = releaseOrder (afterIssue g ord) ord ?f"
    using checkOrder_cases [where g = g and ord = ord and n = n and book = book and counted = counted] assms
    by (auto simp: refuses_def passes_def Let_def split_beta)
  have "rel_Figures r = ?f" using assms(1) unfolding x by (rule releaseOrder_Figures)
  then show ?thesis using i assms(2) unfolding x by (simp add: releaseOrder_def afterIssue_def Let_def)
qed

lemma checkPlan_release_sale:
  assumes "i < length plan" "op_Sale (o_Planned (plan ! i)) \<noteq> noSale" "out_Released (snd (checkPlan g n counted book plan) ! i) = Some r"
  shows "(op_Tag (o_Planned (plan ! i)) \<in> g_saleTags g \<or> (\<exists>j<i. op_Tag (o_Planned (plan ! i)) = out_StateID (snd (checkPlan g n counted book plan) ! j))) \<and>
    op_ClientOrderID (o_Planned (plan ! i)) \<in> g_pending g \<and> rf_BrokerSet (rel_Figures r) \<and>
    op_Quantity (o_Planned (plan ! i)) \<le> subtractPending (rf_BrokerHolding (rel_Figures r)) (rf_WorkingSells (rel_Figures r)) \<and>
    (\<forall>j<i. op_Sale (o_Planned (plan ! j)) \<noteq> noSale \<and> op_ClientOrderID (o_Planned (plan ! j)) = op_ClientOrderID (o_Planned (plan ! i)) \<longrightarrow>
       out_Released (snd (checkPlan g n counted book plan) ! j) = None)"
  using assms
proof (induction plan arbitrary: g book i)
  case (Cons ord plan)
  let ?x = "checkOrder g ord n counted book"
  let ?b = "applyRelease book ord (snd ?x)"
  show ?case
  proof (cases i)
    case 0
    then show ?thesis using Cons.prems checkOrder_release_sale [of g ord n counted book r] by (simp add: split_beta Let_def issued_def)
  next
    case (Suc k)
    have m: "g_pending (fst ?x) \<subseteq> g_pending g" "g_saleTags (fst ?x) \<subseteq> insert (out_StateID (snd ?x)) (g_saleTags g)"
      using checkOrder_saleMoves [of g ord n counted book] by (simp_all add: saleMoves_def)
    have ih: "op_Tag (o_Planned (plan ! k)) \<in> g_saleTags (fst ?x) \<or> (\<exists>j<k. op_Tag (o_Planned (plan ! k)) = out_StateID (snd (checkPlan (fst ?x) n counted ?b plan) ! j))"
      "op_ClientOrderID (o_Planned (plan ! k)) \<in> g_pending (fst ?x)" "rf_BrokerSet (rel_Figures r)"
      "op_Quantity (o_Planned (plan ! k)) \<le> subtractPending (rf_BrokerHolding (rel_Figures r)) (rf_WorkingSells (rel_Figures r))"
      "\<And>j. j < k \<Longrightarrow> op_Sale (o_Planned (plan ! j)) \<noteq> noSale \<Longrightarrow> op_ClientOrderID (o_Planned (plan ! j)) = op_ClientOrderID (o_Planned (plan ! k)) \<Longrightarrow>
         out_Released (snd (checkPlan (fst ?x) n counted ?b plan) ! j) = None"
      using Cons.IH [of k "fst ?x" ?b] Cons.prems Suc by (simp_all add: split_beta Let_def)
    have "out_Released (snd ?x) = None" if "op_Sale (o_Planned ord) \<noteq> noSale" "op_ClientOrderID (o_Planned ord) = op_ClientOrderID (o_Planned (plan ! k))"
      using checkOrder_release_sale [of g ord n counted book] that ih(2) by (cases "out_Released (snd ?x)") auto
    moreover have "op_Tag (o_Planned (plan ! k)) \<in> g_saleTags g \<or>
        (\<exists>j<Suc k. op_Tag (o_Planned (plan ! k)) = out_StateID ((snd ?x # snd (checkPlan (fst ?x) n counted ?b plan)) ! j))"
      using ih(1) m(2) unfolding Ex_less_Suc2 by auto
    ultimately show ?thesis using ih m(1) Suc by (auto simp: split_beta Let_def less_Suc_eq_0_disj)
  qed
qed simp

text \<open>C23: every order a check releases was authorised. An order other than a sale back to 98 percent carries the tag of a
  journalled decision, was checked with the kill switch not engaged, and is allowed by the engine state, both as it was when the
  check began and as every earlier order of the plan left it: nothing but such a sale is released once the account is Halted, and
  once it is Degraded only sells of instruments its scope does not name are. A sale back to 98 percent, which those guards let
  pass, carries the tag of an incident, an alarm or an engaged kill switch the gate holds (or of the incident an earlier order of
  the plan opened), answers an attempt that was still pending, each attempt being released once, and sells no more than a
  readable broker snapshot shows held less the sells still working.\<close>

theorem Check_release_authorised:
  assumes "Check g book plan = Inr (g', outs)" "i < length plan" "out_Released (outs ! i) = Some r"
  shows "(op_Sale (o_Planned (plan ! i)) = noSale \<longrightarrow>
      op_Tag (o_Planned (plan ! i)) \<in> g_decided g \<and> \<not> g_killEngaged g \<and> allowed (plan ! i) (g_state g) (g_scope g) \<and>
      (\<forall>j<i. \<forall>p. out_State (outs ! j) = Some p \<longrightarrow> allowed (plan ! i) (es_State p) (es_ScopeInstrumentIDs p))) \<and>
    (op_Sale (o_Planned (plan ! i)) \<noteq> noSale \<longrightarrow>
      (op_Tag (o_Planned (plan ! i)) \<in> g_saleTags g \<or> (\<exists>j<i. op_Tag (o_Planned (plan ! i)) = out_StateID (outs ! j))) \<and>
      op_ClientOrderID (o_Planned (plan ! i)) \<in> g_pending g \<and> op_Side (o_Planned (plan ! i)) = OrderSideSell \<and> rf_BrokerSet (rel_Figures r) \<and>
      op_Quantity (o_Planned (plan ! i)) \<le> subtractPending (rf_BrokerHolding (rel_Figures r)) (rf_WorkingSells (rel_Figures r)) \<and>
      (\<forall>j<i. op_Sale (o_Planned (plan ! j)) \<noteq> noSale \<and> op_ClientOrderID (o_Planned (plan ! j)) = op_ClientOrderID (o_Planned (plan ! i)) \<longrightarrow>
         out_Released (outs ! j) = None))"
proof -
  let ?g = "freshCheck g (gb_At book)"
  obtain n counted where c: "checkPlan ?g n counted book plan = (g', outs)" "planErrs g book plan = []" using assms(1) by (auto simp: Check_plan)
  have side: "op_Sale (o_Planned (plan ! i)) \<noteq> noSale \<longrightarrow> op_Side (o_Planned (plan ! i)) = OrderSideSell"
    using planErrs_orders [OF c(2), of "plan ! i"] assms(2) orderErrs_sale [of g "plan ! i"] by simp
  show ?thesis
    using checkPlan_release_allowed [OF assms(2), of ?g n counted book] checkPlan_release_sale [OF assms(2), of ?g n counted book r] c(1) assms(3) side
    by simp
qed

theorem Check_release_authorised_witness:
  "\<exists>g' outs. Check example_ready example_book example_plan = Inr (g', outs) \<and> out_Released (outs ! 1) \<noteq> None \<and>
     allowed (example_plan ! 1) (g_state example_ready) (g_scope example_ready)"
proof -
  obtain g' outs where c: "Check example_ready example_book example_plan = Inr (g', outs)" "out_Released (outs ! 1) \<noteq> None" using example_outcomes by blast
  then obtain r where r: "out_Released (outs ! 1) = Some r" by blast
  have "1 < length example_plan" "op_Sale (o_Planned (example_plan ! 1)) = noSale" by (simp_all add: example_plan_def example_order_def)
  then show ?thesis using Check_release_authorised [OF c(1) _ r] c by blast
qed

section \<open>Sells\<close>

lemma OrderPlanned_identity:
  assumes "OrderPlanned_Validate p = []"
  shows "0 < op_Quantity p \<and> op_InstrumentID p \<noteq> '''' \<and> op_ClientOrderID p \<noteq> '''' \<and> (op_Side p = OrderSideBuy \<or> op_Side p = OrderSideSell)"
  using assms by (auto simp: OrderPlanned_Validate_def OrderPlanned_fields_def orderIdentity_def Let_def split: if_splits)

lemma orderErrs_identity:
  assumes "orderErrs g ord = []"
  shows "0 < op_Quantity (o_Planned ord) \<and> op_InstrumentID (o_Planned ord) \<noteq> '''' \<and> op_ClientOrderID (o_Planned ord) \<noteq> '''' \<and>
    (op_Side (o_Planned ord) = OrderSideBuy \<or> op_Side (o_Planned ord) = OrderSideSell)"
proof -
  let ?p = "o_Planned ord"
  have "OrderPlanned_Validate (if op_Tag ?p = '''' then ?p\<lparr>op_Tag := ''untagged''\<rparr> else ?p) = []"
    using assms by (auto simp: orderErrs_def Let_def split: if_splits)
  from OrderPlanned_identity [OF this] show ?thesis by (auto split: if_splits)
qed

text \<open>The latest broker snapshot is readable, and its view in the ledger holds what its rows say.\<close>

definition brokerReadable :: "gate \<Rightarrow> bool" where
  "brokerReadable g \<longleftrightarrow> (case g_broker g of None \<Rightarrow> False
     | Some s \<Rightarrow> BrokerReadable s BrokerComponentPositions \<and> BrokerReadable s BrokerComponentOpenOrders)"

definition brokerShares :: "broker_snapshot_payload \<Rightarrow> string \<Rightarrow> int" where
  "brokerShares s i = (case BrokerSnapshot_Position s i of None \<Rightarrow> 0 | Some p \<Rightarrow> bp_Quantity p)"

definition view_ok :: "gate \<Rightarrow> bool" where
  "view_ok g \<longleftrightarrow> (case g_broker g of None \<Rightarrow> True
     | Some s \<Rightarrow> 0 < v_by (g_brokerView g) \<and> v_by (g_brokerView g) \<le> sl_snapshots (g_ledger g) \<and>
         (BrokerReadable s BrokerComponentPositions \<longrightarrow> (\<forall>i. mget (sl_held (g_ledger g) (v_by (g_brokerView g))) i 0 = brokerShares s i)))"

lemma brokerHolding_readable:
  "brokerReadable g \<Longrightarrow> g_broker g = Some s \<Longrightarrow> brokerHolding g i = Some (brokerShares s i, unshown (g_ledger g) i (g_brokerView g))"
  by (auto simp: brokerReadable_def brokerHolding_def brokerShares_def split: option.splits)

lemma brokerHolding_None: "\<not> brokerReadable g \<longleftrightarrow> brokerHolding g i = None"
  by (auto simp: brokerReadable_def brokerHolding_def split: option.splits)

lemma gateFigures_broker:
  "brokerHolding g (op_InstrumentID (o_Planned ord)) = Some (h, w) \<Longrightarrow>
     rf_BrokerSet (fst (gateFigures g ord n book cost)) \<and> rf_BrokerHolding (fst (gateFigures g ord n book cost)) = h \<and>
     rf_WorkingSells (fst (gateFigures g ord n book cost)) = w"
  by (simp add: gateFigures_def Let_def split_beta)

lemma orderFigures_sell:
  "op_Side (o_Planned ord) = OrderSideSell \<Longrightarrow> orderFigures g ord n book = gateFigures g ord n book (rnd 0)"
  by (simp add: orderFigures_def debit_def Let_def)

lemma netted_within_remains:
  assumes "ledger_wf l" "v_by v \<noteq> 0" "0 < q" "q \<le> subtractPending (mget (sl_held l (v_by v)) i 0) (unshown l i v)"
  shows "q \<le> remains l i"
proof -
  let ?h = "mget (sl_held l (v_by v)) i 0"
  have h: "in64 ?h" using assms(1) by (simp add: ledger_wf_def)
  have r: "0 \<le> remains l i" by (rule remains_nonneg)
  show ?thesis
  proof (cases "remains l i \<le> max64")
    case True
    then have ok: "quantity_ok (remains l i)" using r by (simp add: quantity_ok_def)
    have u: "unshown l i v = max (max min64 (?h - remains l i)) 0" using assms(2) by (simp add: unshown_def subtractPending_eq [OF h ok])
    have "quantity_ok (unshown l i v)" using u h r by (simp add: quantity_ok_def in64_def max64_def min64_def)
    then have "q \<le> max min64 (?h - unshown l i v)" using assms(4) by (simp add: subtractPending_eq [OF h])
    then show ?thesis using u assms(3) r h by (auto simp: min64_def max_def split: if_splits)
  next
    case False
    have "subtractPending ?h w \<le> max64" for w using h by (auto simp: subtractPending_def in64_def min64_def max64_def sub64_def wrap64_def)
    with False assms(4) show ?thesis by (meson le_cases order_trans)
  qed
qed

text \<open>Every released sell, a sale back to 98 percent or not, is sized within what remains of its instrument.\<close>

lemma breach_sell:
  assumes "breach g ord f counted book unvalued = None" "op_Side (o_Planned ord) = OrderSideSell"
  shows "(rf_BrokerSet f \<longrightarrow> op_Quantity (o_Planned ord) \<le> subtractPending (rf_BrokerHolding f) (rf_WorkingSells f)) \<and>
    op_Quantity (o_Planned ord) \<le> subtractPending (mget (gb_Holdings book) (op_InstrumentID (o_Planned ord)) 0) (mget (gb_WorkingSells book) (op_InstrumentID (o_Planned ord)) 0)"
  using assms by (auto simp: breach_def Let_def not_le split: if_splits)

lemma sell_within_remains:
  assumes "passes g ord n counted book \<or> issued g ord (fst (orderFigures g ord n book))" "op_Side (o_Planned ord) = OrderSideSell"
    and "ledger_wf (g_ledger g)" "brokerReadable g" "view_ok g" "0 < op_Quantity (o_Planned ord)"
  shows "op_Quantity (o_Planned ord) \<le> remains (g_ledger g) (op_InstrumentID (o_Planned ord))"
proof -
  let ?i = "op_InstrumentID (o_Planned ord)" and ?v = "g_brokerView g"
  obtain s where s: "g_broker g = Some s" using assms(4) by (auto simp: brokerReadable_def split: option.splits)
  have view: "v_by ?v \<noteq> 0" "mget (sl_held (g_ledger g) (v_by ?v)) ?i 0 = brokerShares s ?i"
    using assms(4, 5) s by (auto simp: view_ok_def brokerReadable_def)
  note f = gateFigures_broker [OF brokerHolding_readable [OF assms(4) s], of ord n book "rnd 0"]
  have "op_Quantity (o_Planned ord) \<le> subtractPending (brokerShares s ?i) (unshown (g_ledger g) ?i ?v)"
    using assms(1) f breach_sell [OF _ assms(2), of g "fst (orderFigures g ord n book)" counted book "snd (orderFigures g ord n book)"]
    by (auto simp: issued_def passes_def orderFigures_sell [OF assms(2)] Let_def split_beta)
  then show ?thesis using netted_within_remains [OF assms(3) view(1) assms(6)] view(2) by simp
qed

lemma releaseOrder_ledger:
  "g_ledger (fst (releaseOrder g ord f)) = (let p = o_Planned ord in if op_Side p = OrderSideSell
     then ledger_release (g_ledger g) (op_ClientOrderID p) (op_InstrumentID p) (op_Quantity p) else g_ledger g)"
  by (simp add: releaseOrder_def Let_def)

definition releasedSell :: "gate_outcome \<Rightarrow> (string \<times> string \<times> int) list" where
  "releasedSell out = (case out_Released out of None \<Rightarrow> []
     | Some r \<Rightarrow> if rel_Side r = OrderSideSell then [(rel_ClientOrderID r, rel_InstrumentID r, rel_Quantity r)] else [])"

lemma releaseOrder_sell:
  "releasedSell (snd (releaseOrder g ord f)) = (let p = o_Planned ord in if op_Side p = OrderSideSell
     then [(op_ClientOrderID p, op_InstrumentID p, op_Quantity p)] else [])"
  by (simp add: releasedSell_def releaseOrder_def Let_def)

lemma refuses_sells: "refuses g ord f out \<Longrightarrow> releasedSell out = []"
  by (simp add: refuses_def releasedSell_def)

definition ledgerMoves :: "gate \<Rightarrow> gate \<times> gate_outcome \<Rightarrow> bool" where
  "ledgerMoves g x \<longleftrightarrow> g_ledger (fst x) = fold (\<lambda>(c, i, q) l. ledger_release l c i q) (releasedSell (snd x)) (g_ledger g)"

lemma refused_sells [simp]: "releasedSell (refuse g ord f reason d) = []" "releasedSell (alertRefusal a out) = releasedSell out"
  by (simp_all add: releasedSell_def)

lemma ledgerMoves_simps [simp]:
  "ledgerMoves g (g, refuse h ord f reason d)" "ledgerMoves g (haltGate g (refuse h ord f reason d) e c)"
  "ledgerMoves g (degradeGate g (refuse h ord f reason d) i e c)" "ledgerMoves g (releaseOrder g ord f)"
  "ledgerMoves g (g_killAlerted_update ka g, alertRefusal a (refuse h ord f reason d))" "ledgerMoves g (g_staleOpen_update ka g, alertRefusal a (refuse h ord f reason d))"
  "ledgerMoves g (g_pendingCash_update pc g, alertRefusal a (refuse h ord f reason d))" "ledgerMoves g (g_pending_update ids g, refuse h ord f reason d)"
  "ledgerMoves g (releaseOrder (g_pending_update ids g) ord f)"
  by (simp_all add: ledgerMoves_def releaseOrder_sell releaseOrder_ledger Let_def)
    (simp_all add: releasedSell_def haltGate_def degradeGate_def enterState_def moveState_def Let_def)

lemma checkOrder_ledger: "ledgerMoves g (checkOrder g ord n counted book)"
proof -
  obtain f unvalued where f: "orderFigures g ord n book = (f, unvalued)" by fastforce
  have s: "ledgerMoves g (checkSale g ord f)" by (simp add: checkSale_def Let_def)
  have l: "ledgerMoves g (checkLimits g ord f counted book unvalued)" by (simp add: checkLimits_def Let_def split: option.splits)
  show ?thesis using s l unfolding checkOrder_def Let_def f by (simp add: openStale_def split: option.splits sum.splits)
qed

lemma covered_append:
  "covered rest commit l (xs @ ys) \<longleftrightarrow> covered rest commit l xs \<and> covered rest commit (fold (\<lambda>(c, i, q) l. commit l c i q) xs l) ys"
  by (induction xs arbitrary: l) auto

lemma checkOrder_sells_covered:
  assumes "ledger_wf (g_ledger g)" "brokerReadable g" "view_ok g" "0 < op_Quantity (o_Planned ord)" "op_Quantity (o_Planned ord) \<le> max64"
  shows "covered remains ledger_release (g_ledger g) (releasedSell (snd (checkOrder g ord n counted book)))"
  using checkOrder_cases [where g = g and ord = ord and n = n and book = book and counted = counted] sell_within_remains [of g ord n counted book] assms
  by (auto simp: releaseOrder_sell refuses_sells Let_def)

lemma fold_release_keeps:
  "ledger_wf l \<Longrightarrow> covered remains ledger_release l ss \<Longrightarrow> ledger_wf (fold (\<lambda>(c, i, q) l. ledger_release l c i q) ss l) \<and>
     sl_held (fold (\<lambda>(c, i, q) l. ledger_release l c i q) ss l) = sl_held l \<and> sl_snapshots (fold (\<lambda>(c, i, q) l. ledger_release l c i q) ss l) = sl_snapshots l"
proof (induction ss arbitrary: l)
  case (Cons s ss)
  obtain c i q where s: "s = (c, i, q)" by (cases s) auto
  have "ledger_wf (ledger_release l c i q)" using Cons.prems s by (simp add: ledger_wf_release quantity_ok_def)
  moreover have "sl_held (ledger_release l c i q) = sl_held l" "sl_snapshots (ledger_release l c i q) = sl_snapshots l"
    by (simp_all add: ledger_release_def Let_def)
  ultimately show ?case using Cons s by simp
qed simp

lemma checkPlan_sells_covered:
  assumes "ledger_wf (g_ledger g)" "brokerReadable g" "view_ok g" "\<forall>ord\<in>set plan. 0 < op_Quantity (o_Planned ord) \<and> op_Quantity (o_Planned ord) \<le> max64"
  shows "covered remains ledger_release (g_ledger g) (concat (map releasedSell (snd (checkPlan g n counted book plan))))"
  using assms
proof (induction plan arbitrary: g book)
  case (Cons ord plan)
  let ?x = "checkOrder g ord n counted book"
  have c: "covered remains ledger_release (g_ledger g) (releasedSell (snd ?x))" using Cons.prems by (intro checkOrder_sells_covered) auto
  have l: "g_ledger (fst ?x) = fold (\<lambda>(c, i, q) l. ledger_release l c i q) (releasedSell (snd ?x)) (g_ledger g)"
    using checkOrder_ledger [of g ord n counted book] by (simp add: ledgerMoves_def)
  note k = fold_release_keeps [OF Cons.prems(1) c, folded l] and s = checkOrder_same [of g ord n counted book]
  have "brokerReadable (fst ?x)" "view_ok (fst ?x)" using Cons.prems(2, 3) s k by (auto simp: same_account_def brokerReadable_def view_ok_def split: option.splits)
  then have "covered remains ledger_release (g_ledger (fst ?x)) (concat (map releasedSell (snd (checkPlan (fst ?x) n counted (applyRelease book ord (snd ?x)) plan))))"
    using Cons.prems(4) k by (intro Cons.IH) auto
  then show ?case using c l by (simp add: split_beta Let_def covered_append)
qed simp

lemma freshCheck_broker [simp]: "brokerReadable (freshCheck g t) = brokerReadable g" "view_ok (freshCheck g t) = view_ok g"
  by (simp_all add: brokerReadable_def view_ok_def split: option.splits)

text \<open>Without a readable broker snapshot a sell is checked against the account's book: its holdings, after the releases of the
  check so far, less the sells the book shows working.\<close>

definition quantities_ok :: "gate_book \<Rightarrow> bool" where
  "quantities_ok book \<longleftrightarrow> (\<forall>i. in64 (mget (gb_Holdings book) i 0) \<and> in64 (mget (gb_WorkingSells book) i 0) \<and> 0 \<le> mget (gb_WorkingSells book) i 0)"

definition bookRemains :: "gate_book \<Rightarrow> string \<Rightarrow> int" where
  "bookRemains book i = mget (gb_Holdings book) i 0 - mget (gb_WorkingSells book) i 0"

lemma quantities_okD: "quantities_ok book \<Longrightarrow> in64 (mget (gb_Holdings book) i 0) \<and> quantity_ok (mget (gb_WorkingSells book) i 0)"
  by (auto simp: quantities_ok_def quantity_ok_def in64_def)

lemma applyRelease_quantities: "quantities_ok book \<Longrightarrow> quantities_ok (applyRelease book ord out)"
  by (auto simp: quantities_ok_def applyRelease_def Let_def split: option.splits)

lemma within_book:
  assumes "quantities_ok book" "0 < q" "q \<le> subtractPending (mget (gb_Holdings book) i 0) (mget (gb_WorkingSells book) i 0)"
  shows "q \<le> bookRemains book i" and "sub64 (mget (gb_Holdings book) i 0) q = mget (gb_Holdings book) i 0 - q" and "q \<le> mget (gb_Holdings book) i 0"
proof -
  note ok = quantities_okD [OF assms(1), of i]
  show b: "q \<le> bookRemains book i" using assms(2,3) ok by (auto simp: subtractPending_eq bookRemains_def min64_def max_def split: if_splits)
  then show "q \<le> mget (gb_Holdings book) i 0" using ok by (simp add: bookRemains_def quantity_ok_def)
  then show "sub64 (mget (gb_Holdings book) i 0) q = mget (gb_Holdings book) i 0 - q"
    using ok assms(2) by (intro sub64_id) (auto simp: in64_def min64_def max64_def)
qed

lemma fallback_release:
  assumes "\<not> brokerReadable g" "out_Released (snd (checkOrder g ord n counted book)) = Some r"
  shows "op_Sale (o_Planned ord) = noSale \<and> (op_Side (o_Planned ord) = OrderSideSell \<longrightarrow>
    op_Quantity (o_Planned ord) \<le> subtractPending (mget (gb_Holdings book) (op_InstrumentID (o_Planned ord)) 0)
      (mget (gb_WorkingSells book) (op_InstrumentID (o_Planned ord)) 0))"
proof -
  let ?f = "fst (orderFigures g ord n book)"
  have "brokerHolding g (op_InstrumentID (o_Planned ord)) = None" using assms(1) brokerHolding_None by blast
  then have "\<not> rf_BrokerSet ?f" by (auto simp: orderFigures_def gateFigures_def noFigures_def Let_def split_beta split: sum.splits)
  then have "\<not> issued g ord ?f" by (simp add: issued_def Let_def)
  then have "passes g ord n counted book"
    using checkOrder_cases [where g = g and ord = ord and n = n and book = book and counted = counted] assms(2) by (auto simp: refuses_def)
  then show ?thesis using breach_sell [of g ord ?f counted book "snd (orderFigures g ord n book)"]
    by (auto simp: passes_def Let_def split_beta)
qed

lemma fallback_plan:
  assumes "\<not> brokerReadable g" "quantities_ok book" "\<forall>ord\<in>set plan. 0 < op_Quantity (o_Planned ord)"
    and "\<forall>ord\<in>set plan. op_InstrumentID (o_Planned ord) = i \<longrightarrow> op_Side (o_Planned ord) = OrderSideSell"
  shows "soldOf i (concat (map releasedSell (snd (checkPlan g n counted book plan)))) \<le> max 0 (bookRemains book i)"
  using assms
proof (induction plan arbitrary: g book)
  case Nil
  then show ?case by (simp add: soldOf_def)
next
  case (Cons ord plan)
  let ?x = "checkOrder g ord n counted book" and ?p = "o_Planned ord"
  let ?b = "applyRelease book ord (snd ?x)"
  have b: "\<not> brokerReadable (fst ?x)" using Cons.prems(1) checkOrder_same [of g ord n counted book] by (auto simp: same_account_def brokerReadable_def)
  have ih: "soldOf i (concat (map releasedSell (snd (checkPlan (fst ?x) n counted ?b plan)))) \<le> max 0 (bookRemains ?b i)"
    using Cons.prems(3,4) by (intro Cons.IH [OF b applyRelease_quantities [OF Cons.prems(2)]]) auto
  have split: "soldOf i (releasedSell (snd ?x)) + max 0 (bookRemains ?b i) \<le> max 0 (bookRemains book i)"
  proof (cases "out_Released (snd ?x)")
    case None
    then show ?thesis by (simp add: releasedSell_def soldOf_def applyRelease_def)
  next
    case (Some r)
    note f = fallback_release [OF Cons.prems(1) Some]
    have r: "rel_InstrumentID r = op_InstrumentID ?p" "rel_Side r = op_Side ?p" "rel_Quantity r = op_Quantity ?p"
      using answers_checkOrder [of g ord n counted book] Some by (auto simp: answers_def Let_def split: option.splits)
    have side: "op_InstrumentID ?p = i \<Longrightarrow> op_Side ?p = OrderSideSell" and q: "0 < op_Quantity ?p" using Cons.prems(3,4) by auto
    show ?thesis
    proof (cases "op_InstrumentID ?p = i")
      case True
      note w = within_book [OF Cons.prems(2) q, of i]
      show ?thesis using w f side [OF True] Some r True
        by (auto simp: releasedSell_def soldOf_def applyRelease_def bookRemains_def Let_def)
    next
      case False
      then show ?thesis using Some r by (auto simp: releasedSell_def soldOf_def applyRelease_def bookRemains_def Let_def)
    qed
  qed
  have "soldOf i (concat (map releasedSell (snd (checkPlan g n counted book (ord # plan))))) =
      soldOf i (releasedSell (snd ?x)) + soldOf i (concat (map releasedSell (snd (checkPlan (fst ?x) n counted ?b plan))))"
    by (simp add: split_beta Let_def soldOf_def)
  then show ?case using ih split by linarith
qed

lemma checkPlan_fallback_sale:
  assumes "\<not> brokerReadable g" "j < length plan" "op_Sale (o_Planned (plan ! j)) \<noteq> noSale"
  shows "out_Released (snd (checkPlan g n counted book plan) ! j) = None"
  using assms
proof (induction plan arbitrary: g book j)
  case (Cons ord plan)
  let ?x = "checkOrder g ord n counted book"
  have b: "\<not> brokerReadable (fst ?x)" using Cons.prems(1) checkOrder_same [of g ord n counted book] by (auto simp: same_account_def brokerReadable_def)
  show ?case
  proof (cases j)
    case 0
    then show ?thesis using Cons.prems fallback_release [OF Cons.prems(1), of ord n counted book]
      by (cases "out_Released (snd ?x)") (simp_all add: split_beta Let_def)
  next
    case (Suc k)
    then show ?thesis using Cons.IH [OF b, of k] Cons.prems by (simp add: split_beta Let_def)
  qed
qed simp

text \<open>C24: the sells one check releases never sell short of what the gate can know. With a readable broker snapshot, its rows in
  the ledger's view of it and the ledger in order, as the engine keeps them, they take together, of every instrument, no more
  shares than the ledger says are sure to remain of it; so, if the recorded facts are truthful, no more than will really be held
  once every other working sell has filled, a sale back to 98 percent counting as any other sell. Without one, no sale back to 98
  percent is released, and the sells of an instrument the plan buys none of take together no more than the account's book holds
  of it less the sells the book shows working, whatever the ledger says.\<close>

theorem Check_sells_never_short:
  assumes "Check g book plan = Inr (g', outs)" and "list_all (\<lambda>ord. in64 (op_Quantity (o_Planned ord))) plan"
  shows "(ledger_wf (g_ledger g) \<and> brokerReadable g \<and> view_ok g \<longrightarrow>
      soldOf i (concat (map releasedSell outs)) \<le> remains (g_ledger g) i \<and>
      (\<forall>X F G H. truthful (g_ledger g) i X F G H \<and> 0 \<le> H \<longrightarrow> soldOf i (concat (map releasedSell outs)) \<le> H)) \<and>
    (\<not> brokerReadable g \<longrightarrow>
      (\<forall>j < length plan. op_Sale (o_Planned (plan ! j)) \<noteq> noSale \<longrightarrow> out_Released (outs ! j) = None) \<and>
      (quantities_ok book \<and> (\<forall>ord\<in>set plan. op_InstrumentID (o_Planned ord) = i \<longrightarrow> op_Side (o_Planned ord) = OrderSideSell) \<longrightarrow>
        soldOf i (concat (map releasedSell outs)) \<le> max 0 (mget (gb_Holdings book) i 0 - mget (gb_WorkingSells book) i 0)))"
proof -
  let ?g = "freshCheck g (gb_At book)"
  obtain n counted where p: "checkPlan ?g n counted book plan = (g', outs)" "planErrs g book plan = []" using assms(1) by (auto simp: Check_plan)
  have q: "\<forall>ord\<in>set plan. 0 < op_Quantity (o_Planned ord) \<and> op_Quantity (o_Planned ord) \<le> max64"
    using orderErrs_identity [OF planErrs_orders [OF p(2)]] assms(2) by (auto simp: list_all_iff in64_def)
  have "soldOf i (concat (map releasedSell outs)) \<le> remains (g_ledger g) i" if "ledger_wf (g_ledger g)" "brokerReadable g" "view_ok g"
  proof -
    have "covered remains ledger_release (g_ledger ?g) (concat (map releasedSell outs))"
      using checkPlan_sells_covered [of ?g plan n counted book] that q p(1) by simp
    then show ?thesis using netting.covered_within that(1) by simp
  qed
  moreover have "out_Released (outs ! j) = None" if "\<not> brokerReadable g" "j < length plan" "op_Sale (o_Planned (plan ! j)) \<noteq> noSale" for j
    using checkPlan_fallback_sale [of ?g j plan n counted book] that p(1) by simp
  moreover have "soldOf i (concat (map releasedSell outs)) \<le> max 0 (mget (gb_Holdings book) i 0 - mget (gb_WorkingSells book) i 0)"
    if "\<not> brokerReadable g" "quantities_ok book" "\<forall>ord\<in>set plan. op_InstrumentID (o_Planned ord) = i \<longrightarrow> op_Side (o_Planned ord) = OrderSideSell"
    using fallback_plan [of ?g book plan i n counted] that q p(1) by (simp add: bookRemains_def)
  ultimately show ?thesis using remains_never_above_truth order_trans by blast
qed

section \<open>Limits\<close>

lemma QuantityValue_not_NaN: "f_pos price \<Longrightarrow> isFinite price \<Longrightarrow> QuantityValue q scale price \<noteq> NaN"
proof -
  assume "f_pos price" "isFinite price"
  then obtain p where "price = Fin p" "0 < p" by (auto elim: isFiniteE)
  then show ?thesis by (cases "f_of_int q") (auto simp: QuantityValue_def f_of_int_def f_inf_def)
qed

lemma f_abs_nonneg: "x \<noteq> NaN \<Longrightarrow> f_nonneg (f_abs x)"
  by (cases x) (auto simp: f_nonneg_def f_abs_def)

lemmas QuantityValue_nonneg = f_abs_nonneg [OF QuantityValue_not_NaN]

lemma f_nonneg_not_NaN: "f_nonneg x \<Longrightarrow> x \<noteq> NaN"
  by (auto simp: f_nonneg_def)

definition prices_ok :: "gate_book \<Rightarrow> bool" where
  "prices_ok book \<longleftrightarrow> (\<forall>i price. map_of (gb_Prices book) i = Some price \<longrightarrow> isFinite price \<and> f_pos price)"

lemma valueOthers_nonneg:
  "prices_ok book \<Longrightarrow> f_nonneg acc \<Longrightarrow> f_nonneg (fst (valueOthers book own acc u ids))"
  by (induction ids arbitrary: acc u) (auto simp: prices_ok_def QuantityValue_nonneg f_nonneg_add split: option.splits)

lemma gateFigures_simps:
  fixes g ord n book cost
  defines "p \<equiv> o_Planned ord" and "f \<equiv> fst (gateFigures g ord n book cost)"
  shows "rf_RiskReducing f = riskReducing g p"
    and "rf_ExposureAfter f = f_div (f_add (fst (valueOthers book (op_InstrumentID p) (Fin 0) '''' (mkeys (gb_Holdings book))))
      (f_abs (QuantityValue (if op_Side p = OrderSideSell then sub64 (mget (gb_Holdings book) (op_InstrumentID p) 0) (op_Quantity p)
         else add64 (mget (gb_Holdings book) (op_InstrumentID p) 0) (op_Quantity p)) (op_QuantityScale p) (op_ReferencePrice p)))) (op_NetLiquidation p)"
    and "rf_OrderFraction f = f_div (QuantityValue (op_Quantity p) (op_QuantityScale p) (op_ReferencePrice p)) (op_NetLiquidation p)"
    and "o_MarkSet ord \<Longrightarrow> rf_MarkDeviation f = f_div (f_abs (f_sub (op_ReferencePrice p) (o_Mark ord))) (o_Mark ord)"
    and "g_ira g \<Longrightarrow> op_Side p = OrderSideBuy \<Longrightarrow> rf_CashChecked f \<and> rf_BuyCost f = cost \<and> rf_CashAvailable f = gb_CashAvailable book"
    and "rf_ExposureBefore f = f_div (f_add (fst (valueOthers book (op_InstrumentID p) (Fin 0) '''' (mkeys (gb_Holdings book))))
      (f_abs (QuantityValue (mget (gb_Holdings book) (op_InstrumentID p) 0) (op_QuantityScale p) (op_ReferencePrice p)))) (op_NetLiquidation p)"
  unfolding f_def p_def by (simp_all add: gateFigures_def Let_def split_beta noFigures_def split: option.splits)

lemma OrderPlanned_prices:
  assumes "OrderPlanned_Validate p = []"
  shows "isFinite (op_ReferencePrice p) \<and> f_pos (op_ReferencePrice p) \<and> isFinite (op_NetLiquidation p) \<and> f_pos (op_NetLiquidation p) \<and>
    isFinite (op_LimitPrice p) \<and> f_pos (op_LimitPrice p)"
  using assms by (auto simp: OrderPlanned_Validate_def OrderPlanned_fields_def orderIdentity_def Let_def isFinite_iff split: if_splits)

lemma orderErrs_prices:
  assumes "orderErrs g ord = []"
  shows "isFinite (op_ReferencePrice (o_Planned ord)) \<and> f_pos (op_ReferencePrice (o_Planned ord)) \<and> isFinite (op_NetLiquidation (o_Planned ord)) \<and>
    f_pos (op_NetLiquidation (o_Planned ord)) \<and> isFinite (op_LimitPrice (o_Planned ord)) \<and> f_pos (op_LimitPrice (o_Planned ord)) \<and>
    (o_MarkSet ord \<longrightarrow> isFinite (o_Mark ord) \<and> f_pos (o_Mark ord))"
proof -
  let ?p = "o_Planned ord"
  have "OrderPlanned_Validate (if op_Tag ?p = '''' then ?p\<lparr>op_Tag := ''untagged''\<rparr> else ?p) = []"
    using assms by (auto simp: orderErrs_def Let_def split: if_splits)
  from OrderPlanned_prices [OF this] show ?thesis using assms by (auto simp: orderErrs_def Let_def split: if_splits)
qed

lemma div_not_NaN: "x \<noteq> NaN \<Longrightarrow> isFinite y \<Longrightarrow> f_pos y \<Longrightarrow> f_div x y \<noteq> NaN"
  by (cases x; cases y) auto

text \<open>A released order's own figures are within the limits: the mark, the band and the size bind unless the
  order is risk-reducing, and the exposure limit whenever it raises exposure.\<close>

definition within_limits :: "margin_limits \<Rightarrow> gate_order \<Rightarrow> risk_figures \<Rightarrow> bool" where
  "within_limits l ord f \<longleftrightarrow> rf_RiskReducing f \<or>
     (o_MarkSet ord \<and> f_le (rf_MarkDeviation f) (ml_PriceBand l) \<and> f_le (rf_OrderFraction f) (ml_MaxOrderFraction l) \<and>
      (f_lt (rf_ExposureBefore f) (rf_ExposureAfter f) \<longrightarrow> f_le (rf_ExposureAfter f) (ml_MaxExposure l)))"

lemma passes_within_limits:
  assumes "passes g ord n counted book" "orderErrs g ord = []" "prices_ok book" "MarginLimits_Validate (g_limits g) = []"
  shows "within_limits (g_limits g) ord (fst (orderFigures g ord n book))"
proof -
  let ?p = "o_Planned ord" and ?f = "fst (orderFigures g ord n book)"
  obtain cost where c: "orderFigures g ord n book = gateFigures g ord n book (rnd cost)"
    using assms(1) by (cases "debit g ord") (auto simp: passes_def orderFigures_def Let_def split_beta)
  note fs = gateFigures_simps [where g = g and ord = ord and n = n and book = book and cost = "rnd cost", folded c]
  note pr = orderErrs_prices [OF assms(2)]
  have l: "isFinite (ml_MaxExposure (g_limits g))" "isFinite (ml_MaxOrderFraction (g_limits g))" "isFinite (ml_PriceBand (g_limits g))"
    using assms(4) by (auto simp: MarginLimits_Validate_def)
  have e: "rf_ExposureAfter ?f \<noteq> NaN" unfolding fs
    using pr assms(3) by (intro div_not_NaN f_nonneg_not_NaN f_nonneg_add valueOthers_nonneg QuantityValue_nonneg) auto
  have q: "rf_OrderFraction ?f \<noteq> NaN"
    unfolding fs using pr by (intro div_not_NaN QuantityValue_not_NaN) auto
  have m: "rf_MarkDeviation ?f \<noteq> NaN" if "o_MarkSet ord"
  proof -
    have "f_sub (op_ReferencePrice ?p) (o_Mark ord) \<noteq> NaN" using pr that by (auto simp: isFinite_iff)
    from f_nonneg_not_NaN [OF f_abs_nonneg [OF this]] show ?thesis unfolding fs(4) [OF that] using pr that by (intro div_not_NaN) auto
  qed
  have "breach g ord ?f counted book (snd (orderFigures g ord n book)) = None" using assms(1) by (auto simp: passes_def Let_def split_beta)
  then show ?thesis using e q m l fs(1)
    by (auto simp: breach_def within_limits_def Let_def not_f_lt isFinite_iff split: if_splits)
qed

lemma applyRelease_prices:
  "prices_ok book \<Longrightarrow> orderErrs g ord = [] \<Longrightarrow> prices_ok (applyRelease book ord out)"
  using orderErrs_prices [of g ord] by (auto simp: applyRelease_def prices_ok_def Let_def split: option.splits if_splits)

lemma same_account_orderErrs: "same_account g h \<Longrightarrow> orderErrs h ord = orderErrs g ord"
  by (simp add: same_account_def orderErrs_def checkQuantityScale_def gate_limits.truncate_def Let_def)

lemma orderErrs_scale: "orderErrs g ord = [] \<Longrightarrow> 0 \<le> op_QuantityScale (o_Planned ord)"
  by (auto simp: orderErrs_def OrderPlanned_Validate_def scaleErrs_def quantityScaleError_def FractionalQuantityScale_def Let_def split: if_splits)

text \<open>A sell that only sheds what is held: no more than the broker shows held less the sells still working, or without a readable
  snapshot no more than the plan recorded as held.\<close>

definition sheds :: "gate_order \<Rightarrow> risk_figures \<Rightarrow> bool" where
  "sheds ord f \<longleftrightarrow> (let p = o_Planned ord in op_Side p = OrderSideSell \<and>
     (if rf_BrokerSet f then op_Quantity p \<le> subtractPending (rf_BrokerHolding f) (rf_WorkingSells f) else op_Quantity p \<le> op_HeldQuantity p))"

lemma orderFigures_sheds:
  assumes "rf_RiskReducing (fst (orderFigures g ord n book))"
  shows "sheds ord (fst (orderFigures g ord n book))"
proof -
  let ?p = "o_Planned ord"
  obtain cost where c: "orderFigures g ord n book = gateFigures g ord n book (rnd cost)"
    using assms by (auto simp: orderFigures_def noFigures_def Let_def split: sum.splits)
  have r: "riskReducing g ?p" using assms unfolding c gateFigures_simps(1) .
  show ?thesis unfolding c
  proof (cases "brokerHolding g (op_InstrumentID ?p)")
    case None
    then have "\<not> rf_BrokerSet (fst (gateFigures g ord n book (rnd cost)))" by (simp add: gateFigures_def noFigures_def Let_def split_beta)
    then show "sheds ord (fst (gateFigures g ord n book (rnd cost)))" using r None by (simp add: sheds_def riskReducing_def)
  next
    case (Some hw)
    then obtain h w where hw: "brokerHolding g (op_InstrumentID ?p) = Some (h, w)" by (cases hw) auto
    show "sheds ord (fst (gateFigures g ord n book (rnd cost)))"
      using gateFigures_broker [OF hw, of n book "rnd cost"] r hw by (simp add: sheds_def riskReducing_def)
  qed
qed

text \<open>Exposure, valued at a positive price: fewer shares are worth no more.\<close>

lemma QuantityValue_mono:
  assumes "0 \<le> a" "a \<le> b" "b \<le> max64" "0 < p" "0 \<le> scale"
  shows "f_le (QuantityValue a scale (Fin p)) (QuantityValue b scale (Fin p))" and "f_nonneg (QuantityValue a scale (Fin p))"
proof -
  have int: "\<exists>r. f_of_int q = Fin r \<and> 0 \<le> r" if "0 \<le> q" "q \<le> max64" for q
  proof -
    have "f_le (f_of_int q) (f_of_int max64)" using that(2) by (auto simp: f_of_int_def intro: f_le_rnd)
    then show ?thesis using f_nonneg_of_int [OF that(1)] f_le_finite by (fastforce simp: f_of_int_max64 f_nonneg_def)
  qed
  obtain x y where x: "f_of_int a = Fin x" "0 \<le> x" and y: "f_of_int b = Fin y" using int [of a] int [of b] assms(1-3) by fastforce
  have "f_le (f_of_int a) (f_of_int b)" using assms(2) by (auto simp: f_of_int_def intro: f_le_rnd)
  then have xy: "x \<le> y" by (simp add: x y)
  have d: "0 \<le> decimalMoney (Fin p)" using decimalMoney_pos [OF assms(4)] by simp
  have u: "0 < QuantityUnits scale" using assms(5) by (simp add: QuantityUnits_def)
  have m: "decimalMoney (Fin p) * (of_int a / of_int (QuantityUnits scale)) \<le> decimalMoney (Fin p) * (of_int b / of_int (QuantityUnits scale))"
    using d u assms(2) by (intro mult_left_mono divide_right_mono) auto
  have "0 \<le> decimalMoney (Fin p) * (of_int a / of_int (QuantityUnits scale))" using d u assms(1) by simp
  then show "f_nonneg (QuantityValue a scale (Fin p))"
    using x assms(4) f_nonneg_mul [of x p] by (simp add: QuantityValue_def f_nonneg_def f_le_0_rnd)
  show "f_le (QuantityValue a scale (Fin p)) (QuantityValue b scale (Fin p))"
    using m f_le_rnd xy x y assms(4) f_mul_mono [of x y p p] by (simp add: QuantityValue_def)
qed

lemma f_abs_id: "f_nonneg x \<Longrightarrow> f_abs x = x"
  by (cases x) (auto simp: f_nonneg_def f_abs_def)

lemma f_add_le: "f_nonneg z \<Longrightarrow> f_le x y \<Longrightarrow> f_nonneg x \<Longrightarrow> f_le (f_add z x) (f_add z y)"
  by (cases x; cases y; cases z) (auto simp: f_nonneg_def f_le_rnd_inf intro: f_le_rnd)

lemma f_div_le: "f_le x y \<Longrightarrow> 0 < p \<Longrightarrow> f_le (f_div x (Fin p)) (f_div y (Fin p))"
  by (cases x; cases y) (auto simp: f_le_rnd_inf intro!: f_le_rnd divide_right_mono)

text \<open>A release that is not a sale back to 98 percent leaves the exposure within the maximum, or no higher than it was.\<close>

lemma passes_exposure:
  assumes "passes g ord n counted book" "orderErrs g ord = []" "prices_ok book" "MarginLimits_Validate (g_limits g) = []" "quantities_ok book"
  shows "f_le (rf_ExposureAfter (fst (orderFigures g ord n book))) (ml_MaxExposure (g_limits g)) \<or>
    f_le (rf_ExposureAfter (fst (orderFigures g ord n book))) (rf_ExposureBefore (fst (orderFigures g ord n book)))"
proof -
  let ?p = "o_Planned ord" and ?f = "fst (orderFigures g ord n book)"
  let ?i = "op_InstrumentID ?p" and ?held = "mget (gb_Holdings book) (op_InstrumentID (o_Planned ord)) 0"
  obtain cost where c: "orderFigures g ord n book = gateFigures g ord n book (rnd cost)"
    using assms(1) by (cases "debit g ord") (auto simp: passes_def orderFigures_def Let_def split_beta)
  note fs = gateFigures_simps [where g = g and ord = ord and n = n and book = book and cost = "rnd cost", folded c]
  note pr = orderErrs_prices [OF assms(2)]
  obtain price nlv where pn: "op_ReferencePrice ?p = Fin price" "0 < price" "op_NetLiquidation ?p = Fin nlv" "0 < nlv"
    using pr by (auto elim!: isFiniteE)
  have others: "f_nonneg (fst (valueOthers book ?i (Fin 0) '''' (mkeys (gb_Holdings book))))" using assms(3) by (intro valueOthers_nonneg) simp_all
  show ?thesis
  proof (cases "rf_RiskReducing ?f")
    case True
    then have side: "op_Side ?p = OrderSideSell" using fs(1) by (simp add: riskReducing_def)
    have q: "0 < op_Quantity ?p" and sc: "0 \<le> op_QuantityScale ?p" using orderErrs_identity [OF assms(2)] orderErrs_scale [OF assms(2)] by simp_all
    have av: "op_Quantity ?p \<le> subtractPending ?held (mget (gb_WorkingSells book) ?i 0)"
      using assms(1) breach_sell [OF _ side, of g ?f counted book "snd (orderFigures g ord n book)"] by (auto simp: passes_def Let_def split_beta)
    note w = within_book [OF assms(5) q av]
    have b: "0 \<le> ?held - op_Quantity ?p" "?held - op_Quantity ?p \<le> ?held" "?held \<le> max64"
      using w(3) q quantities_okD [OF assms(5), of ?i] by (auto simp: in64_def)
    note m = QuantityValue_mono [OF b pn(2) sc]
    have "f_nonneg (QuantityValue ?held (op_QuantityScale ?p) (Fin price))" using b by (intro QuantityValue_mono(2) [OF _ order_refl b(3) pn(2) sc]) linarith
    then have "f_le (rf_ExposureAfter ?f) (rf_ExposureBefore ?f)"
      unfolding fs(2,6) using m others side w(2) pn by (simp add: f_abs_id f_div_le f_add_le)
    then show ?thesis by blast
  next
    case False
    have e: "rf_ExposureAfter ?f \<noteq> NaN" "rf_ExposureBefore ?f \<noteq> NaN" unfolding fs(2,6)
      using pr assms(3) by (intro div_not_NaN f_nonneg_not_NaN f_nonneg_add valueOthers_nonneg QuantityValue_nonneg; simp)+
    show ?thesis using passes_within_limits [OF assms(1-4)] False e by (auto simp: within_limits_def not_f_lt)
  qed
qed

lemma checkPlan_within_limits:
  assumes "\<forall>ord\<in>set plan. orderErrs g ord = []" "prices_ok book" "MarginLimits_Validate (g_limits g) = []"
    and "i < length plan" "out_Released (snd (checkPlan g n counted book plan) ! i) = Some r"
  shows "(op_Sale (o_Planned (plan ! i)) \<noteq> noSale \<longrightarrow> rf_BrokerSet (rel_Figures r) \<and> sheds (plan ! i) (rel_Figures r)) \<and>
    (rf_RiskReducing (rel_Figures r) \<longrightarrow> sheds (plan ! i) (rel_Figures r)) \<and>
    (op_Sale (o_Planned (plan ! i)) = noSale \<longrightarrow> within_limits (g_limits g) (plan ! i) (rel_Figures r) \<and>
      (quantities_ok book \<longrightarrow> f_le (rf_ExposureAfter (rel_Figures r)) (ml_MaxExposure (g_limits g)) \<or>
        f_le (rf_ExposureAfter (rel_Figures r)) (rf_ExposureBefore (rel_Figures r))))"
  using assms
proof (induction plan arbitrary: g book i)
  case (Cons ord plan)
  let ?x = "checkOrder g ord n counted book" and ?f = "fst (orderFigures g ord n book)"
  note s = checkOrder_same [of g ord n counted book]
  show ?case
  proof (cases i)
    case 0
    then have r: "out_Released (snd ?x) = Some r" and e: "orderErrs g ord = []" using Cons.prems by (simp_all add: split_beta Let_def)
    have p: "passes g ord n counted book \<or> issued g ord ?f" and x: "?x = releaseOrder (afterIssue g ord) ord ?f"
      using checkOrder_cases [where g = g and ord = ord and n = n and book = book and counted = counted] r by (auto simp: refuses_def)
    have f: "rel_Figures r = ?f" using r unfolding x by (rule releaseOrder_Figures)
    have "rf_BrokerSet ?f \<and> sheds ord ?f" if sale: "op_Sale (o_Planned ord) \<noteq> noSale"
      using p sale orderErrs_sale [OF e sale] by (auto simp: issued_def passes_def sheds_def Let_def split_beta)
    moreover have "passes g ord n counted book" if "op_Sale (o_Planned ord) = noSale" using p that by (auto simp: issued_def Let_def)
    ultimately show ?thesis using 0 orderFigures_sheds [of g ord n book] Cons.prems(2,3) e
        passes_within_limits [of g ord n counted book] passes_exposure [of g ord n counted book] unfolding f by simp
  next
    case (Suc k)
    have same: "g_limits (fst ?x) = g_limits g" using s by (simp add: same_account_def gate_limits.truncate_def)
    have "(op_Sale (o_Planned (plan ! k)) \<noteq> noSale \<longrightarrow> rf_BrokerSet (rel_Figures r) \<and> sheds (plan ! k) (rel_Figures r)) \<and>
      (rf_RiskReducing (rel_Figures r) \<longrightarrow> sheds (plan ! k) (rel_Figures r)) \<and>
      (op_Sale (o_Planned (plan ! k)) = noSale \<longrightarrow> within_limits (g_limits (fst ?x)) (plan ! k) (rel_Figures r) \<and>
        (quantities_ok (applyRelease book ord (snd ?x)) \<longrightarrow> f_le (rf_ExposureAfter (rel_Figures r)) (ml_MaxExposure (g_limits (fst ?x))) \<or>
          f_le (rf_ExposureAfter (rel_Figures r)) (rf_ExposureBefore (rel_Figures r))))"
    proof (rule Cons.IH)
      show "\<forall>ord\<in>set plan. orderErrs (fst ?x) ord = []" using Cons.prems(1) same_account_orderErrs [OF s] by simp
      show "prices_ok (applyRelease book ord (snd ?x))" using Cons.prems applyRelease_prices [of book g ord] by simp
      show "MarginLimits_Validate (g_limits (fst ?x)) = []" using Cons.prems same by simp
    qed (use Cons.prems Suc in \<open>simp_all add: split_beta Let_def\<close>)
    then show ?thesis using Suc applyRelease_quantities [of book ord "snd ?x"] unfolding same by simp
  qed
qed simp

text \<open>C25: what the account's limits bind of an order a check releases, on the figures its release records. A sale back to 98
  percent, and every order recorded as risk-reducing, is a sell that only sheds what is held: at most what a readable broker
  snapshot shows held less the sells still working or, where no snapshot is readable (never for a sale back to 98 percent), at
  most what the plan records as held. Any other order had a mark, its reference price lies within the price band of that mark, it
  is at most the maximum fraction of net liquidation, and if it raises the account's exposure, valued over the whole book with
  every earlier release of the plan applied, the exposure after it is at most the maximum. And, sales back to 98 percent apart,
  no release, risk-reducing or not, leaves the exposure both above the maximum and above what it was, where the book's quantities
  are 64-bit and none of its working sells is negative.\<close>

theorem Check_release_within_limits:
  assumes "Check g book plan = Inr (g', outs)" "MarginLimits_Validate (g_limits g) = []" "prices_ok book"
    and "i < length plan" "out_Released (outs ! i) = Some r"
  shows "(op_Sale (o_Planned (plan ! i)) \<noteq> noSale \<longrightarrow> rf_BrokerSet (rel_Figures r) \<and> sheds (plan ! i) (rel_Figures r)) \<and>
    (rf_RiskReducing (rel_Figures r) \<longrightarrow> sheds (plan ! i) (rel_Figures r)) \<and>
    (op_Sale (o_Planned (plan ! i)) = noSale \<longrightarrow> within_limits (g_limits g) (plan ! i) (rel_Figures r) \<and>
      (quantities_ok book \<longrightarrow> f_le (rf_ExposureAfter (rel_Figures r)) (ml_MaxExposure (g_limits g)) \<or>
        f_le (rf_ExposureAfter (rel_Figures r)) (rf_ExposureBefore (rel_Figures r))))"
proof -
  let ?g = "freshCheck g (gb_At book)"
  obtain n counted where p: "checkPlan ?g n counted book plan = (g', outs)" "planErrs g book plan = []" using assms(1) by (auto simp: Check_plan)
  have "same_account g ?g" by (rule freshCheck_closed) (simp_all add: same_account_def gate_limits.truncate_def)
  then have "\<forall>ord\<in>set plan. orderErrs ?g ord = []" using planErrs_orders [OF p(2)] same_account_orderErrs by simp
  moreover have "out_Released (snd (checkPlan ?g n counted book plan) ! i) = Some r" unfolding p(1) by (simp add: assms(5))
  moreover have "MarginLimits_Validate (g_limits ?g) = []" using assms(2) by simp
  ultimately show ?thesis using checkPlan_within_limits [of plan ?g book i n counted r] assms(3,4) by simp
qed

theorem Check_release_within_limits_witness:
  "\<exists>g' outs r. Check example_ready example_book example_plan = Inr (g', outs) \<and> out_Released (outs ! 1) = Some r \<and>
     within_limits example_limits (example_plan ! 1) (rel_Figures r) \<and>
     (f_le (rf_ExposureAfter (rel_Figures r)) (ml_MaxExposure example_limits) \<or> f_le (rf_ExposureAfter (rel_Figures r)) (rf_ExposureBefore (rel_Figures r)))"
proof -
  obtain g' outs where c: "Check example_ready example_book example_plan = Inr (g', outs)" "out_Released (outs ! 1) \<noteq> None" using example_outcomes by blast
  then obtain r where r: "out_Released (outs ! 1) = Some r" by blast
  have l: "g_limits example_ready = example_limits" "MarginLimits_Validate example_limits = []" by code_simp+
  have p: "prices_ok example_book" "quantities_ok example_book"
    by (auto simp: prices_ok_def quantities_ok_def example_book_def mget_def in64_def min64_def max64_def)
  have "1 < length example_plan" "op_Sale (o_Planned (example_plan ! 1)) = noSale" by (simp_all add: example_plan_def example_order_def)
  then show ?thesis using Check_release_within_limits [OF c(1) _ p(1) _ r] l p(2) c r by auto
qed

section \<open>Cash\<close>

definition releasedCost :: "gate_outcome \<Rightarrow> f64 list" where
  "releasedCost out = (case out_Released out of None \<Rightarrow> [] | Some r \<Rightarrow> if rel_Side r = OrderSideSell then [] else [rf_BuyCost (rel_Figures r)])"

lemma applyRelease_cash: "answers a ord out \<Longrightarrow> gb_CashAvailable (applyRelease book ord out) = foldl f_sub (gb_CashAvailable book) (releasedCost out)"
  by (auto simp: answers_def applyRelease_def releasedCost_def Let_def split: option.splits)

lemma quantityCents_nonneg: "0 \<le> decimalMoney price \<Longrightarrow> 0 \<le> q \<Longrightarrow> 0 \<le> scale \<Longrightarrow> 0 \<le> quantityCents q scale price up"
proof -
  assume a: "0 \<le> decimalMoney price" "0 \<le> q" "0 \<le> scale"
  then have "0 \<le> QuantityUnits scale" by (simp add: QuantityUnits_def)
  with a have v: "0 \<le> decimalMoney price * (of_int q / of_int (QuantityUnits scale)) * 100" by simp
  then have "0 \<le> ratTrunc (decimalMoney price * (of_int q / of_int (QuantityUnits scale)) * 100)" by (simp add: ratTrunc_def not_less)
  then show ?thesis by (simp add: quantityCents_def Let_def)
qed

lemma BuyReservation_nonneg:
  assumes "BuyReservation q scale price fees slack = Inr cost" "is_f64 price" "is_f64 fees" "is_f64 slack"
  shows "0 \<le> cost \<and> isFinite (rnd cost)"
proof -
  obtain p x s where F: "price = Fin p" "fees = Fin x" "slack = Fin s" "0 \<le> p" "0 \<le> x" "0 \<le> s" "0 \<le> q"
    using assms(1) by (auto simp: BuyReservation_def BuyCost_def bindr_eq_Inr isFinite_iff split: list.splits)
  have d: "0 \<le> decimalMoney price" "0 \<le> decimalMoney fees" "0 \<le> decimalMoney slack" using F assms(2-4) by (simp_all add: decimalMoney_nonneg)
  have "0 \<le> c" if "BuyCost q scale price fees = Inr c" for c
  proof (cases "scale = 0")
    case True
    have "f_nonneg (f_add (f_mul (f_of_int q) price) fees) \<or> f_mul (f_of_int q) price = NaN"
      using F f_nonneg_of_int [of q] by (cases "f_of_int q") (auto simp: f_nonneg_def f_inf_def f_le_0_rnd mult_nonneg_nonneg intro!: f_nonneg_add [unfolded f_nonneg_def])
    with that True show ?thesis by (auto simp: BuyCost_def QuantityValue_def split: list.splits f64.splits)
  next
    case False
    then have "scale = 10000" using that quantityScaleError_Nil [of scale] by (auto simp: BuyCost_def split: list.splits)
    with that show ?thesis using d F quantityCents_nonneg [OF d(1), of q scale True] by (auto simp: BuyCost_def finiteBuyMoney_def split: list.splits)
  qed
  with assms(1) d show ?thesis by (auto simp: BuyReservation_def finiteBuyMoney_def bindr_eq_Inr)
qed

text \<open>An IRA's released buy fits the cash it was checked against, and what is left is cash again.\<close>

lemma sub_fits:
  assumes "is_f64 (Fin c)" "0 \<le> k" "k \<le> c"
  shows "\<exists>c'. f_sub (Fin c) (Fin k) = Fin c' \<and> is_f64 (Fin c') \<and> 0 \<le> c' \<and> c' \<le> c"
proof -
  have "f_le (rnd (c - k)) (rnd c)" using assms(2) by (intro f_le_rnd) simp
  moreover have "f_le (Fin 0) (rnd (c - k))" using assms(3) by (intro f_le_0_rnd) simp
  ultimately have "\<exists>r. rnd (c - k) = Fin r \<and> 0 \<le> r \<and> r \<le> c" using f_le_finite [of "rnd (c - k)" c 0] rnd_f64 [OF assms(1)] by simp
  then show ?thesis by (metis f_sub_Fin is_f64_rnd)
qed

definition cash_typed :: "gate \<Rightarrow> gate_order list \<Rightarrow> bool" where
  "cash_typed g plan \<longleftrightarrow> is_f64 (g_maxFees g) \<and> is_f64 (g_roundingSlack g) \<and> list_all (\<lambda>ord. is_f64 (op_LimitPrice (o_Planned ord))) plan"

text \<open>A buy is never a sale back to target.\<close>

lemma orderErrs_buy_noSale:
  assumes "orderErrs g ord = []" "op_Side (o_Planned ord) = OrderSideBuy"
  shows "op_Sale (o_Planned ord) = noSale"
proof (rule ccontr)
  assume s: "op_Sale (o_Planned ord) \<noteq> noSale"
  from assms(1) have "OrderPlanned_Validate (if op_Tag (o_Planned ord) = '''' then (o_Planned ord)\<lparr>op_Tag := ''untagged''\<rparr> else o_Planned ord) = []"
    by (auto simp: orderErrs_def Let_def split: if_splits)
  with s assms(2) show False
    by (auto simp: OrderPlanned_Validate_def OrderPlanned_fields_def SaleFigures_validate_def Let_def split: if_splits)
qed

lemma checkOrder_cash:
  assumes "g_ira g" "gb_CashAvailable book = Fin c" "is_f64 (Fin c)" "0 \<le> c" "cash_typed g [ord]" "orderErrs g ord = []"
  shows "\<exists>c'. foldl f_sub (Fin c) (releasedCost (snd (checkOrder g ord n counted book))) = Fin c' \<and> is_f64 (Fin c') \<and> 0 \<le> c' \<and> c' \<le> c"
proof (cases "op_Side (o_Planned ord) = OrderSideBuy \<and> out_Released (snd (checkOrder g ord n counted book)) \<noteq> None")
  case False
  have "op_Side (o_Planned ord) = OrderSideBuy \<or> op_Side (o_Planned ord) = OrderSideSell" using orderErrs_identity [OF assms(6)] by simp
  with False answers_checkOrder [of g ord n counted book] have "releasedCost (snd (checkOrder g ord n counted book)) = []"
    by (auto simp: releasedCost_def answers_def Let_def split: option.splits)
  then show ?thesis using assms by simp
next
  case True
  let ?f = "fst (orderFigures g ord n book)"
  have noS: "op_Sale (o_Planned ord) = noSale" using True orderErrs_buy_noSale [OF assms(6)] by simp
  have p: "passes g ord n counted book" using True noS by (intro checkOrder_release_allowed) simp_all
  then obtain cost where c: "debit g ord = Inr cost" by (cases "debit g ord") (auto simp: passes_def Let_def split_beta)
  then have k: "0 \<le> cost" "isFinite (rnd cost)" using BuyReservation_nonneg True assms(1, 5) by (auto simp: debit_def cash_typed_def Let_def)
  have f: "rf_CashChecked ?f" "rf_BuyCost ?f = rnd cost" "rf_CashAvailable ?f = Fin c"
    using gateFigures_simps(5) [of g ord n book "rnd cost"] assms(1, 2) True c by (simp_all add: orderFigures_def Let_def)
  have "breach g ord ?f counted book (snd (orderFigures g ord n book)) = None" "\<not> riskReducing g (o_Planned ord)"
    using p True by (auto simp: passes_def riskReducing_def Let_def split_beta)
  then have "\<not> f_lt (Fin c) (rnd cost)" using f by (auto simp: breach_def Let_def split: if_splits)
  then have "rnd cost = Fin (rndq cost)" "rndq cost \<le> c" "0 \<le> rndq cost" using k by (auto simp: isFinite_rnd rndq_nonneg)
  moreover have "checkOrder g ord n counted book = releaseOrder (afterIssue g ord) ord ?f"
    using checkOrder_cases [where g = g and ord = ord and n = n and book = book and counted = counted] True by (auto simp: refuses_def)
  then have "releasedCost (snd (checkOrder g ord n counted book)) = [rnd cost]" using True f by (simp add: releasedCost_def releaseOrder_def Let_def)
  ultimately show ?thesis using sub_fits [OF assms(3), of "rndq cost"] by simp
qed

lemma checkPlan_cash:
  assumes "g_ira g" "gb_CashAvailable book = Fin c" "is_f64 (Fin c)" "0 \<le> c" "cash_typed g plan" "\<forall>ord\<in>set plan. orderErrs g ord = []"
  shows "\<exists>c'. foldl f_sub (Fin c) (concat (map releasedCost (snd (checkPlan g n counted book plan)))) = Fin c' \<and> 0 \<le> c' \<and> c' \<le> c"
  using assms
proof (induction plan arbitrary: g book c)
  case (Cons ord plan)
  let ?x = "checkOrder g ord n counted book"
  note s = checkOrder_same [of g ord n counted book]
  obtain c1 where c1: "foldl f_sub (Fin c) (releasedCost (snd ?x)) = Fin c1" "is_f64 (Fin c1)" "0 \<le> c1" "c1 \<le> c"
    using checkOrder_cash [of g book c ord n counted] Cons.prems by (auto simp: cash_typed_def)
  have "gb_CashAvailable (applyRelease book ord (snd ?x)) = Fin c1"
    using applyRelease_cash [OF answers_checkOrder] Cons.prems(2) c1(1) by simp
  then obtain c2 where "foldl f_sub (Fin c1) (concat (map releasedCost (snd (checkPlan (fst ?x) n counted (applyRelease book ord (snd ?x)) plan)))) = Fin c2"
      "0 \<le> c2" "c2 \<le> c1"
    using Cons.IH [of "fst ?x" "applyRelease book ord (snd ?x)" c1] Cons.prems c1 s same_account_orderErrs [OF s]
    by (auto simp: same_account_def gate_limits.truncate_def cash_typed_def)
  then show ?case using c1 by (simp add: split_beta Let_def)
qed simp

text \<open>C26: An IRA never borrows: taking the worst-case costs its released buys record out of the cash available, one
  after the other in the program's own arithmetic, never leaves less than nothing.\<close>

theorem Check_ira_never_borrows:
  assumes "Check g book plan = Inr (g', outs)" "g_ira g" "cash_typed g plan"
    and "gb_CashAvailable book = Fin c" "is_f64 (Fin c)" "0 \<le> c"
  shows "\<exists>left. foldl f_sub (Fin c) (concat (map releasedCost outs)) = Fin left \<and> 0 \<le> left \<and> left \<le> c"
proof -
  let ?g = "freshCheck g (gb_At book)"
  obtain n counted where p: "checkPlan ?g n counted book plan = (g', outs)" "planErrs g book plan = []" using assms(1) by (auto simp: Check_plan)
  have s: "same_account g ?g" by (rule freshCheck_closed) (simp_all add: same_account_def gate_limits.truncate_def)
  have o: "\<forall>ord\<in>set plan. orderErrs ?g ord = []" using planErrs_orders [OF p(2)] same_account_orderErrs [OF s] by simp
  have t: "cash_typed ?g plan" using s assms(3) by (simp add: same_account_def gate_limits.truncate_def cash_typed_def)
  from checkPlan_cash [OF _ assms(4-6) t o, of n counted] assms(2) show ?thesis unfolding p(1) by simp
qed

theorem Check_ira_never_borrows_witness:
  "\<exists>g' outs left. Check (RecordDecision example_ira ''d1'') example_book example_ira_plan = Inr (g', outs) \<and>
     foldl f_sub (Fin 1000) (concat (map releasedCost outs)) = Fin left \<and> 0 \<le> left"
proof -
  obtain g' outs where c: "Check (RecordDecision example_ira ''d1'') example_book example_ira_plan = Inr (g', outs)"
    using released_idsD [OF example_ira_released] by blast
  have i: "g_ira (RecordDecision example_ira ''d1'')" "gb_CashAvailable example_book = Fin 1000" by code_simp+
  have t: "cash_typed (RecordDecision example_ira ''d1'') example_ira_plan" "is_f64 (Fin 1000)" by code_simp+
  show ?thesis using Check_ira_never_borrows [OF c i(1) t(1) i(2) t(2)] c by auto
qed

end
