(* ===== verification/RiskInvariants.thy ===== *)
theory RiskInvariants
  imports RiskSafety
begin

text \<open>
  The gate as a machine that takes its inputs one at a time (\<open>deliver\<close>), and what each operation keeps: the
  engine state never loosens and is one a record can carry (\<open>sound_from\<close>), the journal's facts stay
  classifiable (\<open>journal_inv\<close>), the sell ledger and the broker's view stay well formed (\<open>ledger_inv\<close>), and
  no order holds more fills than it released (\<open>orders_inv\<close>). \<open>RiskMachine\<close> puts them together.
\<close>

section \<open>The gate as a machine\<close>

text \<open>Every input that reaches a gate, one constructor per exported operation that changes it.\<close>

datatype (plugins only: code size) gate_input =
  InDecision string
| InKill string kill_switch_payload
| InBroker string broker_snapshot_payload
| InAccount account_positions_snapshot
| InCheck gate_book "gate_order list"
| InSale sale_trigger string gotime f64 f64
| InRetire string
| InLapse
| InFill target_weight_fill
| InLifecycle limit_order_lifecycle
| InCorporateAction string corporate_action
| InCashMovement string cash_movement
| InFlex flex_status
| InSetBook book
| InCheckBook book
| InReconcile string reconciliation_payload
| InState string engine_state_payload int
| InIncident string engine_state "string list" "string list"
| InRecovery recovery
| InStale bool

definition kept :: "gate \<Rightarrow> (err list, gate) result \<Rightarrow> gate" where
  "kept g r = (case r of Inl _ \<Rightarrow> g | Inr h \<Rightarrow> h)"

definition keptFst :: "gate \<Rightarrow> (err list, gate \<times> 'a) result \<Rightarrow> gate" where
  "keptFst g r = (case r of Inl _ \<Rightarrow> g | Inr x \<Rightarrow> fst x)"

text \<open>An operation that returns an error leaves the gate as it was; \<open>CheckBook\<close> alone halts on one.\<close>

fun deliver :: "gate \<Rightarrow> gate_input \<Rightarrow> gate" where
  "deliver g (InDecision i) = RecordDecision g i"
| "deliver g (InKill i p) = kept g (SetKillSwitch g i p)"
| "deliver g (InBroker i s) = keptFst g (ObserveBroker g i s)"
| "deliver g (InAccount p) = kept g (ObserveAccount g p)"
| "deliver g (InCheck book plan) = keptFst g (Check g book plan)"
| "deliver g (InSale trigger i t target band) = keptFst g (Sale g trigger i t target band)"
| "deliver g (InRetire i) = fst (RetireSale g i)"
| "deliver g InLapse = fst (LapseExitSale g)"
| "deliver g (InFill p) = kept g (ObserveFill g p)"
| "deliver g (InLifecycle p) = kept g (ObserveLifecycle g p)"
| "deliver g (InCorporateAction i p) = kept g (ObserveCorporateAction g i p)"
| "deliver g (InCashMovement i p) = kept g (ObserveCashMovement g i p)"
| "deliver g (InFlex p) = kept g (ObserveFlexStatus g p)"
| "deliver g (InSetBook b) = kept g (SetBook g b)"
| "deliver g (InCheckBook b) = fst (CheckBook g b)"
| "deliver g (InReconcile i p) = keptFst g (Reconcile_gate g i p)"
| "deliver g (InState i p v) = kept g (RestoreState g i p v)"
| "deliver g (InIncident i st ids cash) = kept g (RestoreIncidentState g i st ids cash)"
| "deliver g (InRecovery r) = kept g (RestoreRecovery g r)"
| "deliver g (InStale b) = RestoreStaleEpisode g b"

lemma kept_rule: "P g \<Longrightarrow> (\<And>h. r = Inr h \<Longrightarrow> P h) \<Longrightarrow> P (kept g r)"
  by (simp add: kept_def split: sum.splits)

lemma keptFst_rule: "P g \<Longrightarrow> (\<And>h x. r = Inr (h, x) \<Longrightarrow> P h) \<Longrightarrow> P (keptFst g r)"
  by (auto simp: keptFst_def split: sum.splits)

section \<open>Operations that leave the engine state alone\<close>

definition core :: "gate \<Rightarrow> engine_state \<times> string list \<times> string list \<times> string" where
  "core g = (g_state g, g_scope g, g_cashScope g, g_incident g)"

lemma core_update [simp]:
  "core (g_decided_update d g) = core g" "core (g_killEngaged_update ke g) = core g" "core (g_killID_update s g) = core g"
  "core (g_killAlerted_update ka g) = core g" "core (g_lastKill_update s g) = core g" "core (g_lastKillAt_update t g) = core g"
  "core (g_lastKillSet_update b g) = core g" "core (g_broker_update br g) = core g" "core (g_brokerID_update s g) = core g"
  "core (g_firstBroker_update t g) = core g" "core (g_staleOpen_update b g) = core g" "core (g_urgentRetry_update b g) = core g"
  "core (g_urgentInstrument_update s g) = core g" "core (g_urgentWithheld_update w g) = core g" "core (g_exitRetry_update s g) = core g"
  "core (g_exitWithheld_update w g) = core g" "core (g_alarmLevel_update al g) = core g" "core (g_alarmID_update s g) = core g"
  "core (g_lastReading_update t g) = core g" "core (g_lastReadingSet_update b g) = core g" "core (g_released_update rs g) = core g"
  "core (g_saleTags_update rs g) = core g" "core (g_attempts_update a g) = core g" "core (g_pending_update rs g) = core g"
  "core (g_retiredSales_update r g) = core g" "core (g_restored_update s g) = core g" "core (g_ledger_update l g) = core g"
  "core (g_account_update v g) = core g" "core (g_brokerView_update v g) = core g" "core (g_orders_update os g) = core g"
  "core (g_fills_update fs g) = core g" "core (g_book_update bk g) = core g" "core (g_changes_update cs g) = core g"
  "core (g_classified_update cl g) = core g" "core (g_classifiedAsOf_update t g) = core g" "core (g_latestReadAsOf_update t g) = core g"
  "core (g_reported_update rp g) = core g" "core (g_reportedAsOf_update ra g) = core g" "core (g_haltedOn_update ho g) = core g"
  "core (g_corporateActions_update ca g) = core g" "core (g_cashMovements_update cm g) = core g" "core (g_flex_update fx g) = core g"
  "core (g_pendingCash_update pc g) = core g"
  by (simp_all add: core_def)

lemma core_tighter: "core h = core g \<Longrightarrow> tighter g h"
  by (simp add: core_def tighter_same)

named_theorems core_frame "operations that leave the engine state alone"

lemma core_small [core_frame]:
  "core (RecordDecision g i) = core g" "core (freshCheck g t) = core g" "core (fst (openStale g)) = core g" "core (RestoreStaleEpisode g b) = core g"
  "core (disarm g c) = core g" "core (fst (lapseExit g d)) = core g" "core (recordAttempt g tag i) = core g" "core (recordBroker g s) = core g"
  by (simp_all add: RecordDecision_def freshCheck_def openStale_def RestoreStaleEpisode_def disarm_def lapseExit_def recordAttempt_def recordBroker_def
    Let_def split: option.splits prod.splits)

lemma core_SetKillSwitch [core_frame]: "SetKillSwitch g i p = Inr h \<Longrightarrow> core h = core g"
  by (auto simp: SetKillSwitch_def Let_def)

lemma core_takeBroker [core_frame]: "core (takeBroker g i s) = core g"
  by (simp add: takeBroker_def core_frame Let_def)

lemma core_raiseAlarm [core_frame]: "core (fst (raiseAlarm g i a u e l)) = core g"
  by (simp add: raiseAlarm_def Let_def)

lemma core_ObserveBroker [core_frame]: "ObserveBroker g i s = Inr (h, x) \<Longrightarrow> core h = core g"
  by (auto simp: ObserveBroker_def Let_def split_beta core_frame split: if_splits dest!: arg_cong [of _ "(h, x)" fst])

lemma core_LapseExitSale [core_frame]: "core (fst (LapseExitSale g)) = core g"
  by (simp add: LapseExitSale_def core_frame)

lemma core_settleSale [core_frame]: "core (fst (settleSale g tag trigger i t s)) = core g"
  by (simp add: settleSale_def core_frame Let_def split_beta split: sale.splits)

lemma core_Sale [core_frame]: "Sale g trigger i t target band = Inr (h, x) \<Longrightarrow> core h = core g"
  by (auto simp: Sale_def Let_def split_beta bindr_eq_Inr core_frame split: if_splits)

lemma core_RetireSale [core_frame]: "core (fst (RetireSale g c)) = core g"
  by (simp add: RetireSale_def Let_def split: option.splits)

lemma core_ObserveAccount [core_frame]: "ObserveAccount g p = Inr h \<Longrightarrow> core h = core g"
  by (auto simp: ObserveAccount_def Let_def split_beta)

lemma core_ObserveFill [core_frame]: "ObserveFill g p = Inr h \<Longrightarrow> core h = core g"
  by (auto simp: ObserveFill_def recordFill_def Let_def bindr_eq_Inr split: option.splits if_splits)

lemma core_ObserveLifecycle [core_frame]: "ObserveLifecycle g p = Inr h \<Longrightarrow> core h = core g"
  by (auto simp: ObserveLifecycle_def Let_def split: option.splits if_splits)

lemma core_facts [core_frame]:
  "ObserveCorporateAction g i ca = Inr h \<Longrightarrow> core h = core g" "ObserveCashMovement g i cm = Inr h \<Longrightarrow> core h = core g"
  "ObserveFlexStatus g fx = Inr h \<Longrightarrow> core h = core g" "SetBook g b = Inr h \<Longrightarrow> core h = core g"
  by (auto simp: ObserveCorporateAction_def ObserveCashMovement_def ObserveFlexStatus_def SetBook_def split: option.splits if_splits)

lemma core_foldl: "(\<And>g x. core (f g x) = core g) \<Longrightarrow> core (foldl f g xs) = core g"
  by (induction xs arbitrary: g) auto

lemma core_observeAll [core_frame]: "core (observeAll g fs) = core g"
  unfolding observeAll_def by (rule core_foldl) (simp split: sum.splits add: core_ObserveFill)

lemma core_applyReleased [core_frame]: "core (applyReleased g r) = core g"
  by (simp add: applyReleased_def core_frame Let_def)

lemma core_RestoreRecovery [core_frame]: "RestoreRecovery g r = Inr h \<Longrightarrow> core h = core g"
  by (auto simp: RestoreRecovery_def bindr_eq_Inr core_foldl core_frame applyRetired_def applyAttempt_def applyOwnSale_def Let_def split: option.splits)

section \<open>Operations that move the engine state\<close>

definition named :: "string list \<Rightarrow> bool" where
  "named ids \<longleftrightarrow> '''' \<notin> set ids"

text \<open>Normal and Halted name no scope, and Degraded names one that an engine-state record can carry.\<close>

definition state_ok :: "gate \<Rightarrow> bool" where
  "state_ok g \<longleftrightarrow> (case g_state g of
     StateNormal \<Rightarrow> g_scope g = [] \<and> g_cashScope g = []
   | StateHalted \<Rightarrow> g_scope g = [] \<and> g_cashScope g = []
   | StateDegraded \<Rightarrow> (g_scope g \<noteq> [] \<or> g_cashScope g \<noteq> []) \<and> ascendingIDs (g_scope g) = [] \<and> ascendingIDs (g_cashScope g) = []
   | OtherState _ \<Rightarrow> False)"

lemma core_state_ok: "core h = core g \<Longrightarrow> state_ok h = state_ok g"
  by (auto simp: core_def state_ok_def split: engine_state.splits)

lemma state_ok_scopes: "state_ok g \<Longrightarrow> ascendingIDs (g_scope g) = [] \<and> ascendingIDs (g_cashScope g) = []"
  by (auto simp: state_ok_def ascendingIDs_Nil split: engine_state.splits)

lemma set_union_ids [simp]: "set (union_ids a b) = set a \<union> set b"
  by (simp add: union_ids_def)

lemma union_ids_ascending: "named b \<Longrightarrow> ascendingIDs a = [] \<Longrightarrow> ascendingIDs (union_ids a b) = []"
  unfolding ascendingIDs_Nil by (simp add: named_def) (simp add: union_ids_def strict_asc_remdups_adj)

lemma union_ids_empty [simp]: "union_ids a b = [] \<longleftrightarrow> a = [] \<and> b = []"
  by (metis Un_empty set_empty set_union_ids)

text \<open>What a move does, in terms of the state before it.\<close>

definition moves :: "gate \<Rightarrow> gate \<Rightarrow> engine_state \<Rightarrow> string list \<Rightarrow> string list \<Rightarrow> string \<Rightarrow> bool" where
  "moves g h st scope cash incident \<longleftrightarrow> g_state h = st \<and> g_scope h = scope \<and> g_cashScope h = cash \<and>
     g_incident h = (if g_state g = StateNormal then incident else g_incident g)"

lemma moves_halted: "moves g h StateHalted [] [] i \<Longrightarrow> tighter g h \<and> state_ok h"
  by (auto simp: moves_def tighter_def state_ok_def)

lemma moves_degraded:
  assumes "moves g h StateDegraded scope cash i" "g_state g \<noteq> StateHalted" "set (g_scope g) \<subseteq> set scope" "set (g_cashScope g) \<subseteq> set cash"
    "scope \<noteq> [] \<or> cash \<noteq> []" "ascendingIDs scope = []" "ascendingIDs cash = []"
  shows "tighter g h \<and> state_ok h"
  using assms by (cases "g_state g") (auto simp: moves_def tighter_def state_ok_def)

lemma haltGate_moves: "moves g (fst (haltGate g out d c)) StateHalted [] [] (''engine-state:'' @ g_accountID g @ '':'' @ c)"
  by (simp add: moves_def haltGate_def enterState_def moveState_def Let_def)

lemma degradeGate_moves:
  "moves g (fst (degradeGate g out i d c)) StateDegraded (sort (g_scope g @ [i])) (g_cashScope g) (''engine-state:'' @ g_accountID g @ '':'' @ c)"
  by (simp add: moves_def degradeGate_def enterState_def moveState_def Let_def)

lemma sort_insert_ascending:
  assumes "ascendingIDs xs = []" "i \<notin> set xs" "i \<noteq> ''''"
  shows "ascendingIDs (sort (xs @ [i])) = []"
proof -
  have "distinct (xs @ [i])" "'''' \<notin> set (xs @ [i])" using assms by (auto simp: ascendingIDs_Nil strict_asc_def)
  then show ?thesis unfolding ascendingIDs_Nil by (metis set_sort strict_asc_sort)
qed

definition sound_from :: "gate \<Rightarrow> gate \<Rightarrow> bool" where
  "sound_from g h \<longleftrightarrow> tighter g h \<and> state_ok h"

lemma sound_trans: "sound_from g h \<Longrightarrow> (state_ok h \<Longrightarrow> sound_from h k) \<Longrightarrow> sound_from g k"
  by (auto simp: sound_from_def intro: tighter_trans)

lemma sound_core: "state_ok g \<Longrightarrow> core h = core g \<Longrightarrow> sound_from g h"
  using core_state_ok [of h g] by (simp add: sound_from_def core_tighter)

lemma sound_then_core: "sound_from g h \<Longrightarrow> core k = core h \<Longrightarrow> sound_from g k"
  by (erule sound_trans, erule sound_core)

lemma sound_halt: "sound_from g h \<Longrightarrow> sound_from g (fst (haltGate h out d c))"
  by (rule sound_trans, assumption) (simp add: sound_from_def moves_halted [OF haltGate_moves])

lemma sound_degrade:
  assumes "sound_from g h" "g_state h \<noteq> StateHalted" "g_state h = StateDegraded \<longrightarrow> i \<notin> set (g_scope h)" "i \<noteq> ''''"
  shows "sound_from g (fst (degradeGate h out i d c))"
  using assms(1)
proof (rule sound_trans)
  assume ok: "state_ok h"
  then have i: "i \<notin> set (g_scope h)" using assms(2, 3) by (cases "g_state h") (simp_all add: state_ok_def)
  have "set (sort (g_scope h @ [i])) \<noteq> {}" by simp
  then have "sort (g_scope h @ [i]) \<noteq> []" by (metis set_empty)
  then show "sound_from h (fst (degradeGate h out i d c))" unfolding sound_from_def
    using state_ok_scopes [OF ok] assms(2, 4) sort_insert_ascending [OF _ i assms(4)] by (intro moves_degraded [OF degradeGate_moves]) auto
qed

lemma core_release: "core (fst (releaseOrder g ord f)) = core g"
  by (simp add: releaseOrder_def Let_def)

lemma order_closed_sound:
  assumes "op_InstrumentID (o_Planned ord) \<noteq> ''''"
  shows "order_closed (sound_from g) ord"
proof (rule order_closedI)
  show "sound_from g (fst (releaseOrder h ord f))" if "sound_from g h" for h f using that core_release by (rule sound_then_core)
qed (simp_all add: sound_halt sound_degrade assms, (erule sound_then_core, simp)+)

lemma sound_Check:
  assumes "Check g book plan = Inr (h, outs)" "state_ok g"
  shows "sound_from g h"
proof (rule Check_closed [OF assms(1)])
  have "planErrs g book plan = []" using assms(1) by (simp add: Check_plan)
  then have "\<forall>ord\<in>set plan. op_InstrumentID (o_Planned ord) \<noteq> ''''" using orderErrs_identity [OF planErrs_orders] by blast
  then show "list_all (order_closed (sound_from g)) plan" by (simp add: list_all_iff order_closed_sound)
  show "sound_from g g" using assms(2) by (simp add: sound_from_def)
  show "sound_from g (h\<lparr>g_staleOpen := b\<rparr>)" if "sound_from g h" for h b using that by (rule sound_then_core) simp
qed

lemma sound_consequence:
  assumes "state_ok g" "named (rr_ScopeInstrumentIDs r)" "named (rr_ScopeCashComponents r)"
    "rr_Action r = ReconciliationActionDegrade \<longrightarrow> rr_ScopeInstrumentIDs r \<noteq> [] \<or> rr_ScopeCashComponents r \<noteq> []"
  shows "sound_from g (fst (consequence g i r))"
proof -
  let ?s = "union_ids (g_scope g) (rr_ScopeInstrumentIDs r)" and ?c = "union_ids (g_cashScope g) (rr_ScopeCashComponents r)"
  let ?i = "''engine-state:'' @ g_accountID g @ '':'' @ i"
  have "core (fst (consequence g i r)) = core g \<or> moves g (fst (consequence g i r)) StateHalted [] [] ?i \<or>
      (rr_Action r = ReconciliationActionDegrade \<and> g_state g \<noteq> StateHalted \<and> moves g (fst (consequence g i r)) StateDegraded ?s ?c ?i)"
    by (auto simp: consequence_def moves_def moveState_def Let_def)
  then show ?thesis
  proof (elim disjE)
    assume "rr_Action r = ReconciliationActionDegrade \<and> g_state g \<noteq> StateHalted \<and> moves g (fst (consequence g i r)) StateDegraded ?s ?c ?i"
    then show ?thesis unfolding sound_from_def using assms state_ok_scopes [OF assms(1)]
      by (intro moves_degraded [where scope = ?s and cash = ?c and i = ?i] union_ids_ascending) auto
  next
    assume "moves g (fst (consequence g i r)) StateHalted [] [] ?i"
    then show ?thesis unfolding sound_from_def by (rule moves_halted)
  qed (rule sound_core [OF assms(1)])
qed

section \<open>The journal's facts\<close>

definition pending_ok :: "pending_cash \<Rightarrow> bool" where
  "pending_ok pc \<longleftrightarrow> rr_ScopeInstrumentIDs (pc_result pc) = [] \<and> rr_ScopeCashComponents (pc_result pc) = []"

definition journal_inv :: "gate \<Rightarrow> bool" where
  "journal_inv g \<longleftrightarrow> g_accountID g \<noteq> '''' \<and> scaleErrs (g_quantityScale g) = [] \<and> (case g_book g of None \<Rightarrow> True | Some b \<Rightarrow> book_ok b \<and> book_named b) \<and>
     list_all (\<lambda>c. change_ok c \<and> change_named c) (g_changes g) \<and> list_all pending_ok (g_pendingCash g)"

lemma valid_scopes:
  assumes "ReconResult_Validate r = []"
  shows "named (rr_ScopeInstrumentIDs r) \<and> named (rr_ScopeCashComponents r) \<and>
    (rr_Action r = ReconciliationActionDegrade \<longrightarrow> rr_ScopeInstrumentIDs r \<noteq> [] \<or> rr_ScopeCashComponents r \<noteq> [])"
proof -
  have a: "ascendingIDs (rr_ScopeInstrumentIDs r) = []" and c: "classificationErrs r = []" using assms by (auto simp: ReconResult_Validate_def split: if_splits)
  have "'''' \<notin> set (unexplainedCash cs)" for cs by (auto simp: unexplainedCash_def ReconciliationComponentCash_def)
  then have "named (rr_ScopeCashComponents r)" using c by (auto simp: classificationErrs_def Let_def named_def split: if_splits)
  moreover have "rr_Action r = ReconciliationActionDegrade \<Longrightarrow> rr_ScopeInstrumentIDs r \<noteq> [] \<or> rr_ScopeCashComponents r \<noteq> []"
    using c by (auto simp: classificationErrs_def Let_def split: if_splits)
  ultimately show ?thesis using a by (simp add: ascendingIDs_Nil named_def)
qed

lemma journal_classify:
  assumes "journal_inv g" "observation_named p" "i \<noteq> ''''"
  shows "ReconResult_Validate (fst (classify (g_book g) (g_changes g) i p note)) = []"
  using assms by (intro classify_valid) (auto simp: journal_inv_def list_all_iff)

lemma reconErrs_observation:
  assumes "reconErrs g i p = []" "list_all (\<lambda>q. in64 (ap_Quantity q)) (rows (rp_Positions p))"
  shows "observation_named p \<and> i \<noteq> ''''"
proof -
  have v: "Reconciliation_Validate p = []" "i \<noteq> ''''" using assms(1) by (auto simp: reconErrs_def split: if_splits)
  then have "accountPositionErrs (rp_QuantityScale p) None (rows (rp_Positions p)) = []" by (auto simp: Reconciliation_Validate_def split: if_splits)
  from accountPositionErrs_ascending [OF this] v assms(2) show ?thesis
    by (auto simp: Reconciliation_Validate_def observation_named_def list_all_iff split: if_splits)
qed

lemma sound_settleRepeats:
  assumes "rr_Action r = ReconciliationActionDegrade \<longrightarrow> rr_ScopeInstrumentIDs r \<noteq> [] \<or> rr_ScopeCashComponents r \<noteq> []"
    "named (rr_ScopeInstrumentIDs r)" "named (rr_ScopeCashComponents r)"
  shows "state_ok g \<Longrightarrow> sound_from g (fst (settleRepeats g i r reps))"
proof (induction reps arbitrary: g)
  case (Cons rep reps)
  let ?r = "r\<lparr>rr_InputID := fst rep, rr_ReconciliationID := snd rep, rr_RepeatOf := rr_ReconciliationID r\<rparr>"
  let ?x = "consequence g (i @ '':pending-cash:'' @ fst rep) ?r"
  have s: "sound_from g (fst ?x)" using Cons.prems assms by (intro sound_consequence) simp_all
  then have "sound_from g (fst (settleRepeats (fst ?x) i r reps))" by (rule sound_trans) (rule Cons.IH)
  then show ?case by (simp add: split_beta Let_def)
qed (simp add: sound_from_def)

lemma settledResult_scopes:
  assumes "pending_ok pc"
  shows "rr_ScopeInstrumentIDs (settledResult g pc why) = [] \<and> rr_ScopeCashComponents (settledResult g pc why) = (if why = None then [] else [ReconciliationComponentCash]) \<and>
    (rr_Action (settledResult g pc why) = ReconciliationActionDegrade \<longleftrightarrow> why \<noteq> None)"
  using assms by (simp add: settledResult_def pending_ok_def Let_def split_beta split: option.splits)

lemma sound_settle_loop:
  "state_ok g \<Longrightarrow> list_all pending_ok pcs \<Longrightarrow> sound_from g (fst (settle_loop g i t pcs))"
proof (induction pcs arbitrary: g)
  case (Cons pc pcs)
  show ?case
  proof (cases "if t > pc_to pc then decides g t pc else None")
    case None
    then show ?thesis using Cons by (simp add: split_beta Let_def)
  next
    case (Some why)
    let ?r = "settledResult g pc why"
    have r: "named (rr_ScopeInstrumentIDs ?r)" "named (rr_ScopeCashComponents ?r)"
      "rr_Action ?r = ReconciliationActionDegrade \<longrightarrow> rr_ScopeInstrumentIDs ?r \<noteq> [] \<or> rr_ScopeCashComponents ?r \<noteq> []"
      using settledResult_scopes [of pc g why] Cons.prems(2) by (auto simp: named_def ReconciliationComponentCash_def)
    let ?x = "consequence g (i @ '':pending-cash:'' @ pc_inputID pc) ?r" and ?y = "\<lambda>h. settleRepeats h i ?r (pc_repeats pc)"
    have "sound_from g (fst ?x)" by (rule sound_consequence [OF Cons.prems(1) r])
    then have "sound_from g (fst (?y (fst ?x)))" by (rule sound_trans) (rule sound_settleRepeats [OF r(3) r(1) r(2)])
    then have "sound_from g (fst (settle_loop (fst (?y (fst ?x))) i t pcs))" by (rule sound_trans) (use Cons in simp)
    then show ?thesis using Some by (simp add: split_beta Let_def)
  qed
qed (simp add: sound_from_def)

lemma core_pend: "core (fst (pend g i oc p)) = core g"
  by (simp add: pend_def Let_def split: option.splits prod.splits)

lemma core_takeReading: "core (takeReading g p) = core g"
  by (simp add: takeReading_def)

lemma core_report: "core (report g r t b) = core g"
  by (simp add: report_def forgetOmitted_def Let_def core_foldl reportComponent_def)

text \<open>The facts a reconciliation reads are not changed by the moves it makes.\<close>

definition facts :: "gate \<Rightarrow> book option \<times> change list \<times> string \<times> int" where
  "facts g = (g_book g, g_changes g, g_accountID g, g_quantityScale g)"

lemma facts_consequence [simp]: "facts (fst (consequence g i r)) = facts g" "g_pendingCash (fst (consequence g i r)) = g_pendingCash g"
  by (simp_all add: facts_def consequence_def moveState_def Let_def)

lemma facts_settleRepeats [simp]: "facts (fst (settleRepeats g i r reps)) = facts g"
  by (induction reps arbitrary: g) (simp_all add: split_beta Let_def)

lemma facts_settle_loop [simp]: "facts (fst (settle_loop g i t pcs)) = facts g"
  by (induction pcs arbitrary: g) (simp_all add: split_beta Let_def split: option.splits)

lemma settle_loop_kept: "list_all P pcs \<Longrightarrow> list_all P (fst (snd (settle_loop g i t pcs)))"
  by (induction pcs arbitrary: g) (simp_all add: split_beta Let_def split: option.splits)

lemma journal_settlePending: "journal_inv g \<Longrightarrow> journal_inv (fst (settlePending g i p))"
proof -
  assume j: "journal_inv g"
  let ?x = "settle_loop g i (rp_AsOf p) (g_pendingCash g)"
  have "facts (fst ?x) = facts g" "list_all pending_ok (fst (snd ?x))" using j by (simp_all add: settle_loop_kept journal_inv_def)
  then show ?thesis using j by (simp add: settlePending_def split_beta Let_def journal_inv_def facts_def)
qed

lemma pend_result:
  assumes "ReconResult_Validate (oc_Result oc) = []"
  shows "named (rr_ScopeInstrumentIDs (snd (pend g i oc p))) \<and> named (rr_ScopeCashComponents (snd (pend g i oc p))) \<and>
    (rr_Action (snd (pend g i oc p)) = ReconciliationActionDegrade \<longrightarrow>
      rr_ScopeInstrumentIDs (snd (pend g i oc p)) \<noteq> [] \<or> rr_ScopeCashComponents (snd (pend g i oc p)) \<noteq> [])"
  using valid_scopes [OF assms] by (auto simp: pend_def pendingResult_def named_def Let_def split: option.splits prod.splits)

lemma pends_scope: "pends g oc t = Some x \<Longrightarrow> rr_ScopeInstrumentIDs (oc_Result oc) = []"
  by (auto simp: pends_def Let_def split: if_splits)

lemma pend_pending: "list_all pending_ok (g_pendingCash g) \<Longrightarrow> list_all pending_ok (g_pendingCash (fst (pend g i oc p)))"
proof -
  have r: "list_all pending_ok pcs \<Longrightarrow> list_all pending_ok (addRepeat same rep pcs)" for same rep pcs
    by (induction pcs) (auto simp: pending_ok_def)
  assume "list_all pending_ok (g_pendingCash g)"
  then show ?thesis using r pends_scope [of g oc "rp_AsOf p"]
    by (auto simp: pend_def Let_def pendingResult_def split: option.splits prod.splits) (simp add: pending_ok_def)
qed

lemma sound_Reconcile:
  assumes "Reconcile_gate g i p = Inr (h, x)" "state_ok g" "journal_inv g" "list_all (\<lambda>q. in64 (ap_Quantity q)) (rows (rp_Positions p))"
  shows "sound_from g h"
proof -
  have e: "reconErrs g i p = []" using assms(1) by (simp add: Reconcile_gate_def)
  note ob = reconErrs_observation [OF e assms(4)]
  define g1 where "g1 = fst (settlePending g i p)"
  have s1: "sound_from g g1"
  proof -
    have "sound_from g (fst (settle_loop g i (rp_AsOf p) (g_pendingCash g)))" using assms(2, 3) by (intro sound_settle_loop) (simp_all add: journal_inv_def)
    then show ?thesis unfolding g1_def by (rule sound_then_core) (simp add: settlePending_def split_beta Let_def)
  qed
  define oc where "oc = Reconcile (g_book g1) (g_changes g1) i p"
  have v: "ReconResult_Validate (oc_Result oc) = []"
    using journal_classify [of g1 p i] journal_settlePending [OF assms(3)] ob by (simp add: oc_def g1_def Reconcile_def split_beta Let_def)
  let ?r = "snd (pend g1 i oc p)"
  define g2 where "g2 = report (takeReading (fst (pend g1 i oc p)) p) ?r (rp_AsOf p)
     (case g_book (takeReading (fst (pend g1 i oc p)) p) of None \<Rightarrow> False | Some b \<Rightarrow> ReconReadable p ReconciliationComponentPositions \<and> bk_AsOf b \<le> rp_AsOf p)"
  have s2: "sound_from g g2" using s1 by (rule sound_then_core) (simp add: g2_def core_report core_takeReading core_pend)
  have "h = fst (consequence g2 i ?r)"
    using assms(1) by (auto simp: Reconcile_gate_def Let_def split_beta g2_def oc_def g1_def)
  moreover have "sound_from g (fst (consequence g2 i ?r))" using s2 by (rule sound_trans) (use pend_result [OF v, of g1 i p] in \<open>simp add: sound_consequence\<close>)
  ultimately show ?thesis by simp
qed

definition book_typed :: "book \<Rightarrow> bool" where
  "book_typed b \<longleftrightarrow> book_ok b \<and> book_named b \<and> bk_AnchorID b \<noteq> ''''"

lemma holdings_observation:
  assumes "book_typed b" "scaleErrs (bk_QuantityScale b) = []" "a \<noteq> ''''"
  shows "observation_named (holdingsObservation a b)"
proof -
  have "i \<in> fst ` set (bk_Positions b) \<Longrightarrow> i \<noteq> ''''" for i using assms(1) unfolding book_typed_def book_named_def by blast
  moreover have "in64 (mget (bk_Positions b) i 0)" for i using assms(1) by (simp add: book_typed_def book_ok_def in64_mget)
  ultimately show ?thesis using assms by (simp add: observation_named_def holdingsObservation_def CloseSnapshotPrefix_def list_all_iff)
qed

lemma core_book: "core (fst (case SetBook h b of Inl es \<Rightarrow> (h, v, es) | Inr k \<Rightarrow> (k, v, []))) = core h"
  by (auto split: sum.splits dest: core_facts(4))

lemma sound_checkHoldings:
  assumes "state_ok g" "journal_inv g" "book_typed b" "checkQuantityScale g (bk_QuantityScale b) = []"
  shows "sound_from g (fst (checkHoldings g b))"
proof (cases "g_book g")
  case None
  then show ?thesis using assms(1) by (simp add: checkHoldings_def sound_from_def)
next
  case (Some old)
  let ?r = "Holdings (g_accountID g) (Some old) (g_changes g) b"
  have "observation_named (holdingsObservation (g_accountID g) b)"
    using assms(2-4) by (intro holdings_observation) (simp_all add: journal_inv_def checkQuantityScale_def)
  moreover have "book_ok (positionsOnly old) \<and> book_named (positionsOnly old)"
    using assms(2) Some by (simp add: journal_inv_def positionsOnly_def book_ok_def book_named_def)
  ultimately have "ReconResult_Validate (fst (classify (map_option positionsOnly (Some old)) (g_changes g) (bk_AnchorID b)
      (holdingsObservation (g_accountID g) b) (HoldingsOfCloseSnapshot (bk_AnchorID b)))) = []"
    using assms(2, 3) by (intro classify_valid) (auto simp: journal_inv_def book_typed_def list_all_iff)
  from valid_scopes [OF this] have "sound_from g (fst (consequence g (bk_AnchorID b) ?r))"
    using assms(1) by (intro sound_consequence) (simp_all add: Holdings_scopes)
  then show ?thesis using Some assms(1) by (simp add: checkHoldings_def Let_def split_beta sound_from_def [of g g])
qed

lemma sound_CheckBook:
  assumes "state_ok g" "journal_inv g" "book_typed b"
  shows "sound_from g (fst (CheckBook g b))"
proof (cases "checkQuantityScale g (bk_QuantityScale b) = []")
  case False
  have "sound_from g (fst (consequence g (bk_AnchorID b) (scaleRefused g b)))"
    using assms(1) by (rule sound_consequence) (simp_all add: scaleRefused_def Let_def named_def)
  with False show ?thesis by (simp add: CheckBook_def split_beta Let_def)
next
  case True
  from sound_then_core [OF sound_checkHoldings [OF assms True] core_book] True show ?thesis
    by (simp add: CheckBook_def split_beta Let_def)
qed

lemma sound_tighten:
  assumes "tighten g i st ids cash = Inr h" "state_ok g" "named ids" "named cash" "st = StateHalted \<or> (st = StateDegraded \<and> (ids \<noteq> [] \<or> cash \<noteq> []))"
  shows "sound_from g h"
proof (cases "st = StateHalted")
  case True
  then have "moves g h StateHalted [] [] i" using assms(1) by (auto simp: tighten_def moves_def Let_def)
  then show ?thesis unfolding sound_from_def by (rule moves_halted)
next
  case False
  then have m: "moves g h StateDegraded (union_ids (g_scope g) ids) (union_ids (g_cashScope g) cash) i" and n: "g_state g \<noteq> StateHalted"
    using assms(1) by (auto simp: tighten_def moves_def Let_def)
  show ?thesis unfolding sound_from_def using assms(3-5) state_ok_scopes [OF assms(2)] n False
    by (intro moves_degraded [OF m] union_ids_ascending) auto
qed

lemma sound_RestoreState:
  assumes "RestoreState g i p v = Inr h" "state_ok g"
  shows "sound_from g h"
proof -
  have t: "tighten g i (es_State p) (es_ScopeInstrumentIDs p) (es_ScopeCashComponents p) = Inr h" "EngineState_ValidateSchema p v = []" "es_ScopeOrderIDs p = []"
    using assms(1) by (auto simp: RestoreState_def)
  then have "EngineState_Validate p = []" by (auto simp: EngineState_ValidateSchema_def split: if_splits)
  then have "named (es_ScopeInstrumentIDs p)" "named (es_ScopeCashComponents p)"
    "es_State p = StateHalted \<or> (es_State p = StateDegraded \<and> (es_ScopeInstrumentIDs p \<noteq> [] \<or> es_ScopeCashComponents p \<noteq> []))"
    using t(3) by (auto simp: EngineState_Validate_def EngineState_scoped_def ascendingIDs_Nil named_def split: if_splits)
  from sound_tighten [OF t(1) assms(2) this] show ?thesis .
qed

lemma sound_RestoreIncident:
  assumes "RestoreIncidentState g i st ids cash = Inr h" "state_ok g" "named ids" "named cash"
  shows "sound_from g h"
proof (rule sound_tighten)
  show "tighten g i st ids cash = Inr h" "st = StateHalted \<or> (st = StateDegraded \<and> (ids \<noteq> [] \<or> cash \<noteq> []))"
    using assms(1) by (auto simp: RestoreIncidentState_def Let_def)
qed (use assms in auto)

section \<open>The journal's facts under every operation\<close>

lemma Fill_identity:
  assumes "Fill_Validate p = []"
  shows "tf_FillID p \<noteq> '''' \<and> tf_InstrumentID p \<noteq> '''' \<and> 0 < tf_Quantity p"
  using assms by (auto simp: Fill_Validate_def orderIdentity_def split: if_splits)

lemma FillChange_named: "Fill_Validate p = [] \<Longrightarrow> change_named (FillChange p)"
  using Fill_identity [of p] by (simp add: change_named_def FillChange_def noChange_def Let_def)

lemma CorporateActionChange_named: "CorporateAction_Validate p = [] \<Longrightarrow> i \<noteq> '''' \<Longrightarrow> change_named (CorporateActionChange i p)"
  by (auto simp: change_named_def CorporateActionChange_def noChange_def CorporateAction_Validate_def Let_def)

lemma CashMovementChange_named: "i \<noteq> '''' \<Longrightarrow> change_named (CashMovementChange i p)"
  by (simp add: change_named_def CashMovementChange_def noChange_def Let_def)

definition journal_facts :: "gate \<Rightarrow> string \<times> int \<times> book option \<times> change list \<times> pending_cash list" where
  "journal_facts g = (g_accountID g, g_quantityScale g, g_book g, g_changes g, g_pendingCash g)"

lemma journal_facts_inv: "journal_facts h = journal_facts g \<Longrightarrow> journal_inv g \<Longrightarrow> journal_inv h"
  by (simp add: journal_facts_def journal_inv_def)

lemma CheckFill_cases:
  assumes "CheckFill p a ord applied = Inr redelivery"
  shows "Fill_Validate p = [] \<and> (if redelivery then \<exists>seen. applied (tf_FillID p) = Some seen \<and> SameExecution seen p
    else applied (tf_FillID p) = None \<and> (\<exists>r. ord = Some r \<and> tf_InstrumentID p = fo_InstrumentID r \<and> tf_Side p = fo_Side r \<and> tf_AccountID p = a \<and>
      tf_QuantityScale p = fo_QuantityScale r \<and> tf_Quantity p \<le> sub64 (fo_Quantity r) (fo_Reported r)))"
  using assms by (auto simp: CheckFill_def checkReport_def split: option.splits if_splits)

text \<open>What an accepted fill does: a redelivery nothing, a new execution what \<open>ObserveFill\<close> records.\<close>

lemma ObserveFill_cases:
  assumes "ObserveFill g p = Inr h"
  shows "Fill_Validate p = [] \<and> ((h = g \<and> g_fills g (tf_FillID p) \<noteq> None) \<or>
    (g_fills g (tf_FillID p) = None \<and> (\<exists>r. map_of (g_orders g) (tf_ClientOrderID p) = Some r \<and>
      tf_Quantity p \<le> sub64 (op_Quantity (ro_planned r)) (ro_reported r) \<and> h = recordFill g p r)))"
proof -
  let ?c = "CheckFill p (g_accountID g) (map_option fillOrder (map_of (g_orders g) (tf_ClientOrderID p))) (g_fills g)"
  have b: "bindr ?c (\<lambda>redelivery. if redelivery then Inr g else case map_of (g_orders g) (tf_ClientOrderID p) of
        None \<Rightarrow> Inl [''report names an order the gate never released''] | Some r \<Rightarrow> Inr (recordFill g p r)) = Inr h"
    using assms by (simp add: ObserveFill_def Let_def)
  then obtain redelivery where c: "?c = Inr redelivery" by (auto simp: bindr_eq_Inr)
  from CheckFill_cases [OF c] b c show ?thesis by (cases redelivery) (auto simp: fillOrder_def Let_def)
qed

lemma journal_ObserveFill:
  assumes "ObserveFill g p = Inr h" "journal_inv g" "in64 (tf_Quantity p)"
  shows "journal_inv h"
  using ObserveFill_cases [OF assms(1)] assms(2, 3) FillChange_named [of p] FillChange_ok [of p] by (auto simp: journal_inv_def recordFill_def)

lemma journal_Corporate:
  assumes "ObserveCorporateAction g i p = Inr h" "journal_inv g"
  shows "journal_inv h"
  using assms CorporateActionChange_named [of p i] CorporateActionChange_ok [of i p]
  by (auto simp: ObserveCorporateAction_def journal_inv_def split: option.splits)

lemma journal_Cash:
  assumes "ObserveCashMovement g i p = Inr h" "journal_inv g"
  shows "journal_inv h"
  using assms CashMovementChange_named [of i p] CashMovementChange_ok [of i p]
  by (auto simp: ObserveCashMovement_def journal_inv_def split: option.splits)

lemma journal_SetBook: "SetBook g b = Inr h \<Longrightarrow> journal_inv g \<Longrightarrow> book_ok b \<Longrightarrow> book_named b \<Longrightarrow> journal_inv h"
  by (auto simp: SetBook_def journal_inv_def)

lemma facts_inv: "facts h = facts g \<Longrightarrow> g_pendingCash h = g_pendingCash g \<Longrightarrow> journal_inv g \<Longrightarrow> journal_inv h"
  by (simp add: facts_def journal_inv_def)

lemma journal_consequence: "journal_inv g \<Longrightarrow> journal_inv (fst (consequence g i r))"
  by (rule facts_inv [of _ g]) simp_all

lemma journal_book:
  "journal_inv h \<Longrightarrow> book_ok b \<Longrightarrow> book_named b \<Longrightarrow> journal_inv (fst (case SetBook h b of Inl es \<Rightarrow> (h, v, es) | Inr k \<Rightarrow> (k, v, [])))"
  by (simp split: sum.splits add: journal_SetBook)

lemma journal_CheckBook:
  assumes "journal_inv g" "book_typed b"
  shows "journal_inv (fst (CheckBook g b))"
proof -
  have h: "journal_inv (fst (checkHoldings g b))" using assms(1) journal_consequence
    by (simp add: checkHoldings_def Let_def split_beta split: option.splits)
  have "book_ok b" "book_named b" using assms(2) by (simp_all add: book_typed_def)
  from journal_book [OF h this, where v = "snd (checkHoldings g b)"] journal_consequence [OF assms(1), where i = "bk_AnchorID b" and r = "scaleRefused g b"]
  show ?thesis by (simp add: CheckBook_def Let_def split_beta del: split_paired_All)
qed

lemma facts_foldl: "(\<And>g x. journal_facts (f g x) = journal_facts g) \<Longrightarrow> journal_facts (foldl f g xs) = journal_facts g"
  by (induction xs arbitrary: g) auto

lemma facts_report: "journal_facts (report g r t b) = journal_facts g"
proof -
  have a: "journal_facts (forgetOmitted g ids t) = journal_facts g" for g ids unfolding forgetOmitted_def
    by (rule facts_foldl) (simp add: journal_facts_def)
  have "journal_facts (foldl (reportComponent t) h cs) = journal_facts h" for h cs
    by (rule facts_foldl) (simp add: journal_facts_def reportComponent_def Let_def)
  then show ?thesis by (simp add: report_def Let_def a)
qed

lemma journal_Reconcile:
  assumes "Reconcile_gate g i p = Inr (h, x)" "journal_inv g"
  shows "journal_inv h"
proof -
  define g1 where "g1 = fst (settlePending g i p)"
  define oc where "oc = Reconcile (g_book g1) (g_changes g1) i p"
  have j1: "journal_inv g1" unfolding g1_def using assms(2) by (rule journal_settlePending)
  then have j2: "journal_inv (fst (pend g1 i oc p))"
    using pend_pending [of g1 i oc p] by (simp add: journal_inv_def pend_def Let_def split: option.splits prod.splits)
  let ?g = "takeReading (fst (pend g1 i oc p)) p"
  have "journal_facts ?g = journal_facts (fst (pend g1 i oc p))" by (simp add: takeReading_def journal_facts_def)
  then have j3: "journal_inv ?g" using j2 by (rule journal_facts_inv)
  have "h = fst (consequence (report ?g (snd (pend g1 i oc p)) (rp_AsOf p)
     (case g_book ?g of None \<Rightarrow> False | Some b \<Rightarrow> ReconReadable p ReconciliationComponentPositions \<and> bk_AsOf b \<le> rp_AsOf p)) i (snd (pend g1 i oc p)))"
    using assms(1) by (auto simp: Reconcile_gate_def Let_def split_beta oc_def g1_def)
  with journal_consequence [OF journal_facts_inv [OF facts_report j3]] show ?thesis by simp
qed

lemma order_closed_journal: "order_closed journal_inv ord"
proof -
  have a: "list_all pending_ok pcs \<Longrightarrow> list_all pending_ok (alertFirst pcs)" for pcs by (induction pcs) (auto simp: pending_ok_def)
  show ?thesis by (rule order_closedI)
    (simp_all add: a journal_inv_def haltGate_def degradeGate_def enterState_def moveState_def releaseOrder_def Let_def)
qed

lemma journal_Check:
  assumes "Check g book plan = Inr (h, outs)" "journal_inv g"
  shows "journal_inv h"
  by (rule Check_closed [OF assms(1)]) (use assms(2) in \<open>simp_all add: order_closed_journal list_all_iff, simp_all add: journal_inv_def\<close>)

section \<open>The ledger and the broker's view under every operation\<close>

definition ledger_inv :: "gate \<Rightarrow> bool" where
  "ledger_inv g \<longleftrightarrow> ledger_wf (g_ledger g) \<and> view_ok g"

definition ledger_facts :: "gate \<Rightarrow> broker_snapshot_payload option \<times> view \<times> sell_ledger" where
  "ledger_facts g = (g_broker g, g_brokerView g, g_ledger g)"

lemma ledger_facts_inv: "ledger_facts h = ledger_facts g \<Longrightarrow> ledger_inv g \<Longrightarrow> ledger_inv h"
  by (simp add: ledger_facts_def ledger_inv_def view_ok_def split: option.splits)

text \<open>Operations on sells leave the snapshots' holdings alone.\<close>

definition same_snapshots :: "sell_ledger \<Rightarrow> sell_ledger \<Rightarrow> bool" where
  "same_snapshots l k \<longleftrightarrow> sl_held k = sl_held l \<and> sl_snapshots k = sl_snapshots l"

lemma same_snapshots_refl [simp]: "same_snapshots l l"
  by (simp add: same_snapshots_def)

lemma same_snapshots_ops [simp]:
  "same_snapshots l (ledger_release k c i q) = same_snapshots l k" "same_snapshots l (upd_sell k a f) = same_snapshots l k"
  "same_snapshots l (learnVenue k a w) = same_snapshots l k" "same_snapshots l (ledger_restore k c i q w) = same_snapshots l k"
  "same_snapshots l (sl_openOrders_update h k) = same_snapshots l k" "same_snapshots l (sl_unknown_update j k) = same_snapshots l k"
  by (auto simp: same_snapshots_def ledger_release_def upd_sell_def learnVenue_def ledger_restore_def Let_def split: option.splits)

lemma same_snapshots_listOpenOrders [simp]: "same_snapshots l (listOpenOrders k v os) = same_snapshots l k"
proof -
  have o1: "same_snapshots l (listOpenOrder v k b) = same_snapshots l k" for k b
    by (simp add: listOpenOrder_def Let_def split: option.splits)
  have "same_snapshots l (foldl (listOpenOrder v) k os) = same_snapshots l k" for k by (induction os arbitrary: k) (simp_all add: o1)
  then show ?thesis by (simp add: listOpenOrders_def)
qed

lemma ledger_inv_update:
  assumes "ledger_inv g" "g_broker h = g_broker g" "g_brokerView h = g_brokerView g" "same_snapshots (g_ledger g) (g_ledger h)" "ledger_wf (g_ledger h)"
  shows "ledger_inv h"
  using assms by (simp add: ledger_inv_def view_ok_def same_snapshots_def split: option.splits)

lemma order_closed_ledger:
  assumes "0 < op_Quantity (o_Planned ord)" "op_Quantity (o_Planned ord) \<le> max64"
  shows "order_closed ledger_inv ord"
proof (rule order_closedI)
  have q: "quantity_ok (op_Quantity (o_Planned ord))" using assms by (simp add: quantity_ok_def)
  show "ledger_inv (fst (releaseOrder g ord f))" if "ledger_inv g" for g f
    using that by (rule ledger_inv_update) (use that q in \<open>simp_all add: releaseOrder_def ledger_inv_def ledger_wf_release Let_def\<close>)
qed (erule ledger_facts_inv [rotated], simp add: ledger_facts_def haltGate_def degradeGate_def enterState_def moveState_def Let_def)+

lemma ledger_Check:
  assumes "Check g book plan = Inr (h, outs)" "ledger_inv g" "list_all (\<lambda>ord. in64 (op_Quantity (o_Planned ord))) plan"
  shows "ledger_inv h"
proof (rule Check_closed [OF assms(1)])
  have "planErrs g book plan = []" using assms(1) by (simp add: Check_plan)
  then have "\<forall>ord\<in>set plan. 0 < op_Quantity (o_Planned ord) \<and> op_Quantity (o_Planned ord) \<le> max64"
    using orderErrs_identity [OF planErrs_orders] assms(3) by (auto simp: list_all_iff in64_def)
  then show "list_all (order_closed ledger_inv) plan" by (simp add: list_all_iff order_closed_ledger)
  show "ledger_inv (k\<lparr>g_staleOpen := b\<rparr>)" if "ledger_inv k" for k b using that by (rule ledger_facts_inv [rotated]) (simp add: ledger_facts_def)
qed (rule assms(2))

lemma brokerPositions_ascending:
  assumes "brokerPositionErrs scale prev ps = []"
  shows "distinct (map bp_InstrumentID ps) \<and> (\<forall>y. prev = Some y \<longrightarrow> (\<forall>q\<in>set ps. y < bp_InstrumentID q))"
  using assms
proof (induction scale prev ps rule: brokerPositionErrs.induct)
  case (2 scale prev p ps)
  then have "brokerPositionErrs scale (Some (bp_InstrumentID p)) ps = []" "\<forall>y. prev = Some y \<longrightarrow> y < bp_InstrumentID p" by (auto split: if_splits)
  with 2(1) show ?case by force
qed simp

lemma positionsMap_lookup:
  assumes "BrokerSnapshot_Validate s = []"
  shows "mget (positionsMap s) i 0 = brokerShares s i"
proof -
  have f: "distinct (map bp_InstrumentID ps) \<Longrightarrow> mget (foldl (\<lambda>m p. mput m (bp_InstrumentID p) (bp_Quantity p)) m ps) i 0 =
      (case find (\<lambda>q. bp_InstrumentID q = i) ps of None \<Rightarrow> mget m i 0 | Some q \<Rightarrow> bp_Quantity q)" for m ps
  proof (induction ps arbitrary: m)
    case (Cons q ps)
    have "bp_InstrumentID q = i \<Longrightarrow> find (\<lambda>q. bp_InstrumentID q = i) ps = None" using Cons.prems by (auto simp: find_None_iff rev_image_eqI)
    with Cons show ?case by (auto split: option.splits)
  qed simp
  have "brokerPositionErrs (bs_QuantityScale s) None (rows (bs_Positions s)) = []" using assms by (auto simp: BrokerSnapshot_Validate_def split: if_splits)
  from brokerPositions_ascending [OF this] show ?thesis
    by (simp add: positionsMap_def f brokerShares_def BrokerSnapshot_Position_def split: option.splits)
qed

definition broker_typed :: "broker_snapshot_payload \<Rightarrow> bool" where
  "broker_typed s \<longleftrightarrow> list_all (\<lambda>p. in64 (bp_Quantity p)) (rows (bs_Positions s)) \<and> list_all (\<lambda>b. in64 (bo_RemainingQuantity b)) (rows (bs_OpenOrders s))"

lemma brokerShares_in64: "broker_typed s \<Longrightarrow> in64 (brokerShares s i)"
  by (auto simp: broker_typed_def brokerShares_def BrokerSnapshot_Position_def list_all_iff find_Some_iff split: option.splits)

lemma ledger_snapshot_facts:
  "sl_snapshots (fst (ledger_snapshot l t held r)) = sl_snapshots l + 1"
  "sl_held (fst (ledger_snapshot l t held r)) = (case held of None \<Rightarrow> sl_held l | Some h \<Rightarrow> (sl_held l)(sl_snapshots l + 1 := h))"
  "snd (ledger_snapshot l t held r) = \<lparr>v_at = t, v_by = sl_snapshots l + 1\<rparr>"
  by (simp_all add: ledger_snapshot_def Let_def)

lemma ledger_takeBroker:
  assumes "ledger_inv g" "BrokerSnapshot_Validate s = []" "broker_typed s"
  shows "ledger_inv (takeBroker g i s)"
proof -
  define held where "held = (if BrokerReadable s BrokerComponentPositions then Some (positionsMap s) else None)"
  obtain l1 v where x: "ledger_snapshot (g_ledger g) (bs_AsOf s) held (held \<noteq> None \<and> BrokerReadable s BrokerComponentOpenOrders) = (l1, v)" by fastforce
  define l where "l = (if BrokerReadable s BrokerComponentOpenOrders then listOpenOrders l1 v (rows (bs_OpenOrders s)) else l1)"
  have t: "g_ledger (takeBroker g i s) = l" "g_brokerView (takeBroker g i s) = v" "g_broker (takeBroker g i s) = Some s"
  proof -
    have "recordBroker g s = g\<lparr>g_brokerView := v, g_ledger := l\<rparr>"
      unfolding recordBroker_def Let_def held_def [symmetric] x l_def by simp
    then show "g_ledger (takeBroker g i s) = l" "g_brokerView (takeBroker g i s) = v" "g_broker (takeBroker g i s) = Some s"
      by (simp_all add: takeBroker_def Let_def)
  qed
  have "list_all (\<lambda>b. quantity_ok (bo_RemainingQuantity b)) (rows (bs_OpenOrders s))"
    using assms(3) BrokerSnapshot_remaining [OF assms(2)] by (auto simp: list_all_iff broker_typed_def quantity_ok_def in64_def less_imp_le)
  moreover have "ledger_wf l1"
    using ledger_wf_snapshot [of "g_ledger g" held "bs_AsOf s" "held \<noteq> None \<and> BrokerReadable s BrokerComponentOpenOrders"] assms
    by (simp only: x) (simp add: ledger_inv_def held_def positionsMap_lookup brokerShares_in64)
  ultimately have wf: "ledger_wf l" by (simp add: l_def ledger_wf_listOpenOrders)
  have n: "v_by v = sl_snapshots l1" "sl_snapshots l1 = sl_snapshots (g_ledger g) + 1" "held = Some m \<Longrightarrow> sl_held l1 (v_by v) = m" for m
    using x by (auto simp: ledger_snapshot_def Let_def)
  have "same_snapshots l1 l" by (simp add: l_def)
  then have l: "sl_held l = sl_held l1" "sl_snapshots l = sl_snapshots l1" by (simp_all add: same_snapshots_def)
  have "0 \<le> sl_snapshots (g_ledger g)" using assms(1) by (simp add: ledger_inv_def ledger_wf_def)
  then show ?thesis using wf l n by (auto simp: ledger_inv_def view_ok_def t held_def positionsMap_lookup [OF assms(2)])
qed

lemma checkBroker_valid: "checkBroker g i s = [] \<Longrightarrow> BrokerSnapshot_Validate s = []"
  by (auto simp: checkBroker_def split: if_splits)

lemma facts_raiseAlarm: "ledger_facts (fst (raiseAlarm g i a u e l)) = ledger_facts g"
  by (simp add: raiseAlarm_def ledger_facts_def Let_def)

lemma facts_lapseExit: "ledger_facts (fst (lapseExit g d)) = ledger_facts g"
  by (simp add: lapseExit_def ledger_facts_def Let_def split: option.splits)

lemma ledger_ObserveBroker:
  assumes "ObserveBroker g i s = Inr (h, x)" "ledger_inv g" "broker_typed s"
  shows "ledger_inv h"
proof -
  have "checkBroker g i s = []" using assms(1) by (simp add: ObserveBroker_def)
  with checkBroker_valid have "ledger_inv (takeBroker g i s)" by (intro ledger_takeBroker assms) blast
  moreover have "ledger_facts h = ledger_facts (takeBroker g i s)"
    using assms(1) unfolding ObserveBroker_def Let_def
    by (auto simp: split_beta facts_raiseAlarm facts_lapseExit split: if_splits dest!: arg_cong [of _ "(h, x)" fst])
      (simp_all add: ledger_facts_def facts_lapseExit [unfolded ledger_facts_def])
  ultimately show ?thesis by (rule ledger_facts_inv [rotated])
qed

lemma ledger_ObserveAccount:
  assumes "ObserveAccount g p = Inr h" "ledger_inv g" "list_all (\<lambda>q. in64 (ap_Quantity q)) (aps_Positions p)"
  shows "ledger_inv h"
proof -
  let ?m = "observedMap (aps_Positions p)"
  have m: "in64 (mget ?m i 0)" for i using observedMap_in64 [OF assms(3)] by (rule in64_mget)
  obtain l v where x: "ledger_snapshot (g_ledger g) (aps_AsOf p) (Some ?m) True = (l, v)" by fastforce
  have h: "h = g\<lparr>g_ledger := l, g_account := v\<rparr>" using assms(1) x by (simp add: ObserveAccount_def)
  have "ledger_wf l" using ledger_wf_snapshot [of "g_ledger g" "Some ?m" "aps_AsOf p" True] x m assms(2) by (simp add: ledger_inv_def)
  moreover have "sl_snapshots l = sl_snapshots (g_ledger g) + 1" "n \<le> sl_snapshots (g_ledger g) \<Longrightarrow> sl_held l n = sl_held (g_ledger g) n" for n
    using x by (auto simp: ledger_snapshot_def Let_def)
  ultimately show ?thesis using assms(2) by (auto simp: h ledger_inv_def view_ok_def split: option.splits)
qed

lemma ledger_recordFill:
  assumes "ledger_inv g" "0 < tf_Quantity p" "in64 (tf_Quantity p)"
  shows "ledger_inv (recordFill g p r)"
  using assms(1)
proof (rule ledger_inv_update)
  have "ledger_wf (upd_sell (g_ledger g) a (ls_fills_update (\<lambda>xs. xs @ [\<lparr>st_at = tf_FilledAt p, st_by = 0, st_quantity = tf_Quantity p\<rparr>])))" for a
    using assms by (intro ledger_wf_upd_sell) (auto simp: sell_wf_def quantity_ok_def in64_def ledger_inv_def)
  then show "ledger_wf (g_ledger (recordFill g p r))" using assms(1) by (simp add: recordFill_def ledger_inv_def split: option.splits)
qed (simp_all add: recordFill_def split: option.splits)

lemma ledger_ObserveFill:
  assumes "ObserveFill g p = Inr h" "ledger_inv g" "in64 (tf_Quantity p)"
  shows "ledger_inv h"
  using ObserveFill_cases [OF assms(1)] Fill_identity [of p] assms(2, 3) ledger_recordFill by auto

lemma ledger_ObserveLifecycle:
  assumes "ObserveLifecycle g p = Inr h" "ledger_inv g"
  shows "ledger_inv h"
proof -
  have "h = g \<or> (\<exists>a l. l = learnVenue (g_ledger g) a (lc_OrderID p) \<and> (h = g\<lparr>g_ledger := upd_sell l a (endSell p)\<rparr> \<or> h = g\<lparr>g_ledger := l\<rparr>))"
    using assms(1) by (auto simp: ObserveLifecycle_def Let_def split: option.splits if_splits)
  then show ?thesis
  proof (elim disjE exE conjE)
    fix a l assume l: "l = learnVenue (g_ledger g) a (lc_OrderID p)"
    have wf: "ledger_wf l" using assms(2) by (simp add: l ledger_wf_learnVenue ledger_inv_def)
    have e: "ledger_wf (upd_sell l a (endSell p))" using wf by (rule ledger_wf_upd_sell) (auto simp: endSell_def sell_wf_def Let_def)
    { assume "h = g\<lparr>g_ledger := upd_sell l a (endSell p)\<rparr>"
      then show ?thesis by (intro ledger_inv_update [OF assms(2)]) (simp_all add: e, simp add: l) }
    { assume "h = g\<lparr>g_ledger := l\<rparr>"
      then show ?thesis by (intro ledger_inv_update [OF assms(2)]) (simp_all add: wf, simp add: l) }
  qed (simp add: assms(2))
qed

text \<open>\<open>Check_sells_never_short\<close> on the worked account, whose ledger and view the broker snapshot makes sound.\<close>

theorem Check_sells_never_short_witness:
  "\<exists>g' outs. Check example_ready example_book example_plan = Inr (g', outs) \<and>
     soldOf ''AAA'' (concat (map releasedSell outs)) \<le> remains (g_ledger example_ready) ''AAA''"
proof -
  obtain g' outs where c: "Check example_ready example_book example_plan = Inr (g', outs)" using example_outcomes by blast
  have "ledger_inv example_gate"
    by (simp add: ledger_inv_def example_gate_def freshGate_def view_ok_def newSellLedger_def ledger_wf_def)
  moreover have "BrokerSnapshot_Validate example_snapshot = []" "broker_typed example_snapshot" by code_simp+
  ultimately have "ledger_inv (takeBroker example_gate ''s1'' example_snapshot)" by (rule ledger_takeBroker)
  then have l: "ledger_inv example_ready" by (rule ledger_facts_inv [rotated]) (simp add: example_ready_def RecordDecision_def ledger_facts_def)
  have r: "brokerReadable example_ready" by code_simp
  have t: "list_all (\<lambda>ord. in64 (op_Quantity (o_Planned ord))) example_plan" by code_simp
  show ?thesis using Check_sells_never_short [OF c t] l r c by (auto simp: ledger_inv_def)
qed

section \<open>Released orders and their fills\<close>

text \<open>Every order's fills are its own and counted once, and it never holds more fills than it released.\<close>

definition fills_sum :: "target_weight_fill list \<Rightarrow> int" where
  "fills_sum fs = (\<Sum>f\<leftarrow>fs. tf_Quantity f)"

definition order_sound :: "gate \<Rightarrow> string \<Rightarrow> released_order \<Rightarrow> bool" where
  "order_sound g c r \<longleftrightarrow> ro_reported r = fills_sum (ro_fills r) \<and> 0 \<le> ro_reported r \<and> ro_reported r \<le> op_Quantity (ro_planned r) \<and>
     op_Quantity (ro_planned r) \<le> max64 \<and> distinct (map tf_FillID (ro_fills r)) \<and>
     list_all (\<lambda>f. tf_ClientOrderID f = c \<and> 0 < tf_Quantity f \<and> g_fills g (tf_FillID f) = Some f) (ro_fills r)"

definition orders_inv :: "gate \<Rightarrow> bool" where
  "orders_inv g \<longleftrightarrow> (\<forall>c r. map_of (g_orders g) c = Some r \<longrightarrow> order_sound g c r)"

lemma order_sound_fills: "g_fills h = g_fills g \<Longrightarrow> order_sound h c r = order_sound g c r"
  by (simp add: order_sound_def)

definition order_facts :: "gate \<Rightarrow> (string, released_order) gomap \<times> (string \<Rightarrow> target_weight_fill option)" where
  "order_facts g = (g_orders g, g_fills g)"

lemma order_facts_inv: "order_facts h = order_facts g \<Longrightarrow> orders_inv g \<Longrightarrow> orders_inv h"
  using order_sound_fills [of h g] by (simp add: order_facts_def orders_inv_def)

lemma orders_soundD: "orders_inv g \<Longrightarrow> map_of (g_orders g) c = Some r \<Longrightarrow> order_sound g c r"
  by (simp add: orders_inv_def)

lemma order_sound_fresh: "0 < op_Quantity p \<Longrightarrow> op_Quantity p \<le> max64 \<Longrightarrow> order_sound g c \<lparr>ro_planned = p, ro_reported = 0, ro_fills = []\<rparr>"
  by (simp add: order_sound_def fills_sum_def)

lemma orders_recordFill:
  assumes "orders_inv g" "map_of (g_orders g) (tf_ClientOrderID p) = Some r" "g_fills g (tf_FillID p) = None" "0 < tf_Quantity p"
    "tf_Quantity p \<le> sub64 (op_Quantity (ro_planned r)) (ro_reported r)"
  shows "orders_inv (recordFill g p r)"
  unfolding orders_inv_def
proof (intro allI impI)
  fix c s assume c: "map_of (g_orders (recordFill g p r)) c = Some s"
  have new: "tf_FillID f \<noteq> tf_FillID p" if "map_of (g_orders g) d = Some t" "f \<in> set (ro_fills t)" for d t f
    using orders_soundD [OF assms(1) that(1)] assms(3) that(2) by (auto simp: order_sound_def list_all_iff)
  have r: "order_sound g (tf_ClientOrderID p) r" using assms(1, 2) by (simp add: orders_inv_def)
  have q: "sub64 (op_Quantity (ro_planned r)) (ro_reported r) = op_Quantity (ro_planned r) - ro_reported r"
    using r by (simp add: order_sound_def in64_def min64_def)
  show "order_sound (recordFill g p r) c s"
  proof (cases "c = tf_ClientOrderID p")
    case True
    have "add64 (ro_reported r) (tf_Quantity p) = ro_reported r + tf_Quantity p"
      using r q assms(4, 5) by (intro add64_id) (simp add: order_sound_def in64_def min64_def max64_def)
    moreover have "tf_FillID p \<notin> tf_FillID ` set (ro_fills r)" using new [OF assms(2)] by fastforce
    ultimately show ?thesis using True c r q assms(4, 5) new [OF assms(2)]
      by (auto simp: recordFill_def order_sound_def fills_sum_def list_all_iff)
  next
    case False
    then have "map_of (g_orders g) c = Some s" using c by (simp add: recordFill_def)
    with orders_soundD [OF assms(1) this] new [OF this] show ?thesis by (auto simp: order_sound_def recordFill_def list_all_iff)
  qed
qed

lemma orders_ObserveFill: "ObserveFill g p = Inr h \<Longrightarrow> orders_inv g \<Longrightarrow> orders_inv h"
  using ObserveFill_cases [of g p h] Fill_identity [of p] orders_recordFill [of g p] by auto

lemma orders_put:
  assumes "orders_inv g" "0 < op_Quantity p" "op_Quantity p \<le> max64"
    and "g_orders h = mput (g_orders g) c \<lparr>ro_planned = p, ro_reported = 0, ro_fills = []\<rparr>" "g_fills h = g_fills g"
  shows "orders_inv h"
  using assms(1, 4, 5) order_sound_fresh [OF assms(2, 3)] order_sound_fills [OF assms(5)] by (simp add: orders_inv_def)

lemma order_closed_orders:
  assumes "0 < op_Quantity (o_Planned ord)" "op_Quantity (o_Planned ord) \<le> max64"
  shows "order_closed orders_inv ord"
proof (rule order_closedI)
  show "orders_inv (fst (releaseOrder g ord f))" if "orders_inv g" for g f
    using orders_put [OF that assms] by (simp add: releaseOrder_def Let_def)
qed (erule order_facts_inv [rotated], simp add: order_facts_def haltGate_def degradeGate_def enterState_def moveState_def Let_def)+

lemma orders_Check:
  assumes "Check g book plan = Inr (h, outs)" "orders_inv g" "list_all (\<lambda>ord. in64 (op_Quantity (o_Planned ord))) plan"
  shows "orders_inv h"
proof (rule Check_closed [OF assms(1)])
  have "planErrs g book plan = []" using assms(1) by (simp add: Check_plan)
  then have "\<forall>ord\<in>set plan. 0 < op_Quantity (o_Planned ord) \<and> op_Quantity (o_Planned ord) \<le> max64"
    using orderErrs_identity [OF planErrs_orders] assms(3) by (auto simp: list_all_iff in64_def)
  then show "list_all (order_closed orders_inv) plan" by (simp add: list_all_iff order_closed_orders)
  show "orders_inv (k\<lparr>g_staleOpen := b\<rparr>)" if "orders_inv k" for k b using that by (rule order_facts_inv [rotated]) (simp add: order_facts_def)
qed (rule assms(2))

section \<open>Recovery\<close>

definition flow_inv :: "gate \<Rightarrow> bool" where
  "flow_inv g \<longleftrightarrow> journal_inv g \<and> ledger_inv g \<and> orders_inv g"

definition restored_typed :: "restored_order \<Rightarrow> bool" where
  "restored_typed r \<longleftrightarrow> in64 (rel_Quantity (xo_Order r)) \<and> list_all (\<lambda>f. in64 (tf_Quantity f)) (xo_Fills r)"

definition recovery_orders :: "recovery \<Rightarrow> restored_order list" where
  "recovery_orders r = rv_Released r @ (case rv_OwnSale r of None \<Rightarrow> [] | Some s \<Rightarrow> [restored_order.truncate s]) @ rv_Working r"

definition recovery_typed :: "recovery \<Rightarrow> bool" where
  "recovery_typed r \<longleftrightarrow> list_all restored_typed (recovery_orders r)"

lemma checkRestored_quantity: "checkRestored g r st b = Inr st' \<Longrightarrow> 0 < rel_Quantity (xo_Order r)"
  by (auto simp: checkRestored_def Let_def)

lemma checkReleased_quantity: "checkReleased g rs st = Inr st' \<Longrightarrow> list_all (\<lambda>r. 0 < rel_Quantity (xo_Order r)) rs"
  by (induction rs arbitrary: st) (auto simp: bindr_eq_Inr checkRestored_quantity)

lemma checkOwnSale_quantity: "checkOwnSale g s st = Inr st' \<Longrightarrow> 0 < rel_Quantity (xo_Order s)"
  using checkRestored_quantity [of g "restored_order.truncate s" st True st']
  by (auto simp: checkOwnSale_def Let_def split_beta restored_order.truncate_def)

lemma checkRecovery_quantity:
  assumes "checkRecovery g r = Inr st"
  shows "list_all (\<lambda>x. 0 < rel_Quantity (xo_Order x)) (recovery_orders r)"
  using assms by (auto simp: checkRecovery_def bindr_eq_Inr recovery_orders_def restored_order.truncate_def
    dest!: checkReleased_quantity checkOwnSale_quantity split: option.splits)

lemma flow_ObserveFill: "ObserveFill g f = Inr h \<Longrightarrow> flow_inv g \<Longrightarrow> in64 (tf_Quantity f) \<Longrightarrow> flow_inv h"
  by (simp add: flow_inv_def journal_ObserveFill ledger_ObserveFill orders_ObserveFill)

lemma flow_observeAll: "flow_inv g \<Longrightarrow> list_all (\<lambda>f. in64 (tf_Quantity f)) fs \<Longrightarrow> flow_inv (observeAll g fs)"
  unfolding observeAll_def by (induction fs arbitrary: g) (auto simp: flow_ObserveFill split: sum.splits)

lemma flow_applyReleased:
  assumes "flow_inv g" "restored_typed r" "0 < rel_Quantity (xo_Order r)"
  shows "flow_inv (applyReleased g r)"
proof -
  let ?ord = "xo_Order r"
  let ?h = "g\<lparr>g_released := insert (rel_ClientOrderID ?ord) (g_released g),
       g_orders := mput (g_orders g) (rel_ClientOrderID ?ord) \<lparr>ro_planned = restoredPlanned ?ord, ro_reported = 0, ro_fills = []\<rparr>,
       g_ledger := (if rel_Side ?ord = OrderSideSell then restoreSell (g_ledger g) r else g_ledger g)\<rparr>"
  have q: "quantity_ok (rel_Quantity ?ord)" using assms(2, 3) by (simp add: restored_typed_def quantity_ok_def in64_def)
  have "ledger_wf (restoreSell (g_ledger g) r)" using assms(1) q unfolding restoreSell_def Let_def
    by (intro ledger_wf_upd_sell ledger_wf_restore) (auto simp: flow_inv_def ledger_inv_def restoreEnd_def sell_wf_def)
  moreover have "same_snapshots (g_ledger g) (restoreSell (g_ledger g) r)" by (simp add: restoreSell_def Let_def)
  moreover have g: "ledger_inv g" "ledger_wf (g_ledger g)" using assms(1) by (simp_all add: flow_inv_def ledger_inv_def)
  ultimately have "ledger_inv ?h" using ledger_inv_update [OF g(1), of ?h] by simp
  moreover have "orders_inv ?h" using assms(1, 3) q orders_put [of g "restoredPlanned ?ord" ?h "rel_ClientOrderID ?ord"]
    by (simp add: flow_inv_def restoredPlanned_def quantity_ok_def)
  moreover have "journal_inv ?h" using assms(1) by (simp add: flow_inv_def journal_inv_def)
  ultimately show ?thesis using flow_observeAll [of ?h "xo_Fills r"] assms(2) by (simp add: applyReleased_def Let_def flow_inv_def restored_typed_def)
qed

lemma flow_foldl_applyReleased:
  "flow_inv g \<Longrightarrow> list_all restored_typed rs \<Longrightarrow> list_all (\<lambda>r. 0 < rel_Quantity (xo_Order r)) rs \<Longrightarrow> flow_inv (foldl applyReleased g rs)"
  by (induction rs arbitrary: g) (simp_all add: flow_applyReleased)

text \<open>Bookkeeping that touches neither the journal's facts, nor the ledger, nor the orders.\<close>

definition flow_facts :: "gate \<Rightarrow> (string \<times> int \<times> book option \<times> change list \<times> pending_cash list) \<times>
    (broker_snapshot_payload option \<times> view \<times> sell_ledger) \<times> (string, released_order) gomap \<times> (string \<Rightarrow> target_weight_fill option)" where
  "flow_facts g = (journal_facts g, ledger_facts g, order_facts g)"

lemmas flow_facts_defs = flow_facts_def journal_facts_def ledger_facts_def order_facts_def

lemma flow_facts_inv: "flow_facts h = flow_facts g \<Longrightarrow> flow_inv g \<Longrightarrow> flow_inv h"
  unfolding flow_facts_def flow_inv_def using journal_facts_inv ledger_facts_inv order_facts_inv by blast

lemma flow_applyOwnSale:
  assumes "flow_inv g" "restored_typed (restored_order.truncate s)" "0 < rel_Quantity (xo_Order s)"
  shows "flow_inv (applyOwnSale g s)"
proof -
  define i where "i = rel_ClientOrderID (xo_Order s)"
  define h where "h = applyReleased g (restored_order.truncate s)"
  have h: "flow_inv h" using assms by (simp add: h_def flow_applyReleased restored_order.truncate_def)
  define k where "k = h\<lparr>g_orders := (case map_of (g_orders h) i of None \<Rightarrow> g_orders h
             | Some r \<Rightarrow> mput (g_orders h) i (r\<lparr>ro_planned := (ro_planned r)\<lparr>op_Sale := noSale\<lparr>sf_Kind := SaleKindIncident, sf_Trigger := xs_Trigger s\<rparr>\<rparr>\<rparr>)),
           g_ledger := (case map_of (sl_sells (g_ledger h)) i of None \<Rightarrow> g_ledger h
             | Some a \<Rightarrow> upd_sell (g_ledger h) a (ls_endStatus_update (\<lambda>_. xs_EndStatus s)))\<rparr>"
  have "ledger_wf (upd_sell (g_ledger h) a (ls_endStatus_update (\<lambda>_. xs_EndStatus s)))" for a
    using h by (intro ledger_wf_upd_sell) (auto simp: flow_inv_def ledger_inv_def sell_wf_def)
  moreover have l: "ledger_inv h" "ledger_wf (g_ledger h)" using h by (simp_all add: flow_inv_def ledger_inv_def)
  ultimately have "ledger_wf (g_ledger k)" "same_snapshots (g_ledger h) (g_ledger k)" "g_broker k = g_broker h" "g_brokerView k = g_brokerView h"
    by (simp_all add: k_def split: option.splits)
  with ledger_inv_update [OF l(1)] have "ledger_inv k" by simp
  moreover have "orders_inv k" unfolding orders_inv_def
  proof (intro allI impI)
    fix c t assume t: "map_of (g_orders k) c = Some t"
    have o: "orders_inv h" using h by (simp add: flow_inv_def)
    from t have "order_sound h c t" using orders_soundD [OF o, of c] orders_soundD [OF o, of i]
      by (auto simp: k_def order_sound_def split: option.splits if_splits)
    then show "order_sound k c t" using order_sound_fills [of k h] by (simp add: k_def)
  qed
  moreover have "journal_inv k" using h by (simp add: k_def flow_inv_def journal_inv_def)
  ultimately have "flow_inv k" by (simp add: flow_inv_def)
  moreover have "applyOwnSale g s = recordAttempt k (rel_Tag (xo_Order s)) (rel_InstrumentID (xo_Order s))"
    unfolding applyOwnSale_def Let_def k_def h_def i_def by (simp cong: option.case_cong)
  ultimately show ?thesis by (simp add: flow_facts_inv [of _ k] recordAttempt_def flow_facts_defs Let_def)
qed

lemma flow_RestoreRecovery:
  assumes "RestoreRecovery g r = Inr h" "flow_inv g" "recovery_typed r"
  shows "flow_inv h"
proof -
  obtain st where c: "checkRecovery g r = Inr st" using assms(1) by (auto simp: RestoreRecovery_def bindr_eq_Inr)
  note q = checkRecovery_quantity [OF c]
  define g1 where "g1 = foldl applyReleased g (rv_Released r)"
  define g2 where "g2 = (case rv_SaleAttempt r of None \<Rightarrow> g1 | Some a \<Rightarrow> applyAttempt g1 a)"
  define g3 where "g3 = foldl applyRetired g2 (rv_RetiredSales r)"
  define g4 where "g4 = (case rv_OwnSale r of None \<Rightarrow> g3 | Some s \<Rightarrow> applyOwnSale g3 s)"
  have "flow_inv g1" unfolding g1_def using assms(2, 3) q by (intro flow_foldl_applyReleased) (simp_all add: recovery_typed_def recovery_orders_def)
  moreover have "flow_facts g2 = flow_facts g1" by (simp add: g2_def applyAttempt_def flow_facts_defs split: option.splits)
  moreover have "flow_facts (foldl applyRetired g' ss) = flow_facts g'" for g' ss
    by (induction ss arbitrary: g') (simp_all add: applyRetired_def flow_facts_defs Let_def)
  ultimately have "flow_inv g3" by (simp add: g3_def flow_facts_inv [of _ g1])
  then have "flow_inv g4" using assms(3) q
    by (auto simp: g4_def recovery_typed_def recovery_orders_def restored_order.truncate_def intro: flow_applyOwnSale split: option.splits)
  then have "flow_inv (foldl applyReleased g4 (rv_Working r))" using assms(3) q
    by (intro flow_foldl_applyReleased) (simp_all add: recovery_typed_def recovery_orders_def)
  moreover have "h = foldl applyReleased g4 (rv_Working r)"
    using assms(1) c by (simp add: RestoreRecovery_def g1_def g2_def g3_def g4_def Let_def cong: option.case_cong)
  ultimately show ?thesis by simp
qed

end
