(* ===== verification/RiskMachine.thy ===== *)
theory RiskMachine
  imports RiskInvariants
begin

text \<open>
  The gate as a machine: what every input keeps of the gate's invariant, and what follows for every run.
\<close>

section \<open>What every operation keeps\<close>

text \<open>The widths and identities a payload has as a Go value, which its schema does not state.\<close>

fun typed :: "gate_input \<Rightarrow> bool" where
  "typed (InBroker i s) = broker_typed s"
| "typed (InAccount p) = list_all (\<lambda>q. in64 (ap_Quantity q)) (aps_Positions p)"
| "typed (InCheck book plan) = list_all (\<lambda>ord. in64 (op_Quantity (o_Planned ord))) plan"
| "typed (InFill p) = in64 (tf_Quantity p)"
| "typed (InSetBook b) = book_typed b"
| "typed (InCheckBook b) = book_typed b"
| "typed (InReconcile i p) = list_all (\<lambda>q. in64 (ap_Quantity q)) (rows (rp_Positions p))"
| "typed (InIncident i st ids cash) = (named ids \<and> named cash)"
| "typed (InRecovery r) = recovery_typed r"
| "typed _ = True"

definition gate_inv :: "gate \<Rightarrow> bool" where
  "gate_inv g \<longleftrightarrow> state_ok g \<and> flow_inv g"

named_theorems flow_frame "operations that leave the journal's facts, the ledger and the orders alone"

lemma flow_small [flow_frame]:
  "flow_facts (RecordDecision g i) = flow_facts g" "flow_facts (freshCheck g t) = flow_facts g" "flow_facts (fst (openStale g)) = flow_facts g"
  "flow_facts (RestoreStaleEpisode g b) = flow_facts g" "flow_facts (disarm g c) = flow_facts g" "flow_facts (fst (lapseExit g d)) = flow_facts g"
  "flow_facts (recordAttempt g tag i) = flow_facts g" "flow_facts (fst (LapseExitSale g)) = flow_facts g"
  by (simp_all add: RecordDecision_def freshCheck_def openStale_def RestoreStaleEpisode_def disarm_def lapseExit_def LapseExitSale_def recordAttempt_def
    flow_facts_defs Let_def split: option.splits)

lemma flow_SetKillSwitch [flow_frame]: "SetKillSwitch g i p = Inr h \<Longrightarrow> flow_facts h = flow_facts g"
  by (auto simp: SetKillSwitch_def flow_facts_defs Let_def)

lemma flow_updates [simp]:
  "flow_facts (g_pending_update rs g) = flow_facts g" "flow_facts (g_urgentRetry_update b g) = flow_facts g"
  "flow_facts (g_urgentInstrument_update s g) = flow_facts g" "flow_facts (g_urgentWithheld_update w g) = flow_facts g"
  "flow_facts (g_exitRetry_update s g) = flow_facts g" "flow_facts (g_exitWithheld_update w g) = flow_facts g"
  by (simp_all add: flow_facts_defs)

lemma flow_settleSale [flow_frame]: "flow_facts (fst (settleSale g tag trigger i t s)) = flow_facts g"
  by (simp add: settleSale_def flow_frame Let_def split_beta split: sale.splits)

lemma flow_Sale [flow_frame]: "Sale g trigger i t target band = Inr (h, x) \<Longrightarrow> flow_facts h = flow_facts g"
  by (auto simp: Sale_def Let_def split_beta bindr_eq_Inr flow_frame split: if_splits)

lemma flow_RetireSale [flow_frame]: "flow_facts (fst (RetireSale g c)) = flow_facts g"
  by (simp add: RetireSale_def flow_facts_defs Let_def split: option.splits)

lemma flow_Flex [flow_frame]: "ObserveFlexStatus g fx = Inr h \<Longrightarrow> flow_facts h = flow_facts g"
  by (auto simp: ObserveFlexStatus_def flow_facts_defs)

lemma flow_tighten [flow_frame]: "tighten g i st ids cash = Inr h \<Longrightarrow> flow_facts h = flow_facts g"
  by (auto simp: tighten_def flow_facts_defs Let_def)

lemma flow_RestoreState [flow_frame]: "RestoreState g i p v = Inr h \<Longrightarrow> flow_facts h = flow_facts g"
  by (auto simp: RestoreState_def flow_frame)

lemma flow_RestoreIncident [flow_frame]: "RestoreIncidentState g i st ids cash = Inr h \<Longrightarrow> flow_facts h = flow_facts g"
  by (auto simp: RestoreIncidentState_def flow_frame Let_def)

text \<open>The three parts of the invariant under the operations that each touches.\<close>

definition paper :: "gate \<Rightarrow> (string \<times> int \<times> book option \<times> change list \<times> pending_cash list) \<times> (string, released_order) gomap \<times> (string \<Rightarrow> target_weight_fill option)" where
  "paper g = (journal_facts g, order_facts g)"

lemma paper_flow: "paper h = paper g \<Longrightarrow> ledger_inv h \<Longrightarrow> flow_inv g \<Longrightarrow> flow_inv h"
  unfolding paper_def flow_inv_def using journal_facts_inv order_facts_inv by blast

definition goods :: "gate \<Rightarrow> (broker_snapshot_payload option \<times> view \<times> sell_ledger) \<times> (string, released_order) gomap \<times> (string \<Rightarrow> target_weight_fill option)" where
  "goods g = (ledger_facts g, order_facts g)"

lemma goods_flow: "goods h = goods g \<Longrightarrow> journal_inv h \<Longrightarrow> flow_inv g \<Longrightarrow> flow_inv h"
  unfolding goods_def flow_inv_def using ledger_facts_inv order_facts_inv by blast

lemma paper_ObserveBroker: "ObserveBroker g i s = Inr (h, x) \<Longrightarrow> paper h = paper g"
proof -
  have r: "paper (recordBroker g s) = paper g" by (simp add: recordBroker_def paper_def journal_facts_def order_facts_def Let_def split: prod.splits)
  then have t: "paper (takeBroker g i s) = paper g" by (simp add: takeBroker_def paper_def journal_facts_def order_facts_def Let_def)
  have a: "paper (fst (raiseAlarm h i a u e l)) = paper h" for h a u e l by (simp add: raiseAlarm_def paper_def journal_facts_def order_facts_def Let_def)
  have l: "paper (fst (lapseExit h d)) = paper h" for h d by (simp add: lapseExit_def paper_def journal_facts_def order_facts_def Let_def split: option.splits)
  have u: "paper (h\<lparr>g_lastReading := q, g_lastReadingSet := b\<rparr>) = paper h" for h q b by (simp add: paper_def journal_facts_def order_facts_def)
  assume "ObserveBroker g i s = Inr (h, x)"
  then show ?thesis by (auto simp: ObserveBroker_def Let_def split_beta t a l u split: if_splits dest!: arg_cong [of _ "(h, x)" fst])
qed

lemma paper_ledger: "ObserveAccount g p = Inr h \<Longrightarrow> paper h = paper g" "ObserveLifecycle g q = Inr h \<Longrightarrow> paper h = paper g"
  by (auto simp: ObserveAccount_def ObserveLifecycle_def paper_def journal_facts_def order_facts_def Let_def split_beta split: option.splits if_splits)

lemma goods_facts:
  "ObserveCorporateAction g i ca = Inr h \<Longrightarrow> goods h = goods g" "ObserveCashMovement g i cm = Inr h \<Longrightarrow> goods h = goods g"
  "SetBook g b = Inr h \<Longrightarrow> goods h = goods g"
  by (auto simp: ObserveCorporateAction_def ObserveCashMovement_def SetBook_def goods_def ledger_facts_def order_facts_def split: option.splits if_splits)

lemma goods_consequence: "goods (fst (consequence g i r)) = goods g"
  by (simp add: consequence_def moveState_def goods_def ledger_facts_def order_facts_def Let_def)

lemma goods_CheckBook: "goods (fst (CheckBook g b)) = goods g"
proof -
  have h: "goods (fst (checkHoldings g b)) = goods g" by (simp add: checkHoldings_def goods_consequence Let_def split_beta split: option.splits)
  have "goods (fst (case SetBook k b of Inl es \<Rightarrow> (k, v, es) | Inr k \<Rightarrow> (k, v, []))) = goods k" for k v
    by (auto split: sum.splits dest: goods_facts(3))
  from this [of "fst (checkHoldings g b)" "snd (checkHoldings g b)"] show ?thesis using h
    by (simp add: CheckBook_def goods_consequence Let_def split_beta del: split_paired_All)
qed

lemma goods_foldl: "(\<And>g x. goods (f g x) = goods g) \<Longrightarrow> goods (foldl f g xs) = goods g"
  by (induction xs arbitrary: g) auto

lemma goods_report: "goods (report g r t b) = goods g"
proof -
  have a: "goods (forgetOmitted g ids t) = goods g" for g ids unfolding forgetOmitted_def
    by (rule goods_foldl) (simp add: goods_def ledger_facts_def order_facts_def)
  have "goods (foldl (reportComponent t) h cs) = goods h" for h cs
    by (rule goods_foldl) (simp add: goods_def ledger_facts_def order_facts_def reportComponent_def Let_def)
  then show ?thesis by (simp add: report_def Let_def a)
qed

lemma goods_settleRepeats: "goods (fst (settleRepeats g i r reps)) = goods g"
  by (induction reps arbitrary: g) (simp_all add: Let_def split_beta goods_consequence)

lemma goods_settle_loop: "goods (fst (settle_loop g i t pcs)) = goods g"
  by (induction pcs arbitrary: g) (simp_all add: Let_def split_beta goods_consequence goods_settleRepeats split: option.splits)

lemma goods_Reconcile: "Reconcile_gate g i p = Inr (h, x) \<Longrightarrow> goods h = goods g"
proof -
  have s: "goods (fst (settlePending g i p)) = goods g"
    using goods_settle_loop [of g i "rp_AsOf p" "g_pendingCash g"] by (simp add: settlePending_def Let_def split_beta goods_def ledger_facts_def order_facts_def)
  have d: "goods (fst (pend k i oc p)) = goods k" for k oc by (simp add: pend_def goods_def ledger_facts_def order_facts_def Let_def split: option.splits prod.splits)
  have k: "goods (takeReading k p) = goods k" for k by (simp add: takeReading_def goods_def ledger_facts_def order_facts_def)
  assume "Reconcile_gate g i p = Inr (h, x)"
  then show ?thesis by (auto simp: Reconcile_gate_def Let_def split_beta s d k goods_report goods_consequence dest!: arg_cong [of _ h goods])
qed


lemma flow_deliver:
  assumes "flow_inv g" "typed x"
  shows "flow_inv (deliver g x)"
proof -
  note flow = kept_rule [where P = flow_inv, OF assms(1)] keptFst_rule [where P = flow_inv, OF assms(1)]
  have inv: "journal_inv g" "ledger_inv g" "orders_inv g" using assms(1) by (simp_all add: flow_inv_def)
  have same: "flow_facts h = flow_facts g \<Longrightarrow> flow_inv h" for h by (rule flow_facts_inv [OF _ assms(1)])
  show ?thesis
  proof (cases x)
    case (InBroker i s)
    then have "ledger_inv h" if "ObserveBroker g i s = Inr (h, y)" for h y using ledger_ObserveBroker [OF that inv(2)] assms(2) by simp
    then show ?thesis using InBroker paper_flow [OF paper_ObserveBroker _ assms(1)] by (auto intro!: flow(2))
  next
    case (InAccount p)
    then have "ledger_inv h" if "ObserveAccount g p = Inr h" for h using ledger_ObserveAccount [OF that inv(2)] assms(2) by simp
    then show ?thesis using InAccount paper_flow [OF paper_ledger(1) _ assms(1)] by (auto intro!: flow(1))
  next
    case (InCheck book plan)
    then have "flow_inv h" if "Check g book plan = Inr (h, y)" for h y
      using assms(2) journal_Check [OF that inv(1)] ledger_Check [OF that inv(2)] orders_Check [OF that inv(3)] by (simp add: flow_inv_def)
    then show ?thesis using InCheck by (auto intro!: flow(2))
  next
    case (InFill p)
    then show ?thesis using assms flow_ObserveFill by (auto intro!: flow(1))
  next
    case (InLifecycle p)
    then show ?thesis using paper_flow [OF paper_ledger(2) _ assms(1)] ledger_ObserveLifecycle inv(2) by (auto intro!: flow(1))
  next
    case (InCorporateAction i p)
    then show ?thesis using goods_flow [OF goods_facts(1) _ assms(1)] journal_Corporate inv(1) by (auto intro!: flow(1))
  next
    case (InCashMovement i p)
    then show ?thesis using goods_flow [OF goods_facts(2) _ assms(1)] journal_Cash inv(1) by (auto intro!: flow(1))
  next
    case (InSetBook b)
    then show ?thesis using goods_flow [OF goods_facts(3) _ assms(1)] journal_SetBook inv(1) assms(2) by (auto intro!: flow(1) simp: book_typed_def)
  next
    case (InCheckBook b)
    then show ?thesis using goods_flow [OF goods_CheckBook _ assms(1)] journal_CheckBook inv(1) assms(2) by simp
  next
    case (InReconcile i p)
    then show ?thesis using goods_flow [OF goods_Reconcile _ assms(1)] journal_Reconcile inv(1) by (auto intro!: flow(2))
  next
    case (InRecovery r)
    then show ?thesis using assms flow_RestoreRecovery by (auto intro!: flow(1))
  qed (auto intro!: flow intro: same flow_frame simp: flow_frame)
qed

lemma sound_deliver:
  assumes "gate_inv g" "typed x"
  shows "sound_from g (deliver g x)"
proof -
  have ok: "state_ok g" "journal_inv g" using assms(1) by (simp_all add: gate_inv_def flow_inv_def)
  have start: "sound_from g g" using ok by (simp add: sound_from_def)
  note sound = kept_rule [where P = "sound_from g", OF start] keptFst_rule [where P = "sound_from g", OF start]
  have same: "core h = core g \<Longrightarrow> sound_from g h" for h using ok(1) by (rule sound_core)
  show ?thesis
  proof (cases x)
    case (InCheck book plan)
    then show ?thesis using sound_Check ok(1) by (auto intro!: sound(2))
  next
    case (InCheckBook b)
    then show ?thesis using sound_CheckBook ok assms(2) by simp
  next
    case (InReconcile i p)
    then show ?thesis using sound_Reconcile ok assms(2) by (auto intro!: sound(2))
  next
    case (InState i p v)
    then show ?thesis using sound_RestoreState ok(1) by (auto intro!: sound(1))
  next
    case (InIncident i st ids cash)
    then show ?thesis using sound_RestoreIncident ok(1) assms(2) by (auto intro!: sound(1))
  qed (auto intro!: sound intro: same core_frame simp: core_frame)
qed

section \<open>Runs\<close>

text \<open>A machine whose every step keeps an invariant and moves along a preorder, as its provider promises.\<close>

locale monotone_machine =
  fixes step :: "'s \<Rightarrow> 'i \<Rightarrow> 's"
    and ok :: "'i \<Rightarrow> bool"
    and inv :: "'s \<Rightarrow> bool"
    and upto :: "'s \<Rightarrow> 's \<Rightarrow> bool"
  assumes keeps: "inv s \<Longrightarrow> ok i \<Longrightarrow> inv (step s i)"
    and grows: "inv s \<Longrightarrow> ok i \<Longrightarrow> upto s (step s i)"
    and refl: "upto s s"
    and trans: "upto s t \<Longrightarrow> upto t u \<Longrightarrow> upto s u"
begin

lemma run_keeps: "inv s \<Longrightarrow> list_all ok is \<Longrightarrow> inv (foldl step s is)"
  by (induction "is" arbitrary: s) (simp_all add: keeps)

lemma run_grows: "inv s \<Longrightarrow> list_all ok is \<Longrightarrow> upto s (foldl step s is)"
  by (induction "is" arbitrary: s) (auto simp: refl keeps intro: trans grows)

lemma run_grows_between: "inv s \<Longrightarrow> list_all ok (is @ js) \<Longrightarrow> upto (foldl step s is) (foldl step s (is @ js))"
  using run_keeps [of s "is"] run_grows [of "foldl step s is" js] by simp

end

interpretation machine: monotone_machine deliver typed gate_inv tighter
proof unfold_locales
  show "gate_inv (deliver s i)" if "gate_inv s" "typed i" for s i
    using sound_deliver [OF that] flow_deliver [of s i] that by (simp add: gate_inv_def sound_from_def)
  show "tighter s (deliver s i)" if "gate_inv s" "typed i" for s i using sound_deliver [OF that] by (simp add: sound_from_def)
  show "tighter s s" for s by simp
  show "tighter s u" if "tighter s t" "tighter t u" for s t u using that by (rule tighter_trans)
qed


section \<open>The sale desk\<close>

text \<open>What the sales and the alarm remember: the attempts, the snapshot in force, and whether it ever read the cushion.\<close>

definition desk :: "gate \<Rightarrow> (string \<Rightarrow> sale_attempt option) \<times> broker_snapshot_payload option \<times> bool" where
  "desk g = (g_attempts g, g_broker g, g_lastReadingSet g)"

named_theorems desk_frame "operations that leave the sale desk alone"

lemma desk_small [desk_frame]:
  "desk (RecordDecision g i) = desk g" "desk (freshCheck g t) = desk g" "desk (fst (openStale g)) = desk g" "desk (RestoreStaleEpisode g b) = desk g"
  "desk (disarm g c) = desk g" "desk (fst (lapseExit g d)) = desk g" "desk (fst (LapseExitSale g)) = desk g"
  by (simp_all add: RecordDecision_def freshCheck_def openStale_def RestoreStaleEpisode_def disarm_def lapseExit_def LapseExitSale_def desk_def Let_def
    split: option.splits)

lemma desk_moves [desk_frame]: "desk (fst (consequence g i r)) = desk g"
  by (simp add: consequence_def moveState_def desk_def Let_def)

lemma desk_results [desk_frame]:
  "SetKillSwitch g i ks = Inr h \<Longrightarrow> desk h = desk g" "ObserveAccount g ap = Inr h \<Longrightarrow> desk h = desk g" "ObserveLifecycle g lc = Inr h \<Longrightarrow> desk h = desk g"
  "ObserveCorporateAction g i ca = Inr h \<Longrightarrow> desk h = desk g" "ObserveCashMovement g i cm = Inr h \<Longrightarrow> desk h = desk g"
  "ObserveFlexStatus g fx = Inr h \<Longrightarrow> desk h = desk g" "SetBook g b = Inr h \<Longrightarrow> desk h = desk g" "ObserveFill g f = Inr h \<Longrightarrow> desk h = desk g"
  "tighten g i st ids cash = Inr h \<Longrightarrow> desk h = desk g"
  by (auto simp: SetKillSwitch_def ObserveAccount_def ObserveLifecycle_def ObserveCorporateAction_def ObserveCashMovement_def ObserveFlexStatus_def SetBook_def
    ObserveFill_def recordFill_def tighten_def desk_def Let_def bindr_eq_Inr split_beta split: option.splits if_splits)

lemma desk_restores [desk_frame]:
  "RestoreState g i p v = Inr h \<Longrightarrow> desk h = desk g" "RestoreIncidentState g i st ids cash = Inr h \<Longrightarrow> desk h = desk g"
  by (auto simp: RestoreState_def RestoreIncidentState_def desk_frame Let_def)

lemma desk_foldl: "(\<And>g x. desk (f g x) = desk g) \<Longrightarrow> desk (foldl f g xs) = desk g"
  by (induction xs arbitrary: g) auto

lemma desk_CheckBook [desk_frame]: "desk (fst (CheckBook g b)) = desk g"
proof -
  have h: "desk (fst (checkHoldings g b)) = desk g" by (simp add: checkHoldings_def desk_frame Let_def split_beta split: option.splits)
  have "desk (fst (case SetBook k b of Inl es \<Rightarrow> (k, v, es) | Inr k \<Rightarrow> (k, v, []))) = desk k" for k v
    by (auto split: sum.splits dest: desk_results(7))
  from this [of "fst (checkHoldings g b)" "snd (checkHoldings g b)"] show ?thesis using h
    by (simp add: CheckBook_def desk_frame Let_def split_beta del: split_paired_All)
qed

lemma desk_report: "desk (report g r t b) = desk g"
proof -
  have a: "desk (forgetOmitted g ids t) = desk g" for g ids unfolding forgetOmitted_def by (rule desk_foldl) (simp add: desk_def)
  have "desk (foldl (reportComponent t) h cs) = desk h" for h cs by (rule desk_foldl) (simp add: desk_def reportComponent_def Let_def)
  then show ?thesis by (simp add: report_def Let_def a)
qed

lemma desk_settle: "desk (fst (settleRepeats g i r reps)) = desk g" "desk (fst (settle_loop g i t pcs)) = desk g"
proof -
  show r: "desk (fst (settleRepeats g i r reps)) = desk g" for g r reps by (induction reps arbitrary: g) (simp_all add: Let_def split_beta desk_frame)
  show "desk (fst (settle_loop g i t pcs)) = desk g"
    by (induction pcs arbitrary: g) (simp_all add: Let_def split_beta desk_frame r split: option.splits)
qed

lemma desk_Reconcile [desk_frame]: "Reconcile_gate g i p = Inr (h, x) \<Longrightarrow> desk h = desk g"
proof -
  have s: "desk (fst (settlePending g i p)) = desk g"
    using desk_settle(2) [of g i "rp_AsOf p" "g_pendingCash g"] by (simp add: settlePending_def Let_def split_beta desk_def)
  have d: "desk (fst (pend k i oc p)) = desk k" for k oc by (simp add: pend_def desk_def Let_def split: option.splits prod.splits)
  have k: "desk (takeReading k p) = desk k" for k by (simp add: takeReading_def desk_def)
  assume "Reconcile_gate g i p = Inr (h, x)"
  then show ?thesis by (auto simp: Reconcile_gate_def Let_def split_beta s d k desk_report desk_frame dest!: arg_cong [of _ h desk])
qed

lemma desk_Check [desk_frame]: assumes "Check g book plan = Inr (h, outs)" shows "desk h = desk g"
proof (rule Check_closed [OF assms, of "\<lambda>h. desk h = desk g"])
  have "order_closed (\<lambda>h. desk h = desk g) ord" for ord
    by (rule order_closedI) (simp_all add: desk_def haltGate_def degradeGate_def enterState_def moveState_def releaseOrder_def Let_def)
  then show "list_all (order_closed (\<lambda>h. desk h = desk g)) plan" by (simp add: list_all_iff)
qed (simp_all add: desk_def)

lemma desk_ObserveBroker:
  assumes "ObserveBroker g i s = Inr (h, x)"
  shows "g_attempts h = g_attempts g" "g_broker h = Some s"
proof -
  have t: "g_attempts (takeBroker g i s) = g_attempts g" "g_broker (takeBroker g i s) = Some s"
    by (simp_all add: takeBroker_def recordBroker_def Let_def split_beta)
  have a: "g_attempts (fst (raiseAlarm h i a u e l)) = g_attempts h" "g_broker (fst (raiseAlarm h i a u e l)) = g_broker h" for h a u e l
    by (simp_all add: raiseAlarm_def Let_def)
  have l: "g_attempts (fst (lapseExit h d)) = g_attempts h" "g_broker (fst (lapseExit h d)) = g_broker h" for h d
    by (simp_all add: lapseExit_def Let_def split: option.splits)
  show "g_attempts h = g_attempts g" "g_broker h = Some s"
    using assms by (auto simp: ObserveBroker_def Let_def split_beta t a l split: if_splits dest!: arg_cong [of _ "(h, x)" fst])
qed

text \<open>A tag and an instrument once attempted stay attempted, and no reading is held before a snapshot is.\<close>

definition attempts_grow :: "gate \<Rightarrow> gate \<Rightarrow> bool" where
  "attempts_grow g h \<longleftrightarrow> (\<forall>tag i. saleAttemptedFor g tag i \<longrightarrow> saleAttemptedFor h tag i)"

definition reading_inv :: "gate \<Rightarrow> bool" where
  "reading_inv g \<longleftrightarrow> (g_broker g = None \<longrightarrow> \<not> g_lastReadingSet g)"

lemma desk_same: "desk h = desk g \<Longrightarrow> attempts_grow g h" "desk h = desk g \<Longrightarrow> reading_inv h = reading_inv g"
  by (simp_all add: desk_def attempts_grow_def reading_inv_def saleAttemptedFor_def)

lemma attempts_record: "saleAttemptedFor (recordAttempt g tag i) t j \<longleftrightarrow> saleAttemptedFor g t j \<or> (t = tag \<and> j = i)"
  by (auto simp: recordAttempt_def saleAttemptedFor_def Let_def split: option.splits)

lemma settleSale_attempts:
  "g_attempts (fst (settleSale g tag trigger i t s)) = g_attempts (if saleSpends s then recordAttempt g tag i else g)"
  "g_broker (fst (settleSale g tag trigger i t s)) = g_broker g" "g_lastReadingSet (fst (settleSale g tag trigger i t s)) = g_lastReadingSet g"
proof -
  note desk = desk_small [unfolded desk_def prod.inject]
  show "g_attempts (fst (settleSale g tag trigger i t s)) = g_attempts (if saleSpends s then recordAttempt g tag i else g)"
    by (simp add: settleSale_def desk Let_def split_beta split: sale.splits)
  show "g_broker (fst (settleSale g tag trigger i t s)) = g_broker g" "g_lastReadingSet (fst (settleSale g tag trigger i t s)) = g_lastReadingSet g"
    by (simp_all add: settleSale_def desk recordAttempt_def Let_def split_beta split: sale.splits)
qed

lemma Sale_desk:
  assumes "Sale g trigger i t target band = Inr (h, x)"
  shows "attempts_grow g h \<and> g_broker h = g_broker g \<and> g_lastReadingSet h = g_lastReadingSet g"
proof -
  have same: "desk h = desk g \<Longrightarrow> ?thesis" using desk_same by (simp add: desk_def)
  have settle: "attempts_grow g (fst (settleSale g tag trigger i t s))" for tag s
    using attempts_record [of g tag i] settleSale_attempts(1) [of g tag trigger i t s] by (auto simp: attempts_grow_def saleAttemptedFor_def)
  have "desk h = desk g \<or> (\<exists>tag s. h = fst (settleSale g tag trigger i t s))"
    using assms by (auto simp: Sale_def Let_def split_beta bindr_eq_Inr desk_frame split: if_splits)
  then show ?thesis using same settle settleSale_attempts(2, 3) by auto
qed

definition retires :: "gate_input \<Rightarrow> bool" where
  "retires x = (case x of InRetire _ \<Rightarrow> True | InRecovery _ \<Rightarrow> True | _ \<Rightarrow> False)"

lemma desk_deliver:
  assumes "reading_inv g"
  shows "reading_inv (deliver g x) \<and> (retires x \<or> attempts_grow g (deliver g x))"
proof -
  define P where "P h \<longleftrightarrow> reading_inv h \<and> attempts_grow g h" for h
  have same: "desk h = desk g \<Longrightarrow> P h" for h unfolding P_def using desk_same assms by blast
  note desk = kept_rule [where P = P, OF same [OF refl]] keptFst_rule [where P = P, OF same [OF refl]]
  have q: "P (deliver g x)" if "\<not> retires x"
  proof (cases x)
    case (InBroker i s)
    have "P h" if "ObserveBroker g i s = Inr (h, y)" for h y
      using desk_ObserveBroker [OF that] by (simp add: P_def reading_inv_def attempts_grow_def saleAttemptedFor_def)
    then show ?thesis using InBroker by (auto intro!: desk(2))
  next
    case (InSale trigger i t target band)
    have "P h" if "Sale g trigger i t target band = Inr (h, y)" for h y using Sale_desk [OF that] assms by (simp add: P_def reading_inv_def)
    then show ?thesis using InSale by (auto intro!: desk(2))
  qed (use that in \<open>auto intro!: desk intro: same desk_frame simp: desk_frame retires_def\<close>)
  have "reading_inv (fst (RetireSale g c))" for c using assms by (simp add: RetireSale_def reading_inv_def Let_def split: option.splits)
  moreover have "reading_inv h" if r: "RestoreRecovery g r = Inr h" for r h
  proof -
    let ?f = "\<lambda>g. (g_broker g, g_lastReadingSet g)"
    have l: "(\<And>g x. ?f (f g x) = ?f g) \<Longrightarrow> ?f (foldl f g xs) = ?f g" for f :: "gate \<Rightarrow> 'a \<Rightarrow> gate" and g xs
      by (induction xs arbitrary: g) auto
    have o: "?f (observeAll g fs) = ?f g" for g fs unfolding observeAll_def
      by (rule l) (use desk_results(8) in \<open>simp add: desk_def split: sum.splits\<close>)
    have a: "?f (applyReleased g r) = ?f g" for g r by (simp add: applyReleased_def o [simplified] Let_def)
    have "?f h = ?f g" using r by (auto simp: RestoreRecovery_def bindr_eq_Inr l [simplified] a [simplified] applyRetired_def applyAttempt_def
          applyOwnSale_def recordAttempt_def Let_def split: option.splits)
    then show ?thesis using assms by (simp add: reading_inv_def)
  qed
  ultimately have "retires x \<Longrightarrow> reading_inv (deliver g x)" using kept_rule [where P = reading_inv, OF assms]
    by (cases x) (auto simp: retires_def)
  with q show ?thesis unfolding P_def by blast
qed

interpretation attempts: monotone_machine deliver "\<lambda>x. \<not> retires x" reading_inv attempts_grow
proof unfold_locales
  show "reading_inv (deliver s i)" "attempts_grow s (deliver s i)" if "reading_inv s" "\<not> retires i" for s i using desk_deliver that by blast+
qed (auto simp: attempts_grow_def)

section \<open>Reachable gates\<close>

text \<open>The gates a run reaches from a gate just built for an account.\<close>

inductive reaches :: "gate \<Rightarrow> gate \<Rightarrow> bool" for g where
  reaches_start: "reaches g g"
| reaches_step: "reaches g h \<Longrightarrow> typed x \<Longrightarrow> reaches g (deliver h x)"

inductive_cases reaches_cases: "reaches g h"

lemma reaches_run: "reaches g h \<longleftrightarrow> (\<exists>xs. list_all typed xs \<and> h = foldl deliver g xs)"
proof
  show "reaches g h \<Longrightarrow> \<exists>xs. list_all typed xs \<and> h = foldl deliver g xs"
  proof (induction rule: reaches.induct)
    case (reaches_step h x)
    then obtain xs where "list_all typed (xs @ [x])" "deliver h x = foldl deliver g (xs @ [x])" by auto
    then show ?case by blast
  qed (auto intro: exI [of _ "[]"])
  have "reaches g k \<Longrightarrow> list_all typed xs \<Longrightarrow> reaches g (foldl deliver k xs)" for xs k
    by (induction xs arbitrary: k) (simp_all add: reaches.reaches_step)
  then show "\<exists>xs. list_all typed xs \<and> h = foldl deliver g xs \<Longrightarrow> reaches g h" using reaches_start by blast
qed

lemma reaches_inv: "reaches g h \<Longrightarrow> gate_inv g \<Longrightarrow> gate_inv h \<and> tighter g h"
  using machine.run_keeps machine.run_grows unfolding reaches_run by blast

lemma freshGate_inv: "accountID \<noteq> '''' \<Longrightarrow> gate_inv (freshGate accountID l m age)"
  by (simp add: gate_inv_def state_ok_def flow_inv_def journal_inv_def ledger_inv_def orders_inv_def freshGate_def view_ok_def scaleErrs_def newSellLedger_def
    ledger_wf_def)

text \<open>How an account's gate is built: by a constructor, then its scale and its rounding slack are set.\<close>

inductive built :: "gate \<Rightarrow> bool" where
  built_margin: "NewGate accountID limits mode maxAge = Inr g \<Longrightarrow> built g"
| built_ira: "NewIRAGate accountID limits mode maxFees maxAge = Inr g \<Longrightarrow> built g"
| built_slack: "built g \<Longrightarrow> SetRoundingSlackPerOrder g slack = Inr h \<Longrightarrow> built h"
| built_scale: "built g \<Longrightarrow> SetQuantityScale g scale = Inr h \<Longrightarrow> built h"

lemma newGate_fresh: "newGate accountID l m age = Inr g \<Longrightarrow> accountID \<noteq> '''' \<and> g = freshGate accountID l m age"
  by (auto simp: newGate_def)

lemma built_start:
  assumes "built g"
  shows "gate_inv g \<and> reading_inv g \<and> g_state g = StateNormal \<and> MarginLimits_Validate (g_limits g) = []"
  using assms
proof (induction rule: built.induct)
  case (built_margin a l m age g)
  then have n: "newGate a l m age = Inr g" by (simp add: NewGate_def)
  from newGate_fresh [OF this] freshGate_inv [of a l m age] n show ?case by (auto simp: newGate_def reading_inv_def freshGate_def)
next
  case (built_ira a l m fees age g)
  then obtain h where n: "newGate a l m age = Inr h" and g: "g = h\<lparr>g_ira := True, g_maxFees := fees, g_roundingSlack := DefaultRoundingSlack\<rparr>"
    by (auto simp: NewIRAGate_def bindr_eq_Inr)
  have h: "gate_inv h" "h = freshGate a l m age" "MarginLimits_Validate l = []"
    using newGate_fresh [OF n] freshGate_inv [of a l m age] n by (auto simp: newGate_def)
  have "state_ok g = state_ok h" by (rule core_state_ok) (simp add: g core_def)
  moreover have "flow_inv g" using h(1) by (intro flow_facts_inv [of g h]) (simp_all add: g flow_facts_defs gate_inv_def)
  ultimately show ?case using h(1) by (auto simp: gate_inv_def reading_inv_def g h(2,3) freshGate_def)
next
  case (built_slack g slack h)
  then have h: "h = g\<lparr>g_roundingSlack := slack\<rparr>" by (auto simp: SetRoundingSlackPerOrder_def)
  have "state_ok h = state_ok g" by (rule core_state_ok) (simp add: h core_def)
  moreover have "flow_inv h" using built_slack.IH by (intro flow_facts_inv [of h g]) (simp_all add: h flow_facts_defs gate_inv_def)
  ultimately show ?case using built_slack.IH by (simp add: gate_inv_def reading_inv_def h)
next
  case (built_scale g scale h)
  then have h: "h = g\<lparr>g_quantityScale := scale\<rparr>" and s: "scaleErrs scale = []"
    by (auto simp: SetQuantityScale_def scaleErrs_def FractionalQuantityScale_def split: if_splits)
  have "state_ok h = state_ok g" by (rule core_state_ok) (simp add: h core_def)
  moreover have "journal_inv h" using built_scale.IH s by (simp add: h journal_inv_def gate_inv_def flow_inv_def)
  moreover have "ledger_inv h" using built_scale.IH by (intro ledger_facts_inv [of h g]) (simp_all add: h ledger_facts_def gate_inv_def flow_inv_def)
  moreover have "orders_inv h" using built_scale.IH by (intro order_facts_inv [of h g]) (simp_all add: h order_facts_def gate_inv_def flow_inv_def)
  ultimately show ?case using built_scale.IH by (simp add: gate_inv_def reading_inv_def flow_inv_def h)
qed

text \<open>The gates of an account's run: built, then driven by inputs.\<close>

definition live :: "gate \<Rightarrow> bool" where
  "live g \<longleftrightarrow> (\<exists>b. built b \<and> reaches b g)"

lemma live_inv: "live g \<Longrightarrow> gate_inv g"
  unfolding live_def using built_start reaches_inv by blast

lemma live_reading:
  assumes "live g"
  shows "reading_inv g"
proof -
  obtain b where b: "built b" "reaches b g" using assms by (auto simp: live_def)
  from b(2) show ?thesis
  proof (induction rule: reaches.induct)
    case reaches_start
    then show ?case using built_start [OF b(1)] by simp
  next
    case (reaches_step h x)
    then show ?case using desk_deliver by blast
  qed
qed

lemma live_built: "built b \<Longrightarrow> list_all typed xs \<Longrightarrow> live (foldl deliver b xs)"
  unfolding live_def reaches_run by blast

section \<open>What holds along every run\<close>

text \<open>C27: Over any run of an account's gate, whatever inputs arrive and in whatever order, the engine state only
  tightens: it never returns from Degraded or Halted, the incident it carries is the one that left Normal,
  a Degraded scope only grows, and a scope is named exactly while the state is Degraded.\<close>

theorem engine_state_only_tightens:
  assumes "live g" "reaches g h"
  shows "rank (g_state g) \<le> rank (g_state h) \<and> (g_state g \<noteq> StateNormal \<longrightarrow> g_incident h = g_incident g) \<and>
    (g_state g = StateDegraded \<and> g_state h = StateDegraded \<longrightarrow> set (g_scope g) \<subseteq> set (g_scope h) \<and> set (g_cashScope g) \<subseteq> set (g_cashScope h)) \<and>
    (g_state h = StateDegraded \<longleftrightarrow> g_scope h \<noteq> [] \<or> g_cashScope h \<noteq> [])"
proof -
  have "gate_inv h" "tighter g h" using reaches_inv [OF assms(2) live_inv [OF assms(1)]] by simp_all
  then show ?thesis by (cases "g_state h") (auto simp: tighter_def gate_inv_def state_ok_def)
qed

text \<open>C28: Once an account's engine is Halted, no later check, after any further inputs, releases an order other
  than a sale back to 98 percent.\<close>

theorem halt_releases_only_sales:
  assumes "live g" "g_state g = StateHalted" "reaches g h" "Check h book plan = Inr (k, outs)" "i < length plan" "op_Sale (o_Planned (plan ! i)) = noSale"
  shows "out_Released (outs ! i) = None"
proof (rule ccontr)
  assume r: "out_Released (outs ! i) \<noteq> None"
  have "tighter g h" using reaches_inv [OF assms(3) live_inv [OF assms(1)]] by simp
  then have "g_state h = StateHalted" using assms(2) by (simp add: tighter_def)
  then have "g_state (freshCheck h (gb_At book)) = StateHalted" by (simp add: freshCheck_def split: option.splits)
  moreover obtain m counted where "checkPlan (freshCheck h (gb_At book)) m counted book plan = (k, outs)" using assms(4) by (auto simp: Check_plan)
  ultimately show False using checkPlan_release_allowed [OF assms(5, 6), of "freshCheck h (gb_At book)" m counted book] r by (simp add: allowed_def)
qed

text \<open>C29: In every reachable gate each order counts exactly the shares of the executions recorded on it, no more
  than it released, with every execution on one order and counted there once, however often its report
  was delivered.\<close>

theorem orders_fill_once:
  assumes "live g" "map_of (g_orders g) c = Some r"
  shows "Filled g c = (\<Sum>f\<leftarrow>FillsOf g c. tf_Quantity f) \<and> 0 \<le> Filled g c \<and> Filled g c \<le> op_Quantity (ro_planned r) \<and>
    distinct (map tf_FillID (FillsOf g c)) \<and>
    (\<forall>d e f. e \<in> set (FillsOf g c) \<longrightarrow> f \<in> set (FillsOf g d) \<longrightarrow> tf_FillID e = tf_FillID f \<longrightarrow> c = d \<and> e = f)"
proof -
  have o: "orders_inv g" using live_inv [OF assms(1)] by (simp add: gate_inv_def flow_inv_def)
  have s: "order_sound g c r" using o assms(2) by (rule orders_soundD)
  have f: "g_fills g (tf_FillID f) = Some f \<and> tf_ClientOrderID f = d" if "f \<in> set (FillsOf g d)" for d f
  proof -
    obtain q where q: "map_of (g_orders g) d = Some q" "f \<in> set (ro_fills q)" using \<open>f \<in> set (FillsOf g d)\<close> by (cases "map_of (g_orders g) d") (auto simp: FillsOf_def)
    show ?thesis using orders_soundD [OF o q(1)] q(2) by (simp add: order_sound_def list_all_iff)
  qed
  have "c = d \<and> e = f" if e: "e \<in> set (FillsOf g c)" "f \<in> set (FillsOf g d)" "tf_FillID e = tf_FillID f" for d e f
    using f [OF e(1)] f [OF e(2)] e(3) by (metis option.inject)
  then have u: "\<forall>d e f. e \<in> set (FillsOf g c) \<longrightarrow> f \<in> set (FillsOf g d) \<longrightarrow> tf_FillID e = tf_FillID f \<longrightarrow> c = d \<and> e = f" by blast
  have "Filled g c = (\<Sum>f\<leftarrow>FillsOf g c. tf_Quantity f) \<and> 0 \<le> Filled g c \<and> Filled g c \<le> op_Quantity (ro_planned r) \<and> distinct (map tf_FillID (FillsOf g c))"
    using s assms(2) by (simp add: order_sound_def fills_sum_def Filled_def FillsOf_def)
  with u show ?thesis by (elim conjE) (intro conjI, assumption+)
qed

lemma PlanSale_names: "PlanSale x = Inr (SaleOrder p) \<Longrightarrow> op_Tag p = si_Tag x \<and> op_InstrumentID p = si_InstrumentID x"
  by (auto simp: PlanSale_def PlanSale_sized_def sale_order_def withheld_sale_def Let_def split: option.splits if_splits)

lemma settleSale_order: "snd (settleSale g tag trigger i t s) = SaleOrder p \<Longrightarrow> s = SaleOrder p"
  by (cases s) (auto simp: settleSale_def Let_def split_beta split: if_splits)

lemma Sale_order:
  assumes "Sale g trigger i t target band = Inr (h, Some (SaleOrder p))"
  shows "op_InstrumentID p = i \<and> op_Tag p = fst (saleTag g trigger i) \<and> \<not> saleAttemptedFor g (op_Tag p) i \<and> saleAttemptedFor h (op_Tag p) i"
proof -
  let ?tag = "fst (saleTag g trigger i)"
  obtain x s where s: "PlanSale x = Inr s" "si_Tag x = ?tag" "si_InstrumentID x = i" "fst (settleSale g ?tag trigger i t s) = h" "snd (settleSale g ?tag trigger i t s) = SaleOrder p"
    and n: "\<not> saleAttemptedFor g ?tag i"
    using assms by (auto simp: Sale_def Let_def bindr_eq_Inr split_beta split: if_splits)
  then have "s = SaleOrder p" using settleSale_order [of g ?tag trigger i t s p] by simp
  then have "op_Tag p = ?tag" "op_InstrumentID p = i" "g_attempts h = g_attempts (recordAttempt g ?tag i)"
    using PlanSale_names [of x p] s settleSale_attempts(1) [of g ?tag trigger i t s] by (simp_all add: saleSpends_def)
  then show ?thesis using n attempts_record [of g ?tag i] by (simp add: saleAttemptedFor_def)
qed

lemma Sale_attempted:
  assumes "saleAttemptedFor g (fst (saleTag g trigger i)) i"
  shows "Sale g trigger i t target band \<noteq> Inr (h, Some s)"
  using assms by (auto simp: Sale_def Let_def split_beta)

text \<open>The sale back to 98 percent has one attempt per tag and instrument: after the gate decides such an
  order, no later decision for the instrument under the same tag, after any inputs that neither retire a
  sale nor restore a recovery, gives an order or a withheld sale.\<close>

theorem Sale_one_attempt:
  assumes "live g" "Sale g trigger i t target band = Inr (h, Some (SaleOrder p))"
    and "list_all (\<lambda>x. \<not> retires x) xs" "SaleTag (foldl deliver h xs) trigger' i = op_Tag p" "op_Tag p \<noteq> ''''"
  shows "Sale (foldl deliver h xs) trigger' i t' target' band' \<noteq> Inr (k, Some s)"
proof -
  have "deliver g (InSale trigger i t target band) = h" using assms(2) by (simp add: keptFst_def)
  then have "reading_inv h" using desk_deliver [OF live_reading [OF assms(1)], of "InSale trigger i t target band"] by simp
  then have "attempts_grow h (foldl deliver h xs)" using assms(3) by (rule attempts.run_grows)
  with Sale_order [OF assms(2)] have "saleAttemptedFor (foldl deliver h xs) (op_Tag p) i" by (auto simp: attempts_grow_def)
  moreover have "op_Tag p = fst (saleTag (foldl deliver h xs) trigger' i)" using assms(4, 5) by (simp add: SaleTag_def split: if_splits)
  ultimately show ?thesis by (intro Sale_attempted) simp
qed

text \<open>C30: What \<open>BrokerFires\<close> foretells of a broker snapshot is exactly what observing it then reports, errors
  included: the same refusal, or the same firing of the urgent trigger and of the exit's retry.\<close>

theorem BrokerFires_foretells:
  assumes "live g"
  shows "BrokerFires g i s = (case ObserveBroker g i s of Inl es \<Rightarrow> Inl es | Inr (_, obs) \<Rightarrow> Inr (obs_Urgent obs, obs_RetryExit obs))"
proof -
  let ?g = "takeBroker g i s"
  have r: "reading_inv g" using assms by (rule live_reading)
  have t: "g_limits ?g = g_limits g" "g_accountID ?g = g_accountID g" "g_lastReading ?g = g_lastReading g" "g_lastReadingSet ?g = g_lastReadingSet g"
    "g_broker ?g \<noteq> None" "g_firstBroker ?g = (if g_broker g = None then bs_AsOf s else g_firstBroker g)" "g_ira ?g = g_ira g"
    "g_exitRetry ?g = g_exitRetry g" "g_state ?g = g_state g" "g_scope ?g = g_scope g" "g_killEngaged ?g = g_killEngaged g"
    "g_alarmLevel ?g = g_alarmLevel g" "g_urgentRetry ?g = g_urgentRetry g" "g_urgentInstrument ?g = g_urgentInstrument g"
    by (simp_all add: takeBroker_def recordBroker_def Let_def split_beta)
  have l: "g_limits (fst (lapseExit h d)) = g_limits h" "g_accountID (fst (lapseExit h d)) = g_accountID h" "g_broker (fst (lapseExit h d)) = g_broker h"
    "g_lastReading (fst (lapseExit h d)) = g_lastReading h" "g_lastReadingSet (fst (lapseExit h d)) = g_lastReadingSet h"
    "g_firstBroker (fst (lapseExit h d)) = g_firstBroker h" "g_alarmLevel (fst (lapseExit h d)) = g_alarmLevel h"
    "g_urgentRetry (fst (lapseExit h d)) = g_urgentRetry h" "g_urgentInstrument (fst (lapseExit h d)) = g_urgentInstrument h" for h d
    by (simp_all add: lapseExit_def Let_def split: option.splits)
  have a: "alarmFor h i s = alarmFor g i s"
    if h: "g_limits h = g_limits g" "g_accountID h = g_accountID g" "g_lastReading h = g_lastReading g" "g_lastReadingSet h = g_lastReadingSet g"
      "g_broker h \<noteq> None" "g_firstBroker h = (if g_broker g = None then bs_AsOf s else g_firstBroker g)" for h
  proof -
    obtain b where "g_broker h = Some b" using \<open>g_broker h \<noteq> None\<close> by blast
    with r h show ?thesis by (simp add: alarmFor_def bareAlarm_def noReadingSince_def reading_inv_def Let_def)
  qed
  have a: "alarmFor ?g i s = alarmFor g i s" "alarmFor (fst (lapseExit ?g d)) i s = alarmFor g i s" for d
    by (rule a; simp add: t l)+
  have f: "fires h s lev c e = fires g s lev c e"
    if "g_alarmLevel h = g_alarmLevel g" "g_urgentRetry h = g_urgentRetry g" "g_urgentInstrument h = g_urgentInstrument g" for h lev c e
    using that by (simp add: fires_def)
  have f: "fires ?g s lev c e = fires g s lev c e" "fires (fst (lapseExit ?g d)) s lev c e = fires g s lev c e"
    "fires (?g\<lparr>g_lastReading := q, g_lastReadingSet := b\<rparr>) s lev c e = fires g s lev c e"
    "fires ((fst (lapseExit ?g d))\<lparr>g_lastReading := q, g_lastReadingSet := b\<rparr>) s lev c e = fires g s lev c e" for d q b lev c e
    by (rule f; simp add: t l)+
  have e: "retriesExit ?g s = retriesExit g s" by (simp add: retriesExit_def refusesExit_def t)
  have ra: "obs_Urgent (snd (raiseAlarm h i al u ex la)) = u" "obs_RetryExit (snd (raiseAlarm h i al u ex la)) = ex" for h al u ex la
    by (simp_all add: raiseAlarm_def Let_def)
  show ?thesis
  proof (cases "checkBroker g i s = [] \<and> \<not> g_ira g")
    case True
    then show ?thesis using t l
      by (simp add: BrokerFires_def ObserveBroker_def Let_def split_beta a f e ra noObservation_def)
  next
    case False
    then consider (err) "checkBroker g i s \<noteq> []" | (ira) "checkBroker g i s = []" "g_ira g" by blast
    then show ?thesis
    proof cases
      case err
      then show ?thesis by (simp add: BrokerFires_def ObserveBroker_def joinErrs_def)
    qed (simp add: BrokerFires_def ObserveBroker_def t noObservation_def)
  qed
qed

section \<open>Pending cash differences are decided\<close>

text \<open>Overdue at a reading: more sessions than the Flex reader is given have closed since it was found, or they cannot be counted.\<close>

definition overdue :: "gotime \<Rightarrow> pending_cash \<Rightarrow> bool" where
  "overdue t pc \<longleftrightarrow> t > pc_to pc \<and> (case Closes (pc_to pc) t of Inl _ \<Rightarrow> True | Inr (n, _) \<Rightarrow> n > PendingCashReadSessions)"

lemma overdue_decides: "overdue t pc \<Longrightarrow> decides g t pc \<noteq> None"
  by (auto simp: overdue_def decides_def split: sum.splits)

lemma settledResult_decided:
  "rr_InputID (settledResult g pc why) = pc_inputID pc \<and> (case why of None \<Rightarrow> rr_Classification (settledResult g pc why) = ReconciliationExplained
     | Some _ \<Rightarrow> rr_Classification (settledResult g pc why) = ReconciliationUnexplained \<and> rr_Action (settledResult g pc why) = ReconciliationActionDegrade)"
  by (simp add: settledResult_def Let_def split: option.splits prod.splits)

lemma consequence_result [simp]: "rn_Result (snd (consequence g i r)) = r"
  by (simp add: consequence_def Let_def split_beta)

lemma consequence_moves: "rr_Action r = ReconciliationActionDegrade \<Longrightarrow> rr_ScopeCashComponents r \<noteq> [] \<Longrightarrow> g_state (fst (consequence g i r)) \<noteq> StateNormal"
  by (auto simp: consequence_def moveState_def Let_def split_beta)

lemma consequence_abnormal: "g_state g \<noteq> StateNormal \<Longrightarrow> g_state (fst (consequence g i r)) \<noteq> StateNormal"
  by (auto simp: consequence_def moveState_def Let_def split_beta)

lemma settleRepeats_abnormal: "g_state g \<noteq> StateNormal \<Longrightarrow> g_state (fst (settleRepeats g i r reps)) \<noteq> StateNormal"
  by (induction reps arbitrary: g) (simp_all add: Let_def split_beta consequence_abnormal)

lemma settle_loop_abnormal: "g_state g \<noteq> StateNormal \<Longrightarrow> g_state (fst (settle_loop g i t pcs)) \<noteq> StateNormal"
  by (induction pcs arbitrary: g) (simp_all add: Let_def split_beta consequence_abnormal settleRepeats_abnormal split: option.splits)

text \<open>A difference decided by the verdict \<open>v\<close>, in a gate that an unexplained one has moved.\<close>

definition decided_by :: "gate \<Rightarrow> pending_cash \<Rightarrow> verdict \<Rightarrow> bool" where
  "decided_by h pc v \<longleftrightarrow> rr_InputID (rn_Result v) = pc_inputID pc \<and> (rr_Classification (rn_Result v) = ReconciliationExplained \<or>
     (rr_Classification (rn_Result v) = ReconciliationUnexplained \<and> g_state h \<noteq> StateNormal))"

lemma settle_loop_keeps: "pc \<in> set (fst (snd (settle_loop g i t pcs))) \<Longrightarrow> \<not> overdue t pc"
proof (induction pcs arbitrary: g)
  case (Cons c pcs)
  show ?case
  proof (cases "if t > pc_to c then decides g t c else None")
    case None
    then have "\<not> overdue t c" using overdue_decides [of t c g] by (auto simp: overdue_def split: if_splits)
    then show ?thesis using Cons None by (auto simp: Let_def split_beta split: if_splits)
  next
    case (Some why)
    then show ?thesis using Cons by (auto simp: Let_def split_beta)
  qed
qed simp

lemma settle_loop_decides:
  "pc \<in> set pcs \<Longrightarrow> overdue t pc \<Longrightarrow> \<exists>v\<in>set (snd (snd (settle_loop g i t pcs))). decided_by (fst (settle_loop g i t pcs)) pc v"
proof (induction pcs arbitrary: g)
  case (Cons c pcs)
  show ?case
  proof (cases "if t > pc_to c then decides g t c else None")
    case None
    then have "\<not> overdue t c" using overdue_decides [of t c g] by (auto simp: overdue_def split: if_splits)
    then have "pc \<in> set pcs" using Cons.prems by auto
    from Cons.IH [OF this Cons.prems(2)] None show ?thesis by (simp add: Let_def split_beta)
  next
    case (Some why)
    define r where "r = settledResult g c why"
    define x where "x = consequence g (i @ '':pending-cash:'' @ pc_inputID c) r"
    define k where "k = fst (settleRepeats (fst x) i r (pc_repeats c))"
    let ?v = "snd x"
    have e: "fst (settle_loop g i t (c # pcs)) = fst (settle_loop k i t pcs)"
      "set (snd (snd (settle_loop g i t (c # pcs)))) = insert ?v (set (snd (settleRepeats (fst x) i r (pc_repeats c)))) \<union> set (snd (snd (settle_loop k i t pcs)))"
      using Some by (simp_all add: Let_def split_beta r_def x_def k_def)
    show ?thesis
    proof (cases "pc = c")
      case True
      have "decided_by (fst (settle_loop k i t pcs)) pc ?v"
      proof (cases why)
        case None
        then show ?thesis using settledResult_decided [of g c why] True by (simp add: decided_by_def x_def r_def)
      next
        case (Some cause)
        then have s: "rr_Action r = ReconciliationActionDegrade" "rr_ScopeCashComponents r \<noteq> []" "rr_Classification r = ReconciliationUnexplained" "rr_InputID r = pc_inputID c"
          by (simp_all add: r_def settledResult_def Let_def split: prod.splits)
        then have "g_state (fst x) \<noteq> StateNormal" unfolding x_def by (intro consequence_moves)
        then have "g_state (fst (settle_loop k i t pcs)) \<noteq> StateNormal" unfolding k_def by (intro settle_loop_abnormal settleRepeats_abnormal)
        then show ?thesis using s True by (simp add: decided_by_def x_def)
      qed
      then show ?thesis unfolding e by blast
    next
      case False
      then show ?thesis using Cons.IH [of k] Cons.prems unfolding e by auto
    qed
  qed
qed simp

lemma addRepeat_overdue: "(\<And>pc. pc \<in> set pcs \<Longrightarrow> \<not> overdue t pc) \<Longrightarrow> pc \<in> set (addRepeat same rep pcs) \<Longrightarrow> \<not> overdue t pc"
  by (induction pcs arbitrary: pc) (auto simp: overdue_def split: if_splits)

lemma pend_overdue:
  assumes "\<And>pc. pc \<in> set (g_pendingCash g) \<Longrightarrow> \<not> overdue (rp_AsOf p) pc" "pc \<in> set (g_pendingCash (fst (pend g i oc p)))"
  shows "\<not> overdue (rp_AsOf p) pc"
  using assms(2) addRepeat_overdue [of "g_pendingCash g" "rp_AsOf p" pc] assms(1)
  by (auto simp: pend_def Let_def overdue_def [of _ "\<lparr>pc_inputID = _, pc_result = _, pc_cash = _, pc_from = _, pc_to = _, pc_counted = _, pc_transfers = _,
      pc_alerted = _, pc_repeats = _\<rparr>"] split: option.splits prod.splits)

text \<open>C31: A cash difference that waits for the Flex reader does not wait for ever: the first reconciliation that
  finds more sessions closed since it was found than the reader is given, or that cannot count them,
  decides it, as explained or as unexplained with the engine state moved off Normal, and leaves no overdue
  difference pending.\<close>

theorem pending_cash_decided:
  assumes "Reconcile_gate g i p = Inr (h, rec)"
  shows "(\<forall>pc\<in>set (g_pendingCash g). overdue (rp_AsOf p) pc \<longrightarrow> (\<exists>v\<in>set (rn_Settled rec). decided_by h pc v)) \<and>
    (\<forall>pc\<in>set (g_pendingCash h). \<not> overdue (rp_AsOf p) pc)"
proof -
  define x where "x = settle_loop g i (rp_AsOf p) (g_pendingCash g)"
  define g1 where "g1 = (fst x)\<lparr>g_pendingCash := fst (snd x)\<rparr>"
  define oc where "oc = Reconcile (g_book g1) (g_changes g1) i p"
  define g2 where "g2 = fst (pend g1 i oc p)"
  define r where "r = snd (pend g1 i oc p)"
  define b where "b = (case g_book (takeReading g2 p) of None \<Rightarrow> False | Some b \<Rightarrow> ReconReadable p ReconciliationComponentPositions \<and> bk_AsOf b \<le> rp_AsOf p)"
  define g3 where "g3 = report (takeReading g2 p) r (rp_AsOf p) b"
  have h: "h = fst (consequence g3 i r)" "rn_Settled rec = snd (snd x)"
    using assms by (auto simp: Reconcile_gate_def settlePending_def Let_def split_beta x_def g1_def oc_def g2_def r_def b_def g3_def verdict.defs reconciliation.defs)
  have "journal_facts g3 = journal_facts g2" by (simp add: g3_def facts_report) (simp add: takeReading_def journal_facts_def)
  then have p: "g_pendingCash h = g_pendingCash g2" by (simp add: h journal_facts_def)
  have "core (report k r t b) = core k" for k t b
  proof -
    have "core (forgetOmitted k ids t) = core k" for k ids unfolding forgetOmitted_def by (rule core_foldl) simp
    moreover have "core (foldl (reportComponent t) k cs) = core k" for k cs by (rule core_foldl) (simp add: reportComponent_def Let_def)
    ultimately show ?thesis by (simp add: report_def Let_def)
  qed
  moreover have "core (takeReading g2 p) = core g2" by (simp add: takeReading_def)
  moreover have "core g2 = core g1" by (simp add: g2_def pend_def Let_def split: option.splits prod.splits)
  ultimately have "core g3 = core (fst x)" by (simp add: g3_def g1_def)
  then have "g_state (fst x) \<noteq> StateNormal \<Longrightarrow> g_state h \<noteq> StateNormal" using consequence_abnormal [of g3 i r] by (simp add: core_def h)
  then have d: "decided_by (fst x) pc v \<Longrightarrow> decided_by h pc v" for pc v by (auto simp: decided_by_def)
  have "\<exists>v\<in>set (rn_Settled rec). decided_by h pc v" if "pc \<in> set (g_pendingCash g)" "overdue (rp_AsOf p) pc" for pc
    using settle_loop_decides [OF that, of g i] d unfolding h x_def by blast
  moreover have "\<not> overdue (rp_AsOf p) pc" if "pc \<in> set (g_pendingCash h)" for pc
  proof (rule pend_overdue [of g1])
    show "\<not> overdue (rp_AsOf p) c" if "c \<in> set (g_pendingCash g1)" for c using that settle_loop_keeps [of c g i] by (simp add: g1_def x_def)
    show "pc \<in> set (g_pendingCash (fst (pend g1 i oc p)))" using that p by (simp add: g2_def)
  qed
  ultimately show ?thesis by blast
qed

section \<open>The journalled engine state restores the gate's\<close>

text \<open>A record of the state, with the scope, that the gate is in.\<close>

definition recorded :: "gate \<Rightarrow> engine_state_payload \<Rightarrow> int \<Rightarrow> bool" where
  "recorded h p v \<longleftrightarrow> g_state h = es_State p \<and> g_scope h = es_ScopeInstrumentIDs p \<and> g_cashScope h = es_ScopeCashComponents p \<and>
     es_ScopeOrderIDs p = [] \<and> es_Detail p \<noteq> NoDetail \<and> (\<forall>s. es_Reason p \<noteq> OtherStateReason s) \<and> v = EngineStateScopedVersion \<and> g_state h \<noteq> StateNormal"

lemma recorded_core: "core k = core h \<Longrightarrow> recorded h p v \<Longrightarrow> recorded k p v"
  unfolding recorded_def core_def by auto

lemma recorded_valid:
  assumes "recorded h p v" "state_ok h"
  shows "EngineState_ValidateSchema p v = []"
proof -
  have a: "ascendingIDs (g_scope h) = []" "ascendingIDs (g_cashScope h) = []" using state_ok_scopes [OF assms(2)] by simp_all
  have "ascendingIDs [] = []" by (simp add: ascendingIDs_Nil strict_asc_def)
  then show ?thesis using assms a unfolding recorded_def state_ok_def
    by (cases "es_State p"; cases "es_Reason p") (auto simp: EngineState_ValidateSchema_def EngineStateScopedVersion_def EngineState_Validate_def EngineState_scoped_def)
qed

lemma union_ids_fresh: "ascendingIDs ids = [] \<Longrightarrow> union_ids [] ids = ids"
  by (simp add: ascendingIDs_Nil strict_asc_def union_ids_def sorted_sort_id remdups_adj_distinct)

lemma recorded_restores:
  assumes "recorded h p v" "state_ok h" "built b" "i \<noteq> ''''"
  shows "\<exists>k. RestoreState b i p v = Inr k \<and> core k = (g_state h, g_scope h, g_cashScope h, i)"
proof -
  have b: "g_state b = StateNormal" "g_scope b = []" "g_cashScope b = []" using built_start [OF assms(3)] by (auto simp: gate_inv_def state_ok_def)
  have u: "union_ids [] (g_scope h) = g_scope h" "union_ids [] (g_cashScope h) = g_cashScope h"
    using state_ok_scopes [OF assms(2)] by (simp_all add: union_ids_fresh)
  show ?thesis using assms b u recorded_valid [OF assms(1, 2)] unfolding recorded_def state_ok_def
    by (cases "es_State p") (auto simp: RestoreState_def tighten_def core_def Let_def)
qed

text \<open>What an order's check leaves journalled, and the last state a plan's outcomes carry.\<close>

definition states_of :: "gate \<Rightarrow> gate \<times> gate_outcome \<Rightarrow> bool" where
  "states_of g x \<longleftrightarrow> (case out_State (snd x) of None \<Rightarrow> core (fst x) = core g
     | Some p \<Rightarrow> recorded (fst x) p (out_StateSchemaVersion (snd x)) \<and> out_StateID (snd x) \<noteq> '''')"

lemma states_of_simps [simp]:
  "states_of g (h, refuse k ord f reason d) \<longleftrightarrow> core h = core g" "states_of g (h, alertRefusal a (refuse k ord f reason d)) \<longleftrightarrow> core h = core g"
  "d \<noteq> NoDetail \<Longrightarrow> states_of g (haltGate h out d c)" "d \<noteq> NoDetail \<Longrightarrow> states_of g (degradeGate h out i d c)"
  "states_of g (releaseOrder h ord f) \<longleftrightarrow> core h = core g"
  by (simp_all add: states_of_def refuse_def alertRefusal_def noOutcome_def releaseOrder_def haltGate_def degradeGate_def enterState_def moveState_def recorded_def
    Let_def)

lemma states_checkSale: "states_of g (checkSale g ord f)"
  by (simp add: checkSale_def Let_def)

lemma states_checkLimits: "states_of g (checkLimits g ord f counted book unvalued)"
  by (simp add: checkLimits_def Let_def split: option.splits)

lemma states_checkOrder: "states_of g (checkOrder g ord n counted book)"
proof -
  obtain f unvalued where f: "orderFigures g ord n book = (f, unvalued)" by fastforce
  show ?thesis unfolding checkOrder_def Let_def f
    by (simp add: states_checkSale states_checkLimits openStale_def split: option.splits sum.splits)
qed

definition lastState :: "gate_outcome list \<Rightarrow> (engine_state_payload \<times> int \<times> string) option" where
  "lastState outs = foldl (\<lambda>s out. case out_State out of None \<Rightarrow> s | Some p \<Rightarrow> Some (p, out_StateSchemaVersion out, out_StateID out)) None outs"

lemma lastState_snoc: "lastState (outs @ [out]) = (case out_State out of None \<Rightarrow> lastState outs | Some p \<Rightarrow> Some (p, out_StateSchemaVersion out, out_StateID out))"
  by (cases "out_State out") (simp_all add: lastState_def)

lemma lastState_Cons: "lastState (out # outs) = (case lastState outs of Some x \<Rightarrow> Some x
    | None \<Rightarrow> map_option (\<lambda>p. (p, out_StateSchemaVersion out, out_StateID out)) (out_State out))"
proof (induction outs rule: rev_induct)
  case (snoc o' outs)
  then show ?case using lastState_snoc [of "out # outs" o'] by (auto simp: lastState_snoc split: option.splits)
qed (simp add: lastState_def split: option.splits)

lemma states_checkPlan:
  "case lastState (snd (checkPlan g n counted book plan)) of None \<Rightarrow> core (fst (checkPlan g n counted book plan)) = core g
   | Some (p, v, i) \<Rightarrow> recorded (fst (checkPlan g n counted book plan)) p v \<and> i \<noteq> ''''"
proof (induction plan arbitrary: g book)
  case Nil
  then show ?case by (simp add: lastState_def)
next
  case (Cons ord plan)
  let ?x = "checkOrder g ord n counted book"
  show ?case using Cons.IH [of "fst ?x" "applyRelease book ord (snd ?x)"] states_checkOrder [of g ord n counted book]
    by (auto simp: lastState_Cons states_of_def split_beta Let_def split: option.splits intro: recorded_core)
qed

lemma states_consequence:
  assumes "rn_State (snd (consequence g i r)) = Some p"
  shows "recorded (fst (consequence g i r)) p (rn_StateSchemaVersion (snd (consequence g i r))) \<and> rn_StateID (snd (consequence g i r)) \<noteq> ''''"
  using assms by (auto simp: consequence_def moveState_def recorded_def haltState_def degradeState_def Let_def split_beta split: if_splits)

text \<open>C32: The engine state a check or a reconciliation journals last is one its schema accepts, and restoring that
  record into a gate newly built for the account gives the state, the scope and the cash scope the first
  gate was left in, with the record as the incident.\<close>

theorem journalled_state_restores:
  assumes "live g" "built b"
    and "(\<exists>book plan outs. Check g book plan = Inr (h, outs) \<and> lastState outs = Some (p, v, i)) \<or>
      (\<exists>j r rec. Reconcile_gate g j r = Inr (h, rec) \<and> typed (InReconcile j r) \<and> rn_State rec = Some p \<and> v = rn_StateSchemaVersion rec \<and> i = rn_StateID rec)"
  shows "EngineState_ValidateSchema p v = [] \<and> (\<exists>k. RestoreState b i p v = Inr k \<and> g_state k = g_state h \<and> g_scope k = g_scope h \<and>
    g_cashScope k = g_cashScope h \<and> g_incident k = i)"
proof -
  have g: "state_ok g" "journal_inv g" using live_inv [OF assms(1)] by (simp_all add: gate_inv_def flow_inv_def)
  have "recorded h p v \<and> i \<noteq> '''' \<and> state_ok h" using assms(3)
  proof (elim disjE exE conjE)
    fix book plan outs
    assume c: "Check g book plan = Inr (h, outs)" and l: "lastState outs = Some (p, v, i)"
    then obtain n counted where "checkPlan (freshCheck g (gb_At book)) n counted book plan = (h, outs)" by (auto simp: Check_plan)
    with states_checkPlan [of "freshCheck g (gb_At book)" n counted book plan] l sound_Check [OF c g(1)] show ?thesis by (simp add: sound_from_def)
  next
    fix j r rec
    assume c: "Reconcile_gate g j r = Inr (h, rec)" and t: "typed (InReconcile j r)" and p: "rn_State rec = Some p" "v = rn_StateSchemaVersion rec" "i = rn_StateID rec"
    obtain k q where "h = fst (consequence k j q)" "rn_State rec = rn_State (snd (consequence k j q))"
        "rn_StateSchemaVersion rec = rn_StateSchemaVersion (snd (consequence k j q))" "rn_StateID rec = rn_StateID (snd (consequence k j q))"
      using c by (auto simp: Reconcile_gate_def Let_def split_beta verdict.defs reconciliation.defs)
    with states_consequence [of k j q p] p sound_Reconcile [OF c g] t show ?thesis by (simp add: sound_from_def)
  qed
  then show ?thesis using recorded_valid [of h p v] recorded_restores [of h p v b i] assms(2) by (auto simp: core_def)
qed

end
