(* ===== verification/RiskRestore.thy ===== *)
theory RiskRestore
  imports RiskInvariants
begin

text \<open>
  A recovery is restored whole: what \<open>checkRecovery\<close> stages is what the orders restored after it find, so no
  execution that it accepted is refused when it is applied.
\<close>

text \<open>The gate \<open>g\<close> holds what \<open>g0\<close> held and what the stage says was restored since.\<close>

definition staged :: "gate \<Rightarrow> recovery_stage \<Rightarrow> gate \<Rightarrow> bool" where
  "staged g0 st g \<longleftrightarrow> g_accountID g = g_accountID g0 \<and> g_quantityScale g = g_quantityScale g0 \<and>
     (\<forall>c\<in>sg_orders st. map_of (g_orders g0) c = None) \<and>
     (\<forall>c. map_of (g_orders g) c = None \<longleftrightarrow> map_of (g_orders g0) c = None \<and> c \<notin> sg_orders st) \<and>
     (\<forall>i. g_fills g i = None \<longleftrightarrow> g_fills g0 i = None \<and> i \<notin> sg_fills st)"

lemma recordFill_facts:
  "map_of (g_orders (recordFill g f r)) c = (if c = tf_ClientOrderID f
     then Some (r\<lparr>ro_reported := add64 (ro_reported r) (tf_Quantity f), ro_fills := ro_fills r @ [f]\<rparr>) else map_of (g_orders g) c)"
  "g_fills (recordFill g f r) i = (if i = tf_FillID f then Some f else g_fills g i)"
  "g_accountID (recordFill g f r) = g_accountID g" "g_quantityScale (recordFill g f r) = g_quantityScale g"
  by (simp_all add: recordFill_def)

text \<open>One order's executions: those the check passed are all recorded, in order.\<close>

definition filling :: "gate \<Rightarrow> recovery_stage \<Rightarrow> order_released \<Rightarrow> int \<Rightarrow> string set \<Rightarrow> target_weight_fill list \<Rightarrow> gate \<Rightarrow> bool" where
  "filling g0 st ord filled seen fs g \<longleftrightarrow> g_accountID g = g_accountID g0 \<and> g_quantityScale g = g_quantityScale g0 \<and>
     (\<exists>r. map_of (g_orders g) (rel_ClientOrderID ord) = Some r \<and> ro_planned r = restoredPlanned ord \<and> ro_reported r = filled \<and> ro_fills r = fs) \<and>
     (\<forall>i. g_fills g i = None \<longleftrightarrow> g_fills g0 i = None \<and> i \<notin> sg_fills st \<and> i \<notin> seen)"

lemma checkFills_applied:
  assumes "checkFills g0 st ord b filled seen fs = Inr seen'" "filling g0 st ord filled seen done g"
    and "rel_AccountID ord = g_accountID g0" "checkQuantityScale g0 (rel_QuantityScale ord) = []"
  shows "(\<exists>filled'. filling g0 st ord filled' seen' (done @ fs) (observeAll g fs)) \<and>
    (\<forall>c. c \<noteq> rel_ClientOrderID ord \<longrightarrow> map_of (g_orders (observeAll g fs)) c = map_of (g_orders g) c)"
  using assms(1, 2)
proof (induction fs arbitrary: filled seen "done" g)
  case (Cons f fs)
  let ?left = "sub64 (rel_Quantity ord) filled"
  have f: "checkQuantityScale g0 (tf_QuantityScale f) = []" "Fill_Validate f = []" "tf_AccountID f = rel_AccountID ord" "tf_ClientOrderID f = rel_ClientOrderID ord"
      "tf_InstrumentID f = rel_InstrumentID ord" "tf_Side f = rel_Side ord" "tf_FillID f \<notin> seen" "g_fills g0 (tf_FillID f) = None" "tf_FillID f \<notin> sg_fills st"
      "tf_Quantity f \<le> ?left"
    and rest: "checkFills g0 st ord b (add64 filled (tf_Quantity f)) (insert (tf_FillID f) seen) fs = Inr seen'"
    using Cons.prems(1) by (auto simp: Let_def)
  obtain r where r: "map_of (g_orders g) (rel_ClientOrderID ord) = Some r" "ro_planned r = restoredPlanned ord" "ro_reported r = filled" "ro_fills r = done"
    and g: "g_accountID g = g_accountID g0" "g_quantityScale g = g_quantityScale g0"
      "\<And>i. g_fills g i = None \<longleftrightarrow> g_fills g0 i = None \<and> i \<notin> sg_fills st \<and> i \<notin> seen"
    using Cons.prems(2) unfolding filling_def by blast
  have scale: "tf_QuantityScale f = rel_QuantityScale ord" "checkQuantityScale g (tf_QuantityScale f) = []"
    using f(1) assms(4) g(2) by (auto simp: checkQuantityScale_def)
  have "g_fills g (tf_FillID f) = None" using f g(3) by simp
  then have o: "ObserveFill g f = Inr (recordFill g f r)"
    using f r g(1) scale assms(3)
    by (simp add: ObserveFill_def CheckFill_def checkReport_def fillOrder_def restoredPlanned_def Let_def)
  have "filling g0 st ord (add64 filled (tf_Quantity f)) (insert (tf_FillID f) seen) (done @ [f]) (recordFill g f r)"
    using r g f(4) by (auto simp: filling_def recordFill_facts)
  from Cons.IH [OF rest this] show ?case using f(4) by (simp add: observeAll_def o recordFill_facts)
qed (auto simp: observeAll_def)

lemma checkRestored_applied:
  assumes "checkRestored g0 r st b = Inr st'" "staged g0 st g"
  shows "staged g0 st' (applyReleased g r) \<and> FillsOf (applyReleased g r) (rel_ClientOrderID (xo_Order r)) = xo_Fills r \<and>
    rel_ClientOrderID (xo_Order r) \<notin> sg_orders st \<and> sg_orders st' = insert (rel_ClientOrderID (xo_Order r)) (sg_orders st) \<and>
    (\<forall>c. c \<noteq> rel_ClientOrderID (xo_Order r) \<longrightarrow> map_of (g_orders (applyReleased g r)) c = map_of (g_orders g) c)"
proof -
  let ?ord = "xo_Order r" and ?c = "rel_ClientOrderID (xo_Order r)"
  define h where "h = g\<lparr>g_released := insert ?c (g_released g), g_orders := mput (g_orders g) ?c \<lparr>ro_planned = restoredPlanned ?ord, ro_reported = 0, ro_fills = []\<rparr>,
       g_ledger := (if rel_Side ?ord = OrderSideSell then restoreSell (g_ledger g) r else g_ledger g)\<rparr>"
  obtain seen where c: "checkFills g0 st ?ord b 0 {} (xo_Fills r) = Inr seen" and a: "checkQuantityScale g0 (rel_QuantityScale ?ord) = []" "rel_AccountID ?ord = g_accountID g0"
    and n: "?c \<notin> sg_orders st" "map_of (g_orders g0) ?c = None" and s: "sg_orders st' = insert ?c (sg_orders st)" "sg_fills st' = seen \<union> sg_fills st"
    using assms(1) by (auto simp: checkRestored_def Let_def bindr_eq_Inr)
  have "filling g0 st ?ord 0 {} [] h" using assms(2) by (simp add: filling_def staged_def h_def)
  from checkFills_applied [OF c this a(2, 1)]
  obtain filled where k: "filling g0 st ?ord filled seen (xo_Fills r) (observeAll h (xo_Fills r))"
    and o: "\<And>d. d \<noteq> ?c \<Longrightarrow> map_of (g_orders (observeAll h (xo_Fills r))) d = map_of (g_orders g) d"
    by (auto simp: h_def)
  have e: "applyReleased g r = observeAll h (xo_Fills r)" by (simp add: applyReleased_def h_def Let_def)
  have "FillsOf (applyReleased g r) ?c = xo_Fills r" using k by (auto simp: filling_def FillsOf_def e)
  moreover have "map_of (g_orders (applyReleased g r)) d = None \<longleftrightarrow> map_of (g_orders g0) d = None \<and> d \<notin> sg_orders st'" for d
    using k o [of d] assms(2) by (cases "d = ?c") (auto simp: filling_def staged_def e s)
  moreover have "g_fills (applyReleased g r) i = None \<longleftrightarrow> g_fills g0 i = None \<and> i \<notin> sg_fills st'" for i
    using k by (auto simp: filling_def e s)
  moreover have "\<forall>c\<in>sg_orders st'. map_of (g_orders g0) c = None" using assms(2) n s by (auto simp: staged_def)
  ultimately show ?thesis using k o n s by (auto simp: staged_def filling_def e)
qed

text \<open>Orders whose executions the gate holds in full, each under an identity the stage knows.\<close>

definition restored_all :: "recovery_stage \<Rightarrow> gate \<Rightarrow> restored_order list \<Rightarrow> bool" where
  "restored_all st g rs \<longleftrightarrow> (\<forall>r\<in>set rs. FillsOf g (rel_ClientOrderID (xo_Order r)) = xo_Fills r \<and> rel_ClientOrderID (xo_Order r) \<in> sg_orders st)"

lemma restored_one:
  assumes "checkRestored g0 r st b = Inr st'" "staged g0 st g" "restored_all st g rs"
  shows "staged g0 st' (applyReleased g r) \<and> restored_all st' (applyReleased g r) (rs @ [r])"
proof -
  note a = checkRestored_applied [OF assms(1, 2)]
  have "FillsOf (applyReleased g r) c = FillsOf g c" if "c \<noteq> rel_ClientOrderID (xo_Order r)" for c using a that by (simp add: FillsOf_def)
  then have "FillsOf (applyReleased g r) c = FillsOf g c" if "c \<in> sg_orders st" for c using a that by metis
  then show ?thesis using a assms(3) by (auto simp: restored_all_def)
qed

lemma restored_many:
  "checkReleased g0 rs st = Inr st' \<Longrightarrow> staged g0 st g \<Longrightarrow> restored_all st g xs \<Longrightarrow>
    staged g0 st' (foldl applyReleased g rs) \<and> restored_all st' (foldl applyReleased g rs) (xs @ rs)"
proof (induction rs arbitrary: st g xs)
  case (Cons r rs)
  then obtain st1 where s: "checkRestored g0 r st False = Inr st1" "checkReleased g0 rs st1 = Inr st'" by (auto simp: bindr_eq_Inr)
  with restored_one [OF s(1) Cons.prems(2, 3)] Cons.IH [OF s(2), of "applyReleased g r" "xs @ [r]"] show ?case by simp
qed simp

lemma staged_frame:
  "map_of (g_orders h) = map_of (g_orders g) \<Longrightarrow> g_fills h = g_fills g \<Longrightarrow> g_accountID h = g_accountID g \<Longrightarrow> g_quantityScale h = g_quantityScale g \<Longrightarrow>
    sg_orders st' = sg_orders st \<Longrightarrow> sg_fills st' = sg_fills st \<Longrightarrow> staged g0 st g \<and> restored_all st g rs \<Longrightarrow> staged g0 st' h \<and> restored_all st' h rs"
  by (simp add: staged_def restored_all_def FillsOf_def)

lemma checkRetired_stage: "checkRetired g ss st = Inr st' \<Longrightarrow> sg_orders st' = sg_orders st \<and> sg_fills st' = sg_fills st"
  by (induction ss arbitrary: st) auto

lemma applyRetired_frame:
  "g_orders (foldl applyRetired g ss) = g_orders g \<and> g_fills (foldl applyRetired g ss) = g_fills g \<and>
   g_accountID (foldl applyRetired g ss) = g_accountID g \<and> g_quantityScale (foldl applyRetired g ss) = g_quantityScale g"
  by (induction ss arbitrary: g) (simp_all add: applyRetired_def Let_def)

lemma restored_own:
  assumes "checkOwnSale g0 s st = Inr st'" "staged g0 st g" "restored_all st g rs"
  shows "staged g0 st' (applyOwnSale g s) \<and> restored_all st' (applyOwnSale g s) (rs @ [restored_order.truncate s])"
proof -
  let ?h = "applyReleased g (restored_order.truncate s)"
  have "checkRestored g0 (restored_order.truncate s) st True = Inr st'" using assms(1) by (auto simp: checkOwnSale_def Let_def split_beta)
  from restored_one [OF this assms(2, 3)] have h: "staged g0 st' ?h \<and> restored_all st' ?h (rs @ [restored_order.truncate s])" .
  have f: "FillsOf (applyOwnSale g s) c = FillsOf ?h c" "map_of (g_orders (applyOwnSale g s)) c = None \<longleftrightarrow> map_of (g_orders ?h) c = None" for c
    by (auto simp: applyOwnSale_def recordAttempt_def FillsOf_def Let_def split: option.splits)
  have "g_fills (applyOwnSale g s) = g_fills ?h" "g_accountID (applyOwnSale g s) = g_accountID ?h" "g_quantityScale (applyOwnSale g s) = g_quantityScale ?h"
    by (simp_all add: applyOwnSale_def recordAttempt_def Let_def)
  then show ?thesis using h f by (simp add: staged_def restored_all_def)
qed

text \<open>C33: A recovery is restored whole or not at all: when it is accepted, every order of it, whichever part it came
  in, is known to the gate with exactly the executions restored with it, none dropped and none twice; when
  it is refused, the error comes before any change.\<close>

theorem RestoreRecovery_applies_all:
  assumes "RestoreRecovery g r = Inr h"
  shows "\<forall>x\<in>set (recovery_orders r). map_of (g_orders g) (rel_ClientOrderID (xo_Order x)) = None \<and>
    FillsOf h (rel_ClientOrderID (xo_Order x)) = xo_Fills x \<and> map_of (g_orders h) (rel_ClientOrderID (xo_Order x)) \<noteq> None"
proof -
  obtain st1 st2 st3 st4 st5 where
    c: "checkReleased g (rv_Released r) emptyStage = Inr st1"
      "(case rv_SaleAttempt r of None \<Rightarrow> Inr st1 | Some a \<Rightarrow> joinErrs (checkSaleAttempt g a) (Inr (st1\<lparr>sg_attempt := Some a\<rparr>))) = Inr st2"
      "checkRetired g (rv_RetiredSales r) st2 = Inr st3" "(case rv_OwnSale r of None \<Rightarrow> Inr st3 | Some s \<Rightarrow> checkOwnSale g s st3) = Inr st4"
      "checkReleased g (rv_Working r) st4 = Inr st5"
    using assms by (auto simp: RestoreRecovery_def checkRecovery_def bindr_eq_Inr)
  define g1 where "g1 = foldl applyReleased g (rv_Released r)"
  define g2 where "g2 = (case rv_SaleAttempt r of None \<Rightarrow> g1 | Some a \<Rightarrow> applyAttempt g1 a)"
  define g3 where "g3 = foldl applyRetired g2 (rv_RetiredSales r)"
  define g4 where "g4 = (case rv_OwnSale r of None \<Rightarrow> g3 | Some s \<Rightarrow> applyOwnSale g3 s)"
  let ?own = "case rv_OwnSale r of None \<Rightarrow> [] | Some s \<Rightarrow> [restored_order.truncate s]"
  have "staged g emptyStage g" "restored_all emptyStage g []" by (simp_all add: staged_def restored_all_def emptyStage_def)
  from restored_many [OF c(1) this] have s1: "staged g st1 g1 \<and> restored_all st1 g1 (rv_Released r)" by (simp add: g1_def)
  have s2: "staged g st2 g2 \<and> restored_all st2 g2 (rv_Released r)"
    using c(2) by (intro staged_frame [OF _ _ _ _ _ _ s1]) (auto simp: g2_def applyAttempt_def split: option.splits)
  have s3: "staged g st3 g3 \<and> restored_all st3 g3 (rv_Released r)"
    using checkRetired_stage [OF c(3)] applyRetired_frame [of g2 "rv_RetiredSales r"] by (intro staged_frame [OF _ _ _ _ _ _ s2]) (simp_all add: g3_def)
  have s4: "staged g st4 g4 \<and> restored_all st4 g4 (rv_Released r @ ?own)"
    using c(4) s3 restored_own [of g _ st3 st4 g3 "rv_Released r"] by (auto simp: g4_def split: option.splits)
  then have s5: "staged g st5 (foldl applyReleased g4 (rv_Working r)) \<and> restored_all st5 (foldl applyReleased g4 (rv_Working r)) (recovery_orders r)"
    using restored_many [OF c(5), of g4 "rv_Released r @ ?own"] by (simp add: recovery_orders_def)
  have "h = foldl applyReleased g4 (rv_Working r)"
    using assms by (auto simp: RestoreRecovery_def bindr_eq_Inr g1_def g2_def g3_def g4_def Let_def cong: option.case_cong)
  then show ?thesis using s5 by (auto simp: staged_def restored_all_def)
qed

end
