(* ===== verification/RiskRuns.thy ===== *)
theory RiskRuns
  imports RiskMachine RiskRestore
begin

text \<open>
  Worked runs of the gate of \<open>RiskExample\<close>, on which the theorems of \<open>RiskMachine\<close> and \<open>RiskRestore\<close> are applied.
\<close>

section \<open>A worked run\<close>

lemma live_example: "list_all typed xs \<Longrightarrow> live (foldl deliver example_gate xs)"
  using example_gate_built by (intro live_built) (auto intro: built.intros)

text \<open>The broker read, then a plan checked before any decision: the account is Halted.\<close>

definition example_broken :: "gate_input list" where
  "example_broken = [InBroker ''s1'' example_snapshot, InCheck example_book [example_order ''U1'' ''d1'' ''c1'' ''AAA'' OrderSideSell 40]]"

lemma example_broken_halts: "g_state (foldl deliver example_gate example_broken) = StateHalted" "list_all typed example_broken"
  by code_simp+

text \<open>The decision journalled first: the sell is released and fills in part, reported twice.\<close>

definition example_fill :: target_weight_fill where
  "example_fill = \<lparr>tf_QuantityScale = 0, tf_AccountID = ''U1'', tf_ClientOrderID = ''c1'', tf_FillID = ''f1'', tf_InstrumentID = ''AAA'', tf_Side = OrderSideSell,
     tf_Quantity = 15, tf_Price = Fin 50, tf_Commission = Fin 1, tf_FilledAt = example_time\<rparr>"

definition example_run :: "gate_input list" where
  "example_run = [InDecision ''d1'', InCheck example_book [example_order ''U1'' ''d1'' ''c1'' ''AAA'' OrderSideSell 40], InFill example_fill, InFill example_fill]"

lemma example_run_fills: "Filled (foldl deliver example_gate example_run) ''c1'' = 15" "list_all typed example_run"
  by code_simp+

theorem engine_state_only_tightens_witness:
  "rank (g_state (foldl deliver example_gate example_run)) \<le> rank (g_state (foldl deliver example_gate (example_run @ example_broken)))"
proof -
  let ?g = "foldl deliver example_gate example_run"
  have "live ?g" using live_example example_run_fills(2) by blast
  moreover have "reaches ?g (foldl deliver ?g example_broken)" using example_broken_halts(2) reaches_run by blast
  ultimately show ?thesis using engine_state_only_tightens [of ?g "foldl deliver ?g example_broken"] by simp
qed

theorem halt_releases_only_sales_witness:
  "\<exists>k outs. Check (foldl deliver example_gate (example_broken @ [InDecision ''d1''])) example_book [example_order ''U1'' ''d1'' ''c1'' ''AAA'' OrderSideSell 40] =
     Inr (k, outs) \<and> out_Released (outs ! 0) = None"
proof -
  let ?g = "foldl deliver example_gate example_broken" and ?plan = "[example_order ''U1'' ''d1'' ''c1'' ''AAA'' OrderSideSell 40]"
  let ?h = "foldl deliver ?g [InDecision ''d1'']"
  have "released_ids (Check ?h example_book ?plan) = Some [False]" by code_simp
  from released_idsD [OF this] obtain k outs where c: "Check ?h example_book ?plan = Inr (k, outs)" by (elim exE conjE) (rule that)
  have "live ?g" using live_example example_broken_halts(2) by blast
  moreover have "reaches ?g ?h" unfolding reaches_run by (rule exI [of _ "[InDecision ''d1'']"]) simp
  moreover have "op_Sale (o_Planned (?plan ! 0)) = noSale" by (simp add: example_order_def)
  ultimately have "out_Released (outs ! 0) = None" using halt_releases_only_sales [OF _ example_broken_halts(1) _ c, of 0] by simp
  then show ?thesis using c by simp
qed

theorem orders_fill_once_witness:
  "Filled (foldl deliver example_gate example_run) ''c1'' = (\<Sum>f\<leftarrow>FillsOf (foldl deliver example_gate example_run) ''c1''. tf_Quantity f) \<and>
   distinct (map tf_FillID (FillsOf (foldl deliver example_gate example_run) ''c1''))"
proof -
  let ?g = "foldl deliver example_gate example_run"
  obtain r where "map_of (g_orders ?g) ''c1'' = Some r" using example_run_fills(1) by (cases "map_of (g_orders ?g) ''c1''") (auto simp: Filled_def)
  with orders_fill_once [of ?g "''c1''" r] live_example [OF example_run_fills(2)] show ?thesis by blast
qed

theorem BrokerFires_foretells_witness:
  "BrokerFires example_gate ''s1'' example_snapshot =
     (case ObserveBroker example_gate ''s1'' example_snapshot of Inl es \<Rightarrow> Inl es | Inr (_, obs) \<Rightarrow> Inr (obs_Urgent obs, obs_RetryExit obs))"
  by (rule BrokerFires_foretells) (use live_example [of "[]"] in simp)

theorem journalled_state_restores_witness:
  "\<exists>p v i k. EngineState_ValidateSchema p v = [] \<and> RestoreState example_gate i p v = Inr k \<and> g_state k = StateHalted"
proof -
  let ?g = "foldl deliver example_gate [InBroker ''s1'' example_snapshot]" and ?plan = "[example_order ''U1'' ''d1'' ''c1'' ''AAA'' OrderSideSell 40]"
  have "case Check ?g example_book ?plan of Inl _ \<Rightarrow> False | Inr (_, outs) \<Rightarrow> lastState outs \<noteq> None" by code_simp
  then obtain h outs p v i where c: "Check ?g example_book ?plan = Inr (h, outs)" "lastState outs = Some (p, v, i)" by (auto split: sum.splits)
  have "h = foldl deliver example_gate example_broken" using c(1) by (simp add: example_broken_def keptFst_def)
  then have h: "g_state h = StateHalted" using example_broken_halts(1) by simp
  have l: "live ?g" "built example_gate" using live_example [of "[InBroker ''s1'' example_snapshot]"] example_broken_halts(2) example_gate_built
    by (auto simp: example_broken_def intro: built.intros)
  show ?thesis using journalled_state_restores [OF l, of h p v i] c h by fastforce
qed

definition example_recovery :: recovery where
  "example_recovery = noRecovery\<lparr>rv_Released := [\<lparr>xo_Order = \<lparr>rel_QuantityScale = 0, rel_AccountID = ''U1'', rel_PlanID = ''p1'', rel_Tag = ''d1'',
     rel_ClientOrderID = ''c1'', rel_InstrumentID = ''AAA'', rel_Side = OrderSideSell, rel_Quantity = 40, rel_LimitPrice = Fin 50, rel_Mode = TradingModePaper,
     rel_Send = True, rel_Figures = noFigures\<rparr>, xo_Fills = [example_fill], xo_Ended = 0, xo_VenueOrderID = ''v1''\<rparr>]\<rparr>"

theorem RestoreRecovery_applies_all_witness:
  "\<exists>h. RestoreRecovery example_gate example_recovery = Inr h \<and> FillsOf h ''c1'' = [example_fill]"
proof -
  have "case RestoreRecovery example_gate example_recovery of Inl _ \<Rightarrow> False | Inr _ \<Rightarrow> True" by code_simp
  then obtain h where h: "RestoreRecovery example_gate example_recovery = Inr h" by (auto split: sum.splits)
  have "recovery_orders example_recovery = rv_Released example_recovery" by (simp add: recovery_orders_def example_recovery_def noRecovery_def)
  with RestoreRecovery_applies_all [OF h] h show ?thesis by (simp add: example_recovery_def)
qed

text \<open>A difference of ten dollars found on 30 March 2026 and still unread on 8 April, five closes later.\<close>

definition example_pending :: pending_cash where
  "example_pending = \<lparr>pc_inputID = ''i1'', pc_result = \<lparr>rr_QuantityScale = 0, rr_AccountID = ''U1'', rr_ReconciliationID = ''r1'', rr_InputID = ''i1'', rr_AnchorID = ''s1'',
       rr_Classification = ReconciliationPendingCashRead, rr_Action = ReconciliationActionAlert, rr_CashCompared = True, rr_Currency = ''USD'', rr_Components = [],
       rr_Unverifiable = [], rr_ScopeInstrumentIDs = [], rr_ScopeCashComponents = [], rr_Detail = NoReconDetail, rr_RepeatOf = ''''\<rparr>,
     pc_cash = noComponent\<lparr>rc_Component := ReconciliationComponentCash, rc_Residual := 1000\<rparr>, pc_from = nyDate (civil 2026 3 27) 17,
     pc_to = nyDate (civil 2026 3 30) 18, pc_counted = {}, pc_transfers = {}, pc_alerted = False, pc_repeats = []\<rparr>"

definition example_reading :: reconciliation_payload where
  "example_reading = \<lparr>rp_QuantityScale = 0, rp_AccountID = ''U1'', rp_ReconciliationID = ''r2'', rp_Trigger = ReconciliationTriggerMorning,
     rp_AsOf = nyDate (civil 2026 4 8) 9, rp_Unreadable = [], rp_Positions = Some [], rp_TotalCash = Fin 0, rp_Currency = ''USD''\<rparr>"

theorem pending_cash_decided_witness:
  "\<exists>h rec v. Reconcile_gate (example_gate\<lparr>g_pendingCash := [example_pending]\<rparr>) ''i2'' example_reading = Inr (h, rec) \<and>
     v \<in> set (rn_Settled rec) \<and> decided_by h example_pending v"
proof -
  let ?g = "example_gate\<lparr>g_pendingCash := [example_pending]\<rparr>"
  have o: "overdue (rp_AsOf example_reading) example_pending" by code_simp
  have "reconErrs ?g ''i2'' example_reading = []" by code_simp
  then obtain h rec where r: "Reconcile_gate ?g ''i2'' example_reading = Inr (h, rec)"
    by (cases "Reconcile_gate ?g ''i2'' example_reading") (auto simp: Reconcile_gate_def Let_def split_beta)
  show ?thesis using pending_cash_decided [OF r] o r by fastforce
qed


text \<open>The halted account's exit is fired: 100 AAA at 50 is worth 5,000 of 100,000, so a target of two percent keeps 40.\<close>

definition example_sale_input :: sale_input where
  "example_sale_input = \<lparr>si_AccountID = ''U1'', si_Tag = ''engine-state:U1:c1'', si_InstrumentID = ''AAA'', si_Kind = SaleKindIncident,
     si_Trigger = SaleTriggerExit, si_Target = f_lit (1/50), si_PriceBand = f_lit (1/50), si_SnapshotID = ''s1'',
     si_Snapshot = Some example_snapshot, si_Recognised = {}, si_WorkingSells = 0, si_At = example_time + second_ns,
     si_MaxSnapshotAge = 5 * MinuteDuration, si_Retired = 0\<rparr>"

lemma example_sale_plans: "\<exists>p. PlanSale example_sale_input = Inr (SaleOrder p)"
proof -
  have k: "KeepShares (f_lit (1/50)) (Fin 100000) (Fin 50) = Fin 40" by code_simp
  have v: "SaleInput_validate example_sale_input = []" by code_simp
  have st: "StaleDetail ''s1'' example_time (example_time + second_ns) (5 * MinuteDuration) = None" by code_simp
  have z: "sub64 100 40 = 60" "sub64 100 0 = 100" "sub64 60 0 = 60" "sub64 100 0 = 100" by code_simp+
  show ?thesis unfolding PlanSale_def v joinErrs_Nil
    by (simp add: example_sale_input_def example_snapshot_def sale_components_def BrokerReadable_def st PlanSale_sized_def
        BrokerSnapshot_Position_def unknownWorkingSell_def k f_of_int_max64 sale_sizing_def z Let_def)
qed

lemma example_sale_desk:
  "(let g = foldl deliver example_gate example_broken in
     (g_state g, saleTag g SaleTriggerExit ''AAA'', g_ira g, g_attempts g ''engine-state:U1:c1'', (g_accountID g, g_brokerID g),
      g_retiredSales g (saleKey ''engine-state:U1:c1'' ''AAA''), g_released g = {}, brokerHolding g ''AAA'', g_maxSnapshotAge g)) =
   (StateHalted, (''engine-state:U1:c1'', SaleKindIncident), False, None, (''U1'', ''s1''), 0, True, Some (100, 0), 5 * MinuteDuration)"
  by code_simp

lemma example_sale:
  "\<exists>h p. Sale (foldl deliver example_gate example_broken) SaleTriggerExit ''AAA'' (example_time + second_ns) (f_lit (1/50)) (f_lit (1/50)) = Inr (h, Some (SaleOrder p))"
proof -
  let ?g = "foldl deliver example_gate example_broken"
  have g: "saleTag ?g SaleTriggerExit ''AAA'' = (''engine-state:U1:c1'', SaleKindIncident)" "\<not> g_ira ?g" "g_attempts ?g ''engine-state:U1:c1'' = None"
    "g_accountID ?g = ''U1''" "g_brokerID ?g = ''s1''" "g_retiredSales ?g (saleKey ''engine-state:U1:c1'' ''AAA'') = 0" "g_released ?g = {}"
    "brokerHolding ?g ''AAA'' = Some (100, 0)" "g_maxSnapshotAge ?g = 5 * MinuteDuration"
    using example_sale_desk by (simp_all add: Let_def)
  have b: "g_broker ?g = Some example_snapshot"
  proof -
    have "case ObserveBroker example_gate ''s1'' example_snapshot of Inl _ \<Rightarrow> False | Inr _ \<Rightarrow> True" by code_simp
    then obtain h y where o: "ObserveBroker example_gate ''s1'' example_snapshot = Inr (h, y)" by (auto split: sum.splits)
    have "desk (deliver h (InCheck book plan)) = desk h" for book plan
      by (simp, rule keptFst_rule [where P = "\<lambda>k. desk k = desk h"]) (auto intro: desk_Check)
    then show ?thesis using desk_ObserveBroker(2) [OF o] o by (simp add: example_broken_def desk_def keptFst_def)
  qed
  have r: "add64 0 0 = 0" by code_simp
  obtain p where p: "PlanSale example_sale_input = Inr (SaleOrder p)" using example_sale_plans by blast
  show ?thesis using p settleSale_order
    by (simp add: Sale_def g b r saleAttemptedFor_def restoredRetired_def example_sale_input_def settleSale_def Let_def split_beta)
qed

lemma settleSale_ira: "g_ira (fst (settleSale g tag trigger i t s)) = g_ira g"
  by (simp add: settleSale_def recordAttempt_def freshCheck_def openStale_def disarm_def Let_def split_beta split: sale.splits option.splits)

lemma Sale_ira: "Sale g trigger i t target band = Inr (h, Some s) \<Longrightarrow> g_ira h = g_ira g"
  by (auto simp: Sale_def Let_def split_beta bindr_eq_Inr settleSale_ira split: if_splits)

theorem Sale_one_attempt_witness:
  "\<exists>h p. Sale (foldl deliver example_gate example_broken) SaleTriggerExit ''AAA'' (example_time + second_ns) (f_lit (1/50)) (f_lit (1/50)) = Inr (h, Some (SaleOrder p)) \<and>
     Sale h SaleTriggerExit ''AAA'' (example_time + second_ns) (f_lit (1/50)) (f_lit (1/50)) \<noteq> Inr (h, Some (SaleOrder p))"
proof -
  let ?g = "foldl deliver example_gate example_broken"
  obtain h p where s: "Sale ?g SaleTriggerExit ''AAA'' (example_time + second_ns) (f_lit (1/50)) (f_lit (1/50)) = Inr (h, Some (SaleOrder p))"
    using example_sale by blast
  have l: "live ?g" using live_example example_broken_halts(2) by blast
  have "saleTag ?g SaleTriggerExit ''AAA'' = (''engine-state:U1:c1'', SaleKindIncident)" "\<not> g_ira ?g" using example_sale_desk by (simp_all add: Let_def)
  moreover from this have "g_incident ?g = ''engine-state:U1:c1''" using example_broken_halts(1) by (simp add: saleTag_def)
  moreover have "core h = core ?g" "g_ira h = g_ira ?g" using core_Sale [OF s] Sale_ira [OF s] by simp_all
  ultimately have "SaleTag h SaleTriggerExit ''AAA'' = op_Tag p" "op_Tag p \<noteq> ''''"
    using Sale_order [OF s] example_broken_halts(1) by (simp_all add: SaleTag_def saleTag_def core_def)
  then show ?thesis using Sale_one_attempt [OF l s, of "[]"] s by simp
qed

end
