(* ===== verification/Indicator.thy ===== *)
theory Indicator
  imports Float64
begin

text \<open>
  The accumulators of \<open>src/internal/indicator\<close>: True Range, the Wilder average N, the Entry and
  Exit Channels, the rolling window, Strength and the median dollar volume. Each accumulator is
  the record of its Go struct with one function per method; a method that mutates its receiver
  returns the new record. The ring buffers implement one contract, the locale \<open>window\<close>: what they
  hold is the last values fed to them, in order.
\<close>

section \<open>True Range (truerange.go)\<close>

definition TrueRange :: "f64 \<Rightarrow> f64 \<Rightarrow> f64 \<Rightarrow> bool \<Rightarrow> f64" where
  "TrueRange high low previousClose hasPreviousClose =
     (if \<not> hasPreviousClose then f_sub high low
      else f_max (f_sub high low) (f_max (f_sub high previousClose) (f_sub previousClose low)))"

section \<open>Channels (channel.go, exitchannel.go)\<close>

record channel =
  ch_length :: nat
  ch_values :: "f64 list"
  ch_count :: nat

definition NewEntryChannel :: "int \<Rightarrow> (string, channel) result" where
  "NewEntryChannel len = (if len \<le> 0 then Inl ''entry channel length must be positive''
     else Inr \<lparr>ch_length = nat len, ch_values = replicate (nat len) (Fin 0), ch_count = 0\<rparr>)"

definition EntryChannel_Extreme :: "channel \<Rightarrow> f64 \<times> bool" where
  "EntryChannel_Extreme c =
     (if ch_count c = 0 then (Fin 0, False)
      else let n = (if ch_count c > ch_length c then ch_length c else ch_count c);
               highest = foldl (\<lambda>h i. if f_lt h (ch_values c ! i) then ch_values c ! i else h)
                           (ch_values c ! 0) [1..<n]
           in (highest, ch_count c \<ge> ch_length c))"

definition EntryChannel_Add :: "channel \<Rightarrow> f64 \<Rightarrow> channel" where
  "EntryChannel_Add c high =
     c\<lparr>ch_values := (ch_values c)[ch_count c mod ch_length c := high], ch_count := ch_count c + 1\<rparr>"

definition NewExitChannel :: "int \<Rightarrow> (string, channel) result" where
  "NewExitChannel len = (if len \<le> 0 then Inl ''exit channel length must be positive''
     else Inr \<lparr>ch_length = nat len, ch_values = replicate (nat len) (Fin 0), ch_count = 0\<rparr>)"

definition ExitChannel_Extreme :: "channel \<Rightarrow> f64 \<times> bool" where
  "ExitChannel_Extreme c =
     (if ch_count c = 0 then (Fin 0, False)
      else let n = (if ch_count c > ch_length c then ch_length c else ch_count c);
               lowest = foldl (\<lambda>l i. if f_lt (ch_values c ! i) l then ch_values c ! i else l)
                          (ch_values c ! 0) [1..<n]
           in (lowest, ch_count c \<ge> ch_length c))"

definition ExitChannel_Add :: "channel \<Rightarrow> f64 \<Rightarrow> channel" where
  "ExitChannel_Add c low =
     c\<lparr>ch_values := (ch_values c)[ch_count c mod ch_length c := low], ch_count := ch_count c + 1\<rparr>"

section \<open>The Wilder average (wilder.go)\<close>

definition DefaultPeriod :: int where
  "DefaultPeriod = 20"

definition SMASeed :: "f64 list \<Rightarrow> f64" where
  "SMASeed values = f_div (foldl f_add (Fin 0) values) (f_of_int (int (length values)))"

definition WilderNext :: "f64 \<Rightarrow> f64 \<Rightarrow> nat \<Rightarrow> f64" where
  "WilderNext previousN tr period =
     f_div (f_add (f_mul (f_of_int (int period - 1)) previousN) tr) (f_of_int (int period))"

record wilder_average =
  w_period :: nat
  w_seed :: "f64 list"
  w_count :: nat
  w_value :: f64

definition NewWilderAverage :: "int \<Rightarrow> (string, wilder_average) result" where
  "NewWilderAverage period = (if period \<le> 0 then Inl ''period must be positive''
     else Inr \<lparr>w_period = nat period, w_seed = [], w_count = 0, w_value = Fin 0\<rparr>)"

definition WilderAverage_Add :: "wilder_average \<Rightarrow> f64 \<Rightarrow> wilder_average" where
  "WilderAverage_Add w tr =
     (let w = w\<lparr>w_count := w_count w + 1\<rparr> in
      if w_count w < w_period w then w\<lparr>w_seed := w_seed w @ [tr]\<rparr>
      else if w_count w = w_period w then w\<lparr>w_value := SMASeed (w_seed w @ [tr]), w_seed := []\<rparr>
      else w\<lparr>w_value := WilderNext (w_value w) tr (w_period w)\<rparr>)"

definition WilderAverage_Ready :: "wilder_average \<Rightarrow> bool" where
  "WilderAverage_Ready w \<longleftrightarrow> w_count w \<ge> w_period w"

definition WilderAverage_Value :: "wilder_average \<Rightarrow> f64" where
  "WilderAverage_Value w = w_value w"

section \<open>The rolling window, Strength and dollar volume (strength.go)\<close>

record rolling_window =
  rw_capacity :: nat
  rw_values :: "f64 list"
  rw_count :: nat

definition NewRollingWindow :: "int \<Rightarrow> (string, rolling_window) result" where
  "NewRollingWindow capacity = (if capacity \<le> 0 then Inl ''rolling window capacity must be positive''
     else Inr \<lparr>rw_capacity = nat capacity, rw_values = [], rw_count = 0\<rparr>)"

definition RollingWindow_Add :: "rolling_window \<Rightarrow> f64 \<Rightarrow> rolling_window" where
  "RollingWindow_Add w v =
     (if length (rw_values w) < rw_capacity w
      then w\<lparr>rw_values := rw_values w @ [v], rw_count := rw_count w + 1\<rparr>
      else w\<lparr>rw_values := (rw_values w)[rw_count w mod rw_capacity w := v], rw_count := rw_count w + 1\<rparr>)"

definition RollingWindow_Full :: "rolling_window \<Rightarrow> bool" where
  "RollingWindow_Full w \<longleftrightarrow> rw_count w \<ge> rw_capacity w"

definition RollingWindow_Values :: "rolling_window \<Rightarrow> f64 list" where
  "RollingWindow_Values w =
     (if length (rw_values w) < rw_capacity w then rw_values w
      else map (\<lambda>i. rw_values w ! ((rw_count w + i) mod rw_capacity w)) [0..<rw_capacity w])"

definition StrengthLookbackBars :: nat where
  "StrengthLookbackBars = 63"

definition Strength :: "f64 list \<Rightarrow> f64 \<Rightarrow> f64 \<times> bool" where
  "Strength closes n =
     (if length closes < StrengthLookbackBars + 1 then (Fin 0, False)
      else let i = length closes - 1
           in (f_div (f_sub (closes ! i) (closes ! (i - StrengthLookbackBars))) n, True))"

definition DollarVolumeWindow :: nat where
  "DollarVolumeWindow = 20"

definition medianOf :: "f64 list \<Rightarrow> f64" where
  "medianOf values =
     (let srt = sort values; mid = length srt div 2 in
      if length srt mod 2 = 1 then srt ! mid else f_div (f_add (srt ! (mid - 1)) (srt ! mid)) (Fin 2))"

text \<open>A length mismatch panics in the source: the error branch.\<close>

definition MedianDollarVolume :: "f64 list \<Rightarrow> f64 list \<Rightarrow> (string, f64 \<times> bool) result" where
  "MedianDollarVolume closes volumes =
     (if length closes \<noteq> length volumes then Inl ''the two windows must be fed in lockstep''
      else if length closes < DollarVolumeWindow then Inr (Fin 0, False)
      else let start = length closes - DollarVolumeWindow;
               dollarVolumes = map (\<lambda>i. f_mul (closes ! (start + i)) (volumes ! (start + i)))
                                 [0..<DollarVolumeWindow]
           in Inr (medianOf dollarVolumes, True))"

section \<open>The window contract\<close>

definition last_n :: "nat \<Rightarrow> 'a list \<Rightarrow> 'a list" where
  "last_n k xs = drop (length xs - k) xs"

lemma length_last_n [simp]: "length (last_n k xs) = min k (length xs)"
  by (simp add: last_n_def)

lemma set_last_n: "set (last_n k xs) \<subseteq> set xs"
  unfolding last_n_def by (rule set_drop_subset)

lemma last_n_all [simp]: "length xs \<le> k \<Longrightarrow> last_n k xs = xs"
  by (simp add: last_n_def)

lemma last_n_snoc: "0 < k \<Longrightarrow> k \<le> length xs \<Longrightarrow> last_n k (xs @ [v]) = tl (last_n k xs) @ [v]"
  by (simp add: last_n_def Suc_diff_le drop_Suc tl_drop)

lemma last_n_last_n: "last_n k (last_n k xs @ ys) = last_n k (xs @ ys)"
proof (cases "length xs \<le> k")
  case False
  then have "drop (length (last_n k xs @ ys) - k) (last_n k xs @ ys) = drop (length (xs @ ys) - k) (xs @ ys)"
    by (simp add: last_n_def) (metis add.commute diff_diff_cancel nat_le_linear drop_drop)
  then show ?thesis by (simp add: last_n_def)
qed simp

locale window =
  fixes cap :: "'s \<Rightarrow> nat"
    and inv :: "'s \<Rightarrow> bool"
    and holds :: "'s \<Rightarrow> 'a list"
    and add :: "'s \<Rightarrow> 'a \<Rightarrow> 's"
  assumes inv_add: "inv w \<Longrightarrow> inv (add w v)"
    and cap_add: "inv w \<Longrightarrow> cap (add w v) = cap w"
    and holds_add: "inv w \<Longrightarrow> holds (add w v) = last_n (cap w) (holds w @ [v])"
begin

lemma feed_inv: "inv w \<Longrightarrow> inv (foldl add w vs) \<and> cap (foldl add w vs) = cap w"
  by (induction vs arbitrary: w) (auto simp: inv_add cap_add)

lemma feed_holds: "inv w \<Longrightarrow> holds w = [] \<Longrightarrow> holds (foldl add w vs) = last_n (cap w) vs"
proof (induction vs rule: rev_induct)
  case (snoc v vs)
  from feed_inv [OF snoc.prems(1), of vs] snoc show ?case
    by (simp add: holds_add last_n_last_n)
qed (simp add: last_n_def)

end

section \<open>The ring buffers keep the contract\<close>

definition ring_holds :: "nat \<Rightarrow> nat \<Rightarrow> 'a list \<Rightarrow> 'a list" where
  "ring_holds len cnt vals =
     (if cnt < len then take cnt vals
      else drop (cnt mod len) vals @ take (cnt mod len) vals)"

lemma ring_holds_add_filling:
  assumes "cnt < len" and "length vals = len"
  shows "ring_holds len (cnt + 1) (vals[cnt mod len := v]) = last_n len (ring_holds len cnt vals @ [v])"
proof -
  have t: "take (Suc cnt) (vals[cnt := v]) = take cnt vals @ [v]"
    using assms by (simp add: take_Suc_conv_app_nth)
  show ?thesis
  proof (cases "Suc cnt = len")
    case True
    have "vals[cnt := v] = take (Suc cnt) (vals[cnt := v])" using assms True by simp
    then show ?thesis using assms True t by (simp add: ring_holds_def)
  next
    case False
    then show ?thesis using assms t by (simp add: ring_holds_def)
  qed
qed

lemma ring_holds_add_full:
  assumes "len \<le> cnt" and "0 < len" and "length vals = len"
  shows "ring_holds len (cnt + 1) (vals[cnt mod len := v]) = last_n len (ring_holds len cnt vals @ [v])"
proof -
  define p where "p = cnt mod len"
  have p: "p < len" using assms by (simp add: p_def)
  have s: "(cnt + 1) mod len = (if Suc p = len then 0 else Suc p)"
    using p by (simp add: p_def mod_Suc)
  have h: "ring_holds len cnt vals = drop p vals @ take p vals" using assms by (simp add: ring_holds_def p_def)
  have "last_n len (ring_holds len cnt vals @ [v]) = tl (drop p vals @ take p vals) @ [v]"
    using assms p by (subst last_n_snoc) (auto simp: h)
  also have "\<dots> = drop (Suc p) vals @ take p vals @ [v]"
    using p assms by (simp add: tl_append2 drop_Suc tl_drop)
  also have "\<dots> = ring_holds len (cnt + 1) (vals[p := v])"
  proof (cases "Suc p = len")
    case True
    have "vals[p := v] = take p vals @ [v]" using True p assms
      by (simp add: list_update_append1 upd_conv_take_nth_drop)
    then show ?thesis using True assms s by (simp add: ring_holds_def)
  next
    case False
    have "take (Suc p) (vals[p := v]) = take p vals @ [v]" using p assms by (simp add: take_Suc_conv_app_nth)
    moreover have "drop (Suc p) (vals[p := v]) = drop (Suc p) vals" by simp
    ultimately show ?thesis using False assms s by (simp add: ring_holds_def)
  qed
  finally show ?thesis by (simp add: p_def)
qed

lemma ring_holds_add:
  "0 < len \<Longrightarrow> length vals = len \<Longrightarrow>
     ring_holds len (cnt + 1) (vals[cnt mod len := v]) = last_n len (ring_holds len cnt vals @ [v])"
  using ring_holds_add_filling [of cnt len vals v] ring_holds_add_full [of len cnt vals v] by linarith

lemma set_ring_holds: "length vals = len \<Longrightarrow> set (ring_holds len cnt vals) = set (take (min cnt len) vals)"
  by (auto simp: ring_holds_def min_def dest: in_set_takeD in_set_dropD)
    (metis UnE append_take_drop_id set_append)

definition channel_inv :: "channel \<Rightarrow> bool" where
  "channel_inv c \<longleftrightarrow> 0 < ch_length c \<and> length (ch_values c) = ch_length c"

definition channel_holds :: "channel \<Rightarrow> f64 list" where
  "channel_holds c = ring_holds (ch_length c) (ch_count c) (ch_values c)"

definition rolling_inv :: "rolling_window \<Rightarrow> bool" where
  "rolling_inv w \<longleftrightarrow> 0 < rw_capacity w \<and> length (rw_values w) = min (rw_count w) (rw_capacity w)"

interpretation entry: window ch_length channel_inv channel_holds EntryChannel_Add
  by unfold_locales
    (simp_all add: channel_inv_def channel_holds_def EntryChannel_Add_def ring_holds_add del: One_nat_def add_Suc_right)

interpretation exit: window ch_length channel_inv channel_holds ExitChannel_Add
  by unfold_locales
    (simp_all add: channel_inv_def channel_holds_def ExitChannel_Add_def ring_holds_add del: One_nat_def add_Suc_right)

lemma nth_rotated:
  assumes "p < length vals" and "i < length vals"
  shows "(drop p vals @ take p vals) ! i = vals ! ((p + i) mod length vals)"
proof (cases "p + i < length vals")
  case True
  then show ?thesis using assms by (auto simp: nth_append)
next
  case False
  then have "(p + i) mod length vals = i - (length vals - p)" using assms
    by (simp add: mod_if add.commute)
  moreover have "\<not> i < length vals - p" using False by linarith
  ultimately show ?thesis using assms False by (simp add: nth_append)
qed

lemma RollingWindow_Values_ring:
  assumes "rolling_inv w"
  shows "RollingWindow_Values w = ring_holds (rw_capacity w) (rw_count w) (rw_values w)"
proof (cases "rw_count w < rw_capacity w")
  case True
  with assms show ?thesis by (simp add: RollingWindow_Values_def ring_holds_def rolling_inv_def)
next
  case False
  let ?n = "rw_capacity w" and ?v = "rw_values w"
  have l: "length ?v = ?n" "0 < ?n" using assms False by (auto simp: rolling_inv_def)
  have "map (\<lambda>i. ?v ! ((rw_count w + i) mod ?n)) [0..<?n] = drop (rw_count w mod ?n) ?v @ take (rw_count w mod ?n) ?v"
  proof (rule nth_equalityI)
    fix i assume "i < length (map (\<lambda>i. ?v ! ((rw_count w + i) mod ?n)) [0..<?n])"
    then have i: "i < ?n" by simp
    then show "map (\<lambda>i. ?v ! ((rw_count w + i) mod ?n)) [0..<?n] ! i
        = (drop (rw_count w mod ?n) ?v @ take (rw_count w mod ?n) ?v) ! i"
      using nth_rotated [of "rw_count w mod ?n" ?v i] l by (simp add: mod_add_left_eq)
  qed (use l in simp)
  then show ?thesis using False l by (simp add: RollingWindow_Values_def ring_holds_def)
qed

lemma rolling_inv_add: "rolling_inv w \<Longrightarrow> rolling_inv (RollingWindow_Add w v)"
  by (auto simp: rolling_inv_def RollingWindow_Add_def)

lemma RollingWindow_Values_add:
  assumes "rolling_inv w"
  shows "RollingWindow_Values (RollingWindow_Add w v) = last_n (rw_capacity w) (RollingWindow_Values w @ [v])"
proof (cases "rw_count w < rw_capacity w")
  case True
  then have l: "length (rw_values w) = rw_count w" using assms by (simp add: rolling_inv_def)
  have e: "ring_holds n (Suc k) vs = vs" if "length vs = Suc k" "Suc k \<le> n" for n k and vs :: "f64 list"
    using that by (cases "Suc k = n") (auto simp: ring_holds_def)
  show ?thesis using True l
    unfolding RollingWindow_Values_ring [OF assms] RollingWindow_Values_ring [OF rolling_inv_add [OF assms]]
    by (simp add: RollingWindow_Add_def e) (simp add: ring_holds_def)
next
  case False
  then have l: "length (rw_values w) = rw_capacity w" "0 < rw_capacity w"
    using assms by (auto simp: rolling_inv_def)
  show ?thesis
    unfolding RollingWindow_Values_ring [OF assms] RollingWindow_Values_ring [OF rolling_inv_add [OF assms]]
    using ring_holds_add [OF l(2) l(1)] l by (simp add: RollingWindow_Add_def)
qed

interpretation rolling: window rw_capacity rolling_inv RollingWindow_Values RollingWindow_Add
  by unfold_locales (simp_all add: rolling_inv_add RollingWindow_Values_add, simp add: RollingWindow_Add_def)

section \<open>Extremes\<close>

lemma foldl_nth_upt: "0 < n \<Longrightarrow> n \<le> length xs \<Longrightarrow> foldl (\<lambda>h i. f h (xs ! i)) (xs ! 0) [1..<n] = foldl f (hd xs) (tl (take n xs))"
proof -
  assume n: "0 < n" "n \<le> length xs"
  have "map ((!) xs) [1..<n] = tl (take n xs)"
    using n by (intro nth_equalityI) (auto simp: nth_tl)
  then have "foldl f (xs ! 0) (tl (take n xs)) = foldl (\<lambda>h i. f h (xs ! i)) (xs ! 0) [1..<n]"
    by (metis foldl_map)
  moreover have "hd xs = xs ! 0" using n by (intro hd_conv_nth) auto
  ultimately show ?thesis by simp
qed

lemma foldl_Max:
  assumes "h \<noteq> NaN" and "NaN \<notin> set xs"
  shows "foldl (\<lambda>h v. if f_lt h v then v else h) h xs = Max (set (h # xs))"
  using assms
proof (induction xs arbitrary: h)
  case (Cons v xs)
  have "(if f_lt h v then v else h) = max h v"
    using f_lt_less [of h v] Cons.prems by (auto simp: max_def)
  moreover have "max h v \<noteq> NaN" using Cons.prems by (auto simp: max_def)
  ultimately have "foldl (\<lambda>h v. if f_lt h v then v else h) h (v # xs) = Max (insert (max h v) (set xs))"
    using Cons by simp
  also have "\<dots> = Max (set (h # v # xs))" by (cases "xs = []") (simp_all add: max.assoc)
  finally show ?case .
qed simp

lemma foldl_Min:
  assumes "h \<noteq> NaN" and "NaN \<notin> set xs"
  shows "foldl (\<lambda>h v. if f_lt v h then v else h) h xs = Min (set (h # xs))"
  using assms
proof (induction xs arbitrary: h)
  case (Cons v xs)
  have "(if f_lt v h then v else h) = min h v"
    using f_lt_less [of v h] Cons.prems by (auto simp: min_def)
  moreover have "min h v \<noteq> NaN" using Cons.prems by (auto simp: min_def)
  ultimately have "foldl (\<lambda>h v. if f_lt v h then v else h) h (v # xs) = Min (insert (min h v) (set xs))"
    using Cons by simp
  also have "\<dots> = Min (set (h # v # xs))" by (cases "xs = []") (simp_all add: min.assoc)
  finally show ?case .
qed simp

lemma channel_window_set:
  assumes "channel_inv c" and "0 < ch_count c"
  shows "set (hd (ch_values c) # tl (take (min (ch_count c) (ch_length c)) (ch_values c))) = set (channel_holds c)"
    and "channel_holds c \<noteq> []"
proof -
  let ?n = "min (ch_count c) (ch_length c)"
  have n: "0 < ?n" "?n \<le> length (ch_values c)" using assms by (auto simp: channel_inv_def)
  then have "take ?n (ch_values c) \<noteq> []" by auto
  moreover have "hd (take ?n (ch_values c)) = hd (ch_values c)" using n by (simp add: hd_take)
  ultimately have e: "hd (ch_values c) # tl (take ?n (ch_values c)) = take ?n (ch_values c)"
    by (metis list.collapse)
  have "set (channel_holds c) = set (take ?n (ch_values c))"
    using assms unfolding channel_holds_def by (intro set_ring_holds) (simp add: channel_inv_def)
  then show s: "set (hd (ch_values c) # tl (take ?n (ch_values c))) = set (channel_holds c)" using e by simp
  then show "channel_holds c \<noteq> []" by (metis list.set_intros(1) set_empty2 list.set(1) empty_iff)
qed

lemma EntryChannel_Extreme_Max:
  assumes "channel_inv c" and "0 < ch_count c" and "NaN \<notin> set (channel_holds c)"
  shows "EntryChannel_Extreme c = (Max (set (channel_holds c)), ch_length c \<le> ch_count c)"
proof -
  let ?n = "min (ch_count c) (ch_length c)"
  have n: "0 < ?n" "?n \<le> length (ch_values c)" using assms by (auto simp: channel_inv_def)
  note w = channel_window_set [OF assms(1,2)]
  let ?t = "tl (take ?n (ch_values c))"
  have nn: "hd (ch_values c) \<noteq> NaN" "NaN \<notin> set ?t" using assms(3) unfolding w(1) [symmetric] by auto
  have "foldl (\<lambda>h v. if f_lt h v then v else h) (hd (ch_values c)) ?t = Max (set (channel_holds c))"
    unfolding foldl_Max [OF nn] w(1) ..
  then have "foldl (\<lambda>h i. if f_lt h (ch_values c ! i) then ch_values c ! i else h) (ch_values c ! 0) [1..<?n]
      = Max (set (channel_holds c))"
    unfolding foldl_nth_upt [OF n, where f = "\<lambda>h v. if f_lt h v then v else h"] .
  then show ?thesis using assms(2) by (auto simp: EntryChannel_Extreme_def min_def not_less split: if_splits)
qed

lemma ExitChannel_Extreme_Min:
  assumes "channel_inv c" and "0 < ch_count c" and "NaN \<notin> set (channel_holds c)"
  shows "ExitChannel_Extreme c = (Min (set (channel_holds c)), ch_length c \<le> ch_count c)"
proof -
  let ?n = "min (ch_count c) (ch_length c)"
  have n: "0 < ?n" "?n \<le> length (ch_values c)" using assms by (auto simp: channel_inv_def)
  note w = channel_window_set [OF assms(1,2)]
  let ?t = "tl (take ?n (ch_values c))"
  have nn: "hd (ch_values c) \<noteq> NaN" "NaN \<notin> set ?t" using assms(3) unfolding w(1) [symmetric] by auto
  have "foldl (\<lambda>h v. if f_lt v h then v else h) (hd (ch_values c)) ?t = Min (set (channel_holds c))"
    unfolding foldl_Min [OF nn] w(1) ..
  then have "foldl (\<lambda>h i. if f_lt (ch_values c ! i) h then ch_values c ! i else h) (ch_values c ! 0) [1..<?n]
      = Min (set (channel_holds c))"
    unfolding foldl_nth_upt [OF n, where f = "\<lambda>h v. if f_lt v h then v else h"] .
  then show ?thesis using assms(2) by (auto simp: ExitChannel_Extreme_def min_def not_less split: if_splits)
qed

section \<open>N\<close>

definition wilder_spec :: "nat \<Rightarrow> f64 list \<Rightarrow> f64" where
  "wilder_spec period trs =
     (if length trs < period then Fin 0
      else foldl (\<lambda>n tr. WilderNext n tr period) (SMASeed (take period trs)) (drop period trs))"

lemma wilder_feed:
  assumes "NewWilderAverage period = Inr w"
  shows "foldl WilderAverage_Add w trs =
    \<lparr>w_period = nat period, w_seed = (if length trs < nat period then trs else []),
     w_count = length trs, w_value = wilder_spec (nat period) trs\<rparr>"
proof (induction trs rule: rev_induct)
  case Nil
  with assms show ?case by (auto simp: NewWilderAverage_def wilder_spec_def split: if_splits)
next
  case (snoc tr trs)
  have p: "0 < nat period" using assms by (auto simp: NewWilderAverage_def split: if_splits)
  consider "length trs + 1 < nat period" | "length trs + 1 = nat period" | "nat period \<le> length trs"
    by linarith
  then show ?case
    using snoc p by cases (simp_all add: WilderAverage_Add_def wilder_spec_def Let_def)
qed

lemma SMASeed_nonneg:
  assumes "vs \<noteq> []" and "length vs \<le> 2 ^ 53" and "\<And>v. v \<in> set vs \<Longrightarrow> f_nonneg v"
  shows "f_nonneg (SMASeed vs)"
proof -
  have "f_of_int (int (length vs)) = Fin (of_int (int (length vs)))"
    using assms(2) by (intro f_of_int_small) simp
  then show ?thesis unfolding SMASeed_def using assms
    by (auto intro!: f_nonneg_div_Fin f_nonneg_foldl_add)
qed

lemma WilderNext_nonneg:
  assumes "0 < p" and "p \<le> 2 ^ 53" and "f_nonneg n" and "isFinite n" and "f_nonneg tr"
  shows "f_nonneg (WilderNext n tr p)"
proof -
  have b: "\<bar>int p\<bar> \<le> 2 ^ 53" "\<bar>int p - 1\<bar> \<le> 2 ^ 53" using assms(1,2) by auto
  note i = b [THEN f_of_int_small]
  from assms(4) obtain r where r: "n = Fin r" by (auto simp: isFinite_iff)
  have "f_nonneg (f_mul (Fin (of_int (int p - 1))) n)"
    using assms(1,3) unfolding r by (intro f_nonneg_mul) auto
  then show ?thesis unfolding WilderNext_def i using assms(1,5)
    by (intro f_nonneg_div_Fin f_nonneg_add) auto
qed

section \<open>The median\<close>

lemma medianOf_between:
  assumes "vs \<noteq> []" and "\<And>v. v \<in> set vs \<Longrightarrow> isFinite v \<and> is_f64 v"
    and "isFinite (medianOf vs)" and "length vs mod 2 = 0 \<Longrightarrow> isFinite (f_add (sort vs ! (length vs div 2 - 1)) (sort vs ! (length vs div 2)))"
  shows "Min (set vs) \<le> medianOf vs \<and> medianOf vs \<le> Max (set vs)"
proof -
  let ?s = "sort vs" and ?m = "length vs div 2"
  have m: "?m < length ?s" using assms(1) by simp
  have mem: "?s ! i \<in> set vs" if "i < length vs" for i using that by (metis length_sort nth_mem set_sort)
  have bnd: "Min (set vs) \<le> v \<and> v \<le> Max (set vs)" if "v \<in> set vs" for v using that by simp
  show ?thesis
  proof (cases "length vs mod 2 = 1")
    case True
    then show ?thesis using bnd [OF mem [of ?m]] m by (simp add: medianOf_def)
  next
    case False
    have le: "?s ! (?m - 1) \<le> ?s ! ?m" using m by (intro sorted_nth_mono) auto
    have a: "?s ! (?m - 1) \<in> set vs" "?s ! ?m \<in> set vs" using mem m by auto
    obtain a b where ab: "?s ! (?m - 1) = Fin a" "?s ! ?m = Fin b"
      using assms(2) [OF a(1)] assms(2) [OF a(2)] by (auto simp: isFinite_iff)
    then have ab': "is_f64 (Fin a)" "is_f64 (Fin b)" "a \<le> b" using assms(2) [OF a(1)] assms(2) [OF a(2)] le by auto
    from assms(4) False ab obtain s where s: "f_add (Fin a) (Fin b) = Fin s" by (auto simp: isFinite_iff)
    from mean_between [OF ab' s] obtain m' where "f_div (Fin s) (Fin 2) = Fin m'" "a \<le> m'" "m' \<le> b" by blast
    moreover have "medianOf vs = f_div (f_add (Fin a) (Fin b)) (Fin 2)" using False ab by (simp add: medianOf_def Let_def)
    ultimately have "medianOf vs = Fin m'" "Fin a \<le> Fin m'" "Fin m' \<le> Fin b" using s by simp_all
    then show ?thesis using bnd [OF a(1)] bnd [OF a(2)] unfolding ab by (metis order.trans)
  qed
qed

section \<open>Properties\<close>

lemma NewEntryChannel_empty:
  "NewEntryChannel len = Inr c \<Longrightarrow> channel_inv c \<and> channel_holds c = [] \<and> ch_length c = nat len \<and> 0 < len \<and> ch_count c = 0"
  by (auto simp: NewEntryChannel_def channel_inv_def channel_holds_def ring_holds_def split: if_splits)

lemma NewExitChannel_empty:
  "NewExitChannel len = Inr c \<Longrightarrow> channel_inv c \<and> channel_holds c = [] \<and> ch_length c = nat len \<and> 0 < len \<and> ch_count c = 0"
  by (auto simp: NewExitChannel_def channel_inv_def channel_holds_def ring_holds_def split: if_splits)

lemma NewRollingWindow_empty:
  "NewRollingWindow n = Inr w \<Longrightarrow> rolling_inv w \<and> RollingWindow_Values w = [] \<and> rw_capacity w = nat n \<and> rw_count w = 0"
  by (auto simp: NewRollingWindow_def rolling_inv_def RollingWindow_Values_def split: if_splits)

lemma feed_counts:
  "ch_count (foldl EntryChannel_Add c xs) = ch_count c + length xs"
  "ch_count (foldl ExitChannel_Add c xs) = ch_count c + length xs"
  "rw_count (foldl RollingWindow_Add w xs) = rw_count w + length xs"
  by (induction xs arbitrary: c w) (auto simp: EntryChannel_Add_def ExitChannel_Add_def RollingWindow_Add_def)

text \<open>after any non-empty run of completed bars the Entry Channel reports the highest high of the
  last \<open>len\<close> of them, and is ready exactly when \<open>len\<close> bars have been fed: the ring buffer is the
  sliding window it stands for, through every wrap-around.\<close>

theorem EntryChannel_highest:
  assumes "NewEntryChannel len = Inr c" and "highs \<noteq> []" and "NaN \<notin> set highs"
  shows "EntryChannel_Extreme (foldl EntryChannel_Add c highs)
       = (Max (set (last_n (nat len) highs)), nat len \<le> length highs)"
proof -
  note e = NewEntryChannel_empty [OF assms(1)]
  then have i: "channel_inv (foldl EntryChannel_Add c highs)" "ch_length (foldl EntryChannel_Add c highs) = nat len"
    and h: "channel_holds (foldl EntryChannel_Add c highs) = last_n (nat len) highs"
    using entry.feed_inv [of c highs] entry.feed_holds [of c highs] by auto
  have cnt: "ch_count (foldl EntryChannel_Add c highs) = length highs" using e by (simp add: feed_counts)
  have pos: "0 < length highs" using assms(2) by simp
  have nan: "NaN \<notin> set (last_n (nat len) highs)" using assms(3) set_last_n [of "nat len" highs] by auto
  show ?thesis by (rule EntryChannel_Extreme_Max [OF i(1), unfolded h i(2) cnt, OF pos nan])
qed

theorem EntryChannel_highest_witness:
  "\<exists>c. NewEntryChannel 2 = Inr c \<and>
     EntryChannel_Extreme (foldl EntryChannel_Add c [Fin 5, Fin 3, Fin 4]) = (Max {Fin 3, Fin 4}, True)"
proof -
  obtain c where c: "NewEntryChannel 2 = Inr c" by (simp add: NewEntryChannel_def)
  from EntryChannel_highest [OF c, of "[Fin 5, Fin 3, Fin 4]"] c show ?thesis
    by (simp add: last_n_def numeral_2_eq_2)
qed

text \<open>After any non-empty run of completed bars the Exit Channel reports the lowest low of the last
  \<open>len\<close> of them, and is ready exactly when \<open>len\<close> bars have been fed.\<close>

theorem ExitChannel_lowest:
  assumes "NewExitChannel len = Inr c" and "lows \<noteq> []" and "NaN \<notin> set lows"
  shows "ExitChannel_Extreme (foldl ExitChannel_Add c lows)
       = (Min (set (last_n (nat len) lows)), nat len \<le> length lows)"
proof -
  note e = NewExitChannel_empty [OF assms(1)]
  then have i: "channel_inv (foldl ExitChannel_Add c lows)" "ch_length (foldl ExitChannel_Add c lows) = nat len"
    and h: "channel_holds (foldl ExitChannel_Add c lows) = last_n (nat len) lows"
    using exit.feed_inv [of c lows] exit.feed_holds [of c lows] by auto
  have cnt: "ch_count (foldl ExitChannel_Add c lows) = length lows" using e by (simp add: feed_counts)
  have pos: "0 < length lows" using assms(2) by simp
  have nan: "NaN \<notin> set (last_n (nat len) lows)" using assms(3) set_last_n [of "nat len" lows] by auto
  show ?thesis by (rule ExitChannel_Extreme_Min [OF i(1), unfolded h i(2) cnt, OF pos nan])
qed

theorem ExitChannel_lowest_witness:
  "\<exists>c. NewExitChannel 2 = Inr c \<and>
     ExitChannel_Extreme (foldl ExitChannel_Add c [Fin 1, Fin 3, Fin 4]) = (Min {Fin 3, Fin 4}, True)"
proof -
  obtain c where c: "NewExitChannel 2 = Inr c" by (simp add: NewExitChannel_def)
  from ExitChannel_lowest [OF c, of "[Fin 1, Fin 3, Fin 4]"] c show ?thesis
    by (simp add: last_n_def numeral_2_eq_2)
qed

text \<open>The rolling window returns, oldest first, exactly the last \<open>n\<close> values fed to it, and is
  full exactly when \<open>n\<close> have been fed.\<close>

theorem RollingWindow_values_last:
  assumes "NewRollingWindow n = Inr w"
  shows "RollingWindow_Values (foldl RollingWindow_Add w vs) = last_n (nat n) vs
       \<and> (RollingWindow_Full (foldl RollingWindow_Add w vs) \<longleftrightarrow> nat n \<le> length vs)"
proof -
  note e = NewRollingWindow_empty [OF assms]
  have "rw_capacity (foldl RollingWindow_Add w vs) = nat n" using rolling.feed_inv [of w vs] e by simp
  then show ?thesis using rolling.feed_holds [of w vs] e by (simp add: RollingWindow_Full_def feed_counts)
qed

theorem RollingWindow_values_last_witness:
  "\<exists>w. NewRollingWindow 2 = Inr w \<and>
     RollingWindow_Values (foldl RollingWindow_Add w [Fin 1, Fin 2, Fin 3]) = [Fin 2, Fin 3]"
proof -
  obtain w where w: "NewRollingWindow 2 = Inr w" by (simp add: NewRollingWindow_def)
  from RollingWindow_values_last [OF w, of "[Fin 1, Fin 2, Fin 3]"] w show ?thesis
    by (simp add: last_n_def numeral_2_eq_2)
qed

text \<open>Fed any list of True Range readings, the accumulator's N is the simple average of the first
  \<open>period\<close> of them followed by the Wilder recursion over the rest, it is zero before the warm-up, and
  it reports ready exactly when \<open>period\<close> readings have been fed.\<close>

theorem WilderAverage_refines:
  assumes "NewWilderAverage period = Inr w"
  shows "WilderAverage_Value (foldl WilderAverage_Add w trs) =
           (if length trs < nat period then Fin 0
            else foldl (\<lambda>n tr. WilderNext n tr (nat period)) (SMASeed (take (nat period) trs))
                   (drop (nat period) trs))
       \<and> (WilderAverage_Ready (foldl WilderAverage_Add w trs) \<longleftrightarrow> nat period \<le> length trs)"
  by (simp add: wilder_feed [OF assms] WilderAverage_Value_def WilderAverage_Ready_def wilder_spec_def)

theorem WilderAverage_refines_witness:
  "\<exists>w. NewWilderAverage 2 = Inr w
     \<and> WilderAverage_Value (foldl WilderAverage_Add w [Fin 2, Fin 4, Fin 5]) = Fin 4"
proof -
  obtain w where w: "NewWilderAverage 2 = Inr w" by (simp add: NewWilderAverage_def)
  have "WilderNext (SMASeed [Fin 2, Fin 4]) (Fin 5) 2 = Fin 4" by code_simp
  with WilderAverage_refines [OF w, of "[Fin 2, Fin 4, Fin 5]"] w show ?thesis
    by (simp add: numeral_2_eq_2)
qed

end
