(* ===== verification/Boost.thy ===== *)
theory Boost
  imports Indicator
begin

text \<open>
  \<open>targetweight/boost\<close>: the Boost rule over adjusted closes. The latch (\<open>Parameters_Next\<close>), the weight it
  asks for (\<open>Parameters_Target\<close>), and the three indicators, each the record of its Go struct with its methods as
  functions that return it updated. A period is an \<open>int\<close> that \<open>NewIndicators\<close> has found to be at least 1, and a
  count of samples no run of sessions brings near to overflowing: both are naturals in the accumulators.
\<close>

section \<open>Parameters and the latch\<close>

record parameters =
  InvestedFraction :: f64
  BoostSize :: f64
  RSIEntry :: f64
  RSIPeriod :: int
  TrendDays :: int
  ExitSMA :: int

record readings =
  r_Close :: f64
  r_RSI :: f64
  r_RSIReady :: bool
  r_TrendMean :: f64
  r_TrendMeanReady :: bool
  r_ExitMean :: f64
  r_ExitMeanReady :: bool

definition Parameters_Next :: "parameters \<Rightarrow> bool \<Rightarrow> readings \<Rightarrow> bool" where
  "Parameters_Next p latched r =
     (if \<not> latched
      then let trendOK = r_TrendMeanReady r \<and> f_lt (r_TrendMean r) (r_Close r)
           in trendOK \<and> r_RSIReady r \<and> f_lt (r_RSI r) (RSIEntry p)
      else \<not> (r_ExitMeanReady r \<and> f_lt (r_ExitMean r) (r_Close r)))"

definition Parameters_Target :: "parameters \<Rightarrow> bool \<Rightarrow> f64" where
  "Parameters_Target p latched =
     (if latched then f_mul (InvestedFraction p) (BoostSize p) else InvestedFraction p)"

section \<open>The simple mean\<close>

record sma =
  sma_window :: "f64 list"
  sma_length :: nat

definition sma_add :: "sma \<Rightarrow> f64 \<Rightarrow> sma" where
  "sma_add s price =
     (let s = (if length (sma_window s) = sma_length s then s\<lparr>sma_window := tl (sma_window s)\<rparr> else s)
      in s\<lparr>sma_window := sma_window s @ [price]\<rparr>)"

definition sma_value :: "sma \<Rightarrow> f64 \<times> bool" where
  "sma_value s =
     (if length (sma_window s) < sma_length s then (Fin 0, False)
      else (f_div (foldl f_add (Fin 0) (sma_window s)) (f_of_int (int (sma_length s))), True))"

section \<open>The Wilder average and the relative strength index\<close>

record wilder =
  wl_period :: nat
  wl_k :: f64
  wl_samples :: nat
  wl_sum :: f64
  wl_value :: f64

definition newWilder :: "nat \<Rightarrow> wilder" where
  "newWilder period = \<lparr>wl_period = period, wl_k = f_div (Fin 1) (f_of_int (int period)), wl_samples = 0,
     wl_sum = Fin 0, wl_value = Fin 0\<rparr>"

definition wilder_add :: "wilder \<Rightarrow> f64 \<Rightarrow> wilder" where
  "wilder_add w x =
     (let w = w\<lparr>wl_samples := wl_samples w + 1\<rparr> in
      if wl_samples w < wl_period w
      then let w = w\<lparr>wl_sum := f_add (wl_sum w) x\<rparr>
           in w\<lparr>wl_value := f_div (wl_sum w) (f_of_int (int (wl_samples w)))\<rparr>
      else w\<lparr>wl_value := f_add (f_mul x (wl_k w)) (f_mul (wl_value w) (f_sub (Fin 1) (wl_k w)))\<rparr>)"

definition wilder_ready :: "wilder \<Rightarrow> bool" where
  "wilder_ready w \<longleftrightarrow> wl_samples w \<ge> wl_period w"

record rsi =
  rsi_gain :: wilder
  rsi_loss :: wilder
  rsi_previous :: f64
  rsi_hasPrev :: bool

definition newRSI :: "nat \<Rightarrow> rsi" where
  "newRSI period = \<lparr>rsi_gain = newWilder period, rsi_loss = newWilder period, rsi_previous = Fin 0, rsi_hasPrev = False\<rparr>"

definition rsi_add :: "rsi \<Rightarrow> f64 \<Rightarrow> rsi" where
  "rsi_add r price =
     (let r = (if rsi_hasPrev r
               then if f_le (rsi_previous r) price
                    then r\<lparr>rsi_gain := wilder_add (rsi_gain r) (f_sub price (rsi_previous r)),
                           rsi_loss := wilder_add (rsi_loss r) (Fin 0)\<rparr>
                    else r\<lparr>rsi_gain := wilder_add (rsi_gain r) (Fin 0),
                           rsi_loss := wilder_add (rsi_loss r) (f_sub (rsi_previous r) price)\<rparr>
               else r)
      in r\<lparr>rsi_previous := price, rsi_hasPrev := True\<rparr>)"

text \<open>\<open>5e-11\<close> is the constant the source compares the loss average with, as a \<open>float64\<close>.\<close>

definition rsi_value :: "rsi \<Rightarrow> f64 \<times> bool" where
  "rsi_value r =
     (if \<not> wilder_ready (rsi_gain r) then (Fin 0, False)
      else if f_le (wl_value (rsi_loss r)) (f_lit (5 / 10 ^ 11)) then (Fin 100, True)
      else (f_sub (Fin 100) (f_div (Fin 100)
              (f_add (Fin 1) (f_div (wl_value (rsi_gain r)) (wl_value (rsi_loss r))))), True))"

section \<open>Boost's indicators\<close>

record indicators =
  ind_rsi :: rsi
  ind_trend :: sma
  ind_exit :: sma

definition NewIndicators :: "parameters \<Rightarrow> (string, indicators) result" where
  "NewIndicators p =
     failIf (RSIPeriod p < 1 \<or> TrendDays p < 1 \<or> ExitSMA p < 1) ''indicator lengths must be at least 1''
       (Inr \<lparr>ind_rsi = newRSI (nat (RSIPeriod p)),
             ind_trend = \<lparr>sma_window = [], sma_length = nat (TrendDays p)\<rparr>,
             ind_exit = \<lparr>sma_window = [], sma_length = nat (ExitSMA p)\<rparr>\<rparr>)"

definition Indicators_Add :: "indicators \<Rightarrow> f64 \<Rightarrow> indicators \<times> readings" where
  "Indicators_Add i price =
     (let i = i\<lparr>ind_rsi := rsi_add (ind_rsi i) price, ind_trend := sma_add (ind_trend i) price,
               ind_exit := sma_add (ind_exit i) price\<rparr>;
          (rs, rsReady) = rsi_value (ind_rsi i);
          (tm, tmReady) = sma_value (ind_trend i);
          (em, emReady) = sma_value (ind_exit i)
      in (i, \<lparr>r_Close = price, r_RSI = rs, r_RSIReady = rsReady, r_TrendMean = tm, r_TrendMeanReady = tmReady,
             r_ExitMean = em, r_ExitMeanReady = emReady\<rparr>))"

section \<open>The means refine their windows\<close>

definition sma_inv :: "sma \<Rightarrow> bool" where
  "sma_inv s \<longleftrightarrow> 0 < sma_length s \<and> length (sma_window s) \<le> sma_length s"

interpretation mean: window sma_length sma_inv sma_window sma_add
proof
  fix s v
  assume i: "sma_inv s"
  show "sma_inv (sma_add s v)" using i by (auto simp: sma_inv_def sma_add_def)
  show "sma_length (sma_add s v) = sma_length s" by (simp add: sma_add_def)
  show "sma_window (sma_add s v) = last_n (sma_length s) (sma_window s @ [v])"
    using i last_n_snoc [of "sma_length s" "sma_window s" v]
    by (cases "length (sma_window s) = sma_length s") (auto simp: sma_inv_def sma_add_def)
qed

lemma sma_feed:
  assumes "0 < n"
  shows "sma_window (foldl sma_add \<lparr>sma_window = [], sma_length = n\<rparr> ps) = last_n n ps"
    and "sma_length (foldl sma_add \<lparr>sma_window = [], sma_length = n\<rparr> ps) = n"
  using assms mean.feed_holds [of "\<lparr>sma_window = [], sma_length = n\<rparr>" ps]
    mean.feed_inv [of "\<lparr>sma_window = [], sma_length = n\<rparr>" ps] by (simp_all add: sma_inv_def)

definition plain_mean :: "f64 list \<Rightarrow> f64" where
  "plain_mean xs = f_div (foldl f_add (Fin 0) xs) (f_of_int (int (length xs)))"

lemma sma_value_feed:
  assumes "0 < n"
  shows "sma_value (foldl sma_add \<lparr>sma_window = [], sma_length = n\<rparr> ps)
       = (if length ps < n then (Fin 0, False) else (plain_mean (last_n n ps), True))"
  by (simp add: sma_value_def sma_feed [OF assms] plain_mean_def min_def)

section \<open>The latch\<close>

text \<open>What engages the latch, and what releases it.\<close>

definition enters :: "parameters \<Rightarrow> readings \<Rightarrow> bool" where
  "enters p r \<longleftrightarrow> r_TrendMeanReady r \<and> f_lt (r_TrendMean r) (r_Close r) \<and> r_RSIReady r \<and> f_lt (r_RSI r) (RSIEntry p)"

definition leaves :: "readings \<Rightarrow> bool" where
  "leaves r \<longleftrightarrow> r_ExitMeanReady r \<and> f_lt (r_ExitMean r) (r_Close r)"

lemma Parameters_Next_cases: "Parameters_Next p latched r \<longleftrightarrow> (if latched then \<not> leaves r else enters p r)"
  by (simp add: Parameters_Next_def enters_def leaves_def)

definition latched_after :: "parameters \<Rightarrow> readings list \<Rightarrow> bool" where
  "latched_after p rs = foldl (Parameters_Next p) False rs"

lemma latched_after_snoc:
  "latched_after p (rs @ [r]) \<longleftrightarrow> (if latched_after p rs then \<not> leaves r else enters p r)"
  by (simp add: latched_after_def Parameters_Next_cases)

text \<open>The session at which the latch last engaged: unlatched before it, and no session since releases it.\<close>

definition latched_at :: "parameters \<Rightarrow> readings list \<Rightarrow> nat \<Rightarrow> bool" where
  "latched_at p rs i \<longleftrightarrow> \<not> latched_after p (take i rs) \<and> enters p (rs ! i) \<and>
     list_all (\<lambda>r. \<not> leaves r) (drop (Suc i) rs)"

lemma latched_at_snoc:
  "i < length rs \<Longrightarrow> latched_at p (rs @ [r]) i \<longleftrightarrow> latched_at p rs i \<and> \<not> leaves r"
  "latched_at p (rs @ [r]) (length rs) \<longleftrightarrow> \<not> latched_after p rs \<and> enters p r"
  by (auto simp: latched_at_def nth_append)

lemma latched_after_iff: "latched_after p rs \<longleftrightarrow> (\<exists>i < length rs. latched_at p rs i)"
proof (induction rs rule: rev_induct)
  case (snoc r rs)
  have "(\<exists>i < length (rs @ [r]). latched_at p (rs @ [r]) i) \<longleftrightarrow>
      (\<exists>i < length rs. latched_at p (rs @ [r]) i) \<or> latched_at p (rs @ [r]) (length rs)"
    by (auto simp: less_Suc_eq)
  also have "\<dots> \<longleftrightarrow> (\<exists>i < length rs. latched_at p rs i) \<and> \<not> leaves r \<or> \<not> latched_after p rs \<and> enters p r"
    by (auto simp: latched_at_snoc)
  finally show ?case by (auto simp: latched_after_snoc snoc.IH [symmetric])
qed (simp add: latched_after_def)

section \<open>Readings stay in range\<close>

text \<open>
  Closes up to \<open>price_cap\<close> (2 to the 1000) keep both Wilder averages finite: the seed sum of fewer than \<open>2 ^ 20\<close>
  changes cannot overflow, and after it an average never exceeds the greatest change it was given, in rounded
  arithmetic, since the two rounded weights add up to at most 1 once their sum is rounded.
\<close>

definition price_cap :: rat where
  "price_cap = 2 powi 1000"

lemma price_cap_pos [simp]: "0 < price_cap"
  by (simp add: price_cap_def)

lemma rndq_scale:
  assumes "2 powi (-1022) \<le> y" and "0 \<le> e"
  shows "rndq (2 powi e * y) = 2 powi e * rndq y"
proof -
  have y: "0 < y" using assms(1) two_powi_pos [of "-1022"] by linarith
  have l: "ilog2 (2 powi e * y) = e + ilog2 y"
    using ilog2_bounds [OF y] by (intro ilog2_eqI) (simp_all add: two_powi_add add.assoc)
  have "-1022 \<le> ilog2 y" using ilog2_mono [OF two_powi_pos assms(1)] ilog2_eqI [of "-1022" "2 powi (-1022)"] by simp
  then have "qexp (2 powi e * y) = e + qexp y" using y l assms(2) by (simp add: qexp_def)
  moreover have "2 powi e * y / 2 powi (e + q) = y / 2 powi q" for q by (simp add: two_powi_add)
  ultimately show ?thesis using y by (simp add: rndq_def two_powi_add)
qed

lemma rndq_scale_cap: "2 powi (-1022) \<le> y \<Longrightarrow> rndq (price_cap * y) = price_cap * rndq y"
  unfolding price_cap_def by (intro rndq_scale) auto

lemma price_cap_huge: "price_cap < f_huge"
  unfolding price_cap_def f_huge_def by (simp only: two_powi_less_iff)

lemma abs_price_cap [simp]: "\<bar>price_cap\<bar> = price_cap"
  using price_cap_pos by (rule abs_of_pos)

lemma rndq_le_one_eps: "rndq (1 + 2 powi (-54)) = 1"
  by code_simp

lemma wilder_weights:
  assumes k: "f_div (Fin 1) (f_of_int (int n)) = k" and n: "1 \<le> n" "n \<le> 2 ^ 20"
  obtains a c where "k = Fin a" "f_sub (Fin 1) k = Fin c" "rndq a = a" "rndq c = c" "2 powi (-1022) \<le> a"
    "c = 0 \<or> 2 powi (-1022) \<le> c" "0 \<le> c" "rndq (a + c) \<le> 1"
proof -
  have fn: "f_of_int (int n) = Fin (of_int (int n))" using n by (intro f_of_int_small) simp
  have pos: "0 < (of_int (int n) :: rat)" using n by simp
  have small: "is_f64 (Fin (2 powi (-20)))" "is_f64 (Fin 1)" "is_f64 (Fin (1 / 2))" by code_simp+
  have "of_int (int n) \<le> (2 ^ 20 :: rat)" using n(2) by (metis of_int_le_iff of_int_numeral of_int_power of_nat_le_iff of_nat_numeral of_nat_power)
  then have lo: "2 powi (-20) \<le> 1 / (of_int (int n) :: rat)" using pos by (simp add: power_int_def field_simps)
  have hi: "1 / (of_int (int n) :: rat) \<le> 1" using n(1) by simp
  obtain a where a: "rnd (1 / of_int (int n)) = Fin a" "2 powi (-20) \<le> a" "a \<le> 1"
    using f64_between [OF small(1,2) lo hi] by blast
  have aq: "rndq a = a" and ad: "a = rndq (1 / of_int (int n))" using a(1) by (auto simp: rnd_eq_Fin)
  have "(2::rat) powi (-1022) \<le> 2 powi (-20)" by simp
  then have am: "2 powi (-1022) \<le> a" using a(2) by linarith
  obtain c where c: "rnd (1 - a) = Fin c" "0 \<le> c" "c \<le> 1"
    using f64_between [of 0 1 "1 - a"] a(3) am two_powi_pos [of "-1022"] small(2) by force
  have cq: "rndq c = c" and cd: "c = rndq (1 - a)" using c(1) by (auto simp: rnd_eq_Fin)
  have ka: "k = Fin a" using k a(1) fn pos by simp
  then have kc: "f_sub (Fin 1) k = Fin c" using c(1) by simp
  show ?thesis
  proof (cases "n = 1")
    case True
    then have "a = 1" using ad rndq_of_int [of 1] by simp
    then have "c = 0" using cd by simp
    with \<open>a = 1\<close> show ?thesis using that [OF ka kc aq cq am] rndq_of_int [of 1] by simp
  next
    case False
    then have "1 / (of_int (int n) :: rat) \<le> 1 / 2" using n(1) by (simp add: field_simps)
    then have half: "a \<le> 1 / 2" unfolding ad using small(3) by (intro rndq_le) (auto simp: is_f64.simps)
    have "0 < a" using a(2) two_powi_pos [of "-20"] by linarith
    then have lm: "ilog2 (1 - a) = -1" using half by (intro ilog2_eqI) (simp_all add: power_int_def)
    have "0 < 1 - a" using half by linarith
    then have q: "qexp (1 - a) = -53" by (simp add: qexp_def lm)
    have "c = of_int (rne ((1 - a) / 2 powi (-53))) * 2 powi (-53)" using cd \<open>0 < 1 - a\<close> q by (simp add: rndq_def)
    also have "\<dots> \<le> ((1 - a) / 2 powi (-53) + 1 / 2) * 2 powi (-53)"
      using rne_bounds [of "(1 - a) / 2 powi (-53)"] by (intro mult_right_mono) (auto simp: less_imp_le)
    also have "\<dots> = (1 - a) + 2 powi (-54)" by (simp add: power_int_def field_simps)
    finally have "a + c \<le> 1 + 2 powi (-54)" by simp
    then have s: "rndq (a + c) \<le> 1" using rndq_mono rndq_le_one_eps by metis
    have "1 / 2 \<le> c" unfolding cd using half small(3) by (intro rndq_ge) (auto simp: is_f64.simps)
    moreover have "(2::rat) powi (-1022) \<le> 2 powi (-1)" by simp
    then have "(2::rat) powi (-1022) \<le> 1 / 2" by (simp only: power_int_minus power_int_1_right) (simp add: field_simps)
    ultimately have "2 powi (-1022) \<le> c" by linarith
    then show ?thesis using that [OF ka kc aq cq am _ c(2) s] by blast
  qed
qed

definition wilder_inv :: "wilder \<Rightarrow> bool" where
  "wilder_inv w \<longleftrightarrow> 1 \<le> wl_period w \<and> wl_period w \<le> 2 ^ 20 \<and>
     wl_k w = f_div (Fin 1) (f_of_int (int (wl_period w))) \<and>
     (\<exists>s v. wl_sum w = Fin s \<and> wl_value w = Fin v \<and> 0 \<le> s \<and> 0 \<le> v \<and> v \<le> price_cap \<and>
        (wl_samples w < wl_period w \<longrightarrow> s \<le> of_nat (wl_samples w) * price_cap))"

lemma cap_multiple_f64:
  assumes "m < 2 ^ 20"
  shows "is_f64 (Fin (of_nat m * price_cap))"
proof -
  have "m < 2 ^ 53" using assms by simp
  then have r: "rndq (of_nat m * price_cap) = of_nat m * price_cap"
    using rndq_dyadic_strict [of "int m" 1000] by (simp add: price_cap_def)
  have "of_nat m * price_cap < 2 ^ 20 * price_cap"
    using assms by (intro mult_strict_right_mono) (metis of_nat_less_iff of_nat_numeral of_nat_power, simp)
  also have "\<dots> \<le> f_huge" by (simp add: price_cap_def f_huge_def power_int_def)
  finally have "\<bar>of_nat m * price_cap\<bar> < f_huge" by (simp add: abs_mult del: abs_price_cap) (simp only: abs_price_cap)
  with r show ?thesis by (simp add: is_f64.simps)
qed

lemma wilder_seed_step:
  assumes "m < 2 ^ 20" and "0 \<le> s" "s \<le> of_nat (m - 1) * price_cap" and "1 \<le> m" and "0 \<le> x" "x \<le> price_cap"
  obtains t v where "f_add (Fin s) (Fin x) = Fin t" "0 \<le> t" "t \<le> of_nat m * price_cap"
    "f_div (Fin t) (f_of_int (int m)) = Fin v" "0 \<le> v" "v \<le> price_cap"
proof -
  have "s + x \<le> of_nat (m - 1) * price_cap + price_cap" using assms by linarith
  also have "\<dots> = of_nat m * price_cap" using assms(4) by (simp add: of_nat_diff algebra_simps)
  finally obtain t where t: "rnd (s + x) = Fin t" "0 \<le> t" "t \<le> of_nat m * price_cap"
    using f64_between [OF is_f64_0 cap_multiple_f64 [OF assms(1)], of "s + x"] assms by fastforce
  have m: "0 < (of_nat m :: rat)" using assms(4) by simp
  have "f_of_int (int m) = Fin (of_nat m)" using f_of_int_small [of "int m"] assms(1) by simp
  moreover have "t / of_nat m \<le> price_cap" using t(3) m by (simp add: divide_le_eq mult.commute)
  moreover have "is_f64 (Fin price_cap)" using cap_multiple_f64 [of 1] by simp
  ultimately obtain v where "f_div (Fin t) (f_of_int (int m)) = Fin v" "0 \<le> v" "v \<le> price_cap"
    using f64_between [OF is_f64_0, of price_cap "t / of_nat m"] t(2) m by auto
  with t show ?thesis using that by simp
qed

lemma capped_product:
  assumes "0 \<le> x" "x \<le> price_cap" and "a = 0 \<or> 2 powi (-1022) \<le> a" and "rndq a = a" and "0 \<le> a" and "a \<le> 1"
  obtains y where "f_mul (Fin x) (Fin a) = Fin y" "0 \<le> y" "y \<le> price_cap * a"
proof -
  have r: "rndq (price_cap * a) = price_cap * a" using assms(3,4) rndq_scale_cap [of a] by auto
  have "price_cap * a \<le> price_cap" using assms(6) by (simp add: mult_left_le)
  also note price_cap_huge
  finally have "is_f64 (Fin (price_cap * a))" using r assms(5) by (simp add: is_f64.simps abs_mult abs_of_pos [OF price_cap_pos])
  moreover have "x * a \<le> price_cap * a" using assms by (intro mult_right_mono) auto
  ultimately show ?thesis using f64_between [OF is_f64_0, of "price_cap * a" "x * a"] assms that by fastforce
qed

lemma wilder_ema_step:
  assumes n: "1 \<le> n" "n \<le> 2 ^ 20" and k: "k = f_div (Fin 1) (f_of_int (int n))"
    and "0 \<le> x" "x \<le> price_cap" "0 \<le> v" "v \<le> price_cap"
  obtains u where "f_add (f_mul (Fin x) k) (f_mul (Fin v) (f_sub (Fin 1) k)) = Fin u" "0 \<le> u" "u \<le> price_cap"
proof -
  obtain a c where w: "k = Fin a" "f_sub (Fin 1) k = Fin c" "rndq a = a" "rndq c = c" "2 powi (-1022) \<le> a"
    "c = 0 \<or> 2 powi (-1022) \<le> c" "0 \<le> c" "rndq (a + c) \<le> 1"
    using wilder_weights [OF k [symmetric] n] by blast
  have a0: "0 < a" using w(5) two_powi_pos [of "-1022"] by linarith
  have "a \<le> rndq (a + c)" using w(3,7) by (metis add.commute le_add_same_cancel2 rndq_ge)
  moreover have "c \<le> rndq (a + c)" using w(4) a0 by (metis le_add_same_cancel2 less_imp_le rndq_ge)
  ultimately have ac: "a \<le> 1" "c \<le> 1" using w(8) by linarith+
  obtain y where y: "f_mul (Fin x) (Fin a) = Fin y" "0 \<le> y" "y \<le> price_cap * a"
    using capped_product [OF assms(4,5) _ w(3)] w(5) a0 ac by (metis less_imp_le)
  obtain z where z: "f_mul (Fin v) (Fin c) = Fin z" "0 \<le> z" "z \<le> price_cap * c"
    using capped_product [OF assms(6,7) w(6) w(4) w(7) ac(2)] by blast
  have "y + z \<le> price_cap * (a + c)" using y z by (simp add: algebra_simps)
  then have "rndq (y + z) \<le> rndq (price_cap * (a + c))" by (rule rndq_mono)
  also have "\<dots> = price_cap * rndq (a + c)" using w(5,7) by (intro rndq_scale_cap) linarith
  also have "\<dots> \<le> price_cap" using w(8) by (simp add: mult_left_le)
  finally have le: "rndq (y + z) \<le> price_cap" .
  have ge: "0 \<le> rndq (y + z)" using y z by (intro rndq_nonneg) simp
  then have "f_add (Fin y) (Fin z) = Fin (rndq (y + z))" using le price_cap_huge by (simp add: rnd_eq_Fin)
  with le ge y(1) z(1) w(1,2) show ?thesis using that by simp
qed

lemma wilder_add_inv:
  assumes "wilder_inv w" and "0 \<le> x" "x \<le> price_cap"
  shows "wilder_inv (wilder_add w (Fin x))"
proof -
  from assms(1) obtain s v where w: "1 \<le> wl_period w" "wl_period w \<le> 2 ^ 20"
    "wl_k w = f_div (Fin 1) (f_of_int (int (wl_period w)))" "wl_sum w = Fin s" "wl_value w = Fin v" "0 \<le> s" "0 \<le> v"
    "v \<le> price_cap" "wl_samples w < wl_period w \<longrightarrow> s \<le> of_nat (wl_samples w) * price_cap"
    unfolding wilder_inv_def by blast
  let ?m = "Suc (wl_samples w)"
  show ?thesis
  proof (cases "?m < wl_period w")
    case True
    then obtain t u where "f_add (Fin s) (Fin x) = Fin t" "0 \<le> t" "t \<le> of_nat ?m * price_cap"
      "f_div (Fin t) (f_of_int (int ?m)) = Fin u" "0 \<le> u" "u \<le> price_cap"
      using wilder_seed_step [of ?m s x] w assms by auto
    then show ?thesis using True w by (simp add: wilder_inv_def wilder_add_def del: of_nat_Suc f_add.simps)
  next
    case False
    obtain u where "f_add (f_mul (Fin x) (wl_k w)) (f_mul (Fin v) (f_sub (Fin 1) (wl_k w))) = Fin u" "0 \<le> u" "u \<le> price_cap"
      using wilder_ema_step [OF w(1,2,3) assms(2,3) w(7,8)] by blast
    then show ?thesis using False w by (simp add: wilder_inv_def wilder_add_def)
  qed
qed

definition rsi_inv :: "rsi \<Rightarrow> bool" where
  "rsi_inv r \<longleftrightarrow> wilder_inv (rsi_gain r) \<and> wilder_inv (rsi_loss r) \<and>
     (\<exists>p. rsi_previous r = Fin p \<and> 0 \<le> p \<and> p \<le> price_cap)"

definition usable_close :: "f64 \<Rightarrow> bool" where
  "usable_close x \<longleftrightarrow> f_lt (Fin 0) x \<and> f_le x (Fin price_cap)"

lemma usable_closeE: "usable_close x \<Longrightarrow> (\<And>p. x = Fin p \<Longrightarrow> 0 < p \<Longrightarrow> p \<le> price_cap \<Longrightarrow> P) \<Longrightarrow> P"
  by (cases x) (auto simp: usable_close_def)

lemma newRSI_inv: "1 \<le> n \<Longrightarrow> n \<le> 2 ^ 20 \<Longrightarrow> rsi_inv (newRSI n)"
  by (simp add: rsi_inv_def newRSI_def wilder_inv_def newWilder_def less_imp_le)

lemma change_capped:
  assumes "0 \<le> q" "q \<le> p" "p \<le> price_cap"
  obtains d where "f_sub (Fin p) (Fin q) = Fin d" "0 \<le> d" "d \<le> price_cap"
proof -
  have "is_f64 (Fin price_cap)" using cap_multiple_f64 [of 1] by simp
  then show ?thesis using f64_between [OF is_f64_0, of price_cap "p - q"] assms that by fastforce
qed

lemma rsi_add_inv:
  assumes "rsi_inv r" and "usable_close x"
  shows "rsi_inv (rsi_add r x)"
proof -
  from assms(2) obtain p where p: "x = Fin p" "0 \<le> p" "p \<le> price_cap" by (metis usable_closeE less_imp_le)
  from assms(1) obtain q where q: "rsi_previous r = Fin q" "0 \<le> q" "q \<le> price_cap"
    and w: "wilder_inv (rsi_gain r)" "wilder_inv (rsi_loss r)" by (auto simp: rsi_inv_def)
  note z = wilder_add_inv [OF _ order_refl, OF _ less_imp_le [OF price_cap_pos]]
  show ?thesis
  proof (cases "q \<le> p")
    case True
    obtain d where "f_sub x (rsi_previous r) = Fin d" "0 \<le> d" "d \<le> price_cap"
      using change_capped [OF q(2) True p(3)] p q by metis
    then show ?thesis using True p q w z by (auto simp: rsi_inv_def rsi_add_def wilder_add_inv simp del: f_sub_Fin)
  next
    case False
    obtain d where "f_sub (rsi_previous r) x = Fin d" "0 \<le> d" "d \<le> price_cap"
      using change_capped [OF p(2) _ q(3)] False p q by (metis linear)
    then show ?thesis using False p q w z by (auto simp: rsi_inv_def rsi_add_def wilder_add_inv simp del: f_sub_Fin)
  qed
qed

lemma hundred_over:
  assumes "f_le (Fin 1) y" and "is_f64 y"
  obtains z where "f_sub (Fin 100) (f_div (Fin 100) y) = Fin z" "0 \<le> z" "z \<le> 100"
proof -
  have h: "is_f64 (Fin 100)" by code_simp
  have d: "\<exists>w. f_div (Fin 100) y = Fin w \<and> 0 \<le> w \<and> w \<le> 100"
  proof (cases y)
    case (Fin b)
    then have "1 \<le> b" using assms by simp
    then have "100 / b \<le> 100" by (simp add: divide_le_eq)
    then show ?thesis using f64_between [OF is_f64_0 h, of "100 / b"] Fin \<open>1 \<le> b\<close> by simp
  qed (use assms in auto)
  then obtain w where w: "f_div (Fin 100) y = Fin w" "0 \<le> w" "w \<le> 100" by blast
  then show ?thesis using f64_between [OF is_f64_0 h, of "100 - w"] that by fastforce
qed

lemma rsi_value_range:
  assumes "rsi_inv r"
  obtains z where "fst (rsi_value r) = Fin z" "0 \<le> z" "z \<le> 100"
proof -
  from assms obtain g l where w: "wl_value (rsi_gain r) = Fin g" "0 \<le> g" "wl_value (rsi_loss r) = Fin l" "0 \<le> l"
    by (auto simp: rsi_inv_def wilder_inv_def)
  obtain e where e: "f_lit (5 / 10 ^ 11) = Fin e" "0 < e"
  proof
    show "f_lit (5 / 10 ^ 11) = Fin (7737125245533627 / 154742504910672534362390528)" by code_simp
  qed simp
  show ?thesis
  proof (cases "\<not> wilder_ready (rsi_gain r) \<or> f_le (Fin l) (f_lit (5 / 10 ^ 11))")
    case True
    then show ?thesis using that [of 0] that [of 100] w by (cases "wilder_ready (rsi_gain r)") (simp_all add: rsi_value_def)
  next
    case False
    then have l: "0 < l" using e by simp
    have n: "f_nonneg (f_div (Fin g) (Fin l))" using f_nonneg_div_Fin [of "Fin g" l] w(2) l by simp
    have "is_f64 (Fin 1)" by code_simp
    then have "f_le (Fin 1) (f_add (Fin 1) (f_div (Fin g) (Fin l)))"
      using n f_le_add_right [of 1] by (cases "f_div (Fin g) (Fin l)") (auto simp: f_nonneg_def)
    moreover have "is_f64 (f_add (Fin 1) (f_div (Fin g) (Fin l)))" using \<open>is_f64 (Fin 1)\<close> by simp
    ultimately obtain z where "f_sub (Fin 100) (f_div (Fin 100) (f_add (Fin 1) (f_div (Fin g) (Fin l)))) = Fin z" "0 \<le> z" "z \<le> 100"
      using hundred_over by blast
    then show ?thesis using that [of z] False w by (simp add: rsi_value_def)
  qed
qed

section \<open>The readings of a run of closes\<close>

definition feed :: "indicators \<Rightarrow> f64 list \<Rightarrow> indicators" where
  "feed = foldl (\<lambda>i price. fst (Indicators_Add i price))"

lemma fst_Indicators_Add:
  "fst (Indicators_Add i price) = i\<lparr>ind_rsi := rsi_add (ind_rsi i) price, ind_trend := sma_add (ind_trend i) price,
     ind_exit := sma_add (ind_exit i) price\<rparr>"
  by (simp add: Indicators_Add_def case_prod_unfold Let_def)

lemma snd_Indicators_Add:
  "snd (Indicators_Add i price) =
     \<lparr>r_Close = price, r_RSI = fst (rsi_value (rsi_add (ind_rsi i) price)),
      r_RSIReady = snd (rsi_value (rsi_add (ind_rsi i) price)),
      r_TrendMean = fst (sma_value (sma_add (ind_trend i) price)),
      r_TrendMeanReady = snd (sma_value (sma_add (ind_trend i) price)),
      r_ExitMean = fst (sma_value (sma_add (ind_exit i) price)),
      r_ExitMeanReady = snd (sma_value (sma_add (ind_exit i) price))\<rparr>"
  by (simp add: Indicators_Add_def case_prod_unfold Let_def)

lemma feed_parts:
  "ind_rsi (feed i ps) = foldl rsi_add (ind_rsi i) ps"
  "ind_trend (feed i ps) = foldl sma_add (ind_trend i) ps"
  "ind_exit (feed i ps) = foldl sma_add (ind_exit i) ps"
  unfolding feed_def by (induction ps arbitrary: i) (simp_all add: fst_Indicators_Add)

lemma foldl_rsi_inv: "rsi_inv r \<Longrightarrow> list_all usable_close ps \<Longrightarrow> rsi_inv (foldl rsi_add r ps)"
  by (induction ps arbitrary: r) (auto intro: rsi_add_inv)

lemma wilder_add_counts [simp]:
  "wl_samples (wilder_add w x) = Suc (wl_samples w)" "wl_period (wilder_add w x) = wl_period w"
  by (simp_all add: wilder_add_def Let_def)

lemma foldl_rsi_samples:
  "wl_period (rsi_gain (foldl rsi_add r ps)) = wl_period (rsi_gain r)"
  "rsi_hasPrev r \<Longrightarrow> wl_samples (rsi_gain (foldl rsi_add r ps)) = wl_samples (rsi_gain r) + length ps"
  by (induction ps arbitrary: r) (simp_all add: rsi_add_def Let_def)

lemma newRSI_ready: "wilder_ready (rsi_gain (foldl rsi_add (newRSI n) ps)) \<longleftrightarrow> n < length ps"
  if "0 < n"
proof (cases ps)
  case (Cons p qs)
  have "rsi_hasPrev (rsi_add (newRSI n) p)" "wl_samples (rsi_gain (rsi_add (newRSI n) p)) = 0"
    by (simp_all add: rsi_add_def newRSI_def newWilder_def)
  then show ?thesis using Cons
    by (simp add: wilder_ready_def foldl_rsi_samples) (simp add: rsi_add_def newRSI_def newWilder_def less_Suc_eq_le)
qed (use that in \<open>simp add: wilder_ready_def newRSI_def newWilder_def\<close>)

lemma snd_rsi_value: "snd (rsi_value r) \<longleftrightarrow> wilder_ready (rsi_gain r)"
  by (simp add: rsi_value_def)

definition readings_of :: "indicators \<Rightarrow> f64 list \<Rightarrow> readings list" where
  "readings_of i ps = map (\<lambda>k. snd (Indicators_Add (feed i (take k ps)) (ps ! k))) [0..<length ps]"

lemma length_readings_of [simp]: "length (readings_of i ps) = length ps"
  by (simp add: readings_of_def)

lemma take_readings_of: "k \<le> length ps \<Longrightarrow> take k (readings_of i ps) = readings_of i (take k ps)"
  by (simp add: readings_of_def take_map min_def)

lemma list_all_drop: "list_all P (drop n xs) \<longleftrightarrow> (\<forall>j. n \<le> j \<and> j < length xs \<longrightarrow> P (xs ! j))"
proof
  assume a: "list_all P (drop n xs)"
  show "\<forall>j. n \<le> j \<and> j < length xs \<longrightarrow> P (xs ! j)"
  proof (intro allI impI)
    fix j assume j: "n \<le> j \<and> j < length xs"
    then have "drop n xs ! (j - n) = xs ! j" by simp
    moreover have "j - n < length (drop n xs)" using j by simp linarith
    ultimately show "P (xs ! j)" using a by (metis list_all_length)
  qed
qed (simp add: list_all_length)

lemma reading_at:
  assumes i: "NewIndicators p = Inr i" and k: "k < length ps"
  shows "r_Close (readings_of i ps ! k) = ps ! k"
    and "(r_RSI (readings_of i ps ! k), r_RSIReady (readings_of i ps ! k))
         = rsi_value (foldl rsi_add (newRSI (nat (RSIPeriod p))) (take (Suc k) ps))"
    and "(r_TrendMean (readings_of i ps ! k), r_TrendMeanReady (readings_of i ps ! k))
         = (if int (Suc k) < TrendDays p then (Fin 0, False)
            else (plain_mean (last_n (nat (TrendDays p)) (take (Suc k) ps)), True))"
    and "(r_ExitMean (readings_of i ps ! k), r_ExitMeanReady (readings_of i ps ! k))
         = (if int (Suc k) < ExitSMA p then (Fin 0, False)
            else (plain_mean (last_n (nat (ExitSMA p)) (take (Suc k) ps)), True))"
proof -
  have n: "1 \<le> TrendDays p" "1 \<le> ExitSMA p" and parts: "ind_rsi i = newRSI (nat (RSIPeriod p))"
    "ind_trend i = \<lparr>sma_window = [], sma_length = nat (TrendDays p)\<rparr>"
    "ind_exit i = \<lparr>sma_window = [], sma_length = nat (ExitSMA p)\<rparr>"
    using i by (auto simp: NewIndicators_def)
  have s: "foldl f a (take (Suc k) ps) = f (foldl f a (take k ps)) (ps ! k)" for f :: "'b \<Rightarrow> f64 \<Rightarrow> 'b" and a
    using k by (simp add: take_Suc_conv_app_nth)
  have e: "readings_of i ps ! k = snd (Indicators_Add (feed i (take k ps)) (ps ! k))" using k by (simp add: readings_of_def)
  have v: "sma_value (sma_add (foldl sma_add \<lparr>sma_window = [], sma_length = nat m\<rparr> (take k ps)) (ps ! k))
      = (if int (Suc k) < m then (Fin 0, False) else (plain_mean (last_n (nat m) (take (Suc k) ps)), True))"
    if "1 \<le> m" for m
    using sma_value_feed [of "nat m" "take (Suc k) ps"] that k unfolding s by (simp add: zless_nat_eq_int_zless min_def)
  note f = snd_Indicators_Add feed_parts parts
  show "r_Close (readings_of i ps ! k) = ps ! k" unfolding e by (simp add: f)
  show "(r_RSI (readings_of i ps ! k), r_RSIReady (readings_of i ps ! k))
      = rsi_value (foldl rsi_add (newRSI (nat (RSIPeriod p))) (take (Suc k) ps))" unfolding e s by (simp add: f)
  show "(r_TrendMean (readings_of i ps ! k), r_TrendMeanReady (readings_of i ps ! k))
      = (if int (Suc k) < TrendDays p then (Fin 0, False)
         else (plain_mean (last_n (nat (TrendDays p)) (take (Suc k) ps)), True))"
    unfolding e using v [OF n(1)] by (simp add: f)
  show "(r_ExitMean (readings_of i ps ! k), r_ExitMeanReady (readings_of i ps ! k))
      = (if int (Suc k) < ExitSMA p then (Fin 0, False)
         else (plain_mean (last_n (nat (ExitSMA p)) (take (Suc k) ps)), True))"
    unfolding e using v [OF n(2)] by (simp add: f)
qed

text \<open>The close of session \<open>k\<close> is above the mean of the last \<open>n\<close> closes, its own included.\<close>

definition above_mean :: "int \<Rightarrow> f64 list \<Rightarrow> nat \<Rightarrow> bool" where
  "above_mean n ps k \<longleftrightarrow> n \<le> int (Suc k) \<and> f_lt (plain_mean (last_n (nat n) (take (Suc k) ps))) (ps ! k)"

definition rsi_after :: "parameters \<Rightarrow> f64 list \<Rightarrow> nat \<Rightarrow> f64" where
  "rsi_after p ps k = fst (rsi_value (foldl rsi_add (newRSI (nat (RSIPeriod p))) (take (Suc k) ps)))"

lemma enters_at:
  assumes "NewIndicators p = Inr i" and "k < length ps"
  shows "enters p (readings_of i ps ! k) \<longleftrightarrow>
           above_mean (TrendDays p) ps k \<and> RSIPeriod p \<le> int k \<and> f_lt (rsi_after p ps k) (RSIEntry p)"
    and "leaves (readings_of i ps ! k) \<longleftrightarrow> above_mean (ExitSMA p) ps k"
proof -
  have n: "0 < nat (RSIPeriod p)" using assms(1) by (simp add: NewIndicators_def)
  note at = reading_at [OF assms]
  have rd: "r_RSIReady (readings_of i ps ! k) \<longleftrightarrow> RSIPeriod p \<le> int k"
    using arg_cong [OF at(2), of snd] newRSI_ready [OF n] assms(2) by (simp add: snd_rsi_value) linarith
  have rv: "r_RSI (readings_of i ps ! k) = rsi_after p ps k" using arg_cong [OF at(2), of fst] by (simp add: rsi_after_def)
  show "enters p (readings_of i ps ! k) \<longleftrightarrow>
      above_mean (TrendDays p) ps k \<and> RSIPeriod p \<le> int k \<and> f_lt (rsi_after p ps k) (RSIEntry p)"
    using at(1,3) rd rv by (auto simp: enters_def above_mean_def split: if_splits)
  show "leaves (readings_of i ps ! k) \<longleftrightarrow> above_mean (ExitSMA p) ps k"
    using at(1,4) by (auto simp: leaves_def above_mean_def split: if_splits)
qed

section \<open>Properties\<close>

text \<open>C34: fed any closes, Boost is latched exactly when at some session it was not latched, the close stood above
  the trend mean and the RSI, by then ready, below its entry level, and no close since has been above the exit mean;
  and the weight it asks for is the boosted one exactly then. Nothing else ends a boost, not even a close below the
  trend mean.\<close>

theorem Boost_target_exact:
  assumes "NewIndicators p = Inr i"
  shows "Parameters_Target p (foldl (Parameters_Next p) False (readings_of i ps)) =
     (if \<exists>k < length ps. \<not> foldl (Parameters_Next p) False (readings_of i (take k ps)) \<and>
           above_mean (TrendDays p) ps k \<and> RSIPeriod p \<le> int k \<and> f_lt (rsi_after p ps k) (RSIEntry p) \<and>
           (\<forall>j. k < j \<and> j < length ps \<longrightarrow> \<not> above_mean (ExitSMA p) ps j)
      then f_mul (InvestedFraction p) (BoostSize p) else InvestedFraction p)"
proof -
  have "latched_at p (readings_of i ps) k \<longleftrightarrow> \<not> latched_after p (readings_of i (take k ps)) \<and>
      above_mean (TrendDays p) ps k \<and> RSIPeriod p \<le> int k \<and> f_lt (rsi_after p ps k) (RSIEntry p) \<and>
      (\<forall>j. k < j \<and> j < length ps \<longrightarrow> \<not> above_mean (ExitSMA p) ps j)" if "k < length ps" for k
    using that enters_at [OF assms] by (simp add: latched_at_def take_readings_of list_all_drop Suc_le_eq)
  then show ?thesis
    using latched_after_iff [of p "readings_of i ps"] by (auto simp: Parameters_Target_def latched_after_def)
qed

definition example_parameters :: parameters where
  "example_parameters = \<lparr>InvestedFraction = Fin (1 / 2), BoostSize = Fin (3 / 2), RSIEntry = Fin 10, RSIPeriod = 1,
     TrendDays = 3, ExitSMA = 2\<rparr>"

definition example_indicators :: indicators where
  "example_indicators = \<lparr>ind_rsi = newRSI 1, ind_trend = \<lparr>sma_window = [], sma_length = 3\<rparr>,
     ind_exit = \<lparr>sma_window = [], sma_length = 2\<rparr>\<rparr>"

definition example_closes :: "f64 list" where
  "example_closes = [Fin 30, Fin 66, Fin 54, Fin 40]"

lemma example_indicators: "NewIndicators example_parameters = Inr example_indicators"
  by (simp add: NewIndicators_def example_parameters_def example_indicators_def)

lemma int_rnd: "rnd 54 = Fin 54" "rnd 36 = Fin 36" "rnd 12 = Fin 12" "rnd 30 = Fin 30" "rnd 96 = Fin 96" "rnd 150 = Fin 150"
  "rnd 94 = Fin 94" "rnd 47 = Fin 47" "rnd 50 = Fin 50" "rnd 1 = Fin 1" "rnd 100 = Fin 100" "rnd 2 = Fin 2" "rnd 3 = Fin 3"
  "rnd (3 / 4) = Fin (3 / 4)"
  by code_simp+

lemma example_drop:
  "above_mean 3 example_closes 2" "\<not> above_mean 2 example_closes 3" "\<not> above_mean 3 example_closes 1"
  "rsi_after example_parameters example_closes 2 = Fin 0"
proof -
  show "above_mean 3 example_closes 2" "\<not> above_mean 2 example_closes 3" "\<not> above_mean 3 example_closes 1"
    by (simp_all add: above_mean_def example_closes_def last_n_def plain_mean_def numeral_2_eq_2 numeral_3_eq_3 f_of_int_def int_rnd)
  have e: "\<not> f_le (Fin 12) (f_lit (1 / 20000000000))" by code_simp
  show "rsi_after example_parameters example_closes 2 = Fin 0"
    by (simp add: rsi_after_def example_closes_def example_parameters_def numeral_2_eq_2 rsi_add_def newRSI_def
        newWilder_def wilder_add_def rsi_value_def wilder_ready_def e f_of_int_def int_rnd)
qed

theorem Boost_target_exact_witness:
  "Parameters_Target example_parameters
     (foldl (Parameters_Next example_parameters) False (readings_of example_indicators example_closes)) = Fin (3 / 4)"
proof -
  have two: "\<not> foldl (Parameters_Next example_parameters) False (readings_of example_indicators (take 2 example_closes))"
    using latched_after_iff [of example_parameters "readings_of example_indicators (take 2 example_closes)"]
      enters_at(1) [OF example_indicators, of _ "take 2 example_closes"]
    by (auto simp: latched_after_def latched_at_def example_closes_def example_parameters_def above_mean_def less_Suc_eq numeral_2_eq_2)
  have "\<exists>k < length example_closes.
      \<not> foldl (Parameters_Next example_parameters) False (readings_of example_indicators (take k example_closes)) \<and>
      above_mean (TrendDays example_parameters) example_closes k \<and> RSIPeriod example_parameters \<le> int k \<and>
      f_lt (rsi_after example_parameters example_closes k) (RSIEntry example_parameters) \<and>
      (\<forall>j. k < j \<and> j < length example_closes \<longrightarrow> \<not> above_mean (ExitSMA example_parameters) example_closes j)"
    using two example_drop
    by (intro exI [of _ 2]) (auto simp: example_parameters_def example_closes_def less_Suc_eq numeral_2_eq_2 numeral_3_eq_3)
  then show ?thesis
    unfolding Boost_target_exact [OF example_indicators] by (simp add: example_parameters_def int_rnd)
qed

text \<open>every RSI reading lies in \<open>[0, 100]\<close>, and it is ready exactly once one more close than the period has been
  added, for positive closes up to \<open>price_cap\<close> and a period up to \<open>2 ^ 20\<close>: rounding never takes an average below
  zero or past the greatest change it was given.\<close>

theorem Boost_rsi_in_range:
  assumes "NewIndicators p = Inr i" and "RSIPeriod p \<le> 2 ^ 20" and "list_all usable_close ps" and "usable_close x"
  shows "f_le (Fin 0) (r_RSI (snd (Indicators_Add (feed i ps) x))) \<and> f_le (r_RSI (snd (Indicators_Add (feed i ps) x))) (Fin 100) \<and>
     (r_RSIReady (snd (Indicators_Add (feed i ps) x)) \<longleftrightarrow> RSIPeriod p \<le> int (length ps))"
proof -
  have n: "1 \<le> RSIPeriod p" and i: "ind_rsi i = newRSI (nat (RSIPeriod p))" using assms(1) by (auto simp: NewIndicators_def)
  have "rsi_inv (newRSI (nat (RSIPeriod p)))" using n assms(2) nat_le_iff [of "RSIPeriod p" "2 ^ 20"] by (intro newRSI_inv) simp_all
  then have inv: "rsi_inv (rsi_add (foldl rsi_add (newRSI (nat (RSIPeriod p))) ps) x)"
    using assms(3,4) by (intro rsi_add_inv foldl_rsi_inv)
  obtain z where "fst (rsi_value (rsi_add (foldl rsi_add (newRSI (nat (RSIPeriod p))) ps) x)) = Fin z" "0 \<le> z" "z \<le> 100"
    using rsi_value_range [OF inv] by blast
  moreover have "snd (rsi_value (rsi_add (foldl rsi_add (newRSI (nat (RSIPeriod p))) ps) x)) \<longleftrightarrow> RSIPeriod p \<le> int (length ps)"
    using newRSI_ready [of "nat (RSIPeriod p)" "ps @ [x]"] n by (simp add: snd_rsi_value) linarith
  ultimately show ?thesis by (simp add: snd_Indicators_Add feed_parts i)
qed

theorem Boost_rsi_in_range_witness:
  "f_le (r_RSI (snd (Indicators_Add (feed example_indicators [Fin 30, Fin 66]) (Fin 54)))) (Fin 100) \<and>
   r_RSIReady (snd (Indicators_Add (feed example_indicators [Fin 30, Fin 66]) (Fin 54)))"
proof -
  have "(2::rat) ^ 7 \<le> 2 ^ 1000" by (rule power_increasing) simp_all
  then have "usable_close (Fin 30)" "usable_close (Fin 66)" "usable_close (Fin 54)"
    by (simp_all add: usable_close_def price_cap_def power_int_def)
  then show ?thesis
    using Boost_rsi_in_range [OF example_indicators, of "[Fin 30, Fin 66]" "Fin 54"] by (simp add: example_parameters_def)
qed

end
