(* ===== verification/Glide.thy ===== *)
theory Glide
  imports ReconcileEvents
begin

text \<open>
  \<open>targetweight/glide\<close>: the bond share of an IRA from the owner's age in months (\<open>BondShare\<close>), the age from a
  configured birth month (\<open>AgeMonths\<close>), and the momentum and bond sleeves combined into one set of target weights
  (\<open>Combine\<close>). Ages are Go \<open>int\<close>s of a few thousand at most, and are integers here. The rebalance date is an
  instant read in UTC, as its one caller parses it.
\<close>

section \<open>The schedule (schedule.go)\<close>

record anchor =
  an_AgeYears :: int
  an_Share :: f64

definition DefaultAnchors :: "anchor list" where
  "DefaultAnchors = [\<lparr>an_AgeYears = 38, an_Share = Fin 0\<rparr>, \<lparr>an_AgeYears = 53, an_Share = f_lit (308 / 1000)\<rparr>,
     \<lparr>an_AgeYears = 65, an_Share = f_lit (5 / 10)\<rparr>, \<lparr>an_AgeYears = 72, an_Share = f_lit (7 / 10)\<rparr>]"

definition minOwnerAgeYears :: int where
  "minOwnerAgeYears = 18"

definition maxOwnerAgeYears :: int where
  "maxOwnerAgeYears = 110"

text \<open>\<open>strconv.Atoi\<close> of a non-empty string with no sign: decimal digits only.\<close>

definition atoi :: "string \<Rightarrow> (err list, int) result" where
  "atoi s = failIf (\<not> list_all isDigit s) [''invalid syntax''] (Inr (int (digitsVal s)))"

definition ParseBirth :: "string \<Rightarrow> (err list, int \<times> int) result" where
  "ParseBirth s =
     failIf (length s \<noteq> 7 \<or> s ! 4 \<noteq> CHR ''-'') [''birth value must be YYYY-MM'']
     (case atoi (take 4 s) of Inl _ \<Rightarrow> Inl [''birth year is not four digits'']
      | Inr y \<Rightarrow> (case atoi (drop 5 s) of Inl _ \<Rightarrow> Inl [''birth month is not two digits'']
        | Inr m \<Rightarrow> failIf (m < 1 \<or> m > 12) [''birth month is not 01-12''] (Inr (y, m))))"

definition AgeMonths :: "string \<Rightarrow> gotime \<Rightarrow> (err list, int) result" where
  "AgeMonths birth rebalance = bindr (ParseBirth birth) (\<lambda>(b_y, b_m).
     let d = rebalance div day_ns; months = (year_of d - b_y) * 12 + month_of d - b_m in
     failIf (months < minOwnerAgeYears * 12 \<or> months > maxOwnerAgeYears * 12) [''birth value implies an age outside 18 to 110 years'']
       (Inr months))"

fun anchorErrors :: "anchor option \<Rightarrow> anchor list \<Rightarrow> err list" where
  "anchorErrors before [] = []"
| "anchorErrors before (a # as) =
     (if an_Share a = NaN \<or> f_lt (an_Share a) (Fin 0) \<or> f_lt (Fin 1) (an_Share a) then [''anchor share is outside [0, 1]'']
      else if (case before of Some b \<Rightarrow> an_AgeYears a \<le> an_AgeYears b | None \<Rightarrow> False) then [''anchor age does not increase'']
      else anchorErrors (Some a) as)"

definition interpolate :: "anchor \<Rightarrow> anchor \<Rightarrow> int \<Rightarrow> f64" where
  "interpolate lo hi ageMonths = (let start = an_AgeYears lo * 12; stop = an_AgeYears hi * 12;
     rise = f_mul (f_sub (an_Share hi) (an_Share lo)) (f_of_int (ageMonths - start)) in
     f_add (an_Share lo) (f_div rise (f_of_int (stop - start))))"

fun shareAt :: "anchor \<Rightarrow> anchor list \<Rightarrow> int \<Rightarrow> f64" where
  "shareAt lo [] ageMonths = an_Share lo"
| "shareAt lo (hi # as) ageMonths =
     (if ageMonths > an_AgeYears hi * 12 then shareAt hi as ageMonths
      else if ageMonths = an_AgeYears hi * 12 then an_Share hi
      else interpolate lo hi ageMonths)"

definition BondShare :: "anchor list \<Rightarrow> int \<Rightarrow> (err list, f64) result" where
  "BondShare anchors ageMonths =
     failIf (length anchors < 2) [''need at least two anchors'']
     (joinErrs (anchorErrors None anchors)
     (failIf (f_ne (an_Share (hd anchors)) (Fin 0)) [''first anchor share must be 0'']
     (if ageMonths \<le> an_AgeYears (hd anchors) * 12 then Inr (Fin 0)
      else Inr (shareAt (hd anchors) (tl anchors) ageMonths))))"

section \<open>The sleeves (sleeves.go)\<close>

definition SleeveMomentum :: string where
  "SleeveMomentum = ''momentum''"

definition SleeveBond :: string where
  "SleeveBond = ''bond''"

definition Invested :: f64 where
  "Invested = f_lit (98 / 100)"

record weight =
  w_Symbol :: string
  w_Weight :: f64

record sleeve_part =
  sp_Sleeve :: string
  sp_Weight :: f64

record combined =
  cb_Symbol :: string
  cb_Weight :: f64
  cb_Shares :: "sleeve_part list"

definition DefaultBondFunds :: "weight list" where
  "DefaultBondFunds = [\<lparr>w_Symbol = ''IEF'', w_Weight = f_lit (5 / 10)\<rparr>, \<lparr>w_Symbol = ''SHY'', w_Weight = f_lit (5 / 10)\<rparr>]"

fun checkWeights :: "bool \<Rightarrow> string set \<Rightarrow> weight list \<Rightarrow> err list" where
  "checkWeights allowZero seen [] = []"
| "checkWeights allowZero seen (w # ws) =
     (if w_Symbol w = '''' then [''empty symbol'']
      else if w_Symbol w \<in> seen then [''symbol listed twice'']
      else if \<not> isFinite (w_Weight w) \<or> f_lt (w_Weight w) (Fin 0) \<or> (\<not> allowZero \<and> f_eq (w_Weight w) (Fin 0)) then [''weight out of range'']
      else checkWeights allowZero (insert (w_Symbol w) seen) ws)"

definition addShare :: "string \<Rightarrow> (string, combined) gomap \<Rightarrow> string \<times> f64 \<Rightarrow> (string, combined) gomap" where
  "addShare sleeve bySymbol = (\<lambda>(symbol, weight).
     let t = mget bySymbol symbol \<lparr>cb_Symbol = symbol, cb_Weight = Fin 0, cb_Shares = []\<rparr> in
     mput bySymbol symbol (t\<lparr>cb_Weight := f_add (cb_Weight t) weight,
       cb_Shares := cb_Shares t @ [\<lparr>sp_Sleeve = sleeve, sp_Weight = weight\<rparr>]\<rparr>))"

definition Combine :: "weight list \<Rightarrow> f64 \<Rightarrow> weight list \<Rightarrow> (err list, combined list) result" where
  "Combine momentum b funds =
     failIf (b = NaN \<or> f_lt b (Fin 0) \<or> f_lt (Fin 1) b) [''bond share is outside [0, 1]'']
     (joinErrs (checkWeights True {} momentum)
     (joinErrs (checkWeights False {} funds)
     (let fundTotal = foldl f_add (Fin 0) (map w_Weight funds); momTotal = foldl f_add (Fin 0) (map w_Weight momentum) in
      failIf (f_lt (f_lit (1 / 10 ^ 9)) (f_abs (f_sub fundTotal (Fin 1)))) [''bond fund fractions must sum to 1'']
      (failIf (f_lt (f_lit (98 / 100 + 1 / 10 ^ 9)) momTotal) [''momentum weights sum above the invested fraction'']
      (let scale = f_sub (Fin 1) b;
           bySymbol = foldl (addShare SleeveMomentum) [] (map (\<lambda>w. (w_Symbol w, f_mul (w_Weight w) scale)) momentum);
           bySymbol = (if f_lt (Fin 0) b
             then let bondTotal = f_mul Invested b
                  in foldl (addShare SleeveBond) bySymbol (map (\<lambda>f. (w_Symbol f, f_mul bondTotal (w_Weight f))) funds)
             else bySymbol)
       in Inr (sort_key cb_Symbol (map snd bySymbol)))))))"

section \<open>The schedule never falls\<close>

text \<open>
  A sum or difference of \<open>float64\<close> values is a multiple of the least subnormal, so its rounding is relative:
  within half a unit in the last place, and exact where it is subnormal.
\<close>

definition tiny :: rat where
  "tiny = 2 powi (-1074)"

definition tiny_mult :: "rat \<Rightarrow> bool" where
  "tiny_mult x \<longleftrightarrow> (\<exists>m. x = of_int m * tiny)"

lemma tiny_pos [simp]: "0 < tiny"
  unfolding tiny_def by (rule two_powi_pos)

lemma tiny_mult_f64: "rndq x = x \<Longrightarrow> tiny_mult x"
proof (cases "x = 0")
  case False
  assume "rndq x = x"
  then have x: "x = of_int (rne (x / 2 powi qexp x)) * 2 powi qexp x" using False by (simp add: rndq_def)
  have "0 \<le> qexp x + 1074" using qexp_ge [of x] by linarith
  then have "(2::rat) powi (qexp x + 1074) * 2 powi (-1074) = of_int (2 ^ nat (qexp x + 1074)) * tiny"
    unfolding tiny_def by (simp only: two_powi_nat)
  then have "(2::rat) powi qexp x = of_int (2 ^ nat (qexp x + 1074)) * tiny"
    unfolding two_powi_add [symmetric] by simp
  with x have "x = of_int (rne (x / 2 powi qexp x) * 2 ^ nat (qexp x + 1074)) * tiny" by (simp add: mult.assoc)
  then show ?thesis unfolding tiny_mult_def by blast
qed (auto simp: tiny_mult_def intro: exI [of _ 0])

lemma tiny_mult_diff: "tiny_mult x \<Longrightarrow> tiny_mult y \<Longrightarrow> tiny_mult (x - y)"
  unfolding tiny_mult_def by (metis left_diff_distrib of_int_diff)

lemma tiny_mult_times: "tiny_mult x \<Longrightarrow> tiny_mult (x * of_int n)"
  unfolding tiny_mult_def by (metis mult.assoc mult.commute of_int_mult)

lemma tiny_mult_rndq [simp]: "tiny_mult (rndq x)"
  by (simp add: tiny_mult_f64)

definition slack :: rat where
  "slack = 1 + 1 / 2 ^ 53"

lemma slack_ge [simp]: "1 \<le> slack" "0 < slack"
  by (simp_all add: slack_def)

lemma rndq_upper:
  assumes "0 < x"
  shows "rndq x \<le> x + 2 powi qexp x / 2"
proof -
  have "of_int (rne (x / 2 powi qexp x)) \<le> x / 2 powi qexp x + 1 / 2" using rne_bounds [of "x / 2 powi qexp x"] by simp
  then have "of_int (rne (x / 2 powi qexp x)) * 2 powi qexp x \<le> (x / 2 powi qexp x + 1 / 2) * 2 powi qexp x"
    by (intro mult_right_mono) (auto simp: less_imp_le)
  also have "\<dots> = x + 2 powi qexp x / 2" by (simp add: field_simps)
  finally show ?thesis using assms by (simp add: rndq_def)
qed

lemma rndq_normal_upper:
  assumes "0 < x" and "-1022 \<le> ilog2 x"
  shows "rndq x \<le> x * slack"
proof -
  have q: "qexp x = ilog2 x - 52" using assms by (simp add: qexp_def)
  have "(2::rat) powi (ilog2 x - 52) = 2 powi ilog2 x / 2 ^ 52" by (simp add: power_int_diff)
  also have "\<dots> \<le> x / 2 ^ 52" using ilog2_bounds(1) [OF assms(1)] by (simp only: divide_right_mono zero_le_power zero_le_numeral)
  finally have "2 powi qexp x \<le> x / 2 ^ 52" unfolding q .
  with rndq_upper [OF assms(1)] have "rndq x \<le> x + x / 2 ^ 52 / 2" by simp
  also have "\<dots> = x * slack" by (simp add: slack_def algebra_simps)
  finally show ?thesis .
qed

lemma subnormal_qexp: "0 < x \<Longrightarrow> \<not> -1022 \<le> ilog2 x \<Longrightarrow> 2 powi qexp x = tiny"
  by (simp add: qexp_def tiny_def)

lemma rndq_mult_upper:
  assumes "0 \<le> x" and "tiny_mult x"
  shows "rndq x \<le> x * slack"
proof -
  have "x * 1 \<le> x * slack" using assms(1) by (intro mult_left_mono) simp_all
  consider "x = 0" | "0 < x" "-1022 \<le> ilog2 x" | "0 < x" "\<not> -1022 \<le> ilog2 x" using assms(1) by fastforce
  then show ?thesis
  proof cases
    case 3
    obtain m where "x = of_int m * tiny" using assms(2) by (auto simp: tiny_mult_def)
    then have "x / 2 powi qexp x = of_int m" unfolding subnormal_qexp [OF 3] using tiny_pos by (simp add: less_imp_neq [symmetric])
    then have "rndq x = of_int m * 2 powi qexp x" using 3(1) by (simp add: rndq_def)
    then have "rndq x = x" unfolding subnormal_qexp [OF 3] using \<open>x = of_int m * tiny\<close> by simp
    then show ?thesis using \<open>x * 1 \<le> x * slack\<close> by simp
  qed (use rndq_normal_upper in auto)
qed

lemma rndq_le_tiny:
  assumes "0 \<le> z" and "z * slack \<le> y" and "tiny_mult y"
  shows "rndq z \<le> y"
proof -
  consider "z = 0" | "0 < z" "-1022 \<le> ilog2 z" | "0 < z" "\<not> -1022 \<le> ilog2 z" using assms(1) by fastforce
  then show ?thesis
  proof cases
    case 2
    then show ?thesis using rndq_normal_upper [of z] assms(2) by linarith
  next
    case 3
    obtain m where m: "y = of_int m * tiny" using assms(3) by (auto simp: tiny_mult_def)
    have "z * 1 \<le> z * slack" using assms(1) by (intro mult_left_mono) simp_all
    then have "z \<le> of_int m * tiny" using assms(2) m by linarith
    then have "z / tiny \<le> of_int m" by (simp only: pos_divide_le_eq [OF tiny_pos])
    then have "rne (z / tiny) \<le> m" by (rule rne_le)
    then show ?thesis using 3 m subnormal_qexp [OF 3] by (simp add: rndq_def mult_right_mono)
  qed (use assms in simp)
qed

text \<open>Interpolation between two shares, in the order the code rounds.\<close>

lemma interpolation_below:
  assumes "rndq l = l" "rndq h = h" "l \<le> h" and n: "0 \<le> n" "n < d" "d \<le> 2 ^ 50"
  shows "rndq (rndq (rndq (h - l) * of_int n) / of_int d) \<le> h - l"
proof (rule rndq_le_tiny)
  let ?x = "rndq (h - l)" and ?y = "rndq (rndq (h - l) * of_int n)"
  have x0: "0 \<le> ?x" using assms(3) by (intro rndq_nonneg) simp
  have y0: "0 \<le> ?y" using x0 n(1) by (intro rndq_nonneg) simp
  have d: "0 < (of_int d :: rat)" using n by simp
  show "0 \<le> ?y / of_int d" using y0 d by simp
  have tl: "tiny_mult (h - l)" using assms(1,2) by (intro tiny_mult_diff tiny_mult_f64)
  then show "tiny_mult (h - l)" .
  have "?x \<le> (h - l) * slack" using assms(3) tl by (intro rndq_mult_upper) simp
  moreover have "?y \<le> ?x * of_int n * slack" using x0 n(1) by (intro rndq_mult_upper tiny_mult_times tiny_mult_rndq) simp
  ultimately have "?y \<le> (h - l) * slack * of_int n * slack"
    using n(1) by (meson mult_right_mono of_int_0_le_iff order_trans slack_ge(2) less_imp_le)
  then have "?y * slack \<le> (h - l) * (slack * slack * slack * of_int n)"
    using mult_right_mono [of ?y _ slack] by (simp add: ac_simps)
  also have "\<dots> \<le> (h - l) * of_int d"
  proof (rule mult_left_mono)
    have "slack * slack * slack \<le> 1 + 1 / 2 ^ 50" by (simp add: slack_def)
    then have "slack * slack * slack * of_int n \<le> (1 + 1 / 2 ^ 50) * of_int n" using n(1) by (intro mult_right_mono) simp_all
    also have "\<dots> = of_int n + of_int n / 2 ^ 50" by (simp add: field_simps)
    also have "\<dots> \<le> of_int n + 1"
    proof -
      have "n \<le> 2 ^ 50" using n by linarith
      then have "(of_int n :: rat) \<le> 2 ^ 50" by (metis of_int_le_iff of_int_numeral of_int_power)
      then have "of_int n / 2 ^ 50 \<le> (1::rat)" by (simp only: divide_le_eq_1) simp
      then show ?thesis by simp
    qed
    also have "\<dots> \<le> of_int d" using n(2) of_int_le_iff [of "n + 1" d, where 'a = rat] by simp
    finally show "slack * slack * slack * of_int n \<le> (of_int d :: rat)" .
  qed (use assms(3) in simp)
  finally show "?y / of_int d * slack \<le> h - l" using d by (simp add: divide_le_eq)
qed

lemma f64_share: "is_f64 (Fin s) \<Longrightarrow> rndq s = s"
  by (simp add: is_f64.simps)

text \<open>An anchor whose age and share a schedule can carry, and two neighbours of a rising schedule.\<close>

definition anchor_ok :: "anchor \<Rightarrow> bool" where
  "anchor_ok a \<longleftrightarrow> 0 \<le> an_AgeYears a \<and> an_AgeYears a \<le> 2 ^ 40 \<and> is_f64 (an_Share a) \<and> f_le (Fin 0) (an_Share a) \<and> f_le (an_Share a) (Fin 1)"

fun rising :: "anchor \<Rightarrow> anchor list \<Rightarrow> bool" where
  "rising lo [] \<longleftrightarrow> True"
| "rising lo (hi # as) \<longleftrightarrow> an_AgeYears lo < an_AgeYears hi \<and> f_le (an_Share lo) (an_Share hi) \<and> rising hi as"

lemma anchor_okE:
  assumes "anchor_ok a"
  obtains s where "an_Share a = Fin s" "0 \<le> s" "s \<le> 1" "is_f64 (Fin s)" "rndq s = s"
  using assms by (cases "an_Share a") (auto simp: anchor_ok_def f64_share)

lemma is_f64_1 [simp]: "is_f64 (Fin 1)"
  by code_simp

lemma rnd_share: "0 \<le> x \<Longrightarrow> x \<le> 1 \<Longrightarrow> rnd x = Fin (rndq x)"
  using f64_between [OF is_f64_0 is_f64_1, of x] by (auto simp: rnd_eq_Fin)

lemma rnd_small: "0 \<le> x \<Longrightarrow> x \<le> 2 ^ 50 \<Longrightarrow> rnd x = Fin (rndq x)"
proof -
  assume x: "0 \<le> x" "x \<le> 2 ^ 50"
  have "is_f64 (Fin (2 ^ 50))" by code_simp
  then show ?thesis using f64_between [OF is_f64_0, of "2 ^ 50" x] x by (auto simp: rnd_eq_Fin)
qed

lemma f_of_int_age: "0 \<le> n \<Longrightarrow> n \<le> 2 ^ 50 \<Longrightarrow> f_of_int n = Fin (of_int n)"
  by (intro f_of_int_small) simp

text \<open>The value of an interpolation, as nested roundings of exact arithmetic.\<close>

definition between :: "rat \<Rightarrow> rat \<Rightarrow> int \<Rightarrow> int \<Rightarrow> rat" where
  "between l h n d = rndq (l + rndq (rndq (rndq (h - l) * of_int n) / of_int d))"

lemma interpolate_value:
  assumes "anchor_ok lo" "anchor_ok hi" "an_Share lo = Fin l" "an_Share hi = Fin h" "l \<le> h"
    and "an_AgeYears lo * 12 \<le> a" "a < an_AgeYears hi * 12"
  shows "interpolate lo hi a = Fin (between l h (a - an_AgeYears lo * 12) ((an_AgeYears hi - an_AgeYears lo) * 12))"
    and "l \<le> between l h (a - an_AgeYears lo * 12) ((an_AgeYears hi - an_AgeYears lo) * 12)"
    and "between l h (a - an_AgeYears lo * 12) ((an_AgeYears hi - an_AgeYears lo) * 12) \<le> h"
proof -
  let ?n = "a - an_AgeYears lo * 12" and ?d = "(an_AgeYears hi - an_AgeYears lo) * 12"
  have s: "0 \<le> l" "rndq l = l" "h \<le> 1" "rndq h = h" using assms(1-4) by (auto elim!: anchor_okE)
  have n: "0 \<le> ?n" "?n < ?d" "?d \<le> 2 ^ 50" using assms(1,2,6,7) by (auto simp: anchor_ok_def)
  have hl: "0 \<le> h - l" "h - l \<le> 1" using s assms(5) by linarith+
  have x: "0 \<le> rndq (h - l)" "rndq (h - l) \<le> 1" using hl f64_share [OF is_f64_1] by (auto intro: rndq_nonneg rndq_le)
  have "rndq (h - l) * of_int ?n \<le> 1 * of_int ?n" using x n(1) by (intro mult_right_mono) simp_all
  also have "\<dots> \<le> 2 ^ 50"
    using n of_int_le_iff [of ?n "2 ^ 50", where 'a = rat] by simp
  finally have y: "rndq (h - l) * of_int ?n \<le> 2 ^ 50" "0 \<le> rndq (h - l) * of_int ?n" using x n(1) by simp_all
  have z: "rndq (rndq (rndq (h - l) * of_int ?n) / of_int ?d) \<le> h - l"
    using interpolation_below [OF s(2,4) assms(5) n] .
  have d0: "0 < (of_int ?d :: rat)" using n by linarith
  have z0: "0 \<le> rndq (rndq (h - l) * of_int ?n) / of_int ?d" using y(2) d0 by (intro divide_nonneg_pos rndq_nonneg)
  have two50: "rndq (2 ^ 50) = 2 ^ 50" by code_simp
  have "rndq (rndq (h - l) * of_int ?n) \<le> 2 ^ 50" using y(1) two50 by (intro rndq_le)
  moreover have "(1::rat) \<le> of_int ?d" using n of_int_le_iff [of 1 ?d, where 'a = rat] by simp
  ultimately have q: "rndq (rndq (h - l) * of_int ?n) / of_int ?d \<le> 2 ^ 50"
    using d0 by (simp only: pos_divide_le_eq) (metis mult.right_neutral mult_left_mono order_trans zero_le_numeral zero_le_power)
  have e: "f_of_int (an_AgeYears hi * 12 - an_AgeYears lo * 12) = Fin (of_int ?d)" "f_of_int ?n = Fin (of_int ?n)"
    using n f_of_int_age [of ?d] f_of_int_age [of ?n] by (simp_all add: left_diff_distrib)
  have lz: "0 \<le> l + rndq (rndq (rndq (h - l) * of_int ?n) / of_int ?d)"
    "l + rndq (rndq (rndq (h - l) * of_int ?n) / of_int ?d) \<le> 1" using s z rndq_nonneg [OF z0] by linarith+
  show "interpolate lo hi a = Fin (between l h ?n ?d)"
    unfolding interpolate_def Let_def e assms(3,4) between_def
    using d0 by (simp only: f_sub_Fin f_mul.simps f_div.simps f_add.simps rnd_share [OF hl] rnd_small [OF y(2,1)]
      rnd_small [OF z0 q] rnd_share [OF lz] if_False less_imp_neq [symmetric])
  show "l \<le> between l h ?n ?d" unfolding between_def using s(2) z0 by (intro rndq_ge) (simp_all add: rndq_nonneg)
  show "between l h ?n ?d \<le> h" unfolding between_def using s(4) z by (intro rndq_le) simp_all
qed

lemma between_mono:
  assumes "l \<le> h" "m \<le> n" "0 < d"
  shows "between l h m d \<le> between l h n d"
proof -
  have "0 \<le> rndq (h - l)" using assms(1) by (intro rndq_nonneg) simp
  then have "rndq (h - l) * of_int m \<le> rndq (h - l) * of_int n" using assms(2) by (intro mult_left_mono) simp_all
  then show ?thesis unfolding between_def using assms(3) by (intro rndq_mono add_left_mono divide_right_mono) simp_all
qed

lemma rising_last:
  "rising lo as \<Longrightarrow> anchor_ok lo \<Longrightarrow> list_all anchor_ok as \<Longrightarrow> f_le (an_Share lo) (an_Share (last (lo # as)))"
proof (induction as arbitrary: lo)
  case Nil
  then show ?case by (auto elim!: anchor_okE)
next
  case (Cons hi as)
  then have "f_le (an_Share lo) (an_Share hi)" "f_le (an_Share hi) (an_Share (last (hi # as)))" by auto
  then show ?case by (auto intro: f_le_trans)
qed

lemma shareAt_between:
  assumes "rising lo as" "anchor_ok lo" "list_all anchor_ok as" "an_AgeYears lo * 12 \<le> a"
  shows "f_le (an_Share lo) (shareAt lo as a) \<and> f_le (shareAt lo as a) (an_Share (last (lo # as)))"
  using assms
proof (induction as arbitrary: lo)
  case Nil
  then show ?case by (auto elim!: anchor_okE)
next
  case (Cons hi as)
  then have ok: "rising hi as" "anchor_ok hi" "list_all anchor_ok as" and lh: "f_le (an_Share lo) (an_Share hi)" by simp_all
  obtain l where l: "an_Share lo = Fin l" using Cons.prems(2) by (elim anchor_okE)
  obtain h where h: "an_Share hi = Fin h" using ok(2) by (elim anchor_okE)
  note up = rising_last [OF ok]
  show ?case
  proof (cases "an_AgeYears hi * 12 \<le> a")
    case True
    have "shareAt lo (hi # as) a = (if a = an_AgeYears hi * 12 then an_Share hi else shareAt hi as a)" using True by simp
    moreover have "f_le (an_Share hi) (shareAt hi as a) \<and> f_le (shareAt hi as a) (an_Share (last (hi # as)))"
      using Cons.IH [OF ok True] .
    ultimately show ?thesis using lh up by (auto intro: f_le_trans)
  next
    case False
    then have "f_le (an_Share lo) (shareAt lo (hi # as) a)" "f_le (shareAt lo (hi # as) a) (an_Share hi)"
      using interpolate_value [OF Cons.prems(2) ok(2) l h _ Cons.prems(4)] lh l h by simp_all
    then show ?thesis using up by (auto intro: f_le_trans)
  qed
qed

lemma shareAt_mono:
  assumes "rising lo as" "anchor_ok lo" "list_all anchor_ok as" "an_AgeYears lo * 12 \<le> a" "a \<le> b"
  shows "f_le (shareAt lo as a) (shareAt lo as b)"
  using assms
proof (induction as arbitrary: lo)
  case Nil
  then show ?case by (auto elim!: anchor_okE)
next
  case (Cons hi as)
  then have ok: "rising hi as" "anchor_ok hi" "list_all anchor_ok as" and lh: "f_le (an_Share lo) (an_Share hi)" by simp_all
  obtain l where l: "an_Share lo = Fin l" using Cons.prems(2) by (elim anchor_okE)
  obtain h where h: "an_Share hi = Fin h" using ok(2) by (elim anchor_okE)
  have at: "shareAt lo (hi # as) c = (if c = an_AgeYears hi * 12 then an_Share hi else shareAt hi as c)"
    if "an_AgeYears hi * 12 \<le> c" for c using that by simp
  consider "b < an_AgeYears hi * 12" | "a < an_AgeYears hi * 12" "an_AgeYears hi * 12 \<le> b" | "an_AgeYears hi * 12 \<le> a" by linarith
  then show ?case
  proof cases
    case 1
    note v = interpolate_value(1) [OF Cons.prems(2) ok(2) l h]
    have "between l h (a - an_AgeYears lo * 12) ((an_AgeYears hi - an_AgeYears lo) * 12)
        \<le> between l h (b - an_AgeYears lo * 12) ((an_AgeYears hi - an_AgeYears lo) * 12)"
      using Cons.prems lh l h 1 by (intro between_mono) simp_all
    then show ?thesis using v [of a] v [of b] 1 Cons.prems lh l h by simp
  next
    case 2
    have "f_le (shareAt lo (hi # as) a) (an_Share hi)"
      using interpolate_value [OF Cons.prems(2) ok(2) l h _ Cons.prems(4)] 2(1) lh l h by simp
    moreover have "f_le (an_Share hi) (shareAt lo (hi # as) b)"
      using at [OF 2(2)] shareAt_between [OF ok 2(2)] h by auto
    ultimately show ?thesis by (rule f_le_trans)
  next
    case 3
    then have b: "an_AgeYears hi * 12 \<le> b" using Cons.prems(5) by linarith
    show ?thesis
      using at [OF 3] at [OF b] Cons.IH [OF ok 3 Cons.prems(5)] shareAt_between [OF ok b] h Cons.prems(5) 3 by auto
  qed
qed

lemma rising_above:
  "rising lo as \<Longrightarrow> c \<in> set as \<Longrightarrow> an_AgeYears lo < an_AgeYears c"
  by (induction as arbitrary: lo) (auto, force)

lemma shareAt_anchor:
  "rising lo as \<Longrightarrow> c \<in> set as \<Longrightarrow> shareAt lo as (an_AgeYears c * 12) = an_Share c"
proof (induction as arbitrary: lo)
  case (Cons hi as)
  then show ?case using rising_above [of hi as c] by auto
qed simp

lemma anchorErrors_ok:
  "rising lo as \<Longrightarrow> anchor_ok lo \<Longrightarrow> list_all anchor_ok as \<Longrightarrow> anchorErrors (Some lo) as = []"
proof (induction as arbitrary: lo)
  case (Cons a as)
  then obtain s where "an_Share a = Fin s" "0 \<le> s" "s \<le> 1" by (auto elim: anchor_okE)
  with Cons show ?case by simp
qed simp

section \<open>Properties\<close>

text \<open>C35: a schedule of rising anchors gives a bond share at every age, exactly each anchor's share at its age, never
  below zero or above the last anchor's, and never less at a greater age: the rounded interpolation neither
  overshoots the next anchor nor falls between two months.\<close>

theorem BondShare_never_falls:
  assumes "anchors = lo # hi # as" and "list_all anchor_ok anchors" and "rising lo (hi # as)" and "an_Share lo = Fin 0" and "a \<le> b"
  shows "\<exists>x y. BondShare anchors a = Inr x \<and> BondShare anchors b = Inr y \<and> f_le (Fin 0) x \<and> f_le x y \<and>
      f_le y (an_Share (last anchors)) \<and> list_all (\<lambda>c. BondShare anchors (an_AgeYears c * 12) = Inr (an_Share c)) anchors"
proof -
  have ok: "anchor_ok lo" "list_all anchor_ok (hi # as)" using assms(1,2) by simp_all
  have noerr: "anchorErrors None anchors = []"
    using anchorErrors_ok [OF assms(3) ok] assms(1,4) by simp
  have e: "BondShare anchors c = Inr (if c \<le> an_AgeYears lo * 12 then Fin 0 else shareAt lo (hi # as) c)" for c
    using noerr assms(1,4) by (simp add: BondShare_def del: shareAt.simps anchorErrors.simps)
  note btw = shareAt_between [OF assms(3) ok, unfolded assms(4)] and mono = shareAt_mono [OF assms(3) ok _ assms(5)]
  have top: "f_le (Fin 0) (an_Share (last anchors))" using rising_last [OF assms(3) ok] assms(1,4) by simp
  have "an_AgeYears c * 12 \<le> an_AgeYears lo * 12 \<longleftrightarrow> c = lo" if "c \<in> set anchors" for c
    using that assms(1) rising_above [OF assms(3), of c] by auto
  then have "list_all (\<lambda>c. BondShare anchors (an_AgeYears c * 12) = Inr (an_Share c)) anchors"
    using shareAt_anchor [OF assms(3)] assms(1,4) unfolding list_all_iff e by auto
  moreover have "f_le (Fin 0) (if a \<le> an_AgeYears lo * 12 then Fin 0 else shareAt lo (hi # as) a)"
    using btw [of a] by (simp del: shareAt.simps)
  moreover have "f_le (if a \<le> an_AgeYears lo * 12 then Fin 0 else shareAt lo (hi # as) a) (if b \<le> an_AgeYears lo * 12 then Fin 0 else shareAt lo (hi # as) b)"
    using btw [of b] mono assms(5) by (auto simp del: shareAt.simps)
  moreover have "f_le (if b \<le> an_AgeYears lo * 12 then Fin 0 else shareAt lo (hi # as) b) (an_Share (last anchors))"
    using btw [of b] top assms(1) by (simp del: shareAt.simps)
  ultimately show ?thesis unfolding e by blast
qed

lemma DefaultAnchors_values:
  "DefaultAnchors = [\<lparr>an_AgeYears = 38, an_Share = Fin 0\<rparr>, \<lparr>an_AgeYears = 53, an_Share = Fin (5548434740920451 / 18014398509481984)\<rparr>,
     \<lparr>an_AgeYears = 65, an_Share = Fin (1 / 2)\<rparr>, \<lparr>an_AgeYears = 72, an_Share = Fin (3152519739159347 / 4503599627370496)\<rparr>]"
proof -
  have "f_lit (308 / 1000) = Fin (5548434740920451 / 18014398509481984)" by code_simp
  moreover have "f_lit (5 / 10) = Fin (1 / 2)" by code_simp
  moreover have "f_lit (7 / 10) = Fin (3152519739159347 / 4503599627370496)" by code_simp
  ultimately show ?thesis by (simp add: DefaultAnchors_def)
qed

theorem BondShare_never_falls_witness:
  "\<exists>x y. BondShare DefaultAnchors 600 = Inr x \<and> BondShare DefaultAnchors 601 = Inr y \<and> f_le (Fin 0) x \<and> f_le x y \<and>
      f_le y (an_Share (last DefaultAnchors)) \<and>
      list_all (\<lambda>c. BondShare DefaultAnchors (an_AgeYears c * 12) = Inr (an_Share c)) DefaultAnchors"
proof (rule BondShare_never_falls [OF DefaultAnchors_values])
  have "is_f64 (Fin (5548434740920451 / 18014398509481984))" "is_f64 (Fin (1 / 2))"
    "is_f64 (Fin (3152519739159347 / 4503599627370496))" by code_simp+
  then show "list_all anchor_ok DefaultAnchors" by (simp add: DefaultAnchors_values anchor_ok_def)
qed simp_all

section \<open>The sleeves are exact\<close>

lemma mget_foldl_addShare:
  assumes "distinct (map fst ws)"
  shows "map_of (foldl (addShare sleeve) m ws) s =
     (case map_of ws s of None \<Rightarrow> map_of m s
      | Some w \<Rightarrow> (let t = mget m s \<lparr>cb_Symbol = s, cb_Weight = Fin 0, cb_Shares = []\<rparr> in
          Some (t\<lparr>cb_Weight := f_add (cb_Weight t) w, cb_Shares := cb_Shares t @ [\<lparr>sp_Sleeve = sleeve, sp_Weight = w\<rparr>]\<rparr>)))"
  using assms
proof (induction ws arbitrary: m)
  case (Cons x ws)
  obtain k v where x: "x = (k, v)" by fastforce
  have "map_of ws k = None" using Cons.prems x by (simp add: map_of_eq_None_iff)
  then show ?case using Cons x by (auto simp: addShare_def mget_def Let_def split: option.splits)
qed simp

lemma keys_foldl_addShare:
  "distinct (map fst m) \<Longrightarrow> distinct (map fst (foldl (addShare sleeve) m ws))"
proof (induction ws arbitrary: m)
  case (Cons x ws)
  have "distinct (map fst (addShare sleeve m x))"
    using Cons.prems by (auto simp: addShare_def case_prod_unfold Let_def mput_def mdel_def distinct_map_filter)
  then show ?case using Cons.IH by simp
qed simp

lemma symbols_foldl_addShare:
  "(\<And>k t. (k, t) \<in> set m \<Longrightarrow> cb_Symbol t = k) \<Longrightarrow> (k, t) \<in> set (foldl (addShare sleeve) m ws) \<Longrightarrow> cb_Symbol t = k"
proof (induction ws arbitrary: m)
  case (Cons x ws)
  have "cb_Symbol t = k" if "(k, t) \<in> set (addShare sleeve m x)" for k t
    using that Cons.prems(1) by (auto simp: addShare_def case_prod_unfold Let_def mput_def mdel_def mget_def
        split: option.splits dest!: map_of_SomeD)
  then show ?case using Cons.IH Cons.prems(2) by auto
qed simp

lemma checkWeights_distinct:
  "checkWeights z seen ws = [] \<Longrightarrow> distinct (map w_Symbol ws) \<and> seen \<inter> w_Symbol ` set ws = {} \<and>
     (\<forall>w \<in> set ws. isFinite (w_Weight w) \<and> f_nonneg (w_Weight w))"
proof (induction ws arbitrary: seen)
  case (Cons w ws)
  then have "checkWeights z (insert (w_Symbol w) seen) ws = []" "w_Symbol w \<notin> seen" "isFinite (w_Weight w)" "\<not> f_lt (w_Weight w) (Fin 0)"
    by (auto split: if_splits)
  moreover from this have "f_nonneg (w_Weight w)" by (cases "w_Weight w") (auto simp: f_nonneg_def)
  ultimately show ?case using Cons.IH by fastforce
qed simp

text \<open>What each sleeve gives a symbol.\<close>

definition momentum_part :: "weight list \<Rightarrow> f64 \<Rightarrow> string \<Rightarrow> sleeve_part list" where
  "momentum_part momentum b s = (case map_of (map (\<lambda>w. (w_Symbol w, w_Weight w)) momentum) s of None \<Rightarrow> []
     | Some v \<Rightarrow> [\<lparr>sp_Sleeve = SleeveMomentum, sp_Weight = f_mul v (f_sub (Fin 1) b)\<rparr>])"

definition bond_part :: "weight list \<Rightarrow> f64 \<Rightarrow> string \<Rightarrow> sleeve_part list" where
  "bond_part funds b s = (if f_lt (Fin 0) b
     then case map_of (map (\<lambda>w. (w_Symbol w, w_Weight w)) funds) s of None \<Rightarrow> []
       | Some v \<Rightarrow> [\<lparr>sp_Sleeve = SleeveBond, sp_Weight = f_mul (f_mul Invested b) v\<rparr>]
     else [])"

definition parts_sum :: "sleeve_part list \<Rightarrow> f64" where
  "parts_sum ps = foldl f_add (Fin 0) (map sp_Weight ps)"

lemma map_of_scaled:
  "map_of (map (\<lambda>w. (w_Symbol w, g (w_Weight w))) ws) s = map_option g (map_of (map (\<lambda>w. (w_Symbol w, w_Weight w)) ws) s)"
  by (induction ws) auto

definition sleeves :: "weight list \<Rightarrow> f64 \<Rightarrow> weight list \<Rightarrow> (string, combined) gomap" where
  "sleeves momentum b funds =
     (let m = foldl (addShare SleeveMomentum) [] (map (\<lambda>w. (w_Symbol w, f_mul (w_Weight w) (f_sub (Fin 1) b))) momentum)
      in if f_lt (Fin 0) b then foldl (addShare SleeveBond) m (map (\<lambda>f. (w_Symbol f, f_mul (f_mul Invested b) (w_Weight f))) funds) else m)"

lemma Combine_Inr:
  "Combine momentum b funds = Inr ts \<Longrightarrow> checkWeights True {} momentum = [] \<and> checkWeights False {} funds = [] \<and>
     ts = sort_key cb_Symbol (map snd (sleeves momentum b funds))"
  by (auto simp: Combine_def sleeves_def Let_def)

lemma sleeves_map_of:
  assumes "distinct (map w_Symbol momentum)" "distinct (map w_Symbol funds)"
  shows "map_of (sleeves momentum b funds) s =
     (let ps = momentum_part momentum b s @ bond_part funds b s
      in if ps = [] then None else Some \<lparr>cb_Symbol = s, cb_Weight = parts_sum ps, cb_Shares = ps\<rparr>)"
  using assms
  by (auto simp: sleeves_def mget_foldl_addShare mget_def momentum_part_def bond_part_def parts_sum_def Let_def o_def
      map_of_scaled [where g = "\<lambda>v. f_mul v (f_sub (Fin 1) b)"] map_of_scaled [where g = "f_mul (f_mul Invested b)"]
      split: option.splits)

lemma sleeves_keys:
  "distinct (map fst (sleeves momentum b funds)) \<and> (\<forall>(k, t) \<in> set (sleeves momentum b funds). cb_Symbol t = k)"
  unfolding sleeves_def Let_def
  by (auto intro!: keys_foldl_addShare dest!: symbols_foldl_addShare [rotated])

text \<open>Combining the sleeves gives one target per symbol of either sleeve, in ascending order of symbol, whose
  shares are exactly its momentum weight scaled by one minus the bond share and its part of the bond sleeve, momentum
  first, and whose weight is their sum; the bond sleeve is empty when the bond share is zero.\<close>

theorem Combine_exact:
  assumes "Combine momentum b funds = Inr ts"
  shows "strict_asc (map cb_Symbol ts) \<and>
     cb_Symbol ` set ts = w_Symbol ` set momentum \<union> (if f_lt (Fin 0) b then w_Symbol ` set funds else {}) \<and>
     list_all (\<lambda>t. cb_Shares t = momentum_part momentum b (cb_Symbol t) @ bond_part funds b (cb_Symbol t) \<and>
       cb_Weight t = parts_sum (cb_Shares t)) ts"
proof -
  let ?m = "sleeves momentum b funds"
  from Combine_Inr [OF assms] have ts: "ts = sort_key cb_Symbol (map snd ?m)"
    and d: "distinct (map w_Symbol momentum)" "distinct (map w_Symbol funds)"
    using checkWeights_distinct by blast+
  note of = sleeves_map_of [OF d, of b]
  have sym: "map cb_Symbol (map snd ?m) = map fst ?m" using sleeves_keys [of momentum b funds] by auto
  have "strict_asc (map cb_Symbol ts)"
    using sleeves_keys [of momentum b funds] sym unfolding ts strict_asc_def
    by (metis distinct_map distinct_sort set_sort sorted_sort_key)
  moreover have "cb_Symbol ` set ts = dom (map_of ?m)"
    using sym unfolding ts by (metis dom_map_of_conv_image_fst image_set set_sort)
  moreover have "dom (map_of ?m) = w_Symbol ` set momentum \<union> (if f_lt (Fin 0) b then w_Symbol ` set funds else {})"
  proof -
    have "s \<in> dom (map_of ?m) \<longleftrightarrow> s \<in> w_Symbol ` set momentum \<or> (f_lt (Fin 0) b \<and> s \<in> w_Symbol ` set funds)" for s
      using map_of_eq_None_iff [of "map (\<lambda>w. (w_Symbol w, w_Weight w)) momentum" s]
        map_of_eq_None_iff [of "map (\<lambda>w. (w_Symbol w, w_Weight w)) funds" s]
      by (auto simp: dom_def of Let_def momentum_part_def bond_part_def image_image split: option.splits)
    then show ?thesis by (intro set_eqI) simp
  qed
  moreover have "cb_Shares t = momentum_part momentum b (cb_Symbol t) @ bond_part funds b (cb_Symbol t) \<and>
      cb_Weight t = parts_sum (cb_Shares t)" if "t \<in> set ts" for t
  proof -
    obtain k where k: "(k, t) \<in> set ?m" using \<open>t \<in> set ts\<close> ts by auto
    then have "map_of ?m k = Some t" "cb_Symbol t = k" using sleeves_keys [of momentum b funds] by (auto intro: map_of_is_SomeI)
    then have "t = \<lparr>cb_Symbol = cb_Symbol t, cb_Weight = parts_sum (momentum_part momentum b (cb_Symbol t) @ bond_part funds b (cb_Symbol t)),
        cb_Shares = momentum_part momentum b (cb_Symbol t) @ bond_part funds b (cb_Symbol t)\<rparr>"
      using of [of k] by (auto simp: Let_def split: if_splits)
    then show ?thesis by (metis combined.select_convs(2,3))
  qed
  ultimately show ?thesis by (simp add: list_all_iff)
qed

theorem Combine_exact_witness:
  "\<exists>ts. Combine [\<lparr>w_Symbol = ''IEF'', w_Weight = Fin (1 / 2)\<rparr>] (Fin (1 / 2)) DefaultBondFunds = Inr ts \<and>
     map cb_Symbol ts = [''IEF'', ''SHY''] \<and>
     list_all (\<lambda>t. cb_Shares t = momentum_part [\<lparr>w_Symbol = ''IEF'', w_Weight = Fin (1 / 2)\<rparr>] (Fin (1 / 2)) (cb_Symbol t) @
       bond_part DefaultBondFunds (Fin (1 / 2)) (cb_Symbol t)) ts"
proof -
  have "isl (Combine [\<lparr>w_Symbol = ''IEF'', w_Weight = Fin (1 / 2)\<rparr>] (Fin (1 / 2)) DefaultBondFunds) = False"
    by code_simp
  then obtain ts where ts: "Combine [\<lparr>w_Symbol = ''IEF'', w_Weight = Fin (1 / 2)\<rparr>] (Fin (1 / 2)) DefaultBondFunds = Inr ts"
    by (cases "Combine [\<lparr>w_Symbol = ''IEF'', w_Weight = Fin (1 / 2)\<rparr>] (Fin (1 / 2)) DefaultBondFunds") auto
  note e = Combine_exact [OF ts]
  have "set (map cb_Symbol ts) = set [''IEF'', ''SHY'']" using e by (auto simp: DefaultBondFunds_def)
  moreover have "strict_asc [''IEF'', ''SHY'']" by code_simp
  ultimately have "map cb_Symbol ts = [''IEF'', ''SHY'']" using e unfolding strict_asc_def
    by (metis sorted_distinct_set_unique)
  with e ts show ?thesis by (auto simp: list_all_iff)
qed

end
