(* ===== verification/Dates.thy ===== *)
theory Dates
  imports ReconcileEvents
begin

text \<open>
  Dates as their \<open>YYYY-MM-DD\<close> strings (\<open>time.DateOnly\<close>): what \<open>time.Parse\<close> accepts, the civil day it gives,
  and what \<open>Format\<close> writes for a day of a year from 0 to 9999. Session dates are kept and compared as these
  strings, so their byte order has to be the order of the days: \<open>dateOnly_order\<close>.
\<close>

definition dateDigits :: "string \<Rightarrow> string" where
  "dateDigits s = take 4 s @ take 2 (drop 5 s) @ drop 8 s"

definition parsesDateOnly :: "string \<Rightarrow> bool" where
  "parsesDateOnly s \<longleftrightarrow> length s = 10 \<and> take 1 (drop 4 s) = ''-'' \<and> take 1 (drop 7 s) = ''-'' \<and> parsesDay8 (dateDigits s)"

definition dateYear :: "string \<Rightarrow> int" where
  "dateYear s = int (digitsVal (take 4 s))"

definition dateMonth :: "string \<Rightarrow> int" where
  "dateMonth s = int (digitsVal (take 2 (drop 5 s)))"

definition dateOfMonth :: "string \<Rightarrow> int" where
  "dateOfMonth s = int (digitsVal (drop 8 s))"

definition dateDay :: "string \<Rightarrow> int" where
  "dateDay s = civil (dateYear s) (dateMonth s) (dateOfMonth s)"

definition formatDateOnly :: "int \<Rightarrow> string" where
  "formatDateOnly d = (let s = formatDay8 d in take 4 s @ ''-'' @ take 2 (drop 4 s) @ ''-'' @ drop 6 s)"

end
