(* ===== verification/Momentum.thy ===== *)
theory Momentum
  imports Dates
begin

text \<open>
  \<open>targetweight/momentum\<close>, the rule's configuration, universe ranking, scores and trend (\<open>config.go\<close>,
  \<open>universe.go\<close>, \<open>history.go\<close> and the score and trend of \<open>backtest.go\<close>). A Go \<open>map\<close> of closes is an association
  list with one pair per session. \<open>sort.Slice\<close> under a comparison that orders every two of the elements is the
  insertion sort \<open>sortBy\<close>, which is stable, as \<open>sort.SliceStable\<close> is. Counts and ranks are Go \<open>int\<close>s that
  no universe comes near to overflowing, and are integers here.
\<close>

section \<open>Square roots\<close>

text \<open>
  \<open>math.Sqrt\<close>, correctly rounded. The root is taken of an integer of more than 116 bits, so that its integer part has
  more bits than a significand and a midpoint together; what the integer part leaves over only says on which side of
  it the root lies, which half a unit records. \<open>sqrt_approx_side\<close>: against every multiple of the unit, so against every
  \<open>float64\<close> and midpoint near it, the approximation compares as the root does.
\<close>

function isqrt :: "int \<Rightarrow> int" where
  "isqrt n = (if n \<le> 0 then 0 else let r = 2 * isqrt (n div 4) in if (r + 1) * (r + 1) \<le> n then r + 1 else r)"
  by pat_completeness auto
termination
  by (relation "measure nat") auto

declare isqrt.simps [simp del]

lemma isqrt_spec: "0 \<le> n \<Longrightarrow> 0 \<le> isqrt n \<and> isqrt n * isqrt n \<le> n \<and> n < (isqrt n + 1) * (isqrt n + 1)"
proof (induction n rule: isqrt.induct)
  case (1 n)
  show ?case
  proof (cases "n = 0")
    case False
    let ?r = "isqrt (n div 4)"
    have IH: "0 \<le> ?r" "?r * ?r \<le> n div 4" "n div 4 < (?r + 1) * (?r + 1)" using 1 False by auto
    have "(2 * ?r) * (2 * ?r) \<le> n" using IH(2) by simp
    moreover have "n < (2 * ?r + 2) * (2 * ?r + 2)" using IH(3) by (simp add: algebra_simps)
    ultimately show ?thesis using False 1 IH(1) by (simp add: isqrt.simps [of n] Let_def algebra_simps)
  qed (simp add: isqrt.simps)
qed

definition sqrt_unit :: "rat \<Rightarrow> int" where
  "sqrt_unit x = 60 - ilog2 x div 2"

definition sqrt_approx :: "rat \<Rightarrow> rat" where
  "sqrt_approx x = (let k = sqrt_unit x; y = x * 2 powi (2 * k); s = isqrt \<lfloor>y\<rfloor> in
     (if of_int (s * s) = y then of_int s else of_int s + 1 / 2) / 2 powi k)"

lemma sqrt_approx_side:
  assumes "0 < x" and "0 \<le> m"
  shows "of_int m / 2 powi sqrt_unit x \<le> sqrt_approx x \<longleftrightarrow> (of_int m / 2 powi sqrt_unit x) * (of_int m / 2 powi sqrt_unit x) \<le> x"
    and "sqrt_approx x \<le> of_int m / 2 powi sqrt_unit x \<longleftrightarrow> x \<le> (of_int m / 2 powi sqrt_unit x) * (of_int m / 2 powi sqrt_unit x)"
proof -
  define k where "k = sqrt_unit x"
  define y where "y = x * 2 powi (2 * k)"
  define s where "s = isqrt \<lfloor>y\<rfloor>"
  define a where "a = (if of_int (s * s) = y then of_int s else of_int s + 1 / 2 :: rat)"
  have y0: "0 < y" using assms(1) by (simp add: y_def)
  then have "0 \<le> \<lfloor>y\<rfloor>" by simp
  from isqrt_spec [OF this] have s: "0 \<le> s" "s * s \<le> \<lfloor>y\<rfloor>" "\<lfloor>y\<rfloor> < (s + 1) * (s + 1)" by (simp_all add: s_def)
  have s1: "of_int (s * s) \<le> y" using s(2) by (simp only: le_floor_iff)
  have s2: "y < of_int ((s + 1) * (s + 1))" using s(3) by (simp only: floor_less_iff)
  have e: "sqrt_approx x = a / 2 powi k" by (simp add: sqrt_approx_def Let_def k_def y_def s_def a_def)
  have pk: "2 powi (2 * k) = (2 powi k * 2 powi k :: rat)" by (metis mult_2 two_powi_add)
  have sq: "(of_int m / 2 powi k) * (of_int m / 2 powi k) = (of_int (m * m) / 2 powi (2 * k) :: rat)" by (simp add: pk)
  have le: "of_int m \<le> a \<longleftrightarrow> of_int (m * m) \<le> y"
  proof (cases "m \<le> s")
    case True
    then have "m * m \<le> s * s" using assms(2) by (intro mult_mono) auto
    then have "(of_int (m * m) :: rat) \<le> of_int (s * s)" by (simp only: of_int_le_iff)
    moreover have "of_int m \<le> a" using True by (simp add: a_def)
    ultimately show ?thesis using s1 by linarith
  next
    case False
    then have "(s + 1) * (s + 1) \<le> m * m" using s(1) by (intro mult_mono) auto
    then have "(of_int ((s + 1) * (s + 1)) :: rat) \<le> of_int (m * m)" by (simp only: of_int_le_iff)
    moreover have "(of_int (s + 1) :: rat) \<le> of_int m" using False by (simp only: of_int_le_iff)
    then have "a < of_int m" by (simp add: a_def)
    ultimately show ?thesis using s2 by linarith
  qed
  have ge: "a \<le> of_int m \<longleftrightarrow> y \<le> of_int (m * m)"
  proof (cases "m \<le> s")
    case True
    then have "m * m \<le> s * s" using assms(2) by (intro mult_mono) auto
    then have mm: "(of_int (m * m) :: rat) \<le> of_int (s * s)" by (simp only: of_int_le_iff)
    show ?thesis
    proof (cases "of_int (s * s) = y")
      case True
      show ?thesis
      proof (cases "m = s")
        case False
        then have "m * m < s * s" using \<open>m \<le> s\<close> assms(2) by (intro mult_strict_mono) auto
        then have "(of_int (m * m) :: rat) < of_int (s * s)" by (simp only: of_int_less_iff)
        moreover have "(of_int m :: rat) < of_int s" using False \<open>m \<le> s\<close> by (simp only: of_int_less_iff)
        ultimately show ?thesis using True by (simp add: a_def)
      qed (use True in \<open>simp add: a_def\<close>)
    next
      case False
      then have "of_int (s * s) < y" using s1 by linarith
      moreover have "(of_int m :: rat) \<le> of_int s" using \<open>m \<le> s\<close> by (simp only: of_int_le_iff)
      then have "of_int m < a" using False by (simp add: a_def)
      ultimately show ?thesis using mm by linarith
    qed
  next
    case False
    then have "(s + 1) * (s + 1) \<le> m * m" using s(1) by (intro mult_mono) auto
    then have "(of_int ((s + 1) * (s + 1)) :: rat) \<le> of_int (m * m)" by (simp only: of_int_le_iff)
    moreover have "(of_int (s + 1) :: rat) \<le> of_int m" using False by (simp only: of_int_le_iff)
    then have "a \<le> of_int m" by (simp add: a_def)
    ultimately show ?thesis using s2 by linarith
  qed
  have p: "0 < (2::rat) powi k" "0 < (2::rat) powi (2 * k)" by simp_all
  then have np: "\<not> (2::rat) powi k < 0" by linarith
  show "of_int m / 2 powi sqrt_unit x \<le> sqrt_approx x \<longleftrightarrow> (of_int m / 2 powi sqrt_unit x) * (of_int m / 2 powi sqrt_unit x) \<le> x"
    unfolding k_def [symmetric] e sq divide_le_cancel using p np le by (simp add: y_def pos_divide_le_eq)
  show "sqrt_approx x \<le> of_int m / 2 powi sqrt_unit x \<longleftrightarrow> x \<le> (of_int m / 2 powi sqrt_unit x) * (of_int m / 2 powi sqrt_unit x)"
    unfolding k_def [symmetric] e sq divide_le_cancel using p np ge by (simp add: y_def pos_le_divide_eq)
qed

fun f_sqrt :: "f64 \<Rightarrow> f64" where
  "f_sqrt (Fin x) = (if x < 0 then NaN else if x = 0 then Fin 0 else rnd (sqrt_approx x))"
| "f_sqrt PInf = PInf"
| "f_sqrt NInf = NaN"
| "f_sqrt NaN = NaN"

section \<open>Sorting\<close>

fun insertBy :: "('a \<Rightarrow> 'a \<Rightarrow> bool) \<Rightarrow> 'a \<Rightarrow> 'a list \<Rightarrow> 'a list" where
  "insertBy lt x [] = [x]"
| "insertBy lt x (y # ys) = (if lt y x then y # insertBy lt x ys else x # y # ys)"

definition sortBy :: "('a \<Rightarrow> 'a \<Rightarrow> bool) \<Rightarrow> 'a list \<Rightarrow> 'a list" where
  "sortBy lt xs = foldr (insertBy lt) xs []"

section \<open>The configuration (config.go)\<close>

record momentum_config =
  mc_ListingType :: string
  mc_UniverseSize :: int
  mc_MinPrice :: f64
  mc_ScoreLookback :: int
  mc_ScoreSkip :: int
  mc_VolatilityReturns :: int
  mc_TopN :: int
  mc_SectorCap :: int
  mc_Invested :: f64
  mc_TrendInstrument :: string
  mc_TrendCloses :: int
  mc_RiskOffInstrument :: string
  mc_RiskOffFraction :: f64
  mc_MaxUnlabelledShare :: f64

definition FCombo :: momentum_config where
  "FCombo = \<lparr>mc_ListingType = ''CS'', mc_UniverseSize = 500, mc_MinPrice = Fin 5, mc_ScoreLookback = 252, mc_ScoreSkip = 21,
     mc_VolatilityReturns = 252, mc_TopN = 25, mc_SectorCap = 3, mc_Invested = f_lit (98 / 100), mc_TrendInstrument = ''SPY'',
     mc_TrendCloses = 200, mc_RiskOffInstrument = ''IEF'', mc_RiskOffFraction = f_lit (5 / 10), mc_MaxUnlabelledShare = f_lit (20 / 100)\<rparr>"

definition Config_Validate :: "momentum_config \<Rightarrow> err list" where
  "Config_Validate c =
     (if mc_ListingType c = '''' then [''empty listing type'']
      else if mc_UniverseSize c < 1 then [''universe size below 1'']
      else if \<not> isFinite (mc_MinPrice c) \<or> f_lt (mc_MinPrice c) (Fin 0) then [''price floor'']
      else if mc_ScoreLookback c < 1 then [''score lookback below 1'']
      else if mc_ScoreSkip c < 0 \<or> mc_ScoreSkip c \<ge> mc_ScoreLookback c then [''score skip out of range'']
      else if mc_VolatilityReturns c < 2 \<or> mc_VolatilityReturns c > mc_ScoreLookback c then [''volatility returns out of range'']
      else if mc_TopN c < 1 then [''top below 1'']
      else if mc_SectorCap c < 1 then [''sector cap below 1'']
      else if \<not> isFinite (mc_Invested c) \<or> f_le (mc_Invested c) (Fin 0) \<or> f_lt (Fin 1) (mc_Invested c) then [''invested outside (0, 1]'']
      else if mc_TrendInstrument c = '''' \<or> mc_RiskOffInstrument c = '''' then [''empty trend or risk-off instrument'']
      else if mc_TrendInstrument c = mc_RiskOffInstrument c then [''trend and risk-off instrument are the same'']
      else if mc_TrendCloses c < 1 then [''trend closes below 1'']
      else if \<not> isFinite (mc_RiskOffFraction c) \<or> f_lt (mc_RiskOffFraction c) (Fin 0) \<or> f_lt (Fin 1) (mc_RiskOffFraction c) then [''risk-off fraction outside [0, 1]'']
      else if \<not> isFinite (mc_MaxUnlabelledShare c) \<or> f_le (mc_MaxUnlabelledShare c) (Fin 0) \<or> f_le (Fin 1) (mc_MaxUnlabelledShare c)
        then [''unlabelled share ceiling outside (0, 1)'']
      else [])"

section \<open>The universe (universe.go)\<close>

record row =
  row_InstrumentID :: string
  row_Type :: string
  row_Close :: f64
  row_Volume :: f64
  row_Sector :: string
  row_SectorSource :: string

record member = row +
  mb_Rank :: int
  mb_DollarVolume :: f64

record universe_counts =
  uc_Rows :: int
  uc_CommonStock :: int
  uc_AtOrAboveFloor :: int
  uc_Members :: int

definition Row_validate :: "row \<Rightarrow> err list" where
  "Row_validate r =
     (if row_InstrumentID r = '''' then [''universe row with empty instrument ID'']
      else if \<not> isFinite (row_Close r) \<or> f_lt (row_Close r) (Fin 0) then [''universe row close'']
      else if \<not> isFinite (row_Volume r) \<or> f_lt (row_Volume r) (Fin 0) then [''universe row volume'']
      else [])"

definition asMember :: "row \<Rightarrow> f64 \<Rightarrow> member" where
  "asMember r v = row.extend r \<lparr>mb_Rank = 0, mb_DollarVolume = v\<rparr>"

text \<open>The loop over the rows: the instruments seen, the counts, and the members kept so far.\<close>

fun keepRows :: "momentum_config \<Rightarrow> string set \<Rightarrow> universe_counts \<Rightarrow> member list \<Rightarrow> row list \<Rightarrow> (err list, member list \<times> universe_counts) result" where
  "keepRows cfg seen counts kept [] = Inr (kept, counts)"
| "keepRows cfg seen counts kept (r # listed) =
     joinErrs (Row_validate r)
     (failIf (row_InstrumentID r \<in> seen) [''universe row repeated'']
     (let seen = insert (row_InstrumentID r) seen in
      if row_Type r \<noteq> mc_ListingType cfg then keepRows cfg seen counts kept listed
      else let counts = counts\<lparr>uc_CommonStock := uc_CommonStock counts + 1\<rparr> in
        if f_lt (row_Close r) (mc_MinPrice cfg) then keepRows cfg seen counts kept listed
        else keepRows cfg seen (counts\<lparr>uc_AtOrAboveFloor := uc_AtOrAboveFloor counts + 1\<rparr>)
          (kept @ [asMember r (f_mul (row_Close r) (row_Volume r))]) listed))"

definition rankBefore :: "member \<Rightarrow> member \<Rightarrow> bool" where
  "rankBefore a b = (if f_ne (mb_DollarVolume a) (mb_DollarVolume b) then f_lt (mb_DollarVolume b) (mb_DollarVolume a)
     else row_InstrumentID a < row_InstrumentID b)"

definition numberRanks :: "member list \<Rightarrow> member list" where
  "numberRanks ms = map (\<lambda>(i, m). m\<lparr>mb_Rank := int i + 1\<rparr>) (zip [0..<length ms] ms)"

definition RankUniverse :: "momentum_config \<Rightarrow> row list \<Rightarrow> (err list, member list \<times> universe_counts) result" where
  "RankUniverse cfg listed =
     joinErrs (Config_Validate cfg)
     (bindr (keepRows cfg {} \<lparr>uc_Rows = int (length listed), uc_CommonStock = 0, uc_AtOrAboveFloor = 0, uc_Members = 0\<rparr> [] listed)
       (\<lambda>(kept, counts).
          let kept = sortBy rankBefore kept;
              kept = (if int (length kept) > mc_UniverseSize cfg then take (nat (mc_UniverseSize cfg)) kept else kept);
              kept = numberRanks kept
          in Inr (kept, counts\<lparr>uc_Members := int (length kept)\<rparr>)))"

section \<open>Scores and the trend (history.go)\<close>

datatype (plugins only: code size) momentum_status =
  StatusScored | StatusPicked | StatusSectorCapped | StatusBeyondTopN | StatusZeroVolatility | StatusShortHistory | StatusGap
| StatusUnaffordable | StatusHeldOneLotShort

record history =
  hi_Status :: momentum_status
  hi_Closes :: int
  hi_Score :: f64
  hi_Volatility :: f64
  hi_GapSessions :: "string list"

type_synonym closes = "(string, f64) gomap"

text \<open>A name with no map of closes has none of them.\<close>

fun checkCalendarFrom :: "string option \<Rightarrow> string list \<Rightarrow> err list" where
  "checkCalendarFrom before [] = []"
| "checkCalendarFrom before (s # ss) =
     (if \<not> parsesDateOnly s then [''session is not a date'']
      else if (case before of Some b \<Rightarrow> s \<le> b | None \<Rightarrow> False) then [''session does not follow'']
      else checkCalendarFrom (Some s) ss)"

definition checkCalendar :: "string list \<Rightarrow> err list" where
  "checkCalendar sessions = (if sessions = [] then [''empty session calendar''] else checkCalendarFrom None sessions)"

fun checkClosesOn :: "string set \<Rightarrow> closes \<Rightarrow> err list" where
  "checkClosesOn on [] = []"
| "checkClosesOn on ((s, p) # cs) =
     (if s \<notin> on then [''close is on no calendar session'']
      else if \<not> isFinite p \<or> f_le p (Fin 0) then [''close is not finite and positive'']
      else checkClosesOn on cs)"

definition checkCloses :: "string list \<Rightarrow> closes \<Rightarrow> err list" where
  "checkCloses sessions closes = checkClosesOn (set sessions) closes"

definition checkInputs :: "string list \<Rightarrow> closes \<Rightarrow> err list" where
  "checkInputs sessions closes = (let e = checkCalendar sessions in if e \<noteq> [] then e else checkCloses sessions closes)"

definition lastSessions :: "nat \<Rightarrow> string list \<Rightarrow> string list" where
  "lastSessions n sessions = drop (length sessions - n) sessions"

definition lastCloses :: "string list \<Rightarrow> closes \<Rightarrow> nat \<Rightarrow> f64 list option" where
  "lastCloses sessions closes n =
     (let w = lastSessions n sessions in
      if list_all (\<lambda>s. map_of closes s \<noteq> None) w then Some (map (\<lambda>s. mget closes s (Fin 0)) w) else None)"

text \<open>\<open>lastClosesHad\<close> (\<open>backtest.go\<close>): from the last session backwards, the closes there are, \<open>n\<close> at most.\<close>

fun closesHad :: "closes \<Rightarrow> nat \<Rightarrow> string list \<Rightarrow> f64 list" where
  "closesHad closes n [] = []"
| "closesHad closes n (s # ss) =
     (if n = 0 then [] else case map_of closes s of Some p \<Rightarrow> p # closesHad closes (n - 1) ss | None \<Rightarrow> closesHad closes n ss)"

definition lastClosesHad :: "string list \<Rightarrow> closes \<Rightarrow> nat \<Rightarrow> f64 list option" where
  "lastClosesHad sessions closes n = Some (rev (closesHad closes n (rev sessions)))"

fun gapsBack :: "closes \<Rightarrow> nat \<Rightarrow> string list \<Rightarrow> string list" where
  "gapsBack closes n [] = []"
| "gapsBack closes n (s # ss) =
     (if n = 0 then [] else case map_of closes s of Some p \<Rightarrow> gapsBack closes (n - 1) ss | None \<Rightarrow> s # gapsBack closes n ss)"

definition gapsIn :: "string list \<Rightarrow> closes \<Rightarrow> nat \<Rightarrow> string list" where
  "gapsIn sessions closes n = rev (gapsBack closes n (rev sessions))"

definition populationStd :: "f64 list \<Rightarrow> f64" where
  "populationStd prices =
     (let n = length prices - 1;
          returns = map (\<lambda>i. f_sub (f_div (prices ! (i + 1)) (prices ! i)) (Fin 1)) [0..<n];
          sum = foldl f_add (Fin 0) returns;
          mean = f_div sum (f_of_int (int n));
          squares = foldl (\<lambda>s r. let d = f_sub r mean in f_add s (f_mul d d)) (Fin 0) returns
      in f_sqrt (f_div squares (f_of_int (int n))))"

type_synonym window_of = "string list \<Rightarrow> closes \<Rightarrow> nat \<Rightarrow> f64 list option"

definition score_by :: "momentum_config \<Rightarrow> string list \<Rightarrow> closes \<Rightarrow> window_of \<Rightarrow> (err list, history) result" where
  "score_by cfg sessions closes window =
     joinErrs (Config_Validate cfg)
     (joinErrs (checkInputs sessions closes)
     (let need = nat (mc_ScoreLookback cfg) + 1;
          h = \<lparr>hi_Status = StatusScored, hi_Closes = int (length closes), hi_Score = Fin 0, hi_Volatility = Fin 0, hi_GapSessions = []\<rparr>
      in if length closes < need then Inr (h\<lparr>hi_Status := StatusShortHistory\<rparr>)
         else case window sessions closes need of
           None \<Rightarrow> Inr (h\<lparr>hi_Status := StatusGap, hi_GapSessions := gapsIn (lastSessions need sessions) closes need\<rparr>)
         | Some w \<Rightarrow>
             let vol = populationStd (drop (need - 1 - nat (mc_VolatilityReturns cfg)) w) in
             Inr (h\<lparr>hi_GapSessions := gapsIn sessions closes need,
                    hi_Score := f_sub (f_div (w ! (need - 1 - nat (mc_ScoreSkip cfg))) (w ! 0)) (Fin 1),
                    hi_Volatility := vol,
                    hi_Status := (if f_eq vol (Fin 0) then StatusZeroVolatility else StatusScored)\<rparr>)))"

definition Score :: "momentum_config \<Rightarrow> string list \<Rightarrow> closes \<Rightarrow> (err list, history) result" where
  "Score cfg sessions closes = score_by cfg sessions closes lastCloses"

definition BacktestScore :: "momentum_config \<Rightarrow> string list \<Rightarrow> closes \<Rightarrow> (err list, history) result" where
  "BacktestScore cfg sessions closes = score_by cfg sessions closes lastClosesHad"

definition BacktestHistorySessions :: nat where
  "BacktestHistorySessions = 260"

text \<open>\<open>ScoreHeld\<close> discards the error of \<open>BacktestScore\<close>: \<open>ScoreHeld_scores\<close> shows there is none to discard.\<close>

definition zeroHistory :: history where
  "zeroHistory = \<lparr>hi_Status = StatusScored, hi_Closes = 0, hi_Score = Fin 0, hi_Volatility = Fin 0, hi_GapSessions = []\<rparr>"

definition ScoreHeld :: "momentum_config \<Rightarrow> string list \<Rightarrow> closes \<Rightarrow> (err list, history) result" where
  "ScoreHeld cfg sessions closes = bindr (Score cfg sessions closes) (\<lambda>h.
     if hi_Status h \<noteq> StatusGap then Inr h
     else let recent = lastSessions BacktestHistorySessions sessions;
              inside = concat (map (\<lambda>s. case map_of closes s of Some p \<Rightarrow> [(s, p)] | None \<Rightarrow> []) recent);
              b = (case BacktestScore cfg recent inside of Inl _ \<Rightarrow> zeroHistory | Inr b \<Rightarrow> b)
          in Inr (b\<lparr>hi_Closes := hi_Closes h\<rparr>))"

record trend =
  tr_Closes :: int
  tr_Close :: f64
  tr_Mean :: f64
  tr_RiskOff :: bool

datatype (plugins only: code size) momentum_withheld =
  NoReason | ReasonMissingBars | ReasonInsufficientTrendHistory | ReasonMissingUniverse | ReasonNoEligibleNames | ReasonAllUnaffordable
| ReasonLabelsMissing

definition closeAndMean :: "f64 list \<Rightarrow> f64 \<times> f64" where
  "closeAndMean closes = (last closes, f_div (foldl f_add (Fin 0) closes) (f_of_int (int (length closes))))"

definition EvaluateTrend :: "momentum_config \<Rightarrow> string list \<Rightarrow> closes \<Rightarrow> (err list, trend \<times> momentum_withheld) result" where
  "EvaluateTrend cfg sessions closes =
     joinErrs (Config_Validate cfg)
     (joinErrs (checkInputs sessions closes)
     (let tr = \<lparr>tr_Closes = int (length closes), tr_Close = Fin 0, tr_Mean = Fin 0, tr_RiskOff = False\<rparr> in
      if tr_Closes tr < mc_TrendCloses cfg then Inr (tr, ReasonInsufficientTrendHistory)
      else case lastCloses sessions closes (nat (mc_TrendCloses cfg)) of
        None \<Rightarrow> Inr (tr, ReasonMissingBars)
      | Some w \<Rightarrow> let (close, mean) = closeAndMean w
          in Inr (tr\<lparr>tr_Close := close, tr_Mean := mean, tr_RiskOff := f_lt close mean\<rparr>, NoReason)))"

definition BacktestTrend :: "momentum_config \<Rightarrow> string list \<Rightarrow> closes \<Rightarrow> (err list, trend) result" where
  "BacktestTrend cfg sessions closes =
     joinErrs (Config_Validate cfg)
     (joinErrs (checkInputs sessions closes)
     (let tr = \<lparr>tr_Closes = int (length closes), tr_Close = Fin 0, tr_Mean = Fin 0, tr_RiskOff = False\<rparr> in
      if tr_Closes tr = 0 then Inr tr
      else let w = the (lastClosesHad sessions closes (nat (min (tr_Closes tr) (mc_TrendCloses cfg))));
               (close, mean) = closeAndMean w
           in Inr (tr\<lparr>tr_Close := close, tr_Mean := mean, tr_RiskOff := tr_Closes tr \<ge> mc_TrendCloses cfg \<and> f_lt close mean\<rparr>)))"

definition IsDecisionSession :: "string \<Rightarrow> string \<Rightarrow> (err list, bool) result" where
  "IsDecisionSession previous session =
     failIf (\<not> parsesDateOnly previous) [''session is not a date'']
     (failIf (\<not> parsesDateOnly session) [''session is not a date'']
     (failIf (\<not> dateDay session > dateDay previous) [''session does not follow'']
     (Inr (dateYear session \<noteq> dateYear previous \<or> dateMonth session \<noteq> dateMonth previous))))"

end
