(* ===== verification/MomentumBook.thy ===== *)
theory MomentumBook
  imports Momentum
begin

text \<open>
  \<open>targetweight/momentum/book.go\<close> and the book of \<open>backtest.go\<close>: the picks, their weights, and D7-L's substitution of
  the picks that one share of is too dear. The code's loop \<^verbatim>\<open>for { ... }\<close> over passes is \<open>selectLoop\<close>, whose
  termination proof is the comment above \<open>SelectBookWithMinimumLot\<close>: each pass that goes round again skips at least
  one more of the names. The code updates \<open>ranked\<close> in place; here each pass returns it.
\<close>

section \<open>Names, lots and books\<close>

record candidate =
  cd_InstrumentID :: string
  cd_Sector :: string
  cd_Score :: f64
  cd_Volatility :: f64

record ranked_name = candidate +
  rk_ScoreRank :: int
  rk_Status :: momentum_status
  rk_Weight :: f64
  rk_BacktestWouldPick :: bool
  rk_OneShare :: f64
  rk_TargetValue :: f64
  rk_HeldQuantity :: int
  rk_HeldValue :: f64
  rk_HeldShare :: f64

record minimum_lot =
  ml_NetLiquidation :: f64
  ml_Scale :: f64
  ml_Prices :: "(string, f64) gomap"
  ml_Held :: "(string, int) gomap"

record target =
  tg_InstrumentID :: string
  tg_Weight :: f64

record book_selected =
  bk_Ranked :: "ranked_name list"
  bk_Targets :: "target list"

fun lotPriceErrors :: "(string, f64) gomap \<Rightarrow> candidate list \<Rightarrow> err list" where
  "lotPriceErrors prices [] = []"
| "lotPriceErrors prices (c # cs) =
     (if (case map_of prices (cd_InstrumentID c) of None \<Rightarrow> True | Some p \<Rightarrow> \<not> isFinite p \<or> f_le p (Fin 0))
      then [''minimum lot has no finite, positive price''] else lotPriceErrors prices cs)"

definition MinimumLot_validate :: "minimum_lot \<Rightarrow> candidate list \<Rightarrow> err list" where
  "MinimumLot_validate l candidates =
     (if \<not> isFinite (ml_NetLiquidation l) \<or> f_le (ml_NetLiquidation l) (Fin 0) then [''minimum lot net liquidation must be finite and positive'']
      else if \<not> isFinite (ml_Scale l) \<or> f_le (ml_Scale l) (Fin 0) \<or> f_lt (Fin 1) (ml_Scale l) then [''minimum lot scale outside (0, 1]'']
      else let e = lotPriceErrors (ml_Prices l) candidates in
        if e \<noteq> [] then e
        else if list_ex (\<lambda>(i, q). q < 1) (ml_Held l) then [''a held instrument holds at least one share''] else [])"

section \<open>Ranking\<close>

definition Candidate_validate :: "candidate \<Rightarrow> momentum_config \<Rightarrow> err list" where
  "Candidate_validate c cfg =
     (if cd_InstrumentID c = '''' then [''candidate with empty instrument ID'']
      else if cd_InstrumentID c = mc_RiskOffInstrument cfg then [''candidate is the risk-off instrument'']
      else if \<not> isFinite (cd_Score c) then [''candidate score'']
      else if \<not> isFinite (cd_Volatility c) \<or> f_lt (cd_Volatility c) (Fin 0) then [''candidate volatility'']
      else [])"

definition asRanked :: "candidate \<Rightarrow> ranked_name" where
  "asRanked c = candidate.extend c \<lparr>rk_ScoreRank = 0, rk_Status = StatusScored, rk_Weight = Fin 0, rk_BacktestWouldPick = False,
     rk_OneShare = Fin 0, rk_TargetValue = Fin 0, rk_HeldQuantity = 0, rk_HeldValue = Fin 0, rk_HeldShare = Fin 0\<rparr>"

fun rankableFrom :: "momentum_config \<Rightarrow> string set \<Rightarrow> candidate list \<Rightarrow> (err list, ranked_name list) result" where
  "rankableFrom cfg seen [] = Inr []"
| "rankableFrom cfg seen (c # cs) =
     joinErrs (Candidate_validate c cfg)
     (failIf (cd_InstrumentID c \<in> seen) [''candidate repeated'']
     (bindr (rankableFrom cfg (insert (cd_InstrumentID c) seen) cs) (\<lambda>rs. Inr (asRanked c # rs))))"

definition rankable :: "momentum_config \<Rightarrow> candidate list \<Rightarrow> (err list, ranked_name list) result" where
  "rankable cfg candidates = joinErrs (Config_Validate cfg) (rankableFrom cfg {} candidates)"

definition scoreBefore :: "ranked_name \<Rightarrow> ranked_name \<Rightarrow> bool" where
  "scoreBefore a b = (if f_ne (cd_Score a) (cd_Score b) then f_lt (cd_Score b) (cd_Score a)
     else cd_InstrumentID a < cd_InstrumentID b)"

section \<open>One pass\<close>

record capper =
  cp_picks :: int
  cp_counts :: "(string, int) gomap"

definition newCapper :: capper where
  "newCapper = \<lparr>cp_picks = 0, cp_counts = []\<rparr>"

definition capper_full :: "momentum_config \<Rightarrow> capper \<Rightarrow> bool" where
  "capper_full cfg c \<longleftrightarrow> cp_picks c \<ge> mc_TopN cfg"

definition capper_take :: "momentum_config \<Rightarrow> capper \<Rightarrow> string \<Rightarrow> bool \<times> capper" where
  "capper_take cfg c sector =
     (if capper_full cfg c then (False, c)
      else if sector \<noteq> '''' \<and> mget (cp_counts c) sector 0 \<ge> mc_SectorCap cfg then (False, c)
      else (True, \<lparr>cp_picks = cp_picks c + 1,
                   cp_counts = (if sector \<noteq> '''' then mput (cp_counts c) sector (mget (cp_counts c) sector 0 + 1) else cp_counts c)\<rparr>))"

text \<open>The loop over the names of one pass: the two cappers, the place \<open>i\<close>, and the names as it leaves them.\<close>

fun passLoop :: "momentum_config \<Rightarrow> string set \<Rightarrow> capper \<Rightarrow> capper \<Rightarrow> int \<Rightarrow> ranked_name list \<Rightarrow> ranked_name list" where
  "passLoop cfg skipped live backtest i [] = []"
| "passLoop cfg skipped live backtest i (r # rs) =
     (let r = r\<lparr>rk_ScoreRank := i + 1, rk_Weight := Fin 0, rk_HeldQuantity := 0, rk_HeldValue := Fin 0, rk_HeldShare := Fin 0\<rparr>;
          r = (if cd_InstrumentID r \<notin> skipped then r\<lparr>rk_OneShare := Fin 0, rk_TargetValue := Fin 0\<rparr> else r);
          (would, backtest) = capper_take cfg backtest (cd_Sector r);
          r = r\<lparr>rk_BacktestWouldPick := would\<rparr>;
          (status, live) =
            (if cd_InstrumentID r \<in> skipped then (StatusUnaffordable, live)
             else if f_eq (cd_Volatility r) (Fin 0) then (StatusZeroVolatility, live)
             else if capper_full cfg live then (StatusBeyondTopN, live)
             else let (taken, live) = capper_take cfg live (cd_Sector r) in (if taken then StatusPicked else StatusSectorCapped, live))
      in r\<lparr>rk_Status := status\<rparr> # passLoop cfg skipped live backtest (i + 1) rs)"

definition isPick :: "ranked_name \<Rightarrow> bool" where
  "isPick r \<longleftrightarrow> rk_Status r = StatusPicked"

definition inverse_vol :: "f64 \<Rightarrow> f64" where
  "inverse_vol v = f_div (Fin 1) v"

text \<open>The risk-off part: what the picks share and what goes to the risk-off instrument.\<close>

definition momentumPart :: "momentum_config \<Rightarrow> bool \<Rightarrow> f64" where
  "momentumPart cfg riskOff = (if riskOff then f_mul (mc_Invested cfg) (f_sub (Fin 1) (mc_RiskOffFraction cfg)) else mc_Invested cfg)"

definition weighPicks :: "f64 \<Rightarrow> (f64 \<Rightarrow> f64) \<Rightarrow> ranked_name list \<Rightarrow> ranked_name list" where
  "weighPicks part raw ranked =
     (let total = foldl f_add (Fin 0) (map (\<lambda>r. raw (cd_Volatility r)) (filter isPick ranked))
      in map (\<lambda>r. if isPick r then r\<lparr>rk_Weight := f_div (f_mul part (raw (cd_Volatility r))) total\<rparr> else r) ranked)"

definition asTarget :: "ranked_name \<Rightarrow> target" where
  "asTarget r = \<lparr>tg_InstrumentID = cd_InstrumentID r, tg_Weight = rk_Weight r\<rparr>"

definition pickAndWeigh :: "momentum_config \<Rightarrow> ranked_name list \<Rightarrow> bool \<Rightarrow> string set \<Rightarrow> target list \<times> ranked_name list" where
  "pickAndWeigh cfg ranked riskOff skipped =
     (let ranked = passLoop cfg skipped newCapper newCapper 0 ranked;
          equity = mc_Invested cfg; part = momentumPart cfg riskOff;
          picks = filter isPick ranked;
          toBond = (if picks = [] then equity else f_sub equity part);
          ranked = weighPicks part inverse_vol ranked;
          targets = sort_key tg_InstrumentID (map asTarget (filter isPick ranked));
          targets = (if f_lt (Fin 0) toBond then targets @ [\<lparr>tg_InstrumentID = mc_RiskOffInstrument cfg, tg_Weight = toBond\<rparr>] else targets)
      in (targets, ranked))"

section \<open>The substitution\<close>

definition targetValue :: "minimum_lot \<Rightarrow> ranked_name \<Rightarrow> f64" where
  "targetValue lot r = f_mul (f_mul (rk_Weight r) (ml_Scale lot)) (ml_NetLiquidation lot)"

definition tooDear :: "minimum_lot \<Rightarrow> ranked_name \<Rightarrow> bool" where
  "tooDear lot r \<longleftrightarrow> f_lt (Fin 0) (rk_Weight r) \<and> f_lt (targetValue lot r) (mget (ml_Prices lot) (cd_InstrumentID r) (Fin 0))"

definition lotHolding :: "minimum_lot \<Rightarrow> ranked_name \<Rightarrow> int" where
  "lotHolding lot r = mget (ml_Held lot) (cd_InstrumentID r) 0"

text \<open>What the loop over the picks does to one of them, and the instrument it skips, if it does.\<close>

definition lotStep :: "minimum_lot \<Rightarrow> ranked_name \<Rightarrow> ranked_name" where
  "lotStep lot r =
     (if isPick r \<and> tooDear lot r
      then let price = mget (ml_Prices lot) (cd_InstrumentID r) (Fin 0);
               r = r\<lparr>rk_OneShare := price, rk_TargetValue := targetValue lot r\<rparr>; q = lotHolding lot r
           in if q > 0
              then let value = f_mul (f_of_int q) price
                   in r\<lparr>rk_Status := StatusHeldOneLotShort, rk_HeldQuantity := q, rk_HeldValue := value,
                         rk_HeldShare := f_div value (ml_NetLiquidation lot)\<rparr>
              else r
      else r)"

definition lotSkips :: "minimum_lot \<Rightarrow> ranked_name \<Rightarrow> bool" where
  "lotSkips lot r \<longleftrightarrow> isPick r \<and> tooDear lot r \<and> \<not> lotHolding lot r > 0"

definition applyLot :: "minimum_lot option \<Rightarrow> ranked_name list \<Rightarrow> ranked_name list \<times> string set" where
  "applyLot lot ranked = (case lot of None \<Rightarrow> (ranked, {})
     | Some l \<Rightarrow> (map (lotStep l) ranked, set (map cd_InstrumentID (filter (lotSkips l) ranked))))"

text \<open>A pass keeps the names, and the picks it leaves are names it did not skip.\<close>

lemma passLoop_ids [simp]: "map cd_InstrumentID (passLoop cfg skipped live backtest i rs) = map cd_InstrumentID rs"
  by (induction rs arbitrary: live backtest i) (auto simp: Let_def case_prod_unfold)

lemma passLoop_picks:
  "r \<in> set (passLoop cfg skipped live backtest i rs) \<Longrightarrow> isPick r \<Longrightarrow> cd_InstrumentID r \<notin> skipped"
  by (induction rs arbitrary: live backtest i)
    (auto simp: Let_def case_prod_unfold isPick_def split: if_splits)

lemma weighPicks_ids [simp]: "map cd_InstrumentID (weighPicks part raw rs) = map cd_InstrumentID rs"
  by (simp add: weighPicks_def Let_def o_def if_distrib cong: if_cong)

lemma isPick_weight [simp]: "isPick (r\<lparr>rk_Weight := w\<rparr>) = isPick r"
  by (simp add: isPick_def)

lemma weighPicks_picks: "r \<in> set (weighPicks part raw rs) \<Longrightarrow> isPick r \<Longrightarrow> \<exists>s \<in> set rs. isPick s \<and> cd_InstrumentID s = cd_InstrumentID r"
  by (auto simp: weighPicks_def Let_def split: if_splits)

lemma pickAndWeigh_ids: "map cd_InstrumentID (snd (pickAndWeigh cfg ranked riskOff skipped)) = map cd_InstrumentID ranked"
  by (simp add: pickAndWeigh_def Let_def)

lemma pickAndWeigh_picks:
  "r \<in> set (snd (pickAndWeigh cfg ranked riskOff skipped)) \<Longrightarrow> isPick r \<Longrightarrow> cd_InstrumentID r \<notin> skipped"
  by (auto simp: pickAndWeigh_def Let_def dest!: weighPicks_picks passLoop_picks)

lemma lotStep_id [simp]: "cd_InstrumentID (lotStep l r) = cd_InstrumentID r"
  by (simp add: lotStep_def Let_def)

lemma applyLot_ids: "map cd_InstrumentID (fst (applyLot lot ranked)) = map cd_InstrumentID ranked"
  by (simp add: applyLot_def o_def split: option.splits)

lemma applyLot_skips:
  "i \<in> snd (applyLot lot ranked) \<Longrightarrow> \<exists>r \<in> set ranked. isPick r \<and> cd_InstrumentID r = i"
  by (auto simp: applyLot_def lotSkips_def split: option.splits)

text \<open>The names a selection has not skipped yet.\<close>

definition unskipped :: "ranked_name list \<Rightarrow> string set \<Rightarrow> nat" where
  "unskipped ranked skipped = card (set (map cd_InstrumentID ranked) - skipped)"

lemma pass_progress:
  assumes "(targets, passed) = pickAndWeigh cfg ranked riskOff skipped" and "(ranked', skips) = applyLot lot passed" and "skips \<noteq> {}"
  shows "unskipped ranked' (skipped \<union> skips) < unskipped ranked skipped"
proof -
  have ids: "map cd_InstrumentID ranked' = map cd_InstrumentID ranked"
    using applyLot_ids [of lot passed] pickAndWeigh_ids [of cfg ranked riskOff skipped] assms(1,2) by (metis fst_conv snd_conv)
  obtain i where i: "i \<in> skips" using assms(3) by blast
  then obtain r where r: "r \<in> set passed" "isPick r" "cd_InstrumentID r = i"
    using applyLot_skips [of i lot passed] assms(2) by (metis snd_conv)
  then have n: "i \<notin> skipped" using pickAndWeigh_picks [of r cfg ranked riskOff skipped] assms(1) by (metis snd_conv)
  have "i \<in> set (map cd_InstrumentID passed)" using r by auto
  then have "i \<in> set (map cd_InstrumentID ranked)"
    using pickAndWeigh_ids [of cfg ranked riskOff skipped] assms(1) by (metis snd_conv)
  with i n show ?thesis unfolding unskipped_def ids by (intro psubset_card_mono) auto
qed

function selectLoop :: "momentum_config \<Rightarrow> minimum_lot option \<Rightarrow> bool \<Rightarrow> ranked_name list \<Rightarrow> string set \<Rightarrow> book_selected" where
  "selectLoop cfg lot riskOff ranked skipped =
     (let (targets, passed) = pickAndWeigh cfg ranked riskOff skipped; (ranked', skips) = applyLot lot passed
      in if skips = {} then \<lparr>bk_Ranked = ranked', bk_Targets = targets\<rparr> else selectLoop cfg lot riskOff ranked' (skipped \<union> skips))"
  by pat_completeness auto
termination
  by (relation "measure (\<lambda>(cfg, lot, riskOff, ranked, skipped). unskipped ranked skipped)") (auto intro: pass_progress)

declare selectLoop.simps [simp del]

definition selectBook :: "momentum_config \<Rightarrow> candidate list \<Rightarrow> bool \<Rightarrow> minimum_lot option \<Rightarrow> (err list, book_selected) result" where
  "selectBook cfg candidates riskOff lot =
     bindr (rankable cfg candidates) (\<lambda>ranked. Inr (selectLoop cfg lot riskOff (sortBy scoreBefore ranked) {}))"

definition SelectBook :: "momentum_config \<Rightarrow> candidate list \<Rightarrow> bool \<Rightarrow> (err list, book_selected) result" where
  "SelectBook cfg candidates riskOff = selectBook cfg candidates riskOff None"

definition SelectBookWithMinimumLot :: "momentum_config \<Rightarrow> candidate list \<Rightarrow> bool \<Rightarrow> minimum_lot \<Rightarrow> (err list, book_selected) result" where
  "SelectBookWithMinimumLot cfg candidates riskOff lot =
     joinErrs (MinimumLot_validate lot candidates) (selectBook cfg candidates riskOff (Some lot))"

section \<open>The backtest's book (backtest.go)\<close>

definition backtestBondFloor :: f64 where
  "backtestBondFloor = f_lit (1 / 10 ^ 12)"

fun backtestLoop :: "momentum_config \<Rightarrow> capper \<Rightarrow> int \<Rightarrow> ranked_name list \<Rightarrow> ranked_name list" where
  "backtestLoop cfg book i [] = []"
| "backtestLoop cfg book i (r # rs) =
     (let r = r\<lparr>rk_ScoreRank := i + 1\<rparr>;
          (taken, book) = capper_take cfg book (cd_Sector r);
          status = (if taken then StatusPicked else if capper_full cfg book then StatusBeyondTopN else StatusSectorCapped)
      in r\<lparr>rk_Status := status, rk_BacktestWouldPick := (status = StatusPicked)\<rparr> # backtestLoop cfg book (i + 1) rs)"

definition backtest_raw :: "f64 \<Rightarrow> f64" where
  "backtest_raw v = (if f_eq v (Fin 0) then Fin 1 else f_div (Fin 1) v)"

definition BacktestBook :: "momentum_config \<Rightarrow> candidate list \<Rightarrow> bool \<Rightarrow> (err list, book_selected) result" where
  "BacktestBook cfg candidates riskOff =
     bindr (rankable cfg candidates) (\<lambda>ranked.
       let ranked = backtestLoop cfg newCapper 0 (sortBy (\<lambda>a b. f_lt (cd_Score b) (cd_Score a)) ranked);
           equity = mc_Invested cfg; part = momentumPart cfg riskOff; toBond = f_sub equity part;
           weighted = (filter isPick ranked \<noteq> [] \<and> f_lt (Fin 0) part);
           ranked = (if weighted then weighPicks part backtest_raw ranked else ranked);
           toBond = (if weighted then toBond else f_add toBond part);
           targets = (if weighted then sort_key tg_InstrumentID (map asTarget (filter isPick ranked)) else []);
           targets = (if f_lt backtestBondFloor toBond
             then targets @ [\<lparr>tg_InstrumentID = mc_RiskOffInstrument cfg, tg_Weight = toBond\<rparr>] else targets)
       in Inr \<lparr>bk_Ranked = ranked, bk_Targets = targets\<rparr>)"

end
