(* ===== verification/MomentumProps.thy ===== *)
theory MomentumProps
  imports MomentumBook "HOL-Library.Multiset"
begin

text \<open>
  What the momentum rule guarantees: the ranking does not depend on the order of its rows, the book keeps to its size
  and its sector cap, the substitution of picks that are too dear settles, and the live rule is the backtest's wherever
  it does not say otherwise.
\<close>

section \<open>Sorting\<close>

lemma mset_insertBy [simp]: "mset (insertBy lt x ys) = add_mset x (mset ys)"
  by (induction ys) auto

lemma mset_sortBy [simp]: "mset (sortBy lt xs) = mset xs"
  unfolding sortBy_def by (induction xs) auto

lemma set_sortBy [simp]: "set (sortBy lt xs) = set xs"
  using mset_eq_setD [OF mset_sortBy] .

lemma length_sortBy [simp]: "length (sortBy lt xs) = length xs"
  using mset_eq_length [OF mset_sortBy] .

text \<open>A comparison that is a strict order on \<open>A\<close>, as the comparisons of the rule are.\<close>

definition strict_order_on :: "'a set \<Rightarrow> ('a \<Rightarrow> 'a \<Rightarrow> bool) \<Rightarrow> bool" where
  "strict_order_on A lt \<longleftrightarrow> (\<forall>x \<in> A. \<not> lt x x) \<and> (\<forall>x \<in> A. \<forall>y \<in> A. \<forall>z \<in> A. lt x y \<longrightarrow> lt y z \<longrightarrow> lt x z) \<and>
     (\<forall>x \<in> A. \<forall>y \<in> A. x \<noteq> y \<longrightarrow> lt x y \<or> lt y x)"

lemma strict_order_subset: "strict_order_on A lt \<Longrightarrow> B \<subseteq> A \<Longrightarrow> strict_order_on B lt"
  unfolding strict_order_on_def by blast

lemma strict_order_cong:
  assumes "\<And>a b. a \<in> A \<Longrightarrow> b \<in> A \<Longrightarrow> lt a b \<longleftrightarrow> lt' a b" and "strict_order_on A lt'"
  shows "strict_order_on A lt"
  unfolding strict_order_on_def
proof (intro conjI ballI impI)
  fix x assume "x \<in> A" then show "\<not> lt x x" using assms unfolding strict_order_on_def by blast
next
  fix x y z assume "x \<in> A" "y \<in> A" "z \<in> A" "lt x y" "lt y z"
  then show "lt x z" using assms(1) [of x y] assms(1) [of y z] assms(1) [of x z] assms(2) unfolding strict_order_on_def by blast
next
  fix x y assume "x \<in> A" "y \<in> A" "x \<noteq> y"
  then show "lt x y \<or> lt y x" using assms(1) [of x y] assms(1) [of y x] assms(2) unfolding strict_order_on_def by blast
qed

lemma insertBy_sorted:
  assumes "strict_order_on (insert x (set ys)) lt" and "sorted_wrt lt ys" and "x \<notin> set ys"
  shows "sorted_wrt lt (insertBy lt x ys)"
  using assms
proof (induction ys)
  case (Cons y ys)
  have o: "strict_order_on (insert x (set ys)) lt" using Cons.prems(1) by (rule strict_order_subset) auto
  have set: "set (insertBy lt x ys) = insert x (set ys)" using mset_eq_setD [of "insertBy lt x ys" "x # ys"] by simp
  show ?case
  proof (cases "lt y x")
    case True
    then show ?thesis using Cons.IH [OF o] Cons.prems set by auto
  next
    case False
    then have xy: "lt x y" using Cons.prems(1,3) unfolding strict_order_on_def by auto
    have "lt x z" if "z \<in> set ys" for z
      using xy that Cons.prems(1,2) unfolding strict_order_on_def by (metis insertI1 insert_iff list.simps(15) sorted_wrt.simps(2))
    then show ?thesis using False xy Cons.prems(2) by simp
  qed
qed simp

lemma sortBy_sorted:
  assumes "strict_order_on (set xs) lt" and "distinct xs"
  shows "sorted_wrt lt (sortBy lt xs)"
  using assms
proof (induction xs)
  case (Cons x xs)
  have "sorted_wrt lt (sortBy lt xs)" using Cons.prems strict_order_subset [OF Cons.prems(1), of "set xs"] Cons.IH by auto
  then have "sorted_wrt lt (insertBy lt x (sortBy lt xs))" using Cons.prems by (intro insertBy_sorted) simp_all
  then show ?case by (simp add: sortBy_def)
qed (simp add: sortBy_def)

lemma sorted_wrt_unique:
  assumes "strict_order_on A lt" "set xs \<subseteq> A" "sorted_wrt lt xs" "sorted_wrt lt ys" "mset xs = mset ys"
  shows "xs = ys"
  using assms(2-)
proof (induction xs arbitrary: ys)
  case (Cons x xs)
  then obtain y zs where ys: "ys = y # zs" by (cases ys) auto
  have set: "set ys = insert x (set xs)" using Cons.prems(4) by (metis list.simps(15) mset_eq_setD)
  have "x = y"
  proof (rule ccontr)
    assume n: "x \<noteq> y"
    then have "y \<in> set xs" "x \<in> set zs" using set ys by auto
    then have "lt x y" "lt y x" using Cons.prems(2,3) ys by auto
    moreover have "x \<in> A" "y \<in> A" using Cons.prems(1) \<open>y \<in> set xs\<close> by auto
    ultimately show False using assms(1) unfolding strict_order_on_def by blast
  qed
  then show ?case using Cons ys by auto
qed simp

lemma sortBy_unique:
  assumes "strict_order_on (set xs) lt" "distinct xs" "mset xs = mset ys"
  shows "sortBy lt xs = sortBy lt ys"
proof (rule sorted_wrt_unique [OF assms(1)])
  have "set ys = set xs" using assms(3) by (metis mset_eq_setD)
  moreover have "distinct ys" using assms(2,3) by (metis mset_eq_imp_distinct_iff)
  ultimately show "sorted_wrt lt (sortBy lt ys)" using assms(1) by (intro sortBy_sorted) simp_all
qed (use assms sortBy_sorted in auto)

text \<open>Comparisons by a figure, greatest first, and then by identifier.\<close>

lemma figure_order:
  assumes "inj_on ident A" and "\<And>x. x \<in> A \<Longrightarrow> fig x \<noteq> NaN"
  shows "strict_order_on A (\<lambda>a b. if f_ne (fig a) (fig b) then f_lt (fig b) (fig a) else (ident a :: string) < ident b)"
proof -
  let ?lt = "\<lambda>a b. fig b < fig a \<or> (fig a = fig b \<and> ident a < ident b)"
  have e: "(if f_ne (fig a) (fig b) then f_lt (fig b) (fig a) else ident a < ident b) \<longleftrightarrow> ?lt a b" if "a \<in> A" "b \<in> A" for a b
    using assms(2) that f_lt_less [of "fig b" "fig a"] by (auto simp: f_ne_def f_eq_def)
  have "strict_order_on A ?lt"
    using assms(1) unfolding strict_order_on_def inj_on_def by (auto intro: less_trans)
  then show ?thesis by (rule strict_order_cong [rotated]) (rule e)
qed

section \<open>The universe\<close>

definition eligible :: "momentum_config \<Rightarrow> row \<Rightarrow> bool" where
  "eligible cfg r \<longleftrightarrow> row_Type r = mc_ListingType cfg \<and> \<not> f_lt (row_Close r) (mc_MinPrice cfg)"

definition memberOf :: "row \<Rightarrow> member" where
  "memberOf r = asMember r (f_mul (row_Close r) (row_Volume r))"

lemma memberOf_fields [simp]:
  "row_InstrumentID (memberOf r) = row_InstrumentID r" "row_Type (memberOf r) = row_Type r" "row_Close (memberOf r) = row_Close r"
  "row_Volume (memberOf r) = row_Volume r" "row_Sector (memberOf r) = row_Sector r" "row_SectorSource (memberOf r) = row_SectorSource r"
  "mb_Rank (memberOf r) = 0" "mb_DollarVolume (memberOf r) = f_mul (row_Close r) (row_Volume r)"
  by (simp_all add: memberOf_def asMember_def row.defs)

lemma keepRows_Inr:
  "keepRows cfg seen counts kept rs = Inr (ms, cs) \<longleftrightarrow>
     list_all (\<lambda>r. Row_validate r = []) rs \<and> distinct (map row_InstrumentID rs) \<and> seen \<inter> row_InstrumentID ` set rs = {} \<and>
     ms = kept @ map memberOf (filter (eligible cfg) rs) \<and>
     cs = counts\<lparr>uc_CommonStock := uc_CommonStock counts + int (length (filter (\<lambda>r. row_Type r = mc_ListingType cfg) rs)),
       uc_AtOrAboveFloor := uc_AtOrAboveFloor counts + int (length (filter (eligible cfg) rs))\<rparr>"
proof (induction rs arbitrary: seen counts kept)
  case (Cons r rs)
  show ?case
  proof (cases "Row_validate r = [] \<and> row_InstrumentID r \<notin> seen")
    case True
    then show ?thesis by (auto simp: Let_def Cons.IH eligible_def memberOf_def)
  qed auto
qed auto

lemma RankUniverse_Inr:
  "RankUniverse cfg rs = Inr (ms, cs) \<longleftrightarrow>
     Config_Validate cfg = [] \<and> list_all (\<lambda>r. Row_validate r = []) rs \<and> distinct (map row_InstrumentID rs) \<and>
     ms = numberRanks (take (nat (mc_UniverseSize cfg)) (sortBy rankBefore (map memberOf (filter (eligible cfg) rs)))) \<and>
     cs = \<lparr>uc_Rows = int (length rs), uc_CommonStock = int (length (filter (\<lambda>r. row_Type r = mc_ListingType cfg) rs)),
       uc_AtOrAboveFloor = int (length (filter (eligible cfg) rs)), uc_Members = int (length ms)\<rparr>"
proof -
  have tk: "(if int (length xs) > n then take (nat n) xs else xs) = take (nat n) xs" for xs :: "member list" and n
    by auto
  show ?thesis unfolding RankUniverse_def tk by (auto simp: keepRows_Inr bindr_eq_Inr Let_def)
qed

lemma product_not_NaN:
  assumes "Row_validate r = []"
  shows "f_mul (row_Close r) (row_Volume r) \<noteq> NaN"
  using assms by (cases "row_Close r"; cases "row_Volume r") (auto simp: Row_validate_def split: if_splits)

lemma rank_order:
  assumes "list_all (\<lambda>r. Row_validate r = []) rs" and "distinct (map row_InstrumentID rs)"
  shows "strict_order_on (memberOf ` set rs) rankBefore" and "inj_on row_InstrumentID (memberOf ` set rs)"
proof -
  have "inj_on row_InstrumentID (set rs)" using assms(2) by (simp add: distinct_map)
  then show i: "inj_on row_InstrumentID (memberOf ` set rs)" by (auto simp: inj_on_def)
  have "strict_order_on (memberOf ` set rs) (\<lambda>a b. if f_ne (mb_DollarVolume a) (mb_DollarVolume b)
      then f_lt (mb_DollarVolume b) (mb_DollarVolume a) else row_InstrumentID a < row_InstrumentID b)"
    using assms(1) product_not_NaN by (intro figure_order [OF i]) (auto simp: list_all_iff)
  then show "strict_order_on (memberOf ` set rs) rankBefore" unfolding rankBefore_def [abs_def] .
qed

lemma distinct_members: "distinct (map row_InstrumentID rs) \<Longrightarrow> distinct (map memberOf (filter P rs))"
proof -
  assume d: "distinct (map row_InstrumentID rs)"
  have "map row_InstrumentID (map memberOf (filter P rs)) = map row_InstrumentID (filter P rs)" by simp
  then show ?thesis using d by (metis distinct_map distinct_map_filter)
qed

lemma numberRanks_fields [simp]:
  "length (numberRanks ms) = length ms"
  "map row_InstrumentID (numberRanks ms) = map row_InstrumentID ms"
  by (auto simp: numberRanks_def case_prod_unfold intro: nth_equalityI)

lemma numberRanks_nth: "i < length ms \<Longrightarrow> numberRanks ms ! i = (ms ! i)\<lparr>mb_Rank := int i + 1\<rparr>"
  by (simp add: numberRanks_def)

lemma rankBefore_rank [simp]:
  "rankBefore (a\<lparr>mb_Rank := i\<rparr>) b = rankBefore a b" "rankBefore a (b\<lparr>mb_Rank := i\<rparr>) = rankBefore a b"
  by (simp_all add: rankBefore_def)

text \<open>the universe is the same whatever order its rows arrive in, and it is the largest of the eligible rows by
  dollar volume: a row of the listing type at or above the price floor is a member, or as many rows as the universe
  holds rank before it; members are numbered from 1 in that order.\<close>

theorem RankUniverse_top:
  assumes "RankUniverse cfg rs = Inr (ms, cs)" and "mset rs' = mset rs"
  shows "RankUniverse cfg rs' = Inr (ms, cs) \<and>
     sorted_wrt rankBefore ms \<and> map mb_Rank ms = map (\<lambda>i. int i + 1) [0..<length ms] \<and>
     list_all (\<lambda>r. eligible cfg r \<longrightarrow> row_InstrumentID r \<in> row_InstrumentID ` set ms \<or>
       (int (length ms) = mc_UniverseSize cfg \<and> list_all (\<lambda>m. rankBefore m (memberOf r)) ms)) rs"
proof -
  let ?kept = "map memberOf (filter (eligible cfg) rs)" and ?n = "nat (mc_UniverseSize cfg)"
  let ?s = "sortBy rankBefore ?kept"
  note inr = assms(1) [unfolded RankUniverse_Inr]
  then have v: "list_all (\<lambda>r. Row_validate r = []) rs" and d: "distinct (map row_InstrumentID rs)"
    and ms: "ms = numberRanks (take ?n ?s)" by simp_all
  have ord: "strict_order_on (set ?kept) rankBefore" by (rule strict_order_subset [OF rank_order(1) [OF v d]]) auto
  have dk: "distinct ?kept" using d by (rule distinct_members)
  have set: "set rs' = set rs" using assms(2) by (metis mset_eq_setD)
  have "mset (filter P rs') = mset (filter P rs)" for P using assms(2) by simp
  then have f: "length (filter P rs') = length (filter P rs)" "mset (map memberOf (filter (eligible cfg) rs')) = mset ?kept" for P
    by (metis size_mset, metis mset_map)
  have "distinct (map row_InstrumentID rs')" using d assms(2) by (metis mset_eq_imp_distinct_iff mset_map)
  moreover have "sortBy rankBefore (map memberOf (filter (eligible cfg) rs')) = ?s"
    using sortBy_unique [OF ord dk f(2) [symmetric]] by simp
  ultimately have same: "RankUniverse cfg rs' = Inr (ms, cs)"
    using inr set f(1) mset_eq_length [OF assms(2)] by (simp add: RankUniverse_Inr list_all_iff)
  have sorted: "sorted_wrt rankBefore ?s" using sortBy_sorted [OF ord dk] .
  have nth: "ms ! i = (?s ! i)\<lparr>mb_Rank := int i + 1\<rparr>" if "i < length ms" for i
    using that unfolding ms by (simp add: numberRanks_nth)
  have "sorted_wrt rankBefore ms"
    unfolding sorted_wrt_iff_nth_less using sorted unfolding sorted_wrt_iff_nth_less by (simp add: nth) (simp add: ms)
  moreover have "map mb_Rank ms = map (\<lambda>i. int i + 1) [0..<length ms]" by (intro nth_equalityI) (simp_all add: nth)
  moreover have "row_InstrumentID r \<in> row_InstrumentID ` set ms \<or>
      (int (length ms) = mc_UniverseSize cfg \<and> list_all (\<lambda>m. rankBefore m (memberOf r)) ms)"
    if "r \<in> set rs" "eligible cfg r" for r
  proof -
    have "memberOf r \<in> set ?s" using that by simp
    then obtain k where k: "k < length ?s" "?s ! k = memberOf r" by (metis in_set_conv_nth)
    show ?thesis
    proof (cases "k < ?n")
      case True
      then have "k < length ms" using k ms by simp
      then have "row_InstrumentID (ms ! k) = row_InstrumentID r" "ms ! k \<in> set ms" using nth [of k] k nth_mem [of k ms] by simp_all
      then show ?thesis by (metis imageI)
    next
      case False
      then have l: "length ms = ?n" using k(1) ms by simp
      moreover have "1 \<le> mc_UniverseSize cfg" using inr by (auto simp: Config_Validate_def split: if_splits)
      moreover have "rankBefore (ms ! i) (memberOf r)" if "i < length ms" for i
        using sorted k False that l unfolding sorted_wrt_iff_nth_less by (simp add: nth [OF that]) (metis less_le_trans not_less)
      ultimately show ?thesis by (simp add: list_all_length)
    qed
  qed
  ultimately show ?thesis using same by (simp add: list_all_iff)
qed

section \<open>The book's size and sector cap\<close>

definition chosen :: "ranked_name \<Rightarrow> bool" where
  "chosen r \<longleftrightarrow> rk_Status r = StatusPicked \<or> rk_Status r = StatusHeldOneLotShort"

lemma capper_take_simps:
  "fst (capper_take cfg c s) \<longleftrightarrow> cp_picks c < mc_TopN cfg \<and> (s = '''' \<or> mget (cp_counts c) s 0 < mc_SectorCap cfg)"
  "snd (capper_take cfg c s) = (if fst (capper_take cfg c s)
     then \<lparr>cp_picks = cp_picks c + 1,
           cp_counts = (if s \<noteq> '''' then mput (cp_counts c) s (mget (cp_counts c) s 0 + 1) else cp_counts c)\<rparr> else c)"
  by (auto simp: capper_take_def capper_full_def)

definition count_of :: "(ranked_name \<Rightarrow> bool) \<Rightarrow> ranked_name list \<Rightarrow> int" where
  "count_of P rs = int (length (filter P rs))"

lemma passLoop_caps:
  assumes "cp_picks live \<le> mc_TopN cfg" and "\<And>s. s \<noteq> '''' \<Longrightarrow> mget (cp_counts live) s 0 \<le> mc_SectorCap cfg"
  shows "cp_picks live + count_of isPick (passLoop cfg skipped live backtest i rs) \<le> mc_TopN cfg \<and>
     (\<forall>s. s \<noteq> '''' \<longrightarrow> mget (cp_counts live) s 0 +
        count_of (\<lambda>r. isPick r \<and> cd_Sector r = s) (passLoop cfg skipped live backtest i rs) \<le> mc_SectorCap cfg)"
  using assms
proof (induction rs arbitrary: live backtest i)
  case (Cons r rs)
  let ?tk = "capper_take cfg live (cd_Sector r)" and ?b = "snd (capper_take cfg backtest (cd_Sector r))"
  show ?case
  proof (cases "cd_InstrumentID r \<notin> skipped \<and> \<not> f_eq (cd_Volatility r) (Fin 0) \<and> fst ?tk")
    case True
    then have f: "\<not> capper_full cfg live" using capper_take_simps(1) [of cfg live "cd_Sector r"] by (simp add: capper_full_def)
    have "cp_picks (snd ?tk) \<le> mc_TopN cfg" "\<And>s. s \<noteq> '''' \<Longrightarrow> mget (cp_counts (snd ?tk)) s 0 \<le> mc_SectorCap cfg"
      using True Cons.prems by (auto simp: capper_take_simps)
    from Cons.IH [OF this, of ?b "i + 1"] show ?thesis using True f
      by (auto simp: Let_def case_prod_unfold count_of_def isPick_def capper_take_simps(2) split: if_splits)
  next
    case False
    have "snd ?tk = live \<or> fst ?tk" by (simp add: capper_take_simps)
    then show ?thesis using Cons.IH [OF Cons.prems, of ?b "i + 1"] False
      by (auto simp: Let_def case_prod_unfold count_of_def isPick_def)
  qed
qed (simp add: count_of_def)

lemma config_sizes: "Config_Validate cfg = [] \<Longrightarrow> 1 \<le> mc_TopN cfg \<and> 1 \<le> mc_SectorCap cfg \<and> 1 \<le> mc_UniverseSize cfg"
  by (auto simp: Config_Validate_def split: if_splits)

lemma weighPicks_count:
  "(\<And>r w. P (r\<lparr>rk_Weight := w\<rparr>) = P r) \<Longrightarrow> count_of P (weighPicks part raw rs) = count_of P rs"
  by (simp add: count_of_def weighPicks_def Let_def filter_map o_def if_distrib cong: if_cong)

lemma pickAndWeigh_caps:
  assumes "Config_Validate cfg = []"
  shows "count_of isPick (snd (pickAndWeigh cfg ranked riskOff skipped)) \<le> mc_TopN cfg"
    and "s \<noteq> '''' \<Longrightarrow> count_of (\<lambda>r. isPick r \<and> cd_Sector r = s) (snd (pickAndWeigh cfg ranked riskOff skipped)) \<le> mc_SectorCap cfg"
  using passLoop_caps [of newCapper cfg skipped newCapper 0 ranked] config_sizes [OF assms]
  by (auto simp: pickAndWeigh_def Let_def weighPicks_count newCapper_def)

lemma lotStep_chosen [simp]: "chosen (lotStep l r) \<longleftrightarrow> chosen r"
  by (auto simp: lotStep_def Let_def chosen_def isPick_def)

lemma lotStep_sector [simp]: "cd_Sector (lotStep l r) = cd_Sector r"
  by (simp add: lotStep_def Let_def)

lemma applyLot_count:
  "count_of (\<lambda>r. chosen r \<and> Q (cd_Sector r)) (fst (applyLot lot rs)) = count_of (\<lambda>r. chosen r \<and> Q (cd_Sector r)) rs"
  by (simp add: applyLot_def count_of_def filter_map o_def split: option.splits)

lemma passLoop_chosen: "r \<in> set (passLoop cfg skipped live backtest i rs) \<Longrightarrow> chosen r \<longleftrightarrow> isPick r"
  by (induction rs arbitrary: live backtest i)
    (auto simp: Let_def case_prod_unfold isPick_def chosen_def split: if_splits)

lemma pickAndWeigh_chosen: "r \<in> set (snd (pickAndWeigh cfg ranked riskOff skipped)) \<Longrightarrow> chosen r \<longleftrightarrow> isPick r"
  by (auto simp: pickAndWeigh_def weighPicks_def Let_def chosen_def isPick_def dest!: passLoop_chosen split: if_splits)

text \<open>One pass of the loop, whatever it does next, and the pass it ends with.\<close>

lemma selectLoop_step:
  "selectLoop cfg lot riskOff ranked skipped =
     (let passed = snd (pickAndWeigh cfg ranked riskOff skipped)
      in if snd (applyLot lot passed) = {}
         then \<lparr>bk_Ranked = fst (applyLot lot passed), bk_Targets = fst (pickAndWeigh cfg ranked riskOff skipped)\<rparr>
         else selectLoop cfg lot riskOff (fst (applyLot lot passed)) (skipped \<union> snd (applyLot lot passed)))"
  by (subst selectLoop.simps) (simp add: case_prod_unfold Let_def)

lemma selectLoop_last:
  assumes "Inv ranked skipped"
    and step: "\<And>ranked skipped passed. Inv ranked skipped \<Longrightarrow> passed = snd (pickAndWeigh cfg ranked riskOff skipped) \<Longrightarrow>
      Inv (fst (applyLot lot passed)) (skipped \<union> snd (applyLot lot passed))"
  shows "\<exists>ranked' skipped' passed. Inv ranked' skipped' \<and> passed = snd (pickAndWeigh cfg ranked' riskOff skipped') \<and>
    snd (applyLot lot passed) = {} \<and> bk_Ranked (selectLoop cfg lot riskOff ranked skipped) = fst (applyLot lot passed) \<and>
    bk_Targets (selectLoop cfg lot riskOff ranked skipped) = fst (pickAndWeigh cfg ranked' riskOff skipped')"
  using assms
proof (induction cfg lot riskOff ranked skipped rule: selectLoop.induct)
  case (1 cfg lot riskOff ranked skipped)
  let ?passed = "snd (pickAndWeigh cfg ranked riskOff skipped)"
  show ?case
  proof (cases "snd (applyLot lot ?passed) = {}")
    case True
    then show ?thesis using "1.prems"(1) by (intro exI [of _ ranked] exI [of _ skipped] exI [of _ ?passed])
        (simp add: selectLoop_step [of cfg lot riskOff ranked skipped])
  next
    case False
    have "selectLoop cfg lot riskOff ranked skipped =
        selectLoop cfg lot riskOff (fst (applyLot lot ?passed)) (skipped \<union> snd (applyLot lot ?passed))"
      using False by (simp add: selectLoop_step [of cfg lot riskOff ranked skipped] Let_def)
    moreover have "\<exists>ranked' skipped' passed. Inv ranked' skipped' \<and> passed = snd (pickAndWeigh cfg ranked' riskOff skipped') \<and>
        snd (applyLot lot passed) = {} \<and>
        bk_Ranked (selectLoop cfg lot riskOff (fst (applyLot lot ?passed)) (skipped \<union> snd (applyLot lot ?passed))) = fst (applyLot lot passed) \<and>
        bk_Targets (selectLoop cfg lot riskOff (fst (applyLot lot ?passed)) (skipped \<union> snd (applyLot lot ?passed))) =
          fst (pickAndWeigh cfg ranked' riskOff skipped')"
      using "1.prems" by (intro "1.IH" [OF refl prod.collapse refl prod.collapse False]) blast+
    ultimately show ?thesis by simp
  qed
qed
end
