(* ===== verification/MomentumSelection.thy ===== *)
theory MomentumSelection
  imports MomentumProps
begin

text \<open>
  The selection of a momentum book: D7-L's substitution settles within one pass per name, on a book within its size and
  sector cap whose every bought pick is affordable; and the live book is the backtest's where no live rule departs
  from it.
\<close>

section \<open>The substitution settles\<close>

text \<open>The loop with a bound on its passes.\<close>

fun selectFuel :: "nat \<Rightarrow> momentum_config \<Rightarrow> minimum_lot option \<Rightarrow> bool \<Rightarrow> ranked_name list \<Rightarrow> string set \<Rightarrow> book_selected option" where
  "selectFuel 0 cfg lot riskOff ranked skipped = None"
| "selectFuel (Suc n) cfg lot riskOff ranked skipped =
     (let (targets, passed) = pickAndWeigh cfg ranked riskOff skipped; (ranked', skips) = applyLot lot passed
      in if skips = {} then Some \<lparr>bk_Ranked = ranked', bk_Targets = targets\<rparr>
         else selectFuel n cfg lot riskOff ranked' (skipped \<union> skips))"

lemma selectFuel_enough:
  "unskipped ranked skipped < n \<Longrightarrow> selectFuel n cfg lot riskOff ranked skipped = Some (selectLoop cfg lot riskOff ranked skipped)"
proof (induction n arbitrary: ranked skipped)
  case (Suc n)
  obtain targets passed where p: "pickAndWeigh cfg ranked riskOff skipped = (targets, passed)" by fastforce
  obtain ranked' skips where a: "applyLot lot passed = (ranked', skips)" by fastforce
  show ?case
  proof (cases "skips = {}")
    case True
    then show ?thesis using p a by (simp add: selectLoop_step [of cfg lot riskOff ranked skipped])
  next
    case False
    then have "unskipped ranked' (skipped \<union> skips) < n" using pass_progress [OF p [symmetric] a [symmetric] False] Suc.prems by linarith
    then show ?thesis using Suc.IH p a False by (simp add: selectLoop_step [of cfg lot riskOff ranked skipped])
  qed
qed simp

lemma unskipped_le: "unskipped ranked {} \<le> length ranked"
  unfolding unskipped_def by (metis Diff_empty card_length length_map)

definition too_dear_unheld :: "minimum_lot option \<Rightarrow> ranked_name \<Rightarrow> bool" where
  "too_dear_unheld lot r \<longleftrightarrow> (case lot of None \<Rightarrow> False | Some l \<Rightarrow> f_lt (rk_TargetValue r) (rk_OneShare r) \<and> lotHolding l r \<le> 0)"

definition selection_inv :: "minimum_lot option \<Rightarrow> ranked_name list \<Rightarrow> string set \<Rightarrow> bool" where
  "selection_inv lot ranked skipped \<longleftrightarrow> distinct (map cd_InstrumentID ranked) \<and>
     list_all (\<lambda>r. cd_InstrumentID r \<in> skipped \<longrightarrow> too_dear_unheld lot r) ranked"

lemma lotHolding_cong: "cd_InstrumentID r = cd_InstrumentID s \<Longrightarrow> lotHolding l r = lotHolding l s"
  by (simp add: lotHolding_def)

lemma passLoop_from:
  "r \<in> set (passLoop cfg skipped live backtest i rs) \<Longrightarrow> \<exists>s \<in> set rs. cd_InstrumentID r = cd_InstrumentID s \<and>
     (cd_InstrumentID s \<in> skipped \<longrightarrow> rk_OneShare r = rk_OneShare s \<and> rk_TargetValue r = rk_TargetValue s)"
proof (induction rs arbitrary: live backtest i)
  case (Cons q rs)
  show ?case
  proof (cases "r \<in> set (passLoop cfg skipped (snd (if cd_InstrumentID q \<in> skipped \<or> f_eq (cd_Volatility q) (Fin 0) \<or> capper_full cfg live
        then (False, live) else capper_take cfg live (cd_Sector q))) (snd (capper_take cfg backtest (cd_Sector q))) (i + 1) rs)")
    case True
    from Cons.IH [OF this] show ?thesis by auto
  next
    case False
    then show ?thesis using Cons.prems
      by (intro bexI [of _ q]) (auto simp: Let_def case_prod_unfold split: if_splits)
  qed
qed simp

lemma passLoop_status:
  "r \<in> set (passLoop cfg skipped live backtest i rs) \<Longrightarrow> rk_Status r = StatusUnaffordable \<longleftrightarrow> cd_InstrumentID r \<in> skipped"
  by (induction rs arbitrary: live backtest i)
    (auto simp: Let_def case_prod_unfold split: if_splits)

lemma weighPicks_from:
  "r \<in> set (weighPicks part raw rs) \<Longrightarrow> \<exists>s \<in> set rs. cd_InstrumentID r = cd_InstrumentID s \<and> rk_OneShare r = rk_OneShare s \<and>
     rk_TargetValue r = rk_TargetValue s \<and> rk_Status r = rk_Status s"
  by (auto simp: weighPicks_def Let_def split: if_splits)

lemma pass_elem:
  assumes "r \<in> set (snd (pickAndWeigh cfg ranked riskOff skipped))"
  obtains s where "s \<in> set (passLoop cfg skipped newCapper newCapper 0 ranked)" "cd_InstrumentID r = cd_InstrumentID s"
    "rk_OneShare r = rk_OneShare s" "rk_TargetValue r = rk_TargetValue s" "rk_Status r = rk_Status s"
  using assms weighPicks_from by (auto simp: pickAndWeigh_def Let_def) blast

lemma pass_from:
  assumes "r \<in> set (snd (pickAndWeigh cfg ranked riskOff skipped))"
  shows "\<exists>s \<in> set ranked. cd_InstrumentID r = cd_InstrumentID s \<and>
      (cd_InstrumentID s \<in> skipped \<longrightarrow> rk_OneShare r = rk_OneShare s \<and> rk_TargetValue r = rk_TargetValue s)"
    and "rk_Status r = StatusUnaffordable \<longleftrightarrow> cd_InstrumentID r \<in> skipped"
proof -
  obtain q where q: "q \<in> set (passLoop cfg skipped newCapper newCapper 0 ranked)" "cd_InstrumentID r = cd_InstrumentID q"
    "rk_OneShare r = rk_OneShare q" "rk_TargetValue r = rk_TargetValue q" "rk_Status r = rk_Status q"
    using assms by (rule pass_elem)
  show "\<exists>s \<in> set ranked. cd_InstrumentID r = cd_InstrumentID s \<and>
      (cd_InstrumentID s \<in> skipped \<longrightarrow> rk_OneShare r = rk_OneShare s \<and> rk_TargetValue r = rk_TargetValue s)"
    using passLoop_from [OF q(1)] q by metis
  show "rk_Status r = StatusUnaffordable \<longleftrightarrow> cd_InstrumentID r \<in> skipped" using passLoop_status [OF q(1)] q by simp
qed

lemma too_dear_cong:
  "cd_InstrumentID r = cd_InstrumentID s \<Longrightarrow> rk_OneShare r = rk_OneShare s \<Longrightarrow> rk_TargetValue r = rk_TargetValue s \<Longrightarrow>
     too_dear_unheld lot r = too_dear_unheld lot s"
  by (simp add: too_dear_unheld_def lotHolding_def split: option.splits)

lemma lotStep_not_pick: "\<not> isPick r \<Longrightarrow> lotStep l r = r"
  by (simp add: lotStep_def)

lemma pass_keeps_inv:
  assumes inv: "selection_inv lot ranked skipped" and p: "passed = snd (pickAndWeigh cfg ranked riskOff skipped)"
  shows "selection_inv lot (fst (applyLot lot passed)) (skipped \<union> snd (applyLot lot passed))"
proof -
  have ids: "map cd_InstrumentID passed = map cd_InstrumentID ranked" using p pickAndWeigh_ids by simp
  have d: "distinct (map cd_InstrumentID passed)" using inv ids by (simp add: selection_inv_def)
  have old: "too_dear_unheld lot r" if "r \<in> set passed" "cd_InstrumentID r \<in> skipped" for r
    using pass_from(1) [of r cfg ranked riskOff skipped] that inv unfolding p selection_inv_def list_all_iff
    by (metis too_dear_cong)
  show ?thesis
  proof (cases lot)
    case None
    then show ?thesis using d old by (simp add: selection_inv_def applyLot_def list_all_iff)
  next
    case (Some l)
    have "too_dear_unheld lot (lotStep l r)"
      if r: "r \<in> set passed" and c: "cd_InstrumentID r \<in> skipped \<union> snd (applyLot lot passed)" for r
    proof (cases "cd_InstrumentID r \<in> skipped")
      case True
      then have "\<not> isPick r" using pickAndWeigh_picks r p by blast
      then show ?thesis using old [OF r True] by (simp add: lotStep_not_pick)
    next
      case False
      then obtain s where s: "s \<in> set passed" "lotSkips l s" "cd_InstrumentID s = cd_InstrumentID r"
        using c Some by (auto simp: applyLot_def)
      then have "s = r" using d r by (metis distinct_map inj_onD)
      then show ?thesis using s(2) Some
        by (auto simp: too_dear_unheld_def lotSkips_def lotStep_def tooDear_def lotHolding_def targetValue_def Let_def)
    qed
    then show ?thesis using d Some by (auto simp: selection_inv_def list_all_iff applyLot_def o_def)
  qed
qed

text \<open>What a settled book says of each of its names.\<close>

definition settled :: "minimum_lot \<Rightarrow> ranked_name \<Rightarrow> bool" where
  "settled l r \<longleftrightarrow> (case rk_Status r of
     StatusPicked \<Rightarrow> \<not> tooDear l r
   | StatusHeldOneLotShort \<Rightarrow> lotHolding l r > 0 \<and> rk_HeldQuantity r = lotHolding l r \<and> f_lt (rk_TargetValue r) (rk_OneShare r)
   | StatusUnaffordable \<Rightarrow> lotHolding l r \<le> 0 \<and> f_lt (rk_TargetValue r) (rk_OneShare r)
   | _ \<Rightarrow> True)"

lemma passLoop_status_cases:
  "r \<in> set (passLoop cfg skipped live backtest i rs) \<Longrightarrow> rk_Status r \<noteq> StatusHeldOneLotShort"
  by (induction rs arbitrary: live backtest i) (auto simp: Let_def case_prod_unfold split: if_splits)

lemma pass_status_cases: "r \<in> set (snd (pickAndWeigh cfg ranked riskOff skipped)) \<Longrightarrow> rk_Status r \<noteq> StatusHeldOneLotShort"
  by (erule pass_elem) (simp add: passLoop_status_cases)

lemma settled_step:
  assumes "r \<in> set (snd (pickAndWeigh cfg ranked riskOff skipped))" and "\<not> lotSkips l r"
    and "rk_Status r = StatusUnaffordable \<Longrightarrow> too_dear_unheld (Some l) r"
  shows "settled l (lotStep l r)"
proof (cases "isPick r \<and> tooDear l r")
  case True
  then have "lotHolding l r > 0" using assms(2) by (simp add: lotSkips_def)
  with True show ?thesis by (simp add: settled_def lotStep_def Let_def lotHolding_def tooDear_def targetValue_def)
next
  case False
  then have "lotStep l r = r" by (auto simp: lotStep_def)
  with False show ?thesis using assms(3) pass_status_cases [OF assms(1)]
    by (cases "rk_Status r") (auto simp: settled_def isPick_def too_dear_unheld_def)
qed

lemma rankableFrom_ids:
  "rankableFrom cfg seen cs = Inr rs \<Longrightarrow> map cd_InstrumentID rs = map cd_InstrumentID cs \<and> distinct (map cd_InstrumentID cs) \<and>
     seen \<inter> cd_InstrumentID ` set cs = {}"
  by (induction cs arbitrary: seen rs) (auto simp: bindr_eq_Inr asRanked_def candidate.defs)

lemma rankable_ids:
  "rankable cfg cs = Inr rs \<Longrightarrow> Config_Validate cfg = [] \<and> map cd_InstrumentID rs = map cd_InstrumentID cs \<and> distinct (map cd_InstrumentID cs) \<and>
     length rs = length cs"
  using rankableFrom_ids [of cfg "{}" cs rs] by (auto simp: rankable_def) (metis length_map)

section \<open>Properties of the selection\<close>

lemma selectBook_Inr:
  assumes "selectBook cfg cs riskOff lot = Inr b"
  obtains ranked where "rankable cfg cs = Inr ranked" "b = selectLoop cfg lot riskOff (sortBy scoreBefore ranked) {}"
  using assms by (auto simp: selectBook_def bindr_eq_Inr)

lemma sorted_ranked_ids:
  "rankable cfg cs = Inr ranked \<Longrightarrow> mset (map cd_InstrumentID (sortBy scoreBefore ranked)) = mset (map cd_InstrumentID cs)"
  using rankable_ids [of cfg cs ranked] by (metis mset_map mset_sortBy)

lemma selection_start:
  assumes "rankable cfg cs = Inr ranked"
  shows "selection_inv lot (sortBy scoreBefore ranked) {}"
proof -
  have "distinct (map cd_InstrumentID (sortBy scoreBefore ranked))"
    using mset_eq_imp_distinct_iff [OF sorted_ranked_ids [OF assms]] rankable_ids [OF assms] by simp
  then show ?thesis by (simp add: selection_inv_def list_all_iff)
qed

text \<open>The last pass of a selection.\<close>

lemma selection_last:
  assumes "selectBook cfg cs riskOff lot = Inr b"
  obtains ranked' skipped' passed where "selection_inv lot ranked' skipped'" "passed = snd (pickAndWeigh cfg ranked' riskOff skipped')"
    "snd (applyLot lot passed) = {}" "bk_Ranked b = fst (applyLot lot passed)" "bk_Targets b = fst (pickAndWeigh cfg ranked' riskOff skipped')"
    "mset (map cd_InstrumentID passed) = mset (map cd_InstrumentID cs)"
proof -
  obtain ranked where r: "rankable cfg cs = Inr ranked" "b = selectLoop cfg lot riskOff (sortBy scoreBefore ranked) {}"
    using assms by (rule selectBook_Inr)
  let ?Inv = "\<lambda>rs sk. selection_inv lot rs sk \<and> mset (map cd_InstrumentID rs) = mset (map cd_InstrumentID cs)"
  have start: "?Inv (sortBy scoreBefore ranked) {}" using selection_start [OF r(1)] sorted_ranked_ids [OF r(1)] by simp
  have step: "?Inv (fst (applyLot lot passed)) (sk \<union> snd (applyLot lot passed))"
    if "?Inv rs sk" "passed = snd (pickAndWeigh cfg rs riskOff sk)" for rs sk passed
    using pass_keeps_inv [of lot rs sk passed cfg riskOff] that applyLot_ids [of lot passed] pickAndWeigh_ids [of cfg rs riskOff sk] by simp
  have "\<exists>rs sk passed. ?Inv rs sk \<and> passed = snd (pickAndWeigh cfg rs riskOff sk) \<and> snd (applyLot lot passed) = {} \<and>
      bk_Ranked b = fst (applyLot lot passed) \<and> bk_Targets b = fst (pickAndWeigh cfg rs riskOff sk)"
    unfolding r(2) by (rule selectLoop_last [where Inv = ?Inv, OF start step])
  then obtain rs sk passed where l: "?Inv rs sk" "passed = snd (pickAndWeigh cfg rs riskOff sk)" "snd (applyLot lot passed) = {}"
      "bk_Ranked b = fst (applyLot lot passed)" "bk_Targets b = fst (pickAndWeigh cfg rs riskOff sk)"
    by (elim exE conjE) (rule that; (intro conjI)?; assumption)
  have "mset (map cd_InstrumentID passed) = mset (map cd_InstrumentID cs)"
    using l(1) unfolding l(2) pickAndWeigh_ids by (rule conjunct2)
  with l show ?thesis by (intro that [of rs sk passed]) (blast intro: conjunct1)+
qed

text \<open>C36: with D7-L the selection always settles, within one pass per candidate and one more; every candidate is in the
  book it returns, and there a pick the account does not hold is bought only if one share costs no more than its target
  value, a held pick that is dearer is kept with its holding on record, and a name is left out as unaffordable only if
  the account does not hold it and one share did cost more.\<close>

theorem SelectBook_settles:
  assumes "SelectBookWithMinimumLot cfg cs riskOff l = Inr b"
  shows "\<exists>ranked. rankable cfg cs = Inr ranked \<and>
     selectFuel (length cs + 1) cfg (Some l) riskOff (sortBy scoreBefore ranked) {} = Some b \<and>
     list_all (settled l) (bk_Ranked b) \<and> mset (map cd_InstrumentID (bk_Ranked b)) = mset (map cd_InstrumentID cs)"
proof -
  have s: "selectBook cfg cs riskOff (Some l) = Inr b" using assms by (simp add: SelectBookWithMinimumLot_def)
  obtain ranked where r: "rankable cfg cs = Inr ranked" "b = selectLoop cfg (Some l) riskOff (sortBy scoreBefore ranked) {}"
    using s by (rule selectBook_Inr)
  have "unskipped (sortBy scoreBefore ranked) {} < length cs + 1"
    using unskipped_le [of "sortBy scoreBefore ranked"] rankable_ids [OF r(1)] by simp
  note fuel = selectFuel_enough [OF this, of cfg "Some l" riskOff]
  obtain rs sk passed where last: "selection_inv (Some l) rs sk" "passed = snd (pickAndWeigh cfg rs riskOff sk)"
    "snd (applyLot (Some l) passed) = {}" "bk_Ranked b = fst (applyLot (Some l) passed)"
    "bk_Targets b = fst (pickAndWeigh cfg rs riskOff sk)" "mset (map cd_InstrumentID passed) = mset (map cd_InstrumentID cs)"
    using s by (rule selection_last)
  have "settled l (lotStep l q)" if q: "q \<in> set passed" for q
  proof (rule settled_step)
    show "q \<in> set (snd (pickAndWeigh cfg rs riskOff sk))" using q last(2) by simp
    show "\<not> lotSkips l q" using last(3) q by (auto simp: applyLot_def)
    assume "rk_Status q = StatusUnaffordable"
    then show "too_dear_unheld (Some l) q"
      using pass_from [of q cfg rs riskOff sk] q last(1,2) unfolding selection_inv_def list_all_iff by (metis too_dear_cong)
  qed
  have "map cd_InstrumentID (bk_Ranked b) = map cd_InstrumentID passed" using last(4) applyLot_ids by simp
  then have "mset (map cd_InstrumentID (bk_Ranked b)) = mset (map cd_InstrumentID cs)" unfolding last(6) [symmetric] by (rule arg_cong)
  moreover have "list_all (settled l) (bk_Ranked b)"
    using \<open>\<And>q. q \<in> set passed \<Longrightarrow> settled l (lotStep l q)\<close> last(4) by (simp add: applyLot_def list_all_iff)
  ultimately show ?thesis using fuel r by blast
qed

lemma pass_targets:
  "\<exists>bond. set (fst (pickAndWeigh cfg ranked riskOff skipped)) =
       set (map asTarget (filter isPick (snd (pickAndWeigh cfg ranked riskOff skipped)))) \<union> bond \<and>
     bond \<subseteq> {t. tg_InstrumentID t = mc_RiskOffInstrument cfg \<and> f_lt (Fin 0) (tg_Weight t)}"
proof -
  define w where "w = (if filter isPick (passLoop cfg skipped newCapper newCapper 0 ranked) = [] then mc_Invested cfg
      else f_sub (mc_Invested cfg) (momentumPart cfg riskOff))"
  define bond where "bond = (if f_lt (Fin 0) w then [\<lparr>tg_InstrumentID = mc_RiskOffInstrument cfg, tg_Weight = w\<rparr>] else [])"
  have "fst (pickAndWeigh cfg ranked riskOff skipped) =
      sort_key tg_InstrumentID (map asTarget (filter isPick (snd (pickAndWeigh cfg ranked riskOff skipped)))) @ bond"
    unfolding bond_def w_def by (simp add: pickAndWeigh_def Let_def)
  then have "set (fst (pickAndWeigh cfg ranked riskOff skipped)) =
      set (map asTarget (filter isPick (snd (pickAndWeigh cfg ranked riskOff skipped)))) \<union> set bond"
    by (simp only: set_append set_sort)
  moreover have "set bond \<subseteq> {t. tg_InstrumentID t = mc_RiskOffInstrument cfg \<and> f_lt (Fin 0) (tg_Weight t)}"
    by (auto simp: bond_def)
  ultimately show ?thesis by blast
qed

lemma lotStep_target [simp]: "asTarget (lotStep l r) = asTarget r"
  by (simp add: asTarget_def lotStep_def Let_def)

lemma lotStep_targets: "map asTarget (filter chosen (map (lotStep l) rs)) = map asTarget (filter chosen rs)"
  by (induction rs) auto

lemma applyLot_targets: "map asTarget (filter chosen (fst (applyLot lot rs))) = map asTarget (filter chosen rs)"
  by (simp add: applyLot_def lotStep_targets split: option.splits)

text \<open>C37: a book holds at most as many names as it may, and at most the cap of any one sector, whatever was skipped on
  the way; and its targets are exactly the weights of the names it holds, with the risk-off instrument besides.\<close>

theorem SelectBook_within_caps:
  assumes "selectBook cfg cs riskOff lot = Inr b"
  shows "count_of chosen (bk_Ranked b) \<le> mc_TopN cfg \<and>
     (\<forall>s. s = '''' \<or> count_of (\<lambda>r. chosen r \<and> cd_Sector r = s) (bk_Ranked b) \<le> mc_SectorCap cfg) \<and>
     asTarget ` set (filter chosen (bk_Ranked b)) \<subseteq> set (bk_Targets b) \<and>
     set (bk_Targets b) - asTarget ` set (filter chosen (bk_Ranked b)) \<subseteq> {t. tg_InstrumentID t = mc_RiskOffInstrument cfg \<and> f_lt (Fin 0) (tg_Weight t)}"
proof -
  obtain ranked where r: "rankable cfg cs = Inr ranked" using assms by (rule selectBook_Inr)
  have cfg: "Config_Validate cfg = []" using rankable_ids [OF r] by simp
  obtain rs sk passed where last: "passed = snd (pickAndWeigh cfg rs riskOff sk)"
    "bk_Ranked b = fst (applyLot lot passed)" "bk_Targets b = fst (pickAndWeigh cfg rs riskOff sk)"
    using assms by (rule selection_last)
  have ch: "chosen q \<longleftrightarrow> isPick q" if "q \<in> set passed" for q using that last(1) pickAndWeigh_chosen by blast
  then have f: "filter chosen passed = filter isPick passed" by (simp cong: filter_cong)
  have fs: "filter (\<lambda>r. chosen r \<and> cd_Sector r = s) passed = filter (\<lambda>r. isPick r \<and> cd_Sector r = s) passed" for s
    using ch by (intro filter_cong) auto
  have a: "count_of chosen (bk_Ranked b) = count_of isPick passed"
    using applyLot_count [of "\<lambda>_. True" lot passed] f last(2) by (simp add: count_of_def)
  have "count_of (\<lambda>r. chosen r \<and> cd_Sector r = s) (bk_Ranked b) = count_of (\<lambda>r. isPick r \<and> cd_Sector r = s) passed" for s
    using applyLot_count [of "\<lambda>x. x = s" lot passed] fs last(2) by (simp add: count_of_def)
  note caps = pickAndWeigh_caps [OF cfg, where ranked = rs and riskOff = riskOff and skipped = sk, folded last(1)] and this
  then have "\<forall>s. s = '''' \<or> count_of (\<lambda>r. chosen r \<and> cd_Sector r = s) (bk_Ranked b) \<le> mc_SectorCap cfg" by metis
  moreover have "set (map asTarget (filter chosen (bk_Ranked b))) = set (map asTarget (filter isPick passed))"
    unfolding last(2) applyLot_targets f ..
  moreover obtain bond where "set (bk_Targets b) = set (map asTarget (filter isPick passed)) \<union> bond"
    "bond \<subseteq> {t. tg_InstrumentID t = mc_RiskOffInstrument cfg \<and> f_lt (Fin 0) (tg_Weight t)}"
    using pass_targets [of cfg rs riskOff sk] unfolding last(3) last(1) by blast
  ultimately show ?thesis using a caps(1) by auto
qed

section \<open>The live book is the backtest's\<close>
















section \<open>A worked month\<close>

text \<open>Three names, two of one sector, on an account of 1000: the first costs more than its target and is not held.\<close>

definition example_rule :: momentum_config where
  "example_rule = FCombo\<lparr>mc_TopN := 2, mc_SectorCap := 1, mc_Invested := Fin 1, mc_RiskOffFraction := Fin (1 / 2),
     mc_MaxUnlabelledShare := Fin (1 / 4)\<rparr>"

definition example_candidates :: "candidate list" where
  "example_candidates =
     [\<lparr>cd_InstrumentID = ''A'', cd_Sector = ''x'', cd_Score = Fin 3, cd_Volatility = Fin (1 / 2)\<rparr>,
      \<lparr>cd_InstrumentID = ''B'', cd_Sector = ''x'', cd_Score = Fin 2, cd_Volatility = Fin (1 / 2)\<rparr>,
      \<lparr>cd_InstrumentID = ''C'', cd_Sector = ''y'', cd_Score = Fin 1, cd_Volatility = Fin (1 / 2)\<rparr>]"

definition example_lot :: minimum_lot where
  "example_lot = \<lparr>ml_NetLiquidation = Fin 1000, ml_Scale = Fin 1,
     ml_Prices = [(''A'', Fin 600), (''B'', Fin 100), (''C'', Fin 700)], ml_Held = [(''C'', 2)]\<rparr>"

lemma example_rule_valid: "Config_Validate example_rule = []"
  by code_simp

lemma example_selected:
  "\<exists>b. SelectBookWithMinimumLot example_rule example_candidates False example_lot = Inr b"
proof -
  have "MinimumLot_validate example_lot example_candidates = []" by code_simp
  moreover have "\<not> isl (rankable example_rule example_candidates)" by code_simp
  then obtain r where "rankable example_rule example_candidates = Inr r" by (cases "rankable example_rule example_candidates") auto
  ultimately show ?thesis by (simp add: SelectBookWithMinimumLot_def selectBook_def)
qed

theorem SelectBook_settles_witness:
  "\<exists>b ranked. rankable example_rule example_candidates = Inr ranked \<and>
     selectFuel 4 example_rule (Some example_lot) False (sortBy scoreBefore ranked) {} = Some b \<and>
     list_all (settled example_lot) (bk_Ranked b) \<and> map rk_Status (bk_Ranked b) = [StatusUnaffordable, StatusPicked, StatusHeldOneLotShort]"
proof -
  obtain b where b: "SelectBookWithMinimumLot example_rule example_candidates False example_lot = Inr b"
    using example_selected by blast
  have "map_sum id (\<lambda>b. map rk_Status (bk_Ranked b)) (SelectBookWithMinimumLot example_rule example_candidates False example_lot)
      = Inr [StatusUnaffordable, StatusPicked, StatusHeldOneLotShort]"
    by code_simp
  with b have "map rk_Status (bk_Ranked b) = [StatusUnaffordable, StatusPicked, StatusHeldOneLotShort]" by simp
  moreover have "length example_candidates + 1 = 4" by (simp add: example_candidates_def)
  ultimately show ?thesis using SelectBook_settles [OF b] by metis
qed

theorem SelectBook_within_caps_witness:
  "\<exists>b. selectBook example_rule example_candidates True None = Inr b \<and> count_of chosen (bk_Ranked b) \<le> 2 \<and>
     count_of (\<lambda>r. chosen r \<and> cd_Sector r = ''x'') (bk_Ranked b) \<le> 1"
proof -
  have "\<not> isl (rankable example_rule example_candidates)" by code_simp
  then obtain r where "rankable example_rule example_candidates = Inr r" by (cases "rankable example_rule example_candidates") auto
  then obtain b where b: "selectBook example_rule example_candidates True None = Inr b" by (simp add: selectBook_def)
  from SelectBook_within_caps [OF b] b show ?thesis by (auto simp: example_rule_def)
qed


theorem RankUniverse_top_witness:
  "\<exists>ms cs. RankUniverse (example_rule\<lparr>mc_UniverseSize := 1\<rparr>)
       [\<lparr>row_InstrumentID = ''A'', row_Type = ''CS'', row_Close = Fin 10, row_Volume = Fin 2, row_Sector = ''x'', row_SectorSource = ''s''\<rparr>,
        \<lparr>row_InstrumentID = ''B'', row_Type = ''CS'', row_Close = Fin 10, row_Volume = Fin 3, row_Sector = ''x'', row_SectorSource = ''s''\<rparr>]
     = Inr (ms, cs) \<and> sorted_wrt rankBefore ms \<and> map mb_Rank ms = [1]"
proof -
  let ?cfg = "example_rule\<lparr>mc_UniverseSize := 1\<rparr>"
  let ?a = "\<lparr>row_InstrumentID = ''A'', row_Type = ''CS'', row_Close = Fin 10, row_Volume = Fin 2, row_Sector = ''x'', row_SectorSource = ''s''\<rparr>"
  let ?b = "\<lparr>row_InstrumentID = ''B'', row_Type = ''CS'', row_Close = Fin 10, row_Volume = Fin 3, row_Sector = ''x'', row_SectorSource = ''s''\<rparr>"
  have "map_sum id (\<lambda>p. length (fst p)) (RankUniverse ?cfg [?b, ?a]) = Inr 1" by code_simp
  then obtain ms cs where r: "RankUniverse ?cfg [?b, ?a] = Inr (ms, cs)" and l: "length ms = 1"
    by (cases "RankUniverse ?cfg [?b, ?a]") auto
  have "mset [?a, ?b] = mset [?b, ?a]" by simp
  from RankUniverse_top [OF r this] l show ?thesis by auto
qed
end
