(* ===== verification/MomentumDecide.thy ===== *)
theory MomentumDecide
  imports MomentumSelection
begin

text \<open>
  \<open>targetweight/momentum/decide.go\<close>: one month's decision, from the trend, the universe, each member's score and the
  book. The prose of a detail is a constructor carrying its arguments. The code indexes the records by instrument,
  which the universe holds once each; \<open>recordRanked\<close> updates the record of that instrument.
\<close>

section \<open>Scores across a gap\<close>

lemma closesHad_all:
  "n \<le> length ss \<Longrightarrow> list_all (\<lambda>s. map_of c s \<noteq> None) (take n ss) \<Longrightarrow> closesHad c n ss = map (\<lambda>s. mget c s (Fin 0)) (take n ss)"
proof (induction ss arbitrary: n)
  case (Cons s ss)
  then show ?case by (cases n) (auto simp: mget_def)
qed simp

lemma take_rev_last: "take n (rev ss) = rev (lastSessions n ss)"
  by (simp add: lastSessions_def take_rev)

lemma lastClosesHad_complete:
  assumes "lastCloses ss c n = Some w" and "n \<le> length ss"
  shows "lastClosesHad ss c n = Some w"
proof -
  have "list_all (\<lambda>s. map_of c s \<noteq> None) (lastSessions n ss)" and w: "w = map (\<lambda>s. mget c s (Fin 0)) (lastSessions n ss)"
    using assms(1) by (auto simp: lastCloses_def Let_def split: if_splits)
  then have "list_all (\<lambda>s. map_of c s \<noteq> None) (take n (rev ss))" unfolding take_rev_last by (simp add: list_all_iff)
  from closesHad_all [OF _ this] assms(2) w show ?thesis by (simp add: lastClosesHad_def take_rev_last rev_map)
qed

lemma gapsBack_all: "length ss \<le> n \<Longrightarrow> gapsBack c n ss = filter (\<lambda>s. map_of c s = None) ss"
  by (induction ss arbitrary: n) (auto split: option.splits)

lemma gapsIn_all: "length ss \<le> n \<Longrightarrow> gapsIn ss c n = filter (\<lambda>s. map_of c s = None) ss"
  by (simp add: gapsIn_def gapsBack_all rev_filter)

lemma length_lastSessions [simp]: "length (lastSessions n ss) = min n (length ss)"
  by (auto simp: lastSessions_def)

lemma checkCalendarFrom_ok:
  "checkCalendarFrom b ss = [] \<longleftrightarrow> list_all parsesDateOnly ss \<and> strict_asc ss \<and> (\<forall>x. b = Some x \<longrightarrow> list_all (\<lambda>s. x < s) ss)"
proof (induction ss arbitrary: b)
  case (Cons s ss)
  show ?case
    by (auto simp: Cons.IH strict_asc_def list_all_iff not_le split: option.splits) (metis order_le_less)+
qed simp

lemma checkCalendar_ok: "checkCalendar ss = [] \<longleftrightarrow> ss \<noteq> [] \<and> list_all parsesDateOnly ss \<and> strict_asc ss"
  by (simp add: checkCalendar_def checkCalendarFrom_ok)

lemma checkClosesOn_ok:
  "checkClosesOn on c = [] \<longleftrightarrow> list_all (\<lambda>(s, p). s \<in> on \<and> isFinite p \<and> \<not> f_le p (Fin 0)) c"
  by (induction on c rule: checkClosesOn.induct) auto

lemma checkInputs_ok: "checkInputs ss c = [] \<longleftrightarrow> checkCalendar ss = [] \<and> checkCloses ss c = []"
  by (simp add: checkInputs_def Let_def)

lemma strict_asc_drop: "strict_asc xs \<Longrightarrow> strict_asc (drop n xs)"
  by (simp add: strict_asc_def sorted_wrt_drop)

lemma recent_inputs_ok:
  assumes "checkInputs ss c = []" and "0 < n"
  shows "checkInputs (lastSessions n ss) (concat (map (\<lambda>s. case map_of c s of Some p \<Rightarrow> [(s, p)] | None \<Rightarrow> []) (lastSessions n ss))) = []"
proof -
  have c: "ss \<noteq> []" "list_all parsesDateOnly ss" "strict_asc ss" "list_all (\<lambda>(s, p). s \<in> set ss \<and> isFinite p \<and> \<not> f_le p (Fin 0)) c"
    using assms(1) by (auto simp: checkInputs_ok checkCalendar_ok checkCloses_def checkClosesOn_ok)
  have "isFinite p \<and> \<not> f_le p (Fin 0)" if "map_of c s = Some p" for s p
    using c(4) map_of_SomeD [OF that] by (auto simp: list_all_iff)
  moreover have "list_all parsesDateOnly (lastSessions n ss)" "strict_asc (lastSessions n ss)"
    using c(2) strict_asc_drop [OF c(3)] by (auto simp: lastSessions_def list_all_iff dest: in_set_dropD)
  moreover have "length (lastSessions n ss) \<noteq> 0" using c(1) assms(2) by simp
  ultimately show ?thesis
    by (auto simp: checkInputs_ok checkCalendar_ok checkCloses_def checkClosesOn_ok list_all_iff split: option.splits simp del: length_lastSessions)
qed

lemma score_by_Inr:
  assumes "score_by cfg ss c win = Inr h"
  shows "Config_Validate cfg = []" "checkInputs ss c = []" "hi_Closes h = int (length c)"
    "hi_Status h = StatusShortHistory \<longleftrightarrow> length c < nat (mc_ScoreLookback cfg) + 1"
    "hi_Status h = StatusGap \<longleftrightarrow> length c \<ge> nat (mc_ScoreLookback cfg) + 1 \<and> win ss c (nat (mc_ScoreLookback cfg) + 1) = None"
  using assms by (auto simp: score_by_def Let_def split: if_splits option.splits)

lemma closes_within_calendar:
  assumes "checkInputs ss c = []" and "distinct (map fst c)"
  shows "length c \<le> length ss"
proof -
  have "set (map fst c) \<subseteq> set ss" using assms(1) by (fastforce simp: checkInputs_ok checkCloses_def checkClosesOn_ok list_all_iff)
  then have "card (set (map fst c)) \<le> card (set ss)" by (simp add: card_mono)
  then show ?thesis using distinct_card [OF assms(2)] card_length [of ss] by simp
qed

lemma BacktestScore_total:
  assumes "Config_Validate cfg = []" and "checkInputs ss c = []"
  shows "\<exists>h. BacktestScore cfg ss c = Inr h \<and> hi_Status h \<noteq> StatusGap"
  using assms by (cases "length c < nat (mc_ScoreLookback cfg) + 1")
    (auto simp: BacktestScore_def score_by_def Let_def lastClosesHad_def)

text \<open>C39: a name with a complete window is scored by the live rule, the backtest's rule and the rule for held names
  alike; and one with a gap names the sessions it is missing, each a session of its window with no close, and is always
  scored or found short of history when it is held, never an error.\<close>

theorem Score_agrees:
  assumes "Score cfg ss c = Inr h" and "distinct (map fst c)"
  shows "(hi_Status h \<noteq> StatusGap \<longrightarrow> BacktestScore cfg ss c = Inr h \<and> ScoreHeld cfg ss c = Inr h) \<and>
     (hi_Status h = StatusGap \<longrightarrow> hi_GapSessions h \<noteq> [] \<and>
        list_all (\<lambda>s. s \<in> set (lastSessions (nat (mc_ScoreLookback cfg) + 1) ss) \<and> map_of c s = None) (hi_GapSessions h) \<and>
        (\<exists>h'. ScoreHeld cfg ss c = Inr h' \<and> hi_Status h' \<noteq> StatusGap \<and> hi_Closes h' = hi_Closes h))"
proof -
  let ?need = "nat (mc_ScoreLookback cfg) + 1"
  note s = score_by_Inr [OF assms(1) [unfolded Score_def]]
  have len: "length c \<le> length ss" using closes_within_calendar [OF s(2) assms(2)] .
  have a: "BacktestScore cfg ss c = Inr h \<and> ScoreHeld cfg ss c = Inr h" if g: "hi_Status h \<noteq> StatusGap"
  proof -
    have "BacktestScore cfg ss c = Inr h"
    proof (cases "length c < ?need")
      case True
      then show ?thesis using assms(1) by (auto simp: Score_def BacktestScore_def score_by_def Let_def)
    next
      case False
      then obtain w where w: "lastCloses ss c ?need = Some w" using s(5) g by fastforce
      then have "lastClosesHad ss c ?need = Some w" using False len by (intro lastClosesHad_complete) auto
      with w show ?thesis using assms(1) False by (simp add: Score_def BacktestScore_def score_by_def Let_def)
    qed
    then show ?thesis using assms(1) g by (simp add: ScoreHeld_def)
  qed
  have b: "hi_GapSessions h \<noteq> [] \<and> list_all (\<lambda>s. s \<in> set (lastSessions ?need ss) \<and> map_of c s = None) (hi_GapSessions h) \<and>
      (\<exists>h'. ScoreHeld cfg ss c = Inr h' \<and> hi_Status h' \<noteq> StatusGap \<and> hi_Closes h' = hi_Closes h)" if g: "hi_Status h = StatusGap"
  proof -
    have none: "lastCloses ss c ?need = None" and l: "\<not> length c < ?need" using s(5) g by auto
    then have gs: "hi_GapSessions h = filter (\<lambda>s. map_of c s = None) (lastSessions ?need ss)"
      using assms(1) by (auto simp: Score_def score_by_def Let_def gapsIn_all)
    have "\<exists>s \<in> set (lastSessions ?need ss). map_of c s = None"
      using none by (auto simp: lastCloses_def Let_def list_all_iff split: if_splits)
    then have ne: "hi_GapSessions h \<noteq> []" unfolding gs by (auto simp: filter_empty_conv)
    let ?in = "concat (map (\<lambda>s. case map_of c s of Some p \<Rightarrow> [(s, p)] | None \<Rightarrow> []) (lastSessions BacktestHistorySessions ss))"
    have "checkInputs (lastSessions BacktestHistorySessions ss) ?in = []"
      using recent_inputs_ok [OF s(2), of BacktestHistorySessions] by (simp add: BacktestHistorySessions_def)
    then obtain h' where h': "BacktestScore cfg (lastSessions BacktestHistorySessions ss) ?in = Inr h'" "hi_Status h' \<noteq> StatusGap"
      using BacktestScore_total [OF s(1)] by blast
    then show ?thesis using ne assms(1) g by (simp add: ScoreHeld_def Let_def list_all_iff gs)
  qed
  from a b show ?thesis by blast
qed

section \<open>Inputs, records and decisions\<close>

record decide_input =
  di_Sessions :: "string list"
  di_UniverseSession :: string
  di_UniverseRows :: "row list"
  di_Closes :: "(string, closes) gomap"
  di_MinimumLot :: "minimum_lot option"
  di_Held :: "string set"

record name_record =
  nr_InstrumentID :: string
  nr_UniverseRank :: int
  nr_DollarVolume :: f64
  nr_Sector :: string
  nr_SectorSource :: string
  nr_Status :: momentum_status
  nr_Closes :: int
  nr_Score :: f64
  nr_Volatility :: f64
  nr_ScoreRank :: int
  nr_Weight :: f64
  nr_BacktestWouldPick :: bool
  nr_OneShare :: f64
  nr_TargetValue :: f64
  nr_HeldQuantity :: int
  nr_HeldValue :: f64
  nr_HeldShare :: f64
  nr_GapSessions :: "string list"

datatype (plugins only: code size) decision_outcome = NoOutcome | OutcomeDecided | OutcomeWithheld

record kept_holding =
  kh_InstrumentID :: string
  kh_HeldQuantity :: int
  kh_HeldValue :: f64
  kh_HeldShare :: f64
  kh_TargetValue :: f64
  kh_OneShare :: f64

datatype (plugins only: code size) decision_detail =
  NoDetail
| LabelsMissingDetail int int f64
| AllUnaffordableDetail int int int f64 f64
| AllZeroDetail f64 string
| KeptDetail "kept_holding list" f64

record decision =
  de_Outcome :: decision_outcome
  de_Reason :: momentum_withheld
  de_Detail :: decision_detail
  de_CloseSession :: string
  de_Trend :: trend
  de_Universe :: universe_counts
  de_Names :: "name_record list"
  de_Targets :: "target list"

definition withhold :: "decision \<Rightarrow> momentum_withheld \<Rightarrow> decision" where
  "withhold d reason = d\<lparr>de_Outcome := OutcomeWithheld, de_Reason := reason\<rparr>"

definition countUnlabelled :: "member list \<Rightarrow> int" where
  "countUnlabelled members = int (length (filter (\<lambda>m. row_Sector m = '''') members))"

definition isKept :: "name_record \<Rightarrow> bool" where
  "isKept n \<longleftrightarrow> nr_Status n = StatusHeldOneLotShort"

definition keptDetail :: "name_record list \<Rightarrow> minimum_lot option \<Rightarrow> decision_detail" where
  "keptDetail names lot = (case (filter isKept names, lot) of
     (k # ks, Some l) \<Rightarrow> KeptDetail (map (\<lambda>n. \<lparr>kh_InstrumentID = nr_InstrumentID n, kh_HeldQuantity = nr_HeldQuantity n,
       kh_HeldValue = nr_HeldValue n, kh_HeldShare = nr_HeldShare n, kh_TargetValue = nr_TargetValue n, kh_OneShare = nr_OneShare n\<rparr>)
       (k # ks)) (ml_NetLiquidation l)
   | _ \<Rightarrow> NoDetail)"

definition allUnaffordableDetail :: "name_record list \<Rightarrow> minimum_lot option \<Rightarrow> decision_detail" where
  "allUnaffordableDetail names lot = (case lot of None \<Rightarrow> NoDetail | Some l \<Rightarrow>
     let held = int (length (filter isKept names));
         valued = int (length (filter (\<lambda>n. nr_Status n = StatusUnaffordable) names)) + held;
         zeroVol = int (length (filter (\<lambda>n. nr_Status n = StatusZeroVolatility) names))
     in AllUnaffordableDetail valued held zeroVol (ml_Scale l) (ml_NetLiquidation l))"

text \<open>The loop over the members: a record of each, and a candidate for each that has a score.\<close>

definition memberCloses :: "decide_input \<Rightarrow> string \<Rightarrow> closes" where
  "memberCloses x i = mget (di_Closes x) i []"

definition memberScore :: "momentum_config \<Rightarrow> decide_input \<Rightarrow> string \<Rightarrow> (err list, history) result" where
  "memberScore cfg x i = (if i \<in> di_Held x then ScoreHeld else Score) cfg (di_Sessions x) (memberCloses x i)"

definition memberRecord :: "member \<Rightarrow> history \<Rightarrow> name_record" where
  "memberRecord m h = \<lparr>nr_InstrumentID = row_InstrumentID m, nr_UniverseRank = mb_Rank m, nr_DollarVolume = mb_DollarVolume m,
     nr_Sector = row_Sector m, nr_SectorSource = row_SectorSource m, nr_Status = hi_Status h, nr_Closes = hi_Closes h,
     nr_Score = Fin 0, nr_Volatility = Fin 0, nr_ScoreRank = 0, nr_Weight = Fin 0, nr_BacktestWouldPick = False,
     nr_OneShare = Fin 0, nr_TargetValue = Fin 0, nr_HeldQuantity = 0, nr_HeldValue = Fin 0, nr_HeldShare = Fin 0,
     nr_GapSessions = hi_GapSessions h\<rparr>"

definition hasScore :: "history \<Rightarrow> bool" where
  "hasScore h \<longleftrightarrow> hi_Status h = StatusScored \<or> hi_Status h = StatusZeroVolatility"

definition memberCandidate :: "member \<Rightarrow> history \<Rightarrow> candidate" where
  "memberCandidate m h = \<lparr>cd_InstrumentID = row_InstrumentID m, cd_Sector = row_Sector m, cd_Score = hi_Score h,
     cd_Volatility = hi_Volatility h\<rparr>"

fun scoreMembers :: "momentum_config \<Rightarrow> decide_input \<Rightarrow> member list \<Rightarrow> (err list, name_record list \<times> candidate list) result" where
  "scoreMembers cfg x [] = Inr ([], [])"
| "scoreMembers cfg x (m # ms) =
     bindr (memberScore cfg x (row_InstrumentID m)) (\<lambda>h.
     bindr (scoreMembers cfg x ms) (\<lambda>(names, candidates).
       Inr (memberRecord m h # names, (if hasScore h then [memberCandidate m h] else []) @ candidates)))"

definition recordRanked :: "name_record list \<Rightarrow> ranked_name \<Rightarrow> name_record list" where
  "recordRanked names r = map (\<lambda>n. if nr_InstrumentID n = cd_InstrumentID r
     then n\<lparr>nr_Status := rk_Status r, nr_Score := cd_Score r, nr_Volatility := cd_Volatility r, nr_ScoreRank := rk_ScoreRank r,
       nr_Weight := rk_Weight r, nr_BacktestWouldPick := rk_BacktestWouldPick r, nr_OneShare := rk_OneShare r,
       nr_TargetValue := rk_TargetValue r, nr_HeldQuantity := rk_HeldQuantity r, nr_HeldValue := rk_HeldValue r,
       nr_HeldShare := rk_HeldShare r\<rparr> else n) names"

definition settleDecision :: "momentum_config \<Rightarrow> minimum_lot option \<Rightarrow> decision \<Rightarrow> book_selected \<Rightarrow> decision" where
  "settleDecision cfg lot d book =
     (let d = d\<lparr>de_Names := foldl recordRanked (de_Names d) (bk_Ranked book)\<rparr>;
          picks = filter isPick (bk_Ranked book);
          allZero = list_all (\<lambda>r. f_eq (rk_Weight r) (Fin 0)) picks;
          unaffordable = list_ex (\<lambda>r. rk_Status r = StatusUnaffordable \<or> rk_Status r = StatusHeldOneLotShort) (bk_Ranked book)
      in if picks = []
         then if \<not> unaffordable then withhold d ReasonNoEligibleNames
              else (withhold d ReasonAllUnaffordable)\<lparr>de_Detail := allUnaffordableDetail (de_Names d) lot\<rparr>
         else let d = d\<lparr>de_Outcome := OutcomeDecided, de_Targets := bk_Targets book\<rparr>
              in if allZero then d\<lparr>de_Detail := AllZeroDetail (mc_RiskOffFraction cfg) (mc_RiskOffInstrument cfg)\<rparr>
                 else d\<lparr>de_Detail := keptDetail (de_Names d) lot\<rparr>)"

definition selectFor :: "momentum_config \<Rightarrow> minimum_lot option \<Rightarrow> candidate list \<Rightarrow> bool \<Rightarrow> (err list, book_selected) result" where
  "selectFor cfg lot candidates riskOff = (case lot of
     Some l \<Rightarrow> SelectBookWithMinimumLot cfg candidates riskOff l | None \<Rightarrow> SelectBook cfg candidates riskOff)"

definition newDecision :: "string \<Rightarrow> decision" where
  "newDecision session = \<lparr>de_Outcome = NoOutcome, de_Reason = NoReason, de_Detail = NoDetail, de_CloseSession = session,
     de_Trend = \<lparr>tr_Closes = 0, tr_Close = Fin 0, tr_Mean = Fin 0, tr_RiskOff = False\<rparr>,
     de_Universe = \<lparr>uc_Rows = 0, uc_CommonStock = 0, uc_AtOrAboveFloor = 0, uc_Members = 0\<rparr>, de_Names = [], de_Targets = []\<rparr>"

definition tooUnlabelled :: "momentum_config \<Rightarrow> member list \<Rightarrow> bool" where
  "tooUnlabelled cfg members \<longleftrightarrow>
     f_lt (mc_MaxUnlabelledShare cfg) (f_div (f_of_int (countUnlabelled members)) (f_of_int (int (length members))))"

definition Decide :: "momentum_config \<Rightarrow> decide_input \<Rightarrow> (err list, decision) result" where
  "Decide cfg x =
     joinErrs (Config_Validate cfg)
     (joinErrs (checkCalendar (di_Sessions x))
     (let d = newDecision (last (di_Sessions x)) in
      bindr (EvaluateTrend cfg (di_Sessions x) (memberCloses x (mc_TrendInstrument cfg))) (\<lambda>(trend, reason).
      let d = d\<lparr>de_Trend := trend\<rparr> in
      if reason \<noteq> NoReason then Inr (withhold d reason)
      else bindr (RankUniverse cfg (di_UniverseRows x)) (\<lambda>(members, counts).
      let d = d\<lparr>de_Universe := counts\<rparr> in
      if di_UniverseSession x \<noteq> de_CloseSession d \<or> members = [] then Inr (withhold d ReasonMissingUniverse)
      else bindr (scoreMembers cfg x members) (\<lambda>(names, candidates).
      let d = d\<lparr>de_Names := names\<rparr> in
      if tooUnlabelled cfg members
      then Inr ((withhold d ReasonLabelsMissing)\<lparr>de_Detail :=
        LabelsMissingDetail (countUnlabelled members) (int (length members)) (mc_MaxUnlabelledShare cfg)\<rparr>)
      else bindr (selectFor cfg (di_MinimumLot x) candidates (tr_RiskOff trend)) (\<lambda>book.
        Inr (settleDecision cfg (di_MinimumLot x) d book)))))))"
section \<open>What a decision rests on\<close>

lemma scoreMembers_candidates:
  assumes "scoreMembers cfg x ms = Inr (names, cands)" and "c \<in> set cands"
  shows "\<exists>m h. m \<in> set ms \<and> memberScore cfg x (row_InstrumentID m) = Inr h \<and> hasScore h \<and> c = memberCandidate m h"
  using assms
proof (induction ms arbitrary: names cands)
  case (Cons m ms)
  from Cons.prems(1) obtain h names' cands' where s: "memberScore cfg x (row_InstrumentID m) = Inr h"
    "scoreMembers cfg x ms = Inr (names', cands')" "cands = (if hasScore h then [memberCandidate m h] else []) @ cands'"
    by (auto simp: bindr_eq_Inr)
  show ?case
  proof (cases "c \<in> set cands'")
    case True
    then show ?thesis using Cons.IH [OF s(2)] by auto
  next
    case False
    then show ?thesis using Cons.prems(2) s by (auto split: if_splits)
  qed
qed simp

lemma settleDecision_withheld:
  assumes "filter isPick (bk_Ranked b) = []" and "de_Targets d = []"
  shows "de_Outcome (settleDecision cfg lot d b) = OutcomeWithheld" "de_Targets (settleDecision cfg lot d b) = []"
    "de_Reason (settleDecision cfg lot d b) \<noteq> NoReason"
  using assms by (simp_all add: settleDecision_def Let_def withhold_def)

lemma settleDecision_decided:
  assumes "filter isPick (bk_Ranked b) \<noteq> []"
  shows "de_Outcome (settleDecision cfg lot d b) = OutcomeDecided" "de_Targets (settleDecision cfg lot d b) = bk_Targets b"
    "de_Reason (settleDecision cfg lot d b) = de_Reason d"
  using assms by (simp_all add: settleDecision_def Let_def)

lemma settleDecision_session [simp]: "de_CloseSession (settleDecision cfg lot d b) = de_CloseSession d"
  by (simp add: settleDecision_def Let_def withhold_def)

lemma selectFor_selectBook:
  assumes "selectFor cfg lot cands riskOff = Inr b"
  shows "selectBook cfg cands riskOff lot = Inr b"
  using assms by (auto simp: selectFor_def SelectBook_def SelectBookWithMinimumLot_def split: option.splits)

lemma selected_targets:
  assumes "selectBook cfg cands riskOff lot = Inr b" and "t \<in> set (bk_Targets b)"
  shows "tg_InstrumentID t = mc_RiskOffInstrument cfg \<or> tg_InstrumentID t \<in> cd_InstrumentID ` set cands"
proof -
  obtain rs sk passed where last: "passed = snd (pickAndWeigh cfg rs riskOff sk)" "bk_Targets b = fst (pickAndWeigh cfg rs riskOff sk)"
    "mset (map cd_InstrumentID passed) = mset (map cd_InstrumentID cands)"
    using assms(1) by (rule selection_last)
  have ids: "cd_InstrumentID ` set passed = cd_InstrumentID ` set cands" using mset_eq_setD [OF last(3)] by simp
  obtain bond where b: "set (bk_Targets b) = set (map asTarget (filter isPick passed)) \<union> bond"
    "bond \<subseteq> {t. tg_InstrumentID t = mc_RiskOffInstrument cfg \<and> f_lt (Fin 0) (tg_Weight t)}"
    using pass_targets [of cfg rs riskOff sk] unfolding last(2) last(1) by blast
  then show ?thesis using assms(2) ids by (auto simp: asTarget_def)
qed

text \<open>What stands behind a target: an eligible row of the snapshot, scored on a complete window unless it is held.\<close>

definition grounded :: "momentum_config \<Rightarrow> decide_input \<Rightarrow> string \<Rightarrow> bool" where
  "grounded cfg x i \<longleftrightarrow> (\<exists>r \<in> set (di_UniverseRows x). row_InstrumentID r = i \<and> eligible cfg r) \<and>
     (\<exists>h. memberScore cfg x i = Inr h \<and> hasScore h) \<and>
     (i \<notin> di_Held x \<longrightarrow> lastCloses (di_Sessions x) (memberCloses x i) (nat (mc_ScoreLookback cfg) + 1) \<noteq> None)"

lemma numberRanks_ids: "m \<in> set (numberRanks ms) \<Longrightarrow> \<exists>k \<in> set ms. row_InstrumentID m = row_InstrumentID k"
  by (auto simp: numberRanks_def dest!: set_zip_rightD)

lemma candidate_grounded:
  assumes u: "RankUniverse cfg (di_UniverseRows x) = Inr (ms, cs)" and s: "scoreMembers cfg x ms = Inr (names, cands)"
    and c: "c \<in> set cands"
  shows "grounded cfg x (cd_InstrumentID c)"
proof -
  obtain m h where m: "m \<in> set ms" "memberScore cfg x (row_InstrumentID m) = Inr h" "hasScore h" "c = memberCandidate m h"
    using scoreMembers_candidates [OF s c] by blast
  have i: "cd_InstrumentID c = row_InstrumentID m" by (simp add: m(4) memberCandidate_def)
  obtain k where k: "k \<in> set (take (nat (mc_UniverseSize cfg)) (sortBy rankBefore (map memberOf (filter (eligible cfg) (di_UniverseRows x)))))"
    "row_InstrumentID m = row_InstrumentID k"
    using u m(1) numberRanks_ids unfolding RankUniverse_Inr by blast
  then have "k \<in> memberOf ` set (filter (eligible cfg) (di_UniverseRows x))" using in_set_takeD [OF k(1)] by simp
  then have row: "\<exists>r \<in> set (di_UniverseRows x). row_InstrumentID r = cd_InstrumentID c \<and> eligible cfg r" using i k(2) by auto
  have "lastCloses (di_Sessions x) (memberCloses x (row_InstrumentID m)) (nat (mc_ScoreLookback cfg) + 1) \<noteq> None"
    if "row_InstrumentID m \<notin> di_Held x"
  proof -
    have "score_by cfg (di_Sessions x) (memberCloses x (row_InstrumentID m)) lastCloses = Inr h"
      using m(2) that by (simp add: memberScore_def Score_def)
    from score_by_Inr(4,5) [OF this] m(3) show ?thesis by (auto simp: hasScore_def)
  qed
  with row m(2,3) i show ?thesis by (auto simp: grounded_def)
qed

lemma EvaluateTrend_complete:
  assumes "EvaluateTrend cfg ss c = Inr (tr, NoReason)"
  obtains w where "lastCloses ss c (nat (mc_TrendCloses cfg)) = Some w" "tr_Close tr = last w"
    "tr_Mean tr = f_div (foldl f_add (Fin 0) w) (f_of_int (int (length w)))" "tr_RiskOff tr = f_lt (tr_Close tr) (tr_Mean tr)"
  using assms by (auto simp: EvaluateTrend_def closeAndMean_def Let_def split: if_splits option.splits)

text \<open>C40: every month is decided or withheld, never both and never neither. A withheld one gives its reason and sets no
  target. A decided one has a snapshot of the very close session and a complete trend window, and each target is the
  risk-off instrument or a stock of that snapshot of the listing type, at or above the price floor, and scored, on a
  complete window unless the account holds it.\<close>

theorem Decide_grounded:
  assumes "Decide cfg x = Inr d"
  shows "(de_Outcome d = OutcomeWithheld \<and> de_Targets d = [] \<and> de_Reason d \<noteq> NoReason) \<or>
     (de_Outcome d = OutcomeDecided \<and> de_Reason d = NoReason \<and> di_UniverseSession x = last (di_Sessions x) \<and>
      lastCloses (di_Sessions x) (memberCloses x (mc_TrendInstrument cfg)) (nat (mc_TrendCloses cfg)) \<noteq> None \<and>
      list_all (\<lambda>t. tg_InstrumentID t = mc_RiskOffInstrument cfg \<or> grounded cfg x (tg_InstrumentID t)) (de_Targets d))"
proof -
  let ?d = "newDecision (last (di_Sessions x))"
  from assms obtain tr reason where t: "EvaluateTrend cfg (di_Sessions x) (memberCloses x (mc_TrendInstrument cfg)) = Inr (tr, reason)"
    by (auto simp: Decide_def Let_def bindr_eq_Inr)
  note dec = assms [unfolded Decide_def Let_def t bindr_Inr, simplified]
  show ?thesis
  proof (cases "reason = NoReason")
    case False
    then show ?thesis using dec by (auto simp: withhold_def newDecision_def)
  next
    case True
    obtain w where w: "lastCloses (di_Sessions x) (memberCloses x (mc_TrendInstrument cfg)) (nat (mc_TrendCloses cfg)) = Some w"
      using t True EvaluateTrend_complete by blast
    from dec True obtain ms cs where u: "RankUniverse cfg (di_UniverseRows x) = Inr (ms, cs)" by (auto simp: bindr_eq_Inr)
    show ?thesis
    proof (cases "di_UniverseSession x \<noteq> last (di_Sessions x) \<or> ms = []")
      case stale: True
      then show ?thesis using dec True u by (auto simp: withhold_def newDecision_def)
    next
      case fresh: False
      then obtain names cands where s: "scoreMembers cfg x ms = Inr (names, cands)"
        using dec True u by (auto simp: bindr_eq_Inr newDecision_def)
      show ?thesis
      proof (cases "tooUnlabelled cfg ms")
        case unlabelled: True
        then show ?thesis using dec True u fresh s by (auto simp: withhold_def newDecision_def)
      next
        case False
        let ?e = "?d\<lparr>de_Trend := tr, de_Universe := cs, de_Names := names\<rparr>"
        obtain b where b: "selectFor cfg (di_MinimumLot x) cands (tr_RiskOff tr) = Inr b" "d = settleDecision cfg (di_MinimumLot x) ?e b"
          using dec True u fresh s False by (auto simp: bindr_eq_Inr newDecision_def)
        have e: "de_Targets ?e = []" "de_Reason ?e = NoReason" by (simp_all add: newDecision_def)
        have g: "tg_InstrumentID q = mc_RiskOffInstrument cfg \<or> grounded cfg x (tg_InstrumentID q)" if "q \<in> set (bk_Targets b)" for q
          using selected_targets [OF selectFor_selectBook [OF b(1)] that] candidate_grounded [OF u s] by auto
        show ?thesis
        proof (cases "filter isPick (bk_Ranked b) = []")
          case none: True
          show ?thesis using settleDecision_withheld [OF none e(1), of cfg "di_MinimumLot x"] unfolding b(2) by blast
        next
          case False
          show ?thesis using settleDecision_decided [OF False, of cfg "di_MinimumLot x" ?e] e(2) g fresh w unfolding b(2)
            by (simp add: list_all_iff)
        qed
      qed
    qed
  qed
qed

section \<open>A worked month\<close>

definition small_rule :: momentum_config where
  "small_rule = \<lparr>mc_ListingType = ''CS'', mc_UniverseSize = 5, mc_MinPrice = Fin 5, mc_ScoreLookback = 2, mc_ScoreSkip = 1,
     mc_VolatilityReturns = 2, mc_TopN = 2, mc_SectorCap = 1, mc_Invested = Fin 1, mc_TrendInstrument = ''SPY'', mc_TrendCloses = 2,
     mc_RiskOffInstrument = ''IEF'', mc_RiskOffFraction = Fin (1 / 2), mc_MaxUnlabelledShare = Fin (1 / 4)\<rparr>"

definition three_sessions :: "string list" where
  "three_sessions = [''2026-10-01'', ''2026-10-02'', ''2026-10-05'']"

definition some_closes :: closes where
  "some_closes = [(''2026-10-01'', Fin 8), (''2026-10-02'', Fin 16), (''2026-10-05'', Fin 24)]"

definition small_input :: decide_input where
  "small_input = \<lparr>di_Sessions = three_sessions, di_UniverseSession = ''2026-10-05'',
     di_UniverseRows = [\<lparr>row_InstrumentID = ''A'', row_Type = ''CS'', row_Close = Fin 24, row_Volume = Fin 2, row_Sector = ''x'',
       row_SectorSource = ''y''\<rparr>],
     di_Closes = [(''SPY'', some_closes), (''A'', some_closes)], di_MinimumLot = None, di_Held = {}\<rparr>"

lemma small_score: "map_sum id (\<lambda>h. (hi_Status h, hi_Closes h)) (Score small_rule three_sessions some_closes) = Inr (StatusScored, 3)"
  by code_simp

lemma small_decision: "map_sum id (\<lambda>d. (de_Outcome d, map tg_InstrumentID (de_Targets d))) (Decide small_rule small_input) =
    Inr (OutcomeDecided, [''A''])"
  by code_simp

lemma map_sum_Inr: "map_sum f g x = Inr y \<Longrightarrow> \<exists>z. x = Inr z \<and> g z = y"
  by (cases x) auto

theorem Score_agrees_witness:
  "\<exists>h. Score small_rule three_sessions some_closes = Inr h \<and> hi_Status h = StatusScored \<and>
     BacktestScore small_rule three_sessions some_closes = Inr h \<and> ScoreHeld small_rule three_sessions some_closes = Inr h"
proof -
  obtain h where h: "Score small_rule three_sessions some_closes = Inr h" "hi_Status h = StatusScored"
    using map_sum_Inr [OF small_score] by auto
  have "distinct (map fst some_closes)" by code_simp
  from Score_agrees [OF h(1) this] h show ?thesis by auto
qed

theorem Decide_grounded_witness:
  "\<exists>d. Decide small_rule small_input = Inr d \<and> de_Outcome d = OutcomeDecided \<and> map tg_InstrumentID (de_Targets d) = [''A''] \<and>
     grounded small_rule small_input ''A''"
proof -
  obtain d where d: "Decide small_rule small_input = Inr d" "de_Outcome d = OutcomeDecided" "map tg_InstrumentID (de_Targets d) = [''A'']"
    using map_sum_Inr [OF small_decision] by auto
  then obtain t where t: "t \<in> set (de_Targets d)" "tg_InstrumentID t = ''A''" by auto
  have "mc_RiskOffInstrument small_rule \<noteq> ''A''" by (simp add: small_rule_def)
  with Decide_grounded [OF d(1)] d t show ?thesis by (auto simp: list_all_iff)
qed
end
