(* ===== verification/BoostFigures.thy ===== *)
theory BoostFigures
  imports Dates
begin

text \<open>
  The figures behind a Boost decision (\<open>BoostFigures\<close> of \<open>event/target_weight_decisions.go\<close>): the readings, the latch,
  the pending re-plan, and every order a decided session released, in the list that says what the venue made of it. The
  validator keeps the undecided, cleared, retired and working orders apart, and holds each execution and each venue order ID
  it knows to one order. A payload is
  valid when its error list is empty; the texts of the errors are abridged.
\<close>

section \<open>The figures\<close>

datatype (plugins only: code size) replan_cause =
  NoReplanCause | ReplanCauseRefused | ReplanCausePartFilled | ReplanCauseUnfilled | ReplanCauseRejected | OtherReplanCause string

record boost_replan =
  br_Cause :: replan_cause
  br_ClientOrderID :: string
  br_Filled :: int
  br_Released :: int

record boost_rejected_order =
  bj_ClientOrderID :: string
  bj_VenueOrderID :: string

record boost_undecided_order =
  bu_ClientOrderID :: string
  bu_Side :: string
  bu_Released :: int
  bu_LimitPrice :: f64
  bu_VenueOrderID :: string

record boost_retired_order =
  bt_ClientOrderID :: string
  bt_Side :: string
  bt_Released :: int
  bt_LimitPrice :: f64
  bt_RetiredAt :: gotime
  bt_SaleTag :: string
  bt_SaleAttempt :: int

record boost_watched_fill =
  wf_FillID :: string
  wf_Quantity :: int
  wf_Price :: f64
  wf_Commission :: f64
  wf_FilledAt :: gotime

record boost_watched_order =
  bw_ClientOrderID :: string
  bw_Side :: string
  bw_Released :: int
  bw_LimitPrice :: f64
  bw_Filled :: int
  bw_Fills :: "boost_watched_fill list"
  bw_Status :: lifecycle_status
  bw_EndedAt :: gotime
  bw_AfterRejection :: bool
  bw_VenueOrderID :: string

record boost_restored_sale_order =
  rso_ClientOrderID :: string
  rso_Side :: string
  rso_Released :: int
  rso_LimitPrice :: f64
  rso_Trigger :: sale_trigger
  rso_Attempt :: int
  rso_Named :: bool
  rso_VenueOrderID :: string
  rso_Filled :: int
  rso_Fills :: "boost_watched_fill list"
  rso_Status :: lifecycle_status
  rso_EndedAt :: gotime

record boost_restored_sale =
  brs_IncidentID :: string
  brs_Attempted :: bool
  brs_RetiredAttempts :: int
  brs_Order :: "boost_restored_sale_order option"

record boost_signal =
  bf_InstrumentID :: string
  bf_Close :: f64
  bf_RSI :: f64
  bf_RSIReady :: bool
  bf_TrendMean :: f64
  bf_TrendMeanReady :: bool
  bf_ExitMean :: f64
  bf_ExitMeanReady :: bool
  bf_LatchedBefore :: bool
  bf_LatchedAfter :: bool
  bf_TargetInForce :: f64
  bf_TargetInForceSet :: bool
  bf_ReplanPending :: bool

record boost_figures = boost_signal +
  bf_Replan :: boost_replan
  bf_GapSessions :: "string list"
  bf_ReplanWithheld :: boost_replan
  bf_Watched :: boost_watched_order
  bf_VenueRejections :: int
  bf_RejectedInARow :: "boost_rejected_order list"
  bf_UndecidedOrders :: "boost_undecided_order list"
  bf_ClearedOrders :: "boost_undecided_order list"
  bf_RetiredOrders :: "boost_retired_order list"
  bf_RestoredSale :: "boost_restored_sale option"
  bf_NamedOrders :: "string list"
  bf_WorkingOrders :: "boost_watched_order list"
  bf_RejectedWhileStopped :: "boost_replan list"
  bf_RejectionsWhileStopped :: int
  bf_UndecidedBeforeRejection :: int
  bf_NoVenue :: string

section \<open>Re-plans and watched orders\<close>

definition noReplan :: boost_replan where
  "noReplan = \<lparr>br_Cause = NoReplanCause, br_ClientOrderID = '''', br_Filled = 0, br_Released = 0\<rparr>"

definition BoostReplan_validate :: "boost_replan \<Rightarrow> err list" where
  "BoostReplan_validate r = (case br_Cause r of
     NoReplanCause \<Rightarrow> errIf (r \<noteq> noReplan) ''boost re-plan figures need a re-plan cause''
   | ReplanCauseRefused \<Rightarrow> errIf (br_ClientOrderID r \<noteq> '''' \<or> br_Filled r \<noteq> 0 \<or> br_Released r \<noteq> 0) ''a boost re-plan after a refusal names no order or shares''
   | ReplanCausePartFilled \<Rightarrow> errIf (br_ClientOrderID r = '''') ''a part-fill re-plan names its order''
       @ errIf (br_Filled r \<le> 0 \<or> br_Filled r \<ge> br_Released r) ''a part-fill re-plan has filled shares between none and those released''
   | ReplanCauseRejected \<Rightarrow> errIf (br_ClientOrderID r = '''') ''a rejected re-plan names its order''
       @ errIf (br_Released r \<le> 0) ''a rejected re-plan names the shares released''
       @ errIf (br_Filled r < 0 \<or> br_Filled r \<ge> br_Released r) ''a rejected re-plan has fewer filled shares than released''
   | ReplanCauseUnfilled \<Rightarrow> errIf (br_ClientOrderID r = '''') ''an unfilled re-plan names its order''
       @ errIf (br_Filled r \<noteq> 0) ''an unfilled re-plan has no filled shares''
       @ errIf (br_Released r \<le> 0) ''an unfilled re-plan names the shares released''
   | OtherReplanCause _ \<Rightarrow> [''boost re-plan cause is not recognised''])"

definition sameFill :: "boost_watched_fill \<Rightarrow> boost_watched_fill \<Rightarrow> bool" where
  "sameFill a b \<longleftrightarrow> wf_FillID a = wf_FillID b \<and> wf_Quantity a = wf_Quantity b \<and> f_eq (wf_Price a) (wf_Price b) \<and>
     f_eq (wf_Commission a) (wf_Commission b) \<and> wf_FilledAt a = wf_FilledAt b"

definition Watched_Equal :: "boost_watched_order \<Rightarrow> boost_watched_order \<Rightarrow> bool" where
  "Watched_Equal w v \<longleftrightarrow> bw_ClientOrderID w = bw_ClientOrderID v \<and> bw_Side w = bw_Side v \<and> bw_Released w = bw_Released v \<and>
     f_eq (bw_LimitPrice w) (bw_LimitPrice v) \<and> bw_Filled w = bw_Filled v \<and> bw_Status w = bw_Status v \<and> bw_EndedAt w = bw_EndedAt v \<and>
     bw_AfterRejection w = bw_AfterRejection v \<and> bw_VenueOrderID w = bw_VenueOrderID v \<and> list_all2 sameFill (bw_Fills w) (bw_Fills v)"

definition noWatched :: boost_watched_order where
  "noWatched = \<lparr>bw_ClientOrderID = '''', bw_Side = '''', bw_Released = 0, bw_LimitPrice = Fin 0, bw_Filled = 0, bw_Fills = [],
     bw_Status = NoLifecycleStatus, bw_EndedAt = 0, bw_AfterRejection = False, bw_VenueOrderID = ''''\<rparr>"

definition Watched_IsZero :: "boost_watched_order \<Rightarrow> bool" where
  "Watched_IsZero w \<longleftrightarrow> Watched_Equal w noWatched"

definition Watched_Fill :: "boost_watched_order \<Rightarrow> string \<Rightarrow> string \<Rightarrow> boost_watched_fill \<Rightarrow> target_weight_fill" where
  "Watched_Fill w accountID instrumentID f = \<lparr>tf_QuantityScale = 0, tf_AccountID = accountID, tf_ClientOrderID = bw_ClientOrderID w, tf_FillID = wf_FillID f,
     tf_InstrumentID = instrumentID, tf_Side = bw_Side w, tf_Quantity = wf_Quantity f, tf_Price = wf_Price f, tf_Commission = wf_Commission f,
     tf_FilledAt = wf_FilledAt f\<rparr>"

text \<open>The fills of a watched order: \<open>sum\<close> is what they come to while they stay within the shares released.\<close>

fun watchedFills :: "int \<Rightarrow> int \<Rightarrow> bool \<Rightarrow> string set \<Rightarrow> boost_watched_fill list \<Rightarrow> err list \<times> int \<times> bool" where
  "watchedFills released s overflow seen [] = ([], s, overflow)"
| "watchedFills released s overflow seen (f # fs) = (let
     errs = (if wf_FillID f = '''' then [''a fill names its fill id''] else errIf (wf_FillID f \<in> seen) ''a fill id is recorded twice'')
       @ errIf (wf_Quantity f \<le> 0) ''a fill has a positive quantity''
       @ errIf (\<not> isFinite (wf_Price f) \<or> f_le (wf_Price f) (Fin 0)) ''a fill has a finite, positive price''
       @ errIf (\<not> isFinite (wf_Commission f) \<or> f_lt (wf_Commission f) (Fin 0)) ''a fill has a finite commission, not negative''
       @ wholeSecondTime (wf_FilledAt f);
     over = (wf_Quantity f > 0 \<and> wf_Quantity f > sub64 (max released 0) s);
     (rest, s', overflow') = watchedFills released (if wf_Quantity f \<le> 0 \<or> over then s else add64 s (wf_Quantity f)) (overflow \<or> over)
       (insert (wf_FillID f) seen) fs in
     (errs @ errIf over ''fills come to more shares than released'' @ rest, s', overflow'))"

definition Watched_check :: "boost_watched_order \<Rightarrow> bool \<Rightarrow> err list" where
  "Watched_check w filledInFull = (if Watched_IsZero w then [] else (let (fillErrs, s, overflow) = watchedFills (bw_Released w) 0 False {} (bw_Fills w) in
     errIf (bw_ClientOrderID w = '''') ''a watched boost order names its client order ID''
     @ errIf (bw_Side w \<noteq> OrderSideBuy \<and> bw_Side w \<noteq> OrderSideSell) ''a watched boost order is a buy or a sell''
     @ errIf (\<not> isFinite (bw_LimitPrice w) \<or> f_le (bw_LimitPrice w) (Fin 0)) ''a watched boost order has a positive limit price''
     @ errIf (bw_Released w \<le> 0 \<or> bw_Filled w < 0 \<or> bw_Filled w > bw_Released w \<or> (bw_Filled w = bw_Released w \<and> \<not> filledInFull))
         ''a watched boost order has released shares and fewer filled''
     @ errIf (bw_Status w \<notin> {NoLifecycleStatus, OrderLifecycleStatusCanceled, OrderLifecycleStatusInvalid})
         ''a watched boost order's status is canceled, invalid or none''
     @ (if (bw_Status w = NoLifecycleStatus) \<noteq> (bw_EndedAt w = 0) then [''a watched boost order has ended_at exactly when it has a status'']
        else errIf (bw_EndedAt w \<noteq> 0 \<and> \<not> writableTime (bw_EndedAt w)) ''ended_at cannot be written as RFC 3339'')
     @ fillErrs @ errIf (\<not> overflow \<and> s \<noteq> bw_Filled w) ''a watched boost order's fills sum to its filled shares''))"

definition Watched_validate :: "boost_watched_order \<Rightarrow> err list" where
  "Watched_validate w = Watched_check w False"

section \<open>The restored sale\<close>

definition SaleOrder_Live :: "boost_restored_sale_order \<Rightarrow> bool" where
  "SaleOrder_Live s \<longleftrightarrow> rso_Status s = NoLifecycleStatus \<and> rso_EndedAt s = 0 \<and> rso_Filled s < rso_Released s"

definition recordsVersion9 :: "boost_restored_sale_order \<Rightarrow> bool" where
  "recordsVersion9 s \<longleftrightarrow> \<not> SaleOrder_Live s"

definition recordsVersion8 :: "boost_restored_sale_order \<Rightarrow> bool" where
  "recordsVersion8 s \<longleftrightarrow> rso_Side s \<noteq> '''' \<or> rso_Attempt s \<noteq> 0 \<or> rso_Named s \<or> rso_VenueOrderID s \<noteq> '''' \<or> rso_Filled s \<noteq> 0 \<or>
     rso_Fills s \<noteq> [] \<or> recordsVersion9 s"

definition SaleOrder_Watched :: "boost_restored_sale_order \<Rightarrow> boost_watched_order" where
  "SaleOrder_Watched s = \<lparr>bw_ClientOrderID = rso_ClientOrderID s, bw_Side = rso_Side s, bw_Released = rso_Released s,
     bw_LimitPrice = rso_LimitPrice s, bw_Filled = rso_Filled s, bw_Fills = rso_Fills s, bw_Status = rso_Status s,
     bw_EndedAt = rso_EndedAt s, bw_AfterRejection = False, bw_VenueOrderID = rso_VenueOrderID s\<rparr>"

definition SaleOrder_Equal :: "boost_restored_sale_order \<Rightarrow> boost_restored_sale_order \<Rightarrow> bool" where
  "SaleOrder_Equal s t \<longleftrightarrow> rso_Trigger s = rso_Trigger t \<and> rso_Attempt s = rso_Attempt t \<and> rso_Named s = rso_Named t \<and>
     Watched_Equal (SaleOrder_Watched s) (SaleOrder_Watched t)"

definition RestoredSale_Equal :: "boost_restored_sale option \<Rightarrow> boost_restored_sale option \<Rightarrow> bool" where
  "RestoredSale_Equal s t = (case (s, t) of
     (Some a, Some b) \<Rightarrow> brs_IncidentID a = brs_IncidentID b \<and> brs_Attempted a = brs_Attempted b \<and>
       brs_RetiredAttempts a = brs_RetiredAttempts b \<and>
       (case (brs_Order a, brs_Order b) of (None, None) \<Rightarrow> True | (Some x, Some y) \<Rightarrow> SaleOrder_Equal x y | _ \<Rightarrow> False)
   | (None, None) \<Rightarrow> True | _ \<Rightarrow> False)"

definition RestoredSale_versioned :: "boost_restored_sale option \<Rightarrow> err list" where
  "RestoredSale_versioned s = (case s of None \<Rightarrow> [] | Some r \<Rightarrow> (case brs_Order r of None \<Rightarrow> []
     | Some x \<Rightarrow> errIf (\<not> (rso_Side x = OrderSideSell \<and> rso_Attempt x \<ge> 1)) ''a restored sale states its side and attempt''))"

text \<open>A release records its side, shares and a positive limit.\<close>

definition releaseUnstated :: "string \<Rightarrow> int \<Rightarrow> f64 \<Rightarrow> bool" where
  "releaseUnstated side released limit \<longleftrightarrow>
     (side \<noteq> OrderSideBuy \<and> side \<noteq> OrderSideSell) \<or> released \<le> 0 \<or> \<not> isFinite limit \<or> f_le limit (Fin 0)"

definition saleOrderErrs :: "bool \<Rightarrow> boost_restored_sale_order \<Rightarrow> err list" where
  "saleOrderErrs attempted s =
     (if \<not> attempted then [''a restored sale attempt that records its released order is attempted'']
      else if rso_ClientOrderID s = '''' \<or> rso_Released s \<le> 0 \<or> \<not> f_lt (Fin 0) (rso_LimitPrice s)
        then [''a restored sale names its client order ID, shares released and limit'']
      else if rso_Trigger s \<noteq> SaleTriggerExit \<and> rso_Trigger s \<noteq> SaleTriggerMarginUrgent
        then [''a restored sale was fired by exit or margin-urgent'']
      else if rso_Side s \<noteq> '''' \<and> rso_Side s \<noteq> OrderSideSell then [''a restored sale is a sell'']
      else if rso_Attempt s < 0 then [''a restored sale has the first attempt 1'']
      else if (rso_Filled s > 0 \<or> rso_VenueOrderID s \<noteq> '''') \<and> \<not> rso_Named s then [''a filled restored sale is named'']
      else if \<not> SaleOrder_Live s \<and> rso_VenueOrderID s = '''' then [''an ended restored sale has a venue order ID'']
      else Watched_check ((SaleOrder_Watched s)\<lparr>bw_Side := OrderSideSell\<rparr>) True
        @ errIf (rso_EndedAt s \<noteq> 0 \<and> nanosecond (rso_EndedAt s) \<noteq> 0) ''a restored sale ended at a whole second'')"

section \<open>The lists of orders\<close>

fun rejectedErrs :: "string set \<Rightarrow> boost_rejected_order list \<Rightarrow> err list" where
  "rejectedErrs seen [] = []"
| "rejectedErrs seen (x # xs) =
     (if bj_ClientOrderID x = '''' then [''a boost order rejected in a row names its client order ID'']
      else errIf (bj_ClientOrderID x \<in> seen) ''boost names an order rejected in a row twice'')
     @ rejectedErrs (insert (bj_ClientOrderID x) seen) xs"

definition carriesRelease :: "boost_undecided_order \<Rightarrow> bool" where
  "carriesRelease x \<longleftrightarrow> bu_Side x \<noteq> '''' \<or> bu_Released x \<noteq> 0 \<or> f_ne (bu_LimitPrice x) (Fin 0) \<or> bu_VenueOrderID x \<noteq> ''''"

fun undecidedErrs :: "boost_watched_order \<Rightarrow> string set \<Rightarrow> string set \<Rightarrow> boost_undecided_order list \<Rightarrow> err list" where
  "undecidedErrs w rejected seen [] = []"
| "undecidedErrs w rejected seen (x # xs) = (let i = bu_ClientOrderID x; watched = (i \<noteq> '''' \<and> i = bw_ClientOrderID w) in
     (if i = '''' then [''an undecided boost order names its client order ID'']
      else if i \<in> seen then [''boost names an undecided order twice'']
      else errIf (i \<in> rejected) ''a boost order is both rejected and undecided'')
     @ (if watched \<and> xs \<noteq> [] then [''the watched order is the last undecided boost order'']
        else errIf (watched \<and> (bw_Filled w > 0 \<or> bw_Status w \<noteq> NoLifecycleStatus)) ''the venue has ruled on the watched order'')
     @ (if watched then errIf (carriesRelease x) ''the release of the watched order is recorded as watched''
        else errIf (releaseUnstated (bu_Side x) (bu_Released x) (bu_LimitPrice x)) ''an undecided boost order records its release'')
     @ undecidedErrs w rejected (insert i seen) xs)"

fun clearedErrs :: "string set \<Rightarrow> string set \<Rightarrow> boost_undecided_order list \<Rightarrow> err list" where
  "clearedErrs undecided seen [] = []"
| "clearedErrs undecided seen (x # xs) = (let i = bu_ClientOrderID x in
     (if i = '''' then [''a cleared boost order names its client order ID'']
      else if i \<in> seen then [''boost names a cleared order twice'']
      else errIf (i \<in> undecided) ''a boost order is both cleared and undecided'')
     @ (if releaseUnstated (bu_Side x) (bu_Released x) (bu_LimitPrice x) then [''a cleared boost order records its release'']
        else errIf (bu_VenueOrderID x \<noteq> '''') ''a cleared boost order names a venue order'')
     @ clearedErrs undecided (insert i seen) xs)"

definition olderUndecided :: "boost_figures \<Rightarrow> int" where
  "olderUndecided b = (let n = int (length (bf_UndecidedOrders b)) in
     if n > 0 \<and> bu_ClientOrderID (last (bf_UndecidedOrders b)) = bw_ClientOrderID (bf_Watched b) then n - 1 else n)"

definition beforeRejectionErrs :: "boost_figures \<Rightarrow> err list" where
  "beforeRejectionErrs b = (let k = bf_UndecidedBeforeRejection b in
     if k < 0 \<or> k > olderUndecided b then [''boost counts undecided orders before the latest rejection that are not listed'']
     else errIf (k > 0 \<and> bf_VenueRejections b = 0) ''boost counts undecided orders before a rejection, but no rejection'')"

definition noVenueErrs :: "boost_figures \<Rightarrow> err list" where
  "noVenueErrs b =
     (if bf_NoVenue b = '''' then []
      else if bf_NoVenue b \<noteq> ''dry-run'' then [''boost records no venue only for a dry-run'']
      else errIf (bf_UndecidedOrders b \<noteq> [] \<or> bf_VenueRejections b > 0 \<or> bf_ClearedOrders b \<noteq> [] \<or> bf_RetiredOrders b \<noteq> [] \<or>
                  bf_WorkingOrders b \<noteq> [] \<or> bf_NamedOrders b \<noteq> []) ''a dry-run boost decision lists no order'')"

fun retiredErrs :: "string set \<Rightarrow> string set \<Rightarrow> string set \<Rightarrow> string set \<Rightarrow> boost_retired_order list \<Rightarrow> err list" where
  "retiredErrs undecided cleared rejected seen [] = []"
| "retiredErrs undecided cleared rejected seen (x # xs) = (let i = bt_ClientOrderID x in
     (if i = '''' then [''a retired boost order names its client order ID'']
      else if i \<in> seen then [''boost names a retired order twice'']
      else if i \<in> undecided then [''a boost order is both retired and undecided'']
      else if i \<in> cleared then [''a boost order is both retired and cleared'']
      else errIf (i \<in> rejected) ''a boost order is both retired and rejected'')
     @ (if releaseUnstated (bt_Side x) (bt_Released x) (bt_LimitPrice x) then [''a retired boost order records its release'']
        else if bt_RetiredAt x = 0 then [''a retired boost order records when it was retired'']
        else errIf (\<not> writableTime (bt_RetiredAt x)) ''retired_at cannot be written as RFC 3339'')
     @ (if (bt_SaleTag x = '''') \<noteq> (bt_SaleAttempt x = 0) then [''a retired boost order has both tag and attempt, or neither'']
        else errIf (bt_SaleAttempt x < 0) ''a retired boost order has the first attempt 1'')
     @ retiredErrs undecided cleared rejected (insert i seen) xs)"

text \<open>What the map holds under a key other than the given value.\<close>

definition heldByOther :: "(string, string) gomap \<Rightarrow> string \<Rightarrow> string \<Rightarrow> bool" where
  "heldByOther m k i = (case map_of m k of None \<Rightarrow> False | Some other \<Rightarrow> other \<noteq> i)"

text \<open>The fill ids of a working order, against the order each was recorded on last.\<close>

fun fillErrs :: "string \<Rightarrow> (string, string) gomap \<Rightarrow> boost_watched_fill list \<Rightarrow> err list \<times> (string, string) gomap" where
  "fillErrs i fillOf [] = ([], fillOf)"
| "fillErrs i fillOf (f # fs) = (let (errs, m) = fillErrs i (mput fillOf (wf_FillID f) i) fs in
     (errIf (heldByOther fillOf (wf_FillID f) i) ''boost records a fill id on two orders'' @ errs, m))"

fun workingErrs :: "string \<Rightarrow> string set \<Rightarrow> string set \<Rightarrow> string set \<Rightarrow> string set \<Rightarrow> (string, string) gomap \<Rightarrow> string set \<Rightarrow>
     boost_watched_order list \<Rightarrow> err list \<times> (string, string) gomap" where
  "workingErrs w undecided cleared rejected retired fillOf seen [] = ([], fillOf)"
| "workingErrs w undecided cleared rejected retired fillOf seen (x # xs) = (let i = bw_ClientOrderID x;
     (fillErr, m) = fillErrs i fillOf (bw_Fills x);
     (more, m') = workingErrs w undecided cleared rejected retired m (insert i seen) xs in
     (Watched_validate x @ fillErr @
      (if i = '''' then [''a working boost order names its client order ID'']
       else if bw_Status x \<noteq> NoLifecycleStatus then [''a working boost order has ended'']
       else if i = w then [''a working boost order is the watched order'']
       else if i \<in> seen then [''boost names a working order twice'']
       else if i \<in> undecided then [''a boost order is both working and undecided'']
       else if i \<in> cleared then [''a boost order is both working and cleared'']
       else if i \<in> rejected then [''a boost order is both working and rejected'']
       else errIf (i \<in> retired) ''a boost order is both working and retired'') @ more, m'))"

text \<open>A venue order ID names one order, so each pair is checked against the order that named it last.\<close>

fun venueErrs :: "(string, string) gomap \<Rightarrow> (string \<times> string) list \<Rightarrow> err list \<times> (string, string) gomap" where
  "venueErrs venueOf [] = ([], venueOf)"
| "venueErrs venueOf ((client, venue) # xs) =
     (if venue = '''' then venueErrs venueOf xs
      else let (errs, m) = venueErrs (mput venueOf venue client) xs in
        (errIf (heldByOther venueOf venue client) ''two boost orders name one venue order'' @ errs, m))"

fun namedErrs :: "string set \<Rightarrow> string option \<Rightarrow> string list \<Rightarrow> err list" where
  "namedErrs known prev [] = []"
| "namedErrs known prev (i # is) =
     (if (case prev of None \<Rightarrow> False | Some p \<Rightarrow> i \<le> p) then [''boost named orders must be strictly ascending'']
      else errIf (i = '''' \<or> i \<notin> known) ''a boost named order is not the watched, an undecided or a working order'')
     @ namedErrs known (Some i) is"

definition saleOf :: "boost_figures \<Rightarrow> boost_restored_sale_order option" where
  "saleOf b = (case bf_RestoredSale b of None \<Rightarrow> None | Some r \<Rightarrow> brs_Order r)"

text \<open>The venue order IDs in the order the check reads them.\<close>

definition venuePairs :: "boost_figures \<Rightarrow> (string \<times> string) list" where
  "venuePairs b = (bw_ClientOrderID (bf_Watched b), bw_VenueOrderID (bf_Watched b))
     # map (\<lambda>x. (bu_ClientOrderID x, bu_VenueOrderID x)) (bf_UndecidedOrders b)
     @ map (\<lambda>x. (bw_ClientOrderID x, bw_VenueOrderID x)) (bf_WorkingOrders b)"

definition saleOnceErrs :: "string set \<Rightarrow> (string, string) gomap \<Rightarrow> (string, string) gomap \<Rightarrow> boost_restored_sale_order \<Rightarrow> err list" where
  "saleOnceErrs listed fillOf venueOf s = (let i = rso_ClientOrderID s in
     if i = '''' then [] else
     errIf (i \<in> listed) ''the live sale is recorded once''
     @ concat (map (\<lambda>f. errIf (heldByOther fillOf (wf_FillID f) i) ''boost records a fill id on two orders'') (rso_Fills s))
     @ fst (venueErrs venueOf [(i, rso_VenueOrderID s)]))"

definition watchedFillOf :: "boost_watched_order \<Rightarrow> (string, string) gomap" where
  "watchedFillOf w = foldl (\<lambda>m f. mput m (wf_FillID f) (bw_ClientOrderID w)) [] (bw_Fills w)"

definition restoredSaleErrs :: "boost_figures \<Rightarrow> err list" where
  "restoredSaleErrs b = (case bf_RestoredSale b of None \<Rightarrow> [] | Some r \<Rightarrow>
     errIf (brs_IncidentID r = '''' \<or> brs_RetiredAttempts r < 0) ''a restored sale attempt names its incident''
     @ (case brs_Order r of None \<Rightarrow> [] | Some s \<Rightarrow> saleOrderErrs (brs_Attempted r) s))"

definition validateRejections :: "boost_figures \<Rightarrow> err list" where
  "validateRejections b = (let
     w = bf_Watched b;
     rejected = set (map bj_ClientOrderID (bf_RejectedInARow b));
     undecided = set (map bu_ClientOrderID (bf_UndecidedOrders b));
     cleared = set (map bu_ClientOrderID (bf_ClearedOrders b));
     retired = set (map bt_ClientOrderID (bf_RetiredOrders b));
     working = set (map bw_ClientOrderID (bf_WorkingOrders b));
     (workErrs, fillOf) = workingErrs (bw_ClientOrderID w) undecided cleared rejected retired (watchedFillOf w) {} (bf_WorkingOrders b);
     (nameErrs, venueOf) = venueErrs [] (venuePairs b) in
     errIf (int (length (bf_RejectedInARow b)) \<noteq> bf_VenueRejections b) ''boost names as many rejected orders as it counts''
     @ rejectedErrs {} (bf_RejectedInARow b)
     @ undecidedErrs w rejected {} (bf_UndecidedOrders b)
     @ clearedErrs undecided {} (bf_ClearedOrders b)
     @ beforeRejectionErrs b
     @ noVenueErrs b
     @ restoredSaleErrs b
     @ retiredErrs undecided cleared rejected {} (bf_RetiredOrders b)
     @ errIf (bw_ClientOrderID w \<in> retired \<and> (bw_Filled w > 0 \<or> bw_Status w \<noteq> OrderLifecycleStatusCanceled))
         ''the watched order is retired, so it ended canceled with nothing filled''
     @ workErrs
     @ nameErrs
     @ (case saleOf b of None \<Rightarrow> []
        | Some s \<Rightarrow> saleOnceErrs (insert (bw_ClientOrderID w) (undecided \<union> cleared \<union> rejected \<union> retired \<union> working)) fillOf venueOf s)
     @ namedErrs (insert (bw_ClientOrderID w) (undecided \<union> working)) None (bf_NamedOrders b))"

section \<open>The decision's figures\<close>

definition BoostVenueRejectionLimit :: int where
  "BoostVenueRejectionLimit = 2"

definition BoostFigures_IsZero :: "boost_figures \<Rightarrow> bool" where
  "BoostFigures_IsZero b \<longleftrightarrow> bf_InstrumentID b = '''' \<and> f_eq (bf_Close b) (Fin 0) \<and> f_eq (bf_RSI b) (Fin 0) \<and> \<not> bf_RSIReady b \<and>
     f_eq (bf_TrendMean b) (Fin 0) \<and> \<not> bf_TrendMeanReady b \<and> f_eq (bf_ExitMean b) (Fin 0) \<and> \<not> bf_ExitMeanReady b \<and>
     \<not> bf_LatchedBefore b \<and> \<not> bf_LatchedAfter b \<and> f_eq (bf_TargetInForce b) (Fin 0) \<and> \<not> bf_TargetInForceSet b \<and>
     \<not> bf_ReplanPending b \<and> bf_Replan b = noReplan \<and> bf_GapSessions b = [] \<and> bf_ReplanWithheld b = noReplan \<and>
     Watched_IsZero (bf_Watched b) \<and> bf_VenueRejections b = 0 \<and> bf_RejectedInARow b = [] \<and> bf_UndecidedOrders b = [] \<and>
     bf_ClearedOrders b = [] \<and> bf_RetiredOrders b = [] \<and> bf_RestoredSale b = None \<and> bf_NamedOrders b = [] \<and>
     bf_WorkingOrders b = [] \<and> bf_RejectedWhileStopped b = [] \<and> bf_RejectionsWhileStopped b = 0 \<and>
     bf_UndecidedBeforeRejection b = 0 \<and> bf_NoVenue b = ''''"

text \<open>A figure that may not be ready yet: the three readings share one check.\<close>

definition readingErrs :: "f64 \<Rightarrow> bool \<Rightarrow> err list" where
  "readingErrs v ready =
     (if \<not> isFinite v \<or> f_lt v (Fin 0) then [''a boost reading must be finite and not negative'']
      else errIf (\<not> ready \<and> f_ne v (Fin 0)) ''a boost reading carries a value but is not ready'')"

definition whileStoppedErrs :: "boost_replan \<Rightarrow> err list" where
  "whileStoppedErrs r = (if br_Cause r \<noteq> ReplanCauseRejected then [''a boost order rejected while stopped is a rejection''] else BoostReplan_validate r)"

definition BoostFigures_validate :: "boost_figures \<Rightarrow> err list" where
  "BoostFigures_validate b =
     errIf (bf_InstrumentID b = '''') ''boost instrument id is required''
     @ errIf (\<not> isFinite (bf_Close b) \<or> f_lt (bf_Close b) (Fin 0)) ''boost close must be finite and not negative''
     @ readingErrs (bf_RSI b) (bf_RSIReady b)
     @ readingErrs (bf_TrendMean b) (bf_TrendMeanReady b)
     @ readingErrs (bf_ExitMean b) (bf_ExitMeanReady b)
     @ (if \<not> isFinite (bf_TargetInForce b) \<or> f_lt (bf_TargetInForce b) (Fin 0) then [''boost target in force must be finite and not negative'']
        else errIf (\<not> bf_TargetInForceSet b \<and> f_ne (bf_TargetInForce b) (Fin 0)) ''boost target in force carries a value but none is set'')
     @ BoostReplan_validate (bf_Replan b)
     @ Watched_validate (bf_Watched b)
     @ (if bf_VenueRejections b < 0 then [''boost venue rejections are never below none'']
        else errIf (bf_VenueRejections b > BoostVenueRejectionLimit) ''boost venue rejections stay at two once reached'')
     @ validateRejections b
     @ errIf (bf_RejectionsWhileStopped b < 0 \<or> (bf_RejectionsWhileStopped b > 0 \<and> bf_VenueRejections b \<noteq> BoostVenueRejectionLimit) \<or>
              int (length (bf_RejectedWhileStopped b)) > bf_RejectionsWhileStopped b) ''boost rejections while stopped are counted only once stopped''
     @ concat (map whileStoppedErrs (bf_RejectedWhileStopped b))
     @ (if bf_ReplanWithheld b \<noteq> noReplan then whileStoppedErrs (bf_ReplanWithheld b) else [])"

text \<open>Gap sessions: dates, strictly ascending, none late.\<close>

fun gapErrs :: "(string \<Rightarrow> bool) \<Rightarrow> string option \<Rightarrow> string list \<Rightarrow> err list" where
  "gapErrs late prev [] = []"
| "gapErrs late prev (s # ss) =
     (if \<not> parsesDateOnly s then [''a gap session is not a date'']
      else if (case prev of None \<Rightarrow> False | Some p \<Rightarrow> s \<le> p) then [''gap sessions must be strictly ascending'']
      else errIf (late s) ''a gap session is too late'')
     @ gapErrs late (Some s) ss"

definition BoostFigures_validateGaps :: "boost_figures \<Rightarrow> gotime \<Rightarrow> err list" where
  "BoostFigures_validateGaps b session = (let day = formatDateOnly (session div day_ns) in
     gapErrs (\<lambda>s. s \<ge> day) None (bf_GapSessions b))"

section \<open>What a valid decision's orders satisfy\<close>

lemma rejectedErrs_ids:
  "rejectedErrs seen xs = [] \<Longrightarrow> distinct (map bj_ClientOrderID xs) \<and> set (map bj_ClientOrderID xs) \<inter> seen = {}"
  by (induction xs arbitrary: seen) (auto split: if_splits)

lemma undecidedErrs_ids:
  "undecidedErrs w rejected seen xs = [] \<Longrightarrow>
     distinct (map bu_ClientOrderID xs) \<and> set (map bu_ClientOrderID xs) \<inter> (seen \<union> rejected) = {}"
  by (induction xs arbitrary: seen) (auto simp: Let_def split: if_splits)

lemma clearedErrs_ids:
  "clearedErrs undecided seen xs = [] \<Longrightarrow>
     distinct (map bu_ClientOrderID xs) \<and> set (map bu_ClientOrderID xs) \<inter> (seen \<union> undecided) = {}"
  by (induction xs arbitrary: seen) (auto simp: Let_def split: if_splits)

lemma retiredErrs_ids:
  "retiredErrs undecided cleared rejected seen xs = [] \<Longrightarrow>
     distinct (map bt_ClientOrderID xs) \<and> set (map bt_ClientOrderID xs) \<inter> (seen \<union> undecided \<union> cleared \<union> rejected) = {}"
  by (induction xs arbitrary: seen) (auto simp: Let_def split: if_splits)

text \<open>A map that says whose a key is, and the one after more claims were checked against it.\<close>

definition extends :: "(string, string) gomap \<Rightarrow> (string, string) gomap \<Rightarrow> bool" where
  "extends m' m \<longleftrightarrow> (\<forall>k c. map_of m k = Some c \<longrightarrow> map_of m' k = Some c)"

lemma extends_refl [simp]: "extends m m"
  by (simp add: extends_def)

lemma extends_trans: "extends m3 m2 \<Longrightarrow> extends m2 m1 \<Longrightarrow> extends m3 m1"
  by (simp add: extends_def)

lemma extends_mput: "\<not> heldByOther m k i \<Longrightarrow> extends (mput m k i) m"
  by (auto simp: extends_def heldByOther_def map_of_mput split: option.splits)

lemma extends_owner: "extends m' m \<Longrightarrow> map_of m k = Some c \<Longrightarrow> map_of m' k = Some c"
  by (simp add: extends_def)

lemma fillErrs_owned:
  "fillErrs i m fs = ([], m') \<Longrightarrow> extends m' m \<and> list_all (\<lambda>f. map_of m' (wf_FillID f) = Some i) fs"
proof (induction fs arbitrary: m m')
  case (Cons f fs)
  then obtain r where r: "fillErrs i (mput m (wf_FillID f) i) fs = (r, m')" "r = []" "\<not> heldByOther m (wf_FillID f) i"
    by (auto simp: Let_def split: prod.splits)
  have IH: "extends m' (mput m (wf_FillID f) i)" "list_all (\<lambda>f. map_of m' (wf_FillID f) = Some i) fs"
    using Cons.IH r(1,2) by blast+
  have "map_of m' (wf_FillID f) = Some i" using IH(1) by (rule extends_owner) (simp add: map_of_mput)
  then show ?case using IH extends_trans [OF IH(1) extends_mput [OF r(3)]] by simp
qed simp

lemma workingErrs_owned:
  "workingErrs w undecided cleared rejected retired m seen xs = ([], m') \<Longrightarrow>
     extends m' m \<and> list_all (\<lambda>x. list_all (\<lambda>f. map_of m' (wf_FillID f) = Some (bw_ClientOrderID x)) (bw_Fills x)) xs \<and>
     distinct (map bw_ClientOrderID xs) \<and> w \<notin> set (map bw_ClientOrderID xs) \<and>
     set (map bw_ClientOrderID xs) \<inter> (seen \<union> undecided \<union> cleared \<union> rejected \<union> retired) = {} \<and>
     list_all (\<lambda>x. Watched_validate x = []) xs"
proof (induction xs arbitrary: m m' seen)
  case (Cons x xs)
  let ?i = "bw_ClientOrderID x"
  obtain fe m1 where f: "fillErrs ?i m (bw_Fills x) = (fe, m1)" by fastforce
  obtain me m2 where r: "workingErrs w undecided cleared rejected retired m1 (insert ?i seen) xs = (me, m2)" by fastforce
  have e: "fe = []" "me = []" "m2 = m'" "Watched_validate x = []" "?i \<noteq> w" "?i \<notin> seen \<union> undecided \<union> cleared \<union> rejected \<union> retired"
    using Cons.prems f r by (auto simp: Let_def split: if_splits)
  note own = fillErrs_owned [OF f [unfolded e(1)]] and IH = Cons.IH [OF r [unfolded e(2,3)]]
  have "list_all (\<lambda>f. map_of m' (wf_FillID f) = Some ?i) (bw_Fills x)"
    using own IH by (auto simp: list_all_iff dest: extends_owner)
  moreover have "extends m' m" using own IH extends_trans by blast
  ultimately show ?case using IH e(4-6) by auto
qed simp

lemma venueErrs_owned:
  "venueErrs m xs = ([], m') \<Longrightarrow> extends m' m \<and> list_all (\<lambda>(c, v). v = '''' \<or> map_of m' v = Some c) xs"
proof (induction m xs arbitrary: m' rule: venueErrs.induct)
  case (2 m c v xs)
  show ?case
  proof (cases "v = ''''")
    case True
    then show ?thesis using 2 by simp
  next
    case False
    then obtain r where r: "venueErrs (mput m v c) xs = (r, m')" "r = []" "\<not> heldByOther m v c"
      using 2(3) by (auto simp: Let_def split: prod.splits)
    have IH: "extends m' (mput m v c)" "list_all (\<lambda>(c, v). v = '''' \<or> map_of m' v = Some c) xs"
      using 2(2) [OF False] r(1,2) by blast+
    have "map_of m' v = Some c" using IH(1) by (rule extends_owner) (simp add: map_of_mput)
    then show ?thesis using IH extends_trans [OF IH(1) extends_mput [OF r(3)]] by simp
  qed
qed simp

lemma watchedFills_sum:
  assumes "watchedFills released s False seen fs = ([], s', ov)" and "0 \<le> s" and "s \<le> max released 0" and "in64 released"
  shows "s' = s + sum_list (map wf_Quantity fs) \<and> \<not> ov \<and> distinct (map wf_FillID fs)"
proof -
  have "s' = s + sum_list (map wf_Quantity fs) \<and> \<not> ov \<and> distinct (map wf_FillID fs) \<and> set (map wf_FillID fs) \<inter> seen = {}"
    using assms(1-3)
  proof (induction fs arbitrary: s seen)
    case (Cons f fs)
    have e: "sub64 (max released 0) s = max released 0 - s"
      using Cons.prems(2,3) assms(4) by (intro sub64_id) (auto simp: in64_def min64_def max64_def)
    have q: "0 < wf_Quantity f" "wf_Quantity f \<le> max released 0 - s" "wf_FillID f \<notin> seen"
      using Cons.prems(1) unfolding watchedFills.simps e by (auto simp: Let_def split: prod.splits if_splits)
    have a: "add64 s (wf_Quantity f) = s + wf_Quantity f"
      using q Cons.prems(2,3) assms(4) by (intro add64_id) (auto simp: in64_def min64_def max64_def)
    have "watchedFills released (s + wf_Quantity f) False (insert (wf_FillID f) seen) fs = ([], s', ov)"
      using Cons.prems(1) q unfolding watchedFills.simps e a by (auto simp: Let_def split: prod.splits if_splits)
    from Cons.IH [OF this] q Cons.prems(2) show ?case by auto
  qed simp
  then show ?thesis by blast
qed

lemma Watched_check_sum:
  assumes "Watched_check w full = []" and "in64 (bw_Released w)"
  shows "sum_list (map wf_Quantity (bw_Fills w)) = bw_Filled w \<and> distinct (map wf_FillID (bw_Fills w)) \<and>
     bw_Filled w \<le> bw_Released w"
proof (cases "Watched_IsZero w")
  case True
  then show ?thesis by (auto simp: Watched_IsZero_def Watched_Equal_def noWatched_def)
next
  case False
  obtain fe s ov where f: "watchedFills (bw_Released w) 0 False {} (bw_Fills w) = (fe, s, ov)" by (metis prod_cases3)
  have e: "fe = []" "ov \<or> s = bw_Filled w" "0 < bw_Released w" "bw_Filled w \<le> bw_Released w"
    using assms(1) False unfolding Watched_check_def f by auto
  from watchedFills_sum [OF f [unfolded e(1)] _ _ assms(2)] e show ?thesis by auto
qed

text \<open>The orders of a decision by the list they are in.\<close>

definition listedOrders :: "boost_figures \<Rightarrow> string list" where
  "listedOrders b = map bu_ClientOrderID (bf_UndecidedOrders b) @ map bu_ClientOrderID (bf_ClearedOrders b)
     @ map bt_ClientOrderID (bf_RetiredOrders b) @ map bw_ClientOrderID (bf_WorkingOrders b)"

text \<open>Every order with its executions, and every order with its venue order ID: the watched, the undecided and the working orders
  and the order of the restored sale.\<close>

definition orderFills :: "boost_figures \<Rightarrow> (string \<times> boost_watched_fill list) list" where
  "orderFills b = map (\<lambda>w. (bw_ClientOrderID w, bw_Fills w)) (bf_Watched b # bf_WorkingOrders b)
     @ (case saleOf b of None \<Rightarrow> [] | Some s \<Rightarrow> [(rso_ClientOrderID s, rso_Fills s)])"

definition orderVenues :: "boost_figures \<Rightarrow> (string \<times> string) list" where
  "orderVenues b = venuePairs b @ (case saleOf b of None \<Rightarrow> [] | Some s \<Rightarrow> [(rso_ClientOrderID s, rso_VenueOrderID s)])"

lemma watchedFillOf_owned: "f \<in> set (bw_Fills w) \<Longrightarrow> map_of (watchedFillOf w) (wf_FillID f) = Some (bw_ClientOrderID w)"
proof -
  have keep: "map_of m k = Some i \<Longrightarrow> map_of (foldl (\<lambda>m f. mput m (wf_FillID f) i) m fs) k = Some i" for m k i and fs :: "boost_watched_fill list"
    by (induction fs arbitrary: m) (auto simp: map_of_mput)
  have "f \<in> set fs \<Longrightarrow> map_of (foldl (\<lambda>m f. mput m (wf_FillID f) i) m fs) (wf_FillID f) = Some i" for m i and fs :: "boost_watched_fill list"
    by (induction fs arbitrary: m) (auto simp: map_of_mput intro: keep)
  then show "f \<in> set (bw_Fills w) \<Longrightarrow> map_of (watchedFillOf w) (wf_FillID f) = Some (bw_ClientOrderID w)" by (simp add: watchedFillOf_def)
qed

lemma concat_errIf_Nil: "concat (map (\<lambda>x. errIf (P x) e) xs) = [] \<longleftrightarrow> list_all (\<lambda>x. \<not> P x) xs"
  by (induction xs) (auto simp: errIf_def)

text \<open>Executions added under one more order that no other order holds keep every owner.\<close>

lemma fills_added:
  assumes "list_all (\<lambda>f. \<not> heldByOther m (wf_FillID f) i) fs"
  shows "\<exists>m'. extends m' m \<and> list_all (\<lambda>f. map_of m' (wf_FillID f) = Some i) fs"
proof -
  let ?m = "\<lambda>k. if k \<in> wf_FillID ` set fs then Some i else map_of m k"
  have "map_of (map (\<lambda>f. (wf_FillID f, i)) fs @ m) k = ?m k" for k
    by (induction fs) (auto simp: map_of_append map_add_def)
  moreover have "map_of m k = Some c \<Longrightarrow> ?m k = Some c" for k c
    using assms by (auto simp: list_all_iff heldByOther_def)
  ultimately show ?thesis by (intro exI [of _ "map (\<lambda>f. (wf_FillID f, i)) fs @ m"]) (auto simp: extends_def list_all_iff)
qed

text \<open>The order of a restored sale in a valid decision: in no list, with executions and a venue order ID of its own.\<close>

lemma saleOnce_sound:
  assumes "saleOnceErrs listed fillOf venueOf s = []" and "rso_ClientOrderID s \<noteq> ''''"
  shows "rso_ClientOrderID s \<notin> listed" and "list_all (\<lambda>f. \<not> heldByOther fillOf (wf_FillID f) (rso_ClientOrderID s)) (rso_Fills s)"
    and "\<exists>m. extends m venueOf \<and> (rso_VenueOrderID s = '''' \<or> map_of m (rso_VenueOrderID s) = Some (rso_ClientOrderID s))"
proof -
  obtain e m where v: "venueErrs venueOf [(rso_ClientOrderID s, rso_VenueOrderID s)] = (e, m)" by fastforce
  have e: "e = []" "rso_ClientOrderID s \<notin> listed"
      "concat (map (\<lambda>f. errIf (heldByOther fillOf (wf_FillID f) (rso_ClientOrderID s)) ''boost records a fill id on two orders'') (rso_Fills s)) = []"
    using assms v unfolding saleOnceErrs_def Let_def by (auto simp: errIf_def split: if_splits)
  then show "rso_ClientOrderID s \<notin> listed" by blast
  show "list_all (\<lambda>f. \<not> heldByOther fillOf (wf_FillID f) (rso_ClientOrderID s)) (rso_Fills s)" using e(3) by (simp only: concat_errIf_Nil)
  show "\<exists>m. extends m venueOf \<and> (rso_VenueOrderID s = '''' \<or> map_of m (rso_VenueOrderID s) = Some (rso_ClientOrderID s))"
    using venueErrs_owned [OF v [unfolded e(1)]] by auto
qed

lemma saleOrderErrs_sum:
  assumes "saleOrderErrs attempted s = []" and "in64 (rso_Released s)"
  shows "rso_ClientOrderID s \<noteq> '''' \<and> sum_list (map wf_Quantity (rso_Fills s)) = rso_Filled s \<and> rso_Filled s \<le> rso_Released s"
proof -
  have c: "rso_ClientOrderID s \<noteq> ''''" "Watched_check ((SaleOrder_Watched s)\<lparr>bw_Side := OrderSideSell\<rparr>) True = []"
    using assms(1) unfolding saleOrderErrs_def by (auto split: if_splits)
  show ?thesis using Watched_check_sum [OF c(2)] c(1) assms(2) by (simp add: SaleOrder_Watched_def)
qed

text \<open>What a valid decision's lists and maps come to.\<close>

lemma validateRejections_parts:
  assumes "validateRejections b = []"
  obtains m n where
    "workingErrs (bw_ClientOrderID (bf_Watched b)) (set (map bu_ClientOrderID (bf_UndecidedOrders b))) (set (map bu_ClientOrderID (bf_ClearedOrders b)))
       (set (map bj_ClientOrderID (bf_RejectedInARow b))) (set (map bt_ClientOrderID (bf_RetiredOrders b))) (watchedFillOf (bf_Watched b)) {}
       (bf_WorkingOrders b) = ([], m)"
    "venueErrs [] (venuePairs b) = ([], n)" "rejectedErrs {} (bf_RejectedInARow b) = []"
    "undecidedErrs (bf_Watched b) (set (map bj_ClientOrderID (bf_RejectedInARow b))) {} (bf_UndecidedOrders b) = []"
    "clearedErrs (set (map bu_ClientOrderID (bf_UndecidedOrders b))) {} (bf_ClearedOrders b) = []"
    "retiredErrs (set (map bu_ClientOrderID (bf_UndecidedOrders b))) (set (map bu_ClientOrderID (bf_ClearedOrders b)))
       (set (map bj_ClientOrderID (bf_RejectedInARow b))) {} (bf_RetiredOrders b) = []"
    "restoredSaleErrs b = []"
    "\<And>s. saleOf b = Some s \<Longrightarrow> saleOnceErrs (set (bw_ClientOrderID (bf_Watched b) # map bj_ClientOrderID (bf_RejectedInARow b) @ listedOrders b)) m n s = []"
proof -
  let ?un = "set (map bu_ClientOrderID (bf_UndecidedOrders b))" and ?cl = "set (map bu_ClientOrderID (bf_ClearedOrders b))"
  let ?re = "set (map bj_ClientOrderID (bf_RejectedInARow b))" and ?rt = "set (map bt_ClientOrderID (bf_RetiredOrders b))"
  let ?wk = "set (map bw_ClientOrderID (bf_WorkingOrders b))" and ?w = "bw_ClientOrderID (bf_Watched b)"
  obtain we m where w: "workingErrs ?w ?un ?cl ?re ?rt (watchedFillOf (bf_Watched b)) {} (bf_WorkingOrders b) = (we, m)" by fastforce
  obtain ve n where v: "venueErrs [] (venuePairs b) = (ve, n)" by fastforce
  note parts = assms [unfolded validateRejections_def Let_def w v prod.case append_is_Nil_conv]
  have l: "set (?w # map bj_ClientOrderID (bf_RejectedInARow b) @ listedOrders b) = insert ?w (?un \<union> ?cl \<union> ?re \<union> ?rt \<union> ?wk)"
    by (auto simp: listedOrders_def)
  have e: "we = []" "ve = []" using parts by blast+
  have "saleOnceErrs (insert ?w (?un \<union> ?cl \<union> ?re \<union> ?rt \<union> ?wk)) m n s = []" if "saleOf b = Some s" for s
    using parts that by simp
  then show ?thesis using parts by (intro that [OF w [unfolded e(1)] v [unfolded e(2)]]) (simp_all only: l)
qed

lemma saleOf_named: "restoredSaleErrs b = [] \<Longrightarrow> saleOf b = Some s \<Longrightarrow> rso_ClientOrderID s \<noteq> ''''"
  by (auto simp: restoredSaleErrs_def saleOf_def saleOrderErrs_def split: option.splits if_splits)

lemma restored_sale_apart:
  assumes "validateRejections b = []" and "saleOf b = Some s" and "in64 (rso_Released s)"
  shows "rso_ClientOrderID s \<notin> set (bw_ClientOrderID (bf_Watched b) # map bj_ClientOrderID (bf_RejectedInARow b) @ listedOrders b) \<and>
    sum_list (map wf_Quantity (rso_Fills s)) = rso_Filled s \<and> rso_Filled s \<le> rso_Released s"
  using assms(1)
proof (rule validateRejections_parts)
  fix m n
  assume r: "restoredSaleErrs b = []"
    and once: "\<And>s. saleOf b = Some s \<Longrightarrow> saleOnceErrs (set (bw_ClientOrderID (bf_Watched b) # map bj_ClientOrderID (bf_RejectedInARow b) @ listedOrders b)) m n s = []"
  have "sum_list (map wf_Quantity (rso_Fills s)) = rso_Filled s \<and> rso_Filled s \<le> rso_Released s"
    using r assms(2) saleOrderErrs_sum [OF _ assms(3)] by (auto simp: restoredSaleErrs_def saleOf_def split: option.splits)
  then show ?thesis using saleOnce_sound(1) [OF once [OF assms(2)] saleOf_named [OF r assms(2)]] by blast
qed

lemma venues_owned:
  assumes "validateRejections b = []"
  shows "\<exists>venue. list_all (\<lambda>(client, v). v = '''' \<or> map_of venue v = Some client) (orderVenues b)"
  using assms
proof (rule validateRejections_parts)
  fix m n
  assume v: "venueErrs [] (venuePairs b) = ([], n)" and r: "restoredSaleErrs b = []"
    and once: "\<And>s. saleOf b = Some s \<Longrightarrow> saleOnceErrs (set (bw_ClientOrderID (bf_Watched b) # map bj_ClientOrderID (bf_RejectedInARow b) @ listedOrders b)) m n s = []"
  note venue = venueErrs_owned [OF v]
  show ?thesis
  proof (cases "saleOf b")
    case None
    then show ?thesis using venue by (auto simp: orderVenues_def)
  next
    case (Some x)
    from saleOnce_sound(3) [OF once [OF Some] saleOf_named [OF r Some]] obtain k where k: "extends k n"
      "rso_VenueOrderID x = '''' \<or> map_of k (rso_VenueOrderID x) = Some (rso_ClientOrderID x)" by blast
    have "list_all (\<lambda>(client, v). v = '''' \<or> map_of k v = Some client) (venuePairs b)"
      using venue extends_owner [OF k(1)] by (auto simp: list_all_iff)
    then show ?thesis using k(2) Some by (auto simp: orderVenues_def)
  qed
qed

lemma fills_owned:
  assumes "validateRejections b = []"
  shows "\<exists>owner. list_all (\<lambda>(client, fills). list_all (\<lambda>f. map_of owner (wf_FillID f) = Some client) fills) (orderFills b)"
  using assms
proof (rule validateRejections_parts)
  fix m n
  assume w: "workingErrs (bw_ClientOrderID (bf_Watched b)) (set (map bu_ClientOrderID (bf_UndecidedOrders b))) (set (map bu_ClientOrderID (bf_ClearedOrders b)))
       (set (map bj_ClientOrderID (bf_RejectedInARow b))) (set (map bt_ClientOrderID (bf_RetiredOrders b))) (watchedFillOf (bf_Watched b)) {}
       (bf_WorkingOrders b) = ([], m)" and r: "restoredSaleErrs b = []"
    and once: "\<And>s. saleOf b = Some s \<Longrightarrow> saleOnceErrs (set (bw_ClientOrderID (bf_Watched b) # map bj_ClientOrderID (bf_RejectedInARow b) @ listedOrders b)) m n s = []"
  let ?owned = "\<lambda>k. list_all (\<lambda>(client, fills). list_all (\<lambda>f. map_of k (wf_FillID f) = Some client) fills)"
  let ?fills = "map (\<lambda>w. (bw_ClientOrderID w, bw_Fills w)) (bf_Watched b # bf_WorkingOrders b)"
  note own = workingErrs_owned [OF w]
  have base: "?owned m ?fills" using own watchedFillOf_owned extends_owner [OF conjunct1 [OF own]] by (auto simp: list_all_iff)
  show ?thesis
  proof (cases "saleOf b")
    case None
    then show ?thesis using base by (auto simp: orderFills_def)
  next
    case (Some x)
    from fills_added [OF saleOnce_sound(2) [OF once [OF Some] saleOf_named [OF r Some]]] obtain k where k: "extends k m"
      "list_all (\<lambda>f. map_of k (wf_FillID f) = Some (rso_ClientOrderID x)) (rso_Fills x)" by blast
    have "?owned k ?fills" using base extends_owner [OF k(1)] by (auto simp: list_all_iff)
    then show ?thesis using k(2) Some by (auto simp: orderFills_def)
  qed
qed

lemma lists_apart:
  assumes "validateRejections b = []"
  shows "distinct (listedOrders b) \<and> distinct (map bj_ClientOrderID (bf_RejectedInARow b)) \<and>
    bw_ClientOrderID (bf_Watched b) \<notin> bw_ClientOrderID ` set (bf_WorkingOrders b) \<and>
    (\<forall>x \<in> set (bf_RejectedInARow b). bj_ClientOrderID x \<notin> bu_ClientOrderID ` set (bf_UndecidedOrders b) \<and>
       bj_ClientOrderID x \<notin> bt_ClientOrderID ` set (bf_RetiredOrders b) \<and> bj_ClientOrderID x \<notin> bw_ClientOrderID ` set (bf_WorkingOrders b)) \<and>
    list_all (\<lambda>w. Watched_validate w = []) (bf_WorkingOrders b)"
  using assms
proof (rule validateRejections_parts)
  let ?un = "set (map bu_ClientOrderID (bf_UndecidedOrders b))" and ?cl = "set (map bu_ClientOrderID (bf_ClearedOrders b))"
  let ?re = "set (map bj_ClientOrderID (bf_RejectedInARow b))" and ?rt = "set (map bt_ClientOrderID (bf_RetiredOrders b))"
  let ?wk = "set (map bw_ClientOrderID (bf_WorkingOrders b))"
  fix m n
  assume w: "workingErrs (bw_ClientOrderID (bf_Watched b)) ?un ?cl ?re ?rt (watchedFillOf (bf_Watched b)) {} (bf_WorkingOrders b) = ([], m)"
    and e: "rejectedErrs {} (bf_RejectedInARow b) = []" "undecidedErrs (bf_Watched b) ?re {} (bf_UndecidedOrders b) = []"
      "clearedErrs ?un {} (bf_ClearedOrders b) = []" "retiredErrs ?un ?cl ?re {} (bf_RetiredOrders b) = []"
  note own = workingErrs_owned [OF w]
  note ids = rejectedErrs_ids [OF e(1)] undecidedErrs_ids [OF e(2)] clearedErrs_ids [OF e(3)] retiredErrs_ids [OF e(4)]
  have d: "distinct (listedOrders b)" using ids own by (auto simp: listedOrders_def)
  have wd: "?wk \<inter> ({} \<union> ?un \<union> ?cl \<union> ?re \<union> ?rt) = {}" using own by (elim conjE)
  have "bj_ClientOrderID x \<notin> ?un \<and> bj_ClientOrderID x \<notin> ?rt \<and> bj_ClientOrderID x \<notin> ?wk" if "x \<in> set (bf_RejectedInARow b)" for x
  proof -
    have x: "bj_ClientOrderID x \<in> ?re" using that by simp
    have "bj_ClientOrderID x \<notin> ?un" using x ids(2) [THEN conjunct2] by blast
    moreover have "bj_ClientOrderID x \<notin> ?rt" using x ids(4) [THEN conjunct2] by blast
    moreover have "bj_ClientOrderID x \<notin> ?wk" using x wd by blast
    ultimately show ?thesis by blast
  qed
  then show ?thesis using d ids(1) own by simp
qed

text \<open>C17: in a valid Boost decision each order is recorded once. The undecided, cleared, retired and working orders are all
  different orders; the orders rejected in a row are different orders and none of them is undecided, retired or working (one may
  also be cleared); the watched order is not among the working ones; and the order of a restored sale is not the watched order
  nor in any of the lists. Among the watched, undecided and working orders and the restored sale's, one venue order ID names one
  order; among the watched and working orders and the restored sale's, an execution is recorded on one order; and the
  executions of each of these come to exactly the shares it records as filled, never more than it released.\<close>

theorem Boost_orders_once:
  assumes "BoostFigures_validate b = []" and "list_all (\<lambda>w. in64 (bw_Released w)) (bf_Watched b # bf_WorkingOrders b)"
    and "\<And>s. saleOf b = Some s \<Longrightarrow> in64 (rso_Released s)"
  shows "distinct (listedOrders b) \<and> distinct (map bj_ClientOrderID (bf_RejectedInARow b)) \<and>
     bw_ClientOrderID (bf_Watched b) \<notin> bw_ClientOrderID ` set (bf_WorkingOrders b) \<and>
     (\<forall>x \<in> set (bf_RejectedInARow b). bj_ClientOrderID x \<notin> bu_ClientOrderID ` set (bf_UndecidedOrders b) \<and>
        bj_ClientOrderID x \<notin> bt_ClientOrderID ` set (bf_RetiredOrders b) \<and> bj_ClientOrderID x \<notin> bw_ClientOrderID ` set (bf_WorkingOrders b)) \<and>
     (\<forall>s. saleOf b = Some s \<longrightarrow> rso_ClientOrderID s \<notin> set (bw_ClientOrderID (bf_Watched b) # map bj_ClientOrderID (bf_RejectedInARow b) @ listedOrders b) \<and>
        sum_list (map wf_Quantity (rso_Fills s)) = rso_Filled s \<and> rso_Filled s \<le> rso_Released s) \<and>
     (\<exists>venue. list_all (\<lambda>(client, v). v = '''' \<or> map_of venue v = Some client) (orderVenues b)) \<and>
     (\<exists>owner. list_all (\<lambda>(client, fills). list_all (\<lambda>f. map_of owner (wf_FillID f) = Some client) fills) (orderFills b)) \<and>
     list_all (\<lambda>w. sum_list (map wf_Quantity (bw_Fills w)) = bw_Filled w \<and> bw_Filled w \<le> bw_Released w) (bf_Watched b # bf_WorkingOrders b)"
proof -
  have r: "validateRejections b = []" and wv: "Watched_validate (bf_Watched b) = []"
    using assms(1) by (simp_all add: BoostFigures_validate_def)
  note apart = lists_apart [OF r]
  have "list_all (\<lambda>w. sum_list (map wf_Quantity (bw_Fills w)) = bw_Filled w \<and> bw_Filled w \<le> bw_Released w) (bf_Watched b # bf_WorkingOrders b)"
    using apart wv assms(2) by (auto simp: list_all_iff Watched_validate_def dest!: Watched_check_sum)
  moreover note restored_sale_apart [OF r _ assms(3)] venues_owned [OF r] fills_owned [OF r]
  ultimately show ?thesis using apart by blast
qed

text \<open>A decision with one order watched and part filled, one undecided and one cleared.\<close>

definition some_watched :: boost_watched_order where
  "some_watched = \<lparr>bw_ClientOrderID = ''w'', bw_Side = OrderSideBuy, bw_Released = 10, bw_LimitPrice = Fin 100, bw_Filled = 4,
     bw_Fills = [\<lparr>wf_FillID = ''f1'', wf_Quantity = 4, wf_Price = Fin 99, wf_Commission = Fin 1, wf_FilledAt = 63900000000 * second_ns\<rparr>],
     bw_Status = NoLifecycleStatus, bw_EndedAt = 0, bw_AfterRejection = False, bw_VenueOrderID = ''v1''\<rparr>"

definition some_order :: "string \<Rightarrow> boost_undecided_order" where
  "some_order i = \<lparr>bu_ClientOrderID = i, bu_Side = OrderSideSell, bu_Released = 5, bu_LimitPrice = Fin 90, bu_VenueOrderID = ''''\<rparr>"

definition some_figures :: boost_figures where
  "some_figures = \<lparr>bf_InstrumentID = ''SPY'', bf_Close = Fin 100, bf_RSI = Fin 0, bf_RSIReady = False, bf_TrendMean = Fin 0,
     bf_TrendMeanReady = False, bf_ExitMean = Fin 0, bf_ExitMeanReady = False, bf_LatchedBefore = False, bf_LatchedAfter = False,
     bf_TargetInForce = Fin 0, bf_TargetInForceSet = False, bf_ReplanPending = False, bf_Replan = noReplan, bf_GapSessions = [],
     bf_ReplanWithheld = noReplan, bf_Watched = some_watched, bf_VenueRejections = 0, bf_RejectedInARow = [],
     bf_UndecidedOrders = [some_order ''u''], bf_ClearedOrders = [some_order ''c''], bf_RetiredOrders = [], bf_RestoredSale = None,
     bf_NamedOrders = [''w''], bf_WorkingOrders = [], bf_RejectedWhileStopped = [], bf_RejectionsWhileStopped = 0,
     bf_UndecidedBeforeRejection = 0, bf_NoVenue = ''''\<rparr>"

theorem Boost_orders_once_witness:
  "BoostFigures_validate some_figures = [] \<and> distinct (listedOrders some_figures) \<and> listedOrders some_figures = [''u'', ''c'']"
proof -
  have v: "BoostFigures_validate some_figures = []" by code_simp
  have i: "list_all (\<lambda>w. in64 (bw_Released w)) (bf_Watched some_figures # bf_WorkingOrders some_figures)" by code_simp
  have s: "in64 (rso_Released s)" if "saleOf some_figures = Some s" for s using that by (simp add: some_figures_def saleOf_def)
  have "listedOrders some_figures = [''u'', ''c'']" by code_simp
  with Boost_orders_once [OF v i s] v show ?thesis by blast
qed

end
