(* ===== verification/TargetsDecided.thy ===== *)
theory TargetsDecided
  imports BoostFigures
begin

text \<open>
  The decision a target-weight strategy journals (\<open>TargetsDecidedPayload\<close> of
  \<open>event/target_weight_decisions.go\<close>, with the withheld picks of \<open>event/mark_unavailable.go\<close>), the figures of a
  momentum decision, and the validators: what every reader requires, what a writer requires besides, and what a
  recorded schema version may hold. \<open>valid_targets\<close> and its companions say what the planner may rely on.
\<close>

section \<open>Targets and the glide path\<close>

datatype (plugins only: code size) targets_outcome = TargetsOutcomeDecided | TargetsOutcomeWithheld | OtherOutcome string

datatype (plugins only: code size) targets_withheld =
  NoTargetsWithheld | WithheldMissingBars | WithheldStaleAccountSnapshot | WithheldMissingUniverse | WithheldInsufficientTrendHistory
| WithheldNoEligibleNames | WithheldRebalanceInProgress | WithheldAllUnaffordable | WithheldHistoriesMissing | WithheldLabelsMissing
| OtherTargetsWithheld string

datatype (plugins only: code size) sleeve_name = MomentumSleeve | BondSleeve | OtherSleeve string

record sleeve_share =
  ss_Sleeve :: sleeve_name
  ss_Weight :: f64

record target_weight =
  tw_InstrumentID :: string
  tw_Weight :: f64
  tw_Shares :: "sleeve_share list"

record glide_figures =
  gl_RebalanceSession :: string
  gl_AgeMonths :: int
  gl_BondShare :: f64

definition noGlide :: glide_figures where
  "noGlide = \<lparr>gl_RebalanceSession = '''', gl_AgeMonths = 0, gl_BondShare = Fin 0\<rparr>"

definition Glide_validate :: "glide_figures \<Rightarrow> string \<Rightarrow> err list" where
  "Glide_validate g closeSession =
     errIf (gl_AgeMonths g < 1) ''glide age in months must be positive''
     @ errIf (\<not> isFinite (gl_BondShare g) \<or> f_lt (gl_BondShare g) (Fin 0) \<or> f_lt (Fin 1) (gl_BondShare g)) ''glide bond share must lie in [0, 1]''
     @ (if \<not> parsesDateOnly (gl_RebalanceSession g) then [''glide rebalance session is not a date'']
        else errIf (gl_RebalanceSession g \<le> closeSession) ''glide rebalance session must come after the close session'')"

fun shareErrs :: "sleeve_name option \<Rightarrow> sleeve_share list \<Rightarrow> err list" where
  "shareErrs prev [] = []"
| "shareErrs prev (s # ss) =
     (if ss_Sleeve s \<noteq> MomentumSleeve \<and> ss_Sleeve s \<noteq> BondSleeve then [''sleeve is not momentum or bond'']
      else errIf (case prev of None \<Rightarrow> False | Some p \<Rightarrow> ss_Sleeve s \<noteq> BondSleeve \<or> p \<noteq> MomentumSleeve) ''sleeve shares come momentum then bond'')
     @ errIf (\<not> isFinite (ss_Weight s) \<or> f_lt (ss_Weight s) (Fin 0)) ''sleeve share must be finite and not negative''
     @ shareErrs (Some (ss_Sleeve s)) ss"

definition validateShares :: "target_weight \<Rightarrow> err list" where
  "validateShares t = (if tw_Shares t = [] then [''a momentum target needs its sleeve shares'']
     else shareErrs None (tw_Shares t)
       @ errIf (f_ne (foldl f_add (Fin 0) (map ss_Weight (tw_Shares t))) (tw_Weight t)) ''sleeve shares sum to the weight'')"

section \<open>Momentum figures\<close>

datatype (plugins only: code size) name_status =
  MomentumStatusScored | MomentumStatusPicked | MomentumStatusSectorCapped | MomentumStatusBeyondTopN | MomentumStatusNoSector
| MomentumStatusZeroVolatility | MomentumStatusShortHistory | MomentumStatusGap | MomentumStatusUnaffordable | MomentumStatusHeldOneLotShort
| OtherMomentumStatus string

record momentum_name =
  mn_InstrumentID :: string
  mn_UniverseRank :: int
  mn_DollarVolume :: f64
  mn_Sector :: string
  mn_SectorSource :: string
  mn_Status :: name_status
  mn_Closes :: int
  mn_Score :: f64
  mn_Volatility :: f64
  mn_ScoreRank :: int
  mn_Weight :: f64
  mn_BacktestWouldPick :: bool
  mn_OneShare :: f64
  mn_TargetValue :: f64
  mn_HeldQuantity :: int
  mn_HeldValue :: f64
  mn_HeldShare :: f64
  mn_GapSessions :: "string list"

record minimum_lot_figures =
  lot_NetLiquidation :: f64
  lot_MomentumScale :: f64

record momentum_figures =
  mo_CloseSession :: string
  mo_TrendInstrument :: string
  mo_TrendCloses :: int
  mo_TrendClose :: f64
  mo_TrendMean :: f64
  mo_RiskOff :: bool
  mo_UniverseRows :: int
  mo_UniverseListingType :: int
  mo_UniverseAtOrAboveFloor :: int
  mo_UniverseMembers :: int
  mo_Names :: "momentum_name list"
  mo_MinimumLot :: minimum_lot_figures

definition noLot :: minimum_lot_figures where
  "noLot = \<lparr>lot_NetLiquidation = Fin 0, lot_MomentumScale = Fin 0\<rparr>"

text \<open>Go compares the struct's floats with \<open>==\<close>, so a NaN figure differs from none.\<close>

definition lotSet :: "minimum_lot_figures \<Rightarrow> bool" where
  "lotSet l \<longleftrightarrow> f_ne (lot_NetLiquidation l) (Fin 0) \<or> f_ne (lot_MomentumScale l) (Fin 0)"

definition Momentum_isZero :: "momentum_figures \<Rightarrow> bool" where
  "Momentum_isZero m \<longleftrightarrow> mo_CloseSession m = '''' \<and> mo_TrendInstrument m = '''' \<and> mo_TrendCloses m = 0 \<and> f_eq (mo_TrendClose m) (Fin 0) \<and>
     f_eq (mo_TrendMean m) (Fin 0) \<and> \<not> mo_RiskOff m \<and> mo_UniverseRows m = 0 \<and> mo_UniverseListingType m = 0 \<and>
     mo_UniverseAtOrAboveFloor m = 0 \<and> mo_UniverseMembers m = 0 \<and> mo_Names m = [] \<and> \<not> lotSet (mo_MinimumLot m)"

definition validateHolding :: "momentum_name \<Rightarrow> err list" where
  "validateHolding n =
     (if mn_Status n \<noteq> MomentumStatusHeldOneLotShort
      then errIf (mn_HeldQuantity n \<noteq> 0 \<or> f_ne (mn_HeldValue n) (Fin 0) \<or> f_ne (mn_HeldShare n) (Fin 0)) ''only a kept name records a holding''
      else errIf (\<not> f_lt (Fin 0) (mn_Weight n)) ''a kept name keeps its weight''
        @ errIf (mn_HeldQuantity n < 1 \<or> \<not> isFinite (mn_HeldValue n) \<or> \<not> f_lt (Fin 0) (mn_HeldValue n) \<or>
                 \<not> isFinite (mn_HeldShare n) \<or> \<not> f_lt (Fin 0) (mn_HeldShare n)) ''a kept name records its holding'')"

definition validateHoldingFigures :: "momentum_name \<Rightarrow> f64 \<Rightarrow> err list" where
  "validateHoldingFigures n netLiquidation =
     errIf (f_ne (mn_HeldValue n) (f_mul (f_of_int (mn_HeldQuantity n)) (mn_OneShare n))) ''held value is its shares x one share''
     @ errIf (f_ne (mn_HeldShare n) (f_div (mn_HeldValue n) netLiquidation)) ''held share is its held value over net liquidation''"

definition statusErrs :: "momentum_name \<Rightarrow> err list" where
  "statusErrs n =
     (if mn_Status n \<in> {MomentumStatusScored, MomentumStatusPicked, MomentumStatusSectorCapped, MomentumStatusBeyondTopN,
        MomentumStatusNoSector, MomentumStatusZeroVolatility, MomentumStatusShortHistory, MomentumStatusGap}
      then errIf (f_ne (mn_OneShare n) (Fin 0) \<or> f_ne (mn_TargetValue n) (Fin 0)) ''only an unaffordable name records a one-share price''
      else if mn_Status n \<in> {MomentumStatusUnaffordable, MomentumStatusHeldOneLotShort}
      then errIf (\<not> isFinite (mn_OneShare n) \<or> \<not> isFinite (mn_TargetValue n) \<or> f_lt (mn_TargetValue n) (Fin 0) \<or>
                  \<not> f_lt (mn_TargetValue n) (mn_OneShare n)) ''an unaffordable name has one share above its target value''
      else [''status is not recognised''])"

definition MomentumName_validate :: "momentum_name \<Rightarrow> int \<Rightarrow> err list" where
  "MomentumName_validate n rank =
     errIf (mn_InstrumentID n = '''') ''instrument id is required''
     @ errIf (mn_UniverseRank n \<noteq> rank) ''universe rank is its place''
     @ statusErrs n
     @ errIf ((mn_Sector n = '''') \<noteq> (mn_SectorSource n = '''')) ''a sector label and its source come together''
     @ errIf (mn_Closes n < 0 \<or> mn_ScoreRank n < 0) ''closes and score rank must not be negative''
     @ concat (map (\<lambda>v. errIf (\<not> isFinite v \<or> f_lt v (Fin 0)) ''figures must be finite and not negative'') [mn_DollarVolume n, mn_Volatility n, mn_Weight n])
     @ errIf (\<not> isFinite (mn_Score n)) ''score must be finite''
     @ errIf (f_lt (Fin 0) (mn_Weight n) \<and> mn_Status n \<noteq> MomentumStatusPicked \<and> mn_Status n \<noteq> MomentumStatusHeldOneLotShort)
         ''only a picked name has a weight''
     @ validateHolding n"

definition MomentumName_validateGaps :: "momentum_name \<Rightarrow> string \<Rightarrow> err list" where
  "MomentumName_validateGaps n closeSession =
     errIf (mn_Status n = MomentumStatusShortHistory \<and> mn_GapSessions n \<noteq> []) ''a short history records no gap sessions''
     @ gapErrs (\<lambda>s. s > closeSession) None (mn_GapSessions n)"

definition nameErrs :: "momentum_figures \<Rightarrow> int \<Rightarrow> momentum_name \<Rightarrow> err list" where
  "nameErrs m rank n = (let lot = lotSet (mo_MinimumLot m) in
     MomentumName_validate n rank @ MomentumName_validateGaps n (mo_CloseSession m)
     @ errIf ((mn_Status n = MomentumStatusUnaffordable \<or> mn_Status n = MomentumStatusHeldOneLotShort) \<and> \<not> lot)
         ''an unaffordable name needs the minimum lot figures''
     @ (if mn_Status n = MomentumStatusHeldOneLotShort \<and> lot then validateHoldingFigures n (lot_NetLiquidation (mo_MinimumLot m)) else []))"

definition Momentum_validate :: "momentum_figures \<Rightarrow> err list" where
  "Momentum_validate m =
     errIf (\<not> parsesDateOnly (mo_CloseSession m)) ''momentum close session is not a date''
     @ errIf (mo_TrendInstrument m = '''') ''momentum trend instrument is required''
     @ concat (map (\<lambda>v. errIf (\<not> isFinite v \<or> f_lt v (Fin 0)) ''momentum trend figures must be finite and not negative'') [mo_TrendClose m, mo_TrendMean m])
     @ concat (map (\<lambda>n. errIf (n < 0) ''momentum counts must not be negative'')
         [mo_TrendCloses m, mo_UniverseRows m, mo_UniverseListingType m, mo_UniverseAtOrAboveFloor m, mo_UniverseMembers m])
     @ errIf (int (length (mo_Names m)) \<noteq> mo_UniverseMembers m \<and> mo_Names m \<noteq> []) ''momentum records a name per universe member''
     @ errIf (lotSet (mo_MinimumLot m) \<and> (\<not> isFinite (lot_NetLiquidation (mo_MinimumLot m)) \<or> f_le (lot_NetLiquidation (mo_MinimumLot m)) (Fin 0) \<or>
         \<not> isFinite (lot_MomentumScale (mo_MinimumLot m)) \<or> f_le (lot_MomentumScale (mo_MinimumLot m)) (Fin 0) \<or> f_lt (Fin 1) (lot_MomentumScale (mo_MinimumLot m))))
         ''momentum minimum lot needs a positive net liquidation and a scale in (0, 1]''
     @ concat (map (\<lambda>(i, n). nameErrs m (int i + 1) n) (zip [0..<length (mo_Names m)] (mo_Names m)))"

section \<open>The decision\<close>

datatype (plugins only: code size) mark_failure = MarkFailureTransient | MarkFailureFinal | MarkFailureUnknown | OtherMarkFailure string

record withheld_pick =
  wp_InstrumentID :: string
  wp_Reason :: refusal_reason
  wp_Detail :: string
  wp_Failure :: mark_failure

datatype (plugins only: code size) target_weight_strategy = TargetWeightStrategyBoost | TargetWeightStrategyMomentum | OtherStrategy string

record targets_decided =
  td_CashBuffer :: f64
  td_QuantityScale :: int
  td_AccountID :: string
  td_StrategyID :: target_weight_strategy
  td_DecisionTime :: gotime
  td_SessionPeriodEnd :: gotime
  td_Outcome :: targets_outcome
  td_WithheldReason :: targets_withheld
  td_Detail :: string
  td_Targets :: "target_weight list"
  td_WithheldPicks :: "withheld_pick list"
  td_Boost :: boost_figures
  td_Momentum :: momentum_figures
  td_Glide :: glide_figures

fun withheldPickErrs :: "target_weight list \<Rightarrow> string option \<Rightarrow> withheld_pick list \<Rightarrow> err list" where
  "withheldPickErrs targets prev [] = []"
| "withheldPickErrs targets prev (p # ps) =
     errIf (wp_InstrumentID p = '''') ''withheld pick instrument id is required''
     @ errIf (case prev of None \<Rightarrow> False | Some q \<Rightarrow> wp_InstrumentID p \<le> q) ''withheld picks must be strictly ascending''
     @ errIf (\<not> list_ex (\<lambda>t. tw_InstrumentID t = wp_InstrumentID p \<and> f_lt (Fin 0) (tw_Weight t)) targets) ''withheld pick has no positive target''
     @ errIf (wp_Reason p \<noteq> RefusedMissingMark) ''withheld pick reason must be missing-mark''
     @ errIf (wp_Detail p = '''') ''withheld pick detail is required''
     @ errIf (wp_Failure p \<notin> {MarkFailureTransient, MarkFailureFinal, MarkFailureUnknown}) ''withheld pick failure is not recognised''
     @ withheldPickErrs targets (Some (wp_InstrumentID p)) ps"

definition withheldPickErrors :: "targets_decided \<Rightarrow> err list" where
  "withheldPickErrors p =
     errIf (td_WithheldPicks p \<noteq> [] \<and> (td_StrategyID p \<noteq> TargetWeightStrategyMomentum \<or> td_Outcome p \<noteq> TargetsOutcomeDecided))
       ''withheld picks belong only to a decided momentum outcome''
     @ withheldPickErrs (td_Targets p) None (td_WithheldPicks p)"

fun targetErrs :: "target_weight_strategy \<Rightarrow> string option \<Rightarrow> target_weight list \<Rightarrow> err list" where
  "targetErrs s prev [] = []"
| "targetErrs s prev (t # ts) =
     (if tw_InstrumentID t = '''' then [''instrument id is required'']
      else errIf (case prev of None \<Rightarrow> False | Some p \<Rightarrow> tw_InstrumentID t \<le> p) ''targets must be strictly ascending by instrument'')
     @ errIf (\<not> isFinite (tw_Weight t) \<or> f_lt (tw_Weight t) (Fin 0)) ''weight must be finite and not negative''
     @ errIf (s = TargetWeightStrategyBoost \<and> tw_Shares t \<noteq> []) ''a boost target carries no sleeve shares''
     @ (if s = TargetWeightStrategyMomentum then validateShares t else [])
     @ targetErrs s (Some (tw_InstrumentID t)) ts"

definition strategyErrs :: "targets_decided \<Rightarrow> err list" where
  "strategyErrs p = (case td_StrategyID p of
     TargetWeightStrategyBoost \<Rightarrow> BoostFigures_validate (td_Boost p) @ BoostFigures_validateGaps (td_Boost p) (td_SessionPeriodEnd p)
       @ errIf (\<not> Momentum_isZero (td_Momentum p)) ''a boost decision carries no momentum figures''
       @ errIf (td_Glide p \<noteq> noGlide) ''a boost decision carries no glide figures''
   | TargetWeightStrategyMomentum \<Rightarrow> Momentum_validate (td_Momentum p) @ Glide_validate (td_Glide p) (mo_CloseSession (td_Momentum p))
       @ errIf (\<not> BoostFigures_IsZero (td_Boost p)) ''a momentum decision carries no boost figures''
   | OtherStrategy _ \<Rightarrow> [''strategy id is not a target-weight strategy''])"

definition outcomeErrs :: "targets_decided \<Rightarrow> err list" where
  "outcomeErrs p = (case td_Outcome p of
     TargetsOutcomeDecided \<Rightarrow> errIf (td_WithheldReason p \<noteq> NoTargetsWithheld) ''a decided outcome carries no withheld reason''
       @ errIf (td_Targets p = []) ''a decided outcome carries at least one target''
       @ errIf (td_StrategyID p = TargetWeightStrategyBoost \<and> \<not> f_lt (Fin 0) (bf_Close (td_Boost p))) ''a decided Boost outcome carries a positive close''
   | TargetsOutcomeWithheld \<Rightarrow> (case td_WithheldReason p of NoTargetsWithheld \<Rightarrow> [''withheld reason is not recognised'']
         | OtherTargetsWithheld _ \<Rightarrow> [''withheld reason is not recognised''] | _ \<Rightarrow> [])
       @ errIf (td_Detail p = '''') ''a withheld outcome needs its detail''
       @ errIf (td_Targets p \<noteq> []) ''a withheld outcome carries no targets''
   | OtherOutcome _ \<Rightarrow> [''outcome is not decided or withheld''])"

definition TargetsDecided_Validate :: "targets_decided \<Rightarrow> err list" where
  "TargetsDecided_Validate p =
     (if \<not> isFinite (td_CashBuffer p) \<or> f_lt (td_CashBuffer p) (Fin 0) \<or>
         (f_ne (td_CashBuffer p) (Fin 0) \<and> (td_StrategyID p \<noteq> TargetWeightStrategyMomentum \<or> td_Outcome p \<noteq> TargetsOutcomeDecided))
      then [''cash buffer must be finite, nonnegative and only on a decided IRA'']
      else if td_QuantityScale p = FractionalQuantityScale \<and> (lotSet (mo_MinimumLot (td_Momentum p)) \<or> td_WithheldReason p = WithheldAllUnaffordable)
      then [''fractional decisions carry no D7-L minimum-lot evidence'']
      else if td_QuantityScale p \<noteq> 0 \<and> td_StrategyID p \<noteq> TargetWeightStrategyMomentum
      then [''fractional quantity decisions require momentum'']
      else if quantityScaleError (td_QuantityScale p) \<noteq> [] then [''quantity scale is not recognised'']
      else withheldPickErrors p
        @ errIf (td_AccountID p = '''') ''account id is required''
        @ strategyErrs p
        @ requiredTime (td_DecisionTime p)
        @ requiredTime (td_SessionPeriodEnd p)
        @ errIf (requiredTime (td_DecisionTime p) = [] \<and> requiredTime (td_SessionPeriodEnd p) = [] \<and> td_DecisionTime p < td_SessionPeriodEnd p)
            ''decision time is before the session whose closes it used''
        @ outcomeErrs p
        @ targetErrs (td_StrategyID p) None (td_Targets p))"

definition ValidateWritten :: "targets_decided \<Rightarrow> err list" where
  "ValidateWritten p = TargetsDecided_Validate p @ RestoredSale_versioned (bf_RestoredSale (td_Boost p))
     @ concat (map (\<lambda>n. errIf (mn_Status n = MomentumStatusGap \<and> mn_GapSessions n = []) ''a gap name names its missing sessions'') (mo_Names (td_Momentum p)))"

section \<open>Schema versions\<close>

definition TargetsDecidedSchemaVersion :: int where
  "TargetsDecidedSchemaVersion = 10"

definition TargetsDecidedLiveSaleVersion :: int where
  "TargetsDecidedLiveSaleVersion = 8"

definition TargetsDecidedEndedSaleVersion :: int where
  "TargetsDecidedEndedSaleVersion = 9"

definition TargetsDecidedFractionalVersion :: int where
  "TargetsDecidedFractionalVersion = 11"

definition TargetsDecided_SchemaVersion :: "targets_decided \<Rightarrow> int" where
  "TargetsDecided_SchemaVersion p = (if td_QuantityScale p \<noteq> 0 then TargetsDecidedFractionalVersion else TargetsDecidedSchemaVersion)"

definition TargetsDecided_ValidateSchema :: "targets_decided \<Rightarrow> int \<Rightarrow> err list" where
  "TargetsDecided_ValidateSchema p version = (let r = bf_RestoredSale (td_Boost p); sale = saleOf (td_Boost p) in
     if quantitySchema (td_QuantityScale p) version TargetsDecidedFractionalVersion \<noteq> [] then [''quantity scale and schema version disagree'']
     else if version = TargetsDecidedFractionalVersion then TargetsDecided_Validate p
     else if version < TargetsDecidedSchemaVersion \<and> td_WithheldPicks p \<noteq> [] then [''an earlier decision records withheld picks'']
     else if version = 0 \<or> version > TargetsDecidedSchemaVersion then [''schema version is not recognised'']
     else if version < TargetsDecidedLiveSaleVersion then
       (if (case sale of None \<Rightarrow> False | Some s \<Rightarrow> recordsVersion8 s) then [''an earlier restored sale records version 8 figures'']
        else TargetsDecided_Validate p)
     else if version < TargetsDecidedEndedSaleVersion then
       (if (case sale of None \<Rightarrow> False | Some s \<Rightarrow> recordsVersion9 s) then [''an earlier restored sale records an ended sale'']
        else if RestoredSale_versioned r \<noteq> [] then TargetsDecided_Validate p @ RestoredSale_versioned r
        else TargetsDecided_Validate p)
     else if RestoredSale_versioned r \<noteq> [] then TargetsDecided_Validate p @ RestoredSale_versioned r
     else TargetsDecided_Validate p)"

section \<open>What a valid decision satisfies\<close>

lemma targetErrs_ok:
  assumes "targetErrs s prev ts = []"
  shows "distinct (map tw_InstrumentID ts) \<and> sorted (map tw_InstrumentID ts) \<and> '''' \<notin> set (map tw_InstrumentID ts) \<and>
     list_all (\<lambda>t. isFinite (tw_Weight t) \<and> f_nonneg (tw_Weight t)) ts \<and>
     (s = TargetWeightStrategyMomentum \<longrightarrow> list_all (\<lambda>t. validateShares t = []) ts) \<and>
     (case prev of None \<Rightarrow> True | Some p \<Rightarrow> list_all (\<lambda>t. p < tw_InstrumentID t) ts)"
  using assms
proof (induction s prev ts rule: targetErrs.induct)
  case (2 s prev t ts)
  have IH: "targetErrs s (Some (tw_InstrumentID t)) ts = []" using 2(2) by simp
  have w: "isFinite (tw_Weight t)" "f_nonneg (tw_Weight t)" using 2(2) by (auto simp: f_nonneg_def elim!: isFiniteE split: if_splits)
  show ?case using 2(1) [OF IH] 2(2) w
    by (auto simp: list_all_iff order_le_less split: if_splits option.splits dest: order.strict_trans)
qed (simp split: option.splits)

lemma quantityScale_ok: "quantityScaleError s = [] \<longleftrightarrow> s = 0 \<or> s = FractionalQuantityScale"
  by (auto simp: quantityScaleError_def)

text \<open>What the planner reads of a decision.\<close>

lemma Validate_targets:
  assumes "TargetsDecided_Validate p = []"
  shows "targetErrs (td_StrategyID p) None (td_Targets p) = []" "outcomeErrs p = []" "strategyErrs p = []"
    "td_QuantityScale p = 0 \<or> td_QuantityScale p = FractionalQuantityScale"
    "td_QuantityScale p = FractionalQuantityScale \<longrightarrow> \<not> lotSet (mo_MinimumLot (td_Momentum p))"
  using assms unfolding TargetsDecided_Validate_def quantityScale_ok [symmetric] by (auto split: if_splits)

lemmas valid_targets = targetErrs_ok [OF Validate_targets(1), simplified]

text \<open>C18: a decision a writer accepts is accepted by a reader at the schema version it is written at, and exactly at the versions
  that record what it states: counted in ticks, at the fractional version only; otherwise at versions 1 to 10, but from 10 once it
  withholds a pick, from 8 once it states a sale back to 98%, and from 9 once that sale has ended or filled in full. Nothing else
  narrows the versions: retired and named orders came with version 7, the first a reader of the log reads.\<close>

theorem written_reads_back:
  assumes "ValidateWritten p = []"
  shows "TargetsDecided_ValidateSchema p (TargetsDecided_SchemaVersion p) = [] \<and>
     (TargetsDecided_ValidateSchema p TargetsDecidedFractionalVersion = [] \<longleftrightarrow> td_QuantityScale p = FractionalQuantityScale) \<and>
     (\<forall>v. 0 \<le> v \<longrightarrow> (TargetsDecided_ValidateSchema p v = [] \<longleftrightarrow>
        (if td_QuantityScale p = FractionalQuantityScale then v = TargetsDecidedFractionalVersion
         else 1 \<le> v \<and> v \<le> TargetsDecidedSchemaVersion \<and> (td_WithheldPicks p \<noteq> [] \<longrightarrow> v = TargetsDecidedSchemaVersion) \<and>
           (\<forall>s. saleOf (td_Boost p) = Some s \<longrightarrow> TargetsDecidedLiveSaleVersion \<le> v \<and> (\<not> SaleOrder_Live s \<longrightarrow> TargetsDecidedEndedSaleVersion \<le> v)))))"
proof -
  have v: "TargetsDecided_Validate p = []" "RestoredSale_versioned (bf_RestoredSale (td_Boost p)) = []"
    using assms by (simp_all add: ValidateWritten_def)
  have s: "td_QuantityScale p = 0 \<or> td_QuantityScale p = FractionalQuantityScale" using Validate_targets(4) [OF v(1)] .
  have sale: "recordsVersion8 x" if "saleOf (td_Boost p) = Some x" for x
    using v(2) that by (auto simp: RestoredSale_versioned_def saleOf_def recordsVersion8_def split: option.splits)
  note defs = TargetsDecided_ValidateSchema_def TargetsDecided_SchemaVersion_def TargetsDecidedFractionalVersion_def
    TargetsDecidedSchemaVersion_def TargetsDecidedLiveSaleVersion_def TargetsDecidedEndedSaleVersion_def
    FractionalQuantityScale_def quantitySchema_def quantityScaleError_def recordsVersion9_def
  show ?thesis using s
  proof
    assume "td_QuantityScale p = 0"
    then show ?thesis using v sale by (auto simp: defs Let_def split: option.splits)
  next
    assume "td_QuantityScale p = FractionalQuantityScale"
    then show ?thesis using v sale by (auto simp: defs Let_def split: option.splits)
  qed
qed

text \<open>A month with half of the account in one stock and the rest in cash.\<close>

definition noBoost :: boost_figures where
  "noBoost = \<lparr>bf_InstrumentID = '''', bf_Close = Fin 0, bf_RSI = Fin 0, bf_RSIReady = False, bf_TrendMean = Fin 0,
     bf_TrendMeanReady = False, bf_ExitMean = Fin 0, bf_ExitMeanReady = False, bf_LatchedBefore = False, bf_LatchedAfter = False,
     bf_TargetInForce = Fin 0, bf_TargetInForceSet = False, bf_ReplanPending = False, bf_Replan = noReplan, bf_GapSessions = [],
     bf_ReplanWithheld = noReplan, bf_Watched = noWatched, bf_VenueRejections = 0, bf_RejectedInARow = [],
     bf_UndecidedOrders = [], bf_ClearedOrders = [], bf_RetiredOrders = [], bf_RestoredSale = None,
     bf_NamedOrders = [], bf_WorkingOrders = [], bf_RejectedWhileStopped = [], bf_RejectionsWhileStopped = 0,
     bf_UndecidedBeforeRejection = 0, bf_NoVenue = ''''\<rparr>"

definition some_decision :: "int \<Rightarrow> (string \<times> f64) list \<Rightarrow> targets_decided" where
  "some_decision scale targets = \<lparr>td_CashBuffer = Fin 0, td_QuantityScale = scale, td_AccountID = ''U1'',
     td_StrategyID = TargetWeightStrategyMomentum, td_DecisionTime = 63900000000 * second_ns, td_SessionPeriodEnd = 63900000000 * second_ns,
     td_Outcome = TargetsOutcomeDecided, td_WithheldReason = NoTargetsWithheld, td_Detail = '''',
     td_Targets = map (\<lambda>(i, w). \<lparr>tw_InstrumentID = i, tw_Weight = w, tw_Shares = [\<lparr>ss_Sleeve = MomentumSleeve, ss_Weight = w\<rparr>]\<rparr>) targets,
     td_WithheldPicks = [], td_Boost = noBoost,
     td_Momentum = \<lparr>mo_CloseSession = ''2026-10-30'', mo_TrendInstrument = ''SPY'', mo_TrendCloses = 200, mo_TrendClose = Fin 600,
       mo_TrendMean = Fin 550, mo_RiskOff = False, mo_UniverseRows = 0, mo_UniverseListingType = 0, mo_UniverseAtOrAboveFloor = 0,
       mo_UniverseMembers = 0, mo_Names = [], mo_MinimumLot = noLot\<rparr>,
     td_Glide = \<lparr>gl_RebalanceSession = ''2026-11-02'', gl_AgeMonths = 400, gl_BondShare = Fin 0\<rparr>\<rparr>"

theorem written_reads_back_witness:
  "ValidateWritten (some_decision 10000 [(''A'', Fin (1 / 2))]) = [] \<and>
   TargetsDecided_ValidateSchema (some_decision 10000 [(''A'', Fin (1 / 2))]) 11 = []"
proof -
  have v: "ValidateWritten (some_decision 10000 [(''A'', Fin (1 / 2))]) = []" by code_simp
  have "TargetsDecided_SchemaVersion (some_decision 10000 [(''A'', Fin (1 / 2))]) = 11" by code_simp
  with written_reads_back [OF v] v show ?thesis by (metis (no_types))
qed

end
