(* ===== verification/BoostPlan.thy ===== *)
theory BoostPlan
  imports OrderPlan TargetsDecided
begin

text \<open>
  \<open>PlanBoost\<close> of \<open>orderplan/orderplan.go\<close>: the difference between a Boost decision's target and the holding, as one
  limit order. \<open>Inr None\<close> is the planner reporting that no order is planned.
\<close>

section \<open>The Boost order\<close>

record boost_input =
  bi_Tag :: string
  bi_Decision :: targets_decided
  bi_Snapshot :: account_positions_snapshot
  bi_ReferencePrice :: f64
  bi_PriceBand :: f64
  bi_WorkingSells :: int
  bi_Replan :: bool

definition f_trunc :: "f64 \<Rightarrow> f64" where
  "f_trunc x = (case x of Fin r \<Rightarrow> Fin (of_int (ratTrunc r)) | _ \<Rightarrow> x)"

definition boost_order :: "boost_input \<Rightarrow> target_weight \<Rightarrow> int \<Rightarrow> string \<Rightarrow> int \<Rightarrow> order_planned" where
  "boost_order x target held side quantity =
     \<lparr>op_RoundingSlack = Fin 0, op_FractionalIncrement = '''', op_QuantityScale = 0, op_AccountID = td_AccountID (bi_Decision x), op_Tag = bi_Tag x,
      op_ClientOrderID = ClientOrderID (bi_Tag x) (tw_InstrumentID target) side, op_InstrumentID = tw_InstrumentID target,
      op_Side = side, op_Phase = side, op_OrderType = OrderTypeLimit, op_Quantity = quantity,
      op_LimitPrice = LimitPrice side (bi_ReferencePrice x) (bi_PriceBand x), op_TargetWeight = tw_Weight target,
      op_NetLiquidation = aps_NetLiquidation (bi_Snapshot x), op_HeldQuantity = held, op_ReferencePrice = bi_ReferencePrice x,
      op_PriceBand = bi_PriceBand x, op_Sale = noSale\<rparr>"

definition boost_delta :: "boost_input \<Rightarrow> target_weight \<Rightarrow> int \<Rightarrow> f64" where
  "boost_delta x target held =
     f_trunc (f_sub (f_div (f_mul (tw_Weight target) (aps_NetLiquidation (bi_Snapshot x))) (bi_ReferencePrice x)) (f_of_int held))"

text \<open>\<open>Inr None\<close> is the planner reporting that no order is planned.\<close>

definition PlanBoost :: "boost_input \<Rightarrow> (err list, order_planned option) result" where
  "PlanBoost x =
     (let d = bi_Decision x in
      joinErrs (TargetsDecided_Validate d)
      (joinErrs (AccountSnapshot_Validate (bi_Snapshot x))
      (failIf (bi_Tag x = '''') [''an order must be tagged with the decision it serves'']
      (failIf (td_Outcome d \<noteq> TargetsOutcomeDecided) [''a decision has no targets to plan'']
      (failIf (length (td_Targets d) \<noteq> 1 \<or> tw_InstrumentID (hd (td_Targets d)) \<noteq> bf_InstrumentID (td_Boost d)) [''a Boost decision targets exactly its instrument'']
      (failIf (aps_AccountID (bi_Snapshot x) \<noteq> td_AccountID d) [''snapshot of another account cannot value a decision'']
      (failIf (\<not> f_pos (bi_ReferencePrice x) \<or> \<not> isFinite (bi_ReferencePrice x)) [''the reference price must be finite and positive'']
      (failIf (\<not> (f_pos (bi_PriceBand x) \<and> f_lt (bi_PriceBand x) (Fin 1))) [''the price band must lie strictly between 0 and 1'']
      (failIf (bi_WorkingSells x < 0) [''working sells must not be negative'']
      (let target = hd (td_Targets d); held = AccountSnapshot_Quantity (bi_Snapshot x) (tw_InstrumentID target) in
       failIf (held < 0) [''the planner never plans against a short'']
       (if bf_TargetInForceSet (td_Boost d) \<and> f_eq (bf_TargetInForce (td_Boost d)) (tw_Weight target) \<and> \<not> bi_Replan x then Inr None
        else let delta = boost_delta x target held in
          failIf (f_le (f_of_int max64) (f_abs delta)) [''shares cannot be ordered'']
          (if f_eq delta (Fin 0) then Inr None
           else if f_lt delta (Fin 0) then
             (let quantity = sub64 (neg64 (f_to_int delta)) (bi_WorkingSells x) in
              if quantity \<le> 0 then Inr None else Inr (Some (boost_order x target held OrderSideSell quantity)))
           else Inr (Some (boost_order x target held OrderSideBuy (f_to_int delta)))))))))))))))"
section \<open>The Boost order's size\<close>

lemma PlanBoost_SomeD:
  assumes "PlanBoost x = Inr (Some r)"
  defines "target \<equiv> hd (td_Targets (bi_Decision x))"
  defines "held \<equiv> AccountSnapshot_Quantity (bi_Snapshot x) (tw_InstrumentID target)"
  defines "delta \<equiv> boost_delta x target held"
  shows "0 \<le> held \<and> 0 \<le> bi_WorkingSells x \<and> f_pos (bi_ReferencePrice x) \<and> isFinite (bi_ReferencePrice x) \<and>
    AccountSnapshot_Validate (bi_Snapshot x) = [] \<and> TargetsDecided_Validate (bi_Decision x) = [] \<and> td_Targets (bi_Decision x) = [target] \<and>
    \<not> f_le (f_of_int max64) (f_abs delta) \<and>
    (if f_lt delta (Fin 0)
     then 0 < sub64 (neg64 (f_to_int delta)) (bi_WorkingSells x) \<and>
       r = boost_order x target held OrderSideSell (sub64 (neg64 (f_to_int delta)) (bi_WorkingSells x))
     else delta \<noteq> Fin 0 \<and> r = boost_order x target held OrderSideBuy (f_to_int delta))"
proof -
  have "length (td_Targets (bi_Decision x)) = 1"
    using assms(1) by (simp add: PlanBoost_def Let_def)
  then have one: "td_Targets (bi_Decision x) = [target]"
    unfolding target_def by (cases "td_Targets (bi_Decision x)") auto
  show ?thesis using assms(1) one unfolding PlanBoost_def Let_def target_def [symmetric] held_def [symmetric] delta_def [symmetric]
    by (auto simp: f_eq_def split: if_splits)
qed

lemma f_trunc_ge:
  assumes "- of_int n \<le> r" "0 \<le> n"
  shows "- n \<le> ratTrunc r"
  using assms unfolding ratTrunc_def by (auto, linarith+)

lemma nonneg_minus_held:
  assumes "f_nonneg y" "0 \<le> h" "h \<le> 2 ^ 53"
  shows "f_sub y (Fin (of_int h)) = PInf \<or> (\<exists>b. f_sub y (Fin (of_int h)) = Fin b \<and> - of_int h \<le> b)"
proof (cases y)
  case (Fin a)
  have "is_f64 (Fin (of_int (- h)))" using assms by (intro is_f64_of_int) simp
  then have e: "rndq (- of_int h) = - of_int h" "of_int h < f_huge"
    using rndq_f64 [of "of_int (- h)"] assms(2) by (auto simp: is_f64.simps(1))
  have "- of_int h \<le> rndq (a - of_int h)" using assms(1) Fin e by (intro rndq_ge) auto
  then show ?thesis using Fin e(2) by (auto simp: rnd_def Let_def)
qed (use assms(1) in \<open>auto simp: f_nonneg_def f_sub_def\<close>)

text \<open>A Boost order is for a positive number of shares, and a sell together with
  the sells already working never exceeds the holding it was sized from.\<close>

theorem PlanBoost_within_holding:
  assumes p: "PlanBoost x = Inr (Some r)"
    and h: "op_HeldQuantity r \<le> 2 ^ 53"
    and i64: "in64 (bi_WorkingSells x)"
  shows "0 < op_Quantity r \<and> (op_Side r = OrderSideSell \<longrightarrow> op_Quantity r + bi_WorkingSells x \<le> op_HeldQuantity r)"
proof -
  define target where "target = hd (td_Targets (bi_Decision x))"
  define held where "held = AccountSnapshot_Quantity (bi_Snapshot x) (tw_InstrumentID target)"
  define delta where "delta = boost_delta x target held"
  note d = PlanBoost_SomeD [OF p, folded target_def, folded held_def, folded delta_def]
  have heldr: "op_HeldQuantity r = held" using d by (auto simp: boost_order_def split: if_splits)
  have held: "0 \<le> held" "held \<le> 2 ^ 53" using d h heldr by auto
  let ?des = "f_div (f_mul (tw_Weight target) (aps_NetLiquidation (bi_Snapshot x))) (bi_ReferencePrice x)"
  obtain nl where nl: "aps_NetLiquidation (bi_Snapshot x) = Fin nl" "0 < nl"
  proof -
    have "isFinite (aps_NetLiquidation (bi_Snapshot x))" "\<not> f_le (aps_NetLiquidation (bi_Snapshot x)) (Fin 0)"
      using d by (auto simp: AccountSnapshot_Validate_def split: if_splits)
    then show ?thesis using that by (auto elim!: isFiniteE)
  qed
  obtain rp where rp: "bi_ReferencePrice x = Fin rp" "0 < rp" using d by (auto elim!: isFiniteE)
  have "TargetsDecided_Validate (bi_Decision x) = []" using d by simp
  then have "f_nonneg (tw_Weight target)" using valid_targets [of "bi_Decision x"] d by (simp add: list_all_iff)
  then have "f_nonneg (f_mul (tw_Weight target) (Fin nl))"
    using nl(2) by (cases "tw_Weight target") (auto simp: f_nonneg_def f_inf_def intro: f_le_0_rnd)
  then have des: "f_nonneg ?des" using f_nonneg_div_Fin [OF _ rp(2)] nl rp by simp
  have fh: "f_of_int held = Fin (of_int held)" using held by (intro f_of_int_small) simp
  have delta: "delta = f_trunc (f_sub ?des (Fin (of_int held)))" by (simp add: delta_def boost_delta_def fh)
  have "\<not> f_le (Fin 9223372036854775808) (f_abs delta)" using d f_of_int_max64 by simp
  then have "f_sub ?des (Fin (of_int held)) \<noteq> PInf" unfolding delta by (auto simp: f_trunc_def f_abs_def)
  then obtain b where b: "f_sub ?des (Fin (of_int held)) = Fin b" "- of_int held \<le> b"
    using nonneg_minus_held [OF des held] by auto
  have dd: "delta = Fin (of_int (ratTrunc b))" using b(1) unfolding delta by (simp add: f_trunc_def)
  have ti: "f_to_int delta = ratTrunc b" unfolding dd by simp
  show ?thesis
  proof (cases "f_lt delta (Fin 0)")
    case True
    have lo: "- held \<le> ratTrunc b" using b held by (intro f_trunc_ge) auto
    have neg: "ratTrunc b < 0" using True dd by simp
    have n: "neg64 (ratTrunc b) = - ratTrunc b" using lo neg held by (simp add: neg64_def in64_def min64_def max64_def)
    have "sub64 (- ratTrunc b) (bi_WorkingSells x) = - ratTrunc b - bi_WorkingSells x"
      using lo held neg d i64 by (intro sub64_id) (auto simp: in64_def min64_def max64_def)
    then show ?thesis using d True ti n lo heldr by (auto simp: boost_order_def)
  next
    case False
    then have "0 < ratTrunc b" using d dd by auto
    then show ?thesis using d False ti by (auto simp: boost_order_def)
  qed
qed

text \<open>A Boost exit to 98 percent of 100,000 at a close of 100, holding 1,200 shares with 20 already being sold.\<close>

definition boost_figures_example :: boost_figures where
  "boost_figures_example = noBoost\<lparr>bf_InstrumentID := ''SPY'', bf_Close := Fin 100, bf_TargetInForce := f_lit (147/100), bf_TargetInForceSet := True\<rparr>"

definition noMomentum :: momentum_figures where
  "noMomentum = \<lparr>mo_CloseSession = '''', mo_TrendInstrument = '''', mo_TrendCloses = 0, mo_TrendClose = Fin 0,
     mo_TrendMean = Fin 0, mo_RiskOff = False, mo_UniverseRows = 0, mo_UniverseListingType = 0, mo_UniverseAtOrAboveFloor = 0,
     mo_UniverseMembers = 0, mo_Names = [], mo_MinimumLot = noLot\<rparr>"

definition boost_target_example :: target_weight where
  "boost_target_example = \<lparr>tw_InstrumentID = ''SPY'', tw_Weight = f_lit (49/50), tw_Shares = []\<rparr>"

definition boost_decision_example :: targets_decided where
  "boost_decision_example = \<lparr>td_CashBuffer = Fin 0, td_QuantityScale = 0, td_AccountID = ''U1'', td_StrategyID = TargetWeightStrategyBoost,
     td_DecisionTime = 63900000000 * second_ns, td_SessionPeriodEnd = 63900000000 * second_ns, td_Outcome = TargetsOutcomeDecided,
     td_WithheldReason = NoTargetsWithheld, td_Detail = '''', td_Targets = [boost_target_example], td_WithheldPicks = [],
     td_Boost = boost_figures_example, td_Momentum = noMomentum, td_Glide = noGlide\<rparr>"

definition boost_example :: boost_input where
  "boost_example = \<lparr>bi_Tag = ''d1'', bi_Decision = boost_decision_example,
     bi_Snapshot = \<lparr>aps_QuantityScale = 0, aps_AccountID = ''U1'', aps_AsOf = 63900000000 * second_ns, aps_NetLiquidation = Fin 100000,
       aps_Currency = ''USD'', aps_Positions = [\<lparr>ap_InstrumentID = ''SPY'', ap_Quantity = 1200\<rparr>]\<rparr>,
     bi_ReferencePrice = Fin 100, bi_PriceBand = f_lit (1/50), bi_WorkingSells = 20, bi_Replan = False\<rparr>"

lemma boost_example_plans:
  "PlanBoost boost_example = Inr (Some (boost_order boost_example boost_target_example 1200 OrderSideSell 200))"
proof -
  have c: "TargetsDecided_Validate boost_decision_example = []" by code_simp
  have v: "AccountSnapshot_Validate (bi_Snapshot boost_example) = []" by code_simp
  have b: "f_pos (f_lit (1/50))" "f_lt (f_lit (1/50)) (Fin 1)" by code_simp+
  have e: "\<not> f_eq (f_lit (147/100)) (f_lit (49/50))" by code_simp
  have dl: "boost_delta boost_example boost_target_example 1200 = Fin (- 220)" by code_simp
  have z: "sub64 (neg64 (- 220)) 20 = 200" by code_simp
  have d: "bi_Decision boost_example = boost_decision_example" "td_Targets boost_decision_example = [boost_target_example]"
    "td_Outcome boost_decision_example = TargetsOutcomeDecided" "td_AccountID boost_decision_example = ''U1''"
    "td_Boost boost_decision_example = boost_figures_example" "tw_InstrumentID boost_target_example = ''SPY''"
    "tw_Weight boost_target_example = f_lit (49/50)" "bf_InstrumentID boost_figures_example = ''SPY''"
    "bf_TargetInForceSet boost_figures_example" "bf_TargetInForce boost_figures_example = f_lit (147/100)"
    by (simp_all add: boost_example_def boost_decision_example_def boost_target_example_def boost_figures_example_def)
  have f: "bi_Tag boost_example = ''d1''" "aps_AccountID (bi_Snapshot boost_example) = ''U1''" "bi_ReferencePrice boost_example = Fin 100"
    "bi_PriceBand boost_example = f_lit (1/50)" "bi_WorkingSells boost_example = 20" "\<not> bi_Replan boost_example"
    "AccountSnapshot_Quantity (bi_Snapshot boost_example) ''SPY'' = 1200"
    by (simp_all add: boost_example_def AccountSnapshot_Quantity_def)
  show ?thesis unfolding PlanBoost_def Let_def by (simp add: c v d f b e z dl f_of_int_max64)
qed

theorem PlanBoost_within_holding_witness:
  "op_Side (boost_order boost_example boost_target_example 1200 OrderSideSell 200) = OrderSideSell \<and>
   (200::int) + bi_WorkingSells boost_example \<le> 1200"
  using PlanBoost_within_holding [OF boost_example_plans]
  by (simp add: boost_order_def boost_example_def in64_def min64_def max64_def)

end
