(* ===== verification/IraPlan.thy ===== *)
theory IraPlan
  imports BoostPlan "HOL-Library.Multiset"
begin

text \<open>
  The IRA's monthly rebalance (\<open>orderplan/ira.go\<close>): the trades that move the holdings to a decision's targets, whole
  shares (D7-L) or exact ticks (D7-F), the record of each trade that cannot be ordered
  (\<open>event/target_weight_skipped.go\<close>), the scaling of the buys to the cash there is, and the budget the buy phase spends
  from. A Go map assigned in a loop is an association list, the last assignment first. Quantities that stay exact in
  Go (\<open>big.Rat\<close>) are rationals.
\<close>

section \<open>Skipped trades\<close>

datatype (plugins only: code size) skip_reason =
  OrderSkippedBelowOneShare | OrderSkippedScaledBelowOneShare | OrderSkippedHeldByWorkingSells
| OrderSkippedBelowIncrement | OrderSkippedScaledBelowIncrement | OtherSkip string

record order_skipped =
  sk_QuantityScale :: int
  sk_RequestedValue :: string
  sk_FractionalIncrement :: string
  sk_AccountID :: string
  sk_Tag :: string
  sk_ClientOrderID :: string
  sk_InstrumentID :: string
  sk_Side :: string
  sk_Phase :: string
  sk_Reason :: skip_reason
  sk_Shares :: f64
  sk_Scale :: f64
  sk_TargetWeight :: f64
  sk_NetLiquidation :: f64
  sk_HeldQuantity :: int
  sk_ReferencePrice :: f64

fun plainChars :: "nat \<Rightarrow> nat \<Rightarrow> string \<Rightarrow> bool" where
  "plainChars digits points [] \<longleftrightarrow> 0 < digits \<and> points \<le> 1"
| "plainChars digits points (c # cs) \<longleftrightarrow>
     (if isDigit c then plainChars (digits + 1) points cs
      else if c = CHR ''.'' then plainChars digits (points + 1) cs
      else False)"

definition plainDecimal :: "string \<Rightarrow> bool" where
  "plainDecimal value = plainChars 0 0 (case value of CHR ''-'' # cs \<Rightarrow> cs | _ \<Rightarrow> value)"

text \<open>\<open>SetString\<close> of a plain decimal is negative when its sign is a minus and a digit of it is not zero.\<close>

definition negativeDecimal :: "string \<Rightarrow> bool" where
  "negativeDecimal value = (case value of CHR ''-'' # cs \<Rightarrow> list_ex (\<lambda>c. isDigit c \<and> c \<noteq> CHR ''0'') cs | _ \<Rightarrow> False)"

definition skipUnitErrs :: "order_skipped \<Rightarrow> err list" where
  "skipUnitErrs p =
     (if sk_QuantityScale p \<noteq> 0 then
        (if isl (FractionalIncrementTicks (sk_FractionalIncrement p)) then [''fractional increment is not valid'']
         else if \<not> plainDecimal (sk_RequestedValue p) \<or> negativeDecimal (sk_RequestedValue p) then [''requested value must be a nonnegative decimal'']
         else errIf (f_ne (sk_Shares p) (Fin 0)) ''fractional skip records requested value'')
      else errIf (sk_RequestedValue p \<noteq> '''' \<or> sk_FractionalIncrement p \<noteq> '''' \<or> sk_Reason p = OrderSkippedBelowIncrement \<or>
             sk_Reason p = OrderSkippedScaledBelowIncrement) ''fractional skip fields require fractional quantity scale'')"

definition skipReasonErrs :: "order_skipped \<Rightarrow> err list" where
  "skipReasonErrs p =
     (if sk_Reason p \<in> {OrderSkippedBelowOneShare, OrderSkippedBelowIncrement, OrderSkippedHeldByWorkingSells}
      then errIf (f_ne (sk_Scale p) (Fin 0)) ''only a scaled buy carries a scale''
      else if sk_Reason p \<in> {OrderSkippedScaledBelowOneShare, OrderSkippedScaledBelowIncrement}
      then errIf (sk_Side p \<noteq> OrderSideBuy \<or> \<not> (f_le (Fin 0) (sk_Scale p) \<and> f_lt (sk_Scale p) (Fin 1))) ''a scaled skip is a buy with a scale in [0, 1)''
      else [''skip reason is not recognised''])"

definition OrderSkipped_Validate :: "order_skipped \<Rightarrow> err list" where
  "OrderSkipped_Validate p =
     (if quantityScaleError (sk_QuantityScale p) \<noteq> [] then [''quantity scale is not recognised'']
      else if skipUnitErrs p \<noteq> [] then skipUnitErrs p
      else orderIdentity (sk_AccountID p) (sk_ClientOrderID p) (sk_InstrumentID p) (sk_Side p) 1 (Fin 1)
        @ errIf (sk_Tag p = '''') ''tag is required''
        @ errIf (sk_Phase p \<noteq> sk_Side p) ''phase is not the side''
        @ skipReasonErrs p
        @ errIf (\<not> isFinite (sk_Shares p) \<or> f_lt (sk_Shares p) (Fin 0) \<or>
                 (sk_Reason p \<noteq> OrderSkippedHeldByWorkingSells \<and> f_le (Fin 1) (sk_Shares p))) ''shares must be finite, not negative, and below one share''
        @ errIf (\<not> isFinite (sk_TargetWeight p) \<or> f_lt (sk_TargetWeight p) (Fin 0)) ''target weight must be finite and not negative''
        @ errIf (\<not> isFinite (sk_NetLiquidation p) \<or> f_le (sk_NetLiquidation p) (Fin 0) \<or> \<not> isFinite (sk_ReferencePrice p) \<or>
                 f_le (sk_ReferencePrice p) (Fin 0)) ''net liquidation and reference price must be finite and positive''
        @ errIf (sk_HeldQuantity p < 0) ''held quantity must not be negative'')"

definition OrderSkipped_SchemaVersion :: "order_skipped \<Rightarrow> int" where
  "OrderSkipped_SchemaVersion p = (if sk_QuantityScale p \<noteq> 0 then 2 else 1)"

definition OrderSkipped_ValidateSchema :: "order_skipped \<Rightarrow> int \<Rightarrow> err list" where
  "OrderSkipped_ValidateSchema p v =
     (if v < 1 \<or> v > 2 then [''unsupported skip version'']
      else if quantitySchema (sk_QuantityScale p) v 2 \<noteq> [] then [''quantity scale and schema version disagree'']
      else OrderSkipped_Validate p)"

section \<open>Exact ticks\<close>

definition floorIncrement :: "rat \<Rightarrow> int \<Rightarrow> int \<times> bool" where
  "floorIncrement ticks increment = (let n = ratTrunc (ticks / of_int increment) * increment in (wrap64 n, in64 n))"

text \<open>A finite decimal: as many places as the denominator has twos or fives, without trailing zeros.\<close>

function factorCount :: "int \<Rightarrow> int \<Rightarrow> nat" where
  "factorCount f d = (if f \<le> 1 \<or> d \<le> 0 \<or> d mod f \<noteq> 0 then 0 else factorCount f (d div f) + 1)"
  by pat_completeness auto
termination
proof (relation "measure (\<lambda>(f, d). nat d)")
  fix f d :: int
  assume "\<not> (f \<le> 1 \<or> d \<le> 0 \<or> d mod f \<noteq> 0)"
  then have "d div f < d" by (intro int_div_less_self) auto
  then show "((f, d div f), f, d) \<in> measure (\<lambda>(f, d). nat d)" using \<open>\<not> _\<close> by auto
qed simp

declare factorCount.simps [simp del]

definition floatString :: "nat \<Rightarrow> rat \<Rightarrow> string" where
  "floatString prec r = (let n = nat \<lfloor>\<bar>r\<bar> * 10 ^ prec + 1/2\<rfloor>; w = fmtNat (n div 10 ^ prec); p = fmtNat (n mod 10 ^ prec) in
     (if r < 0 then ''-'' else '''') @ w @ (if prec = 0 then '''' else ''.'' @ replicate (prec - length p) CHR ''0'' @ p))"

definition finiteDecimal :: "rat \<Rightarrow> string" where
  "finiteDecimal value = (let d = snd (quotient_of value);
     text = floatString (max (factorCount 2 d) (factorCount 5 (d div 2 ^ factorCount 2 d))) value in
     if CHR ''.'' \<in> set text then trimRight CHR ''.'' (trimRight CHR ''0'' text) else text)"

definition fractionalSkip :: "order_planned \<Rightarrow> skip_reason \<Rightarrow> rat \<Rightarrow> f64 \<Rightarrow> order_skipped" where
  "fractionalSkip p reason requested scale =
     \<lparr>sk_QuantityScale = op_QuantityScale p, sk_RequestedValue = finiteDecimal requested, sk_FractionalIncrement = op_FractionalIncrement p,
      sk_AccountID = op_AccountID p, sk_Tag = op_Tag p, sk_ClientOrderID = op_ClientOrderID p, sk_InstrumentID = op_InstrumentID p,
      sk_Side = op_Side p, sk_Phase = op_Phase p, sk_Reason = reason, sk_Shares = Fin 0, sk_Scale = scale, sk_TargetWeight = op_TargetWeight p,
      sk_NetLiquidation = op_NetLiquidation p, sk_HeldQuantity = op_HeldQuantity p, sk_ReferencePrice = op_ReferencePrice p\<rparr>"

section \<open>The rebalance\<close>

record ira_input =
  ii_Tag :: string
  ii_Decision :: targets_decided
  ii_Snapshot :: account_positions_snapshot
  ii_ReferencePrices :: "(string, f64) gomap"
  ii_PriceBand :: f64
  ii_RebalanceBand :: f64
  ii_WorkingSells :: "(string, int) gomap"
  ii_QuantityScale :: int
  ii_FractionalIncrement :: string

record ira_plan =
  ip_Sells :: "order_planned list"
  ip_Buys :: "order_planned list"
  ip_Skipped :: "order_skipped list"

datatype (plugins only: code size) ira_trade = IraOrder order_planned | IraSkip order_skipped

definition iraHeld :: "ira_input \<Rightarrow> string \<Rightarrow> int" where
  "iraHeld x i = AccountSnapshot_Quantity (ii_Snapshot x) i"

definition iraTarget :: "ira_input \<Rightarrow> string \<Rightarrow> f64" where
  "iraTarget x i = mget (rev (map (\<lambda>t. (tw_InstrumentID t, tw_Weight t)) (td_Targets (ii_Decision x)))) i (Fin 0)"

definition iraPrice :: "ira_input \<Rightarrow> string \<Rightarrow> f64" where
  "iraPrice x i = mget (ii_ReferencePrices x) i (Fin 0)"

definition iraWorking :: "ira_input \<Rightarrow> string \<Rightarrow> int" where
  "iraWorking x i = mget (ii_WorkingSells x) i 0"

definition iraValue :: "ira_input \<Rightarrow> f64" where
  "iraValue x = aps_NetLiquidation (ii_Snapshot x)"

definition iraUnion :: "ira_input \<Rightarrow> string list" where
  "iraUnion x = (let ts = map tw_InstrumentID (td_Targets (ii_Decision x)) in
     sort (ts @ filter (\<lambda>i. i \<notin> set ts) (map ap_InstrumentID (aps_Positions (ii_Snapshot x)))))"

definition keptNames :: "ira_input \<Rightarrow> string set" where
  "keptNames x = set (map mn_InstrumentID (filter (\<lambda>n. mn_Status n = MomentumStatusHeldOneLotShort) (mo_Names (td_Momentum (ii_Decision x)))))"

definition iraOrder :: "ira_input \<Rightarrow> string \<Rightarrow> string \<Rightarrow> int \<Rightarrow> order_planned" where
  "iraOrder x i side quantity =
     \<lparr>op_RoundingSlack = Fin 0, op_FractionalIncrement = ii_FractionalIncrement x, op_QuantityScale = ii_QuantityScale x,
      op_AccountID = td_AccountID (ii_Decision x), op_Tag = ii_Tag x, op_ClientOrderID = ClientOrderID (ii_Tag x) i side, op_InstrumentID = i,
      op_Side = side, op_Phase = side, op_OrderType = OrderTypeLimit, op_Quantity = quantity,
      op_LimitPrice = LimitPrice side (iraPrice x i) (ii_PriceBand x), op_TargetWeight = iraTarget x i,
      op_NetLiquidation = iraValue x, op_HeldQuantity = iraHeld x i, op_ReferencePrice = iraPrice x i,
      op_PriceBand = ii_PriceBand x, op_Sale = noSale\<rparr>"

text \<open>Inside the band a held target is left alone.\<close>

definition withinBand :: "ira_input \<Rightarrow> string \<Rightarrow> f64 \<Rightarrow> bool" where
  "withinBand x i value = (\<not> f_lt (f_mul (ii_RebalanceBand x) (iraTarget x i)) (f_abs (f_sub (f_div value (iraValue x)) (iraTarget x i))))"

definition priceMissing :: "ira_input \<Rightarrow> string \<Rightarrow> bool" where
  "priceMissing x i \<longleftrightarrow> \<not> f_pos (iraPrice x i) \<or> iraPrice x i = PInf"

text \<open>The whole-share trade (D7-L): \<open>None\<close> where the code goes on to the next instrument.\<close>

definition wholeShares :: "ira_input \<Rightarrow> string \<Rightarrow> f64" where
  "wholeShares x i = (let price = iraPrice x i; held = iraHeld x i; target = iraTarget x i in
     if f_eq target (Fin 0) then f_neg (f_of_int held)
     else if held = 0 then f_div (f_mul target (iraValue x)) price
     else f_div (f_sub (f_mul target (iraValue x)) (f_mul (f_of_int held) price)) price)"

definition wholeSkip :: "ira_input \<Rightarrow> string \<Rightarrow> string \<Rightarrow> skip_reason \<Rightarrow> f64 \<Rightarrow> order_skipped" where
  "wholeSkip x i side reason shares =
     \<lparr>sk_QuantityScale = 0, sk_RequestedValue = '''', sk_FractionalIncrement = '''', sk_AccountID = td_AccountID (ii_Decision x),
      sk_Tag = ii_Tag x, sk_ClientOrderID = ClientOrderID (ii_Tag x) i side, sk_InstrumentID = i, sk_Side = side, sk_Phase = side,
      sk_Reason = reason, sk_Shares = shares, sk_Scale = Fin 0, sk_TargetWeight = iraTarget x i, sk_NetLiquidation = iraValue x,
      sk_HeldQuantity = iraHeld x i, sk_ReferencePrice = iraPrice x i\<rparr>"

definition wholeTrade :: "ira_input \<Rightarrow> string \<Rightarrow> (err list, ira_trade option) result" where
  "wholeTrade x i = (let price = iraPrice x i; held = iraHeld x i; target = iraTarget x i in
     if i \<in> keptNames x then Inr None
     else failIf (priceMissing x i) [''an instrument has no finite, positive reference price'']
     (if f_eq target (Fin 0) \<and> held = 0 then Inr None
      else if \<not> f_eq target (Fin 0) \<and> held \<noteq> 0 \<and> withinBand x i (f_mul (f_of_int held) price) then Inr None
      else let shares = wholeShares x i; delta = f_trunc shares in
        failIf (f_le (f_of_int max64) (f_abs delta)) [''shares cannot be ordered'']
        (let sell = f_lt shares (Fin 0); side = (if sell then OrderSideSell else OrderSideBuy);
             quantity = (if sell then min (neg64 (f_to_int delta)) (sub64 held (iraWorking x i)) else f_to_int delta) in
         Inr (Some (if quantity \<le> 0
           then IraSkip (wholeSkip x i side (if sell \<and> f_ne delta (Fin 0) then OrderSkippedHeldByWorkingSells else OrderSkippedBelowOneShare) (f_abs shares))
           else IraOrder (iraOrder x i side quantity))))))"

text \<open>The fractional trade (D7-F): the money the rule asks for is exact, and only whole increments are ordered.\<close>

definition requestedValue :: "ira_input \<Rightarrow> string \<Rightarrow> rat" where
  "requestedValue x i = decimalMoney (iraTarget x i) * decimalMoney (iraValue x)
     - of_int (iraHeld x i) / of_int (ii_QuantityScale x) * decimalMoney (iraPrice x i)"

definition fractionalTrade :: "ira_input \<Rightarrow> int \<Rightarrow> string \<Rightarrow> (err list, ira_trade option) result" where
  "fractionalTrade x increment i = (let price = iraPrice x i; held = iraHeld x i; target = iraTarget x i; working = iraWorking x i in
     failIf (working < 0) [''working sells must not be negative'']
     (failIf (priceMissing x i) [''an instrument has no finite, positive reference price'']
     (if f_eq target (Fin 0) \<and> held = 0 then Inr None
      else if f_lt (Fin 0) target \<and> held > 0 \<and> withinBand x i (QuantityValue held (ii_QuantityScale x) price) then Inr None
      else let value = requestedValue x i; sell = value < 0; side = (if sell then OrderSideSell else OrderSideBuy);
           ticks = \<bar>value\<bar> / decimalMoney price * of_int (ii_QuantityScale x); (quantity, ok) = floorIncrement ticks increment in
        failIf (\<not> ok) [''quantity cannot be ordered'']
        (let available = max (sub64 held working) 0;
             reason = (if sell \<and> quantity > 0 \<and> available < increment \<and> working > 0 then OrderSkippedHeldByWorkingSells else OrderSkippedBelowIncrement);
             quantity = (if sell then min quantity (available div increment * increment) else quantity);
             ord = iraOrder x i side quantity in
         Inr (Some (if quantity = 0 then IraSkip (fractionalSkip ord reason \<bar>value\<bar> (Fin 0)) else IraOrder ord))))))"

fun planTrades :: "(string \<Rightarrow> (err list, ira_trade option) result) \<Rightarrow> string list \<Rightarrow> (err list, ira_trade list) result" where
  "planTrades trade [] = Inr []"
| "planTrades trade (i # is) = bindr (trade i) (\<lambda>t. bindr (planTrades trade is) (\<lambda>ts.
     Inr (case t of None \<Rightarrow> ts | Some a \<Rightarrow> a # ts)))"

definition asPlan :: "ira_trade list \<Rightarrow> ira_plan" where
  "asPlan ts = (let orders = concat (map (\<lambda>t. case t of IraOrder p \<Rightarrow> [p] | IraSkip _ \<Rightarrow> []) ts) in
     \<lparr>ip_Sells = filter (\<lambda>p. op_Side p = OrderSideSell) orders, ip_Buys = filter (\<lambda>p. op_Side p \<noteq> OrderSideSell) orders,
      ip_Skipped = concat (map (\<lambda>t. case t of IraSkip s \<Rightarrow> [s] | IraOrder _ \<Rightarrow> []) ts)\<rparr>)"

definition planFractionalIRA :: "ira_input \<Rightarrow> (err list, ira_plan) result" where
  "planFractionalIRA x =
     (let x = x\<lparr>ii_FractionalIncrement := (if ii_FractionalIncrement x = '''' then ''0.0001'' else ii_FractionalIncrement x)\<rparr> in
      case FractionalIncrementTicks (ii_FractionalIncrement x) of Inl _ \<Rightarrow> Inl [''fractional increment is not valid'']
      | Inr increment \<Rightarrow> bindr (planTrades (fractionalTrade x increment) (iraUnion x)) (\<lambda>ts. Inr (asPlan ts)))"

definition bandOK :: "f64 \<Rightarrow> bool" where
  "bandOK b \<longleftrightarrow> f_lt (Fin 0) b \<and> f_lt b (Fin 1)"

definition PlanIRA :: "ira_input \<Rightarrow> (err list, ira_plan) result" where
  "PlanIRA x = (let d = ii_Decision x; s = ii_Snapshot x in
     joinErrs (TargetsDecided_Validate d)
     (joinErrs (AccountSnapshot_Validate s)
     (failIf (ii_Tag x = '''') [''an order must be tagged with the decision it serves'']
     (failIf (td_StrategyID d \<noteq> TargetWeightStrategyMomentum \<or> td_Outcome d \<noteq> TargetsOutcomeDecided) [''the decision is not a momentum rebalance'']
     (failIf (aps_AccountID s \<noteq> td_AccountID d) [''snapshot of another account cannot value a decision'']
     (failIf (\<not> bandOK (ii_PriceBand x) \<or> \<not> bandOK (ii_RebalanceBand x)) [''the bands must lie strictly between 0 and 1'']
     (failIf (ii_QuantityScale x \<noteq> 0 \<and> ii_QuantityScale x \<noteq> FractionalQuantityScale) [''unsupported quantity scale'']
     (failIf (td_QuantityScale d \<noteq> ii_QuantityScale x) [''decision and planner quantity scales differ'']
     (failIf (aps_QuantityScale s \<noteq> ii_QuantityScale x) [''snapshot and planner quantity scales differ'']
     (failIf (ii_QuantityScale x = 0 \<and> ii_FractionalIncrement x \<noteq> '''') [''whole shares carry no fractional increment'']
     (failIf (\<exists>i \<in> keptNames x. iraHeld x i < 1) [''a kept name is not held'']
     (failIf (list_ex (\<lambda>p. ap_Quantity p < 0) (aps_Positions s)) [''the planner never plans against a short'']
     (if ii_QuantityScale x \<noteq> 0 then planFractionalIRA x
      else bindr (planTrades (wholeTrade x) (iraUnion x)) (\<lambda>ts. Inr (asPlan ts)))))))))))))))"

section \<open>Fitting the buys to the cash\<close>

text \<open>\<open>BuyCost\<close> of an order: an invalid cost is infinite, so that it never fits.\<close>

definition OrderBuyCost :: "order_planned \<Rightarrow> f64 \<Rightarrow> f64" where
  "OrderBuyCost p maxFees = (case BuyReservation (op_Quantity p) (op_QuantityScale p) (op_LimitPrice p) maxFees (op_RoundingSlack p) of
     Inl _ \<Rightarrow> PInf | Inr cost \<Rightarrow> rnd cost)"

definition CashBuffer :: "f64 \<Rightarrow> f64 \<Rightarrow> f64" where
  "CashBuffer netLiquidation fraction = f_mul fraction netLiquidation"

fun scaled :: "order_planned list \<Rightarrow> f64 \<Rightarrow> order_planned list" where
  "scaled [] scale = []"
| "scaled (b # bs) scale = (let q = f_to_int (f_floor (f_mul (f_of_int (op_Quantity b)) scale)) in
     (if q > 0 then [b\<lparr>op_Quantity := q\<rparr>] else []) @ scaled bs scale)"

definition totalCost :: "order_planned list \<Rightarrow> f64 \<Rightarrow> f64" where
  "totalCost bs maxFees = foldl f_add (Fin 0) (map (\<lambda>b. OrderBuyCost b maxFees) bs)"

definition atLimitValue :: "order_planned list \<Rightarrow> f64" where
  "atLimitValue bs = foldl f_add (Fin 0) (map (\<lambda>b. QuantityValue (op_Quantity b) (op_QuantityScale b) (op_LimitPrice b)) bs)"

definition scaledSkip :: "order_planned \<Rightarrow> f64 \<Rightarrow> order_skipped" where
  "scaledSkip b scale =
     \<lparr>sk_QuantityScale = 0, sk_RequestedValue = '''', sk_FractionalIncrement = '''', sk_AccountID = op_AccountID b, sk_Tag = op_Tag b,
      sk_ClientOrderID = op_ClientOrderID b, sk_InstrumentID = op_InstrumentID b, sk_Side = op_Side b, sk_Phase = op_Phase b,
      sk_Reason = OrderSkippedScaledBelowOneShare, sk_Shares = f_mul (f_of_int (op_Quantity b)) scale, sk_Scale = scale,
      sk_TargetWeight = op_TargetWeight b, sk_NetLiquidation = op_NetLiquidation b, sk_HeldQuantity = op_HeldQuantity b,
      sk_ReferencePrice = op_ReferencePrice b\<rparr>"

definition scaleWholeBuys :: "order_planned list \<Rightarrow> f64 \<Rightarrow> f64 \<Rightarrow> order_planned list \<times> order_skipped list \<times> f64" where
  "scaleWholeBuys buys budget maxFees =
     (let total = totalCost buys maxFees in
      if f_le total budget then (buys, [], Fin 1)
      else let first = f_max (f_div budget total) (Fin 0);
           fees = f_mul (f_of_int (int (length buys))) maxFees;
           scale = (if f_lt budget (totalCost (scaled buys first) maxFees)
             then f_max (f_div (f_sub budget fees) (atLimitValue buys)) (Fin 0) else first) in
        (scaled buys scale,
         map (\<lambda>b. scaledSkip b scale) (filter (\<lambda>b. f_lt (f_floor (f_mul (f_of_int (op_Quantity b)) scale)) (Fin 1)) buys), scale))"

text \<open>A fractional basket: each order with its increment, the basket at a ratio, and what it costs exactly and in floats.\<close>

fun ordersAtScale :: "(order_planned \<times> int) list \<Rightarrow> rat \<Rightarrow> order_planned list" where
  "ordersAtScale [] ratio = []"
| "ordersAtScale ((b, increment) # bs) ratio = (let q = fst (floorIncrement (of_int (op_Quantity b) * ratio) increment) in
     (if q > 0 then [b\<lparr>op_Quantity := q\<rparr>] else []) @ ordersAtScale bs ratio)"

fun exactCost :: "order_planned list \<Rightarrow> f64 \<Rightarrow> rat option" where
  "exactCost [] maxFees = Some 0"
| "exactCost (b # bs) maxFees =
     (case BuyReservation (op_Quantity b) (op_QuantityScale b) (op_LimitPrice b) maxFees (op_RoundingSlack b) of
        Inl _ \<Rightarrow> None | Inr c \<Rightarrow> (case exactCost bs maxFees of None \<Rightarrow> None | Some t \<Rightarrow> Some (c + t)))"

definition fractionalOrdersAtScale :: "(order_planned \<times> int) list \<Rightarrow> rat \<Rightarrow> f64 \<Rightarrow> (order_planned list \<times> rat \<times> f64) option" where
  "fractionalOrdersAtScale buys ratio maxFees = (let kept = ordersAtScale buys ratio in
     case exactCost kept maxFees of None \<Rightarrow> None | Some c \<Rightarrow> Some (kept, c, totalCost kept maxFees))"

text \<open>The gate takes each released buy's cost from the cash, in order: the same deductions, before anything is sent.\<close>

fun fractionalRunningCashFits :: "order_planned list \<Rightarrow> f64 \<Rightarrow> f64 \<Rightarrow> bool" where
  "fractionalRunningCashFits [] cash fees = True"
| "fractionalRunningCashFits (b # bs) cash fees =
     (if f_lt cash (OrderBuyCost b fees) then False
      else fractionalRunningCashFits bs (f_sub cash (OrderBuyCost b fees)) fees)"

definition basketFits :: "order_planned list \<times> rat \<times> f64 \<Rightarrow> rat \<Rightarrow> f64 \<Rightarrow> f64 \<Rightarrow> bool" where
  "basketFits c cash budget maxFees = (case c of (kept, exact, monetary) \<Rightarrow>
     exact \<le> cash \<and> f_le monetary budget \<and> fractionalRunningCashFits kept budget maxFees)"

text \<open>The bisection between a ratio that fits and one that does not.\<close>

fun bisectScale :: "nat \<Rightarrow> (order_planned \<times> int) list \<Rightarrow> rat \<Rightarrow> f64 \<Rightarrow> f64 \<Rightarrow> rat \<Rightarrow> rat \<Rightarrow> order_planned list \<Rightarrow> (order_planned list \<times> rat) option" where
  "bisectScale 0 buys cash budget maxFees low high kept = Some (kept, low)"
| "bisectScale (Suc n) buys cash budget maxFees low high kept = (let mid = (low + high) / 2 in
     case fractionalOrdersAtScale buys mid maxFees of None \<Rightarrow> None
     | Some c \<Rightarrow> if basketFits c cash budget maxFees then bisectScale n buys cash budget maxFees mid high (fst c)
         else bisectScale n buys cash budget maxFees low mid kept)"

definition fractionalFeeScale :: "rat \<Rightarrow> rat \<Rightarrow> rat \<Rightarrow> rat" where
  "fractionalFeeScale cash fees atLimit = min 1 (max 0 (cash - fees) / atLimit)"

definition fractionalOrderValue :: "order_planned \<Rightarrow> rat" where
  "fractionalOrderValue p = of_int (op_Quantity p) / of_int (op_QuantityScale p) * decimalMoney (op_LimitPrice p)"

text \<open>A buy the scaling accepts: its increment, and what it costs at its limit.\<close>

definition scalableBuy :: "f64 \<Rightarrow> order_planned \<Rightarrow> (int \<times> rat) option" where
  "scalableBuy maxFees b = (case FractionalIncrementTicks (op_FractionalIncrement b) of Inl _ \<Rightarrow> None
     | Inr increment \<Rightarrow>
        if op_QuantityScale b \<noteq> FractionalQuantityScale \<or> op_Quantity b \<le> 0 \<or> \<not> f_lt (Fin 0) (op_LimitPrice b) \<or> op_LimitPrice b = PInf \<or>
           op_Quantity b mod increment \<noteq> 0 then None
        else if f_ne (op_RoundingSlack b) (Fin 0) \<and> \<not> ValidRoundingSlack (op_RoundingSlack b) then None
        else case BuyReservation (op_Quantity b) (op_QuantityScale b) (op_LimitPrice b) maxFees (op_RoundingSlack b) of
          Inl _ \<Rightarrow> None | Inr cost \<Rightarrow> Some (increment, cost - decimalMoney maxFees - decimalMoney (op_RoundingSlack b)))"

fun scalableBuys :: "f64 \<Rightarrow> order_planned list \<Rightarrow> ((order_planned \<times> int) list \<times> rat) option" where
  "scalableBuys maxFees [] = Some ([], 0)"
| "scalableBuys maxFees (b # bs) = (case scalableBuy maxFees b of None \<Rightarrow> None
     | Some (increment, cost) \<Rightarrow> (case scalableBuys maxFees bs of None \<Rightarrow> None
         | Some (rest, atLimit) \<Rightarrow> Some ((b, increment) # rest, cost + atLimit)))"

text \<open>The ratio of the budget to the total, the correction for the fees, then the search; the ratio it settles on.\<close>

definition searchScale :: "(order_planned \<times> int) list \<Rightarrow> rat \<Rightarrow> rat \<Rightarrow> rat \<Rightarrow> f64 \<Rightarrow> f64 \<Rightarrow> (order_planned list \<times> rat) option" where
  "searchScale buys atLimit slack cash budget maxFees =
     (let fees = of_int (int (length buys)) * decimalMoney maxFees; total = atLimit + fees;
          sizingCash = max 0 (cash - slack); ratio = min 1 (sizingCash / total) in
      case fractionalOrdersAtScale buys ratio maxFees of None \<Rightarrow> None
      | Some c \<Rightarrow>
        (let ratio' = (if fst (snd c) > cash then fractionalFeeScale sizingCash fees atLimit else ratio) in
         case (if fst (snd c) > cash then fractionalOrdersAtScale buys ratio' maxFees else Some c) of None \<Rightarrow> None
         | Some c' \<Rightarrow> if basketFits c' cash budget maxFees then Some (fst c', ratio')
             else bisectScale 128 buys cash budget maxFees 0 ratio' []))"

definition scaleFloat :: "rat \<Rightarrow> f64" where
  "scaleFloat ratio = (if ratio < 1 \<and> rnd ratio = Fin 1 then Fin (1 - 1 / 2 ^ 53) else rnd ratio)"

definition scaleFractionalBuys :: "order_planned list \<Rightarrow> f64 \<Rightarrow> f64 \<Rightarrow> order_planned list \<times> order_skipped list \<times> f64" where
  "scaleFractionalBuys buys budget maxFees =
     (if \<not> isFinite budget \<or> \<not> isFinite maxFees \<or> f_lt maxFees (Fin 0) then ([], [], Fin 0)
      else case scalableBuys maxFees buys of None \<Rightarrow> ([], [], Fin 0)
      | Some (bs, atLimit) \<Rightarrow>
        (case searchScale bs atLimit (sum_list (map (\<lambda>b. decimalMoney (op_RoundingSlack b)) buys)) (decimalMoney (f_max budget (Fin 0))) budget maxFees of
           None \<Rightarrow> ([], [], Fin 0)
         | Some (kept, ratio) \<Rightarrow> (kept,
             map (\<lambda>(b, _). fractionalSkip b OrderSkippedScaledBelowIncrement (fractionalOrderValue b) (scaleFloat ratio))
               (filter (\<lambda>(b, increment). fst (floorIncrement (of_int (op_Quantity b) * ratio) increment) = 0) bs),
             scaleFloat ratio)))"

definition ScaleBuys :: "order_planned list \<Rightarrow> f64 \<Rightarrow> f64 \<Rightarrow> order_planned list \<times> order_skipped list \<times> f64" where
  "ScaleBuys buys budget maxFees = (if list_ex (\<lambda>b. op_QuantityScale b \<noteq> 0) buys
     then scaleFractionalBuys buys budget maxFees else scaleWholeBuys buys budget maxFees)"

section \<open>The budget of the buy phase\<close>

record committed_buy =
  cb_ClientOrderID :: string
  cb_WorstCost :: f64
  cb_Spent :: f64
  cb_Terminal :: bool

record ira_budget =
  bg_Start :: f64
  bg_Proceeds :: f64
  bg_Removed :: f64
  bg_CashBuffer :: f64
  bg_Buys :: "committed_buy list"

definition NewBudget :: "f64 \<Rightarrow> ira_budget" where
  "NewBudget cash = \<lparr>bg_Start = cash, bg_Proceeds = Fin 0, bg_Removed = Fin 0, bg_CashBuffer = Fin 0, bg_Buys = []\<rparr>"

definition committed :: "committed_buy \<Rightarrow> f64" where
  "committed c = (if \<not> cb_Terminal c then f_max (cb_WorstCost c) (cb_Spent c) else cb_Spent c)"

definition budgetCash :: "ira_budget \<Rightarrow> f64" where
  "budgetCash b = f_sub (f_add (bg_Start b) (bg_Proceeds b)) (bg_Removed b)"

definition spendable :: "ira_budget \<Rightarrow> f64" where
  "spendable b = (if f_lt (Fin 0) (bg_CashBuffer b) then f_sub (budgetCash b) (bg_CashBuffer b) else budgetCash b)"

definition uncommitted :: "ira_budget \<Rightarrow> f64" where
  "uncommitted b = foldl f_sub (spendable b) (map committed (bg_Buys b))"

definition Remaining :: "ira_budget \<Rightarrow> f64" where
  "Remaining b = (if f_lt (Fin 0) (bg_CashBuffer b) then f_max (Fin 0) (uncommitted b) else uncommitted b)"

definition WithholdCashBuffer :: "ira_budget \<Rightarrow> f64 \<Rightarrow> ira_budget" where
  "WithholdCashBuffer b amount = b\<lparr>bg_CashBuffer := amount\<rparr>"

definition AddProceeds :: "ira_budget \<Rightarrow> f64 \<Rightarrow> ira_budget" where
  "AddProceeds b amount = b\<lparr>bg_Proceeds := f_add (bg_Proceeds b) amount\<rparr>"

definition RemoveCash :: "ira_budget \<Rightarrow> f64 \<Rightarrow> ira_budget" where
  "RemoveCash b amount = b\<lparr>bg_Removed := f_add (bg_Removed b) amount\<rparr>"

definition ReleaseBuy :: "ira_budget \<Rightarrow> string \<Rightarrow> f64 \<Rightarrow> ira_budget" where
  "ReleaseBuy b i worstCost = b\<lparr>bg_Buys := bg_Buys b @ [\<lparr>cb_ClientOrderID = i, cb_WorstCost = worstCost, cb_Spent = Fin 0, cb_Terminal = False\<rparr>]\<rparr>"

text \<open>The first buy released under an ID, changed through its pointer.\<close>

fun updBuy :: "string \<Rightarrow> (committed_buy \<Rightarrow> committed_buy) \<Rightarrow> committed_buy list \<Rightarrow> committed_buy list \<times> bool" where
  "updBuy i f [] = ([], False)"
| "updBuy i f (c # cs) = (if cb_ClientOrderID c = i then (f c # cs, True) else let (cs', found) = updBuy i f cs in (c # cs', found))"

definition FillBuy :: "ira_budget \<Rightarrow> string \<Rightarrow> f64 \<Rightarrow> ira_budget \<times> bool" where
  "FillBuy b i spent = (let (cs, found) = updBuy i (\<lambda>c. c\<lparr>cb_Spent := f_add (cb_Spent c) spent\<rparr>) (bg_Buys b) in (b\<lparr>bg_Buys := cs\<rparr>, found))"

definition CloseBuy :: "ira_budget \<Rightarrow> string \<Rightarrow> ira_budget \<times> bool" where
  "CloseBuy b i = (let (cs, found) = updBuy i (\<lambda>c. c\<lparr>cb_Terminal := True\<rparr>) (bg_Buys b) in (b\<lparr>bg_Buys := cs\<rparr>, found))"

section \<open>What a rebalance trades\<close>

definition tradeID :: "ira_trade \<Rightarrow> string" where
  "tradeID t = (case t of IraOrder p \<Rightarrow> op_InstrumentID p | IraSkip s \<Rightarrow> sk_InstrumentID s)"

lemma planTrades_mem: "planTrades trade is = Inr ts \<Longrightarrow> t \<in> set ts \<Longrightarrow> \<exists>i \<in> set is. trade i = Inr (Some t)"
  by (induction "is" arbitrary: ts) (auto simp: bindr_eq_Inr split: option.splits)

lemma planTrades_ids:
  assumes "planTrades trade is = Inr ts" and "\<And>i t. trade i = Inr (Some t) \<Longrightarrow> tradeID t = i"
  shows "map tradeID ts = filter (\<lambda>i. trade i \<noteq> Inr None) is"
  using assms by (induction "is" arbitrary: ts) (auto simp: bindr_eq_Inr split: option.splits)

lemma planTrades_total: "planTrades trade is = Inr ts \<Longrightarrow> i \<in> set is \<Longrightarrow> \<exists>t. trade i = Inr t"
  by (induction "is" arbitrary: ts) (auto simp: bindr_eq_Inr)

lemma planTrades_done: "planTrades trade is = Inr ts \<Longrightarrow> i \<in> set is \<Longrightarrow> trade i = Inr (Some t) \<Longrightarrow> t \<in> set ts"
  by (induction "is" arbitrary: ts) (auto simp: bindr_eq_Inr split: option.splits)

lemma asPlan_mem:
  "p \<in> set (ip_Sells (asPlan ts)) \<longleftrightarrow> IraOrder p \<in> set ts \<and> op_Side p = OrderSideSell"
  "p \<in> set (ip_Buys (asPlan ts)) \<longleftrightarrow> IraOrder p \<in> set ts \<and> op_Side p \<noteq> OrderSideSell"
  "s \<in> set (ip_Skipped (asPlan ts)) \<longleftrightarrow> IraSkip s \<in> set ts"
  by (auto simp: asPlan_def Let_def split: ira_trade.splits)

lemma asPlan_ids:
  "mset (map op_InstrumentID (ip_Sells (asPlan ts)) @ map op_InstrumentID (ip_Buys (asPlan ts)) @ map sk_InstrumentID (ip_Skipped (asPlan ts))) = mset (map tradeID ts)"
  by (induction ts) (auto simp: asPlan_def Let_def tradeID_def split: ira_trade.splits)

lemma wholeTrade_fields:
  assumes "wholeTrade x i = Inr (Some t)" and "ii_QuantityScale x = 0"
  obtains (sell) q where "t = IraOrder (iraOrder x i OrderSideSell q)" "0 < q" "q \<le> sub64 (iraHeld x i) (iraWorking x i)" "f_lt (wholeShares x i) (Fin 0)"
  | (buy) q where "t = IraOrder (iraOrder x i OrderSideBuy q)" "0 < q" "\<not> f_lt (wholeShares x i) (Fin 0)"
  | (skip) side reason shares where "t = IraSkip (wholeSkip x i side reason shares)"
proof (cases "f_lt (wholeShares x i) (Fin 0)")
  case True
  let ?q = "min (neg64 (f_to_int (f_trunc (wholeShares x i)))) (sub64 (iraHeld x i) (iraWorking x i))"
  have "t = IraOrder (iraOrder x i OrderSideSell ?q) \<and> 0 < ?q \<or> (\<exists>reason shares. t = IraSkip (wholeSkip x i OrderSideSell reason shares))"
    using assms(1) True unfolding wholeTrade_def Let_def by (auto simp del: min_less_iff_conj split: if_splits)
  then show ?thesis using True sell [of ?q] skip by (auto simp del: min_less_iff_conj)
next
  case False
  let ?q = "f_to_int (f_trunc (wholeShares x i))"
  have "t = IraOrder (iraOrder x i OrderSideBuy ?q) \<and> 0 < ?q \<or> (\<exists>reason shares. t = IraSkip (wholeSkip x i OrderSideBuy reason shares))"
    using assms(1) False unfolding wholeTrade_def Let_def by (auto split: if_splits)
  then show ?thesis using False buy [of ?q] skip by auto
qed

lemma priceMissing_not: "\<not> priceMissing x i \<Longrightarrow> \<exists>r. iraPrice x i = Fin r \<and> 0 < r"
  by (cases "iraPrice x i") (auto simp: priceMissing_def f_pos_def)

text \<open>The exact ticks of a fractional trade.\<close>

definition floorTicks :: "ira_input \<Rightarrow> int \<Rightarrow> string \<Rightarrow> int" where
  "floorTicks x increment i =
     \<lfloor>\<bar>requestedValue x i\<bar> / decimalMoney (iraPrice x i) * of_int (ii_QuantityScale x) / of_int increment\<rfloor> * increment"

lemma round_down:
  assumes "0 < (increment::int)" and "0 \<le> a"
  shows "a div increment * increment \<le> a \<and> 0 \<le> a div increment * increment"
proof -
  have "a div increment * increment = a - a mod increment" by (simp add: minus_mod_eq_div_mult)
  then show ?thesis using assms by (auto simp: zmod_le_nonneg_dividend)
qed

lemma fractionalTrade_fields:
  assumes "fractionalTrade x increment i = Inr (Some t)" and "0 < increment" and "ii_QuantityScale x = FractionalQuantityScale"
    and "in64 (iraHeld x i)" and "0 \<le> iraHeld x i" and "in64 (iraWorking x i)"
  obtains (sell) q where "t = IraOrder (iraOrder x i OrderSideSell q)" "0 < q" "q + iraWorking x i \<le> iraHeld x i" "q \<le> floorTicks x increment i"
      "q mod increment = 0" "requestedValue x i < 0" "0 \<le> iraWorking x i"
  | (buy) q where "t = IraOrder (iraOrder x i OrderSideBuy q)" "0 < q" "q = floorTicks x increment i" "0 \<le> requestedValue x i"
  | (skip) p reason where "t = IraSkip (fractionalSkip p reason \<bar>requestedValue x i\<bar> (Fin 0))" "op_InstrumentID p = i"
proof -
  let ?v = "requestedValue x i" and ?side = "if requestedValue x i < 0 then OrderSideSell else OrderSideBuy"
  let ?ticks = "\<bar>?v\<bar> / decimalMoney (iraPrice x i) * of_int (ii_QuantityScale x)"
  let ?available = "max (sub64 (iraHeld x i) (iraWorking x i)) 0"
  obtain q0 ok where f: "floorIncrement ?ticks increment = (q0, ok)" by fastforce
  note u = assms(1) [unfolded fractionalTrade_def Let_def f prod.case]
  from u have pm: "\<not> priceMissing x i" and w: "0 \<le> iraWorking x i" and ok: ok by (auto split: if_splits)
  obtain r where r: "iraPrice x i = Fin r" "0 < r" using priceMissing_not [OF pm] by blast
  have t0: "0 \<le> ?ticks / of_int increment" using r decimalMoney_pos [OF r(2)] assms(2,3)
    by (intro divide_nonneg_nonneg mult_nonneg_nonneg) (auto simp: FractionalQuantityScale_def)
  have q0: "q0 = floorTicks x increment i" using f ok t0
    by (auto simp: floorIncrement_def Let_def ratTrunc_def floorTicks_def)
  have q0n: "0 \<le> q0" unfolding q0 floorTicks_def using t0 assms(2) by (intro mult_nonneg_nonneg) auto
  have q0m: "q0 mod increment = 0" unfolding q0 floorTicks_def by simp
  have "sub64 (iraHeld x i) (iraWorking x i) = iraHeld x i - iraWorking x i"
    using w assms(4-6) by (intro sub64_id) (auto simp: in64_def min64_def max64_def)
  then have av: "?available \<le> iraHeld x i - iraWorking x i \<or> ?available = 0" by (auto simp: max_def)
  let ?down = "?available div increment * increment"
  have down: "?down \<le> ?available" "0 \<le> ?down" using round_down [OF assms(2)] by auto
  define q where "q = (if ?v < 0 then min q0 ?down else q0)"
  define reason where "reason = (if ?v < 0 \<and> q0 > 0 \<and> ?available < increment \<and> iraWorking x i > 0 then OrderSkippedHeldByWorkingSells else OrderSkippedBelowIncrement)"
  define result where "result = (if q = 0 then IraSkip (fractionalSkip (iraOrder x i ?side q) reason \<bar>?v\<bar> (Fin 0)) else IraOrder (iraOrder x i ?side q))"
  have t: "t = result" using u [folded q_def, folded reason_def, folded result_def] by (simp split: if_split_asm)
  show ?thesis
  proof (cases "q = 0")
    case True
    then show ?thesis using t by (intro skip) (auto simp: iraOrder_def result_def)
  next
    case False
    have pos: "0 < q" using False q0n down(2) by (auto simp: q_def)
    show ?thesis
    proof (cases "?v < 0")
      case True
      have "q mod increment = 0" using True q0m by (auto simp: q_def min_def)
      moreover have "q \<le> q0" "q \<le> ?down" using True by (auto simp: q_def)
      moreover have "q \<le> iraHeld x i - iraWorking x i" using \<open>q \<le> ?down\<close> down(1) av pos by linarith
      ultimately show ?thesis using True False t pos q0 w by (intro sell [of q]) (auto simp: result_def)
    next
      case f: False
      then show ?thesis using False t pos q0 by (intro buy [of q]) (auto simp: q_def result_def)
    qed
  qed
qed

end
