(* ===== verification/IraRebalance.thy ===== *)
theory IraRebalance
  imports IraPlan
begin

text \<open>
  What a rebalance guarantees: every instrument of the decision and of the account is traded once, recorded as skipped, or
  left alone for a reason the rule gives; no sell takes shares already being sold; and with fractional shares no order
  takes a holding past its target.
\<close>

definition withIncrement :: "ira_input \<Rightarrow> ira_input" where
  "withIncrement x = x\<lparr>ii_FractionalIncrement := (if ii_FractionalIncrement x = '''' then ''0.0001'' else ii_FractionalIncrement x)\<rparr>"

lemma withIncrement_simps [simp]:
  "iraHeld (withIncrement x) = iraHeld x" "iraTarget (withIncrement x) = iraTarget x" "iraPrice (withIncrement x) = iraPrice x"
  "iraWorking (withIncrement x) = iraWorking x" "iraValue (withIncrement x) = iraValue x" "iraUnion (withIncrement x) = iraUnion x"
  "ii_QuantityScale (withIncrement x) = ii_QuantityScale x" "requestedValue (withIncrement x) = requestedValue x"
  "priceMissing (withIncrement x) = priceMissing x" "floorTicks (withIncrement x) = floorTicks x"
  by (auto simp: withIncrement_def iraHeld_def iraTarget_def iraPrice_def iraWorking_def iraValue_def iraUnion_def requestedValue_def
      priceMissing_def floorTicks_def fun_eq_iff)

lemma PlanIRA_cases:
  assumes "PlanIRA x = Inr plan"
  obtains (whole) ts where "planTrades (wholeTrade x) (iraUnion x) = Inr ts" "plan = asPlan ts" "ii_QuantityScale x = 0"
  | (fractional) ts increment where "planTrades (fractionalTrade (withIncrement x) increment) (iraUnion x) = Inr ts" "plan = asPlan ts"
      "ii_QuantityScale x = FractionalQuantityScale" "FractionalIncrementTicks (ii_FractionalIncrement (withIncrement x)) = Inr increment" "0 < increment"
proof (cases "ii_QuantityScale x = 0")
  case True
  then show ?thesis using assms whole unfolding PlanIRA_def Let_def by (auto simp: bindr_eq_Inr)
next
  case False
  then have s: "ii_QuantityScale x = FractionalQuantityScale" and f: "planFractionalIRA x = Inr plan"
    using assms unfolding PlanIRA_def Let_def by auto
  from f obtain increment ts where i: "FractionalIncrementTicks (ii_FractionalIncrement (withIncrement x)) = Inr increment"
    "planTrades (fractionalTrade (withIncrement x) increment) (iraUnion x) = Inr ts" "plan = asPlan ts"
    unfolding planFractionalIRA_def Let_def withIncrement_def [symmetric] by (auto simp: bindr_eq_Inr split: sum.splits)
  then have "0 < increment" unfolding FractionalIncrementTicks_def by (auto simp: bindr_eq_Inr)
  then show ?thesis using fractional [OF i(2,3) s i(1)] by blast
qed

lemma PlanIRA_valid:
  assumes "PlanIRA x = Inr plan"
  shows "TargetsDecided_Validate (ii_Decision x) = []" "AccountSnapshot_Validate (ii_Snapshot x) = []"
    "list_all (\<lambda>p. 0 \<le> ap_Quantity p) (aps_Positions (ii_Snapshot x))"
  using assms unfolding PlanIRA_def Let_def by (auto simp: list_all_iff list_ex_iff not_less)

lemma quantity_prop:
  assumes "list_all (\<lambda>p. P (ap_Quantity p)) (aps_Positions s)" and "P 0"
  shows "P (AccountSnapshot_Quantity s i)"
proof (cases "find (\<lambda>q. ap_InstrumentID q = i) (aps_Positions s)")
  case (Some q)
  then have "q \<in> set (aps_Positions s)" by (auto simp: find_Some_iff)
  then show ?thesis using Some assms(1) by (simp add: AccountSnapshot_Quantity_def list_all_iff)
qed (simp add: AccountSnapshot_Quantity_def assms(2))

lemma accountPositionErrs_ids:
  "accountPositionErrs scale prev ps = [] \<Longrightarrow> distinct (map ap_InstrumentID ps) \<and>
     (case prev of None \<Rightarrow> True | Some y \<Rightarrow> list_all (\<lambda>p. y < ap_InstrumentID p) ps)"
proof (induction scale prev ps rule: accountPositionErrs.induct)
  case (2 scale prev p ps)
  have IH: "accountPositionErrs scale (Some (ap_InstrumentID p)) ps = []" using 2(2) by simp
  from 2(1) [OF IH] 2(2) show ?case
    by (auto simp: list_all_iff not_le split: option.splits if_splits dest: order.strict_trans)
qed (simp split: option.splits)

lemma iraUnion_props:
  assumes "PlanIRA x = Inr plan"
  shows "distinct (iraUnion x)" "sorted (iraUnion x)"
    "set (iraUnion x) = set (map tw_InstrumentID (td_Targets (ii_Decision x))) \<union> set (map ap_InstrumentID (aps_Positions (ii_Snapshot x)))"
proof -
  have "distinct (map tw_InstrumentID (td_Targets (ii_Decision x)))" using valid_targets [OF PlanIRA_valid(1) [OF assms]] by simp
  moreover have "distinct (map ap_InstrumentID (aps_Positions (ii_Snapshot x)))"
    using PlanIRA_valid(2) [OF assms] accountPositionErrs_ids by (fastforce simp: AccountSnapshot_Validate_def split: if_splits)
  ultimately show "distinct (iraUnion x)" "sorted (iraUnion x)"
    "set (iraUnion x) = set (map tw_InstrumentID (td_Targets (ii_Decision x))) \<union> set (map ap_InstrumentID (aps_Positions (ii_Snapshot x)))"
    by (auto simp: iraUnion_def Let_def)
qed

lemma iraOrder_fields [simp]:
  "op_InstrumentID (iraOrder x i side q) = i" "op_Side (iraOrder x i side q) = side" "op_Quantity (iraOrder x i side q) = q"
  "op_HeldQuantity (iraOrder x i side q) = iraHeld x i"
  by (simp_all add: iraOrder_def)

text \<open>One trade of either rebalance.\<close>

definition soundTrade :: "ira_input \<Rightarrow> string \<Rightarrow> ira_trade \<Rightarrow> bool" where
  "soundTrade x i t \<longleftrightarrow> (case t of IraSkip s \<Rightarrow> sk_InstrumentID s = i
     | IraOrder p \<Rightarrow> op_InstrumentID p = i \<and> 0 < op_Quantity p \<and> op_HeldQuantity p = iraHeld x i \<and>
         (op_Side p = OrderSideBuy \<or> (op_Side p = OrderSideSell \<and> op_Quantity p + iraWorking x i \<le> iraHeld x i)))"

lemma iraOrder_sound: "0 < q \<Longrightarrow> side = OrderSideBuy \<or> (side = OrderSideSell \<and> q + iraWorking x i \<le> iraHeld x i) \<Longrightarrow> iraHeld y = iraHeld x \<Longrightarrow>
   soundTrade x i (IraOrder (iraOrder y i side q))"
  by (simp add: soundTrade_def)

lemma sub64_held: "in64 h \<Longrightarrow> in64 w \<Longrightarrow> 0 \<le> h \<Longrightarrow> 0 \<le> w \<Longrightarrow> sub64 h w = h - w"
  by (rule sub64_id) (auto simp: in64_def min64_def max64_def)

lemma wholeTrade_sound:
  assumes "wholeTrade x i = Inr (Some t)" and "ii_QuantityScale x = 0" and "in64 (iraHeld x i)" "0 \<le> iraHeld x i" "in64 (iraWorking x i)" "0 \<le> iraWorking x i"
  shows "soundTrade x i t"
  using assms(1,2)
proof (cases rule: wholeTrade_fields)
  case (sell q)
  then show ?thesis using sub64_held [OF assms(3,5,4,6)] by (auto intro: iraOrder_sound)
qed (auto simp: soundTrade_def wholeSkip_def)

lemma fractionalTrade_sound:
  assumes "fractionalTrade (withIncrement x) increment i = Inr (Some t)" and "0 < increment" and "ii_QuantityScale x = FractionalQuantityScale"
    and "in64 (iraHeld x i)" "0 \<le> iraHeld x i" "in64 (iraWorking x i)"
  shows "soundTrade x i t"
  by (rule fractionalTrade_fields [OF assms(1,2)]) (use assms in \<open>auto intro: iraOrder_sound simp: soundTrade_def fractionalSkip_def\<close>)

text \<open>Both rebalances, as the trades of one function.\<close>

lemma PlanIRA_trades:
  assumes p: "PlanIRA x = Inr plan" and q: "list_all (\<lambda>p. in64 (ap_Quantity p)) (aps_Positions (ii_Snapshot x))"
    and w: "\<And>i. in64 (iraWorking x i) \<and> 0 \<le> iraWorking x i"
  obtains trade ts where "planTrades trade (iraUnion x) = Inr ts" "plan = asPlan ts" "\<And>i t. trade i = Inr (Some t) \<Longrightarrow> soundTrade x i t"
    "trade = wholeTrade x \<or> (\<exists>increment. trade = fractionalTrade (withIncrement x) increment \<and> 0 < increment \<and> ii_QuantityScale x = FractionalQuantityScale)"
proof -
  have h: "in64 (iraHeld x i)" "0 \<le> iraHeld x i" for i
    unfolding iraHeld_def using quantity_prop [of in64, OF q] quantity_prop [of "\<lambda>n. 0 \<le> n", OF PlanIRA_valid(3) [OF p]]
    by (auto simp: in64_def min64_def max64_def)
  from p show ?thesis
  proof (cases rule: PlanIRA_cases)
    case (whole ts)
    then show ?thesis using wholeTrade_sound [OF _ _ h] w by (intro that [of "wholeTrade x" ts]) auto
  next
    case (fractional ts increment)
    then show ?thesis using fractionalTrade_sound [OF _ _ _ h] w by (intro that [of "fractionalTrade (withIncrement x) increment" ts]) auto
  qed
qed

text \<open>What each trade must be where the rule leaves no choice: an exit of what has no target, an entry of what is not held.\<close>

lemma trade_exits:
  assumes "trade i = Inr t" and "soundTrade x i (the t) \<or> t = None" and "iraTarget x i = Fin 0" and "0 < iraHeld x i" and "i \<notin> keptNames x"
    and "trade = wholeTrade x \<or> (\<exists>increment. trade = fractionalTrade (withIncrement x) increment \<and> 0 < increment \<and> ii_QuantityScale x = FractionalQuantityScale)"
  shows "\<exists>a. t = Some a \<and> (case a of IraOrder p \<Rightarrow> op_Side p = OrderSideSell | IraSkip s \<Rightarrow> True)"
  using assms(6)
proof
  assume w: "trade = wholeTrade x"
  have "1 \<le> rndq (of_int (iraHeld x i))" using assms(4) rndq_ge [of 1 "of_int (iraHeld x i)"] rndq_of_int [of 1] by simp
  then have "f_lt (f_neg (f_of_int (iraHeld x i))) (Fin 0)"
    using assms(4) by (auto simp: f_of_int_def rnd_def Let_def)
  then have "f_lt (wholeShares x i) (Fin 0)" using assms(3) by (simp add: wholeShares_def Let_def)
  then show ?thesis using assms(1,3-5) unfolding w wholeTrade_def Let_def by (auto simp: f_eq_def simp del: min_less_iff_conj split: if_splits)
next
  assume "\<exists>increment. trade = fractionalTrade (withIncrement x) increment \<and> 0 < increment \<and> ii_QuantityScale x = FractionalQuantityScale"
  then obtain increment where f: "trade = fractionalTrade (withIncrement x) increment" "ii_QuantityScale x = FractionalQuantityScale" by blast
  then have pm: "\<not> priceMissing x i" using assms(1) unfolding f fractionalTrade_def Let_def by (auto split: if_splits)
  obtain r where r: "iraPrice x i = Fin r" "0 < r" using priceMissing_not [OF pm] by blast
  then have "requestedValue x i < 0" using assms(3,4) f(2) decimalMoney_pos [OF r(2)]
    by (simp add: requestedValue_def FractionalQuantityScale_def)
  then show ?thesis using assms(1,3,4) unfolding f fractionalTrade_def Let_def
    by (auto simp: f_eq_def split: prod.splits if_splits)
qed

lemma trade_enters:
  assumes "trade i = Inr t" and "f_lt (Fin 0) (iraTarget x i)" and "iraHeld x i = 0" and "i \<notin> keptNames x" and "f_nonneg (iraValue x)" and "isFinite (iraTarget x i)"
    and "trade = wholeTrade x \<or> (\<exists>increment. trade = fractionalTrade (withIncrement x) increment \<and> 0 < increment \<and> ii_QuantityScale x = FractionalQuantityScale)"
  shows "\<exists>a. t = Some a \<and> (case a of IraOrder p \<Rightarrow> op_Side p = OrderSideBuy | IraSkip s \<Rightarrow> True)"
proof -
  obtain w where w: "iraTarget x i = Fin w" "0 < w" using assms(2,6) by (auto elim: isFiniteE)
  have nz: "\<not> f_eq (iraTarget x i) (Fin 0)" using w by (simp add: f_eq_def)
  from assms(7) show ?thesis
  proof
    assume k: "trade = wholeTrade x"
    then have pm: "\<not> priceMissing x i" using assms(1,4) unfolding k wholeTrade_def Let_def by (auto split: if_splits)
    obtain r where r: "iraPrice x i = Fin r" "0 < r" using priceMissing_not [OF pm] by blast
    have "f_nonneg (f_mul (iraTarget x i) (iraValue x))" unfolding w(1) using assms(5) w(2)
      by (cases "iraValue x") (auto simp: f_nonneg_def f_inf_def intro: f_le_0_rnd)
    then have "f_nonneg (wholeShares x i)" using nz assms(3) r f_nonneg_div_Fin by (simp add: wholeShares_def Let_def)
    then have "\<not> f_lt (wholeShares x i) (Fin 0)" by (cases "wholeShares x i") (auto simp: f_nonneg_def)
    then show ?thesis using assms(1,3,4) nz unfolding k wholeTrade_def Let_def by (auto split: if_splits)
  next
    assume "\<exists>increment. trade = fractionalTrade (withIncrement x) increment \<and> 0 < increment \<and> ii_QuantityScale x = FractionalQuantityScale"
    then obtain increment where f: "trade = fractionalTrade (withIncrement x) increment" by blast
    have "0 \<le> decimalMoney (iraValue x)"
    proof (cases "iraValue x")
      case (Fin v)
      then show ?thesis using assms(5) decimalMoney_pos [of v] by (cases "v = 0") (auto simp: f_nonneg_def order_le_less)
    qed simp_all
    then have "0 \<le> requestedValue x i" using assms(3) w decimalMoney_pos [OF w(2)] by (simp add: requestedValue_def)
    then show ?thesis using assms(1,3) nz unfolding f fractionalTrade_def Let_def by (auto split: prod.splits if_splits)
  qed
qed

text \<open>The orders of a plan of sound trades, and the target a decision gives an instrument.\<close>

lemma asPlan_sound:
  assumes "\<forall>a \<in> set ts. \<exists>i. soundTrade x i a"
  shows "list_all (\<lambda>r. op_Side r = OrderSideSell \<and> 0 < op_Quantity r \<and> op_Quantity r + iraWorking x (op_InstrumentID r) \<le> iraHeld x (op_InstrumentID r)) (ip_Sells (asPlan ts))"
    and "list_all (\<lambda>r. op_Side r = OrderSideBuy \<and> 0 < op_Quantity r) (ip_Buys (asPlan ts))"
  unfolding list_all_iff using assms by (fastforce simp: asPlan_mem soundTrade_def)+

lemma iraTarget_finite:
  assumes "PlanIRA x = Inr plan"
  shows "isFinite (iraTarget x i)"
proof (cases "map_of (rev (map (\<lambda>t. (tw_InstrumentID t, tw_Weight t)) (td_Targets (ii_Decision x)))) i")
  case (Some y)
  then have "y \<in> tw_Weight ` set (td_Targets (ii_Decision x))" by (auto dest!: map_of_SomeD)
  then show ?thesis using Some valid_targets [OF PlanIRA_valid(1) [OF assms]] by (auto simp: iraTarget_def mget_def list_all_iff)
qed (simp add: iraTarget_def mget_def)

text \<open>C12: a rebalance trades each held or targeted instrument at most once.
  Every sell is of a positive quantity that leaves the shares already being sold, so no set of fills oversells; an
  instrument with no target left is sold or recorded as skipped, and a target not yet held is bought or recorded as
  skipped: no trade the rule asks for disappears.\<close>

theorem PlanIRA_accounts_for_every_trade:
  assumes p: "PlanIRA x = Inr plan" and q: "list_all (\<lambda>p. in64 (ap_Quantity p)) (aps_Positions (ii_Snapshot x))"
    and w: "\<And>i. in64 (iraWorking x i) \<and> 0 \<le> iraWorking x i"
  shows "distinct (map op_InstrumentID (ip_Sells plan) @ map op_InstrumentID (ip_Buys plan) @ map sk_InstrumentID (ip_Skipped plan)) \<and>
     list_all (\<lambda>r. op_Side r = OrderSideSell \<and> 0 < op_Quantity r \<and> op_Quantity r + iraWorking x (op_InstrumentID r) \<le> iraHeld x (op_InstrumentID r)) (ip_Sells plan) \<and>
     list_all (\<lambda>r. op_Side r = OrderSideBuy \<and> 0 < op_Quantity r) (ip_Buys plan) \<and>
     list_all (\<lambda>i. i \<in> keptNames x \<or>
        ((iraTarget x i = Fin 0 \<and> 0 < iraHeld x i \<longrightarrow> i \<in> op_InstrumentID ` set (ip_Sells plan) \<union> sk_InstrumentID ` set (ip_Skipped plan)) \<and>
         (f_lt (Fin 0) (iraTarget x i) \<and> iraHeld x i = 0 \<longrightarrow> i \<in> op_InstrumentID ` set (ip_Buys plan) \<union> sk_InstrumentID ` set (ip_Skipped plan)))) (iraUnion x)"
proof -
  obtain trade ts where t: "planTrades trade (iraUnion x) = Inr ts" "plan = asPlan ts" "\<And>i t. trade i = Inr (Some t) \<Longrightarrow> soundTrade x i t"
    "trade = wholeTrade x \<or> (\<exists>increment. trade = fractionalTrade (withIncrement x) increment \<and> 0 < increment \<and> ii_QuantityScale x = FractionalQuantityScale)"
    using PlanIRA_trades [OF p q w] by blast
  have id: "tradeID a = i" if "trade i = Inr (Some a)" for i a
    using t(3) [OF that] by (auto simp: soundTrade_def tradeID_def split: ira_trade.splits)
  have "map tradeID ts = filter (\<lambda>i. trade i \<noteq> Inr None) (iraUnion x)" by (rule planTrades_ids [OF t(1)]) (rule id)
  then have "distinct (map tradeID ts)" using iraUnion_props(1) [OF p] by simp
  then have d: "distinct (map op_InstrumentID (ip_Sells plan) @ map op_InstrumentID (ip_Buys plan) @ map sk_InstrumentID (ip_Skipped plan))"
    unfolding t(2) by (rule mset_eq_imp_distinct_iff [OF asPlan_ids, THEN iffD2])
  have sound: "\<exists>i. soundTrade x i a" if "a \<in> set ts" for a using planTrades_mem [OF t(1) that] t(3) by blast
  then have s: "\<forall>a \<in> set ts. \<exists>i. soundTrade x i a" by blast
  note sells = asPlan_sound(1) [OF s, folded t(2)] and buys = asPlan_sound(2) [OF s, folded t(2)]
  have v: "f_nonneg (iraValue x)" using PlanIRA_valid(2) [OF p]
    by (auto simp: iraValue_def AccountSnapshot_Validate_def f_nonneg_def elim!: isFiniteE split: if_splits)
  note tf = iraTarget_finite [OF p]
  have placed: "i \<in> (case a of IraOrder r \<Rightarrow> if op_Side r = OrderSideSell then op_InstrumentID ` set (ip_Sells plan) else op_InstrumentID ` set (ip_Buys plan)
      | IraSkip s \<Rightarrow> sk_InstrumentID ` set (ip_Skipped plan))" if "i \<in> set (iraUnion x)" "trade i = Inr (Some a)" for i a
    using planTrades_done [OF t(1) that] id [OF that(2)] unfolding t(2) by (auto simp: asPlan_mem tradeID_def image_iff split: ira_trade.splits)
  have exits: "i \<in> op_InstrumentID ` set (ip_Sells plan) \<union> sk_InstrumentID ` set (ip_Skipped plan)"
    if i: "i \<in> set (iraUnion x)" "i \<notin> keptNames x" "iraTarget x i = Fin 0" "0 < iraHeld x i" for i
  proof -
    obtain o' where o: "trade i = Inr o'" using planTrades_total [OF t(1) i(1)] by blast
    obtain a where a: "o' = Some a" "case a of IraOrder p \<Rightarrow> op_Side p = OrderSideSell | IraSkip s \<Rightarrow> True"
      using trade_exits [OF o _ i(3,4,2) t(4)] t(3) o by (cases o') auto
    then show ?thesis using placed [OF i(1), of a] o by (auto split: ira_trade.splits if_splits)
  qed
  have enters: "i \<in> op_InstrumentID ` set (ip_Buys plan) \<union> sk_InstrumentID ` set (ip_Skipped plan)"
    if i: "i \<in> set (iraUnion x)" "i \<notin> keptNames x" "f_lt (Fin 0) (iraTarget x i)" "iraHeld x i = 0" for i
  proof -
    obtain o' where o: "trade i = Inr o'" using planTrades_total [OF t(1) i(1)] by blast
    obtain a where a: "o' = Some a" "case a of IraOrder p \<Rightarrow> op_Side p = OrderSideBuy | IraSkip s \<Rightarrow> True"
      using trade_enters [OF o i(3,4,2) v tf t(4)] by blast
    then show ?thesis using placed [OF i(1), of a] o by (auto split: ira_trade.splits if_splits)
  qed
  show ?thesis using d sells buys exits enters unfolding list_all_iff by blast
qed

section \<open>Exact ticks never cross the target\<close>

lemma floorTicks_bounds:
  assumes "iraPrice x i = Fin r" "0 < r" "0 < increment" "ii_QuantityScale x = FractionalQuantityScale"
  shows "of_int (floorTicks x increment i) / 10000 * decimalMoney (iraPrice x i) \<le> \<bar>requestedValue x i\<bar> \<and>
    \<bar>requestedValue x i\<bar> < of_int (floorTicks x increment i + increment) / 10000 * decimalMoney (iraPrice x i)"
proof -
  define d v where "d = decimalMoney (iraPrice x i)" and "v = \<bar>requestedValue x i\<bar>"
  define u where "u = v / d * 10000 / of_int increment"
  have d: "0 < d" using assms(1) decimalMoney_pos [OF assms(2)] by (simp add: d_def)
  have f: "floorTicks x increment i = \<lfloor>u\<rfloor> * increment" by (simp add: floorTicks_def assms(4) FractionalQuantityScale_def u_def d_def v_def)
  have e: "v = u * of_int increment / 10000 * d" using d assms(3) by (simp add: u_def)
  have u: "of_int \<lfloor>u\<rfloor> \<le> u" "u < of_int \<lfloor>u\<rfloor> + 1" using floor_correct [of u] by simp_all
  have "of_int \<lfloor>u\<rfloor> * of_int increment / 10000 * d \<le> v"
    unfolding e using u(1) d assms(3) by (intro mult_right_mono divide_right_mono) auto
  moreover have "v < (of_int \<lfloor>u\<rfloor> + 1) * of_int increment / 10000 * d"
    unfolding e using u(2) d assms(3) by (intro mult_strict_right_mono divide_strict_right_mono) auto
  ultimately show ?thesis unfolding f d_def [symmetric] v_def [symmetric] by (simp add: algebra_simps)
qed

text \<open>C13: with fractional shares the arithmetic is exact: a buy never takes the holding's value past its target, and
  falls short of it by less than one increment at the reference price; a sell never takes it below its target. Every
  quantity is a whole number of increments.\<close>

theorem PlanIRA_never_crosses_target:
  assumes p: "PlanIRA x = Inr plan" and f: "ii_QuantityScale x = FractionalQuantityScale"
    and q: "list_all (\<lambda>p. in64 (ap_Quantity p)) (aps_Positions (ii_Snapshot x))" and w: "\<And>i. in64 (iraWorking x i)"
  defines "held_value \<equiv> \<lambda>i n. of_int n / 10000 * decimalMoney (iraPrice x i)"
    and "target_value \<equiv> \<lambda>i. decimalMoney (iraTarget x i) * decimalMoney (iraValue x)"
  shows "\<exists>increment. FractionalIncrementTicks (ii_FractionalIncrement (withIncrement x)) = Inr increment \<and>
     list_all (\<lambda>r. op_Quantity r mod increment = 0 \<and>
        held_value (op_InstrumentID r) (op_HeldQuantity r + op_Quantity r) \<le> target_value (op_InstrumentID r) \<and>
        target_value (op_InstrumentID r) < held_value (op_InstrumentID r) (op_HeldQuantity r + op_Quantity r + increment)) (ip_Buys plan) \<and>
     list_all (\<lambda>r. op_Quantity r mod increment = 0 \<and>
        target_value (op_InstrumentID r) \<le> held_value (op_InstrumentID r) (op_HeldQuantity r - op_Quantity r)) (ip_Sells plan)"
proof -
  from p f obtain ts increment where t: "planTrades (fractionalTrade (withIncrement x) increment) (iraUnion x) = Inr ts" "plan = asPlan ts"
    and i: "FractionalIncrementTicks (ii_FractionalIncrement (withIncrement x)) = Inr increment" "0 < increment"
    by (cases rule: PlanIRA_cases) (auto simp: FractionalQuantityScale_def)
  have h: "in64 (iraHeld x j)" "0 \<le> iraHeld x j" for j
    unfolding iraHeld_def using quantity_prop [of in64, OF q] quantity_prop [of "\<lambda>n. 0 \<le> n", OF PlanIRA_valid(3) [OF p]]
    by (auto simp: in64_def min64_def max64_def)
  have v: "requestedValue x j = target_value j - held_value j (iraHeld x j)" for j
    by (simp add: requestedValue_def f FractionalQuantityScale_def target_value_def held_value_def)
  have each: "op_Quantity r mod increment = 0 \<and>
      (if op_Side r = OrderSideSell then target_value (op_InstrumentID r) \<le> held_value (op_InstrumentID r) (op_HeldQuantity r - op_Quantity r)
       else held_value (op_InstrumentID r) (op_HeldQuantity r + op_Quantity r) \<le> target_value (op_InstrumentID r) \<and>
         target_value (op_InstrumentID r) < held_value (op_InstrumentID r) (op_HeldQuantity r + op_Quantity r + increment))"
    if r: "IraOrder r \<in> set ts" for r
  proof -
    obtain j where j: "fractionalTrade (withIncrement x) increment j = Inr (Some (IraOrder r))" using planTrades_mem [OF t(1) r] by blast
    then have "\<not> priceMissing x j" unfolding fractionalTrade_def Let_def by (auto split: if_splits)
    then obtain c where c: "iraPrice x j = Fin c" "0 < c" using priceMissing_not by blast
    note b = floorTicks_bounds [OF c i(2) f]
    have d: "0 < decimalMoney (iraPrice x j)" using c decimalMoney_pos by simp
    show ?thesis
    proof (rule fractionalTrade_fields [OF j i(2)])
      fix n assume s: "IraOrder r = IraOrder (iraOrder (withIncrement x) j OrderSideSell n)" "n \<le> floorTicks (withIncrement x) increment j"
        "n mod increment = 0" "requestedValue (withIncrement x) j < 0"
      have "of_int n / 10000 * decimalMoney (iraPrice x j) \<le> of_int (floorTicks x increment j) / 10000 * decimalMoney (iraPrice x j)"
        using s(2) d by (intro mult_right_mono divide_right_mono) auto
      with b s(4) v [of j] have "of_int n / 10000 * decimalMoney (iraPrice x j) \<le> held_value j (iraHeld x j) - target_value j" by simp
      then show ?thesis using s(1,3) by (simp add: held_value_def algebra_simps)
    next
      fix n assume s: "IraOrder r = IraOrder (iraOrder (withIncrement x) j OrderSideBuy n)" "n = floorTicks (withIncrement x) increment j"
        "0 \<le> requestedValue (withIncrement x) j"
      then have "n mod increment = 0" by (simp add: floorTicks_def)
      moreover from b s(2,3) v [of j] have "of_int n / 10000 * decimalMoney (iraPrice x j) \<le> target_value j - held_value j (iraHeld x j)"
        "target_value j - held_value j (iraHeld x j) < of_int (n + increment) / 10000 * decimalMoney (iraPrice x j)" by simp_all
      ultimately show ?thesis using s(1) by (simp add: held_value_def algebra_simps)
    qed (use f h w in simp_all)
  qed
  have buy: "op_Quantity r mod increment = 0 \<and>
        held_value (op_InstrumentID r) (op_HeldQuantity r + op_Quantity r) \<le> target_value (op_InstrumentID r) \<and>
        target_value (op_InstrumentID r) < held_value (op_InstrumentID r) (op_HeldQuantity r + op_Quantity r + increment)"
    if "r \<in> set (ip_Buys plan)" for r using that each [of r] unfolding t(2) asPlan_mem by simp
  have sell: "op_Quantity r mod increment = 0 \<and>
        target_value (op_InstrumentID r) \<le> held_value (op_InstrumentID r) (op_HeldQuantity r - op_Quantity r)"
    if "r \<in> set (ip_Sells plan)" for r using that each [of r] unfolding t(2) asPlan_mem by simp
  show ?thesis using i(1) buy sell unfolding list_all_iff by (intro exI [of _ increment]) simp
qed

text \<open>An account of 100,000 moves out of ten shares of B and into half of it in A, in ticks of a ten-thousandth of a share.\<close>

definition ira_example :: ira_input where
  "ira_example = \<lparr>ii_Tag = ''d1'', ii_Decision = some_decision 10000 [(''A'', Fin (1 / 2))],
     ii_Snapshot = \<lparr>aps_QuantityScale = 10000, aps_AccountID = ''U1'', aps_AsOf = 63900000000 * second_ns, aps_NetLiquidation = Fin 100000,
       aps_Currency = ''USD'', aps_Positions = [\<lparr>ap_InstrumentID = ''B'', ap_Quantity = 100000\<rparr>]\<rparr>,
     ii_ReferencePrices = [(''A'', Fin 100), (''B'', Fin 50)], ii_PriceBand = Fin (1 / 16), ii_RebalanceBand = Fin (1 / 4),
     ii_WorkingSells = [], ii_QuantityScale = 10000, ii_FractionalIncrement = ''0.0001''\<rparr>"

definition ira_plan_example :: ira_plan where
  "ira_plan_example = \<lparr>ip_Sells = [iraOrder ira_example ''B'' OrderSideSell 100000], ip_Buys = [iraOrder ira_example ''A'' OrderSideBuy 5000000], ip_Skipped = []\<rparr>"

lemma ira_example_trades:
  "fractionalTrade ira_example 1 ''A'' = Inr (Some (IraOrder (iraOrder ira_example ''A'' OrderSideBuy 5000000)))"
  "fractionalTrade ira_example 1 ''B'' = Inr (Some (IraOrder (iraOrder ira_example ''B'' OrderSideSell 100000)))"
proof -
  have pm: "\<not> priceMissing ira_example ''A''" "\<not> priceMissing ira_example ''B''" by (simp_all add: priceMissing_def iraPrice_def ira_example_def mget_def)
  have a: "iraWorking ira_example ''A'' = 0" "iraTarget ira_example ''A'' = Fin (1 / 2)" "iraHeld ira_example ''A'' = 0"
    "requestedValue ira_example ''A'' = 50000"
    "floorIncrement (\<bar>50000\<bar> / decimalMoney (iraPrice ira_example ''A'') * of_int (ii_QuantityScale ira_example)) 1 = (5000000, True)" by code_simp+
  have b: "iraWorking ira_example ''B'' = 0" "iraTarget ira_example ''B'' = Fin 0" "iraHeld ira_example ''B'' = 100000"
    "requestedValue ira_example ''B'' = - 500" "sub64 100000 0 = 100000"
    "floorIncrement (\<bar>- 500\<bar> / decimalMoney (iraPrice ira_example ''B'') * of_int (ii_QuantityScale ira_example)) 1 = (100000, True)" by code_simp+
  show "fractionalTrade ira_example 1 ''A'' = Inr (Some (IraOrder (iraOrder ira_example ''A'' OrderSideBuy 5000000)))"
    unfolding fractionalTrade_def Let_def a using pm by (simp add: f_eq_def)
  show "fractionalTrade ira_example 1 ''B'' = Inr (Some (IraOrder (iraOrder ira_example ''B'' OrderSideSell 100000)))"
    unfolding fractionalTrade_def Let_def b using pm by (simp add: f_eq_def)
qed

lemma ira_example_plans: "PlanIRA ira_example = Inr ira_plan_example"
proof -
  have u: "TargetsDecided_Validate (ii_Decision ira_example) = []" "AccountSnapshot_Validate (ii_Snapshot ira_example) = []" "ii_Tag ira_example \<noteq> ''''"
    "td_StrategyID (ii_Decision ira_example) = TargetWeightStrategyMomentum" "td_Outcome (ii_Decision ira_example) = TargetsOutcomeDecided"
    "aps_AccountID (ii_Snapshot ira_example) = td_AccountID (ii_Decision ira_example)" "bandOK (ii_PriceBand ira_example)" "bandOK (ii_RebalanceBand ira_example)"
    "ii_QuantityScale ira_example = FractionalQuantityScale" "td_QuantityScale (ii_Decision ira_example) = FractionalQuantityScale"
    "aps_QuantityScale (ii_Snapshot ira_example) = FractionalQuantityScale" "FractionalQuantityScale \<noteq> 0" "keptNames ira_example = {}"
    "\<not> list_ex (\<lambda>p. ap_Quantity p < 0) (aps_Positions (ii_Snapshot ira_example))" by code_simp+
  have i: "FractionalIncrementTicks (ii_FractionalIncrement ira_example) = Inr 1" by code_simp
  have n: "iraUnion ira_example = [''A'', ''B'']" by code_simp
  have s: "OrderSideBuy \<noteq> OrderSideSell" by code_simp
  have e: "ira_example\<lparr>ii_FractionalIncrement := (if ii_FractionalIncrement ira_example = '''' then ''0.0001'' else ii_FractionalIncrement ira_example)\<rparr> = ira_example"
    by (simp add: ira_example_def)
  have f: "planFractionalIRA ira_example = Inr ira_plan_example"
    unfolding planFractionalIRA_def e Let_def i sum.case n planTrades.simps ira_example_trades bindr_Inr option.case
    using s by (simp add: asPlan_def ira_plan_example_def)
  show ?thesis unfolding PlanIRA_def Let_def by (simp add: u f)
qed

lemma ira_example_typed:
  "list_all (\<lambda>p. in64 (ap_Quantity p)) (aps_Positions (ii_Snapshot ira_example))" "in64 (iraWorking ira_example i) \<and> 0 \<le> iraWorking ira_example i"
  by (simp_all add: ira_example_def iraWorking_def in64_def min64_def max64_def)

theorem PlanIRA_accounts_for_every_trade_witness:
  "PlanIRA ira_example = Inr ira_plan_example \<and> list_all (\<lambda>r. 0 < op_Quantity r) (ip_Sells ira_plan_example) \<and> length (ip_Buys ira_plan_example) = 1"
  using PlanIRA_accounts_for_every_trade [OF ira_example_plans ira_example_typed] ira_example_plans
  by (auto simp: list_all_iff) (simp add: ira_plan_example_def)

theorem PlanIRA_never_crosses_target_witness:
  "PlanIRA ira_example = Inr ira_plan_example \<and>
   (\<exists>increment. FractionalIncrementTicks ''0.0001'' = Inr increment \<and> list_all (\<lambda>r. op_Quantity r mod increment = 0) (ip_Buys ira_plan_example))"
proof -
  have f: "ii_QuantityScale ira_example = FractionalQuantityScale" by code_simp
  have i: "ii_FractionalIncrement (withIncrement ira_example) = ''0.0001''" by code_simp
  note t = PlanIRA_never_crosses_target [OF ira_example_plans f ira_example_typed(1) conjunct1 [OF ira_example_typed(2)], unfolded i]
  then obtain increment where "FractionalIncrementTicks ''0.0001'' = Inr increment" "list_all (\<lambda>r. op_Quantity r mod increment = 0) (ip_Buys ira_plan_example)"
    unfolding list_all_iff by blast
  then show ?thesis using ira_example_plans by blast
qed

end
