(* ===== verification/IraScaling.thy ===== *)
theory IraScaling
  imports IraPlan
begin

text \<open>
  What the buy phase guarantees: the scaled basket fits the cash in the floats the gate deducts and loses no buy, and the
  budget it is released from counts everything spent and is not overspent while executions come before their buy's end.
\<close>

section \<open>A scaled basket fits the cash\<close>

lemma decimalMoney_f_nonneg: "f_nonneg x \<Longrightarrow> 0 \<le> decimalMoney x"
proof (cases x)
  case (Fin r)
  then show "f_nonneg x \<Longrightarrow> 0 \<le> decimalMoney x" using decimalMoney_pos [of r] by (cases "r = 0") (auto simp: f_nonneg_def)
qed (simp_all add: f_nonneg_def)

lemma decimalMoney_max0: "0 \<le> decimalMoney (f_max b (Fin 0))"
  by (cases b) (auto simp: f_max_def f_nonneg_def intro: decimalMoney_f_nonneg)

text \<open>What the scaling guarantees of a ratio and its basket.\<close>

definition fittingBasket :: "(order_planned \<times> int) list \<Rightarrow> rat \<Rightarrow> f64 \<Rightarrow> f64 \<Rightarrow> order_planned list \<Rightarrow> rat \<Rightarrow> bool" where
  "fittingBasket buys cash budget maxFees kept ratio \<longleftrightarrow> kept = ordersAtScale buys ratio \<and> 0 \<le> ratio \<and> ratio \<le> 1 \<and>
     fractionalRunningCashFits kept budget maxFees \<and> (\<exists>c. exactCost kept maxFees = Some c \<and> c \<le> cash)"

lemma fractionalOrdersAtScale_Some:
  "fractionalOrdersAtScale buys ratio maxFees = Some c \<longleftrightarrow> fst c = ordersAtScale buys ratio \<and>
     exactCost (fst c) maxFees = Some (fst (snd c)) \<and> snd (snd c) = totalCost (fst c) maxFees"
  by (cases c) (auto simp: fractionalOrdersAtScale_def Let_def split: option.splits)

lemma basketFits_fitting:
  assumes "fractionalOrdersAtScale buys ratio maxFees = Some c" and "basketFits c cash budget maxFees" and "0 \<le> ratio" "ratio \<le> 1"
  shows "fittingBasket buys cash budget maxFees (fst c) ratio"
  using assms by (cases c) (auto simp: fractionalOrdersAtScale_Some basketFits_def fittingBasket_def)

lemma bisectScale_fitting:
  assumes "bisectScale n buys cash budget maxFees low high kept = Some (kept', ratio)"
    and "fittingBasket buys cash budget maxFees kept low" and "low \<le> high" "high \<le> 1"
  shows "fittingBasket buys cash budget maxFees kept' ratio"
  using assms
proof (induction n arbitrary: low high kept)
  case (Suc n)
  let ?mid = "(low + high) / 2"
  have m: "low \<le> ?mid" "?mid \<le> high" "0 \<le> ?mid" "?mid \<le> 1" using Suc.prems(2-4) by (auto simp: fittingBasket_def)
  obtain c where c: "fractionalOrdersAtScale buys ?mid maxFees = Some c"
    using Suc.prems(1) by (auto simp: Let_def split: option.splits)
  show ?case
  proof (cases "basketFits c cash budget maxFees")
    case True
    then show ?thesis using Suc.IH [of ?mid high "fst c"] Suc.prems(1,4) c m basketFits_fitting [OF c True] by (simp add: Let_def)
  next
    case False
    then show ?thesis using Suc.IH [of low ?mid kept] Suc.prems(1,2) c m by (simp add: Let_def)
  qed
qed simp

lemma ordersAtScale_0 [simp]: "ordersAtScale buys 0 = []"
  by (induction buys "0::rat" rule: ordersAtScale.induct) (auto simp: floorIncrement_def Let_def ratTrunc_def wrap64_def)

lemma searchScale_fitting:
  assumes "searchScale buys atLimit slack cash budget maxFees = Some (kept, ratio)" and "0 \<le> cash" "0 \<le> atLimit" "0 \<le> decimalMoney maxFees"
  shows "fittingBasket buys cash budget maxFees kept ratio"
proof -
  let ?fees = "of_int (int (length buys)) * decimalMoney maxFees" and ?sizing = "max 0 (cash - slack)"
  let ?r = "min 1 (?sizing / (atLimit + ?fees))"
  have r: "0 \<le> ?r" "?r \<le> 1" using assms(3,4) by (auto intro!: divide_nonneg_nonneg add_nonneg_nonneg)
  have fs: "0 \<le> fractionalFeeScale ?sizing ?fees atLimit" "fractionalFeeScale ?sizing ?fees atLimit \<le> 1"
    using assms(3) by (auto simp: fractionalFeeScale_def)
  obtain c where c: "fractionalOrdersAtScale buys ?r maxFees = Some c"
    using assms(1) unfolding searchScale_def Let_def by (auto split: option.splits)
  define r' where "r' = (if cash < fst (snd c) then fractionalFeeScale ?sizing ?fees atLimit else ?r)"
  have r': "0 \<le> r'" "r' \<le> 1" using r fs by (simp_all add: r'_def)
  obtain c' where c': "fractionalOrdersAtScale buys r' maxFees = Some c'"
    "(if basketFits c' cash budget maxFees then Some (fst c', r') else bisectScale 128 buys cash budget maxFees 0 r' []) = Some (kept, ratio)"
    using assms(1) c unfolding searchScale_def Let_def by (auto simp: r'_def split: option.splits if_splits)
  show ?thesis
  proof (cases "basketFits c' cash budget maxFees")
    case True
    then show ?thesis using c'(2) basketFits_fitting [OF c'(1) True r'] by simp
  next
    case False
    have "fittingBasket buys cash budget maxFees [] 0" using assms(2) by (simp add: fittingBasket_def)
    then show ?thesis using c'(2) False bisectScale_fitting r' by auto
  qed
qed

text \<open>The accepted buys, each with a positive increment, and the order each becomes at a ratio.\<close>

lemma scalableBuys_Some:
  "scalableBuys maxFees buys = Some (bs, atLimit) \<Longrightarrow> map fst bs = buys \<and> list_all (\<lambda>(b, increment). 0 < increment \<and> 0 < op_Quantity b \<and>
     op_QuantityScale b = FractionalQuantityScale) bs"
proof (induction buys arbitrary: bs atLimit)
  case (Cons b buys)
  then show ?case
    by (auto simp: scalableBuy_def FractionalIncrementTicks_def bindr_eq_Inr split: option.splits sum.splits if_splits)
qed simp

lemma BuyReservation_value:
  assumes "BuyReservation q FractionalQuantityScale price fees slack = Inr c" and "0 < q"
  shows "0 \<le> c - decimalMoney fees - decimalMoney slack"
proof -
  have "BuyCost q FractionalQuantityScale price fees = Inr (c - decimalMoney slack)"
    using assms(1) by (auto simp: BuyReservation_def bindr_eq_Inr finiteBuyMoney_def FractionalQuantityScale_def)
  then have e: "c - decimalMoney slack = quantityCents q FractionalQuantityScale price True + decimalMoney fees"
    and p: "isFinite price" "\<not> f_lt price (Fin 0)"
    by (auto simp: BuyCost_def finiteBuyMoney_def FractionalQuantityScale_def quantityScaleError_def split: list.splits)
  have "0 \<le> decimalMoney price" using p by (intro decimalMoney_f_nonneg) (auto simp: f_nonneg_def elim!: isFiniteE)
  then have v: "0 \<le> decimalMoney price * (of_int q / of_int (QuantityUnits FractionalQuantityScale)) * 100" using assms(2)
    by (auto simp: QuantityUnits_def FractionalQuantityScale_def)
  have "0 \<le> quantityCents q FractionalQuantityScale price True"
    using v unfolding quantityCents_def Let_def ratTrunc_def by (auto simp del: of_int_add)
  then show ?thesis using e by simp
qed

lemma scalableBuys_atLimit: "scalableBuys maxFees buys = Some (bs, atLimit) \<Longrightarrow> 0 \<le> atLimit"
proof (induction buys arbitrary: bs atLimit)
  case (Cons b buys)
  then obtain increment cost rest more where c: "scalableBuy maxFees b = Some (increment, cost)" "scalableBuys maxFees buys = Some (rest, more)"
    "atLimit = cost + more" by (auto split: option.splits)
  have "0 \<le> cost" using c(1) BuyReservation_value by (fastforce simp: scalableBuy_def split: option.splits sum.splits if_splits)
  then show ?case using Cons.IH [OF c(2)] c(3) by simp
qed simp

lemma floorIncrement_scaled:
  assumes "0 < increment" "0 \<le> q" "in64 q" "0 \<le> ratio" "ratio \<le> 1"
  shows "0 \<le> fst (floorIncrement (of_int q * ratio) increment) \<and> fst (floorIncrement (of_int q * ratio) increment) \<le> q \<and>
    fst (floorIncrement (of_int q * ratio) increment) mod increment = 0"
proof -
  let ?u = "of_int q * ratio / of_int increment"
  let ?n = "\<lfloor>?u\<rfloor> * increment"
  have u: "0 \<le> ?u" using assms by simp
  have "of_int \<lfloor>?u\<rfloor> * of_int increment \<le> ?u * of_int increment" using assms(1) by (intro mult_right_mono) auto
  also have "\<dots> = of_int q * ratio" using assms(1) by simp
  also have "\<dots> \<le> of_int q * 1" using assms(2,5) by (intro mult_left_mono) auto
  finally have "of_int ?n \<le> (of_int q :: rat)" by simp
  then have n: "?n \<le> q" by (simp only: of_int_le_iff)
  moreover have "0 \<le> ?n" using u assms(1) by (intro mult_nonneg_nonneg) auto
  moreover have "wrap64 ?n = ?n" using n \<open>0 \<le> ?n\<close> assms(3) by (intro wrap64_id) (auto simp: in64_def min64_def max64_def)
  ultimately show ?thesis using u by (simp add: floorIncrement_def Let_def ratTrunc_def)
qed

lemma ordersAtScale_mem:
  assumes "p \<in> set (ordersAtScale bs ratio)"
  shows "\<exists>b increment. (b, increment) \<in> set bs \<and> p = b\<lparr>op_Quantity := fst (floorIncrement (of_int (op_Quantity b) * ratio) increment)\<rparr> \<and> 0 < op_Quantity p"
  using assms
proof (induction bs)
  case (Cons a bs)
  obtain b i where a: "a = (b, i)" by fastforce
  show ?case
  proof (cases "p \<in> set (ordersAtScale bs ratio)")
    case True
    then show ?thesis using Cons.IH by auto
  next
    case False
    then have "p = b\<lparr>op_Quantity := fst (floorIncrement (of_int (op_Quantity b) * ratio) i)\<rparr> \<and> 0 < op_Quantity p"
      using Cons.prems by (auto simp: a Let_def split: if_splits)
    then show ?thesis unfolding a by (metis list.set_intros(1))
  qed
qed simp

lemma ordersAtScale_sound:
  assumes bs: "scalableBuys maxFees buys = Some (bs, atLimit)" and "list_all (\<lambda>b. in64 (op_Quantity b)) buys" and "0 \<le> ratio" "ratio \<le> 1"
  shows "list_all (\<lambda>(b, increment). 0 \<le> fst (floorIncrement (of_int (op_Quantity b) * ratio) increment)) bs"
    and "\<forall>p \<in> set (ordersAtScale bs ratio). \<exists>b \<in> set buys. p = b\<lparr>op_Quantity := op_Quantity p\<rparr> \<and> 0 < op_Quantity p \<and> op_Quantity p \<le> op_Quantity b"
proof -
  note acc = scalableBuys_Some [OF bs]
  have mem: "b \<in> set buys" if "(b, i) \<in> set bs" for b i using that acc by force
  have fl: "0 \<le> fst (floorIncrement (of_int (op_Quantity b) * ratio) i)" "fst (floorIncrement (of_int (op_Quantity b) * ratio) i) \<le> op_Quantity b"
    if "(b, i) \<in> set bs" for b i
    using floorIncrement_scaled [of i "op_Quantity b" ratio] that mem acc assms(2-4) by (auto simp: list_all_iff)
  then show "list_all (\<lambda>(b, increment). 0 \<le> fst (floorIncrement (of_int (op_Quantity b) * ratio) increment)) bs" by (auto simp: list_all_iff)
  show "\<forall>p \<in> set (ordersAtScale bs ratio). \<exists>b \<in> set buys. p = b\<lparr>op_Quantity := op_Quantity p\<rparr> \<and> 0 < op_Quantity p \<and> op_Quantity p \<le> op_Quantity b"
  proof
    fix p assume "p \<in> set (ordersAtScale bs ratio)"
    then obtain b i where b: "(b, i) \<in> set bs" "p = b\<lparr>op_Quantity := fst (floorIncrement (of_int (op_Quantity b) * ratio) i)\<rparr>" "0 < op_Quantity p"
      using ordersAtScale_mem by blast
    then show "\<exists>b \<in> set buys. p = b\<lparr>op_Quantity := op_Quantity p\<rparr> \<and> 0 < op_Quantity p \<and> op_Quantity p \<le> op_Quantity b"
      using mem [OF b(1)] fl(2) [OF b(1)] by (intro bexI [of _ b]) auto
  qed
qed

text \<open>The scaling keeps nothing and skips nothing, or it settles on a ratio at which its basket fits.\<close>

lemma scaleFractionalBuys_cases:
  assumes "scaleFractionalBuys buys budget maxFees = (kept, skipped, scale)"
  obtains "kept = []" "skipped = []"
  | bs atLimit ratio where "scalableBuys maxFees buys = Some (bs, atLimit)"
      "fittingBasket bs (decimalMoney (f_max budget (Fin 0))) budget maxFees kept ratio"
      "skipped = map (\<lambda>(b, _). fractionalSkip b OrderSkippedScaledBelowIncrement (fractionalOrderValue b) (scaleFloat ratio))
         (filter (\<lambda>(b, increment). fst (floorIncrement (of_int (op_Quantity b) * ratio) increment) = 0) bs)"
proof (cases "isFinite budget \<and> isFinite maxFees \<and> \<not> f_lt maxFees (Fin 0)")
  case True
  let ?cash = "decimalMoney (f_max budget (Fin 0))" and ?slack = "sum_list (map (\<lambda>b. decimalMoney (op_RoundingSlack b)) buys)"
  have fees: "0 \<le> decimalMoney maxFees" using True by (intro decimalMoney_f_nonneg) (auto simp: f_nonneg_def elim!: isFiniteE)
  show ?thesis
  proof (cases "scalableBuys maxFees buys")
    case None
    then show ?thesis using True assms that(1) by (simp add: scaleFractionalBuys_def)
  next
    case (Some acc)
    obtain bs atLimit where acc: "acc = (bs, atLimit)" by fastforce
    note bs = Some [unfolded acc]
    show ?thesis
    proof (cases "searchScale bs atLimit ?slack ?cash budget maxFees")
      case None
      then show ?thesis using True assms bs that(1) by (simp add: scaleFractionalBuys_def)
    next
      case (Some s)
      then obtain ratio where s: "s = (kept, ratio)" using True assms bs by (cases s) (simp add: scaleFractionalBuys_def)
      note fit = searchScale_fitting [OF Some [unfolded s] decimalMoney_max0 scalableBuys_atLimit [OF bs] fees]
      show ?thesis using True assms bs Some unfolding s by (intro that(2) [OF bs fit]) (auto simp: scaleFractionalBuys_def)
    qed
  qed
qed (use assms that(1) in \<open>auto simp: scaleFractionalBuys_def\<close>)

lemma scaleFractionalBuys_kept:
  assumes "scaleFractionalBuys buys budget maxFees = (kept, skipped, scale)" and "list_all (\<lambda>b. in64 (op_Quantity b)) buys"
  shows "fractionalRunningCashFits kept budget maxFees"
    and "\<forall>p \<in> set kept. \<exists>b \<in> set buys. p = b\<lparr>op_Quantity := op_Quantity p\<rparr> \<and> 0 < op_Quantity p \<and> op_Quantity p \<le> op_Quantity b"
  using assms(1) by (cases rule: scaleFractionalBuys_cases; use ordersAtScale_sound(2) [OF _ assms(2)] in \<open>auto simp: fittingBasket_def\<close>)+

lemma floorIncrement_floor:
  assumes "0 < increment" "0 \<le> q" "in64 q" "0 \<le> ratio" "ratio \<le> 1"
  shows "fst (floorIncrement (of_int q * ratio) increment) = \<lfloor>of_int q * ratio / of_int increment\<rfloor> * increment"
proof -
  let ?u = "of_int q * ratio / of_int increment"
  let ?n = "\<lfloor>?u\<rfloor> * increment"
  have u: "0 \<le> ?u" using assms by simp
  have "of_int \<lfloor>?u\<rfloor> * of_int increment \<le> ?u * of_int increment" using assms(1) by (intro mult_right_mono) auto
  also have "\<dots> = of_int q * ratio" using assms(1) by simp
  also have "\<dots> \<le> of_int q * 1" using assms(2,5) by (intro mult_left_mono) auto
  finally have "of_int ?n \<le> (of_int q :: rat)" by simp
  then have n: "?n \<le> q" by (simp only: of_int_le_iff)
  moreover have "0 \<le> ?n" using u assms(1) by (intro mult_nonneg_nonneg) auto
  ultimately have "wrap64 ?n = ?n" using assms(3) by (intro wrap64_id) (auto simp: in64_def min64_def max64_def)
  then show ?thesis using u by (simp add: floorIncrement_def Let_def ratTrunc_def)
qed

text \<open>Fewer shares of a buy cost no more, so a reservation that can be made for a quantity can be made for a smaller one.\<close>

lemma cents_up: "0 \<le> v \<Longrightarrow> (if True \<and> of_int (ratTrunc v) < v then ratTrunc v + 1 else ratTrunc v) = \<lceil>v\<rceil>"
proof -
  assume v: "0 \<le> v"
  have "\<lceil>v\<rceil> = \<lfloor>v\<rfloor> \<or> (of_int \<lfloor>v\<rfloor> < v \<and> \<lceil>v\<rceil> = \<lfloor>v\<rfloor> + 1)" by linarith
  moreover have "of_int \<lfloor>v\<rfloor> < v \<Longrightarrow> \<lceil>v\<rceil> = \<lfloor>v\<rfloor> + 1" by linarith
  ultimately show ?thesis using v by (auto simp: ratTrunc_def simp del: of_int_add)
qed

lemma quantityCents_up_mono:
  assumes "0 \<le> decimalMoney price" "0 \<le> q" "q \<le> r"
  shows "quantityCents q FractionalQuantityScale price True \<le> quantityCents r FractionalQuantityScale price True"
proof -
  let ?v = "\<lambda>q. decimalMoney price * (of_int q / of_int (QuantityUnits FractionalQuantityScale)) * 100"
  have u: "(0::rat) < of_int (QuantityUnits FractionalQuantityScale)" by (simp add: QuantityUnits_def FractionalQuantityScale_def)
  have "?v q \<le> ?v r" using assms u by (intro mult_right_mono mult_left_mono divide_right_mono) auto
  moreover have "0 \<le> ?v q" using assms u by simp
  ultimately show ?thesis unfolding quantityCents_def Let_def
    by (simp only: cents_up order_trans [OF \<open>0 \<le> ?v q\<close> \<open>?v q \<le> ?v r\<close>]) (intro divide_right_mono, auto intro: ceiling_mono)
qed

lemma isFinite_rnd_le: "0 \<le> x \<Longrightarrow> x \<le> y \<Longrightarrow> isFinite (rnd y) \<Longrightarrow> isFinite (rnd x)"
  using f_le_rnd [of x y] f_le_0_rnd [of x] f_le_finite by (fastforce simp: isFinite_iff)

lemma BuyReservation_less:
  assumes "BuyReservation r FractionalQuantityScale price fees slack = Inr c" and "0 < q" "q \<le> r"
  shows "\<exists>c'. BuyReservation q FractionalQuantityScale price fees slack = Inr c' \<and> c' \<le> c"
proof -
  have p: "isFinite price" "\<not> f_lt price (Fin 0)" "isFinite fees" "\<not> f_lt fees (Fin 0)" "isFinite slack" "\<not> f_lt slack (Fin 0)"
    using assms(1) by (auto simp: BuyReservation_def BuyCost_def bindr_eq_Inr quantityScaleError_def FractionalQuantityScale_def split: list.splits)
  have m: "0 \<le> decimalMoney price" "0 \<le> decimalMoney fees" "0 \<le> decimalMoney slack"
    using p by (intro decimalMoney_f_nonneg; auto simp: f_nonneg_def elim!: isFiniteE)+
  let ?c = "\<lambda>q. quantityCents q FractionalQuantityScale price True"
  have mono: "?c q \<le> ?c r" using quantityCents_up_mono [OF m(1), of q r] assms(2,3) by simp
  have nn: "0 \<le> ?c q" using quantityCents_up_mono [OF m(1), of 0 q] assms(2) by (simp add: quantityCents_def ratTrunc_def)
  have f: "isFinite (rnd (?c r + decimalMoney fees))" "isFinite (rnd (?c r + decimalMoney fees + decimalMoney slack))"
    and c: "c = ?c r + decimalMoney fees + decimalMoney slack"
    using assms(1) p by (auto simp: BuyReservation_def BuyCost_def bindr_eq_Inr finiteBuyMoney_def quantityScaleError_def FractionalQuantityScale_def split: list.splits if_splits)
  have "isFinite (rnd (?c q + decimalMoney fees))" "isFinite (rnd (?c q + decimalMoney fees + decimalMoney slack))"
    by (rule isFinite_rnd_le [OF _ _ f(1)] isFinite_rnd_le [OF _ _ f(2)]; use mono nn m in linarith)+
  then show ?thesis using p c mono assms(2)
    by (auto simp: BuyReservation_def BuyCost_def finiteBuyMoney_def quantityScaleError_def FractionalQuantityScale_def)
qed

text \<open>What the scaling accepts a buy with, and the basket at a ratio written out: every buy at the whole increments its quantity
  times the ratio comes to, those with none left out.\<close>

definition ticksOf :: "order_planned \<Rightarrow> int" where
  "ticksOf b = (case FractionalIncrementTicks (op_FractionalIncrement b) of Inl _ \<Rightarrow> 1 | Inr increment \<Rightarrow> increment)"

definition scaledTo :: "rat \<Rightarrow> order_planned \<Rightarrow> int" where
  "scaledTo ratio b = \<lfloor>of_int (op_Quantity b) * ratio / of_int (ticksOf b)\<rfloor> * ticksOf b"

lemma scalableBuys_ticks:
  "scalableBuys maxFees buys = Some (bs, atLimit) \<Longrightarrow> bs = map (\<lambda>b. (b, ticksOf b)) buys \<and>
     list_all (\<lambda>b. 0 < ticksOf b \<and> 0 < op_Quantity b \<and> op_QuantityScale b = FractionalQuantityScale \<and> op_Quantity b mod ticksOf b = 0 \<and>
       (\<exists>c. BuyReservation (op_Quantity b) FractionalQuantityScale (op_LimitPrice b) maxFees (op_RoundingSlack b) = Inr c)) buys \<and>
     (\<exists>c. exactCost buys maxFees = Some c \<and>
        c = atLimit + of_int (int (length buys)) * decimalMoney maxFees + sum_list (map (\<lambda>b. decimalMoney (op_RoundingSlack b)) buys))"
proof (induction buys arbitrary: bs atLimit)
  case (Cons b buys)
  then obtain increment cost rest more where c: "scalableBuy maxFees b = Some (increment, cost)" "scalableBuys maxFees buys = Some (rest, more)"
    "bs = (b, increment) # rest" "atLimit = cost + more" by (auto split: option.splits)
  have b: "FractionalIncrementTicks (op_FractionalIncrement b) = Inr increment" "op_QuantityScale b = FractionalQuantityScale" "0 < op_Quantity b"
    "op_Quantity b mod increment = 0" and r: "\<exists>r. BuyReservation (op_Quantity b) (op_QuantityScale b) (op_LimitPrice b) maxFees (op_RoundingSlack b) = Inr r \<and>
      cost = r - decimalMoney maxFees - decimalMoney (op_RoundingSlack b)"
    using c(1) by (auto simp: scalableBuy_def split: option.splits sum.splits if_splits)
  have "0 < increment" using b(1) by (auto simp: FractionalIncrementTicks_def bindr_eq_Inr)
  moreover have "ticksOf b = increment" using b(1) by (simp add: ticksOf_def)
  ultimately show ?case using Cons.IH [OF c(2)] c(3,4) b r by (auto simp: algebra_simps)
qed simp

lemma ordersAtScale_map:
  assumes "list_all (\<lambda>b. 0 < ticksOf b \<and> 0 < op_Quantity b \<and> in64 (op_Quantity b)) buys" "0 \<le> ratio" "ratio \<le> 1"
  shows "ordersAtScale (map (\<lambda>b. (b, ticksOf b)) buys) ratio = map (\<lambda>b. b\<lparr>op_Quantity := scaledTo ratio b\<rparr>) (filter (\<lambda>b. 0 < scaledTo ratio b) buys)"
    and "filter (\<lambda>(b, increment). fst (floorIncrement (of_int (op_Quantity b) * ratio) increment) = 0) (map (\<lambda>b. (b, ticksOf b)) buys) =
      map (\<lambda>b. (b, ticksOf b)) (filter (\<lambda>b. scaledTo ratio b = 0) buys)"
  using assms(1) by (induction buys) (auto simp: Let_def scaledTo_def floorIncrement_floor [OF _ _ _ assms(2,3)])

lemma scaledTo_bounds:
  assumes "0 < ticksOf b" "0 < op_Quantity b" "in64 (op_Quantity b)" "0 \<le> ratio" "ratio \<le> 1"
  shows "0 \<le> scaledTo ratio b \<and> scaledTo ratio b \<le> op_Quantity b \<and> scaledTo ratio b mod ticksOf b = 0"
  using floorIncrement_scaled [of "ticksOf b" "op_Quantity b" ratio] floorIncrement_floor [of "ticksOf b" "op_Quantity b" ratio] assms by (simp add: scaledTo_def)

lemma scaledTo_whole: "0 < ticksOf b \<Longrightarrow> op_Quantity b mod ticksOf b = 0 \<Longrightarrow> scaledTo 1 b = op_Quantity b"
  by (auto simp: scaledTo_def elim!: dvdE simp flip: dvd_eq_mod_eq_0)

text \<open>On buys it accepts the search ends with a basket: at every ratio every reservation can be made.\<close>

lemma exactCost_Some: "list_all (\<lambda>b. \<exists>c. BuyReservation (op_Quantity b) (op_QuantityScale b) (op_LimitPrice b) maxFees (op_RoundingSlack b) = Inr c) ps \<Longrightarrow>
    exactCost ps maxFees \<noteq> None"
  by (induction ps) (auto split: option.splits sum.splits)

lemma fractionalOrdersAtScale_total:
  assumes "scalableBuys maxFees buys = Some (bs, atLimit)" "list_all (\<lambda>b. in64 (op_Quantity b)) buys" "0 \<le> ratio" "ratio \<le> 1"
  shows "\<exists>c. fractionalOrdersAtScale bs ratio maxFees = Some c"
proof -
  note s = scalableBuys_ticks [OF assms(1)]
  have b: "0 < ticksOf b \<and> 0 < op_Quantity b \<and> in64 (op_Quantity b)" if "b \<in> set buys" for b using s assms(2) that by (auto simp: list_all_iff)
  then have "ordersAtScale bs ratio = map (\<lambda>b. b\<lparr>op_Quantity := scaledTo ratio b\<rparr>) (filter (\<lambda>b. 0 < scaledTo ratio b) buys)"
    using s ordersAtScale_map(1) [OF _ assms(3,4)] by (simp add: list_all_iff)
  moreover have "\<exists>c. BuyReservation (scaledTo ratio b) (op_QuantityScale b) (op_LimitPrice b) maxFees (op_RoundingSlack b) = Inr c"
    if "b \<in> set buys" "0 < scaledTo ratio b" for b
  proof -
    have r: "\<exists>c. BuyReservation (op_Quantity b) FractionalQuantityScale (op_LimitPrice b) maxFees (op_RoundingSlack b) = Inr c"
      "op_QuantityScale b = FractionalQuantityScale" using s that(1) by (auto simp: list_all_iff)
    then show ?thesis using BuyReservation_less [of "op_Quantity b"] that(2) scaledTo_bounds [of b ratio] b [OF that(1)] assms(3,4) by fastforce
  qed
  ultimately have "exactCost (ordersAtScale bs ratio) maxFees \<noteq> None" by (intro exactCost_Some) (auto simp: list_all_iff)
  then show ?thesis by (auto simp: fractionalOrdersAtScale_def Let_def)
qed

lemma bisectScale_total:
  assumes "scalableBuys maxFees buys = Some (bs, atLimit)" "list_all (\<lambda>b. in64 (op_Quantity b)) buys" "0 \<le> low" "low \<le> high" "high \<le> 1"
  shows "bisectScale n bs cash budget maxFees low high kept \<noteq> None"
  using assms(3-)
proof (induction n arbitrary: low high kept)
  case (Suc n)
  have m: "low \<le> (low + high) / 2" "(low + high) / 2 \<le> high" "0 \<le> (low + high) / 2" "(low + high) / 2 \<le> 1" using Suc.prems by auto
  obtain c where "fractionalOrdersAtScale bs ((low + high) / 2) maxFees = Some c" using fractionalOrdersAtScale_total [OF assms(1,2) m(3,4)] by blast
  then show ?case using Suc.IH m Suc.prems by (simp add: Let_def)
qed simp

lemma searchScale_total:
  assumes "scalableBuys maxFees buys = Some (bs, atLimit)" "list_all (\<lambda>b. in64 (op_Quantity b)) buys" "0 \<le> decimalMoney maxFees"
  shows "searchScale bs atLimit slack cash budget maxFees \<noteq> None"
proof -
  note at = scalableBuys_atLimit [OF assms(1)] and total = fractionalOrdersAtScale_total [OF assms(1,2)]
  let ?fees = "of_int (int (length bs)) * decimalMoney maxFees" and ?sizing = "max 0 (cash - slack)"
  let ?r = "min 1 (?sizing / (atLimit + ?fees))"
  have r: "0 \<le> ?r" "?r \<le> 1" using at assms(3) by (auto intro!: divide_nonneg_nonneg add_nonneg_nonneg)
  have f: "0 \<le> fractionalFeeScale ?sizing ?fees atLimit" "fractionalFeeScale ?sizing ?fees atLimit \<le> 1"
    using at by (auto simp: fractionalFeeScale_def)
  obtain c where c: "fractionalOrdersAtScale bs ?r maxFees = Some c" using total [OF r] by blast
  obtain c' where c': "fractionalOrdersAtScale bs (fractionalFeeScale ?sizing ?fees atLimit) maxFees = Some c'" using total [OF f] by blast
  show ?thesis unfolding searchScale_def Let_def using c c' bisectScale_total [OF assms(1,2)] r f by simp
qed

lemma BuyReservation_pos:
  assumes "BuyReservation q FractionalQuantityScale price fees slack = Inr c" and "0 < q" "f_lt (Fin 0) price"
  shows "0 < c - decimalMoney fees - decimalMoney slack"
proof -
  have c: "c = quantityCents q FractionalQuantityScale price True + decimalMoney fees + decimalMoney slack" "isFinite price"
    using assms(1) by (auto simp: BuyReservation_def BuyCost_def bindr_eq_Inr finiteBuyMoney_def quantityScaleError_def FractionalQuantityScale_def split: list.splits if_splits)
  obtain r where "price = Fin r" "0 < r" using assms(3) c(2) by (auto elim!: isFiniteE)
  then have "0 < decimalMoney price" using decimalMoney_pos by blast
  then have v: "0 < decimalMoney price * (of_int q / of_int (QuantityUnits FractionalQuantityScale)) * 100" using assms(2)
    by (auto simp: QuantityUnits_def FractionalQuantityScale_def)
  then have "0 < quantityCents q FractionalQuantityScale price True"
    unfolding quantityCents_def Let_def by (simp only: cents_up less_imp_le) simp
  then show ?thesis using c(1) by simp
qed

lemma scalableBuys_atLimit_pos: "scalableBuys maxFees buys = Some (bs, atLimit) \<Longrightarrow> buys \<noteq> [] \<Longrightarrow> 0 < atLimit"
proof (cases buys)
  case (Cons b rest)
  assume "scalableBuys maxFees buys = Some (bs, atLimit)"
  then obtain increment cost bs' more where c: "scalableBuy maxFees b = Some (increment, cost)" "scalableBuys maxFees rest = Some (bs', more)"
    "atLimit = cost + more" unfolding Cons by (auto split: option.splits)
  have "0 < cost" using c(1) BuyReservation_pos by (fastforce simp: scalableBuy_def split: option.splits sum.splits if_splits)
  then show ?thesis using c(3) scalableBuys_atLimit [OF c(2)] by simp
qed simp

text \<open>Where the whole basket fits, the search takes it whole.\<close>

lemma searchScale_whole:
  assumes "scalableBuys maxFees buys = Some (bs, atLimit)" "list_all (\<lambda>b. in64 (op_Quantity b)) buys" "0 \<le> decimalMoney maxFees" "buys \<noteq> []"
    and "exactCost buys maxFees = Some c" "basketFits (buys, c, totalCost buys maxFees) cash budget maxFees"
  shows "searchScale bs atLimit (sum_list (map (\<lambda>b. decimalMoney (op_RoundingSlack b)) buys)) cash budget maxFees = Some (buys, 1)"
proof -
  note s = scalableBuys_ticks [OF assms(1)]
  let ?fees = "of_int (int (length bs)) * decimalMoney maxFees" and ?slack = "sum_list (map (\<lambda>b. decimalMoney (op_RoundingSlack b)) buys)"
  have e: "c = atLimit + ?fees + ?slack" using s assms(5) by auto
  have le: "c \<le> cash" using assms(6) by (simp add: basketFits_def)
  have pos: "0 < atLimit + ?fees" using scalableBuys_atLimit_pos [OF assms(1,4)] assms(3) by (intro add_pos_nonneg) auto
  have one: "min 1 (max 0 (cash - ?slack) / (atLimit + ?fees)) = 1" using pos e le by (simp add: min_def field_simps)
  have "list_all (\<lambda>b. 0 < ticksOf b \<and> 0 < op_Quantity b \<and> in64 (op_Quantity b)) buys" using s assms(2) by (auto simp: list_all_iff)
  then have "ordersAtScale bs 1 = map (\<lambda>b. b\<lparr>op_Quantity := scaledTo 1 b\<rparr>) (filter (\<lambda>b. 0 < scaledTo 1 b) buys)"
    using s ordersAtScale_map(1) by simp
  also have "\<dots> = buys"
  proof -
    have "\<forall>b \<in> set buys. scaledTo 1 b = op_Quantity b \<and> 0 < op_Quantity b" using s scaledTo_whole by (simp add: list_all_iff)
    then show ?thesis by (induction buys) auto
  qed
  finally have "fractionalOrdersAtScale bs 1 maxFees = Some (buys, c, totalCost buys maxFees)"
    using assms(5) by (simp add: fractionalOrdersAtScale_def Let_def)
  then show ?thesis unfolding searchScale_def Let_def one using le assms(6) by simp
qed

lemma scaled_partition:
  assumes "scalableBuys maxFees buys \<noteq> None" "list_all (\<lambda>b. in64 (op_Quantity b)) buys" "0 \<le> ratio" "ratio \<le> 1"
  shows "mset (map op_ClientOrderID (filter (\<lambda>b. 0 < scaledTo ratio b) buys)) + mset (map op_ClientOrderID (filter (\<lambda>b. scaledTo ratio b = 0) buys)) =
    mset (map op_ClientOrderID buys)"
proof -
  have "0 \<le> scaledTo ratio b" if "b \<in> set buys" for b
    using assms that scalableBuys_ticks [of maxFees buys] scaledTo_bounds [of b ratio] by (auto simp: list_all_iff)
  then have "filter (\<lambda>b. scaledTo ratio b = 0) buys = filter (\<lambda>b. \<not> 0 < scaledTo ratio b) buys" by (intro filter_cong) force+
  moreover have "mset (map op_ClientOrderID (filter P xs)) + mset (map op_ClientOrderID (filter (\<lambda>b. \<not> P b) xs)) = mset (map op_ClientOrderID xs)"
    for P and xs :: "order_planned list" by (induction xs) auto
  ultimately show ?thesis by simp
qed

text \<open>The scaling of buys it accepts: one ratio, every buy at it, and the whole basket where that fits.\<close>

lemma scaleFractionalBuys_accepted:
  assumes "scaleFractionalBuys buys budget maxFees = (kept, skipped, scale)" and "list_all (\<lambda>b. in64 (op_Quantity b)) buys"
    and "isFinite budget" "isFinite maxFees" "\<not> f_lt maxFees (Fin 0)" "scalableBuys maxFees buys \<noteq> None"
  shows "\<exists>ratio. 0 \<le> ratio \<and> ratio \<le> 1 \<and> scale = scaleFloat ratio \<and>
     kept = map (\<lambda>b. b\<lparr>op_Quantity := scaledTo ratio b\<rparr>) (filter (\<lambda>b. 0 < scaledTo ratio b) buys) \<and>
     map sk_ClientOrderID skipped = map op_ClientOrderID (filter (\<lambda>b. scaledTo ratio b = 0) buys)"
    and "exactCost buys maxFees = Some c \<Longrightarrow> basketFits (buys, c, totalCost buys maxFees) (decimalMoney (f_max budget (Fin 0))) budget maxFees \<Longrightarrow>
      kept = buys \<and> skipped = []"
proof -
  let ?cash = "decimalMoney (f_max budget (Fin 0))" and ?slack = "sum_list (map (\<lambda>b. decimalMoney (op_RoundingSlack b)) buys)"
  have fees: "0 \<le> decimalMoney maxFees" using assms(4,5) by (intro decimalMoney_f_nonneg) (auto simp: f_nonneg_def elim!: isFiniteE)
  obtain bs atLimit where bs: "scalableBuys maxFees buys = Some (bs, atLimit)" using assms(6) by auto
  note s = scalableBuys_ticks [OF bs]
  have ok: "list_all (\<lambda>b. 0 < ticksOf b \<and> 0 < op_Quantity b \<and> in64 (op_Quantity b)) buys" using s assms(2) by (auto simp: list_all_iff)
  obtain k ratio where se: "searchScale bs atLimit ?slack ?cash budget maxFees = Some (k, ratio)"
    using searchScale_total [OF bs assms(2) fees] by fastforce
  note fit = searchScale_fitting [OF se decimalMoney_max0 scalableBuys_atLimit [OF bs] fees]
  then have r: "0 \<le> ratio" "ratio \<le> 1" "k = ordersAtScale bs ratio" by (simp_all add: fittingBasket_def)
  have o: "kept = k" "scale = scaleFloat ratio"
    "map sk_ClientOrderID skipped = map (\<lambda>(b, _). op_ClientOrderID b) (filter (\<lambda>(b, increment). fst (floorIncrement (of_int (op_Quantity b) * ratio) increment) = 0) bs)"
    using assms(1,3-5) bs se by (auto simp: scaleFractionalBuys_def fractionalSkip_def o_def)
  have m: "kept = map (\<lambda>b. b\<lparr>op_Quantity := scaledTo ratio b\<rparr>) (filter (\<lambda>b. 0 < scaledTo ratio b) buys)"
    "map sk_ClientOrderID skipped = map op_ClientOrderID (filter (\<lambda>b. scaledTo ratio b = 0) buys)"
    using o r(3) s ordersAtScale_map [OF ok r(1,2)] by (simp_all add: o_def)
  then show "\<exists>ratio. 0 \<le> ratio \<and> ratio \<le> 1 \<and> scale = scaleFloat ratio \<and>
     kept = map (\<lambda>b. b\<lparr>op_Quantity := scaledTo ratio b\<rparr>) (filter (\<lambda>b. 0 < scaledTo ratio b) buys) \<and>
     map sk_ClientOrderID skipped = map op_ClientOrderID (filter (\<lambda>b. scaledTo ratio b = 0) buys)" using r o(2) by blast
  show "kept = buys \<and> skipped = []"
    if c: "exactCost buys maxFees = Some c" "basketFits (buys, c, totalCost buys maxFees) ?cash budget maxFees"
  proof (cases "buys = []")
    case True
    then show ?thesis using m by simp
  next
    case False
    then have "kept = buys" "ratio = 1" using searchScale_whole [OF bs assms(2) fees False c] se o(1) by simp_all
    moreover have "filter (\<lambda>b. scaledTo 1 b = 0) buys = []"
      using s scaledTo_whole by (fastforce simp: filter_empty_conv list_all_iff)
    ultimately show ?thesis using m(2) by simp
  qed
qed

text \<open>C14: whatever the budget, the fractional buys the scaling keeps fit it: taken one after another in order, in the very
  floats the gate deducts, none is refused for want of cash, and their exact cost, fees and rounding reserve included,
  is at most the budget. No buy grows. On inputs it accepts (a finite budget, finite fees that are not negative, and every buy a
  fractional one that \<open>scalableBuys\<close> accepts) nothing is lost: all buys are scaled by one ratio between 0 and 1, the recorded
  scale, each is kept at the whole increments its quantity times that ratio comes to, or recorded as skipped when they come to
  none, and a basket that fits as it is is kept whole. Inputs it does not accept are refused whole: nothing is kept.\<close>

theorem ScaleBuys_fits_cash:
  assumes "scaleFractionalBuys buys budget maxFees = (kept, skipped, scale)" and "list_all (\<lambda>b. in64 (op_Quantity b)) buys"
  shows "fractionalRunningCashFits kept budget maxFees \<and>
     (\<exists>c. exactCost kept maxFees = Some c \<and> c \<le> decimalMoney (f_max budget (Fin 0))) \<and>
     list_all (\<lambda>p. \<exists>b \<in> set buys. p = b\<lparr>op_Quantity := op_Quantity p\<rparr> \<and> 0 < op_Quantity p \<and> op_Quantity p \<le> op_Quantity b) kept \<and>
     (if isFinite budget \<and> isFinite maxFees \<and> \<not> f_lt maxFees (Fin 0) \<and> scalableBuys maxFees buys \<noteq> None
      then mset (map op_ClientOrderID kept) + mset (map sk_ClientOrderID skipped) = mset (map op_ClientOrderID buys) \<and>
        (\<exists>ratio. 0 \<le> ratio \<and> ratio \<le> 1 \<and> scale = scaleFloat ratio \<and>
          kept = map (\<lambda>b. b\<lparr>op_Quantity := scaledTo ratio b\<rparr>) (filter (\<lambda>b. 0 < scaledTo ratio b) buys) \<and>
          map sk_ClientOrderID skipped = map op_ClientOrderID (filter (\<lambda>b. scaledTo ratio b = 0) buys)) \<and>
        (\<forall>c. exactCost buys maxFees = Some c \<and> basketFits (buys, c, totalCost buys maxFees) (decimalMoney (f_max budget (Fin 0))) budget maxFees \<longrightarrow>
          kept = buys \<and> skipped = [])
      else kept = [] \<and> skipped = [])"
proof -
  have c: "\<exists>c. exactCost kept maxFees = Some c \<and> c \<le> decimalMoney (f_max budget (Fin 0))"
    using assms(1) by (cases rule: scaleFractionalBuys_cases) (use decimalMoney_max0 in \<open>auto simp: fittingBasket_def\<close>)
  have refused: "kept = [] \<and> skipped = []"
    if "\<not> (isFinite budget \<and> isFinite maxFees \<and> \<not> f_lt maxFees (Fin 0) \<and> scalableBuys maxFees buys \<noteq> None)"
    using that assms(1) unfolding scaleFractionalBuys_def by (cases "scalableBuys maxFees buys") (auto split: if_splits)
  show ?thesis
  proof (cases "isFinite budget \<and> isFinite maxFees \<and> \<not> f_lt maxFees (Fin 0) \<and> scalableBuys maxFees buys \<noteq> None")
    case True
    then have a: "isFinite budget" "isFinite maxFees" "\<not> f_lt maxFees (Fin 0)" "scalableBuys maxFees buys \<noteq> None" by blast+
    note acc = scaleFractionalBuys_accepted [OF assms a]
    from acc(1) obtain ratio where r: "0 \<le> ratio" "ratio \<le> 1" "kept = map (\<lambda>b. b\<lparr>op_Quantity := scaledTo ratio b\<rparr>) (filter (\<lambda>b. 0 < scaledTo ratio b) buys)"
      "map sk_ClientOrderID skipped = map op_ClientOrderID (filter (\<lambda>b. scaledTo ratio b = 0) buys)" by blast
    have "mset (map op_ClientOrderID kept) + mset (map sk_ClientOrderID skipped) = mset (map op_ClientOrderID buys)"
      unfolding r(3,4) using scaled_partition [OF a(4) assms(2) r(1,2)] by (simp add: o_def)
    then show ?thesis using True c acc scaleFractionalBuys_kept [OF assms] unfolding list_all_iff by simp
  next
    case False
    show ?thesis using c refused [OF False] scaleFractionalBuys_kept [OF assms] unfolding list_all_iff if_not_P [OF False] by blast
  qed
qed

text \<open>Two shares at 100 with a fee of 1, scaled to a budget of 101: one share.\<close>

definition buy_example :: "int \<Rightarrow> int \<Rightarrow> f64 \<Rightarrow> order_planned" where
  "buy_example scale quantity limit = \<lparr>op_RoundingSlack = Fin 0, op_FractionalIncrement = (if scale = 0 then '''' else ''0.0001''), op_QuantityScale = scale,
     op_AccountID = ''U1'', op_Tag = ''d1'', op_ClientOrderID = ''c1'', op_InstrumentID = ''A'', op_Side = OrderSideBuy, op_Phase = OrderSideBuy,
     op_OrderType = OrderTypeLimit, op_Quantity = quantity, op_LimitPrice = limit, op_TargetWeight = Fin (1 / 2), op_NetLiquidation = Fin 1000,
     op_HeldQuantity = 0, op_ReferencePrice = limit, op_PriceBand = Fin (1 / 16), op_Sale = noSale\<rparr>"

lemma scale_example:
  "scaleFractionalBuys [buy_example 10000 20000 (Fin 100)] (Fin 101) (Fin 1) = ([buy_example 10000 10000 (Fin 100)], [], Fin (1 / 2))"
  by code_simp

theorem ScaleBuys_fits_cash_witness:
  "fractionalRunningCashFits [buy_example 10000 10000 (Fin 100)] (Fin 101) (Fin 1) \<and>
   scaleFractionalBuys [buy_example 10000 20000 (Fin 100)] (Fin 101) (Fin 1) = ([buy_example 10000 10000 (Fin 100)], [], Fin (1 / 2))"
proof -
  have "list_all (\<lambda>b. in64 (op_Quantity b)) [buy_example 10000 20000 (Fin 100)]" by code_simp
  from ScaleBuys_fits_cash [OF scale_example this] scale_example show ?thesis by blast
qed

text \<open>Whole shares are scaled in floats and the corrected scale is not checked again: three shares at 31.01 with a fee of
  0.35, scaled to a budget of 31.36, keep one share, whose cost in floats is one unit in the last place above the budget.\<close>

lemma whole_scaling_can_exceed_the_budget:
  "(case ScaleBuys [buy_example 0 3 (f_lit (3101 / 100))] (f_lit (3136 / 100)) (f_lit (35 / 100)) of (kept, skipped, scale) \<Rightarrow>
      map op_Quantity kept = [1] \<and> f_lt (f_lit (3136 / 100)) (totalCost kept (f_lit (35 / 100))))"
  by code_simp

section \<open>The budget is never overspent\<close>

datatype (plugins only: code size) budget_event =
  BuyReleased string f64 | BuyFilled string f64 | BuyClosed string | SellPaid f64 | CashGone f64 | BufferHeld f64

fun budget_step :: "ira_budget \<Rightarrow> budget_event \<Rightarrow> ira_budget" where
  "budget_step b (BuyReleased i cost) = ReleaseBuy b i cost"
| "budget_step b (BuyFilled i amount) = fst (FillBuy b i amount)"
| "budget_step b (BuyClosed i) = fst (CloseBuy b i)"
| "budget_step b (SellPaid amount) = AddProceeds b amount"
| "budget_step b (CashGone amount) = RemoveCash b amount"
| "budget_step b (BufferHeld amount) = WithholdCashBuffer b amount"

text \<open>What the buy phase accepts: a buy is released only within what remains; executions, ends, sell proceeds, cash found gone
  and the cash buffer come in any order, with figures that stay finite. An execution may come after its buy's end.\<close>

fun budget_ok :: "ira_budget \<Rightarrow> budget_event \<Rightarrow> bool" where
  "budget_ok b (BuyReleased i cost) \<longleftrightarrow> isFinite cost \<and> f_nonneg cost \<and> f_le cost (Remaining b)"
| "budget_ok b (BuyFilled i amount) \<longleftrightarrow> isFinite amount \<and> f_nonneg amount \<and>
     (case find (\<lambda>c. cb_ClientOrderID c = i) (bg_Buys b) of None \<Rightarrow> True | Some c \<Rightarrow> isFinite (f_add (cb_Spent c) amount))"
| "budget_ok b (BuyClosed i) \<longleftrightarrow> True"
| "budget_ok b (SellPaid amount) \<longleftrightarrow> is_f64 amount \<and> isFinite amount \<and> isFinite (f_add (bg_Proceeds b) amount)"
| "budget_ok b (CashGone amount) \<longleftrightarrow> isFinite amount \<and> isFinite (f_add (bg_Removed b) amount)"
| "budget_ok b (BufferHeld amount) \<longleftrightarrow> isFinite amount"

text \<open>The events that can take what remains below zero: an execution after its buy's end or beyond its worst-case cost, a sell
  whose commission exceeds its price, cash found gone, and a buffer withheld.\<close>

fun draws :: "ira_budget \<Rightarrow> budget_event \<Rightarrow> bool" where
  "draws b (BuyFilled i amount) \<longleftrightarrow> (case find (\<lambda>c. cb_ClientOrderID c = i) (bg_Buys b) of None \<Rightarrow> False
     | Some c \<Rightarrow> cb_Terminal c \<or> \<not> f_le (f_add (cb_Spent c) amount) (cb_WorstCost c))"
| "draws b (SellPaid amount) \<longleftrightarrow> \<not> f_nonneg amount"
| "draws b (CashGone amount) \<longleftrightarrow> True"
| "draws b (BufferHeld amount) \<longleftrightarrow> True"
| "draws b e \<longleftrightarrow> False"

fun drawn :: "ira_budget \<Rightarrow> budget_event list \<Rightarrow> bool" where
  "drawn b [] \<longleftrightarrow> False"
| "drawn b (e # es) \<longleftrightarrow> draws b e \<or> drawn (budget_step b e) es"

inductive budget_run :: "ira_budget \<Rightarrow> budget_event list \<Rightarrow> ira_budget \<Rightarrow> bool" where
  budget_start: "budget_run b [] b"
| budget_next: "budget_ok b e \<Longrightarrow> budget_run (budget_step b e) es b' \<Longrightarrow> budget_run b (e # es) b'"

inductive_cases budget_runE: "budget_run b (e # es) b'"

lemma f_sub_mono:
  "f_le x y \<Longrightarrow> f_le b a \<Longrightarrow> isFinite a \<Longrightarrow> isFinite b \<Longrightarrow> f_le (f_sub x a) (f_sub y b)"
  by (cases x; cases y; cases a; cases b) (auto simp: f_sub_def f_le_rnd_inf intro: f_le_rnd)

lemma foldl_f_sub_mono:
  "list_all2 (\<lambda>a b. f_le b a \<and> isFinite a \<and> isFinite b) xs ys \<Longrightarrow> f_le x y \<Longrightarrow> f_le (foldl f_sub x xs) (foldl f_sub y ys)"
  by (induction xs ys arbitrary: x y rule: list_all2_induct) (auto intro: f_sub_mono)

lemma f_sub_within: "isFinite c \<Longrightarrow> f_le c l \<Longrightarrow> f_le (Fin 0) (f_sub l c)"
  by (cases l; cases c) (auto simp: f_sub_def intro: f_le_0_rnd)

lemma f_sub_0: "is_f64 x \<Longrightarrow> f_sub x (Fin 0) = x"
  by (cases x) (auto simp: f_sub_def is_f64_Fin_rnd rnd_f64)

lemma foldl_f_sub_NaN: "f_le (Fin 0) (foldl f_sub x xs) \<Longrightarrow> x \<noteq> NaN"
proof (induction xs arbitrary: x)
  case (Cons y ys)
  then have "f_sub x y \<noteq> NaN" by simp
  then show ?case by (auto simp: f_sub_def)
qed auto

definition buyOK :: "committed_buy \<Rightarrow> bool" where
  "buyOK c \<longleftrightarrow> isFinite (cb_WorstCost c) \<and> f_nonneg (cb_Spent c) \<and> f_le (cb_Spent c) (cb_WorstCost c)"

text \<open>Every buy's record is in order and what is committed is covered.\<close>

definition budgetCovered :: "ira_budget \<Rightarrow> bool" where
  "budgetCovered b \<longleftrightarrow> list_all buyOK (bg_Buys b) \<and> f_le (Fin 0) (uncommitted b) \<and> isFinite (bg_Start b) \<and> isFinite (bg_Removed b) \<and>
     (f_lt (Fin 0) (bg_CashBuffer b) \<longrightarrow> isFinite (bg_CashBuffer b)) \<and> is_f64 (bg_Proceeds b) \<and> isFinite (bg_Proceeds b)"

lemma buyOK_committed: "buyOK c \<Longrightarrow> isFinite (committed c) \<and> f_nonneg (committed c) \<and> isFinite (cb_Spent c) \<and> f_le (cb_Spent c) (committed c) \<and>
    (\<not> cb_Terminal c \<longrightarrow> committed c = cb_WorstCost c)"
  by (cases "cb_WorstCost c"; cases "cb_Spent c") (auto simp: buyOK_def committed_def f_nonneg_def max_def)

lemma updBuy_find:
  "list_all2 (\<lambda>a b. b = a \<or> (find (\<lambda>c. cb_ClientOrderID c = i) cs = Some a \<and> b = f a)) cs (fst (updBuy i f cs))"
proof (induction cs)
  case (Cons c cs)
  show ?case
  proof (cases "cb_ClientOrderID c = i")
    case True
    then show ?thesis by (auto intro: list.rel_refl)
  next
    case False
    then show ?thesis using Cons.IH by (auto simp: case_prod_unfold Let_def)
  qed
qed simp

lemma budgetCash_update [simp]: "budgetCash (b\<lparr>bg_Buys := cs\<rparr>) = budgetCash b" "spendable (b\<lparr>bg_Buys := cs\<rparr>) = spendable b"
  by (simp_all add: budgetCash_def spendable_def)

text \<open>A change of the buys that keeps each in order and commits no more keeps the budget covered.\<close>

lemma budgetCovered_buys:
  assumes "budgetCovered b" and "list_all2 (\<lambda>a c. buyOK a \<longrightarrow> buyOK c \<and> f_le (committed c) (committed a)) (bg_Buys b) cs"
  shows "budgetCovered (b\<lparr>bg_Buys := cs\<rparr>)"
proof -
  have ok: "list_all buyOK (bg_Buys b)" "list_all buyOK cs" "list_all2 (\<lambda>a c. buyOK a \<and> buyOK c \<and> f_le (committed c) (committed a)) (bg_Buys b) cs"
    using assms by (auto simp: budgetCovered_def list_all2_conv_all_nth list_all_length)
  have "list_all2 (\<lambda>a c. f_le c a \<and> isFinite a \<and> isFinite c) (map committed (bg_Buys b)) (map committed cs)"
    using ok(3) by (auto simp: list_all2_conv_all_nth dest: buyOK_committed)
  moreover have "f_le (spendable b) (spendable b)" using assms(1) by (intro f_le_refl) (auto simp: budgetCovered_def uncommitted_def dest: foldl_f_sub_NaN)
  ultimately have "f_le (uncommitted b) (uncommitted (b\<lparr>bg_Buys := cs\<rparr>))" unfolding uncommitted_def by (simp add: foldl_f_sub_mono)
  then show ?thesis using assms(1) ok(2) f_le_trans by (auto simp: budgetCovered_def)
qed

lemma uncommitted_release: "uncommitted (ReleaseBuy b i cost) = f_sub (uncommitted b) (f_max cost (Fin 0))"
  by (simp add: uncommitted_def ReleaseBuy_def committed_def)

lemma release_covered:
  assumes "budgetCovered b" and "budget_ok b (BuyReleased i cost)"
  shows "budgetCovered (ReleaseBuy b i cost)"
proof -
  have c: "isFinite cost" "f_nonneg cost" "f_le cost (Remaining b)" "f_le (Fin 0) (uncommitted b)" using assms by (simp_all add: budgetCovered_def)
  then have m: "f_max cost (Fin 0) = cost" by (cases cost) (auto simp: f_nonneg_def)
  have "f_le cost (uncommitted b)" using c
    by (cases "uncommitted b"; cases cost) (auto simp: Remaining_def f_nonneg_def f_max_def split: if_splits)
  then have "f_le (Fin 0) (uncommitted (ReleaseBuy b i cost))" unfolding uncommitted_release m using c(1) by (rule f_sub_within [rotated])
  moreover have "buyOK \<lparr>cb_ClientOrderID = i, cb_WorstCost = cost, cb_Spent = Fin 0, cb_Terminal = False\<rparr>"
    using c(1,2) by (simp add: buyOK_def f_nonneg_def)
  ultimately show ?thesis using assms(1) by (simp add: budgetCovered_def ReleaseBuy_def)
qed

lemma paid_covered:
  assumes "budgetCovered b" and "budget_ok b (SellPaid amount)" and "f_nonneg amount"
  shows "budgetCovered (AddProceeds b amount)"
proof -
  have p: "is_f64 (bg_Proceeds b)" "isFinite (bg_Proceeds b)" "isFinite amount" "f_nonneg amount" "is_f64 amount" "isFinite (f_add (bg_Proceeds b) amount)"
    using assms by (simp_all add: budgetCovered_def)
  have up: "f_le (bg_Proceeds b) (f_add (bg_Proceeds b) amount)"
  proof (cases "bg_Proceeds b")
    case (Fin r)
    obtain a where a: "amount = Fin a" "0 \<le> a" using p by (auto simp: f_nonneg_def elim!: isFiniteE)
    show ?thesis using f_le_rnd [of r "r + a"] a p(1) unfolding Fin by (simp add: rnd_f64)
  qed (use p in \<open>auto elim!: isFiniteE\<close>)
  have "f_le (f_add (bg_Start b) (bg_Proceeds b)) (f_add (bg_Start b) (f_add (bg_Proceeds b) amount))"
    using up assms(1) by (cases "bg_Start b"; cases "bg_Proceeds b"; cases "f_add (bg_Proceeds b) amount")
      (auto simp: budgetCovered_def f_le_rnd_inf intro: f_le_rnd)
  then have cash: "f_le (budgetCash b) (budgetCash (AddProceeds b amount))"
    using assms(1) by (auto simp: budgetCash_def AddProceeds_def budgetCovered_def f_le_refl elim!: isFiniteE intro!: f_sub_mono)
  have sp: "f_le (spendable b) (spendable (AddProceeds b amount))"
  proof (cases "f_lt (Fin 0) (bg_CashBuffer b)")
    case True
    then have "isFinite (bg_CashBuffer b)" using assms(1) by (simp add: budgetCovered_def)
    then show ?thesis using True cash f_sub_mono [OF cash, of "bg_CashBuffer b" "bg_CashBuffer b"]
      by (auto simp: spendable_def AddProceeds_def f_le_refl elim!: isFiniteE)
  next
    case False
    then show ?thesis using cash by (simp add: spendable_def AddProceeds_def)
  qed
  have "list_all2 (\<lambda>a c. f_le c a \<and> isFinite a \<and> isFinite c) (map committed (bg_Buys b)) (map committed (bg_Buys b))"
    using assms(1) by (auto simp: budgetCovered_def list_all_iff list_all2_conv_all_nth dest!: nth_mem buyOK_committed elim!: isFiniteE)
  then have "f_le (uncommitted b) (uncommitted (AddProceeds b amount))"
    using foldl_f_sub_mono [OF _ sp] by (simp add: uncommitted_def AddProceeds_def)
  then show ?thesis using assms(1) p f_le_trans by (auto simp: budgetCovered_def AddProceeds_def intro: is_f64_f_add)
qed

lemma step_covered:
  assumes "budgetCovered b" and "budget_ok b e" and "\<not> draws b e"
  shows "budgetCovered (budget_step b e)"
proof (cases e)
  case (BuyReleased i cost)
  then show ?thesis using release_covered assms by simp
next
  case (SellPaid amount)
  then show ?thesis using paid_covered assms by simp
next
  case (BuyFilled i amount)
  let ?f = "\<lambda>c. c\<lparr>cb_Spent := f_add (cb_Spent c) amount\<rparr>"
  have "list_all2 (\<lambda>a c. buyOK a \<longrightarrow> buyOK c \<and> f_le (committed c) (committed a)) (bg_Buys b) (fst (updBuy i ?f (bg_Buys b)))"
    using updBuy_find [of i "bg_Buys b" ?f]
  proof (rule list_all2_mono)
    fix a c assume ac: "c = a \<or> (find (\<lambda>c. cb_ClientOrderID c = i) (bg_Buys b) = Some a \<and> c = ?f a)"
    show "buyOK a \<longrightarrow> buyOK c \<and> f_le (committed c) (committed a)"
    proof
      assume a: "buyOK a"
      have r: "f_le (committed a) (committed a)" using buyOK_committed [OF a] by (auto intro: f_le_refl elim!: isFiniteE)
      from ac show "buyOK c \<and> f_le (committed c) (committed a)"
      proof
        assume c: "find (\<lambda>c. cb_ClientOrderID c = i) (bg_Buys b) = Some a \<and> c = ?f a"
        then have "\<not> cb_Terminal a" "f_le (f_add (cb_Spent a) amount) (cb_WorstCost a)" "f_nonneg amount" using assms(2,3) BuyFilled by simp_all
        then have "buyOK c" "\<not> cb_Terminal c" "cb_WorstCost c = cb_WorstCost a" using a c by (auto simp: buyOK_def intro: f_nonneg_add)
        then show ?thesis using buyOK_committed [of c] buyOK_committed [OF a] r \<open>\<not> cb_Terminal a\<close> by simp
      qed (use a r in simp)
    qed
  qed
  then show ?thesis using budgetCovered_buys [OF assms(1)] by (simp add: BuyFilled FillBuy_def case_prod_unfold Let_def)
next
  case (BuyClosed i)
  let ?f = "\<lambda>c. c\<lparr>cb_Terminal := True\<rparr>"
  have "list_all2 (\<lambda>a c. buyOK a \<longrightarrow> buyOK c \<and> f_le (committed c) (committed a)) (bg_Buys b) (fst (updBuy i ?f (bg_Buys b)))"
    using updBuy_find [of i "bg_Buys b" ?f]
  proof (rule list_all2_mono)
    fix a c assume ac: "c = a \<or> (find (\<lambda>c. cb_ClientOrderID c = i) (bg_Buys b) = Some a \<and> c = ?f a)"
    show "buyOK a \<longrightarrow> buyOK c \<and> f_le (committed c) (committed a)"
    proof
      assume a: "buyOK a"
      then have c: "buyOK c" using ac by (auto simp: buyOK_def)
      have "committed c = committed a \<or> committed c = cb_Spent a" using ac by (auto simp: committed_def)
      then have "f_le (committed c) (committed a)" using buyOK_committed [OF a] by (auto intro: f_le_refl elim!: isFiniteE)
      with c show "buyOK c \<and> f_le (committed c) (committed a)" by simp
    qed
  qed
  then show ?thesis using budgetCovered_buys [OF assms(1)] by (simp add: BuyClosed CloseBuy_def case_prod_unfold Let_def)
qed (use assms(3) in simp_all)

lemma run_covered: "budget_run b es b' \<Longrightarrow> \<not> drawn b es \<Longrightarrow> budgetCovered b \<Longrightarrow> budgetCovered b'"
  by (induction rule: budget_run.induct) (auto intro: step_covered)

text \<open>The records of a budget in any run: every figure finite.\<close>

definition budgetRecorded :: "ira_budget \<Rightarrow> bool" where
  "budgetRecorded b \<longleftrightarrow> list_all (\<lambda>c. isFinite (cb_WorstCost c) \<and> isFinite (cb_Spent c)) (bg_Buys b) \<and> isFinite (bg_Start b) \<and>
     isFinite (bg_Removed b) \<and> isFinite (bg_Proceeds b) \<and> (f_lt (Fin 0) (bg_CashBuffer b) \<longrightarrow> isFinite (bg_CashBuffer b))"

lemma covered_recorded: "budgetCovered b \<Longrightarrow> budgetRecorded b"
  by (simp add: budgetCovered_def budgetRecorded_def list_all_iff) (metis buyOK_committed buyOK_def)

lemma f_sub_not_NaN: "x \<noteq> NaN \<Longrightarrow> isFinite y \<Longrightarrow> f_sub x y \<noteq> NaN"
  by (cases x; cases y) (auto simp: f_sub_def)

lemma updBuy_recorded:
  assumes "list_all P cs" and "\<And>c. find (\<lambda>c. cb_ClientOrderID c = i) cs = Some c \<Longrightarrow> P c \<Longrightarrow> P (f c)"
  shows "list_all P (fst (updBuy i f cs))"
  using updBuy_find [of i cs f] assms by (fastforce simp: list_all_length list_all2_conv_all_nth)

lemma step_recorded: "budgetRecorded b \<Longrightarrow> budget_ok b e \<Longrightarrow> budgetRecorded (budget_step b e)"
proof (cases e)
  case (BuyFilled i amount)
  assume "budgetRecorded b" "budget_ok b e"
  then show ?thesis unfolding BuyFilled
    by (auto simp: budgetRecorded_def FillBuy_def case_prod_unfold Let_def intro!: updBuy_recorded)
next
  case (BuyClosed i)
  assume "budgetRecorded b"
  then show ?thesis unfolding BuyClosed
    by (auto simp: budgetRecorded_def CloseBuy_def case_prod_unfold Let_def intro!: updBuy_recorded)
qed (auto simp: budgetRecorded_def ReleaseBuy_def AddProceeds_def RemoveCash_def WithholdCashBuffer_def)

lemma run_recorded: "budget_run b es b' \<Longrightarrow> budgetRecorded b \<Longrightarrow> budgetRecorded b'"
  by (induction rule: budget_run.induct) (auto intro: step_recorded)

lemma recorded_spendable:
  assumes "budgetRecorded b"
  shows "spendable b \<noteq> NaN"
proof -
  obtain s p where "bg_Start b = Fin s" "bg_Proceeds b = Fin p" and r: "isFinite (bg_Removed b)"
    using assms by (auto simp: budgetRecorded_def elim!: isFiniteE)
  then have "f_add (bg_Start b) (bg_Proceeds b) \<noteq> NaN" by simp
  then have c: "budgetCash b \<noteq> NaN" unfolding budgetCash_def using r by (rule f_sub_not_NaN)
  then have "f_lt (Fin 0) (bg_CashBuffer b) \<Longrightarrow> f_sub (budgetCash b) (bg_CashBuffer b) \<noteq> NaN"
    using assms by (intro f_sub_not_NaN) (simp_all add: budgetRecorded_def)
  with c show ?thesis by (simp add: spendable_def)
qed

lemma recorded_spent:
  assumes "budgetRecorded b"
  shows "f_le (uncommitted b) (foldl f_sub (spendable b) (map cb_Spent (bg_Buys b)))"
proof -
  have "list_all2 (\<lambda>a c. f_le c a \<and> isFinite a \<and> isFinite c) (map committed (bg_Buys b)) (map cb_Spent (bg_Buys b))"
    using assms by (auto simp: budgetRecorded_def list_all_length list_all2_conv_all_nth committed_def dest!: spec elim!: isFiniteE)
  moreover have "f_le (spendable b) (spendable b)" using assms
    by (intro f_le_refl recorded_spendable)
  ultimately show ?thesis unfolding uncommitted_def by (rule foldl_f_sub_mono)
qed

lemma release_within:
  assumes "budget_ok b (BuyReleased i cost)" and "f_lt (Fin 0) cost"
  shows "f_le (Fin 0) (uncommitted (ReleaseBuy b i cost))"
proof -
  from assms have c: "isFinite cost" "f_le cost (Remaining b)" and m: "f_max cost (Fin 0) = cost"
    by (auto simp: f_max_def f_nonneg_def elim!: isFiniteE)
  have "f_le cost (uncommitted b)" using c assms(2)
    by (cases "uncommitted b"; cases cost) (auto simp: Remaining_def f_max_def split: if_splits)
  then show ?thesis unfolding uncommitted_release m using c(1) by (rule f_sub_within [rotated])
qed

text \<open>The executions of a run under an order ID, and the record of a released buy after it.\<close>

fun fillsUnder :: "string \<Rightarrow> budget_event list \<Rightarrow> f64 list" where
  "fillsUnder i [] = []"
| "fillsUnder i (BuyFilled j amount # es) = (if j = i then [amount] else []) @ fillsUnder i es"
| "fillsUnder i (e # es) = fillsUnder i es"

lemma find_updBuy:
  assumes "\<And>c. cb_ClientOrderID (f c) = cb_ClientOrderID c"
  shows "find (\<lambda>c. cb_ClientOrderID c = i) (fst (updBuy j f cs)) =
    (if i = j then map_option f (find (\<lambda>c. cb_ClientOrderID c = i) cs) else find (\<lambda>c. cb_ClientOrderID c = i) cs)"
  by (induction cs) (auto simp: assms case_prod_unfold Let_def)

lemma find_append_Some: "find P xs = Some c \<Longrightarrow> find P (xs @ ys) = Some c"
  by (induction xs) (auto split: if_splits)

lemma step_spent:
  assumes "find (\<lambda>c. cb_ClientOrderID c = i) (bg_Buys b) = Some c"
  shows "\<exists>c'. find (\<lambda>c. cb_ClientOrderID c = i) (bg_Buys (budget_step b e)) = Some c' \<and> cb_Spent c' = foldl f_add (cb_Spent c) (fillsUnder i [e])"
  using assms by (cases e) (auto simp: ReleaseBuy_def FillBuy_def CloseBuy_def AddProceeds_def RemoveCash_def WithholdCashBuffer_def
      find_updBuy case_prod_unfold Let_def find_append_Some)

lemma fillsUnder_Cons: "fillsUnder i (e # es) = fillsUnder i [e] @ fillsUnder i es"
  by (cases e) auto

lemma run_spent:
  "budget_run b es b' \<Longrightarrow> find (\<lambda>c. cb_ClientOrderID c = i) (bg_Buys b) = Some c \<Longrightarrow>
     \<exists>c'. find (\<lambda>c. cb_ClientOrderID c = i) (bg_Buys b') = Some c' \<and> cb_Spent c' = foldl f_add (cb_Spent c) (fillsUnder i es)"
proof (induction arbitrary: c rule: budget_run.induct)
  case (budget_next b e es b')
  from step_spent [OF budget_next.prems, of e] obtain c1 where c1: "find (\<lambda>c. cb_ClientOrderID c = i) (bg_Buys (budget_step b e)) = Some c1"
    "cb_Spent c1 = foldl f_add (cb_Spent c) (fillsUnder i [e])" by blast
  from budget_next.IH [OF c1(1)] show ?case unfolding fillsUnder_Cons [of i e es] c1(2) by simp
qed simp

text \<open>C15: what the budget of the buy phase counts, and when it can be overspent. In a run of it every release is within what
  remains, and executions (also of a buy that has ended), ends, sell proceeds, cash found gone and the cash buffer come in any
  order, with figures that stay finite. In every run from a covered budget, every execution of a released buy is added to what
  that buy spent, whether the buy has ended or not; what is uncommitted is at most the cash less everything spent; and a buy with
  a cost is released only while the cash covers it with all that is committed, so that nothing with a cost is released once a
  late execution has taken the cash below what is committed. And a run in which no execution comes after its buy's end or beyond
  its worst-case cost, no sell costs more than it pays and no cash is taken away stays covered: what remains is never negative,
  and neither is the cash less everything spent.\<close>

theorem Budget_never_overspent:
  assumes "budget_run b es b'" and "budgetCovered b"
  shows "(\<forall>i c. find (\<lambda>c. cb_ClientOrderID c = i) (bg_Buys b) = Some c \<longrightarrow>
        (\<exists>c'. find (\<lambda>c. cb_ClientOrderID c = i) (bg_Buys b') = Some c' \<and> cb_Spent c' = foldl f_add (cb_Spent c) (fillsUnder i es))) \<and>
     f_le (uncommitted b') (foldl f_sub (spendable b') (map cb_Spent (bg_Buys b'))) \<and>
     (\<forall>i cost. budget_ok b' (BuyReleased i cost) \<and> f_lt (Fin 0) cost \<longrightarrow> f_le (Fin 0) (uncommitted (ReleaseBuy b' i cost))) \<and>
     (\<not> drawn b es \<longrightarrow> f_le (Fin 0) (Remaining b') \<and> f_le (Fin 0) (foldl f_sub (spendable b') (map cb_Spent (bg_Buys b'))))"
proof -
  have s: "f_le (uncommitted b') (foldl f_sub (spendable b') (map cb_Spent (bg_Buys b')))"
    by (intro recorded_spent run_recorded [OF assms(1)] covered_recorded [OF assms(2)])
  have "f_le (Fin 0) (Remaining b') \<and> f_le (Fin 0) (foldl f_sub (spendable b') (map cb_Spent (bg_Buys b')))" if "\<not> drawn b es"
  proof -
    have u: "f_le (Fin 0) (uncommitted b')" using run_covered [OF assms(1) that assms(2)] by (simp add: budgetCovered_def)
    then have "f_le (Fin 0) (Remaining b')" by (cases "uncommitted b'") (auto simp: Remaining_def f_max_def)
    with u s show ?thesis using f_le_trans by blast
  qed
  with s release_within show ?thesis using run_spent [OF assms(1)] by blast
qed

text \<open>A thousand dollars: a buy of at most 600 fills 250 and ends, and the rest pays for another. A late execution of the first,
  for 100, takes the uncommitted cash to 50 below zero, and no further buy can be released.\<close>

definition budget_example :: ira_budget where
  "budget_example = foldl budget_step (NewBudget (Fin 1000)) [BuyReleased ''a'' (Fin 600), BuyFilled ''a'' (Fin 250), BuyClosed ''a'', BuyReleased ''b'' (Fin 700)]"

lemma late_fill_counted:
  "budget_ok budget_example (BuyFilled ''a'' (Fin 100)) \<and> Remaining (budget_step budget_example (BuyFilled ''a'' (Fin 100))) = Fin (- 50) \<and>
   \<not> budget_ok (budget_step budget_example (BuyFilled ''a'' (Fin 100))) (BuyReleased ''c'' (Fin 1))"
  by code_simp

theorem Budget_never_overspent_witness:
  "Remaining budget_example = Fin 50 \<and> f_le (Fin 0) (Remaining budget_example)"
proof -
  let ?es = "[BuyReleased ''a'' (Fin 600), BuyFilled ''a'' (Fin 250), BuyClosed ''a'', BuyReleased ''b'' (Fin 700)]"
  have "budget_run (NewBudget (Fin 1000)) ?es budget_example"
    unfolding budget_example_def foldl.simps by (intro budget_next budget_start; code_simp)
  moreover have "budgetCovered (NewBudget (Fin 1000))" by code_simp
  moreover have "\<not> drawn (NewBudget (Fin 1000)) ?es" by code_simp
  moreover have "Remaining budget_example = Fin 50" by code_simp
  ultimately show ?thesis using Budget_never_overspent by blast
qed

end
