(* ===== verification/IraGate.thy ===== *)
theory IraGate
  imports IraScaling RiskSafety
begin

text \<open>
  The scaling of an IRA's buys against the gate that checks them (\<open>orderplan/ira.go\<close>, \<open>risklimit/risklimit.go\<close>). The
  scaling runs the gate's own deductions ahead of it, in floats and in the order of release, so that the gate has no
  cause to refuse a kept buy for want of cash: what the gate deducts is at most what the scaling deducted, because a
  buy the gate refuses for another reason is not deducted at all.
\<close>

section \<open>Refusals for want of cash\<close>


definition shortOfCash :: "gate_outcome \<Rightarrow> bool" where
  "shortOfCash out \<longleftrightarrow> (case out_Refused out of None \<Rightarrow> False | Some r \<Rightarrow> ref_Reason r = RefusedInsufficientCash)"

lemma shortOfCash_simps [simp]:
  "shortOfCash (refuse g ord f reason d) \<longleftrightarrow> reason = RefusedInsufficientCash"
  "shortOfCash (alertRefusal a out) \<longleftrightarrow> shortOfCash out"
  "shortOfCash (snd (haltGate g out d' c)) \<longleftrightarrow> shortOfCash out"
  "shortOfCash (snd (degradeGate g out i d' c)) \<longleftrightarrow> shortOfCash out"
  "\<not> shortOfCash (snd (releaseOrder g ord f))"
  by (simp_all add: shortOfCash_def alertRefusal_def refuse_def refusal_def releaseOrder_def noOutcome_def Let_def split: option.splits)

lemma breach_not_short: "breach g ord f counted book unvalued = Some (RefusedInsufficientCash, d) \<Longrightarrow> f_lt (rf_CashAvailable f) (rf_BuyCost f)"
  by (auto simp: breach_def Let_def split: if_splits)

lemma checkOrder_not_short:
  assumes "g_ira g" "orderErrs g ord = []" "op_Side (o_Planned ord) = OrderSideBuy" "gb_CashAvailable book = Fin c" "l \<le> c"
    and "op_RoundingSlack (o_Planned ord) = g_roundingSlack g" "\<not> f_lt (Fin l) (OrderBuyCost (o_Planned ord) (g_maxFees g))"
  shows "\<not> shortOfCash (snd (checkOrder g ord n counted book))"
proof -
  obtain cost where c: "debit g ord = Inr cost" "OrderBuyCost (o_Planned ord) (g_maxFees g) = rnd cost"
    using assms(1,3,6,7) by (auto simp: debit_def OrderBuyCost_def Let_def split: sum.splits)
  let ?f = "fst (orderFigures g ord n book)" and ?u = "snd (orderFigures g ord n book)"
  have f: "rf_BuyCost ?f = rnd cost" "rf_CashAvailable ?f = Fin c"
    using gateFigures_simps(5) [of g ord n book "rnd cost"] assms(1,3,4) c by (simp_all add: orderFigures_def Let_def)
  have "\<not> f_lt (Fin c) (rnd cost)" using assms(5,7) unfolding c(2) by (cases "rnd cost") auto
  then have b: "breach g ord ?f counted book ?u \<noteq> Some (RefusedInsufficientCash, d)" for d using f breach_not_short by metis
  then have "\<not> shortOfCash (snd (checkLimits g ord ?f counted book ?u))"
    unfolding checkLimits_def Let_def by (auto split: option.splits)
  then show ?thesis using orderErrs_buy_noSale [OF assms(2,3)] c(1)
    by (auto simp: checkOrder_def Let_def split_beta openStale_def split: option.splits)
qed

lemma OrderBuyCost_typed:
  assumes "\<not> f_lt (Fin l) (OrderBuyCost p fees)" "is_f64 (op_LimitPrice p)" "is_f64 fees" "is_f64 (op_RoundingSlack p)"
  shows "\<exists>k. OrderBuyCost p fees = Fin k \<and> 0 \<le> k \<and> k \<le> l"
proof -
  obtain cost where c: "BuyReservation (op_Quantity p) (op_QuantityScale p) (op_LimitPrice p) fees (op_RoundingSlack p) = Inr cost"
    using assms(1) by (auto simp: OrderBuyCost_def split: sum.splits)
  have k: "0 \<le> cost" "isFinite (rnd cost)" using BuyReservation_nonneg [OF c assms(2-4)] by simp_all
  then have "rnd cost = Fin (rndq cost)" "0 \<le> rndq cost" by (auto simp: isFinite_rnd rndq_nonneg)
  moreover have "OrderBuyCost p fees = rnd cost" using c by (simp add: OrderBuyCost_def)
  ultimately show ?thesis using assms(1) by auto
qed

lemma releasedCost_buy:
  assumes "g_ira g" "op_Side (o_Planned ord) = OrderSideBuy" "op_RoundingSlack (o_Planned ord) = g_roundingSlack g"
    "isFinite (OrderBuyCost (o_Planned ord) (g_maxFees g))" "releasedCost (snd (checkOrder g ord n counted book)) \<noteq> []"
  shows "releasedCost (snd (checkOrder g ord n counted book)) = [OrderBuyCost (o_Planned ord) (g_maxFees g)]"
proof -
  obtain cost where c: "debit g ord = Inr cost" "OrderBuyCost (o_Planned ord) (g_maxFees g) = rnd cost"
    using assms(1-4) by (auto simp: debit_def OrderBuyCost_def Let_def split: sum.splits)
  have f: "rf_BuyCost (fst (orderFigures g ord n book)) = rnd cost"
    using gateFigures_simps(5) [of g ord n book "rnd cost"] assms(1,2) c by (simp add: orderFigures_def Let_def)
  have "checkOrder g ord n counted book = releaseOrder (afterIssue g ord) ord (fst (orderFigures g ord n book))"
    using checkOrder_cases [where g = g and ord = ord and n = n and book = book and counted = counted] assms(5)
    by (auto simp: refuses_def releasedCost_def)
  then show ?thesis using assms(2) f c(2) by (simp add: releasedCost_def releaseOrder_def noOutcome_def Let_def)
qed

text \<open>An order the plan holds, as the gate checks it: a buy that reserves what the scaling reserved for it.\<close>

definition reservedBuy :: "gate \<Rightarrow> order_planned \<Rightarrow> bool" where
  "reservedBuy g p \<longleftrightarrow> op_Side p = OrderSideBuy \<and> op_RoundingSlack p = g_roundingSlack g"

lemma checkPlan_not_short:
  assumes "g_ira g" "cash_typed g plan" "\<forall>ord \<in> set plan. orderErrs g ord = []" "\<forall>ord \<in> set plan. reservedBuy g (o_Planned ord)"
    and "gb_CashAvailable book = Fin c" "is_f64 (Fin c)" "is_f64 (Fin l)" "l \<le> c" "0 \<le> l"
    and "fractionalRunningCashFits (map o_Planned plan) (Fin l) (g_maxFees g)"
  shows "list_all (\<lambda>out. \<not> shortOfCash out) (snd (checkPlan g n counted book plan))"
  using assms
proof (induction plan arbitrary: g book c l)
  case (Cons ord plan)
  let ?x = "checkOrder g ord n counted book" and ?cost = "OrderBuyCost (o_Planned ord) (g_maxFees g)"
  note s = checkOrder_same [of g ord n counted book]
  have fits: "\<not> f_lt (Fin l) ?cost" "fractionalRunningCashFits (map o_Planned plan) (f_sub (Fin l) ?cost) (g_maxFees g)"
    using Cons.prems(10) by (auto split: if_splits)
  have first: "\<not> shortOfCash (snd ?x)"
    using Cons.prems fits(1) by (intro checkOrder_not_short [where c = c and l = l]) (auto simp: reservedBuy_def)
  obtain k where k: "?cost = Fin k" "0 \<le> k" "k \<le> l"
    using OrderBuyCost_typed [OF fits(1)] Cons.prems(2,4) by (auto simp: cash_typed_def reservedBuy_def)
  obtain l1 where l1: "f_sub (Fin l) (Fin k) = Fin l1" "is_f64 (Fin l1)" "0 \<le> l1" "l1 \<le> l" using sub_fits [OF Cons.prems(7) k(2,3)] by blast
  obtain c1 where c1: "foldl f_sub (Fin c) (releasedCost (snd ?x)) = Fin c1" "is_f64 (Fin c1)" "0 \<le> c1" "c1 \<le> c"
    using checkOrder_cash [of g book c ord n counted] Cons.prems by (auto simp: cash_typed_def)
  have "l1 \<le> c1"
  proof (cases "releasedCost (snd ?x)")
    case Nil
    then show ?thesis using c1 l1 Cons.prems(8) by simp
  next
    case (Cons y ys)
    then have "releasedCost (snd ?x) = [?cost]" using releasedCost_buy [of g ord n counted book] Cons.prems(1,4) k(1) by (auto simp: reservedBuy_def)
    then have "f_le (f_sub (Fin l) (Fin k)) (f_sub (Fin c) (Fin k))" using Cons.prems(8) by (intro f_sub_mono) auto
    then show ?thesis using c1 l1 \<open>releasedCost (snd ?x) = [?cost]\<close> k(1) by simp
  qed
  moreover have "gb_CashAvailable (applyRelease book ord (snd ?x)) = Fin c1"
    using applyRelease_cash [OF answers_checkOrder] Cons.prems(5) c1(1) by simp
  ultimately have "list_all (\<lambda>out. \<not> shortOfCash out) (snd (checkPlan (fst ?x) n counted (applyRelease book ord (snd ?x)) plan))"
    using Cons.prems s same_account_orderErrs [OF s] fits(2) k(1) l1 c1
    by (intro Cons.IH [of "fst ?x" "applyRelease book ord (snd ?x)" c1 l1])
      (auto simp: same_account_def gate_limits.truncate_def cash_typed_def reservedBuy_def)
  then show ?case using first by (simp add: split_beta Let_def)
qed simp

section \<open>What the scaling keeps\<close>

text \<open>C16: the scaling and the gate agree on cash. Of the buys the fractional scaling keeps out of the cash available,
  the gate refuses none for insufficient cash, whatever else it refuses and whichever of them are released before.\<close>

theorem kept_buys_never_short_of_cash:
  assumes "scaleFractionalBuys buys (gb_CashAvailable book) (g_maxFees g) = (kept, skipped, scale)"
    and "list_all (\<lambda>b. in64 (op_Quantity b)) buys" and "\<forall>b \<in> set buys. reservedBuy g b"
    and "map o_Planned plan = kept" and "Check g book plan = Inr (g', outs)"
    and "g_ira g" "cash_typed g plan" "gb_CashAvailable book = Fin c" "is_f64 (Fin c)"
  shows "length outs = length kept \<and> list_all (\<lambda>out. \<not> shortOfCash out) outs"
proof (cases plan)
  case Nil
  then show ?thesis using assms(4,5) by (auto simp: Check_plan)
next
  case (Cons ord rest)
  let ?g = "freshCheck g (gb_At book)"
  obtain n counted where p: "checkPlan ?g n counted book plan = (g', outs)" "planErrs g book plan = []" using assms(5) by (auto simp: Check_plan)
  have s: "same_account g ?g" by (rule freshCheck_closed) (simp_all add: same_account_def gate_limits.truncate_def)
  then have l: "g_ira ?g" "g_maxFees ?g = g_maxFees g" "g_roundingSlack ?g = g_roundingSlack g" "cash_typed ?g plan"
    using assms(6,7) by (simp_all add: same_account_def gate_limits.truncate_def cash_typed_def)
  have o: "\<forall>ord\<in>set plan. orderErrs ?g ord = []" using planErrs_orders [OF p(2)] same_account_orderErrs [OF s] by simp
  note fits = scaleFractionalBuys_kept(1) [OF assms(1,2), folded assms(4), unfolded assms(8)]
  have r: "\<forall>ord \<in> set plan. reservedBuy ?g (o_Planned ord)"
  proof
    fix ord assume "ord \<in> set plan"
    then have "o_Planned ord \<in> set kept" unfolding assms(4) [symmetric] by simp
    then obtain b where b: "b \<in> set buys" "o_Planned ord = b\<lparr>op_Quantity := op_Quantity (o_Planned ord)\<rparr>"
      using scaleFractionalBuys_kept(2) [OF assms(1,2)] by blast
    have "op_Side (o_Planned ord) = op_Side b" "op_RoundingSlack (o_Planned ord) = op_RoundingSlack b" by (subst b(2), simp)+
    then show "reservedBuy ?g (o_Planned ord)" using assms(3) b(1) l(3) by (auto simp: reservedBuy_def)
  qed
  have "0 \<le> c"
  proof -
    have "\<not> f_lt (Fin c) (OrderBuyCost (o_Planned ord) (g_maxFees g))" using fits by (simp add: Cons split: if_splits)
    then obtain k where "0 \<le> k" "k \<le> c"
      using OrderBuyCost_typed [of c "o_Planned ord" "g_maxFees g"] assms(7) l r by (auto simp: Cons cash_typed_def reservedBuy_def)
    then show ?thesis by simp
  qed
  then have "list_all (\<lambda>out. \<not> shortOfCash out) (snd (checkPlan ?g n counted book plan))"
    using fits l by (intro checkPlan_not_short [OF l(1,4) o r assms(8,9,9)]) simp_all
  moreover have "length outs = length kept" using assms(4) list_all2_lengthD [OF checkPlan_answers [of ?g plan n counted book]] p(1) by auto
  ultimately show ?thesis using p(1) by simp
qed

text \<open>An IRA that counts ticks, with 101.50 in cash, a fee of 1 and a reserve of 0.50: of four shares at 50 the scaling keeps two.\<close>

definition tick_ira :: gate where
  "tick_ira = RecordDecision (example_ira\<lparr>g_quantityScale := FractionalQuantityScale, g_roundingSlack := Fin (1 / 2)\<rparr>) ''d1''"

definition tick_book :: gate_book where
  "tick_book = \<lparr>gb_QuantityScale = 10000, gb_Holdings = [], gb_Prices = [], gb_WorkingSells = [], gb_PriorOrders = 0, gb_PriorCounted = 0,
     gb_CashAvailable = Fin (203 / 2), gb_At = example_time + second_ns\<rparr>"

definition tick_buy :: "int \<Rightarrow> order_planned" where
  "tick_buy quantity = (o_Planned (example_order ''U2'' ''d1'' ''c1'' ''BBB'' OrderSideBuy quantity))
     \<lparr>op_RoundingSlack := Fin (1 / 2), op_FractionalIncrement := ''0.0001'', op_QuantityScale := 10000\<rparr>"

definition tick_order :: "int \<Rightarrow> gate_order" where
  "tick_order quantity = (example_order ''U2'' ''d1'' ''c1'' ''BBB'' OrderSideBuy quantity)\<lparr>o_Planned := tick_buy quantity\<rparr>"

lemma tick_scaling: "scaleFractionalBuys [tick_buy 40000] (Fin (203 / 2)) (Fin 1) = ([tick_buy 20000], [], Fin (1 / 2))"
  by code_simp

lemma tick_planErrs: "planErrs tick_ira tick_book [tick_order 20000] = []"
  by code_simp

theorem kept_buys_never_short_of_cash_witness:
  "\<exists>g' outs. scaleFractionalBuys [tick_buy 40000] (Fin (203 / 2)) (Fin 1) = ([tick_buy 20000], [], Fin (1 / 2)) \<and>
     Check tick_ira tick_book [tick_order 20000] = Inr (g', outs) \<and> length outs = 1 \<and> list_all (\<lambda>out. \<not> shortOfCash out) outs"
proof -
  obtain g' outs where c: "Check tick_ira tick_book [tick_order 20000] = Inr (g', outs)"
    using tick_planErrs by (auto simp: Check_plan) (metis surj_pair)
  have e: "gb_CashAvailable tick_book = Fin (203 / 2)" "g_maxFees tick_ira = Fin 1" "g_ira tick_ira" "is_f64 (Fin (203 / 2))"
    "list_all (\<lambda>b. in64 (op_Quantity b)) [tick_buy 40000]" "cash_typed tick_ira [tick_order 20000]" by code_simp+
  have r: "\<forall>b \<in> set [tick_buy 40000]. reservedBuy tick_ira b"
    by (simp add: reservedBuy_def tick_buy_def example_order_def tick_ira_def RecordDecision_def)
  have o: "map o_Planned [tick_order 20000] = [tick_buy 20000]" by (simp add: tick_order_def)
  from kept_buys_never_short_of_cash [OF tick_scaling [folded e(1,2)] e(5) r o c e(3,6,1,4)] c tick_scaling
  show ?thesis by (intro exI [of _ g'] exI [of _ outs]) simp
qed

end
