(* ===== verification/Spec2Isabelle.thy ===== *)
theory Spec2Isabelle
  imports Sizing TurtleAccount RiskRuns Boost Glide MomentumDecide IraRebalance IraGate
begin

text \<open>
  A verification of the trading core of this repository. The platform decides trades for one owner's broker
  accounts: a strategy reads prices and says what the account should hold, an order planner turns that into limit
  orders, a hard-limit gate releases or refuses each of them, and a reconciliation compares the account with the
  broker's own record of it and halts the gate where they differ. Go code under \<open>src/internal\<close> is pure; every input
  and output is a journalled event. The theories follow that split.

  \<^bold>\<open>Foundations.\<close>
  \<^item> \<open>Prelude\<close>: the result type (\<open>Inl\<close> the errors joined in the order Go joins them, \<open>Inr\<close> the value) and the
    lemmas on lists and results that the components share.
  \<^item> \<open>Float64\<close>: Go's \<open>float64\<close> as binary64 with rounding to nearest, ties to even, infinities and NaN. Values are
    exact rationals, so a comparison or an operation evaluates in the kernel. The two zeroes are one value: no
    modelled code tells them apart.
  \<^item> \<open>GoBase\<close>: 64-bit integers with their wrap-around, instants, civil days, Go maps, byte-wise string order.
  \<^item> \<open>Quantity\<close> (\<open>event/quantity.go\<close>, \<open>event/money.go\<close>): fixed-point share quantities and their text, the
    cost of a buy in cents.
  \<^item> \<open>Sha256\<close>: the digest that client order identifiers are cut from.
  \<^item> \<open>Calendar\<close> (\<open>nysecalendar\<close>): sessions, holidays, early closes, and the count of closes in a span.

  \<^bold>\<open>Strategy arithmetic.\<close>
  \<^item> \<open>Sizing\<close> (\<open>sizing/*.go\<close>): Unit quantities under a budget, add ladders, protective stops, open risk.
  \<^item> \<open>Indicator\<close> (\<open>indicator/*.go\<close>): rolling channels, Wilder's N, strength. The locale \<open>window\<close> states the
    contract of an accumulator over the last readings; both channels and the rolling window interpret it, and each
    refines a function of the list of everything it was given.

  \<^bold>\<open>The Turtle account\<close> (\<open>strategy/\<close>).
  \<^item> \<open>AccountEvents\<close>: the payloads the account reads and journals, and the fill, with their validators.
  \<^item> \<open>Notional\<close> (\<open>notional.go\<close>, \<open>NotionalAccount\<close>): drawdown steps, re-basing, recovery and cash movements, shown
    against the ladder they descend. The loop of steps has the code's bound of 1024, which a
    comment of the code calls unreachable and \<open>Observe_stands_still\<close> reaches.
  \<^item> \<open>TurtleAccount\<close> (\<open>notional.go\<close>, \<open>hold.go\<close>): the handlers of snapshots and movements, the debits of fills, the
    holds of proposals. Its journal is shown to tell the account to a reader who has nothing else.

  \<^bold>\<open>Target-weight rules\<close> (\<open>targetweight/\<close>).
  \<^item> \<open>Boost\<close> (\<open>boost/boost.go\<close>): the trend mean, the exit mean, Wilder's RSI, and the latch between them. The means
    refine the list of closes through the same locale \<open>window\<close> as the channels; the RSI stays in range under rounding,
    for prices up to \<open>price_cap\<close> and periods up to \<open>2 ^ 20\<close>, which no market reaches.
  \<^item> \<open>Dates\<close>, \<open>Glide\<close> (\<open>glide/*.go\<close>): the owner's age, the bond share that grows with it, the combined target.
  \<^item> \<open>Momentum\<close>, \<open>MomentumBook\<close>, \<open>MomentumDecide\<close> (\<open>momentum/*.go\<close>): the universe of a snapshot, the score of a
    history, the trend filter, the selection of the book and the decision of a month. \<open>f_sqrt\<close> is the correctly rounded
    root, from an integer root. The substitution of names one share of which costs too much runs passes until none is
    left; its measure is the count of names not yet skipped. \<open>MomentumProps\<close> and \<open>MomentumSelection\<close> show what a
    universe and a book guarantee and where the live rule agrees with the backtest's.

  \<^bold>\<open>Events.\<close> \<open>OrderEvents\<close>, \<open>OrderOutcomes\<close> and \<open>ReconcileEvents\<close> hold the payloads of \<open>event/\<close> that the order
  path reads and writes, a record per Go struct and a validator per \<open>Validate\<close> method, with its errors in order.
  \<open>BoostFigures\<close> and \<open>TargetsDecided\<close> are the decision of a target-weight strategy: the orders a Boost decision lists,
  the names of a momentum decision, and what each schema version may hold.

  \<^bold>\<open>Planning.\<close> \<open>OrderPlan\<close> (\<open>orderplan/orderplan.go\<close>, \<open>sale.go\<close>): identifiers, limit prices, the sale back to
  target. \<open>BoostPlan\<close>: the Boost order. \<open>IraPlan\<close> (\<open>orderplan/ira.go\<close>): the monthly rebalance in whole shares and in
  ticks, the records of what cannot be ordered, the scaling of the buys and the budget they are released from.
  \<open>IraRebalance\<close> shows what a rebalance trades, \<open>IraScaling\<close> that the fractional scaling fits the cash and loses
  no buy (and an input on which the whole-share scaling does not fit) and when the budget can be overspent, \<open>IraGate\<close> that
  the gate agrees.

  \<^bold>\<open>Reconciliation.\<close> \<open>Reconcile\<close> (\<open>reconcile/*.go\<close>): one classification of a broker statement against the book, as
  the fold over bridging facts the code performs, and the close-snapshot check.

  \<^bold>\<open>The gate.\<close> \<open>SellLedger\<close> is the ledger of released sells in \<open>risklimit/pending.go\<close>; \<open>RiskGate\<close>, \<open>RiskStates\<close>,
  \<open>RiskReconcile\<close> and \<open>RiskRecovery\<close> are \<open>limits.go\<close>, \<open>states.go\<close>, \<open>reconcile.go\<close> and \<open>recovery.go\<close>: one record
  \<open>gate\<close> with the fields of \<open>Gate\<close>, and one definition per method, which returns the gate it leaves.
  \<open>RiskSafety\<close> shows what one check of a plan guarantees. \<open>RiskInvariants\<close> feeds the gate one input at a time
  (\<open>deliver\<close>) and shows what each operation keeps; \<open>RiskMachine\<close> composes them: the locale \<open>monotone_machine\<close> proves
  once that a run keeps an invariant and only moves along an order, and is interpreted on the gate's own step function,
  once for its engine state and once for its sale attempts. \<open>RiskRestore\<close> shows that a recovery is applied
  whole. \<open>RiskExample\<close> and \<open>RiskRuns\<close> hold the worked accounts and runs on which the hypotheses are met. The locale
  \<open>sell_netting\<close> states what a ledger promises the gate, and is interpreted on the ledger of \<open>SellLedger\<close>.

  \<^bold>\<open>How the parts meet.\<close> A plan's orders carry figures that \<open>Check\<close> compares with the limits; the check asks the
  ledger how many shares are sure to remain (\<open>SellLedger.remains\<close>) and writes what it releases back to the ledger; a
  broker snapshot rewrites the baseline of the ledger; a venue report ends or fills a released order; a reconciliation's
  result tightens the engine state, which the next check reads first.

  \<^bold>\<open>Bounds and fuel.\<close> Sums and differences of \<open>int64\<close> wrap (\<open>add64\<close>, \<open>sub64\<close>). Loops are structural recursions or
  carry a proved measure; no definition of the gate, the planner or the reconciliation uses fuel; the
  scaling's bisection runs the 128 rounds the code runs. The counter of sessions
  walks at most one day per step of the span it is given.

  \<^bold>\<open>Not modelled.\<close> JSON text and its decoding; version tables and upcasters of old schemas; the prose of messages (a
  constructor carries its arguments). The Turtle strategy's other event handlers (\<open>strategy/\<close>) and the target-weight handler,
  the fill simulation (\<open>fills/\<close>), the journal and its files, restart, replay, registry, parity, reports and every command
  under \<open>cmd/\<close>: they are file, process and network code around the core, or are left to later work, as the manifest says
  of each. The Python adapters, LEAN and the broker are outside: what they report is an input.
\<close>

end
